(* ===== verification/Ralph_Prelude.thy ===== *)
theory Ralph_Prelude
  imports Complex_Main "HOL-Library.AList"
begin

text \<open>
  Shared vocabulary of the development: Python dictionaries as association lists with the
  insertion order Python keeps, exceptions as values of a sum type, the f-string renderings
  the routing code builds its messages with, and the locale that states the laws of a dictionary.
\<close>

named_theorems dict_simps \<open>lookup after update in dictionaries\<close>
named_theorems result_simps \<open>evaluation of the exception monad\<close>
named_theorems route_defs \<open>definitions unfolded in routing proofs\<close>

section \<open>Python dictionaries\<close>

text \<open>
  A \<^verbatim>\<open>dict\<close> is an association list: \<^verbatim>\<open>d.get(k)\<close> is \<open>map_of d k\<close>; \<^verbatim>\<open>{**d, k: v}\<close> keeps the
  position of an existing key and appends a new one, which is what \<open>AList.update\<close> does.
\<close>

type_synonym ('k, 'v) dict = "('k \<times> 'v) list"

abbreviation dict_get :: "('k, 'v) dict \<Rightarrow> 'k \<Rightarrow> 'v option" where
  "dict_get d k \<equiv> map_of d k"

abbreviation dict_has :: "('k, 'v) dict \<Rightarrow> 'k \<Rightarrow> bool" where
  "dict_has d k \<equiv> map_of d k \<noteq> None"

abbreviation dict_set :: "'k \<Rightarrow> 'v \<Rightarrow> ('k, 'v) dict \<Rightarrow> ('k, 'v) dict" where
  "dict_set k v d \<equiv> AList.update k v d"

definition dict_get_or :: "('k, 'v) dict \<Rightarrow> 'k \<Rightarrow> 'v \<Rightarrow> 'v" where
  "dict_get_or d k dflt = (case dict_get d k of None \<Rightarrow> dflt | Some v \<Rightarrow> v)"

definition dict_pop :: "'k \<Rightarrow> ('k, 'v) dict \<Rightarrow> ('k, 'v) dict" where
  "dict_pop k d = filter (\<lambda>(k', v). k' \<noteq> k) d"

lemma dict_get_set [dict_simps, simp]:
  "dict_get (dict_set k v d) k' = (if k' = k then Some v else dict_get d k')"
  by (simp add: update_conv)

lemma dict_get_pop [dict_simps, simp]:
  "dict_get (dict_pop k d) k' = (if k' = k then None else dict_get d k')"
  by (induction d) (auto simp: dict_pop_def)

lemma dict_get_or_set [dict_simps, simp]:
  "dict_get_or (dict_set k v d) k' x = (if k' = k then v else dict_get_or d k' x)"
  by (simp add: dict_get_or_def)

lemma dict_keys_set [dict_simps]: "fst ` set (dict_set k v d) = insert k (fst ` set d)"
  using dom_update [of k v d] by (simp add: dom_map_of_conv_image_fst)

lemma dict_has_keys: "dict_has d k \<longleftrightarrow> k \<in> fst ` set d"
  by (simp add: map_of_eq_None_iff)

lemma dict_get_in: "dict_get d k = Some v \<Longrightarrow> (k, v) \<in> set d"
  by (rule map_of_SomeD)

lemma dict_set_distinct: "distinct (map fst d) \<Longrightarrow> distinct (map fst (dict_set k v d))"
  by (rule distinct_update)

text \<open>The interface every dictionary client relies on, and its laws.\<close>

locale dictionary =
  fixes lookup :: "'d \<Rightarrow> 'k \<Rightarrow> 'v option"
    and store :: "'k \<Rightarrow> 'v \<Rightarrow> 'd \<Rightarrow> 'd"
    and remove :: "'k \<Rightarrow> 'd \<Rightarrow> 'd"
  assumes lookup_store: "lookup (store k v d) k' = (if k' = k then Some v else lookup d k')"
    and lookup_remove: "lookup (remove k d) k' = (if k' = k then None else lookup d k')"
begin

lemma store_store: "lookup (store k v (store k w d)) = lookup (store k v d)"
  by (rule ext) (simp add: lookup_store)

lemma store_commute: "k \<noteq> l \<Longrightarrow> lookup (store k v (store l w d)) = lookup (store l w (store k v d))"
  by (rule ext) (simp add: lookup_store)

lemma remove_store: "lookup (remove k (store k v d)) = lookup (remove k d)"
  by (rule ext) (simp add: lookup_store lookup_remove)

lemma fold_store_lookup:
  "lookup (fold (\<lambda>k. store k v) ks d) k' = (if k' \<in> set ks then Some v else lookup d k')"
  by (induction ks arbitrary: d) (simp_all add: lookup_store)

end

interpretation py_dict: dictionary "map_of :: ('k \<times> 'v) list \<Rightarrow> 'k \<Rightarrow> 'v option" AList.update dict_pop
  by unfold_locales (simp_all add: dict_simps)

section \<open>Exceptions as values\<close>

text \<open>
  \<open>ValidationError\<close> is the exception pydantic raises when a validator of a model raised a
  \<^verbatim>\<open>ValueError\<close>; it carries the validator's message. It and \<^verbatim>\<open>WorkUnitsValidationError\<close> are subclasses of
  \<^verbatim>\<open>ValueError\<close>; no handler modelled here catches a \<^verbatim>\<open>ValueError\<close> where one of them is raised.
\<close>

datatype py_error =
    ValueError string
  | RuntimeError string
  | KeyError string
  | IndexError string
  | PhaseHandlerNotFoundError string
  | WorkUnitsValidationError string
  | ValidationError string
  | ExceptionGroup string

type_synonym 'a result = "py_error + 'a"

definition bind_r :: "'a result \<Rightarrow> ('a \<Rightarrow> 'b result) \<Rightarrow> 'b result" where
  "bind_r r f = (case r of Inl e \<Rightarrow> Inl e | Inr x \<Rightarrow> f x)"

text \<open>\<^verbatim>\<open>try: ... except ValueError as exc: h(str(exc))\<close>.\<close>

definition catch_value_error :: "'a result \<Rightarrow> (string \<Rightarrow> 'a result) \<Rightarrow> 'a result" where
  "catch_value_error r h = (case r of Inl (ValueError m) \<Rightarrow> h m | _ \<Rightarrow> r)"

lemma bind_r_Inl [result_simps, simp]: "bind_r (Inl e) f = Inl e"
  by (simp add: bind_r_def)

lemma bind_r_Inr [result_simps, simp]: "bind_r (Inr x) f = f x"
  by (simp add: bind_r_def)

lemma bind_r_eq_Inr: "bind_r r f = Inr y \<longleftrightarrow> (\<exists>x. r = Inr x \<and> f x = Inr y)"
  by (cases r) simp_all

lemma bind_r_eq_Inl: "bind_r r f = Inl e \<longleftrightarrow> r = Inl e \<or> (\<exists>x. r = Inr x \<and> f x = Inl e)"
  by (cases r) simp_all

lemma bind_r_cong [fundef_cong]:
  "r = r' \<Longrightarrow> (\<And>x. r' = Inr x \<Longrightarrow> f x = g x) \<Longrightarrow> bind_r r f = bind_r r' g"
  by (cases r') simp_all

lemma catch_value_error_Inr [result_simps, simp]: "catch_value_error (Inr x) h = Inr x"
  by (simp add: catch_value_error_def)

lemma catch_value_error_ValueError [result_simps, simp]:
  "catch_value_error (Inl (ValueError m)) h = h m"
  by (simp add: catch_value_error_def)

lemma catch_value_error_eq_Inr:
  "catch_value_error r h = Inr y \<longleftrightarrow> r = Inr y \<or> (\<exists>m. r = Inl (ValueError m) \<and> h m = Inr y)"
  by (auto simp: catch_value_error_def split: sum.splits py_error.splits)

definition returns :: "'a result \<Rightarrow> bool" where
  "returns r \<longleftrightarrow> (\<exists>x. r = Inr x)"

lemma returns_code [code]: "returns r = (case r of Inl e \<Rightarrow> False | Inr x \<Rightarrow> True)"
  by (auto simp: returns_def split: sum.splits)

lemma returns_Inr [simp]: "returns (Inr x)"
  by (simp add: returns_def)

lemma returns_Inl [simp]: "\<not> returns (Inl e)"
  by (simp add: returns_def)

lemma returns_bind_r [simp]:
  "returns (bind_r r f) \<longleftrightarrow> (\<exists>x. r = Inr x \<and> returns (f x))"
  by (cases r) simp_all

lemma returns_catch:
  "returns r \<Longrightarrow> returns (catch_value_error r h)"
  by (auto simp: returns_def)

text \<open>A contract on results: the call returns, and what it returns satisfies \<open>Q\<close>.\<close>

definition result_all :: "('a \<Rightarrow> bool) \<Rightarrow> 'a result \<Rightarrow> bool" where
  "result_all Q r = (case r of Inl e \<Rightarrow> True | Inr x \<Rightarrow> Q x)"

lemma result_all_simps [simp]:
  "result_all Q (Inl e)" "result_all Q (Inr x) = Q x"
  by (simp_all add: result_all_def)

lemma result_all_bind [simp]:
  "result_all Q (bind_r r f) = result_all (\<lambda>x. result_all Q (f x)) r"
  by (cases r) simp_all

lemma result_all_catch:
  "result_all Q r \<Longrightarrow> (\<And>m. result_all Q (h m)) \<Longrightarrow> result_all Q (catch_value_error r h)"
  by (cases r) (auto simp: catch_value_error_def split: py_error.splits)

lemma result_all_mono: "result_all Q r \<Longrightarrow> (\<And>x. Q x \<Longrightarrow> R x) \<Longrightarrow> result_all R r"
  by (cases r) simp_all

lemma result_all_True [simp]: "result_all (\<lambda>_. True) r"
  by (cases r) simp_all

lemma result_allD: "result_all Q r \<Longrightarrow> r = Inr x \<Longrightarrow> Q x"
  by simp

lemma result_all_conj: "result_all (\<lambda>x. P x \<and> Q x) r \<longleftrightarrow> result_all P r \<and> result_all Q r"
  by (cases r) auto

section \<open>Rendering of values in f-strings\<close>

fun nat_digits :: "nat \<Rightarrow> string" where
  "nat_digits n =
     (if n < 10 then [char_of (48 + n)] else nat_digits (n div 10) @ [char_of (48 + n mod 10)])"

declare nat_digits.simps [simp del]

definition int_str :: "int \<Rightarrow> string" where
  "int_str i = (if i < 0 then ''-'' @ nat_digits (nat (- i)) else nat_digits (nat i))"

definition nat_str :: "nat \<Rightarrow> string" where
  "nat_str n = int_str (int n)"

text \<open>\<^verbatim>\<open>format(x, '.0f')\<close>: round to the nearest integer, ties to even, sign kept.\<close>

definition round_half_even :: "rat \<Rightarrow> int" where
  "round_half_even x =
     (let f = \<lfloor>x\<rfloor>; d = x - of_int f
      in if d < 1 / 2 then f else if 1 / 2 < d then f + 1 else if even f then f else f + 1)"

definition fmt0 :: "rat \<Rightarrow> string" where
  "fmt0 x = (if x < 0 then ''-'' @ int_str (round_half_even (- x)) else int_str (round_half_even x))"

definition bool_str :: "bool \<Rightarrow> string" where
  "bool_str b = (if b then ''True'' else ''False'')"

text \<open>
  \<^verbatim>\<open>repr\<close> of a string of code points below 256: single quotes unless the text holds a single
  quote and no double quote; backslash, the chosen quote and the control characters are escaped.
\<close>

definition hex_digit :: "nat \<Rightarrow> char" where
  "hex_digit n = char_of (if n < 10 then 48 + n else 87 + n)"

definition repr_char :: "char \<Rightarrow> char \<Rightarrow> string" where
  "repr_char q c =
     (let n = of_char c :: nat; bs = char_of (92 :: nat) in
      if c = q \<or> c = bs then [bs, c]
      else if n = 10 then [bs, CHR ''n'']
      else if n = 13 then [bs, CHR ''r'']
      else if n = 9 then [bs, CHR ''t'']
      else if n < 32 \<or> (127 \<le> n \<and> n < 161) \<or> n = 173
        then [bs, CHR ''x'', hex_digit (n div 16), hex_digit (n mod 16)]
      else [c])"

definition str_repr :: "string \<Rightarrow> string" where
  "str_repr s =
     (let sq = char_of (39 :: nat); dq = char_of (34 :: nat);
          q = (if sq \<in> set s \<and> dq \<notin> set s then dq else sq)
      in q # concat (map (repr_char q) s) @ [q])"

text \<open>\<^verbatim>\<open>f"'{x}'"\<close> as it appears in the messages.\<close>

definition quoted :: "string \<Rightarrow> string" where
  "quoted x = [CHR 0x27] @ x @ [CHR 0x27]"

definition str_join :: "string \<Rightarrow> string list \<Rightarrow> string" where
  "str_join sep xs = (case xs of [] \<Rightarrow> [] | y # ys \<Rightarrow> y @ concat (map (\<lambda>z. sep @ z) ys))"

text \<open>\<^verbatim>\<open>s.strip()\<close> and \<^verbatim>\<open>sub in s\<close> on strings of code points below 256.\<close>

definition is_space :: "char \<Rightarrow> bool" where
  "is_space c = (let n = of_char c :: nat in
     (9 \<le> n \<and> n \<le> 13) \<or> (28 \<le> n \<and> n \<le> 32) \<or> n = 133 \<or> n = 160)"

definition str_strip :: "string \<Rightarrow> string" where
  "str_strip s = rev (dropWhile is_space (rev (dropWhile is_space s)))"

fun starts_with :: "string \<Rightarrow> string \<Rightarrow> bool" where
  "starts_with [] s = True"
| "starts_with (p # ps) [] = False"
| "starts_with (p # ps) (c # s) = (p = c \<and> starts_with ps s)"

fun str_contains :: "string \<Rightarrow> string \<Rightarrow> bool" where
  "str_contains p [] = starts_with p []"
| "str_contains p (c # s) = (starts_with p (c # s) \<or> str_contains p s)"

lemma starts_with_iff: "starts_with p s \<longleftrightarrow> (\<exists>t. s = p @ t)"
  by (induction p s rule: starts_with.induct) auto

lemma str_contains_iff: "str_contains p s \<longleftrightarrow> (\<exists>a b. s = a @ p @ b)"
proof (induction s)
  case Nil
  show ?case by (auto simp: starts_with_iff)
next
  case (Cons c s)
  have "(\<exists>a b. c # s = a @ p @ b) \<longleftrightarrow> (\<exists>b. c # s = p @ b) \<or> (\<exists>a b. s = a @ p @ b)"
    by (metis append_Cons append_Nil list.exhaust list.inject)
  with Cons.IH show ?case by (simp add: starts_with_iff)
qed

lemma str_contains_append [simp]: "str_contains p t \<Longrightarrow> str_contains p (s @ t)"
  by (metis append.assoc str_contains_iff)

text \<open>
  On code points below 256 \<^verbatim>\<open>lower\<close> adds 32 to the capital letters, and \<^verbatim>\<open>casefold\<close> also turns the sharp s
  into two letters; the micro sign, which Python folds outside this range, is kept, which no test in
  the program can notice, as it compares with ASCII texts only.
\<close>

definition lower_char :: "char \<Rightarrow> char" where
  "lower_char c = (let n = of_char c :: nat in
     if (65 \<le> n \<and> n \<le> 90) \<or> (192 \<le> n \<and> n \<le> 222 \<and> n \<noteq> 215) then char_of (n + 32) else c)"

definition str_lower :: "string \<Rightarrow> string" where
  "str_lower s = map lower_char s"

definition casefold :: "string \<Rightarrow> string" where
  "casefold s = concat (map (\<lambda>c. if of_char c = (223 :: nat) then ''ss'' else [lower_char c]) s)"

text \<open>\<^verbatim>\<open>s.splitlines()\<close> on code points below 256; a carriage return and a line feed count as one break.\<close>

definition is_line_break :: "char \<Rightarrow> bool" where
  "is_line_break c \<longleftrightarrow> of_char c \<in> {10, 11, 12, 13, 28, 29, 30, 133 :: nat}"

fun splitlines_from :: "string \<Rightarrow> string \<Rightarrow> string list" where
  "splitlines_from cur [] = (if cur = [] then [] else [rev cur])"
| "splitlines_from cur (c # cs) =
     (if is_line_break c
      then rev cur # splitlines_from [] (if of_char c = (13 :: nat) \<and> starts_with [char_of (10 :: nat)] cs then tl cs else cs)
      else splitlines_from (c # cur) cs)"

definition splitlines :: "string \<Rightarrow> string list" where
  "splitlines s = splitlines_from [] s"

end
