(* ===== verification/Graph_Search.thy ===== *)
theory Graph_Search
  imports Ralph_Prelude
begin

text \<open>
  The stack-driven search behind the graph walks of the policy and timing code
  (\<^verbatim>\<open>_outside_cycle_phases\<close>, \<^verbatim>\<open>_reachable_avoiding\<close>), and the proof that it returns exactly the
  nodes reachable through admissible nodes. The locale names what a walk is given; every walk of
  the model is one interpretation of it.
\<close>

text \<open>
  \<^verbatim>\<open>
  while frontier:
      x = frontier.pop()
      if x in seen or x not in nodes or not admissible(x): continue
      seen.add(x); frontier.extend(succs(x))
  \<close>
  The frontier is a stack with its top at the head, so \<^verbatim>\<open>extend\<close> pushes the reversed list.
\<close>

function stack_search ::
    "'a list \<Rightarrow> ('a \<Rightarrow> bool) \<Rightarrow> ('a \<Rightarrow> 'a list) \<Rightarrow> 'a list \<Rightarrow> 'a list \<Rightarrow> 'a list" where
  "stack_search V ok succs seen [] = seen"
| "stack_search V ok succs seen (x # fr) =
     (if x \<in> set seen \<or> x \<notin> set V \<or> \<not> ok x then stack_search V ok succs seen fr
      else stack_search V ok succs (x # seen) (rev (succs x) @ fr))"
  by pat_completeness auto
termination
proof (relation "measures [\<lambda>(V, ok, succs, seen, fr). card (set V - set seen),
                           \<lambda>(V, ok, succs, seen, fr). length fr]", goal_cases)
  case 1
  show ?case by simp
next
  case (2 V ok succs seen x fr)
  then show ?case by simp
next
  case (3 V ok succs seen x fr)
  then have "x \<in> set V - set seen" by simp
  then have "card (set V - set (x # seen)) < card (set V - set seen)"
    by (intro psubset_card_mono) auto
  then show ?case by simp
qed

locale graph_walk =
  fixes V :: "'a list"
    and ok :: "'a \<Rightarrow> bool"
    and succs :: "'a \<Rightarrow> 'a list"
begin

definition admissible :: "'a \<Rightarrow> bool" where
  "admissible x \<longleftrightarrow> x \<in> set V \<and> ok x"

definition edge :: "'a \<Rightarrow> 'a \<Rightarrow> bool" where
  "edge x y \<longleftrightarrow> admissible x \<and> y \<in> set (succs x) \<and> admissible y"

definition reached :: "'a set \<Rightarrow> 'a set" where
  "reached S = {y. \<exists>x \<in> S. admissible x \<and> edge\<^sup>*\<^sup>* x y}"

lemma reached_Un: "reached (A \<union> B) = reached A \<union> reached B"
  by (auto simp: reached_def)

lemma reached_empty [simp]: "reached {} = {}"
  by (simp add: reached_def)

lemma reached_admissible: "y \<in> reached S \<Longrightarrow> admissible y"
  unfolding reached_def by (auto elim: rtranclp.cases simp: edge_def)

lemma reached_mono: "A \<subseteq> B \<Longrightarrow> reached A \<subseteq> reached B"
  by (auto simp: reached_def)

lemma reached_step: "x \<in> reached S \<Longrightarrow> y \<in> set (succs x) \<Longrightarrow> admissible y \<Longrightarrow> y \<in> reached S"
proof -
  assume x: "x \<in> reached S" and y: "y \<in> set (succs x)" "admissible y"
  from x have "admissible x" by (rule reached_admissible)
  with y have "edge x y" by (simp add: edge_def)
  with x show ?thesis
    unfolding reached_def by (blast intro: rtranclp.rtrancl_into_rtrancl)
qed

lemma reached_start: "x \<in> S \<Longrightarrow> admissible x \<Longrightarrow> x \<in> reached S"
  by (auto simp: reached_def)

lemma reached_least:
  assumes "\<And>x. x \<in> S \<Longrightarrow> admissible x \<Longrightarrow> x \<in> T"
    and "\<And>x y. x \<in> T \<Longrightarrow> y \<in> set (succs x) \<Longrightarrow> admissible y \<Longrightarrow> y \<in> T"
  shows "reached S \<subseteq> T"
proof
  fix y assume "y \<in> reached S"
  then obtain x where x: "x \<in> S" "admissible x" and path: "edge\<^sup>*\<^sup>* x y"
    by (auto simp: reached_def)
  from path show "y \<in> T"
    by (induction rule: rtranclp_induct) (use x assms in \<open>auto simp: edge_def\<close>)
qed

text \<open>
  The search invariant: successors of a seen node are seen, inadmissible or still on the frontier.
\<close>

definition closed_upto :: "'a list \<Rightarrow> 'a list \<Rightarrow> bool" where
  "closed_upto seen fr \<longleftrightarrow>
     (\<forall>x \<in> set seen. \<forall>y \<in> set (succs x). admissible y \<longrightarrow> y \<in> set seen \<union> set fr)"

lemma search_sound:
  "set seen \<subseteq> reached S \<Longrightarrow> set fr \<inter> Collect admissible \<subseteq> reached S \<Longrightarrow>
   set (stack_search V ok succs seen fr) \<subseteq> reached S"
proof (induction V ok succs seen fr rule: stack_search.induct)
  case (1 V ok succs seen)
  then show ?case by simp
next
  case (2 V ok succs seen x fr)
  show ?case
  proof (cases "x \<in> set seen \<or> x \<notin> set V \<or> \<not> ok x")
    case True
    with 2 show ?thesis by auto
  next
    case False
    then have adm: "graph_walk.admissible V ok x" by (simp add: graph_walk.admissible_def)
    with "2.prems" have x: "x \<in> graph_walk.reached V ok succs S" by auto
    from x have "set (rev (succs x) @ fr) \<inter> Collect (graph_walk.admissible V ok)
        \<subseteq> graph_walk.reached V ok succs S"
      using "2.prems"(2) graph_walk.reached_step [of x V ok succs S] by auto
    with False x "2.IH"(2) "2.prems"(1) show ?thesis by auto
  qed
qed

lemma search_complete:
  "closed_upto seen fr \<Longrightarrow> set seen \<subseteq> set (stack_search V ok succs seen fr) \<and>
   set fr \<inter> Collect admissible \<subseteq> set (stack_search V ok succs seen fr) \<and>
   closed_upto (stack_search V ok succs seen fr) []"
proof (induction V ok succs seen fr rule: stack_search.induct)
  case (1 V ok succs seen)
  then show ?case by (simp add: graph_walk.closed_upto_def)
next
  case (2 V ok succs seen x fr)
  show ?case
  proof (cases "x \<in> set seen \<or> x \<notin> set V \<or> \<not> ok x")
    case True
    with "2.prems" have "graph_walk.closed_upto V ok succs seen fr"
      by (auto simp: graph_walk.closed_upto_def graph_walk.admissible_def)
    with True "2.IH"(1) show ?thesis by (auto simp: graph_walk.admissible_def)
  next
    case False
    from "2.prems" have "graph_walk.closed_upto V ok succs (x # seen) (rev (succs x) @ fr)"
      by (auto simp: graph_walk.closed_upto_def)
    with False "2.IH"(2) show ?thesis by auto
  qed
qed

theorem search_reached: "set (stack_search V ok succs [] fr) = reached (set fr)"
proof
  show "set (stack_search V ok succs [] fr) \<subseteq> reached (set fr)"
    by (rule search_sound) (auto intro: reached_start)
  have "closed_upto [] fr" by (simp add: closed_upto_def)
  from search_complete [OF this] show "reached (set fr) \<subseteq> set (stack_search V ok succs [] fr)"
    by (intro reached_least) (auto simp: closed_upto_def)
qed

end

declare stack_search.simps [simp del]

end
