(* ===== verification/Policy_Model.thy ===== *)
theory Policy_Model
  imports Graph_Search
begin

text \<open>
  The compiled pipeline policy (\<^verbatim>\<open>src/ralph-workflow/ralph/policy/models/\<close>): one record per pydantic
  model, with the model's fields, and one Boolean function per \<^verbatim>\<open>@model_validator\<close>, true exactly when
  the validator does not raise. Dictionaries are association lists in insertion order. Durations
  are exact rationals. \<open>validated\<close> is what a \<^verbatim>\<open>PipelinePolicy\<close> that was constructed at all
  satisfies.
\<close>

section \<open>Policy documents\<close>

datatype PhaseRole =
    RoleExecution | RoleAnalysis | RoleReview | RoleCommit | RoleVerification | RoleTerminal
  | RoleFanoutJoin | RoleCommitCleanup

datatype BudgetStateLabel = Remaining | Exhausted | NoReview

datatype TerminalOutcome = OutcomeSuccess | OutcomeFailure

record PhaseTransition =
  on_success :: string
  on_failure :: "string option"
  on_loopback :: "string option"

record PhaseLoopPolicy =
  iteration_state_field :: string
  loopback_review_outcome :: "string option"

record PhaseDecisionRoute =
  dr_target :: string
  dr_reset_loop :: bool
  dr_cycle_outcome :: "string option"
  dr_increments_counter :: "string option"

record PhaseCommitPolicy =
  cp_requires_artifact :: bool
  cp_skipped_advances_progress :: bool
  cp_increments_counter :: "string option"
  cp_route_counter :: "string option"
  cp_loop_resets :: "string list"

record PhaseInvocationGate =
  upstream_execution_phase :: string
  minimum_elapsed_seconds :: rat
  always_invoke_statuses :: "string list"

record PhaseRetryPolicy =
  rp_max_retries :: int
  rp_retry_delay_ms :: int
  rp_retry_in_session :: bool

record PhaseParallelization =
  agent_subagents_dispatch :: bool
  max_parallel_workers :: int
  max_work_units :: int
  require_allowed_directories :: bool
  post_fanout_verification :: bool

record PhaseDefinition =
  pd_drain :: string
  pd_transitions :: PhaseTransition
  pd_role :: "PhaseRole option"
  pd_skip_invocation :: bool
  pd_retry_policy :: "PhaseRetryPolicy option"
  pd_loop_policy :: "PhaseLoopPolicy option"
  pd_decisions :: "(string, PhaseDecisionRoute) dict"
  pd_commit_policy :: "PhaseCommitPolicy option"
  pd_artifact_required :: bool
  pd_terminal_outcome :: "TerminalOutcome option"
  pd_bypass_routes :: "(string, string) dict"
  pd_result_status_post_commit :: "(string, string) dict"
  pd_clean_outcome :: "string option"
  pd_issues_outcome :: "string option"
  pd_parallelization :: "PhaseParallelization option"
  pd_workflow_fallback :: "string option"
  pd_invocation_gate :: "PhaseInvocationGate option"

text \<open>
  \<^verbatim>\<open>PhaseWorkflowFallback\<close> is its \<^verbatim>\<open>target\<close>: the \<^verbatim>\<open>note\<close> is documentation only. The prompt template
  names, display style, verification and artifact-history settings of \<^verbatim>\<open>PhaseDefinition\<close> are read by
  the prompt and display layers only and are left out.
\<close>

record LoopCounterConfig =
  lc_default_max :: int

record BudgetCounterConfig =
  bc_tracks_budget :: bool
  bc_default_max :: int

record PostCommitRoute =
  pr_phase :: string
  pr_budget_state :: BudgetStateLabel
  pr_cycle_outcome :: "string option"
  pr_target :: string

record LifecyclePhasePolicy =
  lp_lifecycle_name :: string
  lp_completion_block :: string
  lp_increments_counter :: "string option"
  lp_loop_resets :: "string list"

record RecoveryPolicy =
  rec_cycle_cap :: int
  rec_failed_route :: string
  rec_terminal_failure_phase :: "string option"

record CycleTimeboxPolicy =
  ct_duration_seconds :: rat
  ct_start_source :: string
  ct_start_entry :: string
  ct_guarded_entry :: string
  ct_end_entry :: string
  ct_finalization_target :: string
  ct_finalization_cycle_outcome :: string

record PipelinePolicy =
  pp_phases :: "(string, PhaseDefinition) dict"
  pp_entry_block :: "string option"
  pp_entry_phase :: string
  pp_terminal_phase :: string
  pp_loop_counters :: "(string, LoopCounterConfig) dict"
  pp_budget_counters :: "(string, BudgetCounterConfig) dict"
  pp_post_commit_routes :: "PostCommitRoute list"
  pp_lifecycle_phases :: "(string, LifecyclePhasePolicy) dict"
  pp_default_phase_retry_policy :: PhaseRetryPolicy
  pp_recovery :: RecoveryPolicy
  pp_cycle_timebox :: "CycleTimeboxPolicy option"

record AgentChainConfig =
  acc_agents :: "string list"
  acc_max_retries :: int
  acc_retry_delay_ms :: int

record AgentDrainConfig =
  adc_chain :: string
  adc_drain_class :: "string option"
  adc_capability_class :: "string option"

record AgentsPolicy =
  ap_agent_chains :: "(string, AgentChainConfig) dict"
  ap_agent_drains :: "(string, AgentDrainConfig) dict"
  ap_forbid_sibling_drain_inference :: bool

record PolicyBundle =
  pb_agents :: AgentsPolicy
  pb_pipeline :: PipelinePolicy

section \<open>Queries\<close>

abbreviation phase_of :: "PipelinePolicy \<Rightarrow> string \<Rightarrow> PhaseDefinition option" where
  "phase_of P ph \<equiv> dict_get (pp_phases P) ph"

abbreviation failed_route :: "PipelinePolicy \<Rightarrow> string" where
  "failed_route P \<equiv> rec_failed_route (pp_recovery P)"

definition terminal_phase_names :: "PipelinePolicy \<Rightarrow> string list" where
  "terminal_phase_names P =
     [pp_terminal_phase P, failed_route P]
     @ map fst (filter (\<lambda>(name, d). pd_role d = Some RoleTerminal) (pp_phases P))"

definition terminal_states :: "PipelinePolicy \<Rightarrow> string list" where
  "terminal_states P = terminal_phase_names P"

definition known_target :: "PipelinePolicy \<Rightarrow> string \<Rightarrow> bool" where
  "known_target P t \<longleftrightarrow> t \<in> set (terminal_states P) \<or> dict_has (pp_phases P) t"

definition warning_threshold_seconds :: "CycleTimeboxPolicy \<Rightarrow> rat" where
  "warning_threshold_seconds ct = ct_duration_seconds ct * (8 / 10)"

definition effective_retry_policy :: "PipelinePolicy \<Rightarrow> string \<Rightarrow> PhaseRetryPolicy" where
  "effective_retry_policy P ph =
     (case phase_of P ph of
        Some d \<Rightarrow> (case pd_retry_policy d of Some r \<Rightarrow> r | None \<Rightarrow> pp_default_phase_retry_policy P)
      | None \<Rightarrow> pp_default_phase_retry_policy P)"

definition opt_list :: "'a option \<Rightarrow> 'a list" where
  "opt_list x = (case x of None \<Rightarrow> [] | Some y \<Rightarrow> [y])"

lemma set_opt_list [simp]: "set (opt_list x) = set_option x"
  by (cases x) (simp_all add: opt_list_def)

section \<open>Validators of \<^verbatim>\<open>PipelinePolicy\<close>\<close>

definition all_transitions_reference_known_phases :: "PipelinePolicy \<Rightarrow> bool" where
  "all_transitions_reference_known_phases P \<longleftrightarrow>
     list_all (\<lambda>(name, d). list_all (known_target P)
       (on_success (pd_transitions d) # opt_list (on_failure (pd_transitions d))
        @ opt_list (on_loopback (pd_transitions d)))) (pp_phases P)"

definition entry_phase_exists :: "PipelinePolicy \<Rightarrow> bool" where
  "entry_phase_exists P \<longleftrightarrow> dict_has (pp_phases P) (pp_entry_phase P)"

definition no_phase_cycles_without_loopback :: "PipelinePolicy \<Rightarrow> bool" where
  "no_phase_cycles_without_loopback P \<longleftrightarrow>
     list_all (\<lambda>(name, d). name \<in> set (terminal_states P) \<or>
       \<not> (on_success (pd_transitions d) = name \<and> on_loopback (pd_transitions d) = None))
     (pp_phases P)"

definition post_commit_routes_reference_known_targets :: "PipelinePolicy \<Rightarrow> bool" where
  "post_commit_routes_reference_known_targets P \<longleftrightarrow>
     list_all (\<lambda>r. known_target P (pr_target r)) (pp_post_commit_routes P)"

definition post_commit_routes_unique_conditions :: "PipelinePolicy \<Rightarrow> bool" where
  "post_commit_routes_unique_conditions P \<longleftrightarrow>
     distinct (map (\<lambda>r. (pr_phase r, pr_budget_state r, pr_cycle_outcome r)) (pp_post_commit_routes P))"

definition parallelization_targets_non_terminal_phases :: "PipelinePolicy \<Rightarrow> bool" where
  "parallelization_targets_non_terminal_phases P \<longleftrightarrow>
     list_all (\<lambda>(name, d). \<not> (pd_parallelization d \<noteq> None \<and> pd_role d = Some RoleTerminal)) (pp_phases P)"

definition decision_routes_target_known_phases :: "PipelinePolicy \<Rightarrow> bool" where
  "decision_routes_target_known_phases P \<longleftrightarrow>
     list_all (\<lambda>(name, d). list_all (\<lambda>(dn, r). known_target P (dr_target r)) (pd_decisions d)) (pp_phases P)"

definition bypass_routes_target_known_phases :: "PipelinePolicy \<Rightarrow> bool" where
  "bypass_routes_target_known_phases P \<longleftrightarrow>
     list_all (\<lambda>(name, d). list_all (\<lambda>(oc, t). known_target P t) (pd_bypass_routes d)) (pp_phases P)"

definition result_status_post_commit_targets_known_phases :: "PipelinePolicy \<Rightarrow> bool" where
  "result_status_post_commit_targets_known_phases P \<longleftrightarrow>
     list_all (\<lambda>(name, d). list_all (\<lambda>(st, t). known_target P t) (pd_result_status_post_commit d))
       (pp_phases P)"

definition loop_counter_references_valid :: "PipelinePolicy \<Rightarrow> bool" where
  "loop_counter_references_valid P \<longleftrightarrow>
     pp_loop_counters P = [] \<or>
     list_all (\<lambda>(name, d). case pd_loop_policy d of None \<Rightarrow> True
       | Some lp \<Rightarrow> dict_has (pp_loop_counters P) (iteration_state_field lp)) (pp_phases P)"

definition budget_counter_references_valid :: "PipelinePolicy \<Rightarrow> bool" where
  "budget_counter_references_valid P \<longleftrightarrow>
     pp_budget_counters P = [] \<or>
     list_all (\<lambda>(name, d). case pd_commit_policy d of None \<Rightarrow> True
       | Some cp \<Rightarrow> (case cp_increments_counter cp of None \<Rightarrow> True
          | Some c \<Rightarrow> dict_has (pp_budget_counters P) c)) (pp_phases P)"

definition workflow_fallback_targets_valid :: "PipelinePolicy \<Rightarrow> bool" where
  "workflow_fallback_targets_valid P \<longleftrightarrow>
     list_all (\<lambda>(name, d). case pd_workflow_fallback d of None \<Rightarrow> True | Some t \<Rightarrow> known_target P t)
       (pp_phases P)"

definition terminal_failure_phase_valid :: "PipelinePolicy \<Rightarrow> bool" where
  "terminal_failure_phase_valid P \<longleftrightarrow>
     (case rec_terminal_failure_phase (pp_recovery P) of None \<Rightarrow> True
      | Some tfp \<Rightarrow> (case phase_of P tfp of None \<Rightarrow> False
          | Some d \<Rightarrow> pd_role d = Some RoleTerminal \<and> pd_terminal_outcome d = Some OutcomeFailure))"

definition cycle_timebox_references_known_phases :: "PipelinePolicy \<Rightarrow> bool" where
  "cycle_timebox_references_known_phases P \<longleftrightarrow>
     (case pp_cycle_timebox P of None \<Rightarrow> True
      | Some ct \<Rightarrow> list_all (known_target P)
          [ct_start_source ct, ct_start_entry ct, ct_guarded_entry ct, ct_end_entry ct,
           ct_finalization_target ct])"

definition recordable_cycle_outcomes :: "PipelinePolicy \<Rightarrow> string list" where
  "recordable_cycle_outcomes P =
     (case pp_cycle_timebox P of None \<Rightarrow> [] | Some ct \<Rightarrow> [ct_finalization_cycle_outcome ct])
     @ concat (map (\<lambda>(name, d). concat (map (\<lambda>(dn, r).
         if dr_target r \<in> set (terminal_states P) then [] else opt_list (dr_cycle_outcome r))
         (pd_decisions d))) (pp_phases P))"

definition recordable_cycle_outcomes_are_routable :: "PipelinePolicy \<Rightarrow> bool" where
  "recordable_cycle_outcomes_are_routable P \<longleftrightarrow>
     (\<forall>r \<in> set (pp_post_commit_routes P). dict_has (pp_phases P) (pr_phase r) \<longrightarrow>
       (\<forall>oc \<in> set (recordable_cycle_outcomes P).
         (\<exists>q \<in> set (pp_post_commit_routes P). pr_phase q = pr_phase r \<and>
            pr_budget_state q = pr_budget_state r \<and>
            (pr_cycle_outcome q = None \<or> pr_cycle_outcome q = Some oc))))"

text \<open>
  \<^verbatim>\<open>_reachable_avoiding\<close> follows success transitions and decision targets. With \<^verbatim>\<open>exclude_start\<close> the
  first popped phase is expanded without being recorded; starts are popped from the end.
\<close>

definition forward_targets :: "PipelinePolicy \<Rightarrow> string \<Rightarrow> string list" where
  "forward_targets P ph =
     (case phase_of P ph of None \<Rightarrow> []
      | Some d \<Rightarrow> on_success (pd_transitions d) # map (\<lambda>(dn, r). dr_target r) (pd_decisions d))"

definition reachable_avoiding :: "PipelinePolicy \<Rightarrow> string list \<Rightarrow> string list \<Rightarrow> bool \<Rightarrow> string list" where
  "reachable_avoiding P starts avoid exclude_start =
     (let search = stack_search (map fst (pp_phases P)) (\<lambda>ph. ph \<notin> set avoid) (forward_targets P) [] in
      if exclude_start then
        (case rev starts of [] \<Rightarrow> []
         | ph # rest \<Rightarrow>
             if ph \<in> set avoid \<or> \<not> dict_has (pp_phases P) ph then search rest
             else search (rev (forward_targets P ph) @ rest))
      else search (rev starts))"

definition phases_inside_cycle :: "PipelinePolicy \<Rightarrow> CycleTimeboxPolicy \<Rightarrow> string list" where
  "phases_inside_cycle P ct =
     (let pre = [pp_entry_phase P, ct_start_source ct] in
      filter (\<lambda>ph. ct_guarded_entry ct \<in> set (reachable_avoiding P [ph] pre True))
        (reachable_avoiding P [ct_start_entry ct, ct_guarded_entry ct] pre False))"

definition cycle_timebox_ends_outside_the_cycle :: "PipelinePolicy \<Rightarrow> bool" where
  "cycle_timebox_ends_outside_the_cycle P \<longleftrightarrow>
     (case pp_cycle_timebox P of None \<Rightarrow> True
      | Some ct \<Rightarrow> ct_end_entry ct \<notin> set (phases_inside_cycle P ct)
          \<and> ct_finalization_target ct \<notin> set (phases_inside_cycle P ct))"

definition phase_declares_edge :: "PipelinePolicy \<Rightarrow> string \<Rightarrow> string \<Rightarrow> bool" where
  "phase_declares_edge P src tgt \<longleftrightarrow>
     (case phase_of P src of None \<Rightarrow> False
      | Some d \<Rightarrow>
          on_success (pd_transitions d) = tgt \<or> on_failure (pd_transitions d) = Some tgt
          \<or> on_loopback (pd_transitions d) = Some tgt
          \<or> list_ex (\<lambda>(dn, r). dr_target r = tgt) (pd_decisions d)
          \<or> list_ex (\<lambda>(oc, t). t = tgt) (pd_bypass_routes d)
          \<or> list_ex (\<lambda>(st, t). t = tgt) (pd_result_status_post_commit d))
     \<or> list_ex (\<lambda>r. pr_phase r = src \<and> pr_target r = tgt) (pp_post_commit_routes P)"

definition cycle_timebox_start_edge_declared :: "PipelinePolicy \<Rightarrow> bool" where
  "cycle_timebox_start_edge_declared P \<longleftrightarrow>
     (case pp_cycle_timebox P of None \<Rightarrow> True
      | Some ct \<Rightarrow> phase_declares_edge P (ct_start_source ct) (ct_start_entry ct))"

definition duration_finite_positive :: "PipelinePolicy \<Rightarrow> bool" where
  "duration_finite_positive P \<longleftrightarrow>
     (case pp_cycle_timebox P of None \<Rightarrow> True | Some ct \<Rightarrow> 0 < ct_duration_seconds ct)"

definition reject_legacy_route_fields :: "PipelinePolicy \<Rightarrow> bool" where
  "reject_legacy_route_fields P \<longleftrightarrow>
     failed_route P \<notin> {''phase_failed'', ''exit_failure'', ''failed''}"

text \<open>The \<^verbatim>\<open>ge=\<close> constraints of the counter models and of \<^verbatim>\<open>RecoveryPolicy.cycle_cap\<close>.\<close>

definition counter_fields_in_range :: "PipelinePolicy \<Rightarrow> bool" where
  "counter_fields_in_range P \<longleftrightarrow>
     list_all (\<lambda>(n, c). 0 \<le> lc_default_max c) (pp_loop_counters P)
     \<and> list_all (\<lambda>(n, c). 0 \<le> bc_default_max c) (pp_budget_counters P)
     \<and> 1 \<le> rec_cycle_cap (pp_recovery P)"

definition dicts_have_unique_keys :: "PipelinePolicy \<Rightarrow> bool" where
  "dicts_have_unique_keys P \<longleftrightarrow>
     distinct (map fst (pp_phases P)) \<and> distinct (map fst (pp_loop_counters P))
     \<and> distinct (map fst (pp_budget_counters P)) \<and> distinct (map fst (pp_lifecycle_phases P))"

definition validated :: "PipelinePolicy \<Rightarrow> bool" where
  "validated P \<longleftrightarrow>
     dicts_have_unique_keys P \<and> counter_fields_in_range P \<and>
     all_transitions_reference_known_phases P \<and> entry_phase_exists P \<and>
     no_phase_cycles_without_loopback P \<and> post_commit_routes_reference_known_targets P \<and>
     post_commit_routes_unique_conditions P \<and> parallelization_targets_non_terminal_phases P \<and>
     decision_routes_target_known_phases P \<and> bypass_routes_target_known_phases P \<and>
     result_status_post_commit_targets_known_phases P \<and> loop_counter_references_valid P \<and>
     budget_counter_references_valid P \<and> workflow_fallback_targets_valid P \<and>
     terminal_failure_phase_valid P \<and> cycle_timebox_references_known_phases P \<and>
     recordable_cycle_outcomes_are_routable P \<and> cycle_timebox_ends_outside_the_cycle P \<and>
     cycle_timebox_start_edge_declared P \<and> duration_finite_positive P \<and>
     reject_legacy_route_fields P"

text \<open>
  \<^verbatim>\<open>validate_policy_completeness\<close> additionally requires the loop field of every looping phase to be a
  declared loop counter, also when the counter table is empty.
\<close>

definition loop_fields_declared :: "PipelinePolicy \<Rightarrow> bool" where
  "loop_fields_declared P \<longleftrightarrow>
     list_all (\<lambda>(name, d). case pd_loop_policy d of None \<Rightarrow> True
       | Some lp \<Rightarrow> dict_has (pp_loop_counters P) (iteration_state_field lp)) (pp_phases P)"

definition well_formed :: "PipelinePolicy \<Rightarrow> bool" where
  "well_formed P \<longleftrightarrow> validated P \<and> loop_fields_declared P"

section \<open>Consequences of validation\<close>

named_theorems policy_rules \<open>facts about targets of a well-formed policy\<close>

lemma well_formed_validated: "well_formed P \<Longrightarrow> validated P"
  by (simp add: well_formed_def)

lemma known_terminal [simp, intro]:
  "known_target P (pp_terminal_phase P)" "known_target P (failed_route P)"
  by (simp_all add: known_target_def terminal_states_def terminal_phase_names_def)

lemma known_phase [intro]: "phase_of P ph = Some d \<Longrightarrow> known_target P ph"
  by (simp add: known_target_def)

lemma validated_transitions:
  assumes "validated P" and "phase_of P ph = Some d"
  shows "known_target P (on_success (pd_transitions d))"
    and "on_failure (pd_transitions d) = Some t \<Longrightarrow> known_target P t"
    and "on_loopback (pd_transitions d) = Some t \<Longrightarrow> known_target P t"
  using assms dict_get_in [OF assms(2)]
  by (fastforce simp: validated_def all_transitions_reference_known_phases_def list_all_iff)+

lemma validated_decision:
  "validated P \<Longrightarrow> phase_of P ph = Some d \<Longrightarrow> dict_get (pd_decisions d) k = Some r \<Longrightarrow>
   known_target P (dr_target r)"
  by (drule dict_get_in)+
    (fastforce simp: validated_def decision_routes_target_known_phases_def list_all_iff)

lemma validated_bypass:
  "validated P \<Longrightarrow> phase_of P ph = Some d \<Longrightarrow> dict_get (pd_bypass_routes d) k = Some t \<Longrightarrow>
   known_target P t"
  by (drule dict_get_in)+
    (fastforce simp: validated_def bypass_routes_target_known_phases_def list_all_iff)

lemma validated_result_status:
  "validated P \<Longrightarrow> phase_of P ph = Some d \<Longrightarrow>
   dict_get (pd_result_status_post_commit d) k = Some t \<Longrightarrow> known_target P t"
  by (drule dict_get_in)+
    (fastforce simp: validated_def result_status_post_commit_targets_known_phases_def list_all_iff)

lemma validated_fallback:
  "validated P \<Longrightarrow> phase_of P ph = Some d \<Longrightarrow> pd_workflow_fallback d = Some t \<Longrightarrow> known_target P t"
  by (drule dict_get_in) (fastforce simp: validated_def workflow_fallback_targets_valid_def list_all_iff)

lemma validated_post_commit:
  "validated P \<Longrightarrow> r \<in> set (pp_post_commit_routes P) \<Longrightarrow> known_target P (pr_target r)"
  by (simp add: validated_def post_commit_routes_reference_known_targets_def list_all_iff)

lemma validated_timebox:
  "validated P \<Longrightarrow> pp_cycle_timebox P = Some ct \<Longrightarrow>
   known_target P (ct_finalization_target ct) \<and> known_target P (ct_guarded_entry ct)"
  by (simp add: validated_def cycle_timebox_references_known_phases_def)

lemma well_formed_loop_counter:
  assumes "well_formed P" and "phase_of P ph = Some d" and "pd_loop_policy d = Some lp"
  obtains c where "dict_get (pp_loop_counters P) (iteration_state_field lp) = Some c"
    and "0 \<le> lc_default_max c"
proof -
  from assms dict_get_in [OF assms(2)]
  obtain c where c: "dict_get (pp_loop_counters P) (iteration_state_field lp) = Some c"
    by (fastforce simp: well_formed_def loop_fields_declared_def list_all_iff)
  with assms(1) have "0 \<le> lc_default_max c"
    by (auto simp: well_formed_def validated_def counter_fields_in_range_def list_all_iff
        dest!: dict_get_in)
  with c show ?thesis by (rule that)
qed

lemmas validated_targets [policy_rules] =
  validated_transitions validated_decision validated_bypass validated_result_status
  validated_fallback validated_post_commit

end
