(* ===== verification/Policy_Loader.thy ===== *)
theory Policy_Loader
  imports Policy_Model
begin

text \<open>
  Compilation of the block-authored pipeline document into a \<^verbatim>\<open>PipelinePolicy\<close>
  (\<^verbatim>\<open>_phase_name_for_block\<close> and \<^verbatim>\<open>_compile_block_pipeline_data\<close> of \<^verbatim>\<open>ralph/policy/loader.py\<close>), and the bundled
  default document \<^verbatim>\<open>ralph/policy/defaults/pipeline.toml\<close>. TOML parsing, the merge of user and bundled
  documents and the pydantic coercions that precede the compilation are not modelled.
\<close>

section \<open>Block compilation\<close>

record GroupBlock =
  gb_child_blocks :: "string list"
  gb_completion_block :: string
  gb_increments_counter :: "string option"
  gb_loop_resets :: "string list"

datatype PolicyBlock =
    IndividualBlock string PhaseDefinition
  | GroupPolicyBlock GroupBlock

type_synonym block_table = "(string, PolicyBlock) dict"

text \<open>
  \<^verbatim>\<open>PolicyValidationError\<close> is a \<^verbatim>\<open>ValueError\<close> subclass of the policy package; its message is kept. The
  recursion follows first children and stops on a block already on the path.
\<close>

definition quoted_name :: "string \<Rightarrow> string" where
  "quoted_name x = [CHR 0x27] @ x @ [CHR 0x27]"

function phase_name_for_block :: "string \<Rightarrow> block_table \<Rightarrow> string list \<Rightarrow> string result" where
  "phase_name_for_block b blocks path =
     (case dict_get blocks b of
        None \<Rightarrow> Inl (ValueError (''pipeline.toml block '' @ quoted_name b @ '' is referenced but not defined''))
      | Some (IndividualBlock name d) \<Rightarrow> Inr name
      | Some (GroupPolicyBlock g) \<Rightarrow>
          if b \<in> set path then
            Inl (ValueError (''pipeline.toml block graph contains a cycle: '' @ str_join '' -> '' (path @ [b])))
          else (case gb_child_blocks g of
              [] \<Rightarrow> Inl (ValueError (''pipeline.toml group block '' @ quoted_name b
                      @ '' must declare at least one child_blocks entry''))
            | c # cs \<Rightarrow> phase_name_for_block c blocks (path @ [b])))"
  by pat_completeness auto
termination
proof (relation "measure (\<lambda>(b, blocks, path). card (fst ` set blocks - set path))", goal_cases)
  case 1
  show ?case by simp
next
  case (2 b blocks path blk g c cs)
  then have "b \<in> fst ` set blocks - set path"
    using dict_has_keys [of blocks b] by auto
  then have "card (fst ` set blocks - set (path @ [b])) < card (fst ` set blocks - set path)"
    by (intro psubset_card_mono) auto
  then show ?case by simp
qed

declare phase_name_for_block.simps [simp del]

text \<open>One round of the loop over \<^verbatim>\<open>blocks.items()\<close>; the accumulator holds phases and lifecycle phases.\<close>

type_synonym compiled = "(string, PhaseDefinition) dict \<times> (string, LifecyclePhasePolicy) dict"

definition compile_block ::
    "block_table \<Rightarrow> string \<times> PolicyBlock \<Rightarrow> compiled \<Rightarrow> compiled result" where
  "compile_block blocks nb acc =
     (case nb of
        (name, IndividualBlock ph d) \<Rightarrow>
          if dict_has (fst acc) ph then
            Inl (ValueError (''pipeline.toml phase_name '' @ quoted_name ph
              @ '' is declared by more than one individual block''))
          else Inr (dict_set ph d (fst acc), snd acc)
      | (name, GroupPolicyBlock g) \<Rightarrow>
          (case find (\<lambda>c. \<not> dict_has blocks c) (gb_child_blocks g) of
             Some c \<Rightarrow> Inl (ValueError (''pipeline.toml group block '' @ quoted_name name
               @ '' references unknown child_blocks entry '' @ quoted_name c))
           | None \<Rightarrow>
               if gb_completion_block g \<notin> set (gb_child_blocks g) then
                 Inl (ValueError (''pipeline.toml group block '' @ quoted_name name @ '' completion_block ''
                   @ quoted_name (gb_completion_block g) @ '' must also appear in child_blocks''))
               else bind_r (phase_name_for_block (gb_completion_block g) blocks []) (\<lambda>ph.
                 Inr (fst acc,
                   dict_set ph \<lparr>lp_lifecycle_name = name, lp_completion_block = gb_completion_block g,
                     lp_increments_counter = gb_increments_counter g,
                     lp_loop_resets = gb_loop_resets g\<rparr> (snd acc)))))"

fun compile_blocks ::
    "block_table \<Rightarrow> (string \<times> PolicyBlock) list \<Rightarrow> compiled \<Rightarrow> compiled result" where
  "compile_blocks blocks [] acc = Inr acc"
| "compile_blocks blocks (nb # rest) acc =
     bind_r (compile_block blocks nb acc) (compile_blocks blocks rest)"

text \<open>The compiled document: its phases, lifecycle phases and entry phase.\<close>

definition compile_block_pipeline_data ::
    "block_table \<Rightarrow> string option \<Rightarrow>
     ((string, PhaseDefinition) dict \<times> (string, LifecyclePhasePolicy) dict \<times> string) result" where
  "compile_block_pipeline_data blocks entry_block =
     bind_r (compile_blocks blocks blocks ([], [])) (\<lambda>acc.
       case entry_block of
         None \<Rightarrow> Inl (ValueError ''pipeline.toml block-authored policies must declare entry_block'')
       | Some e \<Rightarrow>
           if e = [] then Inl (ValueError ''pipeline.toml block-authored policies must declare entry_block'')
           else bind_r (phase_name_for_block e blocks []) (\<lambda>entry. Inr (fst acc, snd acc, entry)))"

section \<open>Correctness of the compilation\<close>


definition block_phases :: "(string \<times> PolicyBlock) list \<Rightarrow> string set" where
  "block_phases bs = {ph. \<exists>b d. (b, IndividualBlock ph d) \<in> set bs}"

lemma block_phases_simps [simp]:
  "block_phases [] = {}"
  "block_phases ((b, IndividualBlock ph d) # bs) = insert ph (block_phases bs)"
  "block_phases ((b, GroupPolicyBlock g) # bs) = block_phases bs"
  by (auto simp: block_phases_def)



section \<open>The bundled default document\<close>

definition base_phase :: "string \<Rightarrow> PhaseRole \<Rightarrow> string \<Rightarrow> string option \<Rightarrow> string option \<Rightarrow> PhaseDefinition" where
  "base_phase drain role succ_ph loopback failure =
     \<lparr>pd_drain = drain,
      pd_transitions = \<lparr>on_success = succ_ph, on_failure = failure, on_loopback = loopback\<rparr>,
      pd_role = Some role, pd_skip_invocation = False, pd_retry_policy = None,
      pd_loop_policy = None, pd_decisions = [], pd_commit_policy = None,
      pd_artifact_required = True, pd_terminal_outcome = None, pd_bypass_routes = [],
      pd_result_status_post_commit = [], pd_clean_outcome = None, pd_issues_outcome = None,
      pd_parallelization = None, pd_workflow_fallback = None, pd_invocation_gate = None\<rparr>"

definition loop_on :: "string \<Rightarrow> PhaseLoopPolicy" where
  "loop_on f = \<lparr>iteration_state_field = f, loopback_review_outcome = None\<rparr>"

definition decide :: "string \<Rightarrow> bool \<Rightarrow> string option \<Rightarrow> PhaseDecisionRoute" where
  "decide t reset oc =
     \<lparr>dr_target = t, dr_reset_loop = reset, dr_cycle_outcome = oc, dr_increments_counter = None\<rparr>"

definition default_blocks :: block_table where
  "default_blocks =
    [(''developer_iteration'', GroupPolicyBlock
        \<lparr>gb_child_blocks = [''planning'', ''planning_analysis'', ''development'',
           ''development_commit_cleanup'', ''development_commit'', ''development_analysis'',
           ''development_final_commit_cleanup'', ''development_final_commit'', ''complete'',
           ''failed_terminal''],
         gb_completion_block = ''development_final_commit'',
         gb_increments_counter = Some ''iteration'',
         gb_loop_resets = [''development_analysis_iteration'', ''commit_cleanup_iteration'']\<rparr>),
     (''planning'', IndividualBlock ''planning''
        (base_phase ''planning'' RoleExecution ''planning_analysis'' None None)),
     (''planning_analysis'', IndividualBlock ''planning_analysis''
        ((base_phase ''planning_analysis'' RoleAnalysis ''development'' (Some ''planning'') None)
         \<lparr>pd_loop_policy := Some (loop_on ''planning_analysis_iteration''),
          pd_decisions := [(''completed'', decide ''development'' True None),
                           (''request_changes'', decide ''planning'' False None),
                           (''failed'', decide ''planning'' False None)]\<rparr>)),
     (''development'', IndividualBlock ''development''
        ((base_phase ''development'' RoleExecution ''development_commit_cleanup'' (Some ''development'') None)
         \<lparr>pd_parallelization := Some \<lparr>agent_subagents_dispatch = True, max_parallel_workers = 8,
             max_work_units = 50, require_allowed_directories = True,
             post_fanout_verification = False\<rparr>\<rparr>)),
     (''development_commit_cleanup'', IndividualBlock ''development_commit_cleanup''
        ((base_phase ''commit'' RoleCommitCleanup ''development_commit''
            (Some ''development_commit_cleanup'') (Some ''development_commit''))
         \<lparr>pd_loop_policy := Some (loop_on ''commit_cleanup_iteration'')\<rparr>)),
     (''development_commit'', IndividualBlock ''development_commit''
        ((base_phase ''development_commit'' RoleCommit ''development_analysis'' None
            (Some ''failed_terminal''))
         \<lparr>pd_commit_policy := Some \<lparr>cp_requires_artifact = True, cp_skipped_advances_progress = False,
            cp_increments_counter = None, cp_route_counter = None,
            cp_loop_resets = [''commit_cleanup_iteration'']\<rparr>\<rparr>)),
     (''development_analysis'', IndividualBlock ''development_analysis''
        ((base_phase ''development_analysis'' RoleAnalysis ''development_final_commit_cleanup''
            (Some ''development'') None)
         \<lparr>pd_invocation_gate := Some \<lparr>upstream_execution_phase = ''development'',
             minimum_elapsed_seconds = 900, always_invoke_statuses = [''partial'', ''failed'']\<rparr>,
          pd_loop_policy := Some (loop_on ''development_analysis_iteration''),
          pd_decisions :=
            [(''completed'', decide ''development_final_commit_cleanup'' True (Some ''completed'')),
             (''request_changes'', decide ''development'' False None),
             (''failed'', decide ''development_final_commit_cleanup'' True (Some ''failed''))]\<rparr>)),
     (''development_final_commit_cleanup'', IndividualBlock ''development_final_commit_cleanup''
        ((base_phase ''commit'' RoleCommitCleanup ''development_final_commit''
            (Some ''development_final_commit_cleanup'') (Some ''development_final_commit''))
         \<lparr>pd_loop_policy := Some (loop_on ''commit_cleanup_iteration'')\<rparr>)),
     (''development_final_commit'', IndividualBlock ''development_final_commit''
        ((base_phase ''development_commit'' RoleCommit ''complete'' None (Some ''failed_terminal''))
         \<lparr>pd_commit_policy := Some \<lparr>cp_requires_artifact = True, cp_skipped_advances_progress = True,
            cp_increments_counter = Some ''iteration'', cp_route_counter = None,
            cp_loop_resets = [''development_analysis_iteration'', ''commit_cleanup_iteration'']\<rparr>\<rparr>)),
     (''complete'', IndividualBlock ''complete''
        ((base_phase ''complete'' RoleTerminal ''complete'' (Some ''complete'') None)
         \<lparr>pd_terminal_outcome := Some OutcomeSuccess\<rparr>)),
     (''failed_terminal'', IndividualBlock ''failed_terminal''
        ((base_phase ''failed_terminal'' RoleTerminal ''failed_terminal'' (Some ''failed_terminal'') None)
         \<lparr>pd_terminal_outcome := Some OutcomeFailure\<rparr>))]"

definition default_route :: "BudgetStateLabel \<Rightarrow> string \<Rightarrow> string \<Rightarrow> PostCommitRoute" where
  "default_route b oc t = \<lparr>pr_phase = ''development_final_commit'', pr_budget_state = b,
                           pr_cycle_outcome = Some oc, pr_target = t\<rparr>"

definition default_timebox :: CycleTimeboxPolicy where
  "default_timebox =
     \<lparr>ct_duration_seconds = 7200, ct_start_source = ''planning_analysis'',
      ct_start_entry = ''development'', ct_guarded_entry = ''development'',
      ct_end_entry = ''development_final_commit_cleanup'',
      ct_finalization_target = ''development_final_commit_cleanup'',
      ct_finalization_cycle_outcome = ''completed''\<rparr>"

definition policy_of_blocks :: "block_table \<Rightarrow> string \<Rightarrow> PipelinePolicy result" where
  "policy_of_blocks blocks entry =
     bind_r (compile_block_pipeline_data blocks (Some entry)) (\<lambda>(phases, lifecycle, entry_phase).
       Inr \<lparr>pp_phases = phases, pp_entry_block = Some entry, pp_entry_phase = entry_phase,
         pp_terminal_phase = ''complete'',
         pp_loop_counters = [(''development_analysis_iteration'', \<lparr>lc_default_max = 5\<rparr>),
           (''planning_analysis_iteration'', \<lparr>lc_default_max = 3\<rparr>),
           (''commit_cleanup_iteration'', \<lparr>lc_default_max = 3\<rparr>),
           (''commit_cleanup_identity'', \<lparr>lc_default_max = 3\<rparr>)],
         pp_budget_counters = [(''iteration'', \<lparr>bc_tracks_budget = True, bc_default_max = 5\<rparr>)],
         pp_post_commit_routes =
           [default_route Remaining ''completed'' ''planning'',
            default_route Exhausted ''completed'' ''complete'',
            default_route NoReview ''completed'' ''complete'',
            default_route Remaining ''failed'' ''planning'',
            default_route Exhausted ''failed'' ''failed_terminal'',
            default_route NoReview ''failed'' ''failed_terminal''],
         pp_lifecycle_phases = lifecycle,
         pp_default_phase_retry_policy =
           \<lparr>rp_max_retries = 3, rp_retry_delay_ms = 1000, rp_retry_in_session = False\<rparr>,
         pp_recovery = \<lparr>rec_cycle_cap = 200, rec_failed_route = ''failed_terminal'',
                        rec_terminal_failure_phase = Some ''failed_terminal''\<rparr>,
         pp_cycle_timebox = Some default_timebox\<rparr>)"

definition default_policy :: PipelinePolicy where
  "default_policy =
     (case policy_of_blocks default_blocks ''developer_iteration'' of Inr P \<Rightarrow> P)"

lemma default_compiles: "returns (policy_of_blocks default_blocks ''developer_iteration'')"
  by code_simp

lemma default_well_formed: "well_formed default_policy"
  by code_simp

lemmas default_validated = well_formed_validated [OF default_well_formed]



text \<open>
  The bundled default document compiles and passes every validator of the policy model, including
  the graph checks on the cycle timebox and on post-commit routing, so the theorems about
  well-formed policies apply to the workflow the program ships with.
\<close>

theorem bundled_policy_accepted:
  "policy_of_blocks default_blocks ''developer_iteration'' = Inr default_policy
   \<and> well_formed default_policy"
proof
  show "policy_of_blocks default_blocks ''developer_iteration'' = Inr default_policy"
    using default_compiles by (auto simp: default_policy_def returns_def)
qed (rule default_well_formed)

end
