(* ===== verification/Pipeline_State.thy ===== *)
theory Pipeline_State
  imports Policy_Loader
begin

text \<open>
  The immutable pipeline state (\<^verbatim>\<open>ralph/pipeline/state.py\<close> and the small frozen models it is built
  from). Every \<^verbatim>\<open>with_*\<close>/\<^verbatim>\<open>get_*\<close> method is one definition; \<^verbatim>\<open>copy_with\<close> is a record update except
  for the two fields it treats specially (\<^verbatim>\<open>work_units\<close>, \<^verbatim>\<open>fallover_history\<close>), which have setters of
  their own. The integration outcome \<^verbatim>\<open>rebase: RebaseState\<close> belongs to the auto-integration component
  and is not carried. Positions and retry counts are natural numbers: the code only ever builds
  them from 0 by increments or from \<^verbatim>\<open>enumerate\<close>.
\<close>

section \<open>Component models\<close>

type_synonym timestamp = int

record AgentChainState =
  acs_agents :: "string list"
  acs_current_index :: nat
  acs_retries :: nat

definition chain_with_retry_increment :: "AgentChainState \<Rightarrow> AgentChainState" where
  "chain_with_retry_increment c = c\<lparr>acs_retries := acs_retries c + 1\<rparr>"

definition chain_with_advance :: "AgentChainState \<Rightarrow> AgentChainState" where
  "chain_with_advance c = c\<lparr>acs_current_index := acs_current_index c + 1, acs_retries := 0\<rparr>"

record RunMetrics =
  total_agent_calls :: int
  total_continuations :: int
  total_fallbacks :: int
  total_retries :: int

definition metrics_with_retry_increment :: "RunMetrics \<Rightarrow> RunMetrics" where
  "metrics_with_retry_increment m = m\<lparr>total_retries := total_retries m + 1\<rparr>"

definition metrics_with_fallback_increment :: "RunMetrics \<Rightarrow> RunMetrics" where
  "metrics_with_fallback_increment m = m\<lparr>total_fallbacks := total_fallbacks m + 1\<rparr>"

definition metrics_with_continuation_increment :: "RunMetrics \<Rightarrow> RunMetrics" where
  "metrics_with_continuation_increment m = m\<lparr>total_continuations := total_continuations m + 1\<rparr>"

record CommitState =
  message_prepared :: bool
  diff_prepared :: bool
  agent_invoked :: bool

definition fresh_commit :: CommitState where
  "fresh_commit = \<lparr>message_prepared = False, diff_prepared = False, agent_invoked = False\<rparr>"

record FalloverRecord =
  fr_phase :: string
  fr_from_agent :: string
  fr_to_agent :: string
  fr_timestamp :: timestamp

record WorkUnit =
  wu_unit_id :: string
  wu_description :: string
  wu_allowed_directories :: "string list"
  wu_dependencies :: "string list"
  wu_step_ids :: "string list"

datatype WorkerStatus = PENDING | RUNNING | SUCCEEDED | FAILED | CANCELLED

record WorkerState =
  ws_unit_id :: string
  ws_status :: WorkerStatus
  ws_started_at :: "timestamp option"
  ws_finished_at :: "timestamp option"
  ws_exit_code :: "int option"
  ws_error_message :: "string option"

record PhaseTimingRecord =
  tr_phase :: string
  tr_iteration :: int
  tr_elapsed :: rat

section \<open>Retry intent\<close>

datatype AgentRetryAction = Fresh | Resume | NewSessionWithId

record AgentRetryIntent =
  ari_action :: "AgentRetryAction option"
  ari_session_id :: "string option"
  ari_reset_tool_registry :: bool
  ari_failure_reason :: string
  ari_skip_same_agent_retries :: bool
  ari_failed_agent_name :: "string option"
  ari_broken_agent_reason :: "string option"
  ari_broken_agent_returncode :: "int option"
  ari_broken_agent_stderr :: string

definition truthy :: "string option \<Rightarrow> bool" where
  "truthy x = (case x of None \<Rightarrow> False | Some s \<Rightarrow> s \<noteq> [])"

definition action_session_pair_valid :: "AgentRetryIntent \<Rightarrow> bool" where
  "action_session_pair_valid i \<longleftrightarrow>
     \<not> (ari_action i \<in> {Some Resume, Some NewSessionWithId} \<and> \<not> truthy (ari_session_id i))
     \<and> \<not> (ari_action i = None \<and> ari_session_id i \<noteq> None)"

definition cleared_agent_retry_intent :: AgentRetryIntent where
  "cleared_agent_retry_intent =
     \<lparr>ari_action = None, ari_session_id = None, ari_reset_tool_registry = False,
      ari_failure_reason = [], ari_skip_same_agent_retries = False,
      ari_failed_agent_name = None, ari_broken_agent_reason = None,
      ari_broken_agent_returncode = None, ari_broken_agent_stderr = []\<rparr>"

definition resume_agent_retry_intent :: "string \<Rightarrow> string \<Rightarrow> bool \<Rightarrow> AgentRetryIntent result" where
  "resume_agent_retry_intent sid reason reset =
     (let i = cleared_agent_retry_intent\<lparr>ari_action := Some Resume, ari_session_id := Some sid,
                ari_reset_tool_registry := reset, ari_failure_reason := reason\<rparr>
      in if action_session_pair_valid i then Inr i
         else Inl (RuntimeError
           (''AgentRetryIntent action requires session_id; got action='' @ str_repr ''resume''
            @ '' session_id='' @ str_repr sid)))"

lemma resume_agent_retry_intent_ok:
  "sid \<noteq> [] \<Longrightarrow> \<exists>i. resume_agent_retry_intent sid reason reset = Inr i \<and> action_session_pair_valid i"
  by (simp add: resume_agent_retry_intent_def Let_def action_session_pair_valid_def truthy_def
      cleared_agent_retry_intent_def)

lemma cleared_intent_valid: "action_session_pair_valid cleared_agent_retry_intent"
  by (simp add: action_session_pair_valid_def cleared_agent_retry_intent_def)

section \<open>Pipeline state\<close>

record PipelineState =
  ps_phase :: string
  ps_previous_phase :: "string option"
  ps_review_outcome :: "string option"
  ps_phase_chains :: "(string, AgentChainState) dict"
  ps_loop_iterations :: "(string, int) dict"
  ps_budget_caps :: "(string, int) dict"
  ps_outer_progress :: "(string, int) dict"
  ps_commit :: CommitState
  ps_metrics :: RunMetrics
  ps_checkpoint_saved_count :: int
  ps_recovery_epoch :: int
  ps_interrupted_by_user :: bool
  ps_last_error :: "string option"
  ps_policy_entry_phase :: string
  ps_policy_format_version :: "int option"
  ps_current_drain :: "string option"
  ps_post_commit_phase_override :: "string option"
  ps_pending_cycle_outcome :: "string option"
  ps_execution_cycle_charged :: bool
  ps_last_execution_result_status :: "string option"
  ps_cycle_timing_start_index :: nat
  ps_cycle_timebox_active :: bool
  ps_cycle_timebox_consumed_seconds :: rat
  ps_cycle_timebox_redirect_reason :: "string option"
  ps_cycle_timebox_redirects :: int
  ps_work_units :: "WorkUnit list"
  ps_worker_states :: "(string, WorkerState) dict"
  ps_phase_timings :: "PhaseTimingRecord list"
  ps_recovery_cycle_count :: int
  ps_fallover_history :: "FalloverRecord list"
  ps_last_failure_category :: "string option"
  ps_last_connectivity_state :: string
  ps_recovery_cycle_cap :: int
  ps_last_retry_delay_ms :: int
  ps_last_agent_session_id :: "string option"
  ps_agent_retry_intent :: AgentRetryIntent
  ps_last_unavailability_reason :: "string option"
  ps_is_waiting_state :: bool

text \<open>\<^verbatim>\<open>PipelineState.from_policy(policy)\<close>: every field its default, the phase from the policy.\<close>

definition from_policy :: "PipelinePolicy \<Rightarrow> PipelineState" where
  "from_policy P =
     \<lparr>ps_phase = pp_entry_phase P, ps_previous_phase = None, ps_review_outcome = None,
      ps_phase_chains = [], ps_loop_iterations = [], ps_budget_caps = [], ps_outer_progress = [],
      ps_commit = fresh_commit,
      ps_metrics = \<lparr>total_agent_calls = 0, total_continuations = 0, total_fallbacks = 0,
                    total_retries = 0\<rparr>,
      ps_checkpoint_saved_count = 0, ps_recovery_epoch = 0, ps_interrupted_by_user = False,
      ps_last_error = None, ps_policy_entry_phase = pp_entry_phase P,
      ps_policy_format_version = Some (if pp_entry_block P \<noteq> None then 2 else 1),
      ps_current_drain = None, ps_post_commit_phase_override = None,
      ps_pending_cycle_outcome = None, ps_execution_cycle_charged = False,
      ps_last_execution_result_status = None, ps_cycle_timing_start_index = 0,
      ps_cycle_timebox_active = False, ps_cycle_timebox_consumed_seconds = 0,
      ps_cycle_timebox_redirect_reason = None, ps_cycle_timebox_redirects = 0,
      ps_work_units = [], ps_worker_states = [], ps_phase_timings = [],
      ps_recovery_cycle_count = 0, ps_fallover_history = [], ps_last_failure_category = None,
      ps_last_connectivity_state = ''unknown'', ps_recovery_cycle_cap = 200,
      ps_last_retry_delay_ms = 0, ps_last_agent_session_id = None,
      ps_agent_retry_intent = cleared_agent_retry_intent, ps_last_unavailability_reason = None,
      ps_is_waiting_state = False\<rparr>"

definition is_complete :: "PipelineState \<Rightarrow> PipelinePolicy \<Rightarrow> bool" where
  "is_complete s P \<longleftrightarrow> ps_phase s = pp_terminal_phase P"

definition chain_for_phase :: "PipelineState \<Rightarrow> string \<Rightarrow> AgentChainState option" where
  "chain_for_phase s ph = dict_get (ps_phase_chains s) ph"

definition chain_agent :: "AgentChainState \<Rightarrow> string option" where
  "chain_agent c =
     (if acs_agents c \<noteq> [] \<and> acs_current_index c < length (acs_agents c)
      then Some (acs_agents c ! acs_current_index c) else None)"

definition current_agent :: "PipelineState \<Rightarrow> string option" where
  "current_agent s = (case chain_for_phase s (ps_phase s) of None \<Rightarrow> None | Some c \<Rightarrow> chain_agent c)"

definition remaining_retries :: "PipelineState \<Rightarrow> int" where
  "remaining_retries s =
     (case chain_for_phase s (ps_phase s) of None \<Rightarrow> 0 | Some c \<Rightarrow> max 0 (3 - int (acs_retries c)))"

definition with_phase_chain :: "string \<Rightarrow> AgentChainState \<Rightarrow> PipelineState \<Rightarrow> PipelineState" where
  "with_phase_chain ph c s = s\<lparr>ps_phase_chains := dict_set ph c (ps_phase_chains s)\<rparr>"

definition with_drain :: "string option \<Rightarrow> PipelineState \<Rightarrow> PipelineState" where
  "with_drain d s = s\<lparr>ps_current_drain := d\<rparr>"

definition get_loop_iteration :: "PipelineState \<Rightarrow> string \<Rightarrow> int" where
  "get_loop_iteration s f = dict_get_or (ps_loop_iterations s) f 0"

definition with_loop_iteration :: "string \<Rightarrow> int \<Rightarrow> PipelineState \<Rightarrow> PipelineState" where
  "with_loop_iteration f v s = s\<lparr>ps_loop_iterations := dict_set f v (ps_loop_iterations s)\<rparr>"

definition get_outer_progress :: "PipelineState \<Rightarrow> string \<Rightarrow> int" where
  "get_outer_progress s c = dict_get_or (ps_outer_progress s) c 0"

definition with_outer_progress :: "string \<Rightarrow> int \<Rightarrow> PipelineState \<Rightarrow> PipelineState" where
  "with_outer_progress c v s = s\<lparr>ps_outer_progress := dict_set c v (ps_outer_progress s)\<rparr>"

definition get_budget_cap :: "PipelineState \<Rightarrow> string \<Rightarrow> int" where
  "get_budget_cap s c = dict_get_or (ps_budget_caps s) c 0"

definition with_budget_cap :: "string \<Rightarrow> int \<Rightarrow> PipelineState \<Rightarrow> PipelineState" where
  "with_budget_cap c v s = s\<lparr>ps_budget_caps := dict_set c v (ps_budget_caps s)\<rparr>"

definition get_budget_remaining :: "PipelineState \<Rightarrow> string \<Rightarrow> int" where
  "get_budget_remaining s c =
     max 0 (dict_get_or (ps_budget_caps s) c 0 - dict_get_or (ps_outer_progress s) c 0)"

definition resolved_recovery_cycle_cap :: "int \<Rightarrow> int" where
  "resolved_recovery_cycle_cap cap = (if 1 \<le> cap then cap else 200)"

definition normalize_fallover_history_for_cap :: "FalloverRecord list \<Rightarrow> int \<Rightarrow> FalloverRecord list" where
  "normalize_fallover_history_for_cap h raw_cap =
     (let cap = resolved_recovery_cycle_cap raw_cap in
      if int (length h) \<le> cap then h else drop (length h - nat cap) h)"

definition set_fallover_history :: "FalloverRecord list \<Rightarrow> PipelineState \<Rightarrow> PipelineState" where
  "set_fallover_history h s =
     s\<lparr>ps_fallover_history := normalize_fallover_history_for_cap h (ps_recovery_cycle_cap s)\<rparr>"

definition set_recovery_cycle_cap :: "int \<Rightarrow> PipelineState \<Rightarrow> PipelineState" where
  "set_recovery_cycle_cap cap s =
     s\<lparr>ps_recovery_cycle_cap := cap,
       ps_fallover_history := normalize_fallover_history_for_cap (ps_fallover_history s) cap\<rparr>"

definition set_work_units :: "WorkUnit list \<Rightarrow> PipelineState \<Rightarrow> PipelineState" where
  "set_work_units us s =
     (if ps_work_units s \<noteq> [] \<and> us \<noteq> ps_work_units s then s else s\<lparr>ps_work_units := us\<rparr>)"

definition with_fallover_record :: "FalloverRecord \<Rightarrow> PipelineState \<Rightarrow> PipelineState" where
  "with_fallover_record r s = set_fallover_history (ps_fallover_history s @ [r]) s"

definition with_phase_timing :: "PhaseTimingRecord \<Rightarrow> PipelineState \<Rightarrow> PipelineState" where
  "with_phase_timing r s = s\<lparr>ps_phase_timings := ps_phase_timings s @ [r]\<rparr>"

definition with_parallel_execution_cleared :: "PipelineState \<Rightarrow> PipelineState" where
  "with_parallel_execution_cleared s = s\<lparr>ps_work_units := [], ps_worker_states := []\<rparr>"

section \<open>Frame and bounds of the setters\<close>

named_theorems state_defs \<open>definitions of the state setters\<close>

lemmas [state_defs] =
  with_phase_chain_def with_loop_iteration_def with_outer_progress_def with_drain_def
  with_budget_cap_def

lemma get_with_loop_iteration [simp]:
  "get_loop_iteration (with_loop_iteration f v s) g = (if g = f then v else get_loop_iteration s g)"
  by (simp add: get_loop_iteration_def with_loop_iteration_def)

lemma get_with_outer_progress [simp]:
  "get_outer_progress (with_outer_progress c v s) d = (if d = c then v else get_outer_progress s d)"
  by (simp add: get_outer_progress_def with_outer_progress_def)

lemma chain_with_phase_chain [simp]:
  "chain_for_phase (with_phase_chain ph c s) q = (if q = ph then Some c else chain_for_phase s q)"
  by (simp add: chain_for_phase_def with_phase_chain_def)

lemma fallover_history_bounded:
  "int (length (normalize_fallover_history_for_cap h cap)) \<le> resolved_recovery_cycle_cap cap"
  by (auto simp: normalize_fallover_history_for_cap_def Let_def resolved_recovery_cycle_cap_def)

text \<open>
  Recording a fallover never lets the checkpointed history grow past the recovery cycle cap, and it
  keeps the newest records: the result is a suffix of the old history with the new record appended.
\<close>

theorem fallover_history_trimmed:
  "int (length (ps_fallover_history (with_fallover_record r s)))
     \<le> resolved_recovery_cycle_cap (ps_recovery_cycle_cap s)
   \<and> (\<exists>dropped. ps_fallover_history s @ [r] = dropped @ ps_fallover_history (with_fallover_record r s))
   \<and> last (ps_fallover_history (with_fallover_record r s)) = r"
proof -
  let ?h = "ps_fallover_history s @ [r]"
  let ?cap = "resolved_recovery_cycle_cap (ps_recovery_cycle_cap s)"
  have pos: "1 \<le> ?cap" by (simp add: resolved_recovery_cycle_cap_def)
  have hist: "ps_fallover_history (with_fallover_record r s)
      = (if int (length ?h) \<le> ?cap then ?h else drop (length ?h - nat ?cap) ?h)"
    by (simp add: with_fallover_record_def set_fallover_history_def
        normalize_fallover_history_for_cap_def Let_def)
  then have "\<exists>dropped. ?h = dropped @ ps_fallover_history (with_fallover_record r s)"
    by (metis append_Nil append_take_drop_id)
  moreover have "last (ps_fallover_history (with_fallover_record r s)) = r"
    using pos hist by (auto simp: last_drop)
  ultimately show ?thesis
    using fallover_history_bounded
    by (simp add: with_fallover_record_def set_fallover_history_def)
qed

end
