(* ===== verification/Handoffs.thy ===== *)
theory Handoffs
  imports Pipeline_State
begin

text \<open>
  Phase handoff resolution (\<^verbatim>\<open>ralph/pipeline/handoffs.py\<close>) and the loop-counter arithmetic it reads from
  \<^verbatim>\<open>ralph/pipeline/progress.py\<close>: where a signal leads, which exhausted analysis phases are skipped on
  the way, and where a commit phase continues under the cycle budget. The \<^verbatim>\<open>ValueError\<close>s of the
  code are values carrying its messages, because the reducer stores them in the state.
\<close>

section \<open>Analysis loop counters\<close>

record AnalysisLoopCounter =
  alc_completed :: int
  alc_cap :: int

definition display_iteration :: "AnalysisLoopCounter \<Rightarrow> int" where
  "display_iteration c = min (max (alc_completed c) 0) (max (alc_cap c - 1) 0) + 1"

definition is_final :: "AnalysisLoopCounter \<Rightarrow> bool" where
  "is_final c \<longleftrightarrow> alc_cap c - 1 \<le> alc_completed c"

definition should_skip_reentry :: "AnalysisLoopCounter \<Rightarrow> bool" where
  "should_skip_reentry c \<longleftrightarrow> alc_cap c \<le> alc_completed c"

definition next_completed :: "AnalysisLoopCounter \<Rightarrow> int" where
  "next_completed c = max 0 (min (alc_completed c + 1) (alc_cap c))"

definition loop_counter :: "int \<Rightarrow> int \<Rightarrow> AnalysisLoopCounter" where
  "loop_counter n cap = \<lparr>alc_completed = n, alc_cap = cap\<rparr>"

definition should_skip_analysis_reentry :: "int \<Rightarrow> int \<Rightarrow> bool" where
  "should_skip_analysis_reentry n cap = should_skip_reentry (loop_counter n cap)"

definition is_final_analysis_iteration :: "int \<Rightarrow> int \<Rightarrow> bool" where
  "is_final_analysis_iteration n cap = is_final (loop_counter n cap)"

definition resolve_analysis_cap :: "string \<Rightarrow> PipelinePolicy \<Rightarrow> int result" where
  "resolve_analysis_cap f P =
     (case dict_get (pp_loop_counters P) f of
        Some c \<Rightarrow> Inr (lc_default_max c)
      | None \<Rightarrow> Inl (ValueError
          (''Analysis loop counter '' @ quoted f
           @ '' is not declared in pipeline.loop_counters. ''
           @ ''Analysis caps must come from a declared loop counter.'')))"

definition completed_analysis_passes :: "PipelineState \<Rightarrow> string \<Rightarrow> PipelinePolicy \<Rightarrow> int" where
  "completed_analysis_passes s ph P =
     (case phase_of P ph of None \<Rightarrow> 0
      | Some d \<Rightarrow> (case pd_loop_policy d of None \<Rightarrow> 0
          | Some lp \<Rightarrow> (let stored = get_loop_iteration s (iteration_state_field lp)
              in if pd_invocation_gate d = None then stored else max 0 (stored - 1))))"

section \<open>Next phase\<close>

definition forward_decision :: string where
  "forward_decision = ''completed''"

definition declared_forward_cycle_outcome :: "string \<Rightarrow> PipelinePolicy \<Rightarrow> string option" where
  "declared_forward_cycle_outcome ph P =
     (case phase_of P ph of None \<Rightarrow> None
      | Some d \<Rightarrow> (case dict_get (pd_decisions d) forward_decision of None \<Rightarrow> None
          | Some r \<Rightarrow> dr_cycle_outcome r))"

definition resolve_phase_drain :: "string \<Rightarrow> PipelinePolicy \<Rightarrow> string option" where
  "resolve_phase_drain ph P = map_option pd_drain (phase_of P ph)"

definition signal_target :: "string \<Rightarrow> PhaseTransition \<Rightarrow> string option result" where
  "signal_target signal t =
     (if signal = ''success'' then Inr (Some (on_success t))
      else if signal = ''failure'' then Inr (on_failure t)
      else if signal = ''loopback'' then Inr (on_loopback t)
      else Inl (ValueError (''Unknown signal: '' @ signal)))"

definition resolve_next_phase :: "string \<Rightarrow> string \<Rightarrow> PipelinePolicy \<Rightarrow> string result" where
  "resolve_next_phase ph signal P =
     (case phase_of P ph of
        None \<Rightarrow> Inl (ValueError (''Cannot resolve transition: phase '' @ quoted ph @ '' not found''))
      | Some d \<Rightarrow> bind_r (signal_target signal (pd_transitions d)) (\<lambda>target.
          case target of
            None \<Rightarrow> Inl (ValueError (''No '' @ quoted signal @ '' transition defined for phase ''
              @ quoted ph @ ''. Define on_'' @ signal
              @ '' in pipeline.toml or set the phase to terminal.''))
          | Some t \<Rightarrow>
              if t \<in> set (terminal_states P) then Inr t
              else if \<not> dict_has (pp_phases P) t then
                Inl (ValueError (''Transition from '' @ quoted ph @ '' on signal '' @ quoted signal
                  @ '' references unknown phase '' @ quoted t @ ''. Either add '' @ quoted t
                  @ '' to pipeline.phases or use the declared terminal phase.''))
              else Inr t))"

section \<open>Skipping exhausted analysis phases\<close>

record ExhaustedAnalysisSkip =
  sk_phase :: string
  sk_target_phase :: string
  sk_iteration_field :: string
  sk_iteration_value :: int
  sk_max_iterations :: int

record ExhaustedAnalysisBypassResult =
  br_state :: PipelineState
  br_target_phase :: string
  br_skipped :: "ExhaustedAnalysisSkip list"

text \<open>A forward outcome is stamped only where the cycle has no verdict yet.\<close>

definition stamp_outcome :: "string option \<Rightarrow> PipelineState \<Rightarrow> PipelineState" where
  "stamp_outcome oc s =
     (if oc \<noteq> None \<and> ps_pending_cycle_outcome s = None
      then s\<lparr>ps_pending_cycle_outcome := oc\<rparr> else s)"

definition skip_state :: "PipelinePolicy \<Rightarrow> string \<Rightarrow> string \<Rightarrow> PipelineState \<Rightarrow> PipelineState" where
  "skip_state P t f s =
     stamp_outcome (declared_forward_cycle_outcome t P)
       ((with_loop_iteration f 0 s)\<lparr>ps_review_outcome := None\<rparr>)"

function bypass_loop ::
    "PipelinePolicy \<Rightarrow> string list \<Rightarrow> PipelineState \<Rightarrow> string \<Rightarrow> ExhaustedAnalysisSkip list
     \<Rightarrow> ExhaustedAnalysisBypassResult result" where
  "bypass_loop P visited s t skipped =
     (let done = Inr \<lparr>br_state = s, br_target_phase = t, br_skipped = skipped\<rparr> in
      if t \<in> set visited then done
      else case phase_of P t of
        None \<Rightarrow> done
      | Some d \<Rightarrow> (case pd_loop_policy d of
          None \<Rightarrow> done
        | Some lp \<Rightarrow>
            (let f = iteration_state_field lp; n = get_loop_iteration s f in
             bind_r (resolve_analysis_cap f P) (\<lambda>cap.
               if \<not> should_skip_analysis_reentry n cap then done
               else bind_r (resolve_next_phase t ''success'' P) (\<lambda>t'.
                 bypass_loop P (t # visited) (skip_state P t f s) t'
                   (skipped @ [\<lparr>sk_phase = t, sk_target_phase = t', sk_iteration_field = f,
                                sk_iteration_value = n, sk_max_iterations = cap\<rparr>]))))))"
  by pat_completeness auto
termination
proof (relation "measure (\<lambda>(P, visited, s, t, sk). card (fst ` set (pp_phases P) - set visited))",
    goal_cases)
  case 1
  show ?case by simp
next
  case (2 P visited s t skipped done_res d lp f n cap t')
  then have "t \<in> fst ` set (pp_phases P) - set visited"
    using dict_has_keys [of "pp_phases P" t] by auto
  then have "card (fst ` set (pp_phases P) - set (t # visited))
      < card (fst ` set (pp_phases P) - set visited)"
    by (intro psubset_card_mono) auto
  then show ?case by simp
qed

declare bypass_loop.simps [simp del]

definition resolve_exhausted_analysis_bypass ::
    "PipelineState \<Rightarrow> string \<Rightarrow> PipelinePolicy \<Rightarrow> ExhaustedAnalysisBypassResult result" where
  "resolve_exhausted_analysis_bypass s t P = bypass_loop P [] s t []"

section \<open>Post-commit routing\<close>

definition tracked_counter :: "PipelinePolicy \<Rightarrow> string option \<Rightarrow> string option" where
  "tracked_counter P counter =
     (case counter of None \<Rightarrow> None
      | Some c \<Rightarrow> if c = [] \<or> c = ''none'' then None
          else (case dict_get (pp_budget_counters P) c of None \<Rightarrow> None
                | Some cfg \<Rightarrow> if bc_tracks_budget cfg then Some c else None))"

definition budget_counter_for_phase :: "string \<Rightarrow> PipelinePolicy \<Rightarrow> string option" where
  "budget_counter_for_phase ph P =
     (case dict_get (pp_lifecycle_phases P) ph of
        Some lc \<Rightarrow> tracked_counter P (lp_increments_counter lc)
      | None \<Rightarrow> (case phase_of P ph of None \<Rightarrow> None
          | Some d \<Rightarrow> (case pd_commit_policy d of None \<Rightarrow> None
              | Some cp \<Rightarrow> tracked_counter P
                  (if truthy (cp_route_counter cp) then cp_route_counter cp
                   else cp_increments_counter cp))))"

definition commit_closes_a_cycle :: "string \<Rightarrow> PipelinePolicy \<Rightarrow> bool" where
  "commit_closes_a_cycle ph P \<longleftrightarrow> budget_counter_for_phase ph P \<noteq> None"

definition compute_budget_state :: "PipelineState \<Rightarrow> PipelinePolicy \<Rightarrow> BudgetStateLabel option" where
  "compute_budget_state s P =
     (case budget_counter_for_phase (ps_phase s) P of
        None \<Rightarrow> None
      | Some counter \<Rightarrow>
          if 0 < get_budget_remaining s counter then Some Remaining
          else if list_ex (\<lambda>(name, cfg). name \<noteq> counter \<and> bc_tracks_budget cfg
                    \<and> 0 < get_budget_remaining s name) (pp_budget_counters P)
          then Some Exhausted
          else Some NoReview)"

definition candidate_cycle_outcomes :: "PipelineState \<Rightarrow> string option list" where
  "candidate_cycle_outcomes s =
     (case ps_pending_cycle_outcome s of
        Some oc \<Rightarrow> [Some oc] | None \<Rightarrow> [None, Some forward_decision])"

definition post_commit_route_matches ::
    "string \<Rightarrow> BudgetStateLabel \<Rightarrow> string option \<Rightarrow> PostCommitRoute \<Rightarrow> bool" where
  "post_commit_route_matches ph b oc r \<longleftrightarrow>
     pr_phase r = ph \<and> pr_budget_state r = b
     \<and> (pr_cycle_outcome r = None \<or> pr_cycle_outcome r = oc)"

fun first_match :: "('o \<Rightarrow> 'r \<Rightarrow> bool) \<Rightarrow> 'r list \<Rightarrow> 'o list \<Rightarrow> 'r option" where
  "first_match m rs [] = None"
| "first_match m rs (oc # ocs) = (case find (m oc) rs of Some r \<Rightarrow> Some r | None \<Rightarrow> first_match m rs ocs)"

definition resolve_post_commit_phase :: "PipelineState \<Rightarrow> PipelinePolicy \<Rightarrow> string result" where
  "resolve_post_commit_phase s P =
     (case ps_post_commit_phase_override s of
        Some t \<Rightarrow>
          if \<not> dict_has (pp_phases P) t \<and> t \<notin> set (terminal_states P)
          then Inl (ValueError (''Post-commit override references unknown phase '' @ quoted t))
          else Inr t
      | None \<Rightarrow>
          (let fallthrough = resolve_next_phase (ps_phase s) ''success'' P in
           case phase_of P (ps_phase s) of
             None \<Rightarrow> fallthrough
           | Some d \<Rightarrow>
               if pd_role d \<noteq> Some RoleCommit then fallthrough
               else (case compute_budget_state s P of
                   None \<Rightarrow> fallthrough
                 | Some b \<Rightarrow>
                     (case first_match (post_commit_route_matches (ps_phase s) b)
                             (pp_post_commit_routes P) (candidate_cycle_outcomes s) of
                        Some r \<Rightarrow> Inr (pr_target r)
                      | None \<Rightarrow> fallthrough))))"


section \<open>Correctness of handoffs\<close>

lemma resolve_next_phase_ValueError:
  "resolve_next_phase ph sig P = Inl e \<Longrightarrow> \<exists>m. e = ValueError m"
  by (auto simp: resolve_next_phase_def signal_target_def bind_r_def
      split: option.splits if_splits sum.splits)

lemma resolve_next_phase_eq:
  assumes "validated P"
  shows "resolve_next_phase ph sig P = Inr t \<longleftrightarrow>
     (\<exists>d. phase_of P ph = Some d \<and> signal_target sig (pd_transitions d) = Inr (Some t))"
proof -
  have "known_target P t"
    if "phase_of P ph = Some d" "signal_target sig (pd_transitions d) = Inr (Some t)" for d t
    using validated_transitions [OF assms that(1)] that(2)
    by (auto simp: signal_target_def split: if_splits)
  then have known: "t \<notin> set (terminal_states P) \<Longrightarrow> dict_has (pp_phases P) t"
    if "phase_of P ph = Some d" "signal_target sig (pd_transitions d) = Inr (Some t)" for d t
    using that by (auto simp: known_target_def)
  show ?thesis
  proof (cases "phase_of P ph")
    case None
    then show ?thesis by (simp add: resolve_next_phase_def)
  next
    case (Some d)
    then show ?thesis using known [OF Some]
      by (cases "signal_target sig (pd_transitions d)")
        (auto simp: resolve_next_phase_def split: option.splits)
  qed
qed

lemma resolve_next_phase_known:
  "validated P \<Longrightarrow> resolve_next_phase ph sig P = Inr t \<Longrightarrow> known_target P t"
  using validated_transitions [of P ph]
  by (fastforce simp: resolve_next_phase_eq signal_target_def split: if_splits)

lemma resolve_next_phase_success:
  "validated P \<Longrightarrow> phase_of P ph = Some d \<Longrightarrow>
   resolve_next_phase ph ''success'' P = Inr (on_success (pd_transitions d))"
  by (simp add: resolve_next_phase_eq signal_target_def)

text \<open>
  On a validated policy, a signal resolves to a phase exactly when the current phase declares a
  transition for it, the result is that declared target, and the target is a declared phase or a
  terminal: routing can raise only for an undeclared phase, an unknown signal or a missing
  transition, and then it raises the \<^verbatim>\<open>ValueError\<close> the reducer catches.
\<close>

theorem resolve_next_phase_correct:
  assumes "validated P"
  shows "(resolve_next_phase ph sig P = Inr t \<longleftrightarrow>
            (\<exists>d. phase_of P ph = Some d \<and> signal_target sig (pd_transitions d) = Inr (Some t)))
       \<and> (resolve_next_phase ph sig P = Inr t \<longrightarrow> known_target P t)
       \<and> (\<forall>e. resolve_next_phase ph sig P = Inl e \<longrightarrow> (\<exists>m. e = ValueError m))"
  using resolve_next_phase_eq [OF assms] resolve_next_phase_known [OF assms]
    resolve_next_phase_ValueError by blast

theorem resolve_next_phase_correct_witness:
  "validated default_policy \<and> resolve_next_phase ''planning'' ''success'' default_policy = Inr ''planning_analysis''
   \<and> known_target default_policy ''planning_analysis''"
proof -
  have "resolve_next_phase ''planning'' ''success'' default_policy = Inr ''planning_analysis''"
    by code_simp
  with resolve_next_phase_correct [OF default_validated, of "''planning''" "''success''" "''planning_analysis''"]
  show ?thesis using default_validated by blast
qed

subsection \<open>Loop counters\<close>

lemma next_completed_bounds:
  "0 \<le> cap \<Longrightarrow> 0 \<le> next_completed (loop_counter n cap) \<and> next_completed (loop_counter n cap) \<le> cap"
  by (simp add: next_completed_def loop_counter_def)

lemma next_completed_iterate:
  "0 \<le> cap \<Longrightarrow> ((\<lambda>n. next_completed (loop_counter n cap)) ^^ k) 0 = min (int k) cap"
  by (induction k) (auto simp: next_completed_def loop_counter_def)

text \<open>
  Charging one loopback at a time, re-entry of an analysis phase is skipped exactly from the
  declared cap on, the pass before it is the one labelled final, and the label shown to the
  operator stays between 1 and the cap.
\<close>

theorem analysis_loop_bounded:
  assumes "0 < cap"
  defines "charged \<equiv> \<lambda>k. ((\<lambda>n. next_completed (loop_counter n cap)) ^^ k) 0"
  shows "(should_skip_analysis_reentry (charged k) cap \<longleftrightarrow> cap \<le> int k)
       \<and> (is_final_analysis_iteration (charged k) cap \<longleftrightarrow> cap - 1 \<le> int k)
       \<and> 1 \<le> display_iteration (loop_counter (charged k) cap)
       \<and> display_iteration (loop_counter (charged k) cap) \<le> cap"
  using assms next_completed_iterate [of cap k]
  by (auto simp: should_skip_analysis_reentry_def should_skip_reentry_def is_final_def
      is_final_analysis_iteration_def display_iteration_def loop_counter_def)

theorem analysis_loop_bounded_witness:
  "(0::int) < 5 \<and> should_skip_analysis_reentry
      (((\<lambda>n. next_completed (loop_counter n 5)) ^^ 5) 0) 5"
  using analysis_loop_bounded [of 5 5] by simp

subsection \<open>The exhausted-analysis bypass\<close>

definition loop_open :: "PipelinePolicy \<Rightarrow> PipelineState \<Rightarrow> string \<Rightarrow> bool" where
  "loop_open P s t \<longleftrightarrow>
     (case phase_of P t of None \<Rightarrow> True
      | Some d \<Rightarrow> (case pd_loop_policy d of None \<Rightarrow> True
          | Some lp \<Rightarrow> (case dict_get (pp_loop_counters P) (iteration_state_field lp) of None \<Rightarrow> True
              | Some c \<Rightarrow> lc_default_max c \<le> 0 \<or>
                  get_loop_iteration s (iteration_state_field lp) < lc_default_max c)))"

definition loop_reset :: "PipelinePolicy \<Rightarrow> PipelineState \<Rightarrow> string \<Rightarrow> bool" where
  "loop_reset P s t \<longleftrightarrow>
     (\<forall>d lp. phase_of P t = Some d \<longrightarrow> pd_loop_policy d = Some lp \<longrightarrow>
        get_loop_iteration s (iteration_state_field lp) = 0)"

lemma loop_reset_open: "loop_reset P s t \<Longrightarrow> loop_open P s t"
  by (auto simp: loop_reset_def loop_open_def split: option.splits)

lemma skip_state_loop [simp]:
  "get_loop_iteration (skip_state P t f s) g = (if g = f then 0 else get_loop_iteration s g)"
  by (simp add: skip_state_def stamp_outcome_def get_loop_iteration_def with_loop_iteration_def)

text \<open>What a bypass may change: the loop counters (to 0), the review outcome, a missing verdict.\<close>

definition bypass_frame :: "PipelineState \<Rightarrow> PipelineState \<Rightarrow> bool" where
  "bypass_frame s s' \<longleftrightarrow>
     s' = s\<lparr>ps_loop_iterations := ps_loop_iterations s', ps_review_outcome := ps_review_outcome s',
            ps_pending_cycle_outcome := ps_pending_cycle_outcome s'\<rparr>
     \<and> (ps_pending_cycle_outcome s \<noteq> None \<longrightarrow> ps_pending_cycle_outcome s' = ps_pending_cycle_outcome s)
     \<and> (\<forall>f. get_loop_iteration s' f \<in> {0, get_loop_iteration s f})"

lemma bypass_frame_refl [simp]: "bypass_frame s s"
  by (simp add: bypass_frame_def)

lemma bypass_frame_trans: "bypass_frame s t \<Longrightarrow> bypass_frame t u \<Longrightarrow> bypass_frame s u"
proof -
  assume st: "bypass_frame s t" and tu: "bypass_frame t u"
  have "u = s\<lparr>ps_loop_iterations := ps_loop_iterations u, ps_review_outcome := ps_review_outcome u,
            ps_pending_cycle_outcome := ps_pending_cycle_outcome u\<rparr>"
    using st tu unfolding bypass_frame_def by (cases s, cases t, cases u) simp
  moreover have "get_loop_iteration u f \<in> {0, get_loop_iteration s f}" for f
    using st tu unfolding bypass_frame_def by (metis insert_iff singletonD)
  ultimately show ?thesis using st tu by (simp add: bypass_frame_def)
qed

lemma bypass_frame_skip: "bypass_frame s (skip_state P t f s)"
  unfolding bypass_frame_def
  by (cases s) (auto simp: skip_state_def stamp_outcome_def with_loop_iteration_def get_loop_iteration_def)

lemma bypass_loop_spec:
  assumes "well_formed P"
  shows "known_target P t \<Longrightarrow> \<forall>v \<in> set visited. loop_reset P s v \<Longrightarrow>
    \<exists>r. bypass_loop P visited s t skipped = Inr r \<and> known_target P (br_target_phase r)
      \<and> loop_open P (br_state r) (br_target_phase r) \<and> bypass_frame s (br_state r)
      \<and> (\<exists>more. br_skipped r = skipped @ more \<and> (more = [] \<longrightarrow> br_state r = s \<and> br_target_phase r = t))"
  using assms
proof (induction P visited s t skipped rule: bypass_loop.induct)
  case (1 P visited s t skipped)
  note IH = "1.IH" and known = "1.prems"(1) and reset = "1.prems"(2) and wf = "1.prems"(3)
  show ?case
  proof (cases "t \<notin> set visited \<and> (\<exists>d lp. phase_of P t = Some d \<and> pd_loop_policy d = Some lp)")
    case False
    then have "bypass_loop P visited s t skipped =
        Inr \<lparr>br_state = s, br_target_phase = t, br_skipped = skipped\<rparr>"
      by (subst bypass_loop.simps) (auto simp: Let_def split: option.splits)
    moreover from False reset have "loop_open P s t"
      by (cases "t \<in> set visited")
        (blast intro: loop_reset_open, auto simp: loop_open_def split: option.splits)
    ultimately show ?thesis using known by simp
  next
    case True
    then obtain d lp where nv: "t \<notin> set visited" and d: "phase_of P t = Some d"
      and lp: "pd_loop_policy d = Some lp" by blast
    let ?f = "iteration_state_field lp" and ?n = "get_loop_iteration s (iteration_state_field lp)"
    from wf d lp obtain c where c: "dict_get (pp_loop_counters P) ?f = Some c"
      by (rule well_formed_loop_counter)
    let ?t' = "on_success (pd_transitions d)"
    from wf have val: "validated P" by (rule well_formed_validated)
    have next_ph: "resolve_next_phase t ''success'' P = Inr ?t'"
      by (rule resolve_next_phase_success [OF val d])
    have cap: "resolve_analysis_cap ?f P = Inr (lc_default_max c)"
      by (simp add: resolve_analysis_cap_def c)
    show ?thesis
    proof (cases "should_skip_analysis_reentry ?n (lc_default_max c)")
      case False
      then have "loop_open P s t"
        by (simp add: loop_open_def d lp c should_skip_analysis_reentry_def should_skip_reentry_def
            loop_counter_def)
      moreover from False have "bypass_loop P visited s t skipped =
          Inr \<lparr>br_state = s, br_target_phase = t, br_skipped = skipped\<rparr>"
        by (subst bypass_loop.simps) (simp add: Let_def nv d lp cap)
      ultimately show ?thesis using known by simp
    next
      case skip: True
      let ?sk = "\<lparr>sk_phase = t, sk_target_phase = ?t', sk_iteration_field = ?f,
                  sk_iteration_value = ?n, sk_max_iterations = lc_default_max c\<rparr>"
      have unfold: "bypass_loop P visited s t skipped =
          bypass_loop P (t # visited) (skip_state P t ?f s) ?t' (skipped @ [?sk])"
        by (subst bypass_loop.simps) (simp add: Let_def nv d lp cap skip next_ph)
      have known': "known_target P ?t'" by (rule validated_transitions(1) [OF val d])
      have reset': "\<forall>v \<in> set (t # visited). loop_reset P (skip_state P t ?f s) v"
        using reset d lp by (auto simp: loop_reset_def)
      from IH [OF refl nv d lp refl refl cap _ next_ph known' reset' wf] skip
      obtain r more where "bypass_loop P (t # visited) (skip_state P t ?f s) ?t' (skipped @ [?sk]) = Inr r"
        and "known_target P (br_target_phase r)" "loop_open P (br_state r) (br_target_phase r)"
        and fr: "bypass_frame (skip_state P t ?f s) (br_state r)"
        and "br_skipped r = (skipped @ [?sk]) @ more"
        by blast
      moreover have "bypass_frame s (br_state r)"
        by (rule bypass_frame_trans [OF bypass_frame_skip fr])
      ultimately show ?thesis by (simp add: unfold)
    qed
  qed
qed

lemma bypass_spec:
  assumes "well_formed P" and "known_target P t"
  obtains r where "resolve_exhausted_analysis_bypass s t P = Inr r"
    and "known_target P (br_target_phase r)" "loop_open P (br_state r) (br_target_phase r)"
    and "bypass_frame s (br_state r)"
    and "br_skipped r = [] \<Longrightarrow> br_state r = s \<and> br_target_phase r = t"
  using bypass_loop_spec [OF assms, of "[]" s "[]"]
  by (auto simp: resolve_exhausted_analysis_bypass_def)

text \<open>
  C22. On a well-formed policy the bypass loop terminates without raising. It lands on a declared phase
  or terminal whose own loop budget is not spent (for a positive cap); it changes only loop counters (to 0), the
  review outcome and a verdict that was still missing, so a recorded verdict is never outranked.
\<close>

theorem bypass_lands_on_open_phase:
  assumes "well_formed P" and "known_target P t"
  shows "\<exists>r. resolve_exhausted_analysis_bypass s t P = Inr r \<and> known_target P (br_target_phase r)
      \<and> loop_open P (br_state r) (br_target_phase r) \<and> bypass_frame s (br_state r)"
  using bypass_spec [OF assms, of s] by metis

definition exhausted_demo :: PipelineState where
  "exhausted_demo =
     with_loop_iteration ''development_analysis_iteration'' 5
       (with_loop_iteration ''commit_cleanup_iteration'' 3 (from_policy default_policy))"

theorem bypass_lands_on_open_phase_witness:
  "known_target default_policy ''development_analysis'' \<and>
   (\<exists>r. resolve_exhausted_analysis_bypass exhausted_demo ''development_analysis'' default_policy = Inr r
      \<and> br_target_phase r = ''development_final_commit''
      \<and> loop_open default_policy (br_state r) (br_target_phase r))"
proof -
  have known: "known_target default_policy ''development_analysis''" by code_simp
  have "case resolve_exhausted_analysis_bypass exhausted_demo ''development_analysis'' default_policy of
      Inr r \<Rightarrow> br_target_phase r = ''development_final_commit'' | Inl e \<Rightarrow> False" by code_simp
  with bypass_lands_on_open_phase [OF default_well_formed known, of exhausted_demo] known
  show ?thesis by (auto split: sum.splits)
qed

subsection \<open>Post-commit routing\<close>

lemma first_match_Some:
  "first_match m rs ocs = Some r \<Longrightarrow> r \<in> set rs \<and> (\<exists>oc \<in> set ocs. m oc r)"
  by (induction ocs) (auto split: option.splits simp: find_Some_iff)

lemma first_match_exists:
  "oc \<in> set ocs \<Longrightarrow> r \<in> set rs \<Longrightarrow> m oc r \<Longrightarrow> \<exists>q. first_match m rs ocs = Some q"
  by (induction ocs) (auto split: option.splits simp: find_None_iff)

lemma resolve_post_commit_known:
  "validated P \<Longrightarrow> resolve_post_commit_phase s P = Inr t \<Longrightarrow> known_target P t"
  using resolve_next_phase_known [of P "ps_phase s" "''success''" t]
  by (auto simp: resolve_post_commit_phase_def Let_def known_target_def
      split: option.splits if_splits dest!: first_match_Some dest: validated_post_commit)

lemma resolve_post_commit_ValueError:
  "resolve_post_commit_phase s P = Inl e \<Longrightarrow> \<exists>m. e = ValueError m"
  by (auto simp: resolve_post_commit_phase_def Let_def split: option.splits if_splits
      dest: resolve_next_phase_ValueError)

text \<open>
  Post-commit routing follows the budget table: in a commit phase whose budget state the table
  mentions, a cycle that recorded a verdict this workflow can record (or recorded none, which is
  routed as \<^verbatim>\<open>completed\<close>) continues at the target of a route that matches phase, budget state and
  verdict; it never falls through to the phase's success transition.
\<close>

theorem post_commit_follows_route_table:
  assumes "validated P" and "ps_post_commit_phase_override s = None"
    and "phase_of P (ps_phase s) = Some d" and "pd_role d = Some RoleCommit"
    and "compute_budget_state s P = Some b"
    and "r0 \<in> set (pp_post_commit_routes P)" "pr_phase r0 = ps_phase s" "pr_budget_state r0 = b"
    and "oc \<in> set (candidate_cycle_outcomes s)" "oc = Some v" "v \<in> set (recordable_cycle_outcomes P)"
  shows "\<exists>r oc'. r \<in> set (pp_post_commit_routes P) \<and> oc' \<in> set (candidate_cycle_outcomes s)
      \<and> post_commit_route_matches (ps_phase s) b oc' r
      \<and> resolve_post_commit_phase s P = Inr (pr_target r)"
proof -
  from assms(1,3,6-8,11) obtain q where q: "q \<in> set (pp_post_commit_routes P)"
    and "pr_phase q = ps_phase s" "pr_budget_state q = b"
    and "pr_cycle_outcome q = None \<or> pr_cycle_outcome q = Some v"
    by (fastforce simp: validated_def recordable_cycle_outcomes_are_routable_def)
  then have "post_commit_route_matches (ps_phase s) b oc q"
    by (auto simp: post_commit_route_matches_def assms(10))
  then obtain r where r: "first_match (post_commit_route_matches (ps_phase s) b)
      (pp_post_commit_routes P) (candidate_cycle_outcomes s) = Some r"
    using first_match_exists [of oc _ q] assms(9) q by blast
  with first_match_Some [OF r] assms(2-5) show ?thesis
    by (auto simp: resolve_post_commit_phase_def Let_def)
qed

definition final_commit_demo :: PipelineState where
  "final_commit_demo = (from_policy default_policy)
     \<lparr>ps_phase := ''development_final_commit'', ps_pending_cycle_outcome := Some ''failed''\<rparr>"

theorem post_commit_follows_route_table_witness:
  "\<exists>r oc'. r \<in> set (pp_post_commit_routes default_policy)
      \<and> oc' \<in> set (candidate_cycle_outcomes final_commit_demo)
      \<and> post_commit_route_matches ''development_final_commit'' NoReview oc' r
      \<and> resolve_post_commit_phase final_commit_demo default_policy = Inr (pr_target r)"
proof -
  obtain d where d: "phase_of default_policy (ps_phase final_commit_demo) = Some d"
      "pd_role d = Some RoleCommit"
  proof -
    have "case phase_of default_policy (ps_phase final_commit_demo) of
        None \<Rightarrow> False | Some d \<Rightarrow> pd_role d = Some RoleCommit" by code_simp
    then show ?thesis using that by (auto split: option.splits)
  qed
  have "ps_post_commit_phase_override final_commit_demo = None"
    "compute_budget_state final_commit_demo default_policy = Some NoReview"
    "default_route NoReview ''failed'' ''failed_terminal'' \<in> set (pp_post_commit_routes default_policy)"
    "pr_phase (default_route NoReview ''failed'' ''failed_terminal'') = ps_phase final_commit_demo"
    "pr_budget_state (default_route NoReview ''failed'' ''failed_terminal'') = NoReview"
    "Some ''failed'' \<in> set (candidate_cycle_outcomes final_commit_demo)"
    "''failed'' \<in> set (recordable_cycle_outcomes default_policy)"
    by code_simp+
  from post_commit_follows_route_table [OF default_validated this(1) d this(2-6) refl this(7)]
  show ?thesis by (simp add: final_commit_demo_def)
qed

end
