(* ===== verification/Cycle_Timing.thy ===== *)
theory Cycle_Timing
  imports Handoffs
begin

text \<open>
  The plan-to-final-commit cycle timebox (\<^verbatim>\<open>ralph/pipeline/cycle_timing.py\<close>): when the cycle timer
  starts, when it stops, and the redirect of an expired entry of the guarded phase. The elapsed
  seconds the runner samples are the argument \<open>timing\<close> (\<open>None\<close> when no timing context is given).
\<close>

type_synonym RoutingTiming = rat

record CycleTimeboxDecision =
  td_state :: PipelineState
  td_target_phase :: string
  td_redirected :: bool
  td_redirect_reason :: "string option"
  td_timing_started :: bool

definition concluded :: "string option \<Rightarrow> string option \<Rightarrow> PipelineState \<Rightarrow> PipelineState" where
  "concluded redirect_reason cycle_outcome s =
     stamp_outcome cycle_outcome
       (case redirect_reason of
          None \<Rightarrow> s\<lparr>ps_cycle_timebox_active := False\<rparr>
        | Some reason \<Rightarrow> s\<lparr>ps_cycle_timebox_active := False,
                           ps_cycle_timebox_redirect_reason := Some reason,
                           ps_cycle_timebox_redirects := ps_cycle_timebox_redirects s + 1\<rparr>)"

definition cycle_timebox_redirect_reason :: "rat \<Rightarrow> rat \<Rightarrow> string \<Rightarrow> string" where
  "cycle_timebox_redirect_reason limit elapsed target =
     ''cycle timebox reached '' @ fmt0 limit @ ''s (elapsed '' @ fmt0 elapsed
     @ ''s); redirecting to '' @ target"

definition started :: "PipelineState \<Rightarrow> PipelineState" where
  "started s = s\<lparr>ps_cycle_timebox_active := True, ps_cycle_timebox_consumed_seconds := 0,
                 ps_cycle_timebox_redirect_reason := None\<rparr>"

definition pass_through :: "PipelineState \<Rightarrow> string \<Rightarrow> CycleTimeboxDecision" where
  "pass_through s t = \<lparr>td_state = s, td_target_phase = t, td_redirected = False,
                       td_redirect_reason = None, td_timing_started = False\<rparr>"

definition apply_cycle_timebox ::
    "PipelineState \<Rightarrow> string \<Rightarrow> PipelinePolicy \<Rightarrow> RoutingTiming option \<Rightarrow> CycleTimeboxDecision" where
  "apply_cycle_timebox s t P timing =
     (case pp_cycle_timebox P of
        None \<Rightarrow> pass_through s t
      | Some ct \<Rightarrow> (case timing of
          None \<Rightarrow> pass_through s t
        | Some elapsed \<Rightarrow>
            if t \<in> {ct_end_entry ct, ct_finalization_target ct} \<and> ps_cycle_timebox_active s
            then pass_through (concluded None None s) t
            else if \<not> ps_cycle_timebox_active s \<and> ps_phase s = ct_start_source ct
                    \<and> t = ct_start_entry ct
            then (pass_through (started s) t)\<lparr>td_timing_started := True\<rparr>
            else if t = ct_guarded_entry ct \<and> ps_cycle_timebox_active s then
              (if ct_duration_seconds ct \<le> elapsed then
                 (let reason = cycle_timebox_redirect_reason (ct_duration_seconds ct) elapsed
                                 (ct_finalization_target ct)
                  in \<lparr>td_state = concluded (Some reason) (Some (ct_finalization_cycle_outcome ct)) s,
                      td_target_phase = ct_finalization_target ct,
                      td_redirected = True, td_redirect_reason = Some reason,
                      td_timing_started = False\<rparr>)
               else pass_through s t)
            else pass_through s t))"

definition declared_targets :: "PhaseDefinition \<Rightarrow> string list" where
  "declared_targets d =
     on_success (pd_transitions d) # opt_list (on_failure (pd_transitions d))
     @ opt_list (on_loopback (pd_transitions d)) @ map (\<lambda>(dn, r). dr_target r) (pd_decisions d)"

definition declared_targets_of :: "PipelinePolicy \<Rightarrow> string \<Rightarrow> string list" where
  "declared_targets_of P ph = (case phase_of P ph of None \<Rightarrow> [] | Some d \<Rightarrow> declared_targets d)"

definition not_cycle_boundary :: "CycleTimeboxPolicy \<Rightarrow> string \<Rightarrow> bool" where
  "not_cycle_boundary ct ph \<longleftrightarrow> ph \<notin> {ct_start_entry ct, ct_guarded_entry ct}"

definition outside_cycle_phases :: "PipelinePolicy \<Rightarrow> CycleTimeboxPolicy \<Rightarrow> string list" where
  "outside_cycle_phases P ct =
     stack_search (map fst (pp_phases P)) (not_cycle_boundary ct) (declared_targets_of P) []
       [ct_end_entry ct, ct_start_source ct, pp_entry_phase P]"

definition conclude_cycle_on_route_out_of_cycle ::
    "PipelineState \<Rightarrow> string \<Rightarrow> PipelinePolicy \<Rightarrow> PipelineState" where
  "conclude_cycle_on_route_out_of_cycle s t P =
     (case pp_cycle_timebox P of None \<Rightarrow> s
      | Some ct \<Rightarrow>
          if \<not> ps_cycle_timebox_active s then s
          else if t \<notin> set (outside_cycle_phases P ct) \<union> set (terminal_states P) then s
          else concluded None None s)"

definition start_cycle_for_bypassed_start_source ::
    "PipelineState \<Rightarrow> string \<Rightarrow> string list \<Rightarrow> PipelinePolicy \<Rightarrow> PipelineState" where
  "start_cycle_for_bypassed_start_source s t skipped P =
     (case pp_cycle_timebox P of None \<Rightarrow> s
      | Some ct \<Rightarrow>
          if ps_cycle_timebox_active s then s
          else if t \<noteq> ct_start_entry ct \<or> ct_start_source ct \<notin> set skipped then s
          else started s)"

definition initialize_legacy_cycle_on_resume :: "PipelineState \<Rightarrow> PipelinePolicy \<Rightarrow> PipelineState" where
  "initialize_legacy_cycle_on_resume s P =
     (case pp_cycle_timebox P of None \<Rightarrow> s
      | Some ct \<Rightarrow>
          if ps_cycle_timebox_active s \<or> 0 < ps_cycle_timebox_consumed_seconds s then s
          else if ps_phase s \<in> {ct_start_entry ct, ct_guarded_entry ct} then started s
          else if \<not> dict_has (pp_phases P) (ps_phase s) \<or> ps_phase s \<in> set (terminal_states P) then s
          else if ps_phase s \<in> set (outside_cycle_phases P ct) then s
          else started s)"

definition cycle_timebox_status_item :: "PipelineState \<Rightarrow> PipelinePolicy \<Rightarrow> (string \<times> string) option" where
  "cycle_timebox_status_item s P =
     (case pp_cycle_timebox P of None \<Rightarrow> None
      | Some ct \<Rightarrow>
          if \<not> ps_cycle_timebox_active s then None
          else (let consumed = ps_cycle_timebox_consumed_seconds s;
                    remaining = max 0 (ct_duration_seconds ct - consumed)
                in Some (''cycle timebox'',
                     fmt0 (consumed / 60) @ ''m/'' @ fmt0 (ct_duration_seconds ct / 60) @ ''m, ''
                     @ fmt0 (remaining / 60) @ ''m left'')))"

definition cycle_deadline_epochs ::
    "PipelineState \<Rightarrow> string \<Rightarrow> PipelinePolicy \<Rightarrow> RoutingTiming option \<Rightarrow> rat
     \<Rightarrow> (rat \<times> rat \<times> string) option" where
  "cycle_deadline_epochs s t P timing now_epoch =
     (case pp_cycle_timebox P of None \<Rightarrow> None
      | Some ct \<Rightarrow> (case timing of None \<Rightarrow> None
        | Some elapsed \<Rightarrow>
            if t \<noteq> ct_guarded_entry ct \<or> \<not> ps_cycle_timebox_active s then None
            else Some (now_epoch + max 0 (warning_threshold_seconds ct - elapsed),
                       now_epoch + max 0 (ct_duration_seconds ct - elapsed),
                       ct_finalization_target ct)))"

record CycleTimeboxWarning =
  tw_elapsed_seconds :: rat
  tw_remaining_seconds :: rat
  tw_duration_seconds :: rat
  tw_finalization_target :: string

definition cycle_timebox_warning ::
    "PipelineState \<Rightarrow> string \<Rightarrow> PipelinePolicy \<Rightarrow> RoutingTiming option \<Rightarrow> CycleTimeboxWarning option" where
  "cycle_timebox_warning s t P timing =
     (case pp_cycle_timebox P of None \<Rightarrow> None
      | Some ct \<Rightarrow> (case timing of None \<Rightarrow> None
        | Some elapsed \<Rightarrow>
            if t \<noteq> ct_guarded_entry ct then None
            else if \<not> ps_cycle_timebox_active s then None
            else if elapsed < warning_threshold_seconds ct then None
            else if ct_duration_seconds ct \<le> elapsed then None
            else Some \<lparr>tw_elapsed_seconds = elapsed,
                       tw_remaining_seconds = max 0 (ct_duration_seconds ct - elapsed),
                       tw_duration_seconds = ct_duration_seconds ct,
                       tw_finalization_target = ct_finalization_target ct\<rparr>))"

section \<open>What the timer may touch\<close>

text \<open>
  Every timer operation changes only the four timebox fields and, on a redirect, a verdict that was
  still missing.
\<close>

definition timebox_frame :: "PipelineState \<Rightarrow> PipelineState \<Rightarrow> bool" where
  "timebox_frame s s' \<longleftrightarrow>
     s' = s\<lparr>ps_pending_cycle_outcome := ps_pending_cycle_outcome s',
            ps_cycle_timebox_active := ps_cycle_timebox_active s',
            ps_cycle_timebox_consumed_seconds := ps_cycle_timebox_consumed_seconds s',
            ps_cycle_timebox_redirect_reason := ps_cycle_timebox_redirect_reason s',
            ps_cycle_timebox_redirects := ps_cycle_timebox_redirects s'\<rparr>
     \<and> (ps_pending_cycle_outcome s \<noteq> None \<longrightarrow> ps_pending_cycle_outcome s' = ps_pending_cycle_outcome s)"

lemma timebox_frame_refl [simp]: "timebox_frame s s"
  by (simp add: timebox_frame_def)

lemma timebox_frame_concluded [simp]: "timebox_frame s (concluded r oc s)"
  by (cases s) (auto simp: timebox_frame_def concluded_def stamp_outcome_def split: option.splits)

lemma timebox_frame_started [simp]: "timebox_frame s (started s)"
  by (cases s) (simp add: timebox_frame_def started_def)

lemma pass_through_sel [simp]:
  "td_state (pass_through s t) = s" "td_target_phase (pass_through s t) = t"
  "td_redirected (pass_through s t) = False" "td_redirect_reason (pass_through s t) = None"
  "td_timing_started (pass_through s t) = False"
  by (simp_all add: pass_through_def)

lemma apply_cycle_timebox_frame [simp]: "timebox_frame s (td_state (apply_cycle_timebox s t P timing))"
  by (simp add: apply_cycle_timebox_def Let_def split: option.splits)

lemma conclude_frame [simp]: "timebox_frame s (conclude_cycle_on_route_out_of_cycle s t P)"
  by (simp add: conclude_cycle_on_route_out_of_cycle_def split: option.splits)

lemma start_bypassed_frame [simp]: "timebox_frame s (start_cycle_for_bypassed_start_source s t sk P)"
  by (simp add: start_cycle_for_bypassed_start_source_def split: option.splits)

lemma concluded_inactive [simp]: "ps_cycle_timebox_active (concluded r oc s) = False"
  by (simp add: concluded_def stamp_outcome_def split: option.splits)

lemma apply_cycle_timebox_known:
  "validated P \<Longrightarrow> known_target P t \<Longrightarrow> known_target P (td_target_phase (apply_cycle_timebox s t P timing))"
  by (auto simp: apply_cycle_timebox_def Let_def split: option.splits dest: validated_timebox)

section \<open>Correctness of the timebox\<close>

text \<open>
  The phases outside a cycle, as the documentation states them: what the declared edges reach from
  the entry phase, the declared start source and the end entry without passing the cycle's own
  entries.
\<close>

inductive outside_cycle :: "PipelinePolicy \<Rightarrow> CycleTimeboxPolicy \<Rightarrow> string \<Rightarrow> bool" for P ct where
  outside_start: "ph \<in> {pp_entry_phase P, ct_start_source ct, ct_end_entry ct} \<Longrightarrow>
     dict_has (pp_phases P) ph \<Longrightarrow> not_cycle_boundary ct ph \<Longrightarrow> outside_cycle P ct ph"
| outside_step: "outside_cycle P ct ph \<Longrightarrow> phase_of P ph = Some d \<Longrightarrow> q \<in> set (declared_targets d) \<Longrightarrow>
     dict_has (pp_phases P) q \<Longrightarrow> not_cycle_boundary ct q \<Longrightarrow> outside_cycle P ct q"

interpretation outside_walk: graph_walk
  "map fst (pp_phases P)" "not_cycle_boundary ct" "declared_targets_of P" for P ct .

lemma outside_admissible:
  "outside_walk.admissible P ct ph \<longleftrightarrow> dict_has (pp_phases P) ph \<and> not_cycle_boundary ct ph"
  using dict_has_keys [of "pp_phases P" ph]
  by (simp add: graph_walk.admissible_def)

lemma outside_search_correct:
  "ph \<in> set (outside_cycle_phases P ct) \<longleftrightarrow> outside_cycle P ct ph"
proof -
  let ?S = "set [ct_end_entry ct, ct_start_source ct, pp_entry_phase P]"
  have "outside_walk.reached P ct ?S = Collect (outside_cycle P ct)"
  proof
    show "outside_walk.reached P ct ?S \<subseteq> Collect (outside_cycle P ct)"
      by (rule outside_walk.reached_least)
        (auto simp: outside_admissible declared_targets_of_def split: option.splits
          intro: outside_cycle.outside_start outside_cycle.outside_step [OF _ sym])
    show "Collect (outside_cycle P ct) \<subseteq> outside_walk.reached P ct ?S"
    proof (clarsimp)
      fix x assume "outside_cycle P ct x"
      then show "x \<in> outside_walk.reached P ct {ct_end_entry ct, ct_start_source ct, pp_entry_phase P}"
      proof (induction rule: outside_cycle.induct)
        case (outside_start ph)
        then show ?case
          by (intro outside_walk.reached_start) (auto simp: outside_admissible)
      next
        case (outside_step ph d q)
        show ?case
          by (rule outside_walk.reached_step [OF outside_step.IH])
            (use outside_step.hyps in \<open>simp_all add: outside_admissible declared_targets_of_def\<close>)
      qed
    qed
  qed
  then show ?thesis
    by (simp add: outside_cycle_phases_def outside_walk.search_reached set_eq_iff)
qed

text \<open>
  The worklist search that decides which phases lie outside a cycle computes exactly the phases the
  declared edges reach from the planning side and from the final-commit path without entering the
  cycle.
\<close>

theorem outside_cycle_phases_correct:
  "ph \<in> set (outside_cycle_phases P ct) \<longleftrightarrow> outside_cycle P ct ph"
  by (rule outside_search_correct)

text \<open>
  The deadline. Asked to enter the guarded phase of a running cycle, the timebox does exactly one
  of three things: below 80% of the duration it lets the entry pass silently, from there on it lets it
  pass and a warning with the true remaining time is produced, and from the deadline on it redirects
  to the finalization target, stops the timer, counts the redirect and stamps the finalization
  verdict unless the cycle already has one.
\<close>

theorem deadline_decision:
  fixes s :: PipelineState and elapsed :: rat
  assumes "pp_cycle_timebox P = Some ct" and "ps_cycle_timebox_active s"
    and "ct_guarded_entry ct \<notin> {ct_end_entry ct, ct_finalization_target ct}"
    and "0 < ct_duration_seconds ct"
  defines "g \<equiv> ct_guarded_entry ct"
  defines "dec \<equiv> apply_cycle_timebox s g P (Some elapsed)"
    and "warn \<equiv> cycle_timebox_warning s g P (Some elapsed)"
  shows "(elapsed < warning_threshold_seconds ct \<longrightarrow> dec = pass_through s g \<and> warn = None)
    \<and> (warning_threshold_seconds ct \<le> elapsed \<and> elapsed < ct_duration_seconds ct \<longrightarrow>
         dec = pass_through s g \<and>
         (\<exists>w. warn = Some w \<and> tw_elapsed_seconds w + tw_remaining_seconds w = ct_duration_seconds ct))
    \<and> (ct_duration_seconds ct \<le> elapsed \<longrightarrow>
         warn = None \<and> td_redirected dec \<and> td_target_phase dec = ct_finalization_target ct
         \<and> \<not> ps_cycle_timebox_active (td_state dec)
         \<and> ps_cycle_timebox_redirects (td_state dec) = ps_cycle_timebox_redirects s + 1
         \<and> ps_pending_cycle_outcome (td_state dec)
             = (case ps_pending_cycle_outcome s of None \<Rightarrow> Some (ct_finalization_cycle_outcome ct)
                | Some oc \<Rightarrow> Some oc))"
proof -
  have threshold: "warning_threshold_seconds ct < ct_duration_seconds ct"
    using assms(4) by (simp add: warning_threshold_seconds_def)
  have pass: "dec = pass_through s g" if "elapsed < ct_duration_seconds ct"
    using that assms(1-3) by (simp add: dec_def g_def apply_cycle_timebox_def)
  have warned: "warn = (if elapsed < warning_threshold_seconds ct \<or> ct_duration_seconds ct \<le> elapsed
      then None else Some \<lparr>tw_elapsed_seconds = elapsed,
        tw_remaining_seconds = max 0 (ct_duration_seconds ct - elapsed),
        tw_duration_seconds = ct_duration_seconds ct,
        tw_finalization_target = ct_finalization_target ct\<rparr>)"
    using assms(1,2) by (simp add: warn_def g_def cycle_timebox_warning_def)
  have redirect: "td_redirected dec \<and> td_target_phase dec = ct_finalization_target ct
      \<and> \<not> ps_cycle_timebox_active (td_state dec)
      \<and> ps_cycle_timebox_redirects (td_state dec) = ps_cycle_timebox_redirects s + 1
      \<and> ps_pending_cycle_outcome (td_state dec)
          = (case ps_pending_cycle_outcome s of None \<Rightarrow> Some (ct_finalization_cycle_outcome ct)
             | Some oc \<Rightarrow> Some oc)"
    if "ct_duration_seconds ct \<le> elapsed"
    using that assms(1-3)
    by (simp add: dec_def g_def apply_cycle_timebox_def Let_def concluded_def stamp_outcome_def
        split: option.splits)
  show ?thesis
    using threshold pass warned redirect by auto
qed

text \<open>
  The deadline published to the agent process agrees with the routing decision: the warning epoch
  precedes the deadline epoch, and at a later sample of the same clock the entry is redirected
  exactly when the deadline epoch has passed.
\<close>

theorem deadline_epochs_agree_with_redirect:
  assumes "pp_cycle_timebox P = Some ct" and "0 < ct_duration_seconds ct"
    and "ct_guarded_entry ct \<notin> {ct_end_entry ct, ct_finalization_target ct}"
    and "cycle_deadline_epochs s (ct_guarded_entry ct) P (Some elapsed) now_epoch
           = Some (warn_at, deadline_at, fin)"
    and "elapsed < ct_duration_seconds ct" and "0 \<le> dt"
  shows "now_epoch \<le> warn_at \<and> warn_at \<le> deadline_at \<and> fin = ct_finalization_target ct
    \<and> (td_redirected (apply_cycle_timebox s (ct_guarded_entry ct) P (Some (elapsed + dt)))
         \<longleftrightarrow> deadline_at \<le> now_epoch + dt)"
proof -
  from assms(1,4) have act: "ps_cycle_timebox_active s"
    by (auto simp: cycle_deadline_epochs_def split: if_splits)
  have "warning_threshold_seconds ct < ct_duration_seconds ct"
    using assms(2) by (simp add: warning_threshold_seconds_def)
  with assms act show ?thesis
    by (auto simp: cycle_deadline_epochs_def apply_cycle_timebox_def Let_def)
qed

definition running_cycle_demo :: PipelineState where
  "running_cycle_demo =
     (from_policy default_policy)\<lparr>ps_phase := ''development_analysis'', ps_cycle_timebox_active := True\<rparr>"

lemma demo_timebox: "pp_cycle_timebox default_policy = Some default_timebox"
  by code_simp

lemma demo_timebox_facts:
  "ps_cycle_timebox_active running_cycle_demo"
  "ct_guarded_entry default_timebox \<notin> {ct_end_entry default_timebox, ct_finalization_target default_timebox}"
  "0 < ct_duration_seconds default_timebox"
  by (simp_all add: running_cycle_demo_def default_timebox_def)

theorem deadline_decision_witness:
  "td_redirected (apply_cycle_timebox running_cycle_demo ''development'' default_policy (Some 7201))
   \<and> cycle_timebox_warning running_cycle_demo ''development'' default_policy (Some 6000) \<noteq> None"
  using deadline_decision [OF demo_timebox demo_timebox_facts, of 7201]
    deadline_decision [OF demo_timebox demo_timebox_facts, of 6000]
  by (auto simp: default_timebox_def warning_threshold_seconds_def)

theorem deadline_epochs_agree_witness:
  "cycle_deadline_epochs running_cycle_demo ''development'' default_policy (Some 100) 1000
     = Some (1000 + 5660, 1000 + 7100, ''development_final_commit_cleanup'')
   \<and> td_redirected (apply_cycle_timebox running_cycle_demo ''development'' default_policy (Some (100 + 7100)))"
proof -
  have eq: "cycle_deadline_epochs running_cycle_demo (ct_guarded_entry default_timebox) default_policy
      (Some 100) 1000 = Some (1000 + 5660, 1000 + 7100, ''development_final_commit_cleanup'')"
    by (simp add: cycle_deadline_epochs_def demo_timebox running_cycle_demo_def)
      (simp add: default_timebox_def warning_threshold_seconds_def)
  from deadline_epochs_agree_with_redirect [OF demo_timebox demo_timebox_facts(3,2) eq, of 7100] eq
  show ?thesis by (simp add: default_timebox_def)
qed

end
