(* ===== verification/Progress.thy ===== *)
theory Progress
  imports Cycle_Timing
begin

text \<open>
  Progress bookkeeping (\<^verbatim>\<open>ralph/pipeline/progress.py\<close>): phase advance, loop-counter charges, commit
  accounting, and the counters reported to the run context. A policy argument that may be absent is
  an option; its absence raises the code's \<^verbatim>\<open>ValueError\<close>.
\<close>

section \<open>Operations\<close>

definition is_review_with_clean_outcome :: "string \<times> PhaseDefinition \<Rightarrow> bool" where
  "is_review_with_clean_outcome nd \<longleftrightarrow>
     pd_role (snd nd) = Some RoleReview \<and> pd_clean_outcome (snd nd) \<noteq> None"

definition review_issues_found :: "PipelineState \<Rightarrow> PipelinePolicy option \<Rightarrow> bool" where
  "review_issues_found s pol =
     (if ps_review_outcome s = None then False
      else case pol of
        None \<Rightarrow> True
      | Some P \<Rightarrow> (case find is_review_with_clean_outcome (pp_phases P) of
          None \<Rightarrow> True
        | Some (name, d) \<Rightarrow> ps_review_outcome s \<noteq> pd_clean_outcome d))"

text \<open>The state update of \<^verbatim>\<open>advance_phase\<close> under a loaded policy.\<close>

definition advanced :: "PipelinePolicy \<Rightarrow> string \<Rightarrow> PipelineState \<Rightarrow> PipelineState" where
  "advanced P t s =
     (let role = (case phase_of P t of None \<Rightarrow> None | Some d \<Rightarrow> pd_role d);
          s' = s\<lparr>ps_phase := t, ps_previous_phase := Some (ps_phase s),
                 ps_last_agent_session_id := None,
                 ps_agent_retry_intent := cleared_agent_retry_intent, ps_recovery_epoch := 0,
                 ps_execution_cycle_charged :=
                   (if role = Some RoleExecution then False else ps_execution_cycle_charged s),
                 ps_current_drain := resolve_phase_drain t P\<rparr>
      in if role = Some RoleCommit then s'\<lparr>ps_commit := fresh_commit\<rparr> else s')"

definition advance_phase :: "PipelineState \<Rightarrow> string \<Rightarrow> PipelinePolicy option \<Rightarrow> PipelineState result" where
  "advance_phase s t pol =
     (case pol of
        None \<Rightarrow> Inl (ValueError (''advance_phase requires PipelinePolicy to advance to '' @ quoted t
          @ ''; pass the active pipeline policy to resolve drain and commit-role semantics''))
      | Some P \<Rightarrow> Inr (advanced P t s))"

definition apply_analysis_success ::
    "PipelineState \<Rightarrow> PipelineState \<Rightarrow> PipelinePolicy option \<Rightarrow> PipelineState" where
  "apply_analysis_success s adv pol =
     (let result = adv\<lparr>ps_review_outcome := None\<rparr> in
      case pol of None \<Rightarrow> result
      | Some P \<Rightarrow> (case phase_of P (ps_phase s) of None \<Rightarrow> result
          | Some d \<Rightarrow> (case pd_loop_policy d of None \<Rightarrow> result
              | Some lp \<Rightarrow> with_loop_iteration (iteration_state_field lp) 0 result)))"

definition apply_analysis_loopback ::
    "PipelineState \<Rightarrow> PipelineState \<Rightarrow> string \<Rightarrow> int \<Rightarrow> string option \<Rightarrow> bool \<Rightarrow> PipelineState" where
  "apply_analysis_loopback s adv f cap outcome increment =
     (let r1 = (if increment
                then with_loop_iteration f (next_completed (loop_counter (get_loop_iteration s f) cap)) adv
                else adv)
      in case outcome of None \<Rightarrow> r1 | Some oc \<Rightarrow> r1\<lparr>ps_review_outcome := Some oc\<rparr>)"

text \<open>The \<^verbatim>\<open>while\<close> loop of \<^verbatim>\<open>resolve_execution_cycle_loop_counter\<close>; \<open>origin\<close> is the execution phase.\<close>

definition closes_loop_of :: "string \<Rightarrow> PhaseDefinition \<Rightarrow> string option" where
  "closes_loop_of origin d =
     (if pd_role d = Some RoleAnalysis \<and> on_loopback (pd_transitions d) = Some origin
      then map_option iteration_state_field (pd_loop_policy d) else None)"

function loop_counter_search :: "PipelinePolicy \<Rightarrow> string \<Rightarrow> string list \<Rightarrow> string \<Rightarrow> string option" where
  "loop_counter_search P origin visited cur =
     (if cur \<in> set visited then None
      else case phase_of P cur of
        None \<Rightarrow> None
      | Some d \<Rightarrow> (case closes_loop_of origin d of
          Some f \<Rightarrow> Some f
        | None \<Rightarrow> loop_counter_search P origin (cur # visited) (on_success (pd_transitions d))))"
  by pat_completeness auto
termination
proof (relation "measure (\<lambda>(P, origin, visited, cur). card (fst ` set (pp_phases P) - set visited))",
    goal_cases)
  case 1
  show ?case by simp
next
  case (2 P origin visited cur d)
  then have "cur \<in> fst ` set (pp_phases P) - set visited"
    using dict_has_keys [of "pp_phases P" cur] by auto
  then have "card (fst ` set (pp_phases P) - set (cur # visited))
      < card (fst ` set (pp_phases P) - set visited)"
    by (intro psubset_card_mono) auto
  then show ?case by simp
qed

declare loop_counter_search.simps [simp del]

definition resolve_execution_cycle_loop_counter :: "string \<Rightarrow> PipelinePolicy \<Rightarrow> string option" where
  "resolve_execution_cycle_loop_counter ph P = loop_counter_search P ph [] ph"

definition charge_counter :: "PipelineState \<Rightarrow> string \<Rightarrow> PipelinePolicy \<Rightarrow> PipelineState \<Rightarrow> PipelineState result" where
  "charge_counter s f P target =
     bind_r (resolve_analysis_cap f P) (\<lambda>cap.
       Inr ((with_loop_iteration f (next_completed (loop_counter (get_loop_iteration s f) cap)) target)
            \<lparr>ps_execution_cycle_charged := True\<rparr>))"

definition apply_execution_cycle_outcome ::
    "PipelineState \<Rightarrow> PipelineState \<Rightarrow> PipelinePolicy \<Rightarrow> PipelineState result" where
  "apply_execution_cycle_outcome s adv P =
     (case resolve_execution_cycle_loop_counter (ps_phase s) P of
        None \<Rightarrow> Inr adv
      | Some f \<Rightarrow> charge_counter s f P adv)"

definition charge_analysis_cycle_for_gate ::
    "PipelineState \<Rightarrow> string \<Rightarrow> PipelinePolicy \<Rightarrow> PipelineState result" where
  "charge_analysis_cycle_for_gate s execution_phase P =
     (case resolve_execution_cycle_loop_counter execution_phase P of
        None \<Rightarrow> Inr s
      | Some f \<Rightarrow> charge_counter s f P s)"

definition cumulative_execution_seconds :: "PipelineState \<Rightarrow> string \<Rightarrow> rat" where
  "cumulative_execution_seconds s ph =
     sum_list (map tr_elapsed (filter (\<lambda>r. tr_phase r = ph)
       (drop (ps_cycle_timing_start_index s) (ps_phase_timings s))))"

definition analysis_loopback_is_already_charged ::
    "string \<Rightarrow> PipelineState \<Rightarrow> PipelinePolicy \<Rightarrow> bool" where
  "analysis_loopback_is_already_charged ph s P =
     (case phase_of P ph of None \<Rightarrow> False
      | Some d \<Rightarrow> if pd_loop_policy d = None \<or> pd_role d \<noteq> Some RoleAnalysis then False
                  else ps_execution_cycle_charged s)"

definition reset_loops :: "string list \<Rightarrow> PipelineState \<Rightarrow> PipelineState" where
  "reset_loops fs s = fold (\<lambda>f. with_loop_iteration f 0) fs s"

definition apply_lifecycle_completion_policy ::
    "PipelineState \<Rightarrow> PipelineState \<Rightarrow> LifecyclePhasePolicy \<Rightarrow> PipelineState" where
  "apply_lifecycle_completion_policy s adv lc =
     (let result = reset_loops (lp_loop_resets lc) adv in
      case lp_increments_counter lc of None \<Rightarrow> result
      | Some c \<Rightarrow>
          if c = ''none'' then result
          else (let r2 = with_outer_progress c (get_outer_progress s c + 1) result
                in r2\<lparr>ps_cycle_timing_start_index := length (ps_phase_timings r2)\<rparr>))"

definition apply_commit_outcome_policy_driven ::
    "PipelineState \<Rightarrow> PipelineState \<Rightarrow> bool \<Rightarrow> PhaseCommitPolicy \<Rightarrow> PipelineState" where
  "apply_commit_outcome_policy_driven s adv skipped cp =
     (let result = reset_loops (cp_loop_resets cp) adv in
      case cp_increments_counter cp of None \<Rightarrow> result
      | Some c \<Rightarrow>
          if \<not> skipped \<or> cp_skipped_advances_progress cp
          then with_outer_progress c (get_outer_progress s c + 1) result
          else result)"

definition apply_commit_outcome ::
    "PipelineState \<Rightarrow> PipelineState \<Rightarrow> bool \<Rightarrow> PipelinePolicy option \<Rightarrow> PipelineState result" where
  "apply_commit_outcome s adv skipped pol =
     (case pol of
        None \<Rightarrow> Inl (ValueError (''apply_commit_outcome requires PipelinePolicy for commit-role phase ''
                  @ str_repr (ps_phase s)))
      | Some P \<Rightarrow> Inr (case dict_get (pp_lifecycle_phases P) (ps_phase s) of
          Some lc \<Rightarrow> apply_lifecycle_completion_policy s adv lc
        | None \<Rightarrow> (case phase_of P (ps_phase s) of
            None \<Rightarrow> adv
          | Some d \<Rightarrow> (case pd_commit_policy d of
              None \<Rightarrow> adv
            | Some cp \<Rightarrow> apply_commit_outcome_policy_driven s adv skipped cp))))"

definition consume_post_commit_phase_override :: "PipelineState \<Rightarrow> PipelineState" where
  "consume_post_commit_phase_override s = s\<lparr>ps_post_commit_phase_override := None\<rparr>"

definition apply_budget_counter_increment ::
    "PipelineState \<Rightarrow> PipelineState \<Rightarrow> string option \<Rightarrow> PipelineState" where
  "apply_budget_counter_increment s adv counter =
     (case counter of None \<Rightarrow> adv
      | Some c \<Rightarrow> if c = ''none'' then adv
                  else with_outer_progress c (get_outer_progress s c + 1) adv)"

section \<open>Counters of the run context\<close>

definition commit_order_counter :: "PipelinePolicy \<Rightarrow> string \<Rightarrow> PhaseDefinition \<Rightarrow> string option" where
  "commit_order_counter P ph d =
     (case dict_get (pp_lifecycle_phases P) ph of
        Some lc \<Rightarrow> lp_increments_counter lc
      | None \<Rightarrow> if pd_role d = Some RoleCommit
                then (case pd_commit_policy d of None \<Rightarrow> None | Some cp \<Rightarrow> cp_increments_counter cp)
                else None)"

definition commit_order_successors :: "PhaseDefinition \<Rightarrow> string list" where
  "commit_order_successors d =
     filter (\<lambda>ph. ph \<noteq> []) (on_success (pd_transitions d) # opt_list (on_failure (pd_transitions d))
       @ opt_list (on_loopback (pd_transitions d)))
     @ map (\<lambda>(dn, r). dr_target r) (pd_decisions d)
     @ map snd (pd_bypass_routes d)"

function commit_order_search :: "PipelinePolicy \<Rightarrow> string list \<Rightarrow> string list \<Rightarrow> string list \<Rightarrow> string list" where
  "commit_order_search P visited result [] = result"
| "commit_order_search P visited result (cur # queue) =
     (if cur \<in> set visited then commit_order_search P visited result queue
      else case phase_of P cur of
        None \<Rightarrow> commit_order_search P visited result queue
      | Some d \<Rightarrow>
          (let visited' = cur # visited;
               result' = (case tracked_counter P (commit_order_counter P cur d) of
                            None \<Rightarrow> result
                          | Some c \<Rightarrow> if c \<in> set result then result else result @ [c])
           in commit_order_search P visited' result'
                (queue @ filter (\<lambda>ph. ph \<notin> set visited') (commit_order_successors d))))"
  by pat_completeness auto
termination
proof (relation "measures [\<lambda>(P, visited, result, queue). card (fst ` set (pp_phases P) - set visited),
                           \<lambda>(P, visited, result, queue). length queue]", goal_cases)
  case 1
  show ?case by simp
next
  case (2 P visited result cur queue)
  then show ?case by simp
next
  case (3 P visited result cur queue)
  then show ?case by simp
next
  case (4 P visited result cur queue d x xa)
  then have "cur \<in> fst ` set (pp_phases P) - set visited"
    using dict_has_keys [of "pp_phases P" cur] by auto
  then have "card (fst ` set (pp_phases P) - set (cur # visited))
      < card (fst ` set (pp_phases P) - set visited)"
    by (intro psubset_card_mono) auto
  with 4 show ?case by simp
qed

declare commit_order_search.simps [simp del]

definition tracked_budget_counters_in_commit_order :: "PipelinePolicy \<Rightarrow> string list" where
  "tracked_budget_counters_in_commit_order P = commit_order_search P [] [] [pp_entry_phase P]"

record RunContext =
  rc_actual_developer_runs :: int
  rc_actual_reviewer_runs :: int

definition derive_run_context_progress ::
    "PipelineState \<Rightarrow> RunContext \<Rightarrow> PipelinePolicy option \<Rightarrow> RunContext" where
  "derive_run_context_progress s rc pol =
     (case pol of
        None \<Rightarrow> rc\<lparr>rc_actual_developer_runs := 0, rc_actual_reviewer_runs := 0\<rparr>
      | Some P \<Rightarrow> (let tracked = tracked_budget_counters_in_commit_order P in
          rc\<lparr>rc_actual_developer_runs :=
               (case tracked of [] \<Rightarrow> 0 | c # _ \<Rightarrow> get_outer_progress s c),
             rc_actual_reviewer_runs :=
               (case tracked of c # c' # _ \<Rightarrow> get_outer_progress s c' | _ \<Rightarrow> 0)\<rparr>))"

section \<open>Phase advance\<close>

lemma advanced_sel [simp]:
  "ps_phase (advanced P t s) = t"
  "ps_previous_phase (advanced P t s) = Some (ps_phase s)"
  "ps_review_outcome (advanced P t s) = ps_review_outcome s"
  "ps_phase_chains (advanced P t s) = ps_phase_chains s"
  "ps_loop_iterations (advanced P t s) = ps_loop_iterations s"
  "ps_budget_caps (advanced P t s) = ps_budget_caps s"
  "ps_outer_progress (advanced P t s) = ps_outer_progress s"
  "ps_recovery_epoch (advanced P t s) = 0"
  "ps_last_error (advanced P t s) = ps_last_error s"
  "ps_current_drain (advanced P t s) = resolve_phase_drain t P"
  "ps_pending_cycle_outcome (advanced P t s) = ps_pending_cycle_outcome s"
  "ps_cycle_timebox_active (advanced P t s) = ps_cycle_timebox_active s"
  "ps_cycle_timebox_redirects (advanced P t s) = ps_cycle_timebox_redirects s"
  "ps_work_units (advanced P t s) = ps_work_units s"
  "ps_worker_states (advanced P t s) = ps_worker_states s"
  "ps_agent_retry_intent (advanced P t s) = cleared_agent_retry_intent"
  "ps_recovery_cycle_count (advanced P t s) = ps_recovery_cycle_count s"
  "ps_interrupted_by_user (advanced P t s) = ps_interrupted_by_user s"
  by (simp_all add: advanced_def Let_def)

lemma get_loop_advanced [simp]: "get_loop_iteration (advanced P t s) f = get_loop_iteration s f"
  by (simp add: get_loop_iteration_def)

lemma get_outer_advanced [simp]: "get_outer_progress (advanced P t s) c = get_outer_progress s c"
  by (simp add: get_outer_progress_def)

section \<open>Loop counters stay within their caps\<close>

definition loops_in_range :: "PipelinePolicy \<Rightarrow> PipelineState \<Rightarrow> bool" where
  "loops_in_range P s \<longleftrightarrow>
     (\<forall>f c. dict_get (pp_loop_counters P) f = Some c \<longrightarrow>
        0 \<le> get_loop_iteration s f \<and> get_loop_iteration s f \<le> lc_default_max c)"

definition caps_nonneg :: "PipelinePolicy \<Rightarrow> bool" where
  "caps_nonneg P \<longleftrightarrow> (\<forall>f c. dict_get (pp_loop_counters P) f = Some c \<longrightarrow> 0 \<le> lc_default_max c)"

lemma well_formed_caps: "well_formed P \<Longrightarrow> caps_nonneg P"
  by (auto simp: well_formed_def validated_def counter_fields_in_range_def caps_nonneg_def
      list_all_iff dest!: dict_get_in)

lemma loops_in_range_cong:
  "(\<And>f. get_loop_iteration s' f = get_loop_iteration s f) \<Longrightarrow> loops_in_range P s' = loops_in_range P s"
  by (simp add: loops_in_range_def)

lemma loops_in_range_reset:
  "caps_nonneg P \<Longrightarrow> loops_in_range P s \<Longrightarrow> loops_in_range P (with_loop_iteration f 0 s)"
  by (auto simp: loops_in_range_def caps_nonneg_def)

lemma loops_in_range_charge:
  "resolve_analysis_cap f P = Inr cap \<Longrightarrow> caps_nonneg P \<Longrightarrow> loops_in_range P s \<Longrightarrow>
   loops_in_range P (with_loop_iteration f (next_completed (loop_counter n cap)) s)"
  using next_completed_bounds [of cap n]
  by (auto simp: loops_in_range_def caps_nonneg_def resolve_analysis_cap_def split: option.splits)

lemma loops_in_range_bypass:
  "caps_nonneg P \<Longrightarrow> loops_in_range P s \<Longrightarrow> bypass_frame s s' \<Longrightarrow> loops_in_range P s'"
  unfolding loops_in_range_def caps_nonneg_def bypass_frame_def by (metis insert_iff singletonD order_refl)

lemma get_loop_reset_loops [simp]:
  "get_loop_iteration (reset_loops fs s) f = (if f \<in> set fs then 0 else get_loop_iteration s f)"
  by (induction fs arbitrary: s) (auto simp: reset_loops_def)

lemma loops_in_range_reset_loops:
  "caps_nonneg P \<Longrightarrow> loops_in_range P s \<Longrightarrow> loops_in_range P (reset_loops fs s)"
  by (auto simp: loops_in_range_def caps_nonneg_def)

section \<open>The execution cycle's loop counter\<close>

definition success_edge :: "PipelinePolicy \<Rightarrow> string \<Rightarrow> string \<Rightarrow> bool" where
  "success_edge P a b \<longleftrightarrow> (\<exists>d. phase_of P a = Some d \<and> b = on_success (pd_transitions d))"

lemma loop_counter_search_sound:
  "loop_counter_search P origin visited cur = Some f \<Longrightarrow>
   \<exists>ph d. (success_edge P)\<^sup>*\<^sup>* cur ph \<and> phase_of P ph = Some d \<and> closes_loop_of origin d = Some f"
proof (induction P origin visited cur rule: loop_counter_search.induct)
  case (1 P origin visited cur)
  from "1.prems" obtain d where nv: "cur \<notin> set visited" and d: "phase_of P cur = Some d"
    by (subst (asm) loop_counter_search.simps) (auto split: if_splits option.splits)
  show ?case
  proof (cases "closes_loop_of origin d")
    case None
    with "1.prems" nv d have
      "loop_counter_search P origin (cur # visited) (on_success (pd_transitions d)) = Some f"
      by (subst (asm) loop_counter_search.simps) simp
    with "1.IH" [OF nv d None] obtain ph e where
      "(success_edge P)\<^sup>*\<^sup>* (on_success (pd_transitions d)) ph"
      "phase_of P ph = Some e" "closes_loop_of origin e = Some f" by blast
    moreover have "success_edge P cur (on_success (pd_transitions d))"
      by (simp add: success_edge_def d)
    ultimately show ?thesis by (blast intro: converse_rtranclp_into_rtranclp)
  next
    case (Some g)
    with "1.prems" nv d have "g = f" by (subst (asm) loop_counter_search.simps) simp
    with Some d show ?thesis by blast
  qed
qed

lemma loop_counter_search_complete:
  "loop_counter_search P origin visited cur = None \<Longrightarrow>
   \<forall>v \<in> set visited. \<forall>d. phase_of P v = Some d \<longrightarrow>
      closes_loop_of origin d = None \<and> on_success (pd_transitions d) \<in> insert cur (set visited) \<Longrightarrow>
   (success_edge P)\<^sup>*\<^sup>* cur ph \<Longrightarrow> phase_of P ph = Some e \<Longrightarrow> closes_loop_of origin e = None"
proof (induction P origin visited cur rule: loop_counter_search.induct)
  case (1 P origin visited cur)
  show ?case
  proof (cases "cur \<in> set visited")
    case True
    from "1.prems"(3) have "ph \<in> set visited"
      by (induction rule: rtranclp_induct) (use True "1.prems"(2) in \<open>auto simp: success_edge_def\<close>)
    with "1.prems"(2,4) show ?thesis by blast
  next
    case nv: False
    show ?thesis
    proof (cases "phase_of P cur")
      case None
      with "1.prems"(3) have "ph = cur" by (auto elim: converse_rtranclpE simp: success_edge_def)
      with None "1.prems"(4) show ?thesis by simp
    next
      case (Some d)
      with "1.prems"(1) nv have step: "(case closes_loop_of origin d of Some f \<Rightarrow> Some f
          | None \<Rightarrow> loop_counter_search P origin (cur # visited) (on_success (pd_transitions d))) = None"
        by (subst (asm) loop_counter_search.simps) simp
      then have here: "closes_loop_of origin d = None" by (cases "closes_loop_of origin d") simp_all
      with step have rec:
        "loop_counter_search P origin (cur # visited) (on_success (pd_transitions d)) = None" by simp
      show ?thesis
      proof (cases "ph = cur")
        case True
        with Some here "1.prems"(4) show ?thesis by simp
      next
        case False
        with "1.prems"(3) obtain z where z: "success_edge P cur z" "(success_edge P)\<^sup>*\<^sup>* z ph"
          by (blast elim: converse_rtranclpE)
        from z(1) Some have "z = on_success (pd_transitions d)" by (simp add: success_edge_def)
        with z(2) have "(success_edge P)\<^sup>*\<^sup>* (on_success (pd_transitions d)) ph" by simp
        moreover have "\<forall>v \<in> set (cur # visited). \<forall>d'. phase_of P v = Some d' \<longrightarrow>
            closes_loop_of origin d' = None \<and>
            on_success (pd_transitions d') \<in> insert (on_success (pd_transitions d)) (set (cur # visited))"
          using "1.prems"(2) Some here by auto
        ultimately show ?thesis using "1.IH" [OF nv Some here rec] "1.prems"(4) by blast
      qed
    qed
  qed
qed

text \<open>
  The counter an execution phase is charged on: the transition walk finds a counter exactly when
  following success transitions from the phase reaches an analysis phase that loops back to it, and
  it then returns the counter of such a phase.
\<close>

theorem execution_cycle_counter_correct:
  "(resolve_execution_cycle_loop_counter ph P = None \<longleftrightarrow>
      (\<forall>q d. (success_edge P)\<^sup>*\<^sup>* ph q \<longrightarrow> phase_of P q = Some d \<longrightarrow> closes_loop_of ph d = None))
   \<and> (\<forall>f. resolve_execution_cycle_loop_counter ph P = Some f \<longrightarrow>
        (\<exists>q d. (success_edge P)\<^sup>*\<^sup>* ph q \<and> phase_of P q = Some d \<and> closes_loop_of ph d = Some f))"
proof -
  have sound: "\<exists>q d. (success_edge P)\<^sup>*\<^sup>* ph q \<and> phase_of P q = Some d \<and> closes_loop_of ph d = Some f"
    if "resolve_execution_cycle_loop_counter ph P = Some f" for f
    by (rule loop_counter_search_sound [OF that [unfolded resolve_execution_cycle_loop_counter_def]])
  have complete: "closes_loop_of ph d = None" if "resolve_execution_cycle_loop_counter ph P = None"
    "(success_edge P)\<^sup>*\<^sup>* ph q" "phase_of P q = Some d" for q d
    by (rule loop_counter_search_complete
        [OF that(1) [unfolded resolve_execution_cycle_loop_counter_def] _ that(2,3)]) simp
  show ?thesis
  proof (cases "resolve_execution_cycle_loop_counter ph P")
    case None
    with complete show ?thesis by auto
  next
    case (Some f)
    from sound [OF Some] Some show ?thesis by auto
  qed
qed

theorem execution_cycle_counter_witness:
  "resolve_execution_cycle_loop_counter ''development'' default_policy
     = Some ''development_analysis_iteration''
   \<and> (\<exists>q d. (success_edge default_policy)\<^sup>*\<^sup>* ''development'' q \<and> phase_of default_policy q = Some d
        \<and> closes_loop_of ''development'' d = Some ''development_analysis_iteration'')"
proof -
  have eq: "resolve_execution_cycle_loop_counter ''development'' default_policy
      = Some ''development_analysis_iteration''" by code_simp
  then show ?thesis using execution_cycle_counter_correct [of "''development''" default_policy] by blast
qed

lemma charge_counter_returns:
  assumes "well_formed P" and "resolve_execution_cycle_loop_counter ph P = Some f"
  obtains c where "dict_get (pp_loop_counters P) f = Some c"
    and "resolve_analysis_cap f P = Inr (lc_default_max c)"
proof -
  from loop_counter_search_sound [OF assms(2) [unfolded resolve_execution_cycle_loop_counter_def]]
  obtain q d where d: "phase_of P q = Some d" and f: "closes_loop_of ph d = Some f" by blast
  from f obtain lp where lp: "pd_loop_policy d = Some lp" and fld: "f = iteration_state_field lp"
    by (auto simp: closes_loop_of_def split: if_splits)
  from assms(1) d lp obtain c where "dict_get (pp_loop_counters P) f = Some c"
    unfolding fld by (rule well_formed_loop_counter)
  then show ?thesis by (rule that) (simp add: resolve_analysis_cap_def \<open>dict_get (pp_loop_counters P) f = Some c\<close>)
qed

text \<open>What charging a cycle may change: one loop counter and the charged flag.\<close>

definition charge_frame :: "PipelineState \<Rightarrow> PipelineState \<Rightarrow> bool" where
  "charge_frame s s' \<longleftrightarrow>
     s' = s\<lparr>ps_loop_iterations := ps_loop_iterations s',
            ps_execution_cycle_charged := ps_execution_cycle_charged s'\<rparr>"

lemma apply_execution_cycle_outcome_spec:
  assumes "well_formed P"
  obtains s' where "apply_execution_cycle_outcome s adv P = Inr s'" and "charge_frame adv s'"
    and "loops_in_range P adv \<Longrightarrow> loops_in_range P s'"
proof (cases "resolve_execution_cycle_loop_counter (ps_phase s) P")
  case None
  then show ?thesis by (intro that [of adv]) (simp_all add: apply_execution_cycle_outcome_def charge_frame_def)
next
  case (Some f)
  from assms Some obtain c :: LoopCounterConfig
    where cap: "resolve_analysis_cap f P = Inr (lc_default_max c)"
    by (rule charge_counter_returns) (erule that)
  let ?w = "with_loop_iteration f (next_completed (loop_counter (get_loop_iteration s f) (lc_default_max c))) adv"
  show ?thesis
  proof (rule that)
    show "apply_execution_cycle_outcome s adv P = Inr (?w\<lparr>ps_execution_cycle_charged := True\<rparr>)"
      by (simp add: apply_execution_cycle_outcome_def Some charge_counter_def cap)
    show "charge_frame adv (?w\<lparr>ps_execution_cycle_charged := True\<rparr>)"
      by (simp add: charge_frame_def with_loop_iteration_def)
    assume "loops_in_range P adv"
    from loops_in_range_charge [OF cap well_formed_caps [OF assms] this]
    show "loops_in_range P (?w\<lparr>ps_execution_cycle_charged := True\<rparr>)"
      by (simp add: loops_in_range_def get_loop_iteration_def)
  qed
qed

lemma charge_gate_spec:
  assumes "well_formed P"
  obtains s' where "charge_analysis_cycle_for_gate s ph P = Inr s'" and "charge_frame s s'"
    and "loops_in_range P s \<Longrightarrow> loops_in_range P s'"
proof -
  have "charge_analysis_cycle_for_gate s ph P = apply_execution_cycle_outcome (s\<lparr>ps_phase := ph\<rparr>) s P"
    by (simp add: charge_analysis_cycle_for_gate_def apply_execution_cycle_outcome_def charge_counter_def
        get_loop_iteration_def split: option.split)
  then show ?thesis using apply_execution_cycle_outcome_spec [OF assms, of "s\<lparr>ps_phase := ph\<rparr>" s] that by metis
qed

section \<open>Counters in commit order\<close>

definition commit_edge :: "PipelinePolicy \<Rightarrow> string \<Rightarrow> string \<Rightarrow> bool" where
  "commit_edge P a b \<longleftrightarrow> (\<exists>d. phase_of P a = Some d \<and> b \<in> set (commit_order_successors d))"

definition phase_counter :: "PipelinePolicy \<Rightarrow> string \<Rightarrow> string option" where
  "phase_counter P ph =
     (case phase_of P ph of None \<Rightarrow> None | Some d \<Rightarrow> tracked_counter P (commit_order_counter P ph d))"

lemma undeclared_dead_end:
  "phase_of P ph = None \<Longrightarrow> \<not> commit_edge P ph b \<and> phase_counter P ph = None"
  by (simp add: commit_edge_def phase_counter_def)

text \<open>The breadth-first invariant, over declared phases.\<close>

definition bfs_inv :: "PipelinePolicy \<Rightarrow> string \<Rightarrow> string list \<Rightarrow> string list \<Rightarrow> string list \<Rightarrow> bool" where
  "bfs_inv P e visited result queue \<longleftrightarrow>
     (\<forall>v \<in> set visited. \<forall>b. commit_edge P v b \<and> dict_has (pp_phases P) b \<longrightarrow> b \<in> set visited \<union> set queue)
     \<and> (\<forall>v \<in> set visited \<union> set queue. (commit_edge P)\<^sup>*\<^sup>* e v)
     \<and> (dict_has (pp_phases P) e \<longrightarrow> e \<in> set visited \<union> set queue)
     \<and> set result = {c. \<exists>v \<in> set visited. phase_counter P v = Some c} \<and> distinct result"

lemma bfs_inv_drop:
  "bfs_inv P e visited result (cur # queue) \<Longrightarrow> cur \<in> set visited \<or> phase_of P cur = None \<Longrightarrow>
   bfs_inv P e visited result queue"
proof -
  assume inv: "bfs_inv P e visited result (cur # queue)" and cur: "cur \<in> set visited \<or> phase_of P cur = None"
  have "b \<in> set visited \<union> set queue" if "b \<in> set visited \<union> set (cur # queue)" "dict_has (pp_phases P) b" for b
    using that cur by auto
  with inv show ?thesis by (simp add: bfs_inv_def) blast
qed

lemma bfs_inv_visit:
  assumes inv: "bfs_inv P e visited result (cur # queue)" and d: "phase_of P cur = Some d"
  shows "bfs_inv P e (cur # visited)
    (case tracked_counter P (commit_order_counter P cur d) of None \<Rightarrow> result
     | Some c \<Rightarrow> if c \<in> set result then result else result @ [c])
    (queue @ filter (\<lambda>ph. ph \<notin> set (cur # visited)) (commit_order_successors d))"
proof -
  have counter: "phase_counter P cur = tracked_counter P (commit_order_counter P cur d)"
    by (simp add: phase_counter_def d)
  have edges: "commit_edge P cur b \<longleftrightarrow> b \<in> set (commit_order_successors d)" for b
    by (simp add: commit_edge_def d)
  have start: "(commit_edge P)\<^sup>*\<^sup>* e cur" using inv by (simp add: bfs_inv_def)
  have "(commit_edge P)\<^sup>*\<^sup>* e b" if "b \<in> set (commit_order_successors d)" for b
    using start that by (auto intro: rtranclp.rtrancl_into_rtrancl simp: edges)
  with inv show ?thesis
    unfolding bfs_inv_def
    by (auto simp: counter [symmetric] edges split: option.splits)
qed

lemma bfs_inv_done:
  assumes "bfs_inv P e visited result []"
  shows "distinct result \<and> set result = {c. \<exists>v. (commit_edge P)\<^sup>*\<^sup>* e v \<and> phase_counter P v = Some c}"
proof -
  have visited: "dict_has (pp_phases P) v \<longrightarrow> v \<in> set visited" if "(commit_edge P)\<^sup>*\<^sup>* e v" for v
    using that
  proof (induction rule: rtranclp_induct)
    case base
    with assms show ?case by (simp add: bfs_inv_def)
  next
    case (step y z)
    then have "dict_has (pp_phases P) y" by (auto simp: commit_edge_def)
    with step assms show ?case by (auto simp: bfs_inv_def)
  qed
  have "(\<exists>v \<in> set visited. phase_counter P v = Some c)
      \<longleftrightarrow> (\<exists>v. (commit_edge P)\<^sup>*\<^sup>* e v \<and> phase_counter P v = Some c)" for c
  proof
    assume "\<exists>v. (commit_edge P)\<^sup>*\<^sup>* e v \<and> phase_counter P v = Some c"
    then obtain v where v: "(commit_edge P)\<^sup>*\<^sup>* e v" "phase_counter P v = Some c" by blast
    then have "dict_has (pp_phases P) v" using undeclared_dead_end [of P v] by auto
    with visited [OF v(1)] v(2) show "\<exists>v \<in> set visited. phase_counter P v = Some c" by blast
  qed (use assms in \<open>auto simp: bfs_inv_def\<close>)
  with assms show ?thesis by (simp add: bfs_inv_def)
qed

lemma commit_order_search_spec:
  "bfs_inv P e visited result queue \<Longrightarrow>
   distinct (commit_order_search P visited result queue)
   \<and> set (commit_order_search P visited result queue)
       = {c. \<exists>v. (commit_edge P)\<^sup>*\<^sup>* e v \<and> phase_counter P v = Some c}"
proof (induction P visited result queue rule: commit_order_search.induct)
  case (1 P visited result)
  then show ?case by (simp add: commit_order_search.simps bfs_inv_done)
next
  case (2 P visited result cur queue)
  show ?case
  proof (cases "cur \<in> set visited \<or> phase_of P cur = None")
    case True
    with "2.IH"(1,2) bfs_inv_drop [OF "2.prems" True] show ?thesis
      by (auto simp: commit_order_search.simps)
  next
    case False
    then obtain d where d: "phase_of P cur = Some d" and nv: "cur \<notin> set visited" by auto
    from "2.IH"(3) [OF nv d refl refl bfs_inv_visit [OF "2.prems" d]] show ?thesis
      by (simp add: commit_order_search.simps d nv Let_def)
  qed
qed

text \<open>
  The counters mirrored into the run context: the breadth-first walk lists every tracked budget
  counter that a phase reachable from the entry phase increments on completion, each exactly once,
  and nothing else.
\<close>

theorem tracked_counters_are_reachable_counters:
  "distinct (tracked_budget_counters_in_commit_order P)
   \<and> set (tracked_budget_counters_in_commit_order P)
       = {c. \<exists>ph. (commit_edge P)\<^sup>*\<^sup>* (pp_entry_phase P) ph \<and> phase_counter P ph = Some c}"
  unfolding tracked_budget_counters_in_commit_order_def
  by (rule commit_order_search_spec) (simp add: bfs_inv_def)

section \<open>Commit accounting\<close>

text \<open>What commit accounting may change.\<close>

definition commit_frame :: "PipelineState \<Rightarrow> PipelineState \<Rightarrow> bool" where
  "commit_frame s s' \<longleftrightarrow>
     s' = s\<lparr>ps_loop_iterations := ps_loop_iterations s', ps_outer_progress := ps_outer_progress s',
            ps_cycle_timing_start_index := ps_cycle_timing_start_index s'\<rparr>"

lemma reset_loops_eq:
  "reset_loops fs s = s\<lparr>ps_loop_iterations := fold (\<lambda>f. dict_set f 0) fs (ps_loop_iterations s)\<rparr>"
  by (induction fs arbitrary: s) (simp_all add: reset_loops_def with_loop_iteration_def)

lemma apply_commit_outcome_frame:
  "apply_commit_outcome s adv skipped (Some P) = Inr s' \<Longrightarrow> commit_frame adv s'"
  by (auto simp: apply_commit_outcome_def apply_lifecycle_completion_policy_def Let_def
      apply_commit_outcome_policy_driven_def with_outer_progress_def reset_loops_eq commit_frame_def
      split: option.splits if_splits)

definition commit_counter :: "PipelinePolicy \<Rightarrow> string \<Rightarrow> bool \<Rightarrow> string option" where
  "commit_counter P ph skipped =
     (case dict_get (pp_lifecycle_phases P) ph of
        Some lc \<Rightarrow> if lp_increments_counter lc = Some ''none'' then None else lp_increments_counter lc
      | None \<Rightarrow> (case phase_of P ph of None \<Rightarrow> None
          | Some d \<Rightarrow> (case pd_commit_policy d of None \<Rightarrow> None
              | Some cp \<Rightarrow> if skipped \<and> \<not> cp_skipped_advances_progress cp then None
                          else cp_increments_counter cp)))"

definition commit_loop_resets :: "PipelinePolicy \<Rightarrow> string \<Rightarrow> string list" where
  "commit_loop_resets P ph =
     (case dict_get (pp_lifecycle_phases P) ph of
        Some lc \<Rightarrow> lp_loop_resets lc
      | None \<Rightarrow> (case phase_of P ph of None \<Rightarrow> []
          | Some d \<Rightarrow> (case pd_commit_policy d of None \<Rightarrow> [] | Some cp \<Rightarrow> cp_loop_resets cp)))"

lemma commit_accounting_spec:
  "\<exists>s'. apply_commit_outcome s s skipped (Some P) = Inr s'
     \<and> (\<forall>f. get_loop_iteration s' f =
            (if f \<in> set (commit_loop_resets P (ps_phase s)) then 0 else get_loop_iteration s f))
     \<and> (\<forall>c. get_outer_progress s' c =
            get_outer_progress s c + (if commit_counter P (ps_phase s) skipped = Some c then 1 else 0))
     \<and> commit_frame s s'"
proof -
  obtain s' where s': "apply_commit_outcome s s skipped (Some P) = Inr s'"
    by (simp add: apply_commit_outcome_def)
  have outer: "get_outer_progress (reset_loops fs s) c = get_outer_progress s c" for fs c
    by (simp add: reset_loops_eq get_outer_progress_def)
  have loops: "get_loop_iteration (with_outer_progress c v t) f = get_loop_iteration t f"
    "get_loop_iteration (t\<lparr>ps_cycle_timing_start_index := n\<rparr>) f = get_loop_iteration t f"
    "get_outer_progress (t\<lparr>ps_cycle_timing_start_index := n\<rparr>) c = get_outer_progress t c" for c v t f n
    by (simp_all add: with_outer_progress_def get_loop_iteration_def get_outer_progress_def)
  have "get_loop_iteration s' f =
      (if f \<in> set (commit_loop_resets P (ps_phase s)) then 0 else get_loop_iteration s f)" for f
    using s' by (auto simp: apply_commit_outcome_def apply_lifecycle_completion_policy_def Let_def
        apply_commit_outcome_policy_driven_def commit_loop_resets_def loops
        split: option.splits if_splits)
  moreover have "get_outer_progress s' c =
      get_outer_progress s c + (if commit_counter P (ps_phase s) skipped = Some c then 1 else 0)" for c
    using s' by (auto simp: apply_commit_outcome_def apply_lifecycle_completion_policy_def Let_def
        apply_commit_outcome_policy_driven_def commit_counter_def outer loops
        split: option.splits if_splits)
  ultimately show ?thesis using s' apply_commit_outcome_frame [OF s'] by blast
qed

text \<open>
  Commit accounting. Whatever the commit outcome, the declared loop counters restart at zero and the
  others are untouched; the one budget counter the phase is declared to increment goes up by exactly
  one when the commit happened, when a skip is declared to count, or when the phase completes a
  lifecycle, and stays put otherwise; every other budget counter is unchanged.
\<close>

theorem commit_accounting:
  "\<exists>s'. apply_commit_outcome s s skipped (Some P) = Inr s'
     \<and> (\<forall>f. get_loop_iteration s' f =
            (if f \<in> set (commit_loop_resets P (ps_phase s)) then 0 else get_loop_iteration s f))
     \<and> (\<forall>c. get_outer_progress s' c =
            get_outer_progress s c + (if commit_counter P (ps_phase s) skipped = Some c then 1 else 0))
     \<and> commit_frame s s'"
  by (rule commit_accounting_spec)

end
