(* ===== verification/Agent_Availability.thy ===== *)
theory Agent_Availability
  imports Ralph_Prelude
begin

text \<open>
  Agent cooldowns and priority selection: \<^verbatim>\<open>ralph/recovery/unavailability_reason.py\<close>,
  \<^verbatim>\<open>agent_unavailability_tracker.py\<close> and \<^verbatim>\<open>agent_selection.py\<close>. A clock read is an argument in
  milliseconds. The locale \<open>unavailability_store\<close> states what the \<^verbatim>\<open>UnavailabilityStore\<close> protocol promises
  its clients; the in-memory tracker is interpreted as one.
\<close>

section \<open>Reasons and back-off policy\<close>

datatype UnavailabilityReason =
    OUT_OF_CREDITS | BROKEN_AGENT | NO_OUTPUT_AT_START | NO_OUTPUT_AFTER_ACTIVITY
  | SUSPICIOUS_TIMEOUT_NO_OUTPUT | STALE_CHILD_QUIET | STRICTLY_STUCK

definition reason_value :: "UnavailabilityReason \<Rightarrow> string" where
  "reason_value r = (case r of
     OUT_OF_CREDITS \<Rightarrow> ''out_of_credits''
   | BROKEN_AGENT \<Rightarrow> ''broken_agent''
   | NO_OUTPUT_AT_START \<Rightarrow> ''no_output_at_start''
   | NO_OUTPUT_AFTER_ACTIVITY \<Rightarrow> ''no_output_after_activity''
   | SUSPICIOUS_TIMEOUT_NO_OUTPUT \<Rightarrow> ''suspicious_timeout_no_output''
   | STALE_CHILD_QUIET \<Rightarrow> ''stale_child_quiet''
   | STRICTLY_STUCK \<Rightarrow> ''strictly_stuck'')"

record ReasonBackoffPolicy =
  base_backoff_ms :: int
  max_backoff_ms :: int

definition backoff_policy_valid :: "ReasonBackoffPolicy \<Rightarrow> bool" where
  "backoff_policy_valid p \<longleftrightarrow> 0 < base_backoff_ms p \<and> base_backoff_ms p < max_backoff_ms p"

definition DEFAULT_UNAVAILABILITY_BACKOFF_POLICY :: "(UnavailabilityReason, ReasonBackoffPolicy) dict" where
  "DEFAULT_UNAVAILABILITY_BACKOFF_POLICY =
     [(OUT_OF_CREDITS, \<lparr>base_backoff_ms = 60000, max_backoff_ms = 1800000\<rparr>),
      (BROKEN_AGENT, \<lparr>base_backoff_ms = 5000, max_backoff_ms = 60000\<rparr>),
      (NO_OUTPUT_AT_START, \<lparr>base_backoff_ms = 5000, max_backoff_ms = 30000\<rparr>),
      (NO_OUTPUT_AFTER_ACTIVITY, \<lparr>base_backoff_ms = 10000, max_backoff_ms = 120000\<rparr>),
      (SUSPICIOUS_TIMEOUT_NO_OUTPUT, \<lparr>base_backoff_ms = 10000, max_backoff_ms = 60000\<rparr>),
      (STALE_CHILD_QUIET, \<lparr>base_backoff_ms = 15000, max_backoff_ms = 300000\<rparr>),
      (STRICTLY_STUCK, \<lparr>base_backoff_ms = 15000, max_backoff_ms = 300000\<rparr>)]"

definition legacy_backoff :: ReasonBackoffPolicy where
  "legacy_backoff = \<lparr>base_backoff_ms = 5000, max_backoff_ms = 300000\<rparr>"

section \<open>The in-memory tracker\<close>

record UnavailabilityEntry =
  ue_unavailable_until_ms :: int
  ue_reason :: "UnavailabilityReason option"
  ue_attempt :: nat
  ue_base_backoff_ms :: int
  ue_max_backoff_ms :: int

record AgentUnavailabilityTracker =
  ut_backoff_policy :: "(UnavailabilityReason, ReasonBackoffPolicy) dict"
  ut_entries :: "(string, UnavailabilityEntry) dict"
  ut_backoff_attempts :: "(string, nat) dict"

definition agent_key :: "string \<Rightarrow> string \<Rightarrow> string" where
  "agent_key phase agent = phase @ '':'' @ agent"

definition new_tracker ::
    "(UnavailabilityReason, ReasonBackoffPolicy) dict option \<Rightarrow> (string, UnavailabilityEntry) dict
     \<Rightarrow> (string, int) dict \<Rightarrow> AgentUnavailabilityTracker" where
  "new_tracker policy initial_entries initial_timeouts =
     \<lparr>ut_backoff_policy =
        (case policy of None \<Rightarrow> DEFAULT_UNAVAILABILITY_BACKOFF_POLICY | Some p \<Rightarrow> p),
      ut_entries = fold (\<lambda>(key, timeout). dict_set key
          \<lparr>ue_unavailable_until_ms = timeout, ue_reason = None, ue_attempt = 0,
           ue_base_backoff_ms = base_backoff_ms legacy_backoff,
           ue_max_backoff_ms = max_backoff_ms legacy_backoff\<rparr>) initial_timeouts initial_entries,
      ut_backoff_attempts = []\<rparr>"

definition prune_expired :: "int \<Rightarrow> AgentUnavailabilityTracker \<Rightarrow> AgentUnavailabilityTracker \<times> nat" where
  "prune_expired now t =
     (let expired = filter (\<lambda>(key, e). ue_unavailable_until_ms e \<le> now) (ut_entries t)
      in (t\<lparr>ut_entries := fold (\<lambda>(key, e). dict_pop key) expired (ut_entries t)\<rparr>, length expired))"

definition backoff_policy_for ::
    "AgentUnavailabilityTracker \<Rightarrow> UnavailabilityReason option \<Rightarrow> ReasonBackoffPolicy" where
  "backoff_policy_for t reason =
     (case reason of None \<Rightarrow> legacy_backoff
      | Some r \<Rightarrow> dict_get_or (ut_backoff_policy t) r legacy_backoff)"

definition mark_unavailable ::
    "string \<Rightarrow> string \<Rightarrow> UnavailabilityReason option \<Rightarrow> int \<Rightarrow> AgentUnavailabilityTracker
     \<Rightarrow> AgentUnavailabilityTracker \<times> UnavailabilityEntry" where
  "mark_unavailable phase agent reason now t0 =
     (let key = agent_key phase agent;
          t = fst (prune_expired now t0);
          attempt = dict_get_or (ut_backoff_attempts t) key 0;
          p = backoff_policy_for t reason;
          backoff = min (base_backoff_ms p * 2 ^ attempt) (max_backoff_ms p);
          entry = \<lparr>ue_unavailable_until_ms = now + backoff, ue_reason = reason, ue_attempt = attempt,
                   ue_base_backoff_ms = base_backoff_ms p, ue_max_backoff_ms = max_backoff_ms p\<rparr>
      in (t\<lparr>ut_entries := dict_set key entry (ut_entries t),
            ut_backoff_attempts := dict_set key (attempt + 1) (ut_backoff_attempts t)\<rparr>, entry))"

definition is_available :: "string \<Rightarrow> string \<Rightarrow> int \<Rightarrow> AgentUnavailabilityTracker \<Rightarrow> bool" where
  "is_available phase agent now t =
     (case dict_get (ut_entries t) (agent_key phase agent) of
        None \<Rightarrow> True | Some e \<Rightarrow> ue_unavailable_until_ms e \<le> now)"

fun earliest_wait_loop ::
    "AgentUnavailabilityTracker \<Rightarrow> string \<Rightarrow> int \<Rightarrow> string list \<Rightarrow> int option \<Rightarrow> int" where
  "earliest_wait_loop t phase now [] best = max 0 (case best of None \<Rightarrow> 0 | Some m \<Rightarrow> m)"
| "earliest_wait_loop t phase now (a # as) best =
     (case dict_get (ut_entries t) (agent_key phase a) of
        None \<Rightarrow> 0
      | Some e \<Rightarrow>
          if now < ue_unavailable_until_ms e then
            (let remaining = ue_unavailable_until_ms e - now in
             earliest_wait_loop t phase now as
               (case best of None \<Rightarrow> Some remaining
                | Some m \<Rightarrow> if remaining < m then Some remaining else Some m))
          else earliest_wait_loop t phase now as best)"

definition earliest_unavailable_wait_ms ::
    "string \<Rightarrow> string list \<Rightarrow> int \<Rightarrow> AgentUnavailabilityTracker \<Rightarrow> int" where
  "earliest_unavailable_wait_ms phase agents now t = earliest_wait_loop t phase now agents None"

definition tracker_reset_backoff :: "string \<Rightarrow> string \<Rightarrow> AgentUnavailabilityTracker \<Rightarrow> AgentUnavailabilityTracker" where
  "tracker_reset_backoff phase agent t =
     t\<lparr>ut_entries := dict_pop (agent_key phase agent) (ut_entries t),
       ut_backoff_attempts := dict_pop (agent_key phase agent) (ut_backoff_attempts t)\<rparr>"

definition snapshot_timeouts :: "AgentUnavailabilityTracker \<Rightarrow> (string, int) dict" where
  "snapshot_timeouts t = map (\<lambda>(key, e). (key, ue_unavailable_until_ms e)) (ut_entries t)"

section \<open>Priority selection\<close>

type_synonym AgentAvailability = "string \<times> bool \<times> int \<times> bool"

record AgentSelection =
  sel_index :: "nat option"
  sel_agent :: "string option"
  sel_skipped_reasons :: "(string \<times> string) list"

definition selectable :: "AgentAvailability \<Rightarrow> bool" where
  "selectable row = (case row of (agent, available, cooldown, spent) \<Rightarrow> available \<and> cooldown \<le> 0 \<and> \<not> spent)"

fun first_index :: "('a \<Rightarrow> bool) \<Rightarrow> nat \<Rightarrow> 'a list \<Rightarrow> nat option" where
  "first_index p i [] = None"
| "first_index p i (x # xs) = (if p x then Some i else first_index p (i + 1) xs)"

definition skip_reason :: "AgentAvailability \<Rightarrow> string" where
  "skip_reason row =
     (case row of (agent, available, cooldown, spent) \<Rightarrow>
        if 0 < cooldown then ''cooldown ('' @ int_str cooldown @ ''ms remaining)''
        else if \<not> available then ''unavailable''
        else if spent then ''spent''
        else ''lower_priority'')"

definition select_preferred_agent :: "AgentAvailability list \<Rightarrow> AgentSelection" where
  "select_preferred_agent rows =
     (let selected = first_index selectable 0 rows in
      \<lparr>sel_index = selected,
       sel_agent = (case selected of None \<Rightarrow> None | Some i \<Rightarrow> Some (fst (rows ! i))),
       sel_skipped_reasons =
         map (\<lambda>(i, row). (fst row, skip_reason row))
           (filter (\<lambda>(i, row). Some i \<noteq> selected) (zip [0..<length rows] rows))\<rparr>)"

definition format_selection_evidence :: "string \<Rightarrow> AgentSelection \<Rightarrow> string" where
  "format_selection_evidence phase sel =
     (let skipped = str_join ''; '' (map (\<lambda>(a, r). a @ '': '' @ r) (sel_skipped_reasons sel));
          tail = (if skipped = [] then [] else '' (skipped '' @ skipped @ '')'')
      in case sel_agent sel of
           None \<Rightarrow> ''Phase '' @ phase @ '': No selectable agent'' @ tail
         | Some a \<Rightarrow> ''Phase '' @ phase @ '': Selected agent '' @ a @ tail)"

section \<open>Correctness of selection\<close>

lemma first_index_Some:
  "first_index p i xs = Some k \<longleftrightarrow>
     (\<exists>j. k = i + j \<and> j < length xs \<and> p (xs ! j) \<and> (\<forall>m < j. \<not> p (xs ! m)))"
proof (induction xs arbitrary: i)
  case Nil
  then show ?case by simp
next
  case (Cons x xs)
  show ?case
  proof (cases "p x")
    case True
    have "j = 0" if "\<forall>m < j. \<not> p ((x # xs) ! m)" for j using that True by (cases j) auto
    with True show ?thesis by auto
  next
    case False
    have "(\<exists>j. k = i + j \<and> j < length (x # xs) \<and> p ((x # xs) ! j) \<and> (\<forall>m < j. \<not> p ((x # xs) ! m)))
       \<longleftrightarrow> (\<exists>j. k = i + 1 + j \<and> j < length xs \<and> p (xs ! j) \<and> (\<forall>m < j. \<not> p (xs ! m)))"
      (is "?L \<longleftrightarrow> ?R")
    proof
      assume ?L
      then obtain j where j: "k = i + j" "j < length (x # xs)" "p ((x # xs) ! j)"
        "\<forall>m < j. \<not> p ((x # xs) ! m)" by blast
      with False obtain j' where "j = Suc j'" by (cases j) auto
      with j show ?R by (intro exI [of _ j']) auto
    next
      assume ?R
      then obtain j where j: "k = i + 1 + j" "j < length xs" "p (xs ! j)" "\<forall>m < j. \<not> p (xs ! m)" by blast
      have "\<not> p ((x # xs) ! m)" if "m < Suc j" for m using that j False by (cases m) auto
      with j show ?L by (intro exI [of _ "Suc j"]) auto
    qed
    with False Cons.IH [of "i + 1"] show ?thesis by simp
  qed
qed

lemma first_index_None: "first_index p i xs = None \<longleftrightarrow> (\<forall>x \<in> set xs. \<not> p x)"
  by (induction xs arbitrary: i) auto

lemma select_index_None:
  "sel_index (select_preferred_agent rows) = None \<longleftrightarrow> (\<forall>row \<in> set rows. \<not> selectable row)"
  by (simp add: select_preferred_agent_def Let_def first_index_None)

lemma select_index_Some:
  "sel_index (select_preferred_agent rows) = Some i \<longleftrightarrow>
     i < length rows \<and> selectable (rows ! i) \<and> (\<forall>j < i. \<not> selectable (rows ! j))"
  by (auto simp: select_preferred_agent_def Let_def first_index_Some)

lemma map_skip_agents:
  "map fst (map (\<lambda>(i, row). (fst row, g row)) xs) = map fst (map snd xs)"
  by (induction xs) auto

text \<open>
  Priority selection picks the lowest-index agent that is available, off cooldown and not spent, and
  no agent exactly when there is none; every other agent is listed, in chain order, with a reason,
  and the label \<^verbatim>\<open>lower_priority\<close> is given only to agents behind a selected one.
\<close>

theorem select_preferred_agent_correct:
  fixes rows :: "AgentAvailability list"
  defines "sel \<equiv> select_preferred_agent rows"
  shows "(sel_index sel = None \<longleftrightarrow> (\<forall>row \<in> set rows. \<not> selectable row))
     \<and> (\<forall>i. sel_index sel = Some i \<longleftrightarrow>
          i < length rows \<and> selectable (rows ! i) \<and> (\<forall>j < i. \<not> selectable (rows ! j)))
     \<and> (\<forall>i. sel_index sel = Some i \<longrightarrow> sel_agent sel = Some (fst (rows ! i)))
     \<and> map fst (sel_skipped_reasons sel)
         = (case sel_index sel of None \<Rightarrow> map fst rows
            | Some i \<Rightarrow> map fst (take i rows) @ map fst (drop (Suc i) rows))
     \<and> (\<forall>i j. sel_index sel = Some i \<and> j < i \<longrightarrow> skip_reason (rows ! j) \<noteq> ''lower_priority'')"
proof -
  have others: "map fst (sel_skipped_reasons sel)
      = (case sel_index sel of None \<Rightarrow> map fst rows
         | Some i \<Rightarrow> map fst (take i rows) @ map fst (drop (Suc i) rows))"
  proof (cases "sel_index sel")
    case None
    then have "filter (\<lambda>(i, row). Some i \<noteq> first_index selectable 0 rows) (zip [0..<length rows] rows)
        = zip [0..<length rows] rows"
      by (auto simp: sel_def select_preferred_agent_def Let_def intro!: filter_True)
    with None show ?thesis
      by (simp add: sel_def select_preferred_agent_def Let_def map_skip_agents del: map_map)
  next
    case (Some i)
    then have fi: "first_index selectable 0 rows = Some i" and i: "i < length rows"
      by (auto simp: sel_def select_preferred_agent_def Let_def first_index_Some)
    have split: "zip [0..<length rows] rows
        = zip [0..<i] (take i rows) @ (i, rows ! i) # zip [Suc i..<length rows] (drop (Suc i) rows)"
    proof -
      have "[0..<length rows] = [0..<i] @ i # [Suc i..<length rows]"
        using upt_add_eq_append [of 0 i "length rows - i"] i by (simp add: upt_conv_Cons)
      moreover have "rows = take i rows @ rows ! i # drop (Suc i) rows"
        using i by (rule id_take_nth_drop)
      ultimately show ?thesis using i
        by (metis (no_types, lifting) length_take length_upt min.absorb4 minus_nat.diff_0 zip_Cons_Cons zip_append)
    qed
    have keep: "filter (\<lambda>(k, row). k \<noteq> i) (zip ks xs) = zip ks xs" if "i \<notin> set ks"
      for ks and xs :: "AgentAvailability list"
      by (rule filter_True) (use that in \<open>auto dest: set_zip_leftD\<close>)
    have "filter (\<lambda>(k, row). Some k \<noteq> Some i) (zip [0..<length rows] rows)
        = zip [0..<i] (take i rows) @ zip [Suc i..<length rows] (drop (Suc i) rows)"
      unfolding split by (simp add: keep)
    with Some fi i show ?thesis
      by (simp add: sel_def select_preferred_agent_def Let_def map_skip_agents del: map_map)
  qed
  have "skip_reason (rows ! j) \<noteq> ''lower_priority''" if "sel_index sel = Some i" "j < i" for i j
  proof -
    from that select_index_Some [of rows i] have "\<not> selectable (rows ! j)" by (simp add: sel_def)
    then show ?thesis by (auto simp: skip_reason_def selectable_def split: prod.splits)
  qed
  moreover have "sel_agent sel = Some (fst (rows ! i))" if "sel_index sel = Some i" for i
    using that by (simp add: sel_def select_preferred_agent_def Let_def)
  moreover have "sel_index sel = None \<longleftrightarrow> (\<forall>row \<in> set rows. \<not> selectable row)"
    unfolding sel_def by (rule select_index_None)
  moreover have "sel_index sel = Some i \<longleftrightarrow>
      i < length rows \<and> selectable (rows ! i) \<and> (\<forall>j < i. \<not> selectable (rows ! j))" for i
    unfolding sel_def by (rule select_index_Some)
  ultimately show ?thesis using others by blast
qed

theorem select_preferred_agent_witness:
  "sel_index (select_preferred_agent [(''a'', False, 5, False), (''b'', True, 0, False)]) = Some 1
   \<and> sel_agent (select_preferred_agent [(''a'', False, 5, False), (''b'', True, 0, False)]) = Some ''b''"
proof -
  have "sel_index (select_preferred_agent [(''a'', False, 5, False), (''b'', True, 0, False)]) = Some 1"
    by (simp add: select_preferred_agent_def selectable_def Let_def)
  with select_preferred_agent_correct [of "[(''a'', False, 5, False), (''b'', True, 0, False)]"]
  show ?thesis by simp
qed

section \<open>The store's contract\<close>

text \<open>
  What a client of \<^verbatim>\<open>UnavailabilityStore\<close> may rely on. \<open>until_ms\<close> is the instant from which an agent is
  available; a fresh mark lasts at most \<open>max_ms\<close>, and resetting one agent leaves the others alone.
\<close>

locale unavailability_store =
  fixes mark :: "string \<Rightarrow> string \<Rightarrow> 'r \<Rightarrow> int \<Rightarrow> 's \<Rightarrow> 's"
    and reset :: "string \<Rightarrow> string \<Rightarrow> 's \<Rightarrow> 's"
    and available :: "string \<Rightarrow> string \<Rightarrow> int \<Rightarrow> 's \<Rightarrow> bool"
    and wait :: "string \<Rightarrow> string list \<Rightarrow> int \<Rightarrow> 's \<Rightarrow> int"
    and max_ms :: "'s \<Rightarrow> int"
    and inv :: "int \<Rightarrow> 's \<Rightarrow> bool"
  assumes available_mono: "available ph a now s \<Longrightarrow> now \<le> now' \<Longrightarrow> available ph a now' s"
    and mark_inv: "inv now s \<Longrightarrow> inv now (mark ph a r now s)"
    and reset_inv: "inv now s \<Longrightarrow> inv now (reset ph a s)"
    and inv_mono: "inv now s \<Longrightarrow> now \<le> now' \<Longrightarrow> inv now' s"
    and mark_max: "max_ms (mark ph a r now s) = max_ms s"
    and reset_max: "max_ms (reset ph a s) = max_ms s"
    and inv_available: "inv now s \<Longrightarrow> available ph a (now + max_ms s) s"
    and reset_available: "available ph a now (reset ph a s)"
    and reset_other: "a \<noteq> b \<Longrightarrow> available ph b now (reset ph a s) = available ph b now s"
    and mark_other: "inv now s \<Longrightarrow> a \<noteq> b \<Longrightarrow> available ph b now (mark ph a r now s) = available ph b now s"
    and wait_available: "as \<noteq> [] \<Longrightarrow> \<forall>a \<in> set as. \<not> available ph a now s \<Longrightarrow>
          0 < wait ph as now s \<and> (\<exists>a \<in> set as. available ph a (now + wait ph as now s) s)
          \<and> (\<forall>a \<in> set as. \<forall>t < now + wait ph as now s. \<not> available ph a t s)"
begin

text \<open>Any history of marks and resets, at non-decreasing times.\<close>

inductive history :: "int \<Rightarrow> 's \<Rightarrow> int \<Rightarrow> 's \<Rightarrow> bool" where
  history_refl: "history t s t s"
| history_mark: "history t s u s' \<Longrightarrow> u \<le> now \<Longrightarrow> history t s now (mark ph a r now s')"
| history_reset: "history t s u s' \<Longrightarrow> u \<le> now \<Longrightarrow> history t s now (reset ph a s')"

lemma history_inv: "history t s u s' \<Longrightarrow> inv t s \<Longrightarrow> inv u s' \<and> max_ms s' = max_ms s \<and> t \<le> u"
  by (induction rule: history.induct)
    (auto intro: mark_inv reset_inv inv_mono simp: mark_max reset_max)

lemma no_permanent_skip:
  assumes "history t s u s'" and "inv t s" and "u + max_ms s \<le> later"
  shows "available ph a later s'"
  using history_inv [OF assms(1,2)] assms(3) inv_available available_mono by metis

end

section \<open>The tracker is a store\<close>

lemma agent_key_inject [simp]: "agent_key ph a = agent_key ph b \<longleftrightarrow> a = b"
  by (simp add: agent_key_def)

lemma dict_get_fold_pop:
  "dict_get (fold (\<lambda>(key, e). dict_pop key) xs d) k =
     (if k \<in> fst ` set xs then None else dict_get d k)"
  by (induction xs arbitrary: d) auto

definition distinct_entries :: "AgentUnavailabilityTracker \<Rightarrow> bool" where
  "distinct_entries t \<longleftrightarrow> distinct (map fst (ut_entries t))"

lemma prune_lookup:
  assumes "distinct_entries t"
  shows "dict_get (ut_entries (fst (prune_expired now t))) key =
    (case dict_get (ut_entries t) key of None \<Rightarrow> None
     | Some e \<Rightarrow> if ue_unavailable_until_ms e \<le> now then None else Some e)"
proof -
  have "key \<in> fst ` set (filter (\<lambda>(key, e). ue_unavailable_until_ms e \<le> now) (ut_entries t))
      \<longleftrightarrow> (\<exists>e. dict_get (ut_entries t) key = Some e \<and> ue_unavailable_until_ms e \<le> now)"
    using assms by (force simp: distinct_entries_def dest: dict_get_in)
  then show ?thesis
    by (auto simp: prune_expired_def Let_def dict_get_fold_pop split: option.split)
qed

lemma prune_sel [simp]:
  "ut_backoff_attempts (fst (prune_expired now t)) = ut_backoff_attempts t"
  "ut_backoff_policy (fst (prune_expired now t)) = ut_backoff_policy t"
  by (simp_all add: prune_expired_def Let_def)

lemma distinct_dict_pop: "distinct (map fst d) \<Longrightarrow> distinct (map fst (dict_pop k d))"
  by (simp add: dict_pop_def distinct_map_filter)

lemma distinct_fold_pop:
  "distinct (map fst d) \<Longrightarrow> distinct (map fst (fold (\<lambda>(key, e). dict_pop key) xs d))"
  by (induction xs arbitrary: d) (auto intro: distinct_dict_pop)

lemma mark_distinct [simp]: "distinct_entries t \<Longrightarrow> distinct_entries (fst (mark_unavailable ph a r now t))"
  by (simp add: mark_unavailable_def Let_def distinct_entries_def prune_expired_def distinct_fold_pop
      dict_set_distinct)

lemma reset_distinct [simp]: "distinct_entries t \<Longrightarrow> distinct_entries (tracker_reset_backoff ph a t)"
  by (simp add: tracker_reset_backoff_def distinct_entries_def distinct_dict_pop)

text \<open>The longest cooldown the tracker's policy can impose.\<close>

definition policy_max_ms :: "AgentUnavailabilityTracker \<Rightarrow> int" where
  "policy_max_ms t = Max (insert (max_backoff_ms legacy_backoff) ((max_backoff_ms \<circ> snd) ` set (ut_backoff_policy t)))"

definition tracker_inv :: "int \<Rightarrow> AgentUnavailabilityTracker \<Rightarrow> bool" where
  "tracker_inv now t \<longleftrightarrow> distinct_entries t \<and>
     (\<forall>key e. dict_get (ut_entries t) key = Some e \<longrightarrow> ue_unavailable_until_ms e \<le> now + policy_max_ms t)"

lemma policy_max_bound: "max_backoff_ms (backoff_policy_for t r) \<le> policy_max_ms t"
proof -
  have fin: "finite (insert (max_backoff_ms legacy_backoff) ((max_backoff_ms \<circ> snd) ` set (ut_backoff_policy t)))"
    by simp
  show ?thesis
    unfolding policy_max_ms_def backoff_policy_for_def dict_get_or_def
    by (rule Max_ge [OF fin]) (auto split: option.splits dest!: dict_get_in intro: rev_image_eqI)
qed

lemma mark_lookup:
  assumes "distinct_entries t"
  shows "dict_get (ut_entries (fst (mark_unavailable ph a r now t))) key =
    (if key = agent_key ph a then Some (snd (mark_unavailable ph a r now t))
     else case dict_get (ut_entries t) key of None \<Rightarrow> None
          | Some e \<Rightarrow> if ue_unavailable_until_ms e \<le> now then None else Some e)"
  using prune_lookup [OF assms, of now key]
  by (simp add: mark_unavailable_def Let_def)

lemma mark_entry:
  "ue_unavailable_until_ms (snd (mark_unavailable ph a r now t)) =
     now + min (base_backoff_ms (backoff_policy_for t r)
                  * 2 ^ dict_get_or (ut_backoff_attempts t) (agent_key ph a) 0)
               (max_backoff_ms (backoff_policy_for t r))"
proof -
  have "backoff_policy_for (fst (prune_expired now t)) r = backoff_policy_for t r"
    by (cases r) (simp_all add: backoff_policy_for_def)
  then show ?thesis by (simp add: mark_unavailable_def Let_def)
qed

lemma mark_policy [simp]: "ut_backoff_policy (fst (mark_unavailable ph a r now t)) = ut_backoff_policy t"
  by (simp add: mark_unavailable_def Let_def)

lemma policy_max_cong: "ut_backoff_policy t = ut_backoff_policy t' \<Longrightarrow> policy_max_ms t = policy_max_ms t'"
  by (simp add: policy_max_ms_def)

lemma is_available_mark_other:
  "distinct_entries t \<Longrightarrow> a \<noteq> b \<Longrightarrow> marked \<le> now \<Longrightarrow>
   is_available ph b now (fst (mark_unavailable ph a r marked t)) = is_available ph b now t"
  by (auto simp: is_available_def mark_lookup split: option.splits)

text \<open>A fresh mark holds at least for the base back-off.\<close>

lemma marked_unavailable:
  assumes "distinct_entries t" and "backoff_policy_valid (backoff_policy_for t r)"
    and "now < marked + base_backoff_ms (backoff_policy_for t r)"
  shows "\<not> is_available ph a now (fst (mark_unavailable ph a r marked t))"
proof -
  let ?b = "backoff_policy_for t r" and ?n = "dict_get_or (ut_backoff_attempts t) (agent_key ph a) 0"
  have "base_backoff_ms ?b * 1 \<le> base_backoff_ms ?b * 2 ^ ?n"
    using assms(2) by (intro mult_left_mono) (auto simp: backoff_policy_valid_def)
  with assms(3) have "now < marked + base_backoff_ms ?b * 2 ^ ?n" by linarith
  moreover have "now < marked + max_backoff_ms ?b" using assms(2,3) by (simp add: backoff_policy_valid_def)
  ultimately show ?thesis by (simp add: is_available_def mark_lookup [OF assms(1)] mark_entry min_def)
qed

definition remaining_ms :: "AgentUnavailabilityTracker \<Rightarrow> string \<Rightarrow> int \<Rightarrow> string \<Rightarrow> int" where
  "remaining_ms t ph now a =
     (case dict_get (ut_entries t) (agent_key ph a) of None \<Rightarrow> 0 | Some e \<Rightarrow> ue_unavailable_until_ms e - now)"

lemma available_remaining:
  "is_available ph a (now + d) t \<longleftrightarrow>
     dict_get (ut_entries t) (agent_key ph a) = None \<or> remaining_ms t ph now a \<le> d"
  by (auto simp: is_available_def remaining_ms_def split: option.splits)

lemma unavailable_remaining:
  "\<not> is_available ph a now t \<Longrightarrow>
   \<exists>e. dict_get (ut_entries t) (agent_key ph a) = Some e \<and> now < ue_unavailable_until_ms e
       \<and> remaining_ms t ph now a = ue_unavailable_until_ms e - now"
  by (auto simp: is_available_def remaining_ms_def split: option.splits)

lemma earliest_wait_loop_min:
  "\<forall>a \<in> set as. \<not> is_available ph a now t \<Longrightarrow> best \<noteq> None \<or> as \<noteq> [] \<Longrightarrow>
   (\<And>m. best = Some m \<Longrightarrow> 0 < m) \<Longrightarrow>
   earliest_wait_loop t ph now as best \<in> set_option best \<union> remaining_ms t ph now ` set as
   \<and> (\<forall>x \<in> set_option best \<union> remaining_ms t ph now ` set as. earliest_wait_loop t ph now as best \<le> x)"
proof (induction as arbitrary: best)
  case Nil
  then show ?case by force
next
  case (Cons a as)
  from Cons.prems(1) unavailable_remaining [of ph a now t] obtain e where
    e: "dict_get (ut_entries t) (agent_key ph a) = Some e" "now < ue_unavailable_until_ms e"
    and rem: "remaining_ms t ph now a = ue_unavailable_until_ms e - now" by auto
  let ?r = "ue_unavailable_until_ms e - now"
  let ?best = "case best of None \<Rightarrow> Some ?r | Some m \<Rightarrow> if ?r < m then Some ?r else Some m"
  have "earliest_wait_loop t ph now (a # as) best = earliest_wait_loop t ph now as ?best"
    using e by (simp add: Let_def)
  moreover have "earliest_wait_loop t ph now as ?best \<in> set_option ?best \<union> remaining_ms t ph now ` set as
     \<and> (\<forall>x \<in> set_option ?best \<union> remaining_ms t ph now ` set as. earliest_wait_loop t ph now as ?best \<le> x)"
    using Cons.prems e(2) by (intro Cons.IH) (auto split: option.splits if_splits)
  ultimately show ?case using rem by (cases best) (auto split: if_splits)
qed

lemma earliest_wait_correct:
  assumes "as \<noteq> []" and "\<forall>a \<in> set as. \<not> is_available ph a now t"
  defines "w \<equiv> earliest_unavailable_wait_ms ph as now t"
  shows "0 < w \<and> (\<exists>a \<in> set as. is_available ph a (now + w) t)
     \<and> (\<forall>a \<in> set as. \<forall>u < now + w. \<not> is_available ph a u t)"
proof -
  from earliest_wait_loop_min [of as ph now t None] assms(1,2)
  have mem: "w \<in> remaining_ms t ph now ` set as"
    and least: "\<forall>a \<in> set as. w \<le> remaining_ms t ph now a"
    by (auto simp: w_def earliest_unavailable_wait_ms_def)
  have pos: "0 < remaining_ms t ph now a" if "a \<in> set as" for a
    using assms(2) that unavailable_remaining [of ph a now t] by auto
  have "\<not> is_available ph a u t" if "a \<in> set as" "u < now + w" for a u
  proof -
    from that(1) least have "w \<le> remaining_ms t ph now a" by blast
    moreover from assms(2) that(1) have "dict_get (ut_entries t) (agent_key ph a) \<noteq> None"
      using unavailable_remaining [of ph a now t] by auto
    ultimately show ?thesis
      using available_remaining [of ph a now "u - now" t] that(2) by simp
  qed
  moreover from mem obtain a where "a \<in> set as" "w = remaining_ms t ph now a" by blast
  ultimately show ?thesis
    using pos available_remaining [of ph _ now w t] by auto
qed

interpretation session_store: unavailability_store
  "\<lambda>ph a r now t. fst (mark_unavailable ph a r now t)" tracker_reset_backoff is_available
  earliest_unavailable_wait_ms policy_max_ms tracker_inv
proof (unfold_locales, goal_cases)
  case (1 ph a now s now')
  then show ?case by (auto simp: is_available_def split: option.splits)
next
  case (2 now s ph a r)
  have "ue_unavailable_until_ms (snd (mark_unavailable ph a r now s)) \<le> now + policy_max_ms s"
    using policy_max_bound [of s r] by (simp add: mark_entry min_le_iff_disj)
  moreover have "policy_max_ms (fst (mark_unavailable ph a r now s)) = policy_max_ms s"
    by (simp add: policy_max_ms_def)
  ultimately show ?case using 2
    by (auto simp: tracker_inv_def mark_lookup split: if_splits option.splits)
next
  case (3 now s ph a)
  have "policy_max_ms (tracker_reset_backoff ph a s) = policy_max_ms s"
    by (simp add: policy_max_ms_def tracker_reset_backoff_def)
  with 3 show ?case by (auto simp: tracker_inv_def tracker_reset_backoff_def distinct_entries_def
        distinct_dict_pop split: if_splits)
next
  case (4 now s now')
  then show ?case by (fastforce simp: tracker_inv_def)
next
  case (5 ph a r now s)
  show ?case by (simp add: policy_max_ms_def)
next
  case (6 ph a s)
  show ?case by (simp add: policy_max_ms_def tracker_reset_backoff_def)
next
  case (7 now s ph a)
  then show ?case by (auto simp: tracker_inv_def is_available_def split: option.splits)
next
  case (8 ph a now s)
  show ?case by (simp add: is_available_def tracker_reset_backoff_def)
next
  case (9 a b ph now s)
  then show ?case by (auto simp: is_available_def tracker_reset_backoff_def)
next
  case (10 now s a b ph r)
  then show ?case by (simp add: is_available_mark_other tracker_inv_def)
next
  case (11 as ph now s)
  then show ?case by (rule earliest_wait_correct)
qed

text \<open>
  No agent is skipped permanently: after any history of failures and resets, every agent of every
  phase is available again at the latest one maximal cooldown after the last event.
\<close>

theorem agents_always_recover:
  assumes "session_store.history t0 t u t'" and "tracker_inv t0 t" and "u + policy_max_ms t \<le> later"
  shows "is_available ph a later t'"
  using assms by (rule session_store.no_permanent_skip)

theorem agents_always_recover_witness:
  "is_available ''development'' ''claude'' 1800000
     (fst (mark_unavailable ''development'' ''claude'' (Some OUT_OF_CREDITS) 0 (new_tracker None [] [])))"
proof (rule agents_always_recover)
  show "session_store.history 0 (new_tracker None [] []) 0
      (fst (mark_unavailable ''development'' ''claude'' (Some OUT_OF_CREDITS) 0 (new_tracker None [] [])))"
    by (rule session_store.history_mark [OF session_store.history_refl]) simp
  show "tracker_inv 0 (new_tracker None [] [])"
    by (simp add: tracker_inv_def new_tracker_def distinct_entries_def)
  show "0 + policy_max_ms (new_tracker None [] []) \<le> 1800000"
    by (simp add: policy_max_ms_def new_tracker_def DEFAULT_UNAVAILABILITY_BACKOFF_POLICY_def legacy_backoff_def)
qed

text \<open>
  The cooldown wait is exact: when every agent of a non-empty chain is on cooldown, the computed
  wait is positive, at its end some agent is available, and at no earlier instant is any.
\<close>

theorem cooldown_wait_exact:
  assumes "agents \<noteq> []" and "\<forall>a \<in> set agents. \<not> is_available ph a now t"
  shows "0 < earliest_unavailable_wait_ms ph agents now t
    \<and> (\<exists>a \<in> set agents. is_available ph a (now + earliest_unavailable_wait_ms ph agents now t) t)
    \<and> (\<forall>a \<in> set agents. \<forall>u < now + earliest_unavailable_wait_ms ph agents now t. \<not> is_available ph a u t)"
  using assms by (rule earliest_wait_correct)

definition cooldown_demo :: AgentUnavailabilityTracker where
  "cooldown_demo =
     fst (mark_unavailable ''p'' ''b'' (Some STRICTLY_STUCK) 100
       (fst (mark_unavailable ''p'' ''a'' (Some OUT_OF_CREDITS) 0 (new_tracker None [] []))))"

theorem cooldown_wait_exact_witness:
  "earliest_unavailable_wait_ms ''p'' [''a'', ''b''] 200 cooldown_demo = 14900
   \<and> (\<exists>a \<in> {''a'', ''b''}. is_available ''p'' a (200 + 14900) cooldown_demo)"
proof -
  have w: "earliest_unavailable_wait_ms ''p'' [''a'', ''b''] 200 cooldown_demo = 14900" by code_simp
  have "\<forall>a \<in> set [''a'', ''b'']. \<not> is_available ''p'' a 200 cooldown_demo" by code_simp
  from cooldown_wait_exact [OF _ this] show ?thesis by (simp add: w)
qed

fun marks :: "string \<Rightarrow> string \<Rightarrow> UnavailabilityReason option \<Rightarrow> int list \<Rightarrow> AgentUnavailabilityTracker
     \<Rightarrow> AgentUnavailabilityTracker" where
  "marks ph a r [] t = t"
| "marks ph a r (now # rest) t = marks ph a r rest (fst (mark_unavailable ph a r now t))"

lemma marks_append [simp]: "marks ph a r (xs @ ys) t = marks ph a r ys (marks ph a r xs t)"
  by (induction xs arbitrary: t) auto

lemma marks_policy [simp]: "ut_backoff_policy (marks ph a r ts t) = ut_backoff_policy t"
  by (induction ts arbitrary: t) auto

lemma marks_attempts:
  "dict_get_or (ut_backoff_attempts (marks ph a r ts t)) (agent_key ph a) 0
     = dict_get_or (ut_backoff_attempts t) (agent_key ph a) 0 + length ts"
  by (induction ts arbitrary: t) (auto simp: mark_unavailable_def Let_def)

definition backoff_delay :: "AgentUnavailabilityTracker \<Rightarrow> UnavailabilityReason option \<Rightarrow> nat \<Rightarrow> int" where
  "backoff_delay t r n =
     min (base_backoff_ms (backoff_policy_for t r) * 2 ^ n) (max_backoff_ms (backoff_policy_for t r))"

lemma backoff_delay_mono:
  "0 \<le> base_backoff_ms (backoff_policy_for t r) \<Longrightarrow> backoff_delay t r n \<le> backoff_delay t r (Suc n)"
  unfolding backoff_delay_def by (intro min.mono order_refl mult_left_mono) auto

text \<open>
  Exponential back-off: the n-th consecutive mark of an agent for one reason, with no reset between,
  makes it unavailable for exactly the base delay doubled n ts, capped at the reason's maximum;
  the delay never shrinks from one mark to the next and never exceeds the cap.
\<close>

theorem exponential_backoff:
  assumes "dict_get (ut_backoff_attempts t) (agent_key ph a) = None"
    and "backoff_policy_valid (backoff_policy_for t r)"
  shows "ue_unavailable_until_ms (snd (mark_unavailable ph a r now (marks ph a r ts t)))
           = now + backoff_delay t r (length ts)
       \<and> backoff_delay t r (length ts) \<le> backoff_delay t r (Suc (length ts))
       \<and> 0 < backoff_delay t r (length ts)
       \<and> backoff_delay t r (length ts) \<le> max_backoff_ms (backoff_policy_for t r)"
proof -
  have "backoff_policy_for (marks ph a r ts t) r = backoff_policy_for t r"
    by (cases r) (simp_all add: backoff_policy_for_def)
  moreover have "dict_get_or (ut_backoff_attempts (marks ph a r ts t)) (agent_key ph a) 0 = length ts"
    by (simp add: marks_attempts) (simp add: dict_get_or_def assms(1))
  ultimately show ?thesis
    using assms(2) backoff_delay_mono [of t r "length ts"]
    by (auto simp: mark_entry backoff_delay_def backoff_policy_valid_def)
qed

theorem exponential_backoff_witness:
  "ue_unavailable_until_ms (snd (mark_unavailable ''p'' ''a'' (Some NO_OUTPUT_AT_START) 500
      (marks ''p'' ''a'' (Some NO_OUTPUT_AT_START) [0, 100] (new_tracker None [] [])))) = 500 + 20000"
proof -
  have "dict_get (ut_backoff_attempts (new_tracker None [] [])) (agent_key ''p'' ''a'') = None"
    "backoff_policy_valid (backoff_policy_for (new_tracker None [] []) (Some NO_OUTPUT_AT_START))"
    "backoff_delay (new_tracker None [] []) (Some NO_OUTPUT_AT_START) 2 = 20000"
    by code_simp+
  with exponential_backoff [OF this(1,2), of 500 "[0, 100]"] show ?thesis by (simp add: numeral_2_eq_2)
qed

end
