(* ===== verification/Recovery_Types.thy ===== *)
theory Recovery_Types
  imports Pipeline_State Agent_Availability
begin

text \<open>
  Data shared by the reducer, the orchestrator and the recovery controller: pipeline effects
  (\<^verbatim>\<open>ralph/pipeline/effects/\<close>), failure categories and classified failures (\<^verbatim>\<open>ralph/recovery/\<close>), and the
  events the controller publishes. Python exceptions handed to the controller are a datatype.
\<close>

section \<open>Effects\<close>

text \<open>
  Of \<^verbatim>\<open>InvokeAgentEffect\<close> the fields that routing sets; the activity-supervision settings of out-of-graph
  invocations are not carried.
\<close>

datatype Effect =
    InvokeAgentEffect (ie_agent_name: string) (ie_phase: string) (ie_prompt_file: string)
      (ie_drain: "string option") (ie_chain_name: string)
  | PreparePromptEffect (pe_phase: string) (pe_drain: "string option") (pe_previous_phase: "string option")
      (pe_skip_materialization: bool)
  | ExitSuccessEffect
  | ExitFailureEffect (ef_reason: string)
  | SaveCheckpointEffect
  | CommitEffect (ce_message_file: string)
  | EarlySkipCommitEffect
  | ExhaustedAnalysisPhaseAdvanceEffect (ea_phase: string)
  | FanOutEffect (fo_work_units: "WorkUnit list") (fo_max_workers: int) (fo_verify: bool) (fo_phase: string)

definition is_exit_failure :: "Effect \<Rightarrow> bool" where
  "is_exit_failure e = (case e of ExitFailureEffect r \<Rightarrow> True | _ \<Rightarrow> False)"

text \<open>
  \<^verbatim>\<open>ExitFailureEffect.__post_init__\<close>. The code iterates a \<^verbatim>\<open>frozenset\<close>, so which of several matching
  sentinels its message names is unspecified; the model names the first of this list.
\<close>

definition FORBIDDEN_SENTINELS :: "string list" where
  "FORBIDDEN_SENTINELS = [''Unknown failure'', ''unknown failure'', ''None'', ''null'']"

definition contains_forbidden_sentinel :: "string \<Rightarrow> string option" where
  "contains_forbidden_sentinel reason = find (\<lambda>s. str_contains s reason) FORBIDDEN_SENTINELS"

definition build_exit_failure_effect :: "string \<Rightarrow> Effect result" where
  "build_exit_failure_effect reason =
     (if str_strip reason = [] then
        Inl (ValueError (''ExitFailureEffect.reason must be descriptive and cannot be empty or whitespace; got: ''
          @ str_repr reason @ '' (whitespace stripped: '' @ str_repr (str_strip reason) @ '')''))
      else case contains_forbidden_sentinel reason of
        Some m \<Rightarrow> Inl (ValueError (''ExitFailureEffect.reason must be descriptive and cannot contain ''
          @ ''a forbidden sentinel; matched sentinel: '' @ str_repr m @ '' in reason: '' @ str_repr reason))
      | None \<Rightarrow> Inr (ExitFailureEffect reason))"

section \<open>Failures\<close>

datatype FailureCategory = ENVIRONMENTAL | AGENT | USER_CONFIG | ARTIFACT_VALIDATION | AMBIGUOUS

definition category_value :: "FailureCategory \<Rightarrow> string" where
  "category_value c = (case c of
     ENVIRONMENTAL \<Rightarrow> ''environmental'' | AGENT \<Rightarrow> ''agent'' | USER_CONFIG \<Rightarrow> ''user_config''
   | ARTIFACT_VALIDATION \<Rightarrow> ''artifact_validation'' | AMBIGUOUS \<Rightarrow> ''ambiguous'')"

definition failure_category_prefix :: "FailureCategory \<Rightarrow> string" where
  "failure_category_prefix c = (case c of
     ENVIRONMENTAL \<Rightarrow> ''Environmental fault'' | AGENT \<Rightarrow> ''Agent fault''
   | USER_CONFIG \<Rightarrow> ''Configuration fault'' | ARTIFACT_VALIDATION \<Rightarrow> ''Artifact validation fault''
   | AMBIGUOUS \<Rightarrow> ''Ambiguous fault (flagged for review)'')"

text \<open>
  What the controller is handed: a message, a typed agent exception, or some other exception, of
  which the controller itself looks only at the class.
\<close>

datatype RawFailure =
    RawMessage string
  | BrokenAgentExitError (be_agent: string) (be_reason: string) (be_returncode: int) (be_stderr: string)
  | PiContextExhaustedExitError string
  | OtherException string string

record ClassifiedFailure =
  cf_category :: FailureCategory
  cf_reason :: string
  cf_attributed_agent :: "string option"
  cf_attributed_phase :: string
  cf_counts_against_budget :: bool
  cf_original_exception :: "RawFailure option"
  cf_raw_message :: string
  cf_reset_session :: bool
  cf_reset_tool_registry :: bool
  cf_is_unavailable :: bool
  cf_watchdog_reason :: "string option"
  cf_unavailability_reason :: "UnavailabilityReason option"
  cf_resumable_session_id :: "string option"

record FailureContext =
  fc_phase :: string
  fc_agent :: "string option"
  fc_retry_in_session :: bool
  fc_classified_failure :: "ClassifiedFailure option"

definition is_retryable_without_budget :: "ClassifiedFailure \<Rightarrow> bool" where
  "is_retryable_without_budget f \<longleftrightarrow> \<not> cf_counts_against_budget f"

record FailureEvent =
  fe_timestamp :: timestamp
  fe_phase :: string
  fe_agent :: "string option"
  fe_category :: string
  fe_reason :: string
  fe_counted_against_budget :: bool
  fe_chain_capacity_remaining :: int
  fe_recovery_cycle :: int
  fe_retry_delay_ms :: int
  fe_watchdog_reason :: "string option"
  fe_unavailability_reason :: "string option"

record FalloverEvent =
  fv_timestamp :: timestamp
  fv_phase :: string
  fv_from_agent :: string
  fv_to_agent :: string
  fv_reason :: string
  fv_watchdog_reason :: "string option"
  fv_unavailability_reason :: "string option"

datatype BusEvent = PublishedFailure FailureEvent | PublishedFallover FalloverEvent

section \<open>Exit effects are descriptive\<close>

lemma build_exit_failure_ok:
  "build_exit_failure_effect reason = Inr e \<longleftrightarrow>
     e = ExitFailureEffect reason \<and> str_strip reason \<noteq> [] \<and> contains_forbidden_sentinel reason = None"
  by (auto simp: build_exit_failure_effect_def split: option.splits)

lemma build_exit_failure_ValueError:
  "build_exit_failure_effect reason = Inl e \<Longrightarrow> \<exists>m. e = ValueError m"
  by (auto simp: build_exit_failure_effect_def split: option.splits if_splits)

lemma strip_nonempty: "c \<in> set s \<Longrightarrow> \<not> is_space c \<Longrightarrow> str_strip s \<noteq> []"
proof -
  assume c: "c \<in> set s" "\<not> is_space c"
  then have "c \<in> set (dropWhile is_space s)"
    by (induction s) auto
  with c(2) show ?thesis by (auto simp: str_strip_def dropWhile_eq_Nil_conv)
qed

end
