(* ===== verification/Failure_Budgets.thy ===== *)
theory Failure_Budgets
  imports Recovery_Types
begin

text \<open>
  The bounds of the recovery subsystem: per-agent failure budgets (\<^verbatim>\<open>budget_state.py\<close>,
  \<^verbatim>\<open>failure_budget.py\<close>, \<^verbatim>\<open>agent_budget_registry.py\<close>, \<^verbatim>\<open>seed_budget_registry.py\<close>), the recovery cycle cap
  (\<^verbatim>\<open>cycle_cap.py\<close>), and the three guards against repeating the same failure
  (\<^verbatim>\<open>_same_shape_retry_tracker.py\<close>, \<^verbatim>\<open>_broken_agent_same_shape_tracker.py\<close>, \<^verbatim>\<open>pipeline/_retry_progress_guard.py\<close>).
  The guards share one contract, the locale \<open>streak_guard\<close>.
\<close>

section \<open>Budgets\<close>

record BudgetState =
  bs_max_retries :: int
  bs_consumed :: int

definition budget_exhausted :: "BudgetState \<Rightarrow> bool" where
  "budget_exhausted b \<longleftrightarrow> bs_max_retries b \<le> bs_consumed b"

definition budget_remaining :: "BudgetState \<Rightarrow> int" where
  "budget_remaining b = max 0 (bs_max_retries b - bs_consumed b)"

definition budget_debit :: "BudgetState \<Rightarrow> ClassifiedFailure \<Rightarrow> BudgetState" where
  "budget_debit b f =
     (if \<not> cf_counts_against_budget f then b
      else \<lparr>bs_max_retries = bs_max_retries b, bs_consumed = bs_consumed b + 1\<rparr>)"

type_synonym AgentBudgetRegistry = "(string \<times> string, BudgetState) dict"

definition registry_get :: "AgentBudgetRegistry \<Rightarrow> string \<Rightarrow> string \<Rightarrow> BudgetState option" where
  "registry_get r phase agent = dict_get r (phase, agent)"

definition set_budget :: "string \<Rightarrow> string \<Rightarrow> int \<Rightarrow> AgentBudgetRegistry \<Rightarrow> AgentBudgetRegistry" where
  "set_budget phase agent m r = dict_set (phase, agent) \<lparr>bs_max_retries = m, bs_consumed = 0\<rparr> r"

definition registry_debit ::
    "string \<Rightarrow> string \<Rightarrow> ClassifiedFailure \<Rightarrow> AgentBudgetRegistry \<Rightarrow> AgentBudgetRegistry" where
  "registry_debit phase agent f r =
     (if \<not> cf_counts_against_budget f then r
      else (let current = dict_get_or r (phase, agent) \<lparr>bs_max_retries = 3, bs_consumed = 0\<rparr>
            in dict_set (phase, agent)
                 \<lparr>bs_max_retries = bs_max_retries current, bs_consumed = bs_consumed current + 1\<rparr> r))"

definition is_exhausted :: "AgentBudgetRegistry \<Rightarrow> string \<Rightarrow> string \<Rightarrow> bool" where
  "is_exhausted r phase agent =
     (case dict_get r (phase, agent) of None \<Rightarrow> False | Some b \<Rightarrow> budget_exhausted b)"

definition set_budgets :: "string \<Rightarrow> AgentChainConfig \<Rightarrow> AgentBudgetRegistry \<Rightarrow> AgentBudgetRegistry" where
  "set_budgets name c r = fold (\<lambda>agent. set_budget name agent (acc_max_retries c)) (acc_agents c) r"

definition seed_budget_registry :: "PolicyBundle \<Rightarrow> AgentBudgetRegistry" where
  "seed_budget_registry B =
     (let drains = ap_agent_drains (pb_agents B); chains = ap_agent_chains (pb_agents B);
          seed_phase = (\<lambda>(cname, c) (ph, d) r.
            case dict_get drains (pd_drain d) of None \<Rightarrow> r
            | Some dc \<Rightarrow> if adc_chain dc \<noteq> cname then r else set_budgets ph c r);
          by_phase = fold (\<lambda>chain r. fold (seed_phase chain) (pp_phases (pb_pipeline B)) r) chains [];
          seed_drain = (\<lambda>(dn, dc) r.
            case dict_get chains (adc_chain dc) of None \<Rightarrow> r | Some c \<Rightarrow> set_budgets dn c r)
      in fold seed_drain drains by_phase)"

section \<open>Cycle cap\<close>

text \<open>\<^verbatim>\<open>CycleCap(cap)\<close> raises for a cap below 1.\<close>

definition new_cycle_cap :: "int \<Rightarrow> int result" where
  "new_cycle_cap cap =
     (if cap < 1 then Inl (ValueError (''CycleCap must be >= 1, got '' @ int_str cap)) else Inr cap)"

definition cap_is_exceeded :: "int \<Rightarrow> int \<Rightarrow> bool" where
  "cap_is_exceeded cap count \<longleftrightarrow> cap \<le> count"

definition cap_exit_reason :: "int \<Rightarrow> int \<Rightarrow> string \<Rightarrow> string \<Rightarrow> string" where
  "cap_exit_reason cap count last_category last_reason =
     ''recovery cycle cap '' @ int_str cap @ '' exceeded after '' @ int_str count
     @ '' recoveries; last failure category='' @ last_category @ '': '' @ last_reason"

section \<open>Guards against identical failures\<close>

type_synonym RetryFingerprint = "string \<times> string \<times> bool \<times> bool"
type_synonym BrokenAgentFingerprint = "string \<times> string"

text \<open>
  Both trackers return the next fingerprint and count, or raise with the evidence; \<open>Inl n\<close> is a raise
  after \<open>n\<close> identical failures.
\<close>

definition record_streak :: "int \<Rightarrow> 'fp \<Rightarrow> 'fp option \<Rightarrow> int \<Rightarrow> int + ('fp \<times> int)" where
  "record_streak limit fp prior prior_consecutive =
     (let consecutive = (if prior = Some fp then prior_consecutive + 1 else 1)
      in if limit \<le> consecutive then Inl consecutive else Inr (fp, consecutive))"

definition record_fire ::
    "int \<Rightarrow> string \<Rightarrow> string \<Rightarrow> bool \<Rightarrow> bool \<Rightarrow> RetryFingerprint option \<Rightarrow> int
     \<Rightarrow> int + (RetryFingerprint \<times> int)" where
  "record_fire limit fire_reason diagnostic no_new_artifact workspace_change prior n =
     record_streak limit (fire_reason, diagnostic, no_new_artifact, workspace_change) prior n"

definition record_failure ::
    "int \<Rightarrow> string \<Rightarrow> string \<Rightarrow> BrokenAgentFingerprint option \<Rightarrow> int
     \<Rightarrow> int + (BrokenAgentFingerprint \<times> int)" where
  "record_failure limit reason agent prior n = record_streak limit (reason, agent) prior n"

definition same_shape_message :: "RetryFingerprint \<Rightarrow> int \<Rightarrow> int \<Rightarrow> string" where
  "same_shape_message fp n limit =
     (case fp of (fire, diag, art, ws) \<Rightarrow>
       ''same-shape retry loop exceeded: '' @ int_str n
       @ '' consecutive identical AgentInactivityTimeoutError resumes with fingerprint (fire_reason=''
       @ str_repr fire @ '', diagnostic_signature='' @ str_repr diag
       @ '', no_new_artifact_since_prior='' @ bool_str art
       @ '', workspace_change_since_prior='' @ bool_str ws @ ''); effective limit='' @ int_str limit)"

definition broken_agent_message :: "BrokenAgentFingerprint \<Rightarrow> int \<Rightarrow> int \<Rightarrow> string" where
  "broken_agent_message fp n limit =
     ''BROKEN_AGENT_NO_FALLOVER: sole agent repeated broken-agent failure '' @ int_str n
     @ '' times (reason='' @ str_repr (fst fp) @ '', agent='' @ str_repr (snd fp)
     @ '', limit='' @ int_str limit @ '')''"

record RetryProgressGuard =
  rg_max_identical :: int
  rg_last_signature :: "string option"
  rg_streak :: int

definition guard_record :: "string \<Rightarrow> RetryProgressGuard \<Rightarrow> RetryProgressGuard \<times> bool" where
  "guard_record sig g =
     (let g' = (if rg_last_signature g = Some sig then g\<lparr>rg_streak := rg_streak g + 1\<rparr>
                else g\<lparr>rg_last_signature := Some sig, rg_streak := 1\<rparr>)
      in (g', rg_max_identical g' \<le> rg_streak g'))"

section \<open>The guard contract\<close>

text \<open>
  A guard sees one fingerprint per failed attempt and answers whether to stop. \<open>streak s fp\<close> is how many
  attempts with fingerprint \<open>fp\<close> the state has seen in a row up to now.
\<close>

locale streak_guard =
  fixes start :: 's
    and observe :: "'fp \<Rightarrow> 's \<Rightarrow> 's option"
    and streak :: "'s \<Rightarrow> 'fp \<Rightarrow> int"
    and limit :: int
  assumes limit_pos: "1 \<le> limit"
    and streak_start: "streak start fp = 0"
    and observe_stop: "observe fp s = None \<longleftrightarrow> limit \<le> streak s fp + 1"
    and observe_streak: "observe fp s = Some s' \<Longrightarrow> streak s' fq = (if fq = fp then streak s fp + 1 else 0)"
begin

text \<open>Feeding a history of attempts; \<open>None\<close> once the guard has stopped.\<close>

fun feed :: "'s \<Rightarrow> 'fp list \<Rightarrow> 's option" where
  "feed s [] = Some s"
| "feed s (fp # fps) = (case observe fp s of None \<Rightarrow> None | Some s' \<Rightarrow> feed s' fps)"

lemma feed_append: "feed s (xs @ ys) = (case feed s xs of None \<Rightarrow> None | Some s' \<Rightarrow> feed s' ys)"
  by (induction xs arbitrary: s) (auto split: option.splits)

definition trailing :: "'fp \<Rightarrow> 'fp list \<Rightarrow> nat" where
  "trailing fp fps = length (takeWhile (\<lambda>x. x = fp) (rev fps))"

lemma trailing_snoc: "trailing fp (fps @ [x]) = (if x = fp then trailing fp fps + 1 else 0)"
  by (simp add: trailing_def)

lemma trailing_le: "n \<le> trailing fp fps \<longleftrightarrow> (\<exists>pre. fps = pre @ replicate n fp)"
proof
  assume "n \<le> trailing fp fps"
  then have "takeWhile (\<lambda>x. x = fp) (rev fps) = replicate (trailing fp fps) fp"
    unfolding trailing_def by (intro replicate_eqI) (auto dest: set_takeWhileD)
  then have "rev fps = replicate (trailing fp fps) fp @ dropWhile (\<lambda>x. x = fp) (rev fps)"
    by (metis takeWhile_dropWhile_id)
  then have "fps = rev (dropWhile (\<lambda>x. x = fp) (rev fps)) @ replicate (trailing fp fps) fp"
    by (metis rev_append rev_replicate rev_rev_ident)
  moreover have "replicate (trailing fp fps) fp = replicate (trailing fp fps - n) fp @ replicate n fp"
    using \<open>n \<le> trailing fp fps\<close> by (simp flip: replicate_add)
  ultimately show "\<exists>pre. fps = pre @ replicate n fp" by (metis append.assoc)
next
  assume "\<exists>pre. fps = pre @ replicate n fp"
  then obtain pre where "fps = pre @ replicate n fp" by blast
  then show "n \<le> trailing fp fps" by (simp add: trailing_def takeWhile_append)
qed

lemma feed_streak: "feed start fps = Some s \<Longrightarrow> streak s fp = int (trailing fp fps)"
proof (induction fps arbitrary: s fp rule: rev_induct)
  case Nil
  then have "s = start" by simp
  then show ?case by (simp add: streak_start trailing_def)
next
  case (snoc x fps)
  then obtain s0 where s0: "feed start fps = Some s0" "observe x s0 = Some s"
    by (auto simp: feed_append split: option.splits)
  with snoc.IH [OF s0(1)] show ?case by (auto simp: observe_streak [OF s0(2)] trailing_snoc)
qed

lemma stops_exactly_at_limit:
  "feed start fps = None \<longleftrightarrow> (\<exists>pre fp post. fps = pre @ replicate (nat limit) fp @ post)"
proof (induction fps rule: rev_induct)
  case Nil
  from limit_pos have "nat limit \<noteq> 0" by simp
  then show ?case by auto
next
  case (snoc x fps)
  have block: "(\<exists>pre fp post. fps @ [x] = pre @ replicate (nat limit) fp @ post)
      \<longleftrightarrow> (\<exists>pre fp post. fps = pre @ replicate (nat limit) fp @ post)
          \<or> (\<exists>fp pre. fps @ [x] = pre @ replicate (nat limit) fp)" (is "?L \<longleftrightarrow> ?R")
  proof
    assume ?L
    then obtain pre fp post where eq: "fps @ [x] = pre @ replicate (nat limit) fp @ post" by blast
    show ?R
    proof (cases post rule: rev_cases)
      case Nil
      with eq show ?thesis by auto
    next
      case (snoc post' y)
      with eq have "fps = pre @ replicate (nat limit) fp @ post'" by simp
      then show ?thesis by blast
    qed
  next
    assume ?R
    then show ?L by (metis append.assoc append_Nil2)
  qed
  have suffix: "(\<exists>pre. fps @ [x] = pre @ replicate (nat limit) fp) \<longleftrightarrow> nat limit \<le> trailing fp (fps @ [x])" for fp
    by (rule trailing_le [symmetric])
  show ?case
  proof (cases "feed start fps")
    case None
    with snoc block show ?thesis by (simp add: feed_append)
  next
    case (Some s)
    have "feed start (fps @ [x]) = None \<longleftrightarrow> limit \<le> int (trailing x fps) + 1"
      using Some observe_stop [of x s] feed_streak [OF Some, of x]
      by (cases "observe x s") (simp_all add: feed_append)
    also have "\<dots> \<longleftrightarrow> (\<exists>fp. nat limit \<le> trailing fp (fps @ [x]))"
      using limit_pos by (auto simp: trailing_snoc nat_le_iff split: if_splits)
    finally have "feed start (fps @ [x]) = None \<longleftrightarrow> (\<exists>fp pre. fps @ [x] = pre @ replicate (nat limit) fp)"
      unfolding suffix .
    moreover from Some snoc have "\<not> (\<exists>pre fp post. fps = pre @ replicate (nat limit) fp @ post)" by simp
    ultimately show ?thesis unfolding block by blast
  qed
qed

end

section \<open>The three guards\<close>

type_synonym 'fp streak_state = "'fp option \<times> int"

definition tracked_streak :: "'fp streak_state \<Rightarrow> 'fp \<Rightarrow> int" where
  "tracked_streak s fp = (if fst s = Some fp then snd s else 0)"

definition tracker_observe :: "int \<Rightarrow> 'fp \<Rightarrow> 'fp streak_state \<Rightarrow> 'fp streak_state option" where
  "tracker_observe limit fp s =
     (case record_streak limit fp (fst s) (snd s) of Inl n \<Rightarrow> None | Inr (fq, n) \<Rightarrow> Some (Some fq, n))"

lemma tracker_is_streak_guard:
  "1 \<le> limit \<Longrightarrow> streak_guard (None, 0) (tracker_observe limit) tracked_streak limit"
  by unfold_locales
    (auto simp: tracked_streak_def tracker_observe_def record_streak_def Let_def split: if_splits)

lemma tracker_observe_pair:
  "tracker_observe limit fp (p, n) =
     (let m = (if p = Some fp then n + 1 else 1) in if limit \<le> m then None else Some (Some fp, m))"
  by (simp add: tracker_observe_def record_streak_def Let_def)

definition guard_observe :: "int \<Rightarrow> string \<Rightarrow> string streak_state \<Rightarrow> string streak_state option" where
  "guard_observe limit sig s =
     (let (g, stop) = guard_record sig \<lparr>rg_max_identical = limit, rg_last_signature = fst s, rg_streak = snd s\<rparr>
      in if stop then None else Some (rg_last_signature g, rg_streak g))"

lemma guard_observe_eq: "guard_observe limit sig s = tracker_observe limit sig s"
  by (simp add: guard_observe_def guard_record_def tracker_observe_def record_streak_def Let_def)

text \<open>The limits the code ships with: \<^verbatim>\<open>SAME_SHAPE_RETRY_DEFAULT\<close> and \<^verbatim>\<open>MAX_IDENTICAL_RETRY_ATTEMPTS\<close>.\<close>

interpretation same_shape: streak_guard
  "(None, 0)" "tracker_observe 3 :: RetryFingerprint \<Rightarrow> _" tracked_streak 3
  by (rule tracker_is_streak_guard) simp

interpretation broken_agent: streak_guard
  "(None, 0)" "tracker_observe 2 :: BrokenAgentFingerprint \<Rightarrow> _" tracked_streak 2
  by (rule tracker_is_streak_guard) simp

interpretation retry_progress: streak_guard "(None, 0)" "guard_observe 3" tracked_streak 3
  unfolding guard_observe_eq by (rule tracker_is_streak_guard) simp

text \<open>A history of failed attempts fed to each guard; true while no guard call stops.\<close>

fun fires_survive :: "int \<Rightarrow> RetryFingerprint option \<Rightarrow> int \<Rightarrow> RetryFingerprint list \<Rightarrow> bool" where
  "fires_survive limit prior n [] = True"
| "fires_survive limit prior n ((fire, diag, art, ws) # rest) =
     (case record_fire limit fire diag art ws prior n of
        Inl m \<Rightarrow> False | Inr (fp, m) \<Rightarrow> fires_survive limit (Some fp) m rest)"

fun failures_survive :: "int \<Rightarrow> BrokenAgentFingerprint option \<Rightarrow> int \<Rightarrow> BrokenAgentFingerprint list \<Rightarrow> bool" where
  "failures_survive limit prior n [] = True"
| "failures_survive limit prior n ((reason, agent) # rest) =
     (case record_failure limit reason agent prior n of
        Inl m \<Rightarrow> False | Inr (fp, m) \<Rightarrow> failures_survive limit (Some fp) m rest)"

fun attempts_survive :: "RetryProgressGuard \<Rightarrow> string list \<Rightarrow> bool" where
  "attempts_survive g [] = True"
| "attempts_survive g (sig # rest) =
     (let (g', stop) = guard_record sig g in \<not> stop \<and> attempts_survive g' rest)"

lemma fires_survive_feed:
  "1 \<le> limit \<Longrightarrow> fires_survive limit prior n xs \<longleftrightarrow>
     streak_guard.feed (tracker_observe limit) (prior, n) xs \<noteq> None"
  by (induction limit prior n xs rule: fires_survive.induct)
    (simp_all add: streak_guard.feed.simps [OF tracker_is_streak_guard] tracker_observe_pair record_fire_def
      record_streak_def Let_def)

lemma failures_survive_feed:
  "1 \<le> limit \<Longrightarrow> failures_survive limit prior n xs \<longleftrightarrow>
     streak_guard.feed (tracker_observe limit) (prior, n) xs \<noteq> None"
  by (induction limit prior n xs rule: failures_survive.induct)
    (simp_all add: streak_guard.feed.simps [OF tracker_is_streak_guard] tracker_observe_pair
      record_failure_def record_streak_def Let_def)

lemma attempts_survive_feed:
  "1 \<le> rg_max_identical g \<Longrightarrow> attempts_survive g xs \<longleftrightarrow>
     streak_guard.feed (tracker_observe (rg_max_identical g)) (rg_last_signature g, rg_streak g) xs \<noteq> None"
proof (induction xs arbitrary: g)
  case Nil
  then show ?case by (simp add: streak_guard.feed.simps [OF tracker_is_streak_guard])
next
  case (Cons sig rest)
  have "rg_max_identical (fst (guard_record sig g)) = rg_max_identical g"
    by (simp add: guard_record_def Let_def)
  with Cons show ?case
    by (auto simp: streak_guard.feed.simps [OF tracker_is_streak_guard] guard_record_def
        tracker_observe_pair Let_def)
qed

text \<open>
  The three zero-progress guards. For any limit of at least one, each guard stops a history of failed
  attempts exactly when it contains that many consecutive attempts with the same fingerprint: an
  identical failure is repeated at most the limit times, and any change of fingerprint restores the
  full allowance.
\<close>

theorem identical_failures_bounded:
  assumes "1 \<le> limit"
  shows "(\<not> fires_survive limit None 0 fires \<longleftrightarrow>
            (\<exists>pre fp post. fires = pre @ replicate (nat limit) fp @ post))
    \<and> (\<not> failures_survive limit None 0 failures \<longleftrightarrow>
            (\<exists>pre fp post. failures = pre @ replicate (nat limit) fp @ post))
    \<and> (\<not> attempts_survive \<lparr>rg_max_identical = limit, rg_last_signature = None, rg_streak = 0\<rparr> sigs \<longleftrightarrow>
            (\<exists>pre sig post. sigs = pre @ replicate (nat limit) sig @ post))"
proof (intro conjI)
  note stops = streak_guard.stops_exactly_at_limit [OF tracker_is_streak_guard [OF assms]]
  show "\<not> fires_survive limit None 0 fires \<longleftrightarrow>
      (\<exists>pre fp post. fires = pre @ replicate (nat limit) fp @ post)"
    using fires_survive_feed [OF assms, of None 0 fires] stops [of fires] by simp
  show "\<not> failures_survive limit None 0 failures \<longleftrightarrow>
      (\<exists>pre fp post. failures = pre @ replicate (nat limit) fp @ post)"
    using failures_survive_feed [OF assms, of None 0 failures] stops [of failures] by simp
  show "\<not> attempts_survive \<lparr>rg_max_identical = limit, rg_last_signature = None, rg_streak = 0\<rparr> sigs \<longleftrightarrow>
      (\<exists>pre sig post. sigs = pre @ replicate (nat limit) sig @ post)"
    using attempts_survive_feed [of "\<lparr>rg_max_identical = limit, rg_last_signature = None, rg_streak = 0\<rparr>" sigs]
      assms stops [of sigs] by simp
qed

theorem identical_failures_bounded_witness:
  "\<not> failures_survive 2 None 0 [(''no_output'', ''claude''), (''no_output'', ''claude'')]
   \<and> failures_survive 2 None 0 [(''no_output'', ''claude''), (''prompt_echo'', ''claude''), (''no_output'', ''claude'')]"
proof
  have "[(''no_output'', ''claude''), (''no_output'', ''claude'')]
      = [] @ replicate (nat 2) (''no_output'', ''claude'') @ []" by (simp add: numeral_2_eq_2)
  then show "\<not> failures_survive 2 None 0 [(''no_output'', ''claude''), (''no_output'', ''claude'')]"
    using identical_failures_bounded [of 2 "[]" "[(''no_output'', ''claude''), (''no_output'', ''claude'')]" "[]"]
    by (metis one_le_numeral)
  show "failures_survive 2 None 0
      [(''no_output'', ''claude''), (''prompt_echo'', ''claude''), (''no_output'', ''claude'')]"
    by code_simp
qed

section \<open>Budget accounting\<close>

text \<open>
  What the controller relies on of a budget: a failure that counts consumes one unit, one that does not
  count changes nothing, and the limit is fixed.
\<close>

locale retry_budget =
  fixes debit :: "ClassifiedFailure \<Rightarrow> 'b \<Rightarrow> 'b"
    and consumed :: "'b \<Rightarrow> int"
    and allowance :: "'b \<Rightarrow> int"
    and spent :: "'b \<Rightarrow> bool"
    and ok :: "'b \<Rightarrow> bool"
  assumes debit_ok: "ok b \<Longrightarrow> ok (debit f b)"
    and debit_consumed: "ok b \<Longrightarrow>
          consumed (debit f b) = consumed b + (if cf_counts_against_budget f then 1 else 0)"
    and debit_allowance: "ok b \<Longrightarrow> allowance (debit f b) = allowance b"
    and spent_iff: "ok b \<Longrightarrow> spent b \<longleftrightarrow> allowance b \<le> consumed b"
begin

lemma debits_counted:
  "ok b \<Longrightarrow> ok (fold debit fs b)
     \<and> consumed (fold debit fs b) = consumed b + int (length (filter cf_counts_against_budget fs))
     \<and> allowance (fold debit fs b) = allowance b"
  by (induction fs arbitrary: b) (simp_all add: debit_ok debit_consumed debit_allowance)

lemma spent_after:
  "ok b \<Longrightarrow> spent (fold debit fs b) \<longleftrightarrow>
     allowance b \<le> consumed b + int (length (filter cf_counts_against_budget fs))"
  using debits_counted [of b fs] by (simp add: spent_iff)

end

interpretation failure_budget: retry_budget
  "\<lambda>f b. budget_debit b f" bs_consumed bs_max_retries budget_exhausted "\<lambda>_. True"
  by unfold_locales (simp_all add: budget_debit_def budget_exhausted_def)

definition entry_of :: "string \<Rightarrow> string \<Rightarrow> AgentBudgetRegistry \<Rightarrow> BudgetState" where
  "entry_of ph a r = dict_get_or r (ph, a) \<lparr>bs_max_retries = 3, bs_consumed = 0\<rparr>"

interpretation registry_budget: retry_budget
  "registry_debit ph a" "\<lambda>r. bs_consumed (entry_of ph a r)" "\<lambda>r. bs_max_retries (entry_of ph a r)"
  "\<lambda>r. is_exhausted r ph a" "\<lambda>r. dict_has r (ph, a)" for ph a
  by unfold_locales
    (auto simp: registry_debit_def entry_of_def Let_def is_exhausted_def budget_exhausted_def dict_get_or_def)

lemma registry_debit_other:
  "(ph, a) \<noteq> (qh, b) \<Longrightarrow> registry_get (registry_debit ph a f r) qh b = registry_get r qh b"
  by (auto simp: registry_debit_def registry_get_def Let_def)

lemma registry_debits_other:
  "(ph, a) \<noteq> (qh, b) \<Longrightarrow> registry_get (fold (registry_debit ph a) fs r) qh b = registry_get r qh b"
  by (induction fs arbitrary: r) (simp_all add: registry_debit_other)

text \<open>
  Budget accounting: starting from a fresh budget of \<open>m\<close> retries, a (phase, agent) pair is exhausted
  exactly when at least \<open>m\<close> of the failures charged to it count against the budget; environmental,
  validation and other uncounted failures never bring exhaustion closer, and no other pair's budget
  moves.
\<close>

theorem budget_exhausted_exactly:
  "is_exhausted (fold (registry_debit ph a) fs (set_budget ph a m r)) ph a
     = (m \<le> int (length (filter cf_counts_against_budget fs)))
   \<and> (\<forall>qh b. (qh, b) = (ph, a) \<or>
        registry_get (fold (registry_debit ph a) fs (set_budget ph a m r)) qh b = registry_get r qh b)"
proof -
  have fresh: "entry_of ph a (set_budget ph a m r) = \<lparr>bs_max_retries = m, bs_consumed = 0\<rparr>"
    "dict_has (set_budget ph a m r) (ph, a)"
    by (simp_all add: set_budget_def entry_of_def)
  have "registry_get (fold (registry_debit ph a) fs (set_budget ph a m r)) qh b = registry_get r qh b"
    if "(qh, b) \<noteq> (ph, a)" for qh b
  proof -
    from that have "registry_get (fold (registry_debit ph a) fs (set_budget ph a m r)) qh b
        = registry_get (set_budget ph a m r) qh b"
      by (intro registry_debits_other) auto
    with that show ?thesis by (auto simp: registry_get_def set_budget_def)
  qed
  moreover have "is_exhausted (fold (registry_debit ph a) fs (set_budget ph a m r)) ph a
      = (m \<le> int (length (filter cf_counts_against_budget fs)))"
    using registry_budget.spent_after [OF fresh(2)] by (simp add: fresh(1))
  ultimately show ?thesis by blast
qed

end
