(* ===== verification/Recovery_Controller.thy ===== *)
theory Recovery_Controller
  imports Progress Failure_Budgets
begin

text \<open>
  The recovery controller (\<^verbatim>\<open>ralph/recovery/controller.py\<close>). Its mutable attributes are a record that every
  method returns updated; events published on the bus and retry hints written to disk are appended
  to logs in that record. The classifier it was constructed with is an argument. The readings a
  call takes of the clocks are a record: the mark of an unavailable agent, the selection, the check of each agent of
  the chain, the second check of each and the computed wait, and the wall clock. The selection reads the clock once for
  the cooldowns and then once per agent; on a clock that does not go back the later readings change nothing
  (\<open>selection_reads_once\<close>), so it is one sample. An
  exception aborts the call: the result is then \<open>Inl\<close>, and partial mutations are not kept.
\<close>

section \<open>State\<close>

record ClockSamples =
  ck_wall :: timestamp
  ck_mark_ms :: int
  ck_select_ms :: int
  ck_check_ms :: "string \<Rightarrow> int"
  ck_recheck_ms :: "string \<Rightarrow> int"
  ck_wait_ms :: int

record RecoveryController =
  rc_cap :: int
  rc_policy_bundle :: "PolicyBundle option"
  rc_technical_retry_cap :: int
  rc_registry :: AgentBudgetRegistry
  rc_backoff_attempts :: "(string, nat) dict"
  rc_same_shape_limit :: int
  rc_broken_agent_limit :: int
  rc_same_shape_state :: "(string, RetryFingerprint \<times> int \<times> (int \<times> int)) dict"
  rc_broken_agent_state :: "(string, BrokenAgentFingerprint \<times> int) dict"
  rc_spent_agents :: "(string, string list) dict"
  rc_tracker :: AgentUnavailabilityTracker
  rc_published :: "BusEvent list"
  rc_hints :: "(string \<times> string) list"

type_synonym classifier = "RawFailure \<Rightarrow> string \<Rightarrow> string option \<Rightarrow> string \<Rightarrow> ClassifiedFailure"

type_synonym handled = "(RecoveryController \<times> PipelineState \<times> Effect list \<times> FailureEvent) result"

definition compute_backoff_ms :: "int \<Rightarrow> nat \<Rightarrow> int \<Rightarrow> int" where
  "compute_backoff_ms base_ms attempt max_ms = min (base_ms * 2 ^ attempt) max_ms"

text \<open>\<^verbatim>\<open>RecoveryController.__init__\<close>: the cap and both tracker limits are validated at construction.\<close>

definition new_controller ::
    "int \<Rightarrow> PolicyBundle option \<Rightarrow> AgentBudgetRegistry \<Rightarrow> (string, nat) dict \<Rightarrow> int \<Rightarrow> int \<Rightarrow> int
     \<Rightarrow> AgentUnavailabilityTracker \<Rightarrow> RecoveryController result" where
  "new_controller cycle_cap bundle registry attempts technical_retry_cap same_shape_limit broken_limit tracker =
     bind_r (new_cycle_cap cycle_cap) (\<lambda>cap.
       if same_shape_limit < 1 then
         Inl (ValueError (''SameShapeRetryTracker.limit must be >= 1; got '' @ int_str same_shape_limit
           @ '' (a bound of 0 disables R6 entirely, which would convert an infinite loop into a fast,''
           @ '' quiet failure of a healthy agent)''))
       else if broken_limit < 1 then
         Inl (ValueError (''BrokenAgentSameShapeTracker.limit must be >= 1; got '' @ int_str broken_limit))
       else Inr \<lparr>rc_cap = cap, rc_policy_bundle = bundle,
                 rc_technical_retry_cap = max 0 technical_retry_cap, rc_registry = registry,
                 rc_backoff_attempts = attempts, rc_same_shape_limit = same_shape_limit,
                 rc_broken_agent_limit = broken_limit, rc_same_shape_state = [],
                 rc_broken_agent_state = [], rc_spent_agents = [], rc_tracker = tracker,
                 rc_published = [], rc_hints = []\<rparr>)"

definition publish :: "BusEvent \<Rightarrow> RecoveryController \<Rightarrow> RecoveryController" where
  "publish e rc = rc\<lparr>rc_published := rc_published rc @ [e]\<rparr>"

section \<open>Queries and bookkeeping\<close>

definition chain_config_for_phase :: "RecoveryController \<Rightarrow> string \<Rightarrow> AgentChainConfig option" where
  "chain_config_for_phase rc phase =
     (case rc_policy_bundle rc of None \<Rightarrow> None
      | Some B \<Rightarrow>
          (let drain_name = (case phase_of (pb_pipeline B) phase of Some d \<Rightarrow> pd_drain d | None \<Rightarrow> phase)
           in case dict_get (ap_agent_drains (pb_agents B)) drain_name of
                None \<Rightarrow> None
              | Some dc \<Rightarrow> dict_get (ap_agent_chains (pb_agents B)) (adc_chain dc)))"

definition compute_retry_delay :: "RecoveryController \<Rightarrow> string \<Rightarrow> string option \<Rightarrow> int" where
  "compute_retry_delay rc phase agent =
     (case chain_config_for_phase rc phase of
        None \<Rightarrow> 0
      | Some c \<Rightarrow>
          (let key = (case agent of Some a \<Rightarrow> if a \<noteq> [] then agent_key phase a else phase | None \<Rightarrow> phase)
           in compute_backoff_ms (acc_retry_delay_ms c) (dict_get_or (rc_backoff_attempts rc) key 0) 30000))"

definition get_max_retries_for_chain :: "RecoveryController \<Rightarrow> string \<Rightarrow> int" where
  "get_max_retries_for_chain rc phase =
     (case chain_config_for_phase rc phase of None \<Rightarrow> 3 | Some c \<Rightarrow> acc_max_retries c)"

definition controller_is_agent_available :: "RecoveryController \<Rightarrow> string \<Rightarrow> string \<Rightarrow> int \<Rightarrow> bool" where
  "controller_is_agent_available rc phase agent now = is_available phase agent now (rc_tracker rc)"

definition agents_now_available :: "RecoveryController \<Rightarrow> string \<Rightarrow> string list \<Rightarrow> (string \<Rightarrow> int) \<Rightarrow> string list" where
  "agents_now_available rc phase agents asked =
     filter (\<lambda>a. controller_is_agent_available rc phase a (asked a)) agents"

definition earliest_available_wait_ms ::
    "RecoveryController \<Rightarrow> string \<Rightarrow> string list \<Rightarrow> (string \<Rightarrow> int) \<Rightarrow> int \<Rightarrow> int" where
  "earliest_available_wait_ms rc phase agents asked now =
     (if list_ex (\<lambda>a. controller_is_agent_available rc phase a (asked a)) agents then 0
      else earliest_unavailable_wait_ms phase agents now (rc_tracker rc))"

definition waiting_state_payload ::
    "RecoveryController \<Rightarrow> string \<Rightarrow> string list \<Rightarrow> int \<Rightarrow> (string \<times> nat \<times> int) list" where
  "waiting_state_payload rc phase agents now =
     map (\<lambda>a. (a, dict_get_or (ut_backoff_attempts (rc_tracker rc)) (agent_key phase a) 0,
               case dict_get (snapshot_timeouts (rc_tracker rc)) (agent_key phase a) of
                 None \<Rightarrow> 0 | Some t \<Rightarrow> max 0 (t - now))) agents"

definition spent_of :: "RecoveryController \<Rightarrow> string \<Rightarrow> string list" where
  "spent_of rc phase = dict_get_or (rc_spent_agents rc) phase []"

definition note_retry_exhaustion :: "string \<Rightarrow> string \<Rightarrow> RecoveryController \<Rightarrow> RecoveryController" where
  "note_retry_exhaustion phase agent rc =
     rc\<lparr>rc_spent_agents := dict_set phase
          (if agent \<in> set (spent_of rc phase) then spent_of rc phase else spent_of rc phase @ [agent])
          (rc_spent_agents rc)\<rparr>"

definition controller_reset_backoff :: "string \<Rightarrow> string option \<Rightarrow> RecoveryController \<Rightarrow> RecoveryController" where
  "controller_reset_backoff phase agent rc =
     (let key = (case agent of Some a \<Rightarrow> if a \<noteq> [] then agent_key phase a else phase | None \<Rightarrow> phase);
          rc' = rc\<lparr>rc_backoff_attempts := dict_pop key (rc_backoff_attempts rc),
                   rc_spent_agents := dict_pop phase (rc_spent_agents rc)\<rparr>
      in case agent of None \<Rightarrow> rc'
         | Some a \<Rightarrow> rc'\<lparr>rc_tracker := tracker_reset_backoff phase a (rc_tracker rc)\<rparr>)"

definition next_conflict_candidate :: "string list \<Rightarrow> nat \<Rightarrow> nat" where
  "next_conflict_candidate candidates failed_index =
     (if candidates = [] then 0 else min (failed_index + 1) (length candidates))"

definition availability_row ::
    "RecoveryController \<Rightarrow> string \<Rightarrow> nat option \<Rightarrow> bool \<Rightarrow> int \<Rightarrow> nat \<times> string \<Rightarrow> AgentAvailability" where
  "availability_row rc phase current_index allowance_spent now ia =
     (case ia of (idx, agent) \<Rightarrow>
       (agent, controller_is_agent_available rc phase agent now,
        (case dict_get (snapshot_timeouts (rc_tracker rc)) (agent_key phase agent) of
           None \<Rightarrow> 0 | Some t \<Rightarrow> max 0 (t - now)),
        agent \<in> set (spent_of rc phase) \<or> (Some idx = current_index \<and> allowance_spent)))"

definition preferred_agent_index ::
    "RecoveryController \<Rightarrow> string \<Rightarrow> string list \<Rightarrow> nat option \<Rightarrow> bool \<Rightarrow> int \<Rightarrow> AgentSelection" where
  "preferred_agent_index rc phase agents current_index allowance_spent now =
     select_preferred_agent
       (map (availability_row rc phase current_index allowance_spent now)
         (zip [0..<length agents] agents))"

definition mark_agent_unavailable ::
    "string \<Rightarrow> string \<Rightarrow> UnavailabilityReason option \<Rightarrow> int \<Rightarrow> RecoveryController \<Rightarrow> RecoveryController \<times> int" where
  "mark_agent_unavailable phase agent reason now rc =
     (let (t, e) = mark_unavailable phase agent reason now (rc_tracker rc)
      in (rc\<lparr>rc_tracker := t\<rparr>, min (ue_base_backoff_ms e * 2 ^ ue_attempt e) (ue_max_backoff_ms e)))"

definition write_session_reset_hint :: "string \<Rightarrow> ClassifiedFailure \<Rightarrow> RecoveryController \<Rightarrow> RecoveryController" where
  "write_session_reset_hint phase f rc =
     rc\<lparr>rc_hints := rc_hints rc @ [(phase, ''Previous session id was invalid; restart with fresh session.''
          @ '' Original failure: '' @ cf_raw_message f)]\<rparr>"

section \<open>Same-shape bounds\<close>

text \<open>Both checks return the message of the exception the tracker raised, if it raised.\<close>

definition broken_agent_reason :: "ClassifiedFailure \<Rightarrow> string option" where
  "broken_agent_reason f =
     (case cf_original_exception f of Some (BrokenAgentExitError a r code err) \<Rightarrow> Some r | _ \<Rightarrow> None)"

definition check_broken_agent_same_shape_bound ::
    "string \<Rightarrow> string option \<Rightarrow> ClassifiedFailure \<Rightarrow> AgentChainState option \<Rightarrow> RecoveryController
     \<Rightarrow> RecoveryController \<times> string option" where
  "check_broken_agent_same_shape_bound phase agent f chain rc =
     (case (agent, chain, broken_agent_reason f) of
        (Some a, Some c, Some r) \<Rightarrow>
          if length (acs_agents c) \<noteq> 1 then (rc, None)
          else (let prior = dict_get (rc_broken_agent_state rc) phase in
                case record_failure (rc_broken_agent_limit rc) r a (map_option fst prior)
                       (case prior of None \<Rightarrow> 0 | Some p \<Rightarrow> snd p) of
                  Inl n \<Rightarrow> (rc, Some (broken_agent_message (r, a) n (rc_broken_agent_limit rc)))
                | Inr (fp, n) \<Rightarrow>
                    (rc\<lparr>rc_broken_agent_state := dict_set phase (fp, n) (rc_broken_agent_state rc)\<rparr>, None))
      | _ \<Rightarrow> (rc, None))"

definition check_same_shape_bound ::
    "string \<Rightarrow> ClassifiedFailure \<Rightarrow> PipelineState \<Rightarrow> RecoveryController \<Rightarrow> RecoveryController \<times> string option" where
  "check_same_shape_bound phase f s rc =
     (case cf_watchdog_reason f of
        None \<Rightarrow> (rc, None)
      | Some w \<Rightarrow>
          if cf_category f \<noteq> AGENT then (rc, None)
          else (let key = phase @ '':'' @ w;
                    prior = dict_get (rc_same_shape_state rc) key;
                    metrics = (total_retries (ps_metrics s), total_agent_calls (ps_metrics s));
                    prior_metrics = (case prior of None \<Rightarrow> metrics | Some p \<Rightarrow> snd (snd p));
                    no_new_artifact = (metrics = prior_metrics);
                    workspace_change = (\<not> no_new_artifact) in
                case record_fire (rc_same_shape_limit rc) w (cf_reason f) no_new_artifact
                       (\<not> workspace_change) (map_option fst prior)
                       (case prior of None \<Rightarrow> 0 | Some p \<Rightarrow> fst (snd p)) of
                  Inl n \<Rightarrow> (rc, Some (same_shape_message (w, cf_reason f, no_new_artifact, \<not> workspace_change)
                                       n (rc_same_shape_limit rc)))
                | Inr (fp, n) \<Rightarrow>
                    (rc\<lparr>rc_same_shape_state := dict_set key (fp, n, metrics) (rc_same_shape_state rc)\<rparr>, None)))"

section \<open>Retry, fallover, wait, fail\<close>

definition apply_chain_retry ::
    "PipelineState \<Rightarrow> string \<Rightarrow> AgentChainState \<Rightarrow> bool \<Rightarrow> PipelineState result" where
  "apply_chain_retry s phase c retry_in_session =
     (let retried = with_phase_chain phase (chain_with_retry_increment c) s in
      if retry_in_session \<and> truthy (ps_last_agent_session_id s) then
        bind_r (resume_agent_retry_intent (the (ps_last_agent_session_id s)) [] False) (\<lambda>i.
          Inr (retried\<lparr>ps_agent_retry_intent := i\<rparr>))
      else Inr (retried\<lparr>ps_agent_retry_intent := cleared_agent_retry_intent\<rparr>))"

definition enter_phase_failed ::
    "PipelineState \<Rightarrow> string \<Rightarrow> FailureCategory \<Rightarrow> RecoveryController \<Rightarrow> (RecoveryController \<times> PipelineState) result" where
  "enter_phase_failed s reason category rc =
     (case rc_policy_bundle rc of
        None \<Rightarrow> Inl (RuntimeError (''_enter_phase_failed requires policy_bundle to be set on the controller. ''
          @ ''Without policy, the runtime cannot determine the failure route. ''
          @ ''Set policy_bundle when constructing RecoveryController.''))
      | Some B \<Rightarrow>
          Inr (rc\<lparr>rc_spent_agents := dict_pop (ps_phase s) (rc_spent_agents rc)\<rparr>,
               (advanced (pb_pipeline B) (failed_route (pb_pipeline B)) s)
                 \<lparr>ps_last_error := Some reason, ps_recovery_epoch := ps_recovery_epoch s + 1,
                  ps_last_failure_category := Some (category_value category),
                  ps_last_retry_delay_ms := 0\<rparr>))"

definition fall_over ::
    "PipelineState \<Rightarrow> string \<Rightarrow> AgentChainState \<Rightarrow> string option \<Rightarrow> nat \<Rightarrow> ClassifiedFailure
     \<Rightarrow> timestamp \<Rightarrow> RecoveryController \<Rightarrow> RecoveryController \<times> PipelineState" where
  "fall_over s phase c cur_agent idx f wall rc =
     (let next_agent = acs_agents c ! idx;
          from_agent = (if truthy cur_agent then the cur_agent
                        else ''agent['' @ nat_str (acs_current_index c) @ '']'');
          record = \<lparr>fr_phase = phase, fr_from_agent = from_agent, fr_to_agent = next_agent,
                    fr_timestamp = wall\<rparr>;
          evt = \<lparr>fv_timestamp = wall, fv_phase = phase, fv_from_agent = from_agent,
                 fv_to_agent = next_agent, fv_reason = cf_reason f,
                 fv_watchdog_reason = cf_watchdog_reason f,
                 fv_unavailability_reason = map_option reason_value (cf_unavailability_reason f)\<rparr>;
          preserve = (cf_watchdog_reason f = Some ''no_output_at_start'' \<and> truthy (cf_resumable_session_id f));
          new_chain = \<lparr>acs_agents = acs_agents c, acs_current_index = idx, acs_retries = 0\<rparr>
      in (publish (PublishedFallover evt) rc,
          with_fallover_record record
            ((with_phase_chain phase new_chain s)
               \<lparr>ps_last_retry_delay_ms := 0,
                ps_last_agent_session_id := (if preserve then cf_resumable_session_id f else None),
                ps_agent_retry_intent := cleared_agent_retry_intent\<rparr>)))"

definition wait_for_cooldown ::
    "PipelineState \<Rightarrow> string \<Rightarrow> AgentChainState \<Rightarrow> ClassifiedFailure \<Rightarrow> FailureEvent \<Rightarrow> ClockSamples
     \<Rightarrow> RecoveryController \<Rightarrow> RecoveryController \<times> PipelineState \<times> FailureEvent" where
  "wait_for_cooldown s phase c f evt ck rc =
     (let wait_ms = earliest_available_wait_ms rc phase (acs_agents c) (ck_recheck_ms ck) (ck_wait_ms ck);
          reason = ''all agents unavailable (last reason: ''
            @ (case cf_unavailability_reason f of None \<Rightarrow> ''unknown'' | Some r \<Rightarrow> reason_value r)
            @ ''); waiting for cooldown expiry'';
          evt' = evt\<lparr>fe_retry_delay_ms := wait_ms\<rparr>
      in (publish (PublishedFailure evt') rc,
          s\<lparr>ps_last_error := Some reason, ps_last_retry_delay_ms := wait_ms, ps_is_waiting_state := True\<rparr>,
          evt'))"

definition exit_if_capped ::
    "RecoveryController \<Rightarrow> PipelineState \<Rightarrow> ClassifiedFailure \<Rightarrow> Effect list \<Rightarrow> FailureEvent \<Rightarrow> handled" where
  "exit_if_capped rc s f effects evt =
     (if cap_is_exceeded (rc_cap rc) (ps_recovery_cycle_count s) then
        bind_r (build_exit_failure_effect (cap_exit_reason (rc_cap rc) (ps_recovery_cycle_count s)
                  (category_value (cf_category f)) (take 200 (cf_reason f)))) (\<lambda>e.
          Inr (rc, s\<lparr>ps_last_retry_delay_ms := 0\<rparr>, [e], evt))
      else Inr (rc, s, effects, evt))"

text \<open>
  \<^verbatim>\<open>_handle_retry_progression\<close> in two steps: whose allowance is spent, then what to do with the chain.
\<close>

definition note_spent_allowance ::
    "RecoveryController \<Rightarrow> string \<Rightarrow> string option \<Rightarrow> AgentChainState \<Rightarrow> int \<Rightarrow> bool
     \<Rightarrow> RecoveryController \<times> string option \<times> bool" where
  "note_spent_allowance rc phase agent c max_retries use_budget =
     (let cur_agent = (if truthy agent then agent else chain_agent c);
          budget = (if use_budget then (case cur_agent of None \<Rightarrow> None
                     | Some a \<Rightarrow> registry_get (rc_registry rc) phase a) else None);
          spent = (case budget of Some b \<Rightarrow> budget_exhausted b
                   | None \<Rightarrow> max_retries \<le> int (acs_retries c))
      in (if spent then (case cur_agent of None \<Rightarrow> rc | Some a \<Rightarrow> note_retry_exhaustion phase a rc) else rc,
          cur_agent, spent))"

definition progress_chain ::
    "RecoveryController \<Rightarrow> ClockSamples \<Rightarrow> PipelineState \<Rightarrow> ClassifiedFailure \<Rightarrow> string \<Rightarrow> AgentChainState
     \<Rightarrow> string option \<Rightarrow> bool \<Rightarrow> bool \<Rightarrow> FailureEvent \<Rightarrow> handled" where
  "progress_chain rc ck s f phase c cur_agent spent retry_in_session evt =
     (case sel_index (preferred_agent_index rc phase (acs_agents c) (Some (acs_current_index c)) spent
                        (ck_select_ms ck)) of
        Some i \<Rightarrow>
          if i = acs_current_index c then
            bind_r (apply_chain_retry s phase c retry_in_session) (\<lambda>s'. Inr (rc, s', [], evt))
          else (let (rc', s') = fall_over s phase c cur_agent i f (ck_wall ck) rc
                in Inr (rc', s', [], evt))
      | None \<Rightarrow>
          if list_all (\<lambda>a. \<not> controller_is_agent_available rc phase a (ck_check_ms ck a)) (acs_agents c)
          then (let (rc', s', evt') = wait_for_cooldown s phase c f evt ck rc
                in Inr (rc', s', [], evt'))
          else bind_r (enter_phase_failed
                   (s\<lparr>ps_recovery_cycle_count := ps_recovery_cycle_count s + 1\<rparr>)
                   (cf_reason f) (cf_category f) rc) (\<lambda>(rc', s').
               exit_if_capped rc' s' f [] evt))"

definition handle_retry_progression ::
    "RecoveryController \<Rightarrow> ClockSamples \<Rightarrow> PipelineState \<Rightarrow> ClassifiedFailure \<Rightarrow> string \<Rightarrow> string option
     \<Rightarrow> bool \<Rightarrow> int \<Rightarrow> bool \<Rightarrow> FailureEvent \<Rightarrow> handled" where
  "handle_retry_progression rc ck s f phase agent retry_in_session max_retries use_budget evt =
     (case chain_for_phase s phase of
        None \<Rightarrow> Inr (rc, s, [], evt)
      | Some c \<Rightarrow>
          (let (rc1, cur_agent, spent) = note_spent_allowance rc phase agent c max_retries use_budget
           in progress_chain rc1 ck s f phase c cur_agent spent retry_in_session evt))"

section \<open>The entry point\<close>

definition failure_event_for ::
    "RecoveryController \<Rightarrow> ClockSamples \<Rightarrow> PipelineState \<Rightarrow> ClassifiedFailure \<Rightarrow> string \<Rightarrow> string option \<Rightarrow> FailureEvent" where
  "failure_event_for rc ck s f phase agent =
     (let chain = chain_for_phase s phase;
          capacity = (case chain of None \<Rightarrow> 0
            | Some c \<Rightarrow> max 0 (int (length (acs_agents c)) - int (acs_current_index c) - 1));
          delay = (if chain \<noteq> None \<and> agent \<noteq> None \<and> cf_counts_against_budget f \<and> \<not> cf_is_unavailable f
                   then compute_retry_delay rc phase agent else 0)
      in \<lparr>fe_timestamp = ck_wall ck, fe_phase = phase, fe_agent = agent,
          fe_category = category_value (cf_category f), fe_reason = cf_reason f,
          fe_counted_against_budget = cf_counts_against_budget f,
          fe_chain_capacity_remaining = capacity, fe_recovery_cycle = ps_recovery_cycle_count s,
          fe_retry_delay_ms = delay, fe_watchdog_reason = cf_watchdog_reason f,
          fe_unavailability_reason = map_option reason_value (cf_unavailability_reason f)\<rparr>)"

text \<open>The \<^verbatim>\<open>AGENT\<close> path up to the same-shape checks: cooldown mark, session handling, budget debit.\<close>

definition charge_agent_failure ::
    "RecoveryController \<Rightarrow> ClockSamples \<Rightarrow> PipelineState \<Rightarrow> ClassifiedFailure \<Rightarrow> string \<Rightarrow> string option \<Rightarrow> bool
     \<Rightarrow> RecoveryController \<times> PipelineState" where
  "charge_agent_failure rc ck s f phase agent retry_in_session =
     (let (rc1, s1) = (case agent of
            Some a \<Rightarrow> if cf_is_unavailable f
              then (fst (mark_agent_unavailable phase a (cf_unavailability_reason f) (ck_mark_ms ck) rc),
                    s\<lparr>ps_last_unavailability_reason := map_option reason_value (cf_unavailability_reason f)\<rparr>)
              else (rc, s)
          | None \<Rightarrow> (rc, s));
          (rc2, s2) =
            (if cf_reset_session f then
               (write_session_reset_hint phase f rc1,
                s1\<lparr>ps_last_agent_session_id := None, ps_agent_retry_intent := cleared_agent_retry_intent\<rparr>)
             else if retry_in_session \<and> truthy (cf_resumable_session_id f) then
               (rc1, s1\<lparr>ps_last_agent_session_id := cf_resumable_session_id f\<rparr>)
             else (rc1, s1));
          rc3 = (case agent of
            None \<Rightarrow> rc2
          | Some a \<Rightarrow> if cf_is_unavailable f then rc2
              else (let r = rc2\<lparr>rc_registry := registry_debit phase a f (rc_registry rc2)\<rparr>;
                        key = agent_key phase a
                    in if cf_counts_against_budget f
                       then r\<lparr>rc_backoff_attempts := dict_set key
                              (dict_get_or (rc_backoff_attempts r) key 0 + 1) (rc_backoff_attempts r)\<rparr>
                       else r))
      in (rc3, s2))"

definition handle_agent_category ::
    "RecoveryController \<Rightarrow> ClockSamples \<Rightarrow> PipelineState \<Rightarrow> PipelineState \<Rightarrow> ClassifiedFailure \<Rightarrow> FailureContext
     \<Rightarrow> FailureEvent \<Rightarrow> handled" where
  "handle_agent_category rc ck s s0 f ctx evt =
     (let phase = fc_phase ctx; agent = fc_agent ctx; in_session = fc_retry_in_session ctx;
          (rc1, s1) = charge_agent_failure rc ck s0 f phase agent in_session;
          (rc2, broken) = check_broken_agent_same_shape_bound phase agent f (chain_for_phase s phase) rc1 in
      case broken of
        Some msg \<Rightarrow> bind_r (enter_phase_failed s1 msg (cf_category f) rc2) (\<lambda>(rc3, s3).
          Inr (rc3, s3, [], evt))
      | None \<Rightarrow>
          (let (rc3, looped) = (if in_session then check_same_shape_bound phase f s rc2 else (rc2, None)) in
           case looped of
             Some msg \<Rightarrow> bind_r (enter_phase_failed s1 msg (cf_category f) rc3) (\<lambda>(rc4, s4).
               Inr (rc4, s4, [], evt))
           | None \<Rightarrow>
               bind_r (handle_retry_progression rc3 ck s1 f phase agent in_session
                         (get_max_retries_for_chain rc3 phase) True evt) (\<lambda>(rc4, s4, effs, evt4).
                 exit_if_capped rc4 s4 f effs evt4)))"

definition handled_failure :: "classifier \<Rightarrow> PipelineState \<Rightarrow> RawFailure \<Rightarrow> FailureContext \<Rightarrow> ClassifiedFailure" where
  "handled_failure classify s raw ctx =
     (case fc_classified_failure ctx of Some f \<Rightarrow> f
      | None \<Rightarrow> classify raw (fc_phase ctx) (fc_agent ctx) (ps_last_connectivity_state s))"

definition technical :: "FailureCategory \<Rightarrow> bool" where
  "technical c \<longleftrightarrow> c \<in> {ENVIRONMENTAL, ARTIFACT_VALIDATION, AMBIGUOUS}"

definition handle :: "classifier \<Rightarrow> ClockSamples \<Rightarrow> RecoveryController \<Rightarrow> PipelineState \<Rightarrow> RawFailure
     \<Rightarrow> FailureContext \<Rightarrow> handled" where
  "handle classify ck rc s raw ctx =
     (let f = handled_failure classify s raw ctx;
          evt = failure_event_for rc ck s f (fc_phase ctx) (fc_agent ctx);
          rc0 = publish (PublishedFailure evt) rc;
          s0 = s\<lparr>ps_last_failure_category := Some (category_value (cf_category f)),
                 ps_last_retry_delay_ms := fe_retry_delay_ms evt, ps_is_waiting_state := False\<rparr> in
      if technical (cf_category f) then
        handle_retry_progression rc0 ck (s0\<lparr>ps_last_error := Some (cf_reason f)\<rparr>) f (fc_phase ctx)
          (fc_agent ctx) (fc_retry_in_session ctx) (rc_technical_retry_cap rc0) False evt
      else if cf_category f = USER_CONFIG then
        bind_r (enter_phase_failed s0 (cf_reason f) (cf_category f) rc0) (\<lambda>(rc1, s1).
          Inr (rc1, s1, [], evt))
      else handle_agent_category rc0 ck s s0 f ctx evt)"

section \<open>What a recovery step may change\<close>

text \<open>
  The parts of the state recovery never touches, and the two phases it can leave the run in.
\<close>

definition recovery_kept :: "PipelineState \<Rightarrow> PipelineState \<Rightarrow> bool" where
  "recovery_kept s s' \<longleftrightarrow>
     ps_loop_iterations s' = ps_loop_iterations s \<and> ps_outer_progress s' = ps_outer_progress s
     \<and> ps_budget_caps s' = ps_budget_caps s \<and> ps_work_units s' = ps_work_units s
     \<and> ps_worker_states s' = ps_worker_states s
     \<and> ps_pending_cycle_outcome s' = ps_pending_cycle_outcome s
     \<and> ps_cycle_timebox_active s' = ps_cycle_timebox_active s
     \<and> ps_cycle_timebox_consumed_seconds s' = ps_cycle_timebox_consumed_seconds s
     \<and> ps_cycle_timebox_redirects s' = ps_cycle_timebox_redirects s
     \<and> ps_interrupted_by_user s' = ps_interrupted_by_user s
     \<and> ps_policy_entry_phase s' = ps_policy_entry_phase s"

definition recovery_frame :: "PipelinePolicy option \<Rightarrow> PipelineState \<Rightarrow> PipelineState \<Rightarrow> bool" where
  "recovery_frame pol s s' \<longleftrightarrow> recovery_kept s s' \<and>
     (ps_phase s' = ps_phase s \<and> ps_previous_phase s' = ps_previous_phase s
      \<or> (\<exists>P. pol = Some P \<and> ps_phase s' = failed_route P \<and> ps_previous_phase s' = Some (ps_phase s)))"

definition rc_policy :: "RecoveryController \<Rightarrow> PipelinePolicy option" where
  "rc_policy rc = map_option pb_pipeline (rc_policy_bundle rc)"

lemma recovery_kept_refl [simp]: "recovery_kept s s"
  by (simp add: recovery_kept_def)

lemma recovery_kept_trans: "recovery_kept s t \<Longrightarrow> recovery_kept t u \<Longrightarrow> recovery_kept s u"
  by (simp add: recovery_kept_def)

text \<open>Controller fields fixed at construction.\<close>

definition same_config :: "RecoveryController \<Rightarrow> RecoveryController \<Rightarrow> bool" where
  "same_config rc rc' \<longleftrightarrow> rc_cap rc' = rc_cap rc \<and> rc_policy_bundle rc' = rc_policy_bundle rc"

lemma same_config_refl [simp]: "same_config rc rc"
  by (simp add: same_config_def)

lemma same_config_trans: "same_config a b \<Longrightarrow> same_config b c \<Longrightarrow> same_config a c"
  by (simp add: same_config_def)

lemma advanced_entry [simp]:
  "ps_policy_entry_phase (advanced P t s) = ps_policy_entry_phase s"
  "ps_cycle_timebox_consumed_seconds (advanced P t s) = ps_cycle_timebox_consumed_seconds s"
  by (simp_all add: advanced_def Let_def)

lemma enter_phase_failed_spec:
  "enter_phase_failed s reason cat rc = Inr (rc', s') \<Longrightarrow>
   same_config rc rc' \<and> rc_registry rc' = rc_registry rc \<and> recovery_frame (rc_policy rc) s s'
   \<and> ps_recovery_cycle_count s' = ps_recovery_cycle_count s \<and> ps_recovery_epoch s' = ps_recovery_epoch s + 1
   \<and> rc_backoff_attempts rc' = rc_backoff_attempts rc"
  by (auto simp: enter_phase_failed_def same_config_def recovery_frame_def recovery_kept_def rc_policy_def
      split: option.splits)

lemma apply_chain_retry_spec:
  "apply_chain_retry s phase c b = Inr s' \<Longrightarrow>
   recovery_kept s s' \<and> ps_phase s' = ps_phase s \<and> ps_previous_phase s' = ps_previous_phase s
   \<and> ps_recovery_cycle_count s' = ps_recovery_cycle_count s
   \<and> chain_for_phase s' phase = Some (chain_with_retry_increment c)"
  by (auto simp: apply_chain_retry_def Let_def bind_r_eq_Inr recovery_kept_def with_phase_chain_def
      chain_for_phase_def split: if_splits)

lemma apply_chain_retry_returns: "returns (apply_chain_retry s phase c b)"
proof -
  have "\<exists>i. resume_agent_retry_intent (the sid) [] False = Inr i" if "truthy sid" for sid
    using that by (auto simp: truthy_def split: option.splits
        dest!: resume_agent_retry_intent_ok [of _ "[]" False])
  then show ?thesis by (auto simp: apply_chain_retry_def Let_def returns_def bind_r_eq_Inr)
qed

lemma fall_over_spec:
  "fall_over s phase c cur idx f wall rc = (rc', s') \<Longrightarrow>
   same_config rc rc' \<and> rc_registry rc' = rc_registry rc \<and> recovery_kept s s' \<and> ps_phase s' = ps_phase s \<and> ps_previous_phase s' = ps_previous_phase s
   \<and> ps_recovery_cycle_count s' = ps_recovery_cycle_count s
   \<and> rc_backoff_attempts rc' = rc_backoff_attempts rc
   \<and> chain_for_phase s' phase = Some \<lparr>acs_agents = acs_agents c, acs_current_index = idx, acs_retries = 0\<rparr>"
  by (auto simp: fall_over_def Let_def same_config_def recovery_kept_def publish_def with_phase_chain_def
      with_fallover_record_def set_fallover_history_def chain_for_phase_def)

lemma wait_for_cooldown_spec:
  "wait_for_cooldown s phase c f evt ck rc = (rc', s', evt') \<Longrightarrow>
   same_config rc rc' \<and> rc_registry rc' = rc_registry rc \<and> recovery_kept s s' \<and> ps_phase s' = ps_phase s \<and> ps_previous_phase s' = ps_previous_phase s
   \<and> ps_recovery_cycle_count s' = ps_recovery_cycle_count s \<and> ps_is_waiting_state s'
   \<and> rc_backoff_attempts rc' = rc_backoff_attempts rc
   \<and> ps_last_retry_delay_ms s' = earliest_available_wait_ms rc phase (acs_agents c) (ck_recheck_ms ck) (ck_wait_ms ck)"
  by (auto simp: wait_for_cooldown_def Let_def same_config_def recovery_kept_def publish_def)

text \<open>The number of effects and the cycle count a handled failure ends with.\<close>

definition cap_respected :: "int \<Rightarrow> int \<Rightarrow> PipelineState \<Rightarrow> Effect list \<Rightarrow> bool" where
  "cap_respected cap count s' effs \<longleftrightarrow>
     (ps_recovery_cycle_count s' = count \<or> ps_recovery_cycle_count s' = count + 1)
     \<and> (ps_recovery_cycle_count s' = count + 1 \<and> cap \<le> count + 1 \<longrightarrow> effs \<noteq> [])
     \<and> (effs \<noteq> [] \<longrightarrow> cap \<le> ps_recovery_cycle_count s' \<and> (\<exists>r. effs = [ExitFailureEffect r]))"

lemma exit_if_capped_spec:
  assumes "exit_if_capped rc s f effs evt = Inr (rc', s', effs', evt')"
  shows "rc' = rc \<and> evt' = evt \<and> recovery_kept s s' \<and> ps_phase s' = ps_phase s \<and> ps_previous_phase s' = ps_previous_phase s
    \<and> ps_recovery_cycle_count s' = ps_recovery_cycle_count s
    \<and> (if rc_cap rc \<le> ps_recovery_cycle_count s then (\<exists>r. effs' = [ExitFailureEffect r])
       else effs' = effs \<and> s' = s)"
  using assms
  by (auto simp: exit_if_capped_def cap_is_exceeded_def bind_r_eq_Inr build_exit_failure_ok
      recovery_kept_def split: if_splits)

lemma note_retry_config [simp]:
  "same_config rc (note_retry_exhaustion phase a rc)"
  "rc_registry (note_retry_exhaustion phase a rc) = rc_registry rc"
  "rc_policy_bundle (note_retry_exhaustion phase a rc) = rc_policy_bundle rc"
  "rc_cap (note_retry_exhaustion phase a rc) = rc_cap rc"
  "rc_tracker (note_retry_exhaustion phase a rc) = rc_tracker rc"
  "rc_backoff_attempts (note_retry_exhaustion phase a rc) = rc_backoff_attempts rc"
  by (simp_all add: note_retry_exhaustion_def same_config_def)

text \<open>
  The outcome of one recovery step. A returned step stays in its phase or fails it to the failed
  route; it adds at most one recovery cycle and exits exactly under the cap.
\<close>

definition good_step :: "RecoveryController \<Rightarrow> PipelineState \<Rightarrow>
    RecoveryController \<times> PipelineState \<times> Effect list \<times> FailureEvent \<Rightarrow> bool" where
  "good_step rc s r \<longleftrightarrow> (case r of (rc', s', effs, evt) \<Rightarrow>
     same_config rc rc' \<and> rc_registry rc' = rc_registry rc \<and> rc_backoff_attempts rc' = rc_backoff_attempts rc
     \<and> recovery_frame (rc_policy rc) s s'
     \<and> cap_respected (rc_cap rc) (ps_recovery_cycle_count s) s' effs)"

lemma note_spent_allowance_spec:
  "note_spent_allowance rc phase agent c m ub = (rc1, cur, spent) \<Longrightarrow>
   same_config rc rc1 \<and> rc_registry rc1 = rc_registry rc \<and> rc_tracker rc1 = rc_tracker rc
   \<and> rc_backoff_attempts rc1 = rc_backoff_attempts rc"
  by (auto simp: note_spent_allowance_def Let_def split: if_splits option.splits)

lemma progress_chain_spec: "result_all (good_step rc s) (progress_chain rc ck s f phase c cur spent b evt)"
proof (cases "sel_index (preferred_agent_index rc phase (acs_agents c) (Some (acs_current_index c)) spent (ck_select_ms ck))")
  case (Some i)
  show ?thesis
  proof (cases "i = acs_current_index c")
    case True
    with Some show ?thesis
      by (cases "apply_chain_retry s phase c b")
        (auto simp: progress_chain_def good_step_def recovery_frame_def cap_respected_def
          dest: apply_chain_retry_spec)
  next
    case False
    obtain rc' s' where fo: "fall_over s phase c cur i f (ck_wall ck) rc = (rc', s')" by fastforce
    from fall_over_spec [OF fo] Some False fo show ?thesis
      by (simp add: progress_chain_def good_step_def recovery_frame_def cap_respected_def)
  qed
next
  case None
  show ?thesis
  proof (cases "list_all (\<lambda>a. \<not> controller_is_agent_available rc phase a (ck_check_ms ck a)) (acs_agents c)")
    case True
    obtain rc' s' evt' where w: "wait_for_cooldown s phase c f evt ck rc = (rc', s', evt')"
      using prod_cases3 by blast
    from wait_for_cooldown_spec [OF w] None True w show ?thesis
      by (simp add: progress_chain_def good_step_def recovery_frame_def cap_respected_def)
  next
    case False
    let ?s = "s\<lparr>ps_recovery_cycle_count := ps_recovery_cycle_count s + 1\<rparr>"
    show ?thesis
    proof (cases "enter_phase_failed ?s (cf_reason f) (cf_category f) rc")
      case (Inl e)
      with None False show ?thesis by (simp add: progress_chain_def)
    next
      case (Inr r)
      obtain rc' s' where r: "r = (rc', s')" by fastforce
      from enter_phase_failed_spec [OF Inr [unfolded r]]
      have ef: "same_config rc rc'" "rc_registry rc' = rc_registry rc" "recovery_frame (rc_policy rc) s s'"
        "ps_recovery_cycle_count s' = ps_recovery_cycle_count s + 1"
        "rc_backoff_attempts rc' = rc_backoff_attempts rc"
        by (auto simp: recovery_frame_def recovery_kept_def)
      from None False Inr r have eq: "progress_chain rc ck s f phase c cur spent b evt = exit_if_capped rc' s' f [] evt"
        by (simp add: progress_chain_def)
      show ?thesis
      proof (cases "exit_if_capped rc' s' f [] evt")
        case (Inl e)
        with eq show ?thesis by simp
      next
        case (Inr q)
        obtain rcq sq eq' evtq where q: "q = (rcq, sq, eq', evtq)" by (cases q)
        from exit_if_capped_spec [OF Inr [unfolded q]] ef
        have "good_step rc s q"
          by (auto simp: q good_step_def recovery_frame_def recovery_kept_def cap_respected_def same_config_def
              split: if_splits)
        with eq Inr show ?thesis by simp
      qed
    qed
  qed
qed

lemma progression_spec:
  "result_all (good_step rc s) (handle_retry_progression rc ck s f phase agent b m ub evt)"
proof (cases "chain_for_phase s phase")
  case None
  then show ?thesis
    by (simp add: handle_retry_progression_def good_step_def recovery_frame_def cap_respected_def)
next
  case (Some c)
  obtain rc1 cur spent where n: "note_spent_allowance rc phase agent c m ub = (rc1, cur, spent)"
    using prod_cases3 by blast
  have "good_step rc1 s r \<Longrightarrow> good_step rc s r" for r
    using note_spent_allowance_spec [OF n]
    by (auto simp: good_step_def same_config_def rc_policy_def)
  with Some n progress_chain_spec [of rc1 s ck f phase c cur spent b evt] show ?thesis
    by (auto simp: handle_retry_progression_def intro: result_all_mono)
qed

lemma good_step_capped:
  assumes "good_step rc s (rc1, s1, effs, evt1)"
  shows "result_all (good_step rc s) (exit_if_capped rc1 s1 f effs evt1)"
proof (cases "exit_if_capped rc1 s1 f effs evt1")
  case (Inl e)
  then show ?thesis by simp
next
  case (Inr q)
  obtain rcq sq eq' evtq where q: "q = (rcq, sq, eq', evtq)" by (cases q)
  from exit_if_capped_spec [OF Inr [unfolded q]] assms have "good_step rc s q"
    by (auto simp: q good_step_def recovery_frame_def recovery_kept_def cap_respected_def same_config_def
        split: if_splits)
  with Inr show ?thesis by simp
qed

lemma good_step_failed:
  "result_all (\<lambda>(rc', s'). good_step rc s (rc', s', [], evt)) (enter_phase_failed s reason cat rc)"
  using enter_phase_failed_spec [of s reason cat rc]
  by (cases "enter_phase_failed s reason cat rc")
    (auto simp: good_step_def cap_respected_def)

text \<open>The bookkeeping before the chain is consulted.\<close>

lemma charge_agent_failure_spec:
  assumes "charge_agent_failure rc ck s f phase agent b = (rc', s')"
  shows "same_config rc rc' \<and> recovery_kept s s' \<and> ps_phase s' = ps_phase s \<and> ps_previous_phase s' = ps_previous_phase s
    \<and> ps_recovery_cycle_count s' = ps_recovery_cycle_count s \<and> ps_phase_chains s' = ps_phase_chains s
    \<and> rc_broken_agent_state rc' = rc_broken_agent_state rc
    \<and> rc_registry rc' = (case agent of None \<Rightarrow> rc_registry rc
        | Some a \<Rightarrow> if cf_is_unavailable f then rc_registry rc else registry_debit phase a f (rc_registry rc))
    \<and> rc_tracker rc' = (case agent of None \<Rightarrow> rc_tracker rc
        | Some a \<Rightarrow> if cf_is_unavailable f
             then fst (mark_unavailable phase a (cf_unavailability_reason f) (ck_mark_ms ck) (rc_tracker rc))
             else rc_tracker rc)"
  using assms
  by (cases agent) (auto simp: charge_agent_failure_def Let_def same_config_def recovery_kept_def
      mark_agent_unavailable_def write_session_reset_hint_def split_def split: if_splits)

lemma check_broken_spec:
  "check_broken_agent_same_shape_bound phase agent f chain rc = (rc', msg) \<Longrightarrow>
   same_config rc rc' \<and> rc_registry rc' = rc_registry rc \<and> rc_tracker rc' = rc_tracker rc
   \<and> rc_backoff_attempts rc' = rc_backoff_attempts rc"
  by (auto simp: check_broken_agent_same_shape_bound_def Let_def same_config_def
      split: option.splits if_splits sum.splits)

lemma check_same_shape_spec:
  "check_same_shape_bound phase f s rc = (rc', msg) \<Longrightarrow>
   same_config rc rc' \<and> rc_registry rc' = rc_registry rc \<and> rc_tracker rc' = rc_tracker rc
   \<and> rc_backoff_attempts rc' = rc_backoff_attempts rc"
  by (auto simp: check_same_shape_bound_def Let_def same_config_def
      split: option.splits if_splits sum.splits)

lemma publish_sel [simp]:
  "rc_cap (publish e rc) = rc_cap rc" "rc_policy_bundle (publish e rc) = rc_policy_bundle rc"
  "rc_registry (publish e rc) = rc_registry rc" "rc_tracker (publish e rc) = rc_tracker rc"
  "rc_technical_retry_cap (publish e rc) = rc_technical_retry_cap rc"
  "rc_backoff_attempts (publish e rc) = rc_backoff_attempts rc"
  by (simp_all add: publish_def)

definition charged_registry :: "RecoveryController \<Rightarrow> ClassifiedFailure \<Rightarrow> FailureContext \<Rightarrow> AgentBudgetRegistry" where
  "charged_registry rc f ctx =
     (case fc_agent ctx of
        Some a \<Rightarrow> if cf_category f = AGENT \<and> \<not> cf_is_unavailable f
                  then registry_debit (fc_phase ctx) a f (rc_registry rc) else rc_registry rc
      | None \<Rightarrow> rc_registry rc)"

definition handled_ok :: "RecoveryController \<Rightarrow> PipelineState \<Rightarrow> AgentBudgetRegistry \<Rightarrow>
    RecoveryController \<times> PipelineState \<times> Effect list \<times> FailureEvent \<Rightarrow> bool" where
  "handled_ok rc s reg r \<longleftrightarrow> (case r of (rc', s', effs, evt) \<Rightarrow>
     same_config rc rc' \<and> rc_registry rc' = reg \<and> recovery_frame (rc_policy rc) s s'
     \<and> cap_respected (rc_cap rc) (ps_recovery_cycle_count s) s' effs)"

lemma good_step_handled:
  assumes "result_all (good_step rc1 s1) r" and "same_config rc rc1" and "recovery_kept s s1"
    and "ps_phase s1 = ps_phase s \<and> ps_previous_phase s1 = ps_previous_phase s" and "ps_recovery_cycle_count s1 = ps_recovery_cycle_count s"
  shows "result_all (handled_ok rc s (rc_registry rc1)) r"
proof -
  have "handled_ok rc s (rc_registry rc1) x" if "good_step rc1 s1 x" for x
    using that assms(2-5)
    by (auto simp: good_step_def handled_ok_def same_config_def recovery_frame_def recovery_kept_def
        cap_respected_def rc_policy_def)
  from result_all_mono [OF assms(1) this] show ?thesis .
qed

lemma failed_step:
  "result_all (good_step rc s)
     (bind_r (enter_phase_failed s reason cat rc) (\<lambda>(rc', s'). Inr (rc', s', [], evt)))"
  using good_step_failed [of rc s evt reason cat]
  by (cases "enter_phase_failed s reason cat rc") auto

lemma capped_step:
  "result_all (good_step rc s) (bind_r (handle_retry_progression rc ck s f phase agent b m ub evt)
     (\<lambda>(rc', s', effs, evt'). exit_if_capped rc' s' f effs evt'))"
proof (cases "handle_retry_progression rc ck s f phase agent b m ub evt")
  case (Inl e)
  then show ?thesis by simp
next
  case (Inr r)
  obtain rc' s' effs evt' where r: "r = (rc', s', effs, evt')" by (cases r)
  have "good_step rc s (rc', s', effs, evt')"
    using progression_spec [of rc s ck f phase agent b m ub evt] Inr r by simp
  then show ?thesis using good_step_capped Inr r by simp
qed

lemma handle_agent_category_spec:
  assumes "recovery_kept s s0" "ps_phase s0 = ps_phase s \<and> ps_previous_phase s0 = ps_previous_phase s"
    "ps_recovery_cycle_count s0 = ps_recovery_cycle_count s" and "cf_category f = AGENT"
  shows "result_all (handled_ok rc s (charged_registry rc f ctx)) (handle_agent_category rc ck s s0 f ctx evt)"
proof -
  obtain rc1 s1 where ch: "charge_agent_failure rc ck s0 f (fc_phase ctx) (fc_agent ctx) (fc_retry_in_session ctx)
      = (rc1, s1)" by fastforce
  obtain rc2 broken where br: "check_broken_agent_same_shape_bound (fc_phase ctx) (fc_agent ctx) f
      (chain_for_phase s (fc_phase ctx)) rc1 = (rc2, broken)" by fastforce
  obtain rc3 looped where lo: "(if fc_retry_in_session ctx then check_same_shape_bound (fc_phase ctx) f s rc2
      else (rc2, None)) = (rc3, looped)" by fastforce
  note c1 = charge_agent_failure_spec [OF ch] and c2 = check_broken_spec [OF br]
  have c3: "same_config rc2 rc3 \<and> rc_registry rc3 = rc_registry rc2"
    using lo check_same_shape_spec [of "fc_phase ctx" f s rc2] by (auto split: if_splits)
  have reg: "charged_registry rc f ctx = rc_registry rc2" "charged_registry rc f ctx = rc_registry rc3"
    using c1 c2 c3 assms(4) by (auto simp: charged_registry_def split: option.splits)
  have conf: "same_config rc rc2" "same_config rc rc3"
    using c1 c2 c3 by (auto intro: same_config_trans)
  have kept: "recovery_kept s s1" "ps_phase s1 = ps_phase s \<and> ps_previous_phase s1 = ps_previous_phase s"
    "ps_recovery_cycle_count s1 = ps_recovery_cycle_count s"
    using c1 assms(1-3) by (auto intro: recovery_kept_trans)
  show ?thesis
  proof (cases broken)
    case (Some msg)
    then have "handle_agent_category rc ck s s0 f ctx evt =
        bind_r (enter_phase_failed s1 msg (cf_category f) rc2) (\<lambda>(rc3, s3). Inr (rc3, s3, [], evt))"
      by (simp add: handle_agent_category_def ch br)
    then show ?thesis using good_step_handled [OF failed_step conf(1) kept] reg(1) by simp
  next
    case None
    show ?thesis
    proof (cases looped)
      case (Some msg)
      with None have "handle_agent_category rc ck s s0 f ctx evt =
          bind_r (enter_phase_failed s1 msg (cf_category f) rc3) (\<lambda>(rc4, s4). Inr (rc4, s4, [], evt))"
        by (simp add: handle_agent_category_def ch br lo)
      then show ?thesis using good_step_handled [OF failed_step conf(2) kept] reg(2) by simp
    next
      case None
      with \<open>broken = None\<close> have "handle_agent_category rc ck s s0 f ctx evt =
          bind_r (handle_retry_progression rc3 ck s1 f (fc_phase ctx) (fc_agent ctx) (fc_retry_in_session ctx)
                    (get_max_retries_for_chain rc3 (fc_phase ctx)) True evt)
            (\<lambda>(rc4, s4, effs, evt4). exit_if_capped rc4 s4 f effs evt4)"
        by (simp add: handle_agent_category_def Let_def ch br lo)
      then show ?thesis unfolding reg(2) by (metis good_step_handled [OF capped_step conf(2) kept])
    qed
  qed
qed

lemma handle_spec:
  "result_all (handled_ok rc s (charged_registry rc (handled_failure classify s raw ctx) ctx))
     (handle classify ck rc s raw ctx)"
proof -
  define f where "f = handled_failure classify s raw ctx"
  define evt where "evt = failure_event_for rc ck s f (fc_phase ctx) (fc_agent ctx)"
  define rc0 where "rc0 = publish (PublishedFailure evt) rc"
  define s0 where "s0 = s\<lparr>ps_last_failure_category := Some (category_value (cf_category f)),
    ps_last_retry_delay_ms := fe_retry_delay_ms evt, ps_is_waiting_state := False\<rparr>"
  note defs = f_def [symmetric] evt_def [symmetric] rc0_def [symmetric] s0_def [symmetric]
  have conf: "same_config rc rc0" "rc_registry rc0 = rc_registry rc"
    and kept: "recovery_kept s s0" "ps_phase s0 = ps_phase s \<and> ps_previous_phase s0 = ps_previous_phase s"
      "ps_recovery_cycle_count s0 = ps_recovery_cycle_count s"
    by (simp_all add: rc0_def s0_def same_config_def recovery_kept_def)
  have uncharged: "charged_registry rc f ctx = rc_registry rc0" if "cf_category f \<noteq> AGENT"
    using that by (simp add: charged_registry_def conf split: option.splits)
  have eq: "handle classify ck rc s raw ctx =
      (if technical (cf_category f) then
         handle_retry_progression rc0 ck (s0\<lparr>ps_last_error := Some (cf_reason f)\<rparr>) f (fc_phase ctx)
           (fc_agent ctx) (fc_retry_in_session ctx) (rc_technical_retry_cap rc0) False evt
       else if cf_category f = USER_CONFIG then
         bind_r (enter_phase_failed s0 (cf_reason f) (cf_category f) rc0) (\<lambda>(rc1, s1). Inr (rc1, s1, [], evt))
       else handle_agent_category rc0 ck s s0 f ctx evt)"
    unfolding handle_def Let_def defs by (rule refl)
  consider "technical (cf_category f)" "cf_category f \<noteq> AGENT" | "\<not> technical (cf_category f)" "cf_category f = USER_CONFIG"
    | "\<not> technical (cf_category f)" "cf_category f = AGENT"
    by (cases "cf_category f") (simp_all add: technical_def)
  then show ?thesis
  proof cases
    case 1
    let ?s = "s0\<lparr>ps_last_error := Some (cf_reason f)\<rparr>"
    have "recovery_kept s ?s" "ps_phase ?s = ps_phase s \<and> ps_previous_phase ?s = ps_previous_phase s" "ps_recovery_cycle_count ?s = ps_recovery_cycle_count s"
      using kept by (simp_all add: recovery_kept_def)
    from good_step_handled [OF progression_spec conf(1) this] 1(1) uncharged [OF 1(2)] show ?thesis
      by (simp only: eq defs if_True)
  next
    case 2
    then have "handle classify ck rc s raw ctx =
        bind_r (enter_phase_failed s0 (cf_reason f) (cf_category f) rc0) (\<lambda>(rc1, s1). Inr (rc1, s1, [], evt))"
      by (simp only: eq if_False if_True simp_thms)
    moreover have "charged_registry rc f ctx = rc_registry rc0" using 2 uncharged by simp
    ultimately show ?thesis unfolding defs by (metis good_step_handled [OF failed_step conf(1) kept])
  next
    case 3
    have "charged_registry rc0 f ctx = charged_registry rc f ctx"
      by (cases "fc_agent ctx") (simp_all add: charged_registry_def conf(2))
    moreover have "handled_ok rc0 s reg r \<Longrightarrow> handled_ok rc s reg r" for reg r
      using conf(1) by (auto simp: handled_ok_def same_config_def rc_policy_def)
    ultimately have "result_all (handled_ok rc s (charged_registry rc f ctx)) (handle_agent_category rc0 ck s s0 f ctx evt)"
      using handle_agent_category_spec [OF kept 3(2), of rc0 ctx ck evt] by (metis result_all_mono)
    with 3 show ?thesis by (simp add: eq defs)
  qed
qed

section \<open>Guarantees\<close>

text \<open>
  C8. One recovery step, whatever the failure: the run stays in its phase or moves to the policy's failed
  route and nowhere else; loop counters, budget progress, work units, worker table, verdict and cycle
  timer (whether it runs, the seconds it consumed, its redirects) are untouched; the recovery cycle count grows by at
  most one; when it grows to the cap or beyond, the run is told to exit; below the cap it never is, and a step that
  leaves a count at or beyond the cap unchanged may or may not tell it to.
\<close>

theorem recovery_step_bounded:
  assumes "handle classify ck rc s raw ctx = Inr (rc', s', effs, evt)"
  shows "recovery_frame (rc_policy rc) s s'
    \<and> (ps_recovery_cycle_count s' = ps_recovery_cycle_count s
       \<or> ps_recovery_cycle_count s' = ps_recovery_cycle_count s + 1)
    \<and> (ps_recovery_cycle_count s' = ps_recovery_cycle_count s + 1 \<and> rc_cap rc \<le> ps_recovery_cycle_count s'
         \<longrightarrow> (\<exists>r. effs = [ExitFailureEffect r]))
    \<and> (ps_recovery_cycle_count s' < rc_cap rc \<longrightarrow> effs = [])"
  using handle_spec [of rc s classify raw ctx ck] assms
  by (auto simp: handled_ok_def cap_respected_def)

text \<open>
  Attribution: only a failure classified as the agent's own, of an agent that is not merely
  unavailable, can consume retry budget, it consumes it only of the (phase, agent) pair it is
  attributed to, and only if it counts. Environmental, validation, ambiguous and configuration
  failures leave every budget as it was.
\<close>

theorem budget_charged_to_the_failing_agent_only:
  assumes "handle classify ck rc s raw ctx = Inr (rc', s', effs, evt)"
    and "registry_get (rc_registry rc') ph a \<noteq> registry_get (rc_registry rc) ph a"
  defines "f \<equiv> handled_failure classify s raw ctx"
  shows "cf_category f = AGENT \<and> cf_counts_against_budget f \<and> \<not> cf_is_unavailable f
    \<and> ph = fc_phase ctx \<and> Some a = fc_agent ctx"
proof -
  from handle_spec [of rc s classify raw ctx ck] assms(1)
  have reg: "rc_registry rc' = charged_registry rc f ctx" by (simp add: handled_ok_def f_def)
  with assms(2) obtain b where b: "fc_agent ctx = Some b" "cf_category f = AGENT" "\<not> cf_is_unavailable f"
    and ne: "registry_get (registry_debit (fc_phase ctx) b f (rc_registry rc)) ph a \<noteq> registry_get (rc_registry rc) ph a"
    by (auto simp: charged_registry_def split: option.splits if_splits)
  from ne registry_debit_other [of "fc_phase ctx" b ph a f "rc_registry rc"]
  have "(fc_phase ctx, b) = (ph, a)" by blast
  moreover from ne have "cf_counts_against_budget f"
    by (cases "cf_counts_against_budget f") (simp_all add: registry_debit_def)
  ultimately show ?thesis using b by simp
qed

subsection \<open>Selection inside the controller\<close>

lemma snapshot_lookup:
  "dict_get (snapshot_timeouts t) key = map_option ue_unavailable_until_ms (dict_get (ut_entries t) key)"
proof -
  have "map_of (map (\<lambda>(k, e). (k, ue_unavailable_until_ms e)) xs) key
      = map_option ue_unavailable_until_ms (map_of xs key)" for xs
    by (induction xs) auto
  then show ?thesis by (simp add: snapshot_timeouts_def)
qed

lemma availability_row_selectable:
  "selectable (availability_row rc phase cur spent now (i, a)) \<longleftrightarrow>
     is_available phase a now (rc_tracker rc) \<and> a \<notin> set (spent_of rc phase)
     \<and> \<not> (Some i = cur \<and> spent)"
  by (auto simp: selectable_def availability_row_def controller_is_agent_available_def is_available_def
      snapshot_lookup split: option.splits)

text \<open>
  The row of an agent whose availability is asked later than its cooldown is read: selectable in the same cases as with
  one reading.
\<close>

lemma selection_reads_once:
  assumes "now \<le> asked"
  shows "is_available phase a asked (rc_tracker rc)
      \<and> (case dict_get (snapshot_timeouts (rc_tracker rc)) (agent_key phase a) of None \<Rightarrow> 0 | Some t \<Rightarrow> max 0 (t - now)) \<le> 0
    \<longleftrightarrow> is_available phase a now (rc_tracker rc)"
  using assms by (auto simp: is_available_def snapshot_lookup split: option.splits)

lemma preferred_index_None:
  "sel_index (preferred_agent_index rc phase agents cur spent now) = None \<longleftrightarrow>
     (\<forall>i < length agents. \<not> (is_available phase (agents ! i) now (rc_tracker rc)
        \<and> agents ! i \<notin> set (spent_of rc phase) \<and> \<not> (Some i = cur \<and> spent)))"
  unfolding preferred_agent_index_def select_index_None
  by (fastforce simp: availability_row_selectable set_zip)

lemma preferred_index_Some:
  "sel_index (preferred_agent_index rc phase agents cur spent now) = Some i \<longleftrightarrow>
     i < length agents \<and> is_available phase (agents ! i) now (rc_tracker rc)
     \<and> agents ! i \<notin> set (spent_of rc phase) \<and> \<not> (Some i = cur \<and> spent)
     \<and> (\<forall>j < i. \<not> (is_available phase (agents ! j) now (rc_tracker rc)
          \<and> agents ! j \<notin> set (spent_of rc phase) \<and> \<not> (Some j = cur \<and> spent)))"
  unfolding preferred_agent_index_def select_index_Some
  by (auto simp: availability_row_selectable)

lemma wait_branch:
  assumes "chain_for_phase s phase = Some c"
    and "\<forall>a \<in> set (acs_agents c). \<not> is_available phase a (ck_select_ms ck) (rc_tracker rc)"
    and "\<forall>a \<in> set (acs_agents c). \<not> is_available phase a (ck_check_ms ck a) (rc_tracker rc)"
    and "\<forall>a \<in> set (acs_agents c). \<not> is_available phase a (ck_recheck_ms ck a) (rc_tracker rc)"
  obtains rc' s' evt' where
    "handle_retry_progression rc ck s f phase agent b m ub evt = Inr (rc', s', [], evt')"
    and "recovery_kept s s'" "ps_phase s' = ps_phase s" "ps_is_waiting_state s'"
    and "ps_recovery_cycle_count s' = ps_recovery_cycle_count s"
    and "ps_last_retry_delay_ms s' = earliest_unavailable_wait_ms phase (acs_agents c) (ck_wait_ms ck) (rc_tracker rc)"
    and "rc_cap rc' = rc_cap rc"
proof -
  obtain rc1 cur spent where n: "note_spent_allowance rc phase agent c m ub = (rc1, cur, spent)"
    using prod_cases3 by blast
  note n_spec = note_spent_allowance_spec [OF n]
  obtain rc' s' evt' where w: "wait_for_cooldown s phase c f evt ck rc1 = (rc', s', evt')"
    using prod_cases3 by blast
  note w_spec = wait_for_cooldown_spec [OF w]
  have "sel_index (preferred_agent_index rc1 phase (acs_agents c) (Some (acs_current_index c)) spent
      (ck_select_ms ck)) = None"
    using assms(2) n_spec by (auto simp: preferred_index_None)
  moreover have "list_all (\<lambda>a. \<not> controller_is_agent_available rc1 phase a (ck_check_ms ck a)) (acs_agents c)"
    using assms(3) n_spec by (auto simp: list_all_iff controller_is_agent_available_def)
  ultimately have "handle_retry_progression rc ck s f phase agent b m ub evt = Inr (rc', s', [], evt')"
    by (simp add: handle_retry_progression_def assms(1) n progress_chain_def w)
  moreover have "earliest_available_wait_ms rc1 phase (acs_agents c) (ck_recheck_ms ck) (ck_wait_ms ck)
      = earliest_unavailable_wait_ms phase (acs_agents c) (ck_wait_ms ck) (rc_tracker rc)"
    using assms(4) n_spec
    by (auto simp: earliest_available_wait_ms_def controller_is_agent_available_def list_ex_iff)
  ultimately show ?thesis using that w_spec n_spec by (auto simp: same_config_def)
qed

text \<open>
  Never exit for unavailability. When an agent failure marks its agent unavailable and every other
  agent of the chain is already on cooldown, then (below the recovery cap, for a failure that is not
  the repeated broken failure of a sole agent and not an in-session retry) the controller keeps the
  phase, emits no exit, does not count a recovery cycle, raises the wait flag, and the wait it asks
  for is positive and ends with some agent of the chain available again. The clock is read several times in the
  step: its readings come after the mark, within the base back-off, and before a cooldown of another agent ends.
\<close>

definition later_reads :: "ClockSamples \<Rightarrow> string \<Rightarrow> int set" where
  "later_reads ck a = {ck_select_ms ck, ck_check_ms ck a, ck_recheck_ms ck a, ck_wait_ms ck}"

theorem never_exit_for_unavailability:
  assumes "handled_failure classify s raw ctx = f" and "cf_category f = AGENT" and "cf_is_unavailable f"
    and "fc_agent ctx = Some a" and "chain_for_phase s (fc_phase ctx) = Some c" and "a \<in> set (acs_agents c)"
    and "\<forall>b \<in> set (acs_agents c). \<forall>n \<in> later_reads ck b. ck_mark_ms ck \<le> n
      \<and> (if b = a then n < ck_mark_ms ck + base_backoff_ms (backoff_policy_for (rc_tracker rc) (cf_unavailability_reason f))
         else \<not> is_available (fc_phase ctx) b n (rc_tracker rc))"
    and "backoff_policy_valid (backoff_policy_for (rc_tracker rc) (cf_unavailability_reason f))"
    and "distinct_entries (rc_tracker rc)"
    and "broken_agent_reason f = None \<or> length (acs_agents c) \<noteq> 1" and "\<not> fc_retry_in_session ctx"
    and "ps_recovery_cycle_count s < rc_cap rc"
  shows "\<exists>rc' s' evt'. handle classify ck rc s raw ctx = Inr (rc', s', [], evt')
    \<and> ps_phase s' = ps_phase s \<and> ps_is_waiting_state s'
    \<and> ps_recovery_cycle_count s' = ps_recovery_cycle_count s
    \<and> 0 < ps_last_retry_delay_ms s'
    \<and> (\<exists>b \<in> set (acs_agents c). is_available (fc_phase ctx) b (ck_wait_ms ck + ps_last_retry_delay_ms s')
         (fst (mark_unavailable (fc_phase ctx) a (cf_unavailability_reason f) (ck_mark_ms ck) (rc_tracker rc))))"
proof -
  define evt where "evt = failure_event_for rc ck s f (fc_phase ctx) (fc_agent ctx)"
  define rc0 where "rc0 = publish (PublishedFailure evt) rc"
  define s0 where "s0 = s\<lparr>ps_last_failure_category := Some (category_value (cf_category f)),
    ps_last_retry_delay_ms := fe_retry_delay_ms evt, ps_is_waiting_state := False\<rparr>"
  let ?t = "fst (mark_unavailable (fc_phase ctx) a (cf_unavailability_reason f) (ck_mark_ms ck) (rc_tracker rc))"
  obtain rc1 s1 where ch: "charge_agent_failure rc0 ck s0 f (fc_phase ctx) (fc_agent ctx) (fc_retry_in_session ctx)
      = (rc1, s1)" by fastforce
  note c1 = charge_agent_failure_spec [OF ch]
  have tr: "rc_tracker rc1 = ?t" and cap1: "rc_cap rc1 = rc_cap rc"
    using c1 assms(3,4) by (simp_all add: rc0_def same_config_def)
  have chain1: "chain_for_phase s1 (fc_phase ctx) = Some c"
    using c1 assms(5) by (simp add: chain_for_phase_def s0_def)
  have others: "\<not> is_available (fc_phase ctx) b n ?t" if "b \<in> set (acs_agents c)" "n \<in> later_reads ck b" for b n
    using that assms(7) is_available_mark_other [OF assms(9), of a b "ck_mark_ms ck" n "fc_phase ctx"]
      marked_unavailable [OF assms(9,8)]
    by (cases "b = a") auto
  have broken: "check_broken_agent_same_shape_bound (fc_phase ctx) (fc_agent ctx) f
      (chain_for_phase s (fc_phase ctx)) rc1 = (rc1, None)"
    using assms(4,5,10) by (auto simp: check_broken_agent_same_shape_bound_def split: option.splits)
  obtain rc' s' evt' where prog: "handle_retry_progression rc1 ck s1 f (fc_phase ctx) (fc_agent ctx) False
      (get_max_retries_for_chain rc1 (fc_phase ctx)) True evt = Inr (rc', s', [], evt')"
    and post: "ps_phase s' = ps_phase s1" "ps_is_waiting_state s'"
      "ps_recovery_cycle_count s' = ps_recovery_cycle_count s1"
      "ps_last_retry_delay_ms s' = earliest_unavailable_wait_ms (fc_phase ctx) (acs_agents c) (ck_wait_ms ck) ?t"
      "rc_cap rc' = rc_cap rc1"
  proof -
    have "\<forall>b \<in> set (acs_agents c). \<not> is_available (fc_phase ctx) b (ck_select_ms ck) (rc_tracker rc1)"
      "\<forall>b \<in> set (acs_agents c). \<not> is_available (fc_phase ctx) b (ck_check_ms ck b) (rc_tracker rc1)"
      "\<forall>b \<in> set (acs_agents c). \<not> is_available (fc_phase ctx) b (ck_recheck_ms ck b) (rc_tracker rc1)"
      using others by (simp_all add: tr later_reads_def)
    from wait_branch [OF chain1 this] show thesis using that unfolding tr by metis
  qed
  have "ps_phase s' = ps_phase s" "ps_recovery_cycle_count s' = ps_recovery_cycle_count s"
    using post c1 by (simp_all add: s0_def)
  moreover have "handle classify ck rc s raw ctx = Inr (rc', s', [], evt')"
  proof -
    have "handle classify ck rc s raw ctx = handle_agent_category rc0 ck s s0 f ctx evt"
      using assms(1,2) by (simp add: handle_def Let_def technical_def evt_def rc0_def s0_def)
    also have "\<dots> = exit_if_capped rc' s' f [] evt'"
      using assms(11) prog ch by (simp add: handle_agent_category_def Let_def broken)
    also have "\<dots> = Inr (rc', s', [], evt')"
      using assms(12) post cap1 calculation c1
      by (simp add: exit_if_capped_def cap_is_exceeded_def s0_def)
    finally show ?thesis .
  qed
  moreover have "acs_agents c \<noteq> []" using assms(6) by auto
  moreover have "\<forall>b \<in> set (acs_agents c). \<not> is_available (fc_phase ctx) b (ck_wait_ms ck) ?t"
    using others by (simp add: later_reads_def)
  ultimately show ?thesis
    using post earliest_wait_correct [of "acs_agents c" "fc_phase ctx" "ck_wait_ms ck" ?t] by auto
qed

section \<open>Which agent comes next\<close>

text \<open>An agent a chain may be handed to: off cooldown, allowance not spent.\<close>

definition usable :: "RecoveryController \<Rightarrow> string \<Rightarrow> AgentChainState \<Rightarrow> bool \<Rightarrow> int \<Rightarrow> nat \<Rightarrow> bool" where
  "usable rc phase c spent now i \<longleftrightarrow>
     i < length (acs_agents c) \<and> is_available phase (acs_agents c ! i) now (rc_tracker rc)
     \<and> acs_agents c ! i \<notin> set (spent_of rc phase) \<and> \<not> (i = acs_current_index c \<and> spent)"

definition moved_chain :: "AgentChainState \<Rightarrow> nat \<Rightarrow> AgentChainState" where
  "moved_chain c i = \<lparr>acs_agents = acs_agents c, acs_current_index = i,
     acs_retries = (if i = acs_current_index c then acs_retries c + 1 else 0)\<rparr>"

lemma preferred_usable:
  "sel_index (preferred_agent_index rc phase (acs_agents c) (Some (acs_current_index c)) spent now) = Some i
     \<longleftrightarrow> usable rc phase c spent now i \<and> (\<forall>j < i. \<not> usable rc phase c spent now j)"
  "sel_index (preferred_agent_index rc phase (acs_agents c) (Some (acs_current_index c)) spent now) = None
     \<longleftrightarrow> (\<nexists>i. usable rc phase c spent now i)"
  by (auto simp: preferred_index_Some preferred_index_None usable_def)

text \<open>
  C18. The next agent after a failure. When the chain still has a usable agent, the controller moves to
  the first such agent in chain order, keeps the phase and emits nothing; staying with the same agent
  counts one retry, moving restarts the retry count. Otherwise, if every agent is on cooldown it
  waits in the phase; if some agent is available but spent, the phase fails to the failed route and
  one recovery cycle is counted.
\<close>

theorem next_agent_is_first_usable:
  assumes chain: "chain_for_phase s phase = Some c"
    and noted: "note_spent_allowance rc phase agent c m ub = (rc1, cur, spent)"
    and step: "handle_retry_progression rc ck s f phase agent b m ub evt = Inr (rc', s', effs, evt')"
  shows "if \<exists>i. usable rc1 phase c spent (ck_select_ms ck) i
    then \<exists>i. usable rc1 phase c spent (ck_select_ms ck) i \<and> (\<forall>j < i. \<not> usable rc1 phase c spent (ck_select_ms ck) j)
        \<and> chain_for_phase s' phase = Some (moved_chain c i) \<and> ps_phase s' = ps_phase s \<and> effs = []
    else if \<forall>a \<in> set (acs_agents c). \<not> is_available phase a (ck_check_ms ck a) (rc_tracker rc)
    then ps_is_waiting_state s' \<and> ps_phase s' = ps_phase s
        \<and> ps_recovery_cycle_count s' = ps_recovery_cycle_count s \<and> effs = []
    else Some (ps_phase s') = map_option failed_route (rc_policy rc)
        \<and> ps_recovery_cycle_count s' = ps_recovery_cycle_count s + 1"
proof -
  let ?now = "ck_select_ms ck"
  have p: "progress_chain rc1 ck s f phase c cur spent b evt = Inr (rc', s', effs, evt')"
    using step chain noted by (simp add: handle_retry_progression_def)
  have same: "rc_tracker rc1 = rc_tracker rc" "rc_policy rc1 = rc_policy rc" "rc_policy_bundle rc1 = rc_policy_bundle rc"
    using note_spent_allowance_spec [OF noted] by (auto simp: same_config_def rc_policy_def)
  show ?thesis
  proof (cases "sel_index (preferred_agent_index rc1 phase (acs_agents c) (Some (acs_current_index c)) spent ?now)")
    case (Some i)
    have i: "usable rc1 phase c spent ?now i" "\<forall>j < i. \<not> usable rc1 phase c spent ?now j"
      using Some unfolding preferred_usable by blast+
    have "chain_for_phase s' phase = Some (moved_chain c i) \<and> ps_phase s' = ps_phase s \<and> effs = []"
    proof (cases "i = acs_current_index c")
      case True
      with p Some obtain s'' where "apply_chain_retry s phase c b = Inr s''" "s' = s''" "effs = []"
        by (auto simp: progress_chain_def bind_r_eq_Inr)
      with apply_chain_retry_spec True show ?thesis
        by (auto simp: moved_chain_def chain_with_retry_increment_def)
    next
      case False
      with p Some have "fall_over s phase c cur i f (ck_wall ck) rc1 = (rc', s')" "effs = []"
        by (auto simp: progress_chain_def split: prod.splits)
      with fall_over_spec False show ?thesis by (auto simp: moved_chain_def)
    qed
    with i show ?thesis by auto
  next
    case None
    then have none: "\<nexists>i. usable rc1 phase c spent ?now i" unfolding preferred_usable .
    show ?thesis
    proof (cases "\<forall>a \<in> set (acs_agents c). \<not> is_available phase a (ck_check_ms ck a) (rc_tracker rc)")
      case True
      with p None have "wait_for_cooldown s phase c f evt ck rc1 = (rc', s', evt')" "effs = []"
        by (auto simp: progress_chain_def controller_is_agent_available_def list_all_iff same split: prod.splits)
      with wait_for_cooldown_spec none True show ?thesis by auto
    next
      case False
      with p None obtain rc2 s2 where e: "enter_phase_failed (s\<lparr>ps_recovery_cycle_count := ps_recovery_cycle_count s + 1\<rparr>)
          (cf_reason f) (cf_category f) rc1 = Inr (rc2, s2)"
        and x: "exit_if_capped rc2 s2 f [] evt = Inr (rc', s', effs, evt')"
        by (auto simp: progress_chain_def controller_is_agent_available_def list_all_iff same bind_r_eq_Inr)
      from exit_if_capped_spec [OF x] enter_phase_failed_spec [OF e] e none False show ?thesis
        by (auto simp: enter_phase_failed_def rc_policy_def same split: option.splits)
    qed
  qed
qed

section \<open>Errors\<close>

text \<open>
  The one way a controller that has a policy can raise: the cap is reached and the exit reason it
  builds is one the exit effect refuses.
\<close>

definition refused_exit :: "int \<Rightarrow> int \<Rightarrow> ClassifiedFailure \<Rightarrow> bool" where
  "refused_exit cap n f \<longleftrightarrow> cap \<le> n \<and>
     contains_forbidden_sentinel (cap_exit_reason cap n (category_value (cf_category f))
       (take 200 (cf_reason f))) \<noteq> None"

definition only_refused :: "int \<Rightarrow> int \<Rightarrow> ClassifiedFailure \<Rightarrow> py_error \<Rightarrow> bool" where
  "only_refused cap n f e \<longleftrightarrow>
     (\<exists>m. e = ValueError m) \<and> (refused_exit cap n f \<or> refused_exit cap (n + 1) f)"

lemma cap_reason_descriptive: "str_strip (cap_exit_reason cap n cat r) \<noteq> []"
  by (rule strip_nonempty [of "CHR ''r''"]) (simp_all add: cap_exit_reason_def is_space_def Let_def)

lemma exit_if_capped_error:
  "exit_if_capped rc s f effs evt = Inl e \<Longrightarrow>
     (\<exists>m. e = ValueError m) \<and> refused_exit (rc_cap rc) (ps_recovery_cycle_count s) f"
  by (auto simp: exit_if_capped_def cap_is_exceeded_def refused_exit_def bind_r_eq_Inl
      build_exit_failure_effect_def cap_reason_descriptive split: if_splits option.splits)

lemma enter_phase_failed_returns:
  "rc_policy_bundle rc \<noteq> None \<Longrightarrow> enter_phase_failed s reason cat rc \<noteq> Inl e"
  by (auto simp: enter_phase_failed_def)

lemma progress_chain_error:
  assumes "progress_chain rc ck s f phase c cur spent b evt = Inl e" and "rc_policy_bundle rc \<noteq> None"
  shows "(\<exists>m. e = ValueError m) \<and> refused_exit (rc_cap rc) (ps_recovery_cycle_count s + 1) f"
proof -
  let ?s = "s\<lparr>ps_recovery_cycle_count := ps_recovery_cycle_count s + 1\<rparr>"
  have "apply_chain_retry s phase c b \<noteq> Inl e"
    using apply_chain_retry_returns [of s phase c b] by (auto simp: returns_def)
  with assms obtain rc' s' where
      "enter_phase_failed ?s (cf_reason f) (cf_category f) rc = Inr (rc', s')"
    and "exit_if_capped rc' s' f [] evt = Inl e"
    using enter_phase_failed_returns [OF assms(2)]
    by (auto simp: progress_chain_def bind_r_eq_Inl Let_def split: option.splits if_splits prod.splits)
  then show ?thesis
    using exit_if_capped_error enter_phase_failed_spec by (fastforce simp: same_config_def)
qed

lemma progression_error:
  assumes "handle_retry_progression rc ck s f phase agent b m ub evt = Inl e" and "rc_policy_bundle rc \<noteq> None"
  shows "only_refused (rc_cap rc) (ps_recovery_cycle_count s) f e"
proof -
  from assms(1) obtain c rc1 cur spent where
      n: "note_spent_allowance rc phase agent c m ub = (rc1, cur, spent)"
    and p: "progress_chain rc1 ck s f phase c cur spent b evt = Inl e"
    by (auto simp: handle_retry_progression_def split: option.splits prod.splits)
  from note_spent_allowance_spec [OF n] assms(2) progress_chain_error [OF p] show ?thesis
    by (auto simp: same_config_def only_refused_def)
qed

lemma agent_category_error:
  assumes "handle_agent_category rc ck s s0 f ctx evt = Inl e" and "rc_policy_bundle rc \<noteq> None"
  shows "only_refused (rc_cap rc) (ps_recovery_cycle_count s0) f e"
proof -
  obtain rc1 s1 where ch: "charge_agent_failure rc ck s0 f (fc_phase ctx) (fc_agent ctx) (fc_retry_in_session ctx)
      = (rc1, s1)" by fastforce
  obtain rc2 broken where br: "check_broken_agent_same_shape_bound (fc_phase ctx) (fc_agent ctx) f
      (chain_for_phase s (fc_phase ctx)) rc1 = (rc2, broken)" by fastforce
  obtain rc3 looped where lo: "(if fc_retry_in_session ctx then check_same_shape_bound (fc_phase ctx) f s rc2
      else (rc2, None)) = (rc3, looped)" by fastforce
  have c1: "same_config rc rc1" "ps_recovery_cycle_count s1 = ps_recovery_cycle_count s0"
    using charge_agent_failure_spec [OF ch] by auto
  have c3: "same_config rc2 rc3"
    using lo check_same_shape_spec [of "fc_phase ctx" f s rc2] by (auto split: if_splits)
  have cfg: "rc_policy_bundle rc2 \<noteq> None" "rc_policy_bundle rc3 \<noteq> None" "rc_cap rc3 = rc_cap rc"
    using c1 check_broken_spec [OF br] c3 assms(2) by (auto simp: same_config_def)
  let ?p = "handle_retry_progression rc3 ck s1 f (fc_phase ctx) (fc_agent ctx) (fc_retry_in_session ctx)
      (get_max_retries_for_chain rc3 (fc_phase ctx)) True evt"
  have "?p = Inl e \<or> (\<exists>rc4 s4 effs evt4. ?p = Inr (rc4, s4, effs, evt4) \<and> exit_if_capped rc4 s4 f effs evt4 = Inl e)"
    using assms(1) enter_phase_failed_returns [OF cfg(1)] enter_phase_failed_returns [OF cfg(2)]
    by (auto simp: handle_agent_category_def Let_def ch br lo bind_r_eq_Inl split: option.splits prod.splits)
  then show ?thesis
  proof (elim disjE exE conjE)
    assume "?p = Inl e"
    from progression_error [OF this cfg(2)] c1 cfg(3) show ?thesis by simp
  next
    fix rc4 s4 effs evt4
    assume p: "?p = Inr (rc4, s4, effs, evt4)" and x: "exit_if_capped rc4 s4 f effs evt4 = Inl e"
    have "good_step rc3 s1 (rc4, s4, effs, evt4)"
      using progression_spec [of rc3 s1 ck f "fc_phase ctx" "fc_agent ctx" "fc_retry_in_session ctx"] p
      by (metis result_allD)
    with exit_if_capped_error [OF x] c1 cfg(3) show ?thesis
      by (auto simp: good_step_def same_config_def cap_respected_def only_refused_def)
  qed
qed

lemma recovery_error:
  assumes "rc_policy_bundle rc \<noteq> None" and "handle classify ck rc s raw ctx = Inl e"
  shows "only_refused (rc_cap rc) (ps_recovery_cycle_count s) (handled_failure classify s raw ctx) e"
proof -
  define f where "f = handled_failure classify s raw ctx"
  define evt where "evt = failure_event_for rc ck s f (fc_phase ctx) (fc_agent ctx)"
  define rc0 where "rc0 = publish (PublishedFailure evt) rc"
  define s0 where "s0 = s\<lparr>ps_last_failure_category := Some (category_value (cf_category f)),
    ps_last_retry_delay_ms := fe_retry_delay_ms evt, ps_is_waiting_state := False\<rparr>"
  note defs = f_def [symmetric] evt_def [symmetric] rc0_def [symmetric] s0_def [symmetric]
  have b: "rc_policy_bundle rc0 \<noteq> None" "rc_cap rc0 = rc_cap rc" using assms(1) by (simp_all add: rc0_def)
  have "handle_retry_progression rc0 ck (s0\<lparr>ps_last_error := Some (cf_reason f)\<rparr>) f (fc_phase ctx)
        (fc_agent ctx) (fc_retry_in_session ctx) (rc_technical_retry_cap rc0) False evt = Inl e
    \<or> handle_agent_category rc0 ck s s0 f ctx evt = Inl e"
    using assms(2) enter_phase_failed_returns [OF b(1)] unfolding handle_def Let_def defs
    by (auto simp: bind_r_eq_Inl split: if_splits)
  then show ?thesis
    unfolding f_def [symmetric]
    using progression_error [OF _ b(1)] agent_category_error [OF _ b(1)] b(2)
    by (fastforce simp: s0_def)
qed

text \<open>
  C31. Recovery does not raise: a controller that was given a policy handles every failure, except when
  the recovery cap is reached and the failure's own text makes the exit reason one that the exit
  effect refuses; the exception is then a ValueError.
\<close>

theorem recovery_raises_only_on_refused_exit:
  assumes "rc_policy_bundle rc \<noteq> None" and "handle classify ck rc s raw ctx = Inl e"
  defines "f \<equiv> handled_failure classify s raw ctx"
  shows "\<exists>m. e = ValueError m \<and> rc_cap rc \<le> ps_recovery_cycle_count s + 1
    \<and> (\<exists>n \<in> {ps_recovery_cycle_count s, ps_recovery_cycle_count s + 1}.
         contains_forbidden_sentinel (cap_exit_reason (rc_cap rc) n (category_value (cf_category f))
           (take 200 (cf_reason f))) \<noteq> None)"
  using recovery_error [OF assms(1,2)] by (auto simp: only_refused_def refused_exit_def f_def)

section \<open>Concrete runs\<close>

text \<open>
  The bundled policy with one two-agent chain for the development drain, and a run in development.
\<close>

definition demo_bundle :: "string list \<Rightarrow> PolicyBundle" where
  "demo_bundle agents =
     \<lparr>pb_agents = \<lparr>ap_agent_chains = [(''dev'', \<lparr>acc_agents = agents, acc_max_retries = 2,
                                               acc_retry_delay_ms = 1000\<rparr>)],
                   ap_agent_drains = [(''development'', \<lparr>adc_chain = ''dev'', adc_drain_class = None,
                                                         adc_capability_class = None\<rparr>)],
                   ap_forbid_sibling_drain_inference = True\<rparr>,
      pb_pipeline = default_policy\<rparr>"

definition demo_controller :: "int \<Rightarrow> string list \<Rightarrow> RecoveryController" where
  "demo_controller cap agents =
     (case new_controller cap (Some (demo_bundle agents)) (seed_budget_registry (demo_bundle agents)) []
             10 3 2 (new_tracker None [] []) of Inr rc \<Rightarrow> rc)"

definition demo_run :: "string list \<Rightarrow> PipelineState" where
  "demo_run agents = with_phase_chain ''development''
     \<lparr>acs_agents = agents, acs_current_index = 0, acs_retries = 0\<rparr>
     ((from_policy default_policy)\<lparr>ps_phase := ''development''\<rparr>)"

definition demo_failure :: "FailureCategory \<Rightarrow> string \<Rightarrow> UnavailabilityReason option \<Rightarrow> ClassifiedFailure" where
  "demo_failure cat reason unavailable =
     \<lparr>cf_category = cat, cf_reason = reason, cf_attributed_agent = Some ''claude'',
      cf_attributed_phase = ''development'', cf_counts_against_budget = (unavailable = None),
      cf_original_exception = None, cf_raw_message = reason, cf_reset_session = False,
      cf_reset_tool_registry = False, cf_is_unavailable = (unavailable \<noteq> None),
      cf_watchdog_reason = None, cf_unavailability_reason = unavailable, cf_resumable_session_id = None\<rparr>"

definition demo_context :: "ClassifiedFailure \<Rightarrow> FailureContext" where
  "demo_context f = \<lparr>fc_phase = ''development'', fc_agent = Some ''claude'', fc_retry_in_session = False,
                     fc_classified_failure = Some f\<rparr>"

definition demo_clock :: ClockSamples where
  "demo_clock = \<lparr>ck_wall = 0, ck_mark_ms = 5000, ck_select_ms = 5000,
     ck_check_ms = (\<lambda>_. 5001), ck_recheck_ms = (\<lambda>_. 5001), ck_wait_ms = 5002\<rparr>"

definition demo_handle :: "RecoveryController \<Rightarrow> PipelineState \<Rightarrow> ClassifiedFailure \<Rightarrow> handled" where
  "demo_handle rc s f = handle (\<lambda>raw ph a c. f) demo_clock rc s (RawMessage (cf_reason f)) (demo_context f)"

lemma demo_handled_failure [simp]: "handled_failure classify s raw (demo_context f) = f"
  by (simp add: handled_failure_def demo_context_def)

text \<open>
  A run one cycle below a cap of 1, both agents' allowances spent: the next agent failure fails the
  phase, counts the cycle and exits.
\<close>

definition spent_controller :: "RecoveryController" where
  "spent_controller =
     note_retry_exhaustion ''development'' ''codex''
       (note_retry_exhaustion ''development'' ''claude'' (demo_controller 1 [''claude'', ''codex'']))"

theorem recovery_step_bounded_witness:
  "\<exists>rc' s' effs evt. demo_handle spent_controller (demo_run [''claude'', ''codex''])
        (demo_failure AGENT ''boom'' None) = Inr (rc', s', effs, evt)
     \<and> ps_recovery_cycle_count s' = 1 \<and> (\<exists>r. effs = [ExitFailureEffect r])"
proof -
  let ?h = "demo_handle spent_controller (demo_run [''claude'', ''codex'']) (demo_failure AGENT ''boom'' None)"
  have h: "case ?h of Inl e \<Rightarrow> False | Inr (rc', s', effs, evt) \<Rightarrow> ps_recovery_cycle_count s' = 1" by code_simp
  have cap: "rc_cap spent_controller = 1" "ps_recovery_cycle_count (demo_run [''claude'', ''codex'']) = 0"
    by code_simp+
  from h obtain rc' s' effs evt where r: "?h = Inr (rc', s', effs, evt)" and c: "ps_recovery_cycle_count s' = 1"
    by (auto split: sum.splits)
  from recovery_step_bounded [OF r [unfolded demo_handle_def]] cap c
  have "\<exists>r. effs = [ExitFailureEffect r]" by simp
  with r c show ?thesis by blast
qed

definition demo_progression :: handled where
  "demo_progression =
     (let rc = demo_controller 200 [''claude'', ''codex'']; s = demo_run [''claude'', ''codex''];
          f = demo_failure AMBIGUOUS ''boom'' None
      in handle_retry_progression rc demo_clock s f ''development'' (Some ''claude'') False 0 False
           (failure_event_for rc demo_clock s f ''development'' (Some ''claude'')))"

theorem next_agent_is_first_usable_witness:
  "\<exists>rc' s' evt. demo_progression = Inr (rc', s', [], evt) \<and> chain_for_phase s' ''development''
      = Some \<lparr>acs_agents = [''claude'', ''codex''], acs_current_index = 1, acs_retries = 0\<rparr>"
proof -
  let ?rc = "demo_controller 200 [''claude'', ''codex'']" and ?s = "demo_run [''claude'', ''codex'']"
  let ?c = "\<lparr>acs_agents = [''claude'', ''codex''], acs_current_index = 0, acs_retries = 0\<rparr>"
  let ?rc1 = "note_retry_exhaustion ''development'' ''claude'' ?rc"
  have c: "chain_for_phase ?s ''development'' = Some ?c" by (simp add: demo_run_def)
  have n: "note_spent_allowance ?rc ''development'' (Some ''claude'') ?c 0 False = (?rc1, Some ''claude'', True)"
    by (simp add: note_spent_allowance_def Let_def truthy_def)
  have u: "usable ?rc1 ''development'' ?c True 5000 1" by code_simp
  have u0: "\<not> usable ?rc1 ''development'' ?c True 5000 0" by (simp add: usable_def)
  have first: "i = 1" if "usable ?rc1 ''development'' ?c True 5000 i"
      "\<forall>j < i. \<not> usable ?rc1 ''development'' ?c True 5000 j" for i
    using that u u0 by (metis less_one linorder_neqE_nat)
  have "case demo_progression of Inl e \<Rightarrow> False | Inr r \<Rightarrow> True" by code_simp
  then obtain rc' s' effs evt where r: "demo_progression = Inr (rc', s', effs, evt)"
    by (auto split: sum.splits)
  have ex: "\<exists>i. usable ?rc1 ''development'' ?c True (ck_select_ms demo_clock) i"
    using u by (auto simp: demo_clock_def)
  from next_agent_is_first_usable [OF c n r [unfolded demo_progression_def Let_def], unfolded if_P [OF ex]]
  obtain i where "usable ?rc1 ''development'' ?c True 5000 i" "\<forall>j < i. \<not> usable ?rc1 ''development'' ?c True 5000 j"
    and m: "chain_for_phase s' ''development'' = Some (moved_chain ?c i)" "effs = []"
    by (auto simp: demo_clock_def)
  from first [OF this(1,2)] m r show ?thesis by (auto simp: moved_chain_def)
qed

theorem budget_charged_to_the_failing_agent_only_witness:
  "\<exists>rc' s' effs evt. demo_handle (demo_controller 200 [''claude'', ''codex'']) (demo_run [''claude'', ''codex''])
        (demo_failure AGENT ''boom'' None) = Inr (rc', s', effs, evt)
     \<and> registry_get (rc_registry rc') ''development'' ''claude''
         \<noteq> registry_get (rc_registry (demo_controller 200 [''claude'', ''codex''])) ''development'' ''claude''
     \<and> cf_counts_against_budget (demo_failure AGENT ''boom'' None)
     \<and> Some ''claude'' = fc_agent (demo_context (demo_failure AGENT ''boom'' None))"
proof -
  let ?rc = "demo_controller 200 [''claude'', ''codex'']"
  let ?h = "demo_handle ?rc (demo_run [''claude'', ''codex'']) (demo_failure AGENT ''boom'' None)"
  have "case ?h of Inl e \<Rightarrow> False | Inr (rc', s', effs, evt) \<Rightarrow>
      registry_get (rc_registry rc') ''development'' ''claude'' \<noteq> registry_get (rc_registry ?rc) ''development'' ''claude''"
    by code_simp
  then obtain rc' s' effs evt where r: "?h = Inr (rc', s', effs, evt)"
    and ne: "registry_get (rc_registry rc') ''development'' ''claude'' \<noteq> registry_get (rc_registry ?rc) ''development'' ''claude''"
    by (auto split: sum.splits)
  from budget_charged_to_the_failing_agent_only [OF r [unfolded demo_handle_def] ne]
  show ?thesis using r ne unfolding demo_handled_failure by blast
qed

text \<open>The hypotheses of the waiting theorems for a fresh controller whose only agent is \<open>claude\<close>.\<close>

lemma demo_waiting_hypotheses:
  assumes "base_backoff_ms (backoff_policy_for (new_tracker None [] []) r) > 2"
  shows "\<forall>b \<in> set (acs_agents \<lparr>acs_agents = [''claude''], acs_current_index = 0, acs_retries = 0\<rparr>).
      \<forall>n \<in> later_reads demo_clock b. ck_mark_ms demo_clock \<le> n
      \<and> (if b = ''claude'' then n < ck_mark_ms demo_clock
            + base_backoff_ms (backoff_policy_for (rc_tracker (demo_controller 200 [''claude''])) r)
         else \<not> is_available ph b n (rc_tracker (demo_controller 200 [''claude''])))"
    and "distinct_entries (rc_tracker (demo_controller 200 [''claude'']))"
    and "rc_tracker (demo_controller 200 [''claude'']) = new_tracker None [] []"
    and "rc_cap (demo_controller 200 [''claude'']) = 200"
  using assms
  by (auto simp: later_reads_def demo_clock_def demo_controller_def new_controller_def new_cycle_cap_def
      distinct_entries_def new_tracker_def)

theorem never_exit_for_unavailability_witness:
  "\<exists>rc' s' evt'. demo_handle (demo_controller 200 [''claude'']) (demo_run [''claude''])
        (demo_failure AGENT ''no credits'' (Some OUT_OF_CREDITS)) = Inr (rc', s', [], evt')
     \<and> ps_is_waiting_state s' \<and> 0 < ps_last_retry_delay_ms s'"
proof -
  let ?f = "demo_failure AGENT ''no credits'' (Some OUT_OF_CREDITS)"
  have base: "base_backoff_ms (backoff_policy_for (new_tracker None [] []) (cf_unavailability_reason ?f)) > 2"
    and valid: "backoff_policy_valid (backoff_policy_for (new_tracker None [] []) (cf_unavailability_reason ?f))"
    by code_simp+
  note facts = demo_waiting_hypotheses [OF base]
  have chain: "chain_for_phase (demo_run [''claude'']) (fc_phase (demo_context ?f))
      = Some \<lparr>acs_agents = [''claude''], acs_current_index = 0, acs_retries = 0\<rparr>"
    by (simp add: demo_run_def demo_context_def)
  have f: "cf_category ?f = AGENT" "cf_is_unavailable ?f" "fc_agent (demo_context ?f) = Some ''claude''"
      "''claude'' \<in> set (acs_agents \<lparr>acs_agents = [''claude''], acs_current_index = 0, acs_retries = 0\<rparr>)"
      "broken_agent_reason ?f = None" "\<not> fc_retry_in_session (demo_context ?f)"
    by (simp_all add: demo_failure_def demo_context_def broken_agent_reason_def)
  have cap: "ps_recovery_cycle_count (demo_run [''claude'']) < rc_cap (demo_controller 200 [''claude''])"
    by (simp add: facts(4) demo_run_def with_phase_chain_def from_policy_def)
  have valid': "backoff_policy_valid (backoff_policy_for (rc_tracker (demo_controller 200 [''claude'']))
      (cf_unavailability_reason ?f))" unfolding facts(3) by (rule valid)
  show ?thesis unfolding demo_handle_def
    using never_exit_for_unavailability [OF demo_handled_failure f(1-3) chain f(4) facts(1) valid' facts(2)
        disjI1 [OF f(5)] f(6) cap] by blast
qed

text \<open>
  A failure text that merely contains the word None crashes the capped run: the controller raises
  instead of returning the exit effect the cap calls for.
\<close>

theorem capped_exit_crashes_on_sentinel:
  "\<exists>m. demo_handle spent_controller (demo_run [''claude'', ''codex''])
         (demo_failure AGENT (str_repr ''x'' @ '' is None'') None) = Inl (ValueError m)"
proof -
  have "case demo_handle spent_controller (demo_run [''claude'', ''codex''])
         (demo_failure AGENT (str_repr ''x'' @ '' is None'') None) of Inl (ValueError m) \<Rightarrow> True | _ \<Rightarrow> False"
    by code_simp
  then show ?thesis by (auto split: sum.splits py_error.splits)
qed

theorem recovery_raises_only_on_refused_exit_witness:
  "\<exists>e. demo_handle spent_controller (demo_run [''claude'', ''codex''])
         (demo_failure AGENT ''got None'' None) = Inl e \<and> (\<exists>m. e = ValueError m) \<and> rc_cap spent_controller \<le> 1"
proof -
  let ?h = "demo_handle spent_controller (demo_run [''claude'', ''codex'']) (demo_failure AGENT ''got None'' None)"
  have "case ?h of Inl e \<Rightarrow> True | Inr r \<Rightarrow> False" by code_simp
  then obtain e where e: "?h = Inl e" by (auto split: sum.splits)
  have "case rc_policy_bundle spent_controller of None \<Rightarrow> False | Some b \<Rightarrow> True"
    and n: "ps_recovery_cycle_count (demo_run [''claude'', ''codex'']) = 0" by code_simp+
  then have "rc_policy_bundle spent_controller \<noteq> None" by (auto split: option.splits)
  from recovery_raises_only_on_refused_exit [OF this e [unfolded demo_handle_def]] n e
  show ?thesis by auto
qed

end
