(* ===== verification/Phase_Routing.thy ===== *)
theory Phase_Routing
  imports Cycle_Timing Recovery_Controller
begin

text \<open>
  The shared routing seam of the reducer (\<^verbatim>\<open>ralph/pipeline/reducer.py\<close>, bottom half, and
  \<^verbatim>\<open>loopback.py\<close>): resolve the effective target of a transition through the cycle timebox and the
  exhausted-analysis bypass, then advance; enter the failed route; pass the invocation gate of an
  analysis phase. The policy argument is optional as in the code. Log calls are left out.
\<close>

section \<open>Operations\<close>

type_synonym outcome = "(PipelineState \<times> Effect list) result"

definition failure_reason_or :: "PipelineState \<Rightarrow> string \<Rightarrow> string" where
  "failure_reason_or s fallback = (if truthy (ps_last_error s) then the (ps_last_error s) else fallback)"

definition restore_work_units :: "PipelineState \<Rightarrow> PipelineState \<Rightarrow> PipelineState" where
  "restore_work_units s new_state =
     (if ps_work_units s \<noteq> [] \<and> ps_work_units new_state = []
      then set_work_units (ps_work_units s) new_state else new_state)"

definition routing_requires_policy :: py_error where
  "routing_requires_policy =
     RuntimeError (''Routing requires loaded policy; no fallback to legacy phase constants. ''
       @ ''Ensure pipeline_policy is passed to reduce().'')"

definition terminal_failure_route :: "PipelinePolicy option \<Rightarrow> string result" where
  "terminal_failure_route pol =
     (case pol of None \<Rightarrow> Inl routing_requires_policy | Some P \<Rightarrow> Inr (failed_route P))"

definition terminal_success_route :: "PipelinePolicy option \<Rightarrow> string result" where
  "terminal_success_route pol =
     (case pol of None \<Rightarrow> Inl routing_requires_policy | Some P \<Rightarrow> Inr (pp_terminal_phase P))"

definition enter_failed_recovery :: "PipelineState \<Rightarrow> string \<Rightarrow> PipelinePolicy option \<Rightarrow> outcome" where
  "enter_failed_recovery s reason pol =
     bind_r (terminal_failure_route pol) (\<lambda>target.
       case pol of
         None \<Rightarrow> Inl (RuntimeError ''Routing requires loaded policy'')
       | Some P \<Rightarrow>
           bind_r (advance_phase s target pol) (\<lambda>a.
             bind_r (apply_execution_cycle_outcome s
                       (a\<lparr>ps_last_error := Some reason, ps_recovery_epoch := ps_recovery_epoch s + 1\<rparr>) P)
               (\<lambda>s'. Inr (s', []))))"

text \<open>\<^verbatim>\<open>_advance_to_failed\<close> is \<^verbatim>\<open>_enter_failed_recovery\<close> under another name.\<close>

abbreviation advance_to_failed :: "PipelineState \<Rightarrow> string \<Rightarrow> PipelinePolicy option \<Rightarrow> outcome" where
  "advance_to_failed \<equiv> enter_failed_recovery"

definition concluded_if_leaving_cycle :: "PipelineState \<times> string \<Rightarrow> PipelinePolicy \<Rightarrow> PipelineState \<times> string" where
  "concluded_if_leaving_cycle resolved P =
     (case resolved of (s, t) \<Rightarrow> (conclude_cycle_on_route_out_of_cycle s t P, t))"

definition with_bypassed_cycle_timing ::
    "ExhaustedAnalysisBypassResult \<Rightarrow> PipelinePolicy \<Rightarrow> RoutingTiming option \<Rightarrow> bool \<Rightarrow> PipelineState \<times> string" where
  "with_bypassed_cycle_timing b P timing timer_just_started =
     (if br_skipped b = [] \<or> timer_just_started then (br_state b, br_target_phase b)
      else (let tb = apply_cycle_timebox (br_state b) (br_target_phase b) P timing
            in (start_cycle_for_bypassed_start_source (td_state tb) (td_target_phase tb)
                  (map sk_phase (br_skipped b)) P, td_target_phase tb)))"

text \<open>
  The bypass of the analysis phase the run is leaving: consulted only on its own success transition,
  and \<open>None\<close> unless it skipped something.
\<close>

definition own_analysis_bypass ::
    "PipelineState \<Rightarrow> string \<Rightarrow> PipelinePolicy \<Rightarrow> ExhaustedAnalysisBypassResult option result" where
  "own_analysis_bypass s t P =
     (case phase_of P (ps_phase s) of
        None \<Rightarrow> Inr None
      | Some d \<Rightarrow>
          if pd_role d \<noteq> Some RoleAnalysis then Inr None
          else bind_r (catch_value_error
                   (bind_r (resolve_next_phase (ps_phase s) ''success'' P) (\<lambda>x. Inr (Some x)))
                   (\<lambda>m. Inr None)) (\<lambda>success_target.
                 if success_target = Some t
                 then bind_r (resolve_exhausted_analysis_bypass s (ps_phase s) P) (\<lambda>b.
                        Inr (if br_skipped b \<noteq> [] then Some b else None))
                 else Inr None))"

definition prepare_phase_advance ::
    "PipelineState \<Rightarrow> string \<Rightarrow> PipelinePolicy option \<Rightarrow> RoutingTiming option \<Rightarrow> (PipelineState \<times> string) result" where
  "prepare_phase_advance s t pol timing =
     (case pol of
        None \<Rightarrow> Inr (s, t)
      | Some P \<Rightarrow>
          (let tb = apply_cycle_timebox s t P timing;
               s1 = td_state tb; t1 = td_target_phase tb;
               finish = (\<lambda>b. Inr (concluded_if_leaving_cycle
                 (with_bypassed_cycle_timing b P timing (td_timing_started tb)) P))
           in bind_r (own_analysis_bypass s1 t1 P) (\<lambda>own.
                case own of
                  Some b \<Rightarrow> finish b
                | None \<Rightarrow> bind_r (resolve_exhausted_analysis_bypass s1 t1 P) finish)))"

definition reducer_advance_phase ::
    "PipelineState \<Rightarrow> string \<Rightarrow> PipelinePolicy option \<Rightarrow> RoutingTiming option \<Rightarrow> outcome" where
  "reducer_advance_phase s t pol timing =
     bind_r (prepare_phase_advance s t pol timing) (\<lambda>(s1, t1).
       bind_r (advance_phase s1 t1 pol) (\<lambda>s2. Inr (s2, [])))"

definition resolve_or_terminal ::
    "PipelineState \<Rightarrow> string \<Rightarrow> PipelinePolicy \<Rightarrow> string \<Rightarrow> RoutingTiming option \<Rightarrow> outcome" where
  "resolve_or_terminal s signal P label timing =
     (case resolve_next_phase (ps_phase s) signal P of
        Inl (ValueError m) \<Rightarrow> advance_to_failed s
          (''Routing error after '' @ label @ '' in '' @ quoted (ps_phase s) @ '': '' @ m) (Some P)
      | Inl e \<Rightarrow> Inl e
      | Inr next_phase \<Rightarrow> reducer_advance_phase s next_phase (Some P) timing)"

definition redirect_expired_cycle_in_place ::
    "PipelineState \<Rightarrow> PipelinePolicy option \<Rightarrow> RoutingTiming option
     \<Rightarrow> (PipelineState \<times> Effect list) option result" where
  "redirect_expired_cycle_in_place s pol timing =
     (case (pol, timing) of
        (Some P, Some e) \<Rightarrow>
          (let d = apply_cycle_timebox s (ps_phase s) P timing in
           if \<not> td_redirected d then Inr None
           else bind_r (reducer_advance_phase (td_state d) (td_target_phase d) pol timing) (\<lambda>r. Inr (Some r)))
      | _ \<Rightarrow> Inr None)"

definition apply_invocation_gate ::
    "PipelineState \<Rightarrow> string \<Rightarrow> PipelinePolicy \<Rightarrow> string \<times> PipelineState \<times> string option" where
  "apply_invocation_gate s next_phase P =
     (case phase_of P next_phase of
        None \<Rightarrow> (next_phase, s, None)
      | Some d \<Rightarrow> (case pd_invocation_gate d of
          None \<Rightarrow> (next_phase, s, None)
        | Some gate \<Rightarrow>
            (let always_invoke = (case ps_last_execution_result_status s of None \<Rightarrow> False
                   | Some st \<Rightarrow> st \<in> set (always_invoke_statuses gate));
                 cumulative = cumulative_execution_seconds s (upstream_execution_phase gate) in
             if always_invoke \<or> minimum_elapsed_seconds gate \<le> cumulative
             then (next_phase, s, Some (upstream_execution_phase gate))
             else (on_success (pd_transitions d),
                   stamp_outcome (declared_forward_cycle_outcome next_phase P) s, None))))"

definition advance_through_invocation_gate ::
    "PipelineState \<Rightarrow> string \<Rightarrow> PipelinePolicy \<Rightarrow> RoutingTiming option \<Rightarrow> outcome" where
  "advance_through_invocation_gate s next_phase P timing =
     (case apply_invocation_gate s next_phase P of
        (target, gated, admitted) \<Rightarrow>
          bind_r (reducer_advance_phase (gated\<lparr>ps_last_execution_result_status := None\<rparr>) target (Some P) timing)
            (\<lambda>(s', effs).
              case admitted of
                Some execution_phase \<Rightarrow>
                  if ps_phase s' = target
                  then bind_r (charge_analysis_cycle_for_gate s' execution_phase P) (\<lambda>s''. Inr (s'', effs))
                  else Inr (s', effs)
              | None \<Rightarrow> Inr (s', effs)))"

definition handle_capped_phase_loopback_policy_driven ::
    "PipelineState \<Rightarrow> PipelinePolicy \<Rightarrow> PhaseDefinition \<Rightarrow> string option \<Rightarrow> RoutingTiming option \<Rightarrow> outcome" where
  "handle_capped_phase_loopback_policy_driven s P d outcome timing =
     (case pd_loop_policy d of
        None \<Rightarrow> resolve_or_terminal s ''loopback'' P ''phase loopback'' timing
      | Some lp \<Rightarrow>
          bind_r (resolve_analysis_cap (iteration_state_field lp) P) (\<lambda>cap.
            let ps = apply_analysis_loopback s s (iteration_state_field lp) cap outcome
                       (\<not> analysis_loopback_is_already_charged (ps_phase s) s P)
            in case resolve_next_phase (ps_phase s) ''loopback'' P of
                 Inl (ValueError m) \<Rightarrow> advance_to_failed ps
                   (''Routing error for phase loopback in '' @ quoted (ps_phase s) @ '': '' @ m) (Some P)
               | Inl e \<Rightarrow> Inl e
               | Inr target \<Rightarrow> reducer_advance_phase ps target (Some P) timing))"

section \<open>What routing keeps\<close>

text \<open>
  The part of a step every handler obeys: loop counters stay within their caps, the plan (work units
  and budget caps) is untouched, and the run, with the phase it remembers it came from, stays where it was or
  moves to phases the policy knows.
\<close>

definition moved :: "PipelinePolicy \<Rightarrow> PipelineState \<Rightarrow> PipelineState \<Rightarrow> bool" where
  "moved P s s' \<longleftrightarrow> ps_policy_entry_phase s' = ps_policy_entry_phase s
     \<and> (\<forall>p. p = ps_phase s' \<or> ps_previous_phase s' = Some p
          \<longrightarrow> p = ps_phase s \<or> ps_previous_phase s = Some p \<or> known_target P p)"

lemma moved_same [simp]:
  "ps_policy_entry_phase s' = ps_policy_entry_phase s \<Longrightarrow> ps_phase s' = ps_phase s \<Longrightarrow>
   ps_previous_phase s' = ps_previous_phase s \<Longrightarrow> moved P s s'"
  by (simp add: moved_def)

lemma moved_trans: "moved P s t \<Longrightarrow> moved P t u \<Longrightarrow> moved P s u"
  unfolding moved_def by metis

lemma moved_advanced: "known_target P t \<Longrightarrow> moved P s (advanced P t s)"
  by (simp add: moved_def)

definition kept :: "PipelinePolicy \<Rightarrow> PipelineState \<Rightarrow> PipelineState \<Rightarrow> bool" where
  "kept P s s' \<longleftrightarrow> (loops_in_range P s \<longrightarrow> loops_in_range P s')
     \<and> ps_work_units s' = ps_work_units s \<and> ps_budget_caps s' = ps_budget_caps s \<and> moved P s s'"

definition quiet :: "PipelinePolicy \<Rightarrow> PipelineState \<Rightarrow> PipelineState \<Rightarrow> bool" where
  "quiet P s s' \<longleftrightarrow> kept P s s' \<and> ps_outer_progress s' = ps_outer_progress s"

lemma kept_refl [simp]: "kept P s s"
  by (simp add: kept_def)

lemma kept_trans: "kept P s t \<Longrightarrow> kept P t u \<Longrightarrow> kept P s u"
  by (auto simp: kept_def intro: moved_trans)

lemma quiet_refl [simp]: "quiet P s s"
  by (simp add: quiet_def)

lemma quiet_trans: "quiet P s t \<Longrightarrow> quiet P t u \<Longrightarrow> quiet P s u"
  by (auto simp: quiet_def intro: kept_trans)

text \<open>An update that leaves the four plan fields alone and moves only to known phases is quiet.\<close>

lemma quiet_same:
  "ps_loop_iterations s' = ps_loop_iterations s \<Longrightarrow> ps_work_units s' = ps_work_units s \<Longrightarrow>
   ps_budget_caps s' = ps_budget_caps s \<Longrightarrow> ps_outer_progress s' = ps_outer_progress s \<Longrightarrow> moved P s s' \<Longrightarrow> quiet P s s'"
  by (simp add: quiet_def kept_def loops_in_range_def get_loop_iteration_def)

lemma quiet_advanced [simp, intro]: "known_target P t \<Longrightarrow> quiet P s (advanced P t s)"
  by (rule quiet_same) (simp_all add: moved_advanced)

lemma quiet_timebox: "timebox_frame s s' \<Longrightarrow> quiet P s s'"
  by (rule quiet_same; (rule moved_same)?; unfold timebox_frame_def; elim conjE; erule ssubst; simp)

lemma bypass_frame_sel:
  "bypass_frame s s' \<Longrightarrow> ps_phase s' = ps_phase s"
  "bypass_frame s s' \<Longrightarrow> ps_work_units s' = ps_work_units s"
  "bypass_frame s s' \<Longrightarrow> ps_budget_caps s' = ps_budget_caps s"
  "bypass_frame s s' \<Longrightarrow> ps_outer_progress s' = ps_outer_progress s"
  "bypass_frame s s' \<Longrightarrow> ps_cycle_timebox_active s' = ps_cycle_timebox_active s"
  "bypass_frame s s' \<Longrightarrow> ps_previous_phase s' = ps_previous_phase s"
  "bypass_frame s s' \<Longrightarrow> ps_policy_entry_phase s' = ps_policy_entry_phase s"
  by (unfold bypass_frame_def; elim conjE; erule ssubst; simp)+

lemma charge_frame_sel:
  "charge_frame s s' \<Longrightarrow> ps_phase s' = ps_phase s"
  "charge_frame s s' \<Longrightarrow> ps_work_units s' = ps_work_units s"
  "charge_frame s s' \<Longrightarrow> ps_budget_caps s' = ps_budget_caps s"
  "charge_frame s s' \<Longrightarrow> ps_outer_progress s' = ps_outer_progress s"
  "charge_frame s s' \<Longrightarrow> ps_cycle_timebox_active s' = ps_cycle_timebox_active s"
  "charge_frame s s' \<Longrightarrow> ps_pending_cycle_outcome s' = ps_pending_cycle_outcome s"
  "charge_frame s s' \<Longrightarrow> ps_last_error s' = ps_last_error s"
  "charge_frame s s' \<Longrightarrow> ps_previous_phase s' = ps_previous_phase s"
  "charge_frame s s' \<Longrightarrow> ps_recovery_epoch s' = ps_recovery_epoch s"
  "charge_frame s s' \<Longrightarrow> ps_policy_entry_phase s' = ps_policy_entry_phase s"
  by (unfold charge_frame_def; erule ssubst; simp)+

lemma quiet_bypass: "well_formed P \<Longrightarrow> bypass_frame s s' \<Longrightarrow> quiet P s s'"
  using loops_in_range_bypass well_formed_caps by (auto simp: quiet_def kept_def bypass_frame_sel)

lemma quiet_charge: "charge_frame s s' \<Longrightarrow> (loops_in_range P s \<Longrightarrow> loops_in_range P s') \<Longrightarrow> quiet P s s'"
  by (auto simp: quiet_def kept_def charge_frame_sel)

section \<open>Routing is total and closed\<close>

text \<open>
  The contract of a routing step on a well-formed policy: it returns, with no effect, a quiet state in
  a phase the policy knows.
\<close>

definition routes :: "PipelinePolicy \<Rightarrow> PipelineState \<Rightarrow> outcome \<Rightarrow> bool" where
  "routes P s r \<longleftrightarrow> (\<exists>s'. r = Inr (s', []) \<and> quiet P s s' \<and> known_target P (ps_phase s'))"

lemma routesI: "r = Inr (s', []) \<Longrightarrow> quiet P s s' \<Longrightarrow> known_target P (ps_phase s') \<Longrightarrow> routes P s r"
  by (auto simp: routes_def)

lemma routes_mono: "routes P t r \<Longrightarrow> quiet P s t \<Longrightarrow> routes P s r"
  by (auto simp: routes_def intro: quiet_trans)

lemma enter_failed_recovery_spec:
  assumes "well_formed P"
  obtains s' where "enter_failed_recovery s reason (Some P) = Inr (s', [])" and "quiet P s s'"
    and "ps_phase s' = failed_route P" "ps_previous_phase s' = Some (ps_phase s)"
    and "ps_last_error s' = Some reason" "ps_recovery_epoch s' = ps_recovery_epoch s + 1"
    and "ps_cycle_timebox_active s' = ps_cycle_timebox_active s"
    and "ps_pending_cycle_outcome s' = ps_pending_cycle_outcome s"
proof -
  let ?a = "(advanced P (failed_route P) s)\<lparr>ps_last_error := Some reason,
      ps_recovery_epoch := ps_recovery_epoch s + 1\<rparr>"
  obtain s' where s': "apply_execution_cycle_outcome s ?a P = Inr s'" and fr: "charge_frame ?a s'"
    and l: "loops_in_range P ?a \<Longrightarrow> loops_in_range P s'"
    using apply_execution_cycle_outcome_spec [OF assms, of s ?a] by metis
  have "quiet P s ?a" by (rule quiet_same) (simp_all add: moved_def)
  moreover have "quiet P ?a s'" by (rule quiet_charge [OF fr l])
  ultimately show ?thesis using s' charge_frame_sel [OF fr]
    by (intro that [of s']) (auto simp: enter_failed_recovery_def terminal_failure_route_def advance_phase_def
        intro: quiet_trans)
qed

lemma routes_failed [simp, intro]: "well_formed P \<Longrightarrow> routes P s (enter_failed_recovery s reason (Some P))"
proof -
  assume "well_formed P"
  then show ?thesis by (rule enter_failed_recovery_spec [of P s reason]) (auto intro: routesI)
qed

lemma own_analysis_bypass_spec:
  assumes "well_formed P"
  obtains r where "own_analysis_bypass s t P = Inr r"
    and "\<And>b. r = Some b \<Longrightarrow> br_skipped b \<noteq> [] \<and> known_target P (br_target_phase b)
           \<and> bypass_frame s (br_state b) \<and> loop_open P (br_state b) (br_target_phase b)"
proof (cases "\<exists>d. phase_of P (ps_phase s) = Some d \<and> pd_role d = Some RoleAnalysis
    \<and> on_success (pd_transitions d) = t")
  case True
  then obtain d where d: "phase_of P (ps_phase s) = Some d" "pd_role d = Some RoleAnalysis"
    "on_success (pd_transitions d) = t" by blast
  have "known_target P (ps_phase s)" using d(1) by blast
  from bypass_spec [OF assms this, of s] obtain b where b: "resolve_exhausted_analysis_bypass s (ps_phase s) P = Inr b"
    and kb: "known_target P (br_target_phase b)" "bypass_frame s (br_state b)"
      "loop_open P (br_state b) (br_target_phase b)" by metis
  have "resolve_next_phase (ps_phase s) ''success'' P = Inr t"
    using resolve_next_phase_success [OF well_formed_validated [OF assms] d(1)] d(3) by simp
  then show ?thesis using d b kb
    by (intro that [of "if br_skipped b \<noteq> [] then Some b else None"])
      (auto simp: own_analysis_bypass_def split: if_splits)
next
  case False
  then have "own_analysis_bypass s t P = Inr None"
    using resolve_next_phase_success [OF well_formed_validated [OF assms]]
    by (auto simp: own_analysis_bypass_def split: option.splits)
  then show ?thesis by (rule that) simp
qed

lemma with_bypassed_spec:
  assumes "well_formed P" "known_target P (br_target_phase b)" "quiet P s (br_state b)"
    and "with_bypassed_cycle_timing b P timing j = (s', t')"
  shows "quiet P s s' \<and> known_target P t'"
proof -
  let ?tb = "apply_cycle_timebox (br_state b) (br_target_phase b) P timing"
  have "quiet P (br_state b) (td_state ?tb)" by (rule quiet_timebox) simp
  moreover have "quiet P (td_state ?tb) (start_cycle_for_bypassed_start_source (td_state ?tb) (td_target_phase ?tb) sk P)"
    for sk by (rule quiet_timebox) simp
  ultimately show ?thesis
    using assms apply_cycle_timebox_known [OF well_formed_validated [OF assms(1)] assms(2)]
    by (auto simp: with_bypassed_cycle_timing_def Let_def split: if_splits intro: quiet_trans)
qed

text \<open>Resolution as one bypass result, whichever of the two bypasses produced it.\<close>

lemma prepare_phase_advance_cases:
  assumes "well_formed P" and "known_target P t"
  obtains b where "prepare_phase_advance s t (Some P) timing =
      Inr (concluded_if_leaving_cycle (with_bypassed_cycle_timing b P timing
             (td_timing_started (apply_cycle_timebox s t P timing))) P)"
    and "known_target P (br_target_phase b)"
    and "bypass_frame (td_state (apply_cycle_timebox s t P timing)) (br_state b)"
    and "loop_open P (br_state b) (br_target_phase b)"
    and "br_skipped b = [] \<Longrightarrow> br_state b = td_state (apply_cycle_timebox s t P timing)
           \<and> br_target_phase b = td_target_phase (apply_cycle_timebox s t P timing)"
proof -
  let ?tb = "apply_cycle_timebox s t P timing"
  obtain own where own: "own_analysis_bypass (td_state ?tb) (td_target_phase ?tb) P = Inr own"
    and ob: "\<And>b. own = Some b \<Longrightarrow> br_skipped b \<noteq> [] \<and> known_target P (br_target_phase b)
           \<and> bypass_frame (td_state ?tb) (br_state b) \<and> loop_open P (br_state b) (br_target_phase b)"
    using own_analysis_bypass_spec [OF assms(1), of "td_state ?tb" "td_target_phase ?tb"] by metis
  have "known_target P (td_target_phase ?tb)"
    by (rule apply_cycle_timebox_known [OF well_formed_validated [OF assms(1)] assms(2)])
  from bypass_spec [OF assms(1) this, of "td_state ?tb"] obtain b
    where b: "resolve_exhausted_analysis_bypass (td_state ?tb) (td_target_phase ?tb) P = Inr b"
      and kb: "known_target P (br_target_phase b)" "loop_open P (br_state b) (br_target_phase b)"
        "bypass_frame (td_state ?tb) (br_state b)"
        "br_skipped b = [] \<Longrightarrow> br_state b = td_state ?tb \<and> br_target_phase b = td_target_phase ?tb"
    by metis
  show ?thesis
  proof (cases own)
    case None
    with own b kb show ?thesis
      by (intro that [of b]) (simp_all add: prepare_phase_advance_def Let_def)
  next
    case (Some b')
    with own ob [OF Some] show ?thesis
      by (intro that [of b']) (simp_all add: prepare_phase_advance_def Let_def)
  qed
qed

lemma prepare_phase_advance_spec:
  assumes "well_formed P" and "known_target P t"
  obtains s' t' where "prepare_phase_advance s t (Some P) timing = Inr (s', t')"
    and "quiet P s s'" "known_target P t'"
proof -
  let ?tb = "apply_cycle_timebox s t P timing"
  obtain b where eq: "prepare_phase_advance s t (Some P) timing =
      Inr (concluded_if_leaving_cycle (with_bypassed_cycle_timing b P timing (td_timing_started ?tb)) P)"
    and kb: "known_target P (br_target_phase b)" and fr: "bypass_frame (td_state ?tb) (br_state b)"
    using prepare_phase_advance_cases [OF assms, of s timing] by metis
  have "quiet P s (br_state b)"
    using quiet_trans [OF quiet_timebox quiet_bypass [OF assms(1) fr]] by simp
  moreover obtain s1 t1 where w: "with_bypassed_cycle_timing b P timing (td_timing_started ?tb) = (s1, t1)"
    by fastforce
  ultimately have "quiet P s s1" "known_target P t1"
    using with_bypassed_spec [OF assms(1) kb _ w] by blast+
  moreover have "quiet P s1 (conclude_cycle_on_route_out_of_cycle s1 t1 P)" by (rule quiet_timebox) simp
  ultimately show ?thesis
    using eq w by (intro that [of "conclude_cycle_on_route_out_of_cycle s1 t1 P" t1])
      (auto simp: concluded_if_leaving_cycle_def intro: quiet_trans)
qed

lemma advance_routes [intro]:
  assumes "well_formed P" and "known_target P t"
  shows "routes P s (reducer_advance_phase s t (Some P) timing)"
proof -
  obtain s' t' where "prepare_phase_advance s t (Some P) timing = Inr (s', t')"
    and "quiet P s s'" "known_target P t'"
    using prepare_phase_advance_spec [OF assms] by blast
  then show ?thesis
    by (intro routesI [of _ "advanced P t' s'"])
      (auto simp: reducer_advance_phase_def advance_phase_def intro: quiet_trans)
qed

lemma resolve_or_terminal_routes [intro]:
  assumes "well_formed P"
  shows "routes P s (resolve_or_terminal s sig P label timing)"
proof (cases "resolve_next_phase (ps_phase s) sig P")
  case (Inl e)
  then show ?thesis using resolve_next_phase_ValueError [OF Inl] assms
    by (auto simp: resolve_or_terminal_def)
next
  case (Inr t)
  from resolve_next_phase_known [OF well_formed_validated [OF assms] Inr] Inr assms
  show ?thesis by (auto simp: resolve_or_terminal_def)
qed

lemma redirect_expired_spec:
  assumes "well_formed P"
  obtains r where "redirect_expired_cycle_in_place s (Some P) timing = Inr r"
    and "\<forall>x. r = Some x \<longrightarrow> routes P s (Inr x)"
proof (cases "timing \<noteq> None \<and> td_redirected (apply_cycle_timebox s (ps_phase s) P timing)")
  case True
  let ?d = "apply_cycle_timebox s (ps_phase s) P timing"
  from True obtain e ct where "timing = Some e" "pp_cycle_timebox P = Some ct"
    "td_target_phase ?d = ct_finalization_target ct"
    by (auto simp: apply_cycle_timebox_def Let_def split: option.splits if_splits)
  moreover from this have "known_target P (td_target_phase ?d)"
    using validated_timebox [OF well_formed_validated [OF assms]] by simp
  moreover from this have "routes P (td_state ?d) (reducer_advance_phase (td_state ?d) (td_target_phase ?d) (Some P) timing)"
    by (rule advance_routes [OF assms])
  then have "routes P s (reducer_advance_phase (td_state ?d) (td_target_phase ?d) (Some P) timing)"
    by (rule routes_mono) (simp add: quiet_timebox)
  ultimately show ?thesis using True
    by (cases "reducer_advance_phase (td_state ?d) (td_target_phase ?d) (Some P) timing")
      (auto simp: redirect_expired_cycle_in_place_def Let_def routes_def intro!: that)
next
  case False
  then show ?thesis
    by (intro that [of None]) (auto simp: redirect_expired_cycle_in_place_def split: option.splits)
qed

lemma stamp_outcome_quiet [simp]: "quiet P s (stamp_outcome oc s)"
  by (rule quiet_same) (simp_all add: stamp_outcome_def)

lemma gate_spec:
  assumes "validated P" and "known_target P t" and "apply_invocation_gate s t P = (t', s', a)"
  shows "known_target P t' \<and> quiet P s s'"
  using assms validated_transitions(1) [OF assms(1)]
  by (auto simp: apply_invocation_gate_def Let_def split: option.splits if_splits)

lemma gate_routes [intro]:
  assumes "well_formed P" and "known_target P t"
  shows "routes P s (advance_through_invocation_gate s t P timing)"
proof -
  obtain t' g a where gate: "apply_invocation_gate s t P = (t', g, a)" using prod_cases3 by blast
  let ?g = "g\<lparr>ps_last_execution_result_status := None\<rparr>"
  from gate_spec [OF well_formed_validated [OF assms(1)] assms(2) gate]
  have t': "known_target P t'" and "quiet P s g" by blast+
  moreover have "quiet P g ?g" by (rule quiet_same) simp_all
  ultimately have q: "quiet P s ?g" by (blast intro: quiet_trans)
  from routes_mono [OF advance_routes [OF assms(1) t'] q]
  obtain s' where adv: "reducer_advance_phase ?g t' (Some P) timing = Inr (s', [])"
    and q': "quiet P s s'" "known_target P (ps_phase s')" by (auto simp: routes_def)
  obtain s'' where "\<forall>e. a = Some e \<longrightarrow> charge_analysis_cycle_for_gate s' e P = Inr s''"
    and "charge_frame s' s''" "loops_in_range P s' \<longrightarrow> loops_in_range P s''"
  proof (cases a)
    case None
    then show ?thesis by (intro that [of s']) (simp_all add: charge_frame_def)
  next
    case (Some e)
    then show ?thesis using charge_gate_spec [OF assms(1), of s' e] that by (metis option.inject)
  qed
  then have "quiet P s s''" "ps_phase s'' = ps_phase s'"
    and "advance_through_invocation_gate s t P timing \<in> {Inr (s', []), Inr (s'', [])}"
    using q' quiet_charge quiet_trans charge_frame_sel(1)
    by (auto simp: advance_through_invocation_gate_def gate adv split: option.splits)
  with q' show ?thesis by (auto simp: routes_def)
qed

lemma loopback_quiet:
  assumes "resolve_analysis_cap f P = Inr cap" and "well_formed P"
  shows "quiet P s (apply_analysis_loopback s s f cap oc inc)"
  using loops_in_range_charge [OF assms(1) well_formed_caps [OF assms(2)], of s]
  by (auto simp: apply_analysis_loopback_def Let_def quiet_def kept_def with_loop_iteration_def
      loops_in_range_def get_loop_iteration_def split: option.split)

lemma loopback_routes [intro]:
  assumes "well_formed P" and "phase_of P (ps_phase s) = Some d"
  shows "routes P s (handle_capped_phase_loopback_policy_driven s P d oc timing)"
proof (cases "pd_loop_policy d")
  case None
  then show ?thesis using assms(1) by (auto simp: handle_capped_phase_loopback_policy_driven_def)
next
  case (Some lp)
  from assms(1,2) Some obtain c :: LoopCounterConfig
    where "dict_get (pp_loop_counters P) (iteration_state_field lp) = Some c"
    by (rule well_formed_loop_counter)
  then have cap: "resolve_analysis_cap (iteration_state_field lp) P = Inr (lc_default_max c)"
    by (simp add: resolve_analysis_cap_def)
  let ?ps = "apply_analysis_loopback s s (iteration_state_field lp) (lc_default_max c) oc
      (\<not> analysis_loopback_is_already_charged (ps_phase s) s P)"
  have q: "quiet P s ?ps" by (rule loopback_quiet [OF cap assms(1)])
  have eq: "handle_capped_phase_loopback_policy_driven s P d oc timing =
      (case resolve_next_phase (ps_phase s) ''loopback'' P of
         Inl (ValueError m) \<Rightarrow> advance_to_failed ?ps
           (''Routing error for phase loopback in '' @ quoted (ps_phase s) @ '': '' @ m) (Some P)
       | Inl e \<Rightarrow> Inl e
       | Inr target \<Rightarrow> reducer_advance_phase ?ps target (Some P) timing)"
    by (simp add: handle_capped_phase_loopback_policy_driven_def Some cap Let_def)
  show ?thesis
  proof (cases "resolve_next_phase (ps_phase s) ''loopback'' P")
    case (Inl e)
    with resolve_next_phase_ValueError [OF Inl] eq show ?thesis
      using routes_mono [OF routes_failed [OF assms(1)] q] by auto
  next
    case (Inr t)
    with resolve_next_phase_known [OF well_formed_validated [OF assms(1)] Inr] eq show ?thesis
      using routes_mono [OF advance_routes [OF assms(1)] q] by simp
  qed
qed

end
