(* ===== verification/Worker_States.thy ===== *)
theory Worker_States
  imports Pipeline_State
begin

text \<open>
  Worker lifecycle bookkeeping (\<^verbatim>\<open>ralph/pipeline/_reducer_worker_state.py\<close>). The wall clock the handlers
  read with \<^verbatim>\<open>datetime.now(UTC)\<close> is the argument \<open>now\<close>. None of the handlers emits an effect.
\<close>

definition pending_worker :: "string \<Rightarrow> WorkerState" where
  "pending_worker uid =
     \<lparr>ws_unit_id = uid, ws_status = PENDING, ws_started_at = None, ws_finished_at = None,
      ws_exit_code = None, ws_error_message = None\<rparr>"

definition handle_fan_out_started :: "PipelineState \<Rightarrow> PipelineState" where
  "handle_fan_out_started s =
     (if ps_work_units s = [] \<or> ps_worker_states s \<noteq> [] then s
      else s\<lparr>ps_worker_states :=
               fold (\<lambda>u. dict_set (wu_unit_id u) (pending_worker (wu_unit_id u))) (ps_work_units s) []\<rparr>)"

definition resumed_worker :: "WorkerState \<Rightarrow> WorkerState" where
  "resumed_worker w = (if ws_status w = RUNNING then w\<lparr>ws_status := PENDING\<rparr> else w)"

definition handle_workers_resumed :: "PipelineState \<Rightarrow> PipelineState" where
  "handle_workers_resumed s =
     (if ps_worker_states s = [] then s
      else s\<lparr>ps_worker_states := map (\<lambda>(uid, w). (uid, resumed_worker w)) (ps_worker_states s)\<rparr>)"

definition handle_worker_started :: "PipelineState \<Rightarrow> string \<Rightarrow> timestamp \<Rightarrow> PipelineState" where
  "handle_worker_started s uid now =
     (case dict_get (ps_worker_states s) uid of
        None \<Rightarrow> s
      | Some w \<Rightarrow> s\<lparr>ps_worker_states :=
          dict_set uid (w\<lparr>ws_status := RUNNING, ws_started_at := Some now\<rparr>) (ps_worker_states s)\<rparr>)"

definition handle_worker_completed ::
    "PipelineState \<Rightarrow> string \<Rightarrow> int \<Rightarrow> timestamp \<Rightarrow> PipelineState" where
  "handle_worker_completed s uid code now =
     (case dict_get (ps_worker_states s) uid of
        None \<Rightarrow> s
      | Some w \<Rightarrow> s\<lparr>ps_worker_states :=
          dict_set uid (w\<lparr>ws_status := SUCCEEDED, ws_exit_code := Some code,
                         ws_finished_at := Some now\<rparr>) (ps_worker_states s)\<rparr>)"

definition failed_worker :: "WorkerState \<Rightarrow> int \<Rightarrow> string \<Rightarrow> timestamp \<Rightarrow> WorkerState" where
  "failed_worker w code err now =
     w\<lparr>ws_status := FAILED, ws_exit_code := Some code, ws_error_message := Some err,
       ws_finished_at := Some now\<rparr>"

definition handle_worker_failed ::
    "PipelineState \<Rightarrow> string \<Rightarrow> int \<Rightarrow> string \<Rightarrow> timestamp \<Rightarrow> PipelineState" where
  "handle_worker_failed s uid code err now =
     (case dict_get (ps_worker_states s) uid of
        None \<Rightarrow> s
      | Some w \<Rightarrow> s\<lparr>ps_worker_states :=
          dict_set uid (failed_worker w code err now) (ps_worker_states s)\<rparr>)"

section \<open>Frame\<close>

text \<open>A worker handler changes nothing but the worker table.\<close>

definition worker_frame :: "PipelineState \<Rightarrow> PipelineState \<Rightarrow> bool" where
  "worker_frame s s' \<longleftrightarrow> s' = s\<lparr>ps_worker_states := ps_worker_states s'\<rparr>"

lemma worker_frames [simp]:
  "worker_frame s (handle_fan_out_started s)"
  "worker_frame s (handle_workers_resumed s)"
  "worker_frame s (handle_worker_started s uid now)"
  "worker_frame s (handle_worker_completed s uid code now)"
  "worker_frame s (handle_worker_failed s uid code err now)"
  by (simp_all add: worker_frame_def handle_fan_out_started_def handle_workers_resumed_def
      handle_worker_started_def handle_worker_completed_def handle_worker_failed_def
      split: option.split)

lemma worker_keys [simp]:
  "fst ` set (ps_worker_states (handle_workers_resumed s)) = fst ` set (ps_worker_states s)"
  "fst ` set (ps_worker_states (handle_worker_started s uid now)) = fst ` set (ps_worker_states s)"
  "fst ` set (ps_worker_states (handle_worker_completed s uid code now)) = fst ` set (ps_worker_states s)"
  "fst ` set (ps_worker_states (handle_worker_failed s uid code err now)) = fst ` set (ps_worker_states s)"
proof -
  have keep: "dict_get d uid = Some w \<Longrightarrow> insert uid (fst ` set d) = fst ` set d"
    for d :: "(string, WorkerState) dict" and w
    by (force dest: dict_get_in)
  show "fst ` set (ps_worker_states (handle_workers_resumed s)) = fst ` set (ps_worker_states s)"
    by (auto simp: handle_workers_resumed_def image_image split_beta)
  show "fst ` set (ps_worker_states (handle_worker_started s uid now)) = fst ` set (ps_worker_states s)"
    "fst ` set (ps_worker_states (handle_worker_completed s uid code now)) = fst ` set (ps_worker_states s)"
    "fst ` set (ps_worker_states (handle_worker_failed s uid code err now)) = fst ` set (ps_worker_states s)"
    by (simp_all add: handle_worker_started_def handle_worker_completed_def handle_worker_failed_def
        dict_keys_set keep split: option.split)
qed

lemma fan_out_lookup:
  assumes "ps_work_units s \<noteq> []" and "ps_worker_states s = []"
  shows "dict_get (ps_worker_states (handle_fan_out_started s)) uid =
     (if uid \<in> wu_unit_id ` set (ps_work_units s) then Some (pending_worker uid) else None)"
proof -
  have "dict_get (fold (\<lambda>u. dict_set (wu_unit_id u) (pending_worker (wu_unit_id u))) us d) uid =
     (if uid \<in> wu_unit_id ` set us then Some (pending_worker uid) else dict_get d uid)" for us :: "WorkUnit list" and d
    by (induction us arbitrary: d) auto
  with assms show ?thesis by (simp add: handle_fan_out_started_def)
qed

text \<open>
  The worker events as a step relation. \<open>worker_step now\<close> is one event handled at time \<open>now\<close>.
\<close>

inductive worker_step :: "PipelineState \<Rightarrow> PipelineState \<Rightarrow> bool" where
  step_started: "worker_step s (handle_worker_started s uid now)"
| step_completed: "worker_step s (handle_worker_completed s uid code now)"
| step_failed: "worker_step s (handle_worker_failed s uid code err now)"
| step_resumed: "worker_step s (handle_workers_resumed s)"
| step_fan_out: "worker_step s (handle_fan_out_started s)"

lemma worker_step_units: "worker_step s s' \<Longrightarrow> ps_work_units s' = ps_work_units s"
proof -
  have "worker_frame s s' \<Longrightarrow> ps_work_units s' = ps_work_units s"
    unfolding worker_frame_def by (metis PipelineState.select_convs(26) PipelineState.surjective
        PipelineState.update_convs(27))
  then show "worker_step s s' \<Longrightarrow> ps_work_units s' = ps_work_units s"
    by (auto elim: worker_step.cases)
qed

lemma worker_run_keys:
  assumes "worker_step\<^sup>*\<^sup>* s s'"
    and "fst ` set (ps_worker_states s) = wu_unit_id ` set (ps_work_units s)"
  shows "fst ` set (ps_worker_states s') = wu_unit_id ` set (ps_work_units s')
       \<and> ps_work_units s' = ps_work_units s"
  using assms
proof (induction rule: rtranclp_induct)
  case base
  then show ?case by simp
next
  case (step y z)
  from step.hyps(2) have units: "ps_work_units z = ps_work_units y" by (rule worker_step_units)
  from step have y: "fst ` set (ps_worker_states y) = wu_unit_id ` set (ps_work_units y)"
    "ps_work_units y = ps_work_units s" by auto
  have "handle_fan_out_started y = y"
    using y(1) by (auto simp: handle_fan_out_started_def)
  with step.hyps(2) have "fst ` set (ps_worker_states z) = fst ` set (ps_worker_states y)"
    by (cases rule: worker_step.cases) simp_all
  with units y show ?case by simp
qed

text \<open>
  A fan-out tracks exactly the declared work units: starting it on a fresh worker table creates one
  pending worker per work unit, and no sequence of worker events afterwards (starts, completions,
  failures of known or unknown units, resumes, repeated fan-out starts) adds, drops or renames a
  worker or touches the work units.
\<close>

theorem fan_out_tracks_work_units:
  assumes "ps_work_units s \<noteq> []" and "ps_worker_states s = []"
    and "worker_step\<^sup>*\<^sup>* (handle_fan_out_started s) s'"
  shows "(\<forall>uid. dict_has (ps_worker_states s') uid \<longleftrightarrow> uid \<in> wu_unit_id ` set (ps_work_units s))
       \<and> (\<forall>uid. dict_get (ps_worker_states (handle_fan_out_started s)) uid \<noteq> None \<longrightarrow>
            dict_get (ps_worker_states (handle_fan_out_started s)) uid = Some (pending_worker uid))
       \<and> ps_work_units s' = ps_work_units s"
proof -
  have units: "ps_work_units (handle_fan_out_started s) = ps_work_units s"
    by (rule worker_step_units [OF step_fan_out])
  have "uid \<in> fst ` set (ps_worker_states (handle_fan_out_started s))
      \<longleftrightarrow> uid \<in> wu_unit_id ` set (ps_work_units s)" for uid
    using fan_out_lookup [OF assms(1,2), of uid]
      dict_has_keys [of "ps_worker_states (handle_fan_out_started s)" uid] by (auto split: if_splits)
  then have "fst ` set (ps_worker_states (handle_fan_out_started s)) = wu_unit_id ` set (ps_work_units s)"
    by blast
  from worker_run_keys [OF assms(3)] this units show ?thesis
    using fan_out_lookup [OF assms(1,2)]
      dict_has_keys [of "ps_worker_states s'"] by (auto split: if_splits)
qed

definition demo_unit :: WorkUnit where
  "demo_unit = \<lparr>wu_unit_id = ''u1'', wu_description = ''first'', wu_allowed_directories = [],
                wu_dependencies = [], wu_step_ids = []\<rparr>"

definition fan_out_demo :: PipelineState where
  "fan_out_demo = (from_policy default_policy)\<lparr>ps_work_units := [demo_unit]\<rparr>"

theorem fan_out_tracks_work_units_witness:
  "dict_has (ps_worker_states
     (handle_worker_failed (handle_fan_out_started fan_out_demo) ''u2'' 1 ''boom'' 7)) ''u1''"
proof -
  have "worker_step\<^sup>*\<^sup>* (handle_fan_out_started fan_out_demo)
      (handle_worker_failed (handle_fan_out_started fan_out_demo) ''u2'' 1 ''boom'' 7)"
    by (rule r_into_rtranclp [of worker_step]) (rule step_failed)
  moreover have "ps_work_units fan_out_demo \<noteq> []" "ps_worker_states fan_out_demo = []"
    by (simp_all add: fan_out_demo_def from_policy_def)
  ultimately show ?thesis
    using fan_out_tracks_work_units [of fan_out_demo] by (auto simp: fan_out_demo_def demo_unit_def)
qed

end
