(* ===== verification/Reducer.thy ===== *)
theory Reducer
  imports Phase_Routing Worker_States "HOL-Library.List_Lexorder" "HOL-Library.Char_ord"
begin

text \<open>
  The reducer (\<^verbatim>\<open>ralph/pipeline/reducer.py\<close>): events, one handler per event, and \<^verbatim>\<open>reduce\<close>, which
  dispatches them. The recovery controller is an optional argument together with its classifier and
  the clock samples of the call; because the code mutates the controller, every result carries it
  back. \<open>now\<close> is the wall clock the worker handlers read.
\<close>

section \<open>Events\<close>

datatype PipelineEvent =
    AGENT_SUCCESS | AGENT_FAILURE | AGENT_RETRY | ANALYSIS_SUCCESS | ANALYSIS_LOOPBACK
  | PHASE_LOOPBACK | REVIEW_CLEAN | REVIEW_ISSUES_FOUND | FIX_SUCCESS | FIX_FAILURE
  | COMMIT_SUCCESS | COMMIT_RESIDUAL | COMMIT_SKIPPED | COMMIT_FAILURE | CHECKPOINT_SAVED
  | CONTEXT_CLEANED | INTERRUPTED | COMPLETE | EV_FAILED | PROMPT_PREPARED | PHASE_ADVANCE
  | FAN_OUT_STARTED | WORKERS_RESUMED | ALL_WORKERS_COMPLETE

record PhaseFailureEvent =
  pf_phase :: string
  pf_reason :: string
  pf_recoverable :: bool
  pf_retry_in_session :: bool
  pf_failure_category :: "FailureCategory option"
  pf_skip_same_agent_retries :: bool

datatype Event =
    PipelineEv PipelineEvent
  | PhaseFailureEv PhaseFailureEvent
  | ExecutionResultEv (er_phase: string) (er_status: string)
  | AnalysisDecisionEv (ad_phase: string) (ad_decision: string)
  | WorkerStartedEv (wst_unit_id: string)
  | WorkerCompletedEv (wc_unit_id: string) (wc_exit_code: int)
  | WorkerFailedEv (wf_unit_id: string) (wf_exit_code: int) (wf_error: string)
  | PostFanoutVerificationEv (pv_success: bool) (pv_exit_code: "int option") (pv_error: "string option")

type_synonym Recovery = "classifier \<times> ClockSamples \<times> RecoveryController"

text \<open>What a call returns: the controller as the call left it, the state and the effects.\<close>

type_synonym reduced = "(RecoveryController option \<times> PipelineState \<times> Effect list) result"

definition recovery_of :: "Recovery option \<Rightarrow> RecoveryController option" where
  "recovery_of rec = map_option (\<lambda>(classify, ck, rc). rc) rec"

definition keep_controller :: "Recovery option \<Rightarrow> outcome \<Rightarrow> reduced" where
  "keep_controller rec r = bind_r r (\<lambda>(s, effs). Inr (recovery_of rec, s, effs))"

section \<open>Failure texts\<close>

definition no_reason :: "string \<Rightarrow> string" where
  "no_reason phase = ''(no reason reported for phase='' @ phase @ '')''"

definition classified_failure_reason_for_event :: "PhaseFailureEvent \<Rightarrow> string" where
  "classified_failure_reason_for_event e =
     (let raw = (if pf_reason e \<noteq> [] then pf_reason e else no_reason (pf_phase e)) in
      case pf_failure_category e of None \<Rightarrow> raw
      | Some c \<Rightarrow> failure_category_prefix c @ '': '' @ raw)"

definition commit_failure_reason :: "PipelineState \<Rightarrow> string" where
  "commit_failure_reason s = ps_phase s @ '': Commit failed''"

section \<open>Agent failures\<close>

text \<open>
  \<^verbatim>\<open>_retry_or_fall_over\<close>: without a selection, three retries of the current agent and then the next one
  in the chain; with a selection, whatever agent it chose.
\<close>

definition retry_or_fall_over ::
    "PipelineState \<Rightarrow> AgentChainState \<Rightarrow> AgentSelection option \<Rightarrow> PipelineState option" where
  "retry_or_fall_over s c selection =
     (case selection of
        None \<Rightarrow>
          if acs_retries c < 3 then
            Some ((with_phase_chain (ps_phase s) (chain_with_retry_increment c) s)
                    \<lparr>ps_metrics := metrics_with_retry_increment (ps_metrics s)\<rparr>)
          else if acs_current_index c + 1 < length (acs_agents c) then
            Some ((with_phase_chain (ps_phase s) (chain_with_advance c) s)
                    \<lparr>ps_metrics := metrics_with_fallback_increment (ps_metrics s),
                     ps_last_agent_session_id := None,
                     ps_agent_retry_intent := cleared_agent_retry_intent\<rparr>)
          else None
      | Some sel \<Rightarrow> (case sel_index sel of
          None \<Rightarrow> None
        | Some i \<Rightarrow>
            if i = acs_current_index c then
              Some ((with_phase_chain (ps_phase s) (chain_with_retry_increment c) s)
                      \<lparr>ps_metrics := metrics_with_retry_increment (ps_metrics s),
                       ps_is_waiting_state := False\<rparr>)
            else
              Some ((with_phase_chain (ps_phase s)
                       \<lparr>acs_agents = acs_agents c, acs_current_index = i, acs_retries = 0\<rparr> s)
                      \<lparr>ps_metrics := metrics_with_fallback_increment (ps_metrics s),
                       ps_last_agent_session_id := None,
                       ps_agent_retry_intent := cleared_agent_retry_intent,
                       ps_is_waiting_state := False\<rparr>)))"

definition all_agents_unavailable_wait_state ::
    "PipelineState \<Rightarrow> AgentChainState \<Rightarrow> AgentSelection option \<Rightarrow> Recovery option \<Rightarrow> PipelineState option" where
  "all_agents_unavailable_wait_state s c selection rec =
     (case (selection, rec) of
        (Some sel, Some (classify, ck, rc)) \<Rightarrow>
          if sel_index sel \<noteq> None \<or> agents_now_available rc (ps_phase s) (acs_agents c) (ck_check_ms ck) \<noteq> []
          then None
          else Some (s\<lparr>ps_last_error := Some ''all agents unavailable; waiting for cooldown expiry'',
                       ps_last_retry_delay_ms :=
                         earliest_available_wait_ms rc (ps_phase s) (acs_agents c) (ck_recheck_ms ck) (ck_wait_ms ck),
                       ps_is_waiting_state := True\<rparr>)
      | _ \<Rightarrow> None)"

definition selection_attempt ::
    "PipelineState \<Rightarrow> AgentChainState \<Rightarrow> AgentSelection option \<Rightarrow> Recovery option \<Rightarrow> PipelineState option" where
  "selection_attempt s c selection rec =
     (case retry_or_fall_over s c selection of
        Some s' \<Rightarrow> Some s'
      | None \<Rightarrow> all_agents_unavailable_wait_state s c selection rec)"

text \<open>
  Recording an exhausted allowance and asking the controller for the preferred agent; with no
  controller there is no selection.
\<close>

definition note_and_select ::
    "Recovery option \<Rightarrow> string \<Rightarrow> AgentChainState \<Rightarrow> string option \<Rightarrow> bool
     \<Rightarrow> Recovery option \<times> AgentSelection option" where
  "note_and_select rec phase c noted spent =
     (case rec of
        None \<Rightarrow> (None, None)
      | Some (classify, ck, rc) \<Rightarrow>
          (let rc' = (case noted of None \<Rightarrow> rc | Some a \<Rightarrow> note_retry_exhaustion phase a rc)
           in (Some (classify, ck, rc'),
               Some (preferred_agent_index rc' phase (acs_agents c) (Some (acs_current_index c)) spent
                       (ck_select_ms ck)))))"

definition handle_skip_same_agent_retries ::
    "PipelineState \<Rightarrow> AgentChainState \<Rightarrow> PipelinePolicy option \<Rightarrow> Recovery option \<Rightarrow> reduced" where
  "handle_skip_same_agent_retries s c pol rec =
     (if rec \<noteq> None \<and> length (acs_agents c) \<le> acs_current_index c
      then Inl (IndexError ''list index out of range'')
      else
        (let (rec', selection) = note_and_select rec (ps_phase s) c
               (if rec = None then None else Some (acs_agents c ! acs_current_index c)) True in
         case (if rec = None then None else selection_attempt s c selection rec') of
           Some s' \<Rightarrow> Inr (recovery_of rec', s', [])
         | None \<Rightarrow>
             if acs_current_index c + 1 < length (acs_agents c) then
               Inr (recovery_of rec', (with_phase_chain (ps_phase s) (chain_with_advance c) s)
                      \<lparr>ps_metrics := metrics_with_fallback_increment (ps_metrics s),
                       ps_last_agent_session_id := None,
                       ps_agent_retry_intent := cleared_agent_retry_intent\<rparr>, [])
             else keep_controller rec' (enter_failed_recovery s
                    (failure_reason_or s (''Agent chain exhausted in phase='' @ quoted (ps_phase s)
                       @ '' after context-exhausted agent requested fallback'')) pol)))"

text \<open>\<^verbatim>\<open>workflow_fallback\<close> of a phase, if the policy declares one.\<close>

definition fallback_target :: "PipelinePolicy option \<Rightarrow> string \<Rightarrow> (PipelinePolicy \<times> string) option" where
  "fallback_target pol phase =
     (case pol of None \<Rightarrow> None
      | Some P \<Rightarrow> (case phase_of P phase of None \<Rightarrow> None
          | Some d \<Rightarrow> map_option (Pair P) (pd_workflow_fallback d)))"

definition advance_to_fallback ::
    "PipelineState \<Rightarrow> PipelinePolicy \<Rightarrow> string \<Rightarrow> RoutingTiming option \<Rightarrow> (PipelineState \<Rightarrow> PipelineState) \<Rightarrow> outcome" where
  "advance_to_fallback s P target timing mark =
     bind_r (prepare_phase_advance s target (Some P) timing) (\<lambda>(s1, t1).
       bind_r (advance_phase s1 t1 (Some P)) (\<lambda>s2.
         bind_r (apply_execution_cycle_outcome s (mark s2) P) (\<lambda>s3. Inr (s3, []))))"

definition handle_agent_failure ::
    "PipelineState \<Rightarrow> PipelinePolicy option \<Rightarrow> RoutingTiming option \<Rightarrow> Recovery option \<Rightarrow> reduced" where
  "handle_agent_failure s pol timing rec =
     (case chain_for_phase s (ps_phase s) of
        None \<Rightarrow> keep_controller rec (enter_failed_recovery s
                  (failure_reason_or s (''No tracked agent chain for '' @ ps_phase s)) pol)
      | Some c \<Rightarrow>
          bind_r (redirect_expired_cycle_in_place s pol timing) (\<lambda>expired.
            case expired of
              Some r \<Rightarrow> keep_controller rec (Inr r)
            | None \<Rightarrow>
                if ari_skip_same_agent_retries (ps_agent_retry_intent s)
                then handle_skip_same_agent_retries s c pol rec
                else
                  (let spent = (3 \<le> acs_retries c);
                       (rec', selection) = note_and_select rec (ps_phase s) c
                         (if spent \<and> acs_current_index c < length (acs_agents c)
                          then Some (acs_agents c ! acs_current_index c) else None) spent in
                   case selection_attempt s c selection rec' of
                     Some s' \<Rightarrow> Inr (recovery_of rec', s', [])
                   | None \<Rightarrow> (case fallback_target pol (ps_phase s) of
                       Some (P, target) \<Rightarrow> keep_controller rec' (advance_to_fallback s P target timing id)
                     | None \<Rightarrow> keep_controller rec' (enter_failed_recovery s
                         (failure_reason_or s (''Agent chain exhausted in phase='' @ quoted (ps_phase s)
                            @ '' after '' @ nat_str (acs_retries c) @ '' retries across ''
                            @ nat_str (length (acs_agents c)) @ '' agents'')) pol)))))"

definition handle_phase_failure ::
    "PipelineState \<Rightarrow> PhaseFailureEvent \<Rightarrow> PipelinePolicy option \<Rightarrow> RoutingTiming option \<Rightarrow> reduced" where
  "handle_phase_failure s e pol timing =
     (let msg = (if pf_reason e \<noteq> [] \<and> str_strip (pf_reason e) \<noteq> []
                 then pf_phase e @ '': '' @ pf_reason e else no_reason (pf_phase e)) in
      if pf_recoverable e then
        bind_r (if pf_retry_in_session e \<and> truthy (ps_last_agent_session_id s)
                then resume_agent_retry_intent (the (ps_last_agent_session_id s)) msg False
                else Inr cleared_agent_retry_intent) (\<lambda>intent.
          handle_agent_failure
            (s\<lparr>ps_last_error := Some msg,
               ps_agent_retry_intent :=
                 (if pf_skip_same_agent_retries e
                  then cleared_agent_retry_intent
                         \<lparr>ari_failure_reason := msg, ari_skip_same_agent_retries := True\<rparr>
                  else intent)\<rparr>) pol timing None)
      else case fallback_target pol (pf_phase e) of
        Some (P, target) \<Rightarrow> keep_controller None
          (advance_to_fallback s P target timing (\<lambda>t. t\<lparr>ps_last_error := Some msg\<rparr>))
      | None \<Rightarrow> keep_controller None (enter_failed_recovery s msg pol))"

definition handle_agent_retry :: "PipelineState \<Rightarrow> PipelinePolicy option \<Rightarrow> RoutingTiming option \<Rightarrow> outcome" where
  "handle_agent_retry s pol timing =
     bind_r (redirect_expired_cycle_in_place s pol timing) (\<lambda>expired.
       case expired of
         Some r \<Rightarrow> Inr r
       | None \<Rightarrow> (case chain_for_phase s (ps_phase s) of
           None \<Rightarrow> enter_failed_recovery s
             (failure_reason_or s (''No tracked agent chain for '' @ ps_phase s)) None
         | Some c \<Rightarrow> Inr ((with_phase_chain (ps_phase s) (chain_with_retry_increment c) s)
             \<lparr>ps_metrics := metrics_with_continuation_increment (ps_metrics s)\<rparr>, [])))"

section \<open>Analysis and execution results\<close>

definition handle_analysis_success :: "PipelineState \<Rightarrow> PipelinePolicy option \<Rightarrow> RoutingTiming option \<Rightarrow> outcome" where
  "handle_analysis_success s pol timing =
     (case pol of
        None \<Rightarrow> advance_to_failed s ''No policy loaded for analysis success routing'' pol
      | Some P \<Rightarrow>
          catch_value_error
            (bind_r (resolve_next_phase (ps_phase s) ''success'' P) (\<lambda>next_phase.
               let stamped = stamp_outcome (declared_forward_cycle_outcome (ps_phase s) P) s in
               bind_r (reducer_advance_phase stamped next_phase pol timing) (\<lambda>(s1, effs).
                 let s2 = apply_analysis_success stamped s1 pol;
                     counter = (case phase_of P (ps_phase s) of None \<Rightarrow> None
                       | Some d \<Rightarrow> (case dict_get (pd_decisions d) ''completed'' of None \<Rightarrow> None
                           | Some r \<Rightarrow> dr_increments_counter r))
                 in Inr (apply_budget_counter_increment s s2 counter, effs))))
            (\<lambda>m. advance_to_failed s
               (''Routing error after analysis success in '' @ quoted (ps_phase s) @ '': '' @ m) pol))"

definition handle_agent_success :: "PipelineState \<Rightarrow> PipelinePolicy option \<Rightarrow> RoutingTiming option \<Rightarrow> outcome" where
  "handle_agent_success s0 pol timing =
     (let s = (if 0 < ps_last_retry_delay_ms s0 then s0\<lparr>ps_last_retry_delay_ms := 0\<rparr> else s0) in
      case pol of
        None \<Rightarrow> advance_to_failed s ''No policy loaded for agent success routing'' pol
      | Some P \<Rightarrow> (case phase_of P (ps_phase s) of
          None \<Rightarrow> advance_to_failed s (''Unknown phase: '' @ ps_phase s) pol
        | Some d \<Rightarrow>
            if pd_role d = Some RoleCommit \<and> \<not> agent_invoked (ps_commit s) then
              Inr (s\<lparr>ps_commit := (ps_commit s)\<lparr>agent_invoked := True\<rparr>\<rparr>, [])
            else if pd_role d = Some RoleAnalysis then handle_analysis_success s pol timing
            else resolve_or_terminal s ''success'' P ''agent success'' timing))"

definition handle_execution_result ::
    "PipelineState \<Rightarrow> string \<Rightarrow> string \<Rightarrow> PipelinePolicy option \<Rightarrow> RoutingTiming option \<Rightarrow> outcome" where
  "handle_execution_result s phase status pol timing =
     (case pol of
        None \<Rightarrow> advance_to_failed s ''No policy loaded for execution result routing'' pol
      | Some P \<Rightarrow>
          if phase \<noteq> ps_phase s then
            advance_to_failed s (''Execution result phase '' @ quoted phase
              @ '' does not match active phase '' @ quoted (ps_phase s)) pol
          else (case phase_of P phase of
              None \<Rightarrow> advance_to_failed s
                (''Execution result references non-execution phase '' @ quoted phase) pol
            | Some d \<Rightarrow>
                if pd_role d \<noteq> Some RoleExecution then
                  advance_to_failed s (''Execution result references non-execution phase '' @ quoted phase) pol
                else resolve_or_terminal
                  (s\<lparr>ps_post_commit_phase_override := dict_get (pd_result_status_post_commit d) status,
                     ps_last_execution_result_status := Some status\<rparr>)
                  ''success'' P ''execution result'' timing))"

definition handle_analysis_loopback :: "PipelineState \<Rightarrow> PipelinePolicy option \<Rightarrow> RoutingTiming option \<Rightarrow> outcome" where
  "handle_analysis_loopback s pol timing =
     (case pol of
        None \<Rightarrow> advance_to_failed s ''No policy loaded for analysis loopback routing'' pol
      | Some P \<Rightarrow> (case phase_of P (ps_phase s) of
          None \<Rightarrow> advance_to_failed s (''Unknown phase for analysis loopback: '' @ ps_phase s) pol
        | Some d \<Rightarrow> (case pd_loop_policy d of
            Some lp \<Rightarrow>
              if pd_role d = Some RoleAnalysis
              then handle_capped_phase_loopback_policy_driven s P d (loopback_review_outcome lp) timing
              else resolve_or_terminal s ''loopback'' P ''analysis loopback'' timing
          | None \<Rightarrow> resolve_or_terminal s ''loopback'' P ''analysis loopback'' timing)))"

definition handle_phase_loopback :: "PipelineState \<Rightarrow> PipelinePolicy option \<Rightarrow> RoutingTiming option \<Rightarrow> outcome" where
  "handle_phase_loopback s pol timing =
     (case pol of
        None \<Rightarrow> advance_to_failed s ''No policy loaded for phase loopback routing'' pol
      | Some P \<Rightarrow> (case phase_of P (ps_phase s) of
          None \<Rightarrow> advance_to_failed s (''Unknown phase for loopback: '' @ ps_phase s) pol
        | Some d \<Rightarrow>
            if pd_loop_policy d \<noteq> None
            then handle_capped_phase_loopback_policy_driven s P d None timing
            else resolve_or_terminal s ''loopback'' P ''phase loopback'' timing))"

text \<open>The loop accounting of a decision, before routing: reset on a forward exit, charge on a loopback.\<close>

definition decision_loop_accounting ::
    "PipelineState \<Rightarrow> string \<Rightarrow> PhaseDefinition \<Rightarrow> PhaseDecisionRoute \<Rightarrow> PipelinePolicy \<Rightarrow> PipelineState result" where
  "decision_loop_accounting s phase d r P =
     (case pd_loop_policy d of
        None \<Rightarrow> Inr s
      | Some lp \<Rightarrow>
          if dr_reset_loop r then Inr (with_loop_iteration (iteration_state_field lp) 0 s)
          else bind_r (resolve_analysis_cap (iteration_state_field lp) P) (\<lambda>cap.
            Inr (apply_analysis_loopback s s (iteration_state_field lp) cap (loopback_review_outcome lp)
                   (\<not> analysis_loopback_is_already_charged phase s P))))"

definition handle_analysis_decision ::
    "PipelineState \<Rightarrow> string \<Rightarrow> string \<Rightarrow> PipelinePolicy option \<Rightarrow> RoutingTiming option \<Rightarrow> outcome" where
  "handle_analysis_decision s phase decision pol timing =
     (case pol of
        None \<Rightarrow> advance_to_failed s ''No policy loaded for analysis decision routing'' pol
      | Some P \<Rightarrow> (case phase_of P phase of
          None \<Rightarrow> advance_to_failed s (''Unknown phase for analysis decision: '' @ phase) pol
        | Some d \<Rightarrow> (case dict_get (pd_decisions d) decision of
            None \<Rightarrow> advance_to_failed s (''Phase '' @ quoted phase @ '' has no policy route for decision ''
              @ quoted decision @ ''. Add it to phases.'' @ phase
              @ ''.decisions or update the artifact decision_vocabulary.'') pol
          | Some r \<Rightarrow>
              bind_r (decision_loop_accounting s phase d r P) (\<lambda>s1.
                let s2 = apply_budget_counter_increment s s1 (dr_increments_counter r);
                    s3 = (case dr_cycle_outcome r of None \<Rightarrow> s2
                          | Some oc \<Rightarrow> s2\<lparr>ps_pending_cycle_outcome := Some oc\<rparr>) in
                if dr_target r = failed_route P \<or> \<not> dict_has (pp_phases P) (dr_target r) then
                  enter_failed_recovery s3
                    (failure_reason_or s (''Analysis decision '' @ quoted decision @ '' in phase ''
                       @ quoted phase @ '' routes to terminal failure target '' @ quoted (dr_target r))) pol
                else
                  bind_r (prepare_phase_advance s3 (dr_target r) pol timing) (\<lambda>(s4, t).
                    bind_r (advance_phase s4 t pol) (\<lambda>s5. Inr (restore_work_units s s5, [])))))))"

section \<open>Review, fix and commit\<close>

definition handle_review_clean :: "PipelineState \<Rightarrow> PipelinePolicy option \<Rightarrow> RoutingTiming option \<Rightarrow> outcome" where
  "handle_review_clean s pol timing =
     (case pol of
        None \<Rightarrow> advance_to_failed s ''No policy loaded for review clean routing'' pol
      | Some P \<Rightarrow>
          (let bypass = (case phase_of P (ps_phase s) of None \<Rightarrow> None
             | Some d \<Rightarrow> (case pd_clean_outcome d of None \<Rightarrow> None
                 | Some oc \<Rightarrow> dict_get (pd_bypass_routes d) oc))
           in bind_r (case bypass of
                Some next_phase \<Rightarrow> reducer_advance_phase s next_phase pol timing
              | None \<Rightarrow> resolve_or_terminal s ''success'' P ''review clean'' timing) (\<lambda>(s1, effs).
                Inr (s1\<lparr>ps_review_outcome := None\<rparr>, effs))))"

definition handle_review_issues_found :: "PipelineState \<Rightarrow> PipelinePolicy option \<Rightarrow> RoutingTiming option \<Rightarrow> outcome" where
  "handle_review_issues_found s pol timing =
     (case pol of
        None \<Rightarrow> advance_to_failed s ''No policy loaded for review issues found routing'' pol
      | Some P \<Rightarrow> (case phase_of P (ps_phase s) of
          None \<Rightarrow> advance_to_failed s (''Unknown phase for review issues found: '' @ ps_phase s) pol
        | Some d \<Rightarrow> (case pd_issues_outcome d of
            None \<Rightarrow> advance_to_failed s (''Phase '' @ quoted (ps_phase s) @ '' has role=''
              @ quoted ''review'' @ '' but issues_outcome is not declared. ''
              @ ''Add issues_outcome to the phase in pipeline.toml. See docs/sphinx/concepts.md.'') pol
          | Some oc \<Rightarrow> bind_r (resolve_or_terminal s ''loopback'' P ''review issues found'' timing) (\<lambda>(s1, effs).
              Inr (s1\<lparr>ps_review_outcome := Some oc\<rparr>, effs)))))"

definition handle_fix_success :: "PipelineState \<Rightarrow> PipelinePolicy option \<Rightarrow> RoutingTiming option \<Rightarrow> outcome" where
  "handle_fix_success s pol timing =
     (case pol of
        None \<Rightarrow> advance_to_failed s ''No policy loaded for fix success routing'' pol
      | Some P \<Rightarrow> resolve_or_terminal s ''success'' P ''fix success'' timing)"

definition handle_fix_failure :: "PipelineState \<Rightarrow> PipelinePolicy option \<Rightarrow> RoutingTiming option \<Rightarrow> outcome" where
  "handle_fix_failure s pol timing =
     (case pol of
        None \<Rightarrow> advance_to_failed s ''No policy loaded for fix failure routing'' pol
      | Some P \<Rightarrow>
          catch_value_error
            (bind_r (resolve_next_phase (ps_phase s) ''failure'' P) (\<lambda>next_phase.
               if next_phase = failed_route P \<or> \<not> dict_has (pp_phases P) next_phase
               then enter_failed_recovery s (failure_reason_or s ''Fix phase failed'') pol
               else reducer_advance_phase s next_phase pol timing))
            (\<lambda>m. advance_to_failed s
               (''Routing error after fix failure in '' @ quoted (ps_phase s) @ '': '' @ m) pol))"

text \<open>\<^verbatim>\<open>_handle_commit_success\<close> and \<^verbatim>\<open>_handle_commit_skipped\<close> differ in one flag and one word.\<close>

definition handle_commit_outcome ::
    "bool \<Rightarrow> string \<Rightarrow> PipelineState \<Rightarrow> PipelinePolicy option \<Rightarrow> RoutingTiming option \<Rightarrow> outcome" where
  "handle_commit_outcome skipped label s pol timing =
     (case pol of
        None \<Rightarrow> advance_to_failed s (''No policy loaded for commit '' @ label @ '' routing'') pol
      | Some P \<Rightarrow>
          catch_value_error
            (bind_r (apply_commit_outcome s s skipped pol) (\<lambda>s1.
               bind_r (resolve_post_commit_phase s1 P) (\<lambda>next_phase.
                 let s2 = (if ps_post_commit_phase_override s1 \<noteq> None
                           then consume_post_commit_phase_override s1 else s1);
                     s3 = (if commit_closes_a_cycle (ps_phase s) P
                           then s2\<lparr>ps_pending_cycle_outcome := None\<rparr> else s2)
                 in advance_through_invocation_gate s3 next_phase P timing)))
            (\<lambda>m. advance_to_failed s
               (''Routing error after commit '' @ label @ '' in '' @ quoted (ps_phase s) @ '': '' @ m) pol))"

definition handle_commit_success :: "PipelineState \<Rightarrow> PipelinePolicy option \<Rightarrow> RoutingTiming option \<Rightarrow> outcome" where
  "handle_commit_success s pol timing = handle_commit_outcome False ''success'' s pol timing"

definition handle_commit_skipped :: "PipelineState \<Rightarrow> PipelinePolicy option \<Rightarrow> RoutingTiming option \<Rightarrow> outcome" where
  "handle_commit_skipped s pol timing = handle_commit_outcome True ''skipped'' s pol timing"

definition handle_commit_residual :: "PipelineState \<Rightarrow> PipelinePolicy option \<Rightarrow> RoutingTiming option \<Rightarrow> outcome" where
  "handle_commit_residual s pol timing =
     (case pol of
        None \<Rightarrow> advance_to_failed s ''No policy loaded for residual commit routing'' pol
      | Some P \<Rightarrow> reducer_advance_phase s (ps_phase s) pol timing)"

definition handle_commit_failure :: "PipelineState \<Rightarrow> PipelinePolicy option \<Rightarrow> outcome" where
  "handle_commit_failure s pol = enter_failed_recovery s (commit_failure_reason s) pol"

section \<open>Run control\<close>

definition handle_checkpoint_saved :: "PipelineState \<Rightarrow> PipelineState" where
  "handle_checkpoint_saved s = s\<lparr>ps_checkpoint_saved_count := ps_checkpoint_saved_count s + 1\<rparr>"

definition handle_interrupted :: "PipelineState \<Rightarrow> PipelineState \<times> Effect list" where
  "handle_interrupted s = (s\<lparr>ps_interrupted_by_user := True\<rparr>, [SaveCheckpointEffect])"

definition handle_complete :: "PipelineState \<Rightarrow> PipelinePolicy option \<Rightarrow> outcome" where
  "handle_complete s pol =
     bind_r (terminal_success_route pol) (\<lambda>terminal.
       bind_r (advance_phase s terminal pol) (\<lambda>s'. Inr (s', [])))"

definition handle_failed :: "PipelineState \<Rightarrow> PipelinePolicy option \<Rightarrow> outcome" where
  "handle_failed s pol =
     enter_failed_recovery s
       (failure_reason_or s (''Pipeline terminated in phase='' @ quoted (ps_phase s)
          @ '' with no explicit error; check upstream last_error propagation'')) pol"

definition handle_phase_advance :: "PipelineState \<Rightarrow> PipelinePolicy option \<Rightarrow> RoutingTiming option \<Rightarrow> outcome" where
  "handle_phase_advance s pol timing =
     (case pol of
        None \<Rightarrow> advance_to_failed s ''No policy loaded for phase advance routing'' pol
      | Some P \<Rightarrow> resolve_or_terminal s ''success'' P ''phase advance'' timing)"

definition handle_all_workers_complete :: "PipelineState \<Rightarrow> PipelinePolicy option \<Rightarrow> RoutingTiming option \<Rightarrow> outcome" where
  "handle_all_workers_complete s pol timing =
     (if ps_worker_states s = [] then Inr (s, [])
      else
        (let failed_unit_ids = sort (map fst (filter (\<lambda>(uid, w). ws_status w \<in> {FAILED, CANCELLED})
               (ps_worker_states s))) in
         if failed_unit_ids \<noteq> [] then
           enter_failed_recovery s (''Parallel fan-out had failed workers: ''
             @ str_join '', '' failed_unit_ids) pol
         else if list_ex (\<lambda>(uid, w). ws_status w \<noteq> SUCCEEDED) (ps_worker_states s) then Inr (s, [])
         else case pol of
           None \<Rightarrow> advance_to_failed s ''No policy loaded for all-workers-complete routing'' pol
         | Some P \<Rightarrow>
             catch_value_error
               (bind_r (resolve_next_phase (ps_phase s) ''success'' P) (\<lambda>next_phase.
                  reducer_advance_phase s next_phase pol timing))
               (\<lambda>m. advance_to_failed s (''No '' @ quoted ''success'' @ '' transition defined in phase ''
                  @ quoted (ps_phase s) @ '' for all-workers-complete'') pol)))"

section \<open>Delegation to the recovery controller\<close>

text \<open>A failed route out of an execution phase is charged to its analysis loop.\<close>

definition charge_if_phase_left ::
    "PipelinePolicy option \<Rightarrow> PipelineState \<Rightarrow> PipelineState \<Rightarrow> PipelineState result" where
  "charge_if_phase_left pol s s1 =
     (case pol of
        None \<Rightarrow> Inr s1
      | Some P \<Rightarrow> if ps_phase s1 \<noteq> ps_phase s then apply_execution_cycle_outcome s s1 P else Inr s1)"

definition delegate ::
    "PipelinePolicy option \<Rightarrow> PipelineState \<Rightarrow> Recovery \<Rightarrow> RawFailure \<Rightarrow> FailureContext \<Rightarrow> reduced" where
  "delegate pol s rec raw ctx =
     (case rec of (classify, ck, rc) \<Rightarrow>
       bind_r (handle classify ck rc s raw ctx) (\<lambda>(rc', s1, effs, evt).
         bind_r (charge_if_phase_left pol s s1) (\<lambda>s2.
           Inr (Some rc', restore_work_units s s2, effs))))"

definition failure_context :: "PipelineState \<Rightarrow> string \<Rightarrow> bool \<Rightarrow> ClassifiedFailure option \<Rightarrow> FailureContext" where
  "failure_context s phase in_session f =
     \<lparr>fc_phase = phase, fc_agent = current_agent s, fc_retry_in_session = in_session,
      fc_classified_failure = f\<rparr>"

definition reduce_phase_failure ::
    "PipelineState \<Rightarrow> PhaseFailureEvent \<Rightarrow> PipelinePolicy option \<Rightarrow> Recovery option \<Rightarrow> RoutingTiming option \<Rightarrow> reduced" where
  "reduce_phase_failure s e pol rec timing =
     (case rec of
        None \<Rightarrow> handle_phase_failure s e pol timing
      | Some r \<Rightarrow>
          bind_r (redirect_expired_cycle_in_place s pol timing) (\<lambda>expired.
            case expired of
              Some x \<Rightarrow> keep_controller rec (Inr x)
            | None \<Rightarrow>
                (let raw = (if pf_reason e \<noteq> [] then pf_reason e else no_reason (pf_phase e));
                     f = map_option (\<lambda>cat.
                       \<lparr>cf_category = cat, cf_reason = classified_failure_reason_for_event e,
                        cf_attributed_agent = None, cf_attributed_phase = pf_phase e,
                        cf_counts_against_budget = False, cf_original_exception = None,
                        cf_raw_message = raw, cf_reset_session = False,
                        cf_reset_tool_registry = False, cf_is_unavailable = False,
                        cf_watchdog_reason = None, cf_unavailability_reason = None,
                        cf_resumable_session_id = None\<rparr>) (pf_failure_category e)
                 in delegate pol s r (RawMessage raw)
                      (failure_context s (pf_phase e) (pf_retry_in_session e) f))))"

definition captured_failure :: "AgentRetryIntent \<Rightarrow> RawFailure option" where
  "captured_failure i =
     (case ari_failed_agent_name i of
        None \<Rightarrow> None
      | Some name \<Rightarrow>
          if ari_failure_reason i = ''BrokenAgentExitError'' then
            map_option (\<lambda>r. BrokenAgentExitError name r
                (case ari_broken_agent_returncode i of None \<Rightarrow> 0 | Some n \<Rightarrow> n) (ari_broken_agent_stderr i))
              (ari_broken_agent_reason i)
          else if ari_failure_reason i = ''PiContextExhaustedExitError'' then
            Some (PiContextExhaustedExitError name)
          else None)"

definition reduce_captured_agent_failure ::
    "PipelineState \<Rightarrow> PipelinePolicy option \<Rightarrow> Recovery option \<Rightarrow> RoutingTiming option \<Rightarrow> reduced option" where
  "reduce_captured_agent_failure s pol rec timing =
     (if ari_failed_agent_name (ps_agent_retry_intent s) = None then None
      else case rec of
        None \<Rightarrow> None
      | Some r \<Rightarrow> (case redirect_expired_cycle_in_place s pol timing of
          Inl e \<Rightarrow> Some (Inl e)
        | Inr (Some x) \<Rightarrow> Some (keep_controller rec (Inr x))
        | Inr None \<Rightarrow> (case captured_failure (ps_agent_retry_intent s) of
            None \<Rightarrow> None
          | Some raw \<Rightarrow> Some (delegate pol s r raw (failure_context s (ps_phase s) False None)))))"

definition reduce_worker_failed ::
    "PipelineState \<Rightarrow> string \<Rightarrow> int \<Rightarrow> string \<Rightarrow> PipelinePolicy option \<Rightarrow> Recovery option \<Rightarrow> RoutingTiming option
     \<Rightarrow> timestamp \<Rightarrow> reduced" where
  "reduce_worker_failed s uid code err pol rec timing now =
     bind_r (redirect_expired_cycle_in_place s pol timing) (\<lambda>expired.
       case expired of
         Some x \<Rightarrow> keep_controller rec (Inr x)
       | None \<Rightarrow> (case rec of
           None \<Rightarrow> Inr (None, restore_work_units s (handle_worker_failed s uid code err now), [])
         | Some (classify, ck, rc) \<Rightarrow>
             bind_r (handle classify ck rc s
                 (RawMessage (if err \<noteq> [] then err
                    else ''Worker '' @ uid @ '' failed: exit code '' @ int_str code))
                 (failure_context s (ps_phase s) False None)) (\<lambda>(rc', s1, effs, evt).
               case dict_get (ps_worker_states s) uid of
                 None \<Rightarrow> Inl (KeyError uid)
               | Some w \<Rightarrow> Inr (Some rc', restore_work_units s
                   (s1\<lparr>ps_worker_states := dict_set uid (failed_worker w code err now) (ps_worker_states s1)\<rparr>),
                   effs))))"

section \<open>Dispatch\<close>

text \<open>The handler table; \<^verbatim>\<open>PROMPT_PREPARED\<close> has no entry.\<close>

definition event_handler :: "PipelineEvent \<Rightarrow> (PipelineState \<Rightarrow> PipelinePolicy option \<Rightarrow> RoutingTiming option \<Rightarrow> outcome) option" where
  "event_handler e = (case e of
     AGENT_SUCCESS \<Rightarrow> Some handle_agent_success
   | AGENT_FAILURE \<Rightarrow> Some (\<lambda>s pol timing.
       bind_r (handle_agent_failure s pol timing None) (\<lambda>(rc, s', effs). Inr (s', effs)))
   | AGENT_RETRY \<Rightarrow> Some handle_agent_retry
   | ANALYSIS_SUCCESS \<Rightarrow> Some handle_analysis_success
   | ANALYSIS_LOOPBACK \<Rightarrow> Some handle_analysis_loopback
   | PHASE_LOOPBACK \<Rightarrow> Some handle_phase_loopback
   | REVIEW_CLEAN \<Rightarrow> Some handle_review_clean
   | REVIEW_ISSUES_FOUND \<Rightarrow> Some handle_review_issues_found
   | FIX_SUCCESS \<Rightarrow> Some handle_fix_success
   | FIX_FAILURE \<Rightarrow> Some handle_fix_failure
   | COMMIT_SUCCESS \<Rightarrow> Some handle_commit_success
   | COMMIT_RESIDUAL \<Rightarrow> Some handle_commit_residual
   | COMMIT_SKIPPED \<Rightarrow> Some handle_commit_skipped
   | COMMIT_FAILURE \<Rightarrow> Some (\<lambda>s pol timing. handle_commit_failure s pol)
   | CHECKPOINT_SAVED \<Rightarrow> Some (\<lambda>s pol timing. Inr (handle_checkpoint_saved s, []))
   | CONTEXT_CLEANED \<Rightarrow> Some (\<lambda>s pol timing. Inr (s, []))
   | INTERRUPTED \<Rightarrow> Some (\<lambda>s pol timing. Inr (handle_interrupted s))
   | COMPLETE \<Rightarrow> Some (\<lambda>s pol timing. handle_complete s pol)
   | EV_FAILED \<Rightarrow> Some (\<lambda>s pol timing. handle_failed s pol)
   | PROMPT_PREPARED \<Rightarrow> None
   | PHASE_ADVANCE \<Rightarrow> Some handle_phase_advance
   | FAN_OUT_STARTED \<Rightarrow> Some (\<lambda>s pol timing. Inr (handle_fan_out_started s, []))
   | WORKERS_RESUMED \<Rightarrow> Some (\<lambda>s pol timing. Inr (handle_workers_resumed s, []))
   | ALL_WORKERS_COMPLETE \<Rightarrow> Some handle_all_workers_complete)"

definition reduce_pipeline_event ::
    "PipelineState \<Rightarrow> PipelineEvent \<Rightarrow> PipelinePolicy option \<Rightarrow> Recovery option \<Rightarrow> RoutingTiming option \<Rightarrow> reduced" where
  "reduce_pipeline_event s e pol rec timing =
     (case event_handler e of
        None \<Rightarrow> Inr (recovery_of rec, s, [])
      | Some h \<Rightarrow> keep_controller rec (bind_r (h s pol timing) (\<lambda>(s', effs).
          Inr (restore_work_units s s', effs))))"

definition reduce_post_fanout_verification ::
    "PipelineState \<Rightarrow> bool \<Rightarrow> int option \<Rightarrow> string option \<Rightarrow> PipelinePolicy option \<Rightarrow> outcome" where
  "reduce_post_fanout_verification s success code err pol =
     (if success then Inr (s, [])
      else bind_r (enter_failed_recovery s
               (if truthy err then the err
                else ''workspace verification failed (exit code ''
                  @ (case code of None \<Rightarrow> ''None'' | Some n \<Rightarrow> int_str n) @ '')'') pol) (\<lambda>(s', effs).
             Inr (restore_work_units s s', [])))"

definition reduce ::
    "PipelineState \<Rightarrow> Event \<Rightarrow> PipelinePolicy option \<Rightarrow> Recovery option \<Rightarrow> RoutingTiming option \<Rightarrow> timestamp \<Rightarrow> reduced" where
  "reduce s event pol rec timing now =
     (case event of
        PostFanoutVerificationEv ok code err \<Rightarrow>
          keep_controller rec (reduce_post_fanout_verification s ok code err pol)
      | PhaseFailureEv e \<Rightarrow> reduce_phase_failure s e pol rec timing
      | AnalysisDecisionEv phase decision \<Rightarrow>
          keep_controller rec (handle_analysis_decision s phase decision pol timing)
      | ExecutionResultEv phase status \<Rightarrow>
          keep_controller rec (handle_execution_result s phase status pol timing)
      | WorkerStartedEv uid \<Rightarrow>
          Inr (recovery_of rec, restore_work_units s (handle_worker_started s uid now), [])
      | WorkerCompletedEv uid code \<Rightarrow>
          Inr (recovery_of rec, restore_work_units s (handle_worker_completed s uid code now), [])
      | WorkerFailedEv uid code err \<Rightarrow> reduce_worker_failed s uid code err pol rec timing now
      | PipelineEv e \<Rightarrow>
          if e = AGENT_FAILURE then
            (case reduce_captured_agent_failure s pol rec timing of
               Some r \<Rightarrow> r
             | None \<Rightarrow>
                 if rec \<noteq> None then
                   bind_r (handle_agent_failure s pol timing rec) (\<lambda>(rc, s', effs).
                     Inr (rc, restore_work_units s s', effs))
                 else reduce_pipeline_event s e pol rec timing)
          else reduce_pipeline_event s e pol rec timing)"

end
