(* ===== verification/Reducer_Invariants.thy ===== *)
theory Reducer_Invariants
  imports Reducer
begin

text \<open>
  Invariants of the reducer. One step on a well-formed policy keeps the run in a declared phase, the
  loop counters within their caps and the plan untouched, and moves at most one budget counter, by
  one, on the events that account for progress. The locale \<open>event_machine\<close> lifts this to runs; it is
  interpreted for the bare reducer and for the reducer with a recovery controller.
\<close>

section \<open>The contract of a step\<close>

definition one_progress :: "PipelineState \<Rightarrow> PipelineState \<Rightarrow> bool" where
  "one_progress s s' \<longleftrightarrow>
     (\<exists>c0. \<forall>c. get_outer_progress s' c = get_outer_progress s c + (if c0 = Some c then 1 else 0))"

definition step_ok :: "PipelinePolicy \<Rightarrow> bool \<Rightarrow> PipelineState \<Rightarrow> PipelineState \<Rightarrow> bool" where
  "step_ok P accounting s s' \<longleftrightarrow> known_target P (ps_phase s') \<and> kept P s s'
     \<and> (if accounting then one_progress s s' else ps_outer_progress s' = ps_outer_progress s)"

lemma one_progress_same: "ps_outer_progress s' = ps_outer_progress s \<Longrightarrow> one_progress s s'"
  by (auto simp: one_progress_def get_outer_progress_def intro!: exI [of _ None])

lemma step_ok_quiet: "quiet P s s' \<Longrightarrow> known_target P (ps_phase s') \<Longrightarrow> step_ok P acc s s'"
  by (auto simp: step_ok_def quiet_def one_progress_same)

lemma quiet_step_ok: "quiet P s t \<Longrightarrow> step_ok P acc t u \<Longrightarrow> step_ok P acc s u"
  by (cases acc) (auto simp: step_ok_def quiet_def one_progress_def get_outer_progress_def intro: kept_trans)

lemma step_ok_quiet_trans: "step_ok P acc s t \<Longrightarrow> quiet P t u \<Longrightarrow> known_target P (ps_phase u) \<Longrightarrow> step_ok P acc s u"
  by (cases acc) (auto simp: step_ok_def quiet_def one_progress_def get_outer_progress_def intro: kept_trans)

lemma restore_work_units_quiet: "quiet P s s' \<Longrightarrow> restore_work_units s s' = s'"
  by (auto simp: restore_work_units_def quiet_def kept_def)

lemma restore_work_units_step: "step_ok P acc s s' \<Longrightarrow> restore_work_units s s' = s'"
  by (auto simp: restore_work_units_def step_ok_def kept_def)

lemma restore_work_units_same [simp]:
  "ps_work_units s' = ps_work_units s \<Longrightarrow> restore_work_units s s' = s'"
  by (auto simp: restore_work_units_def)

text \<open>A handler that returns an allowed step, with no effect.\<close>

definition steps :: "PipelinePolicy \<Rightarrow> bool \<Rightarrow> PipelineState \<Rightarrow> outcome \<Rightarrow> bool" where
  "steps P acc s r \<longleftrightarrow> (\<exists>s'. r = Inr (s', []) \<and> step_ok P acc s s')"

lemma steps_routes: "routes P s r \<Longrightarrow> steps P acc s r"
  by (auto simp: routes_def steps_def intro: step_ok_quiet)

lemma steps_stay: "r = Inr (s', []) \<Longrightarrow> quiet P s s' \<Longrightarrow> known_target P (ps_phase s') \<Longrightarrow> steps P acc s r"
  by (auto simp: steps_def intro: step_ok_quiet)

lemma catch_routes: "routes P s r \<Longrightarrow> catch_value_error r h = r"
  by (auto simp: routes_def)

text \<open>Accounting first, then routing.\<close>

lemma steps_accounted:
  assumes "kept P s t" and "one_progress s t" and "routes P t r"
  shows "steps P True s r"
  using assms by (auto simp: routes_def steps_def step_ok_def quiet_def one_progress_def get_outer_progress_def
      intro: kept_trans)

text \<open>A handler that resolves a transition inside \<^verbatim>\<open>try ... except ValueError\<close>.\<close>

lemma routes_next:
  assumes "well_formed P" and "\<And>t. known_target P t \<Longrightarrow> routes P s (k t)"
  shows "routes P s (catch_value_error (bind_r (resolve_next_phase ph sig P) k) (\<lambda>m. enter_failed_recovery s (g m) (Some P)))"
proof (cases "resolve_next_phase ph sig P")
  case (Inl e)
  with resolve_next_phase_ValueError [OF Inl] assms(1) show ?thesis by auto
next
  case (Inr t)
  with assms(2) [OF resolve_next_phase_known [OF well_formed_validated [OF assms(1)] Inr]] show ?thesis
    by (simp add: catch_routes)
qed

section \<open>Handlers\<close>


lemma kept_budget_increment: "kept P t (apply_budget_counter_increment s t c)"
  by (auto simp: apply_budget_counter_increment_def kept_def with_outer_progress_def loops_in_range_def
      get_loop_iteration_def split: option.split)

lemma steps_analysis_success:
  assumes wf: "well_formed P"
  shows "steps P True s (handle_analysis_success s (Some P) timing)"
proof -
  let ?st = "stamp_outcome (declared_forward_cycle_outcome (ps_phase s) P) s"
  let ?fin = "\<lambda>s1 c. apply_budget_counter_increment s (apply_analysis_success ?st s1 (Some P)) c"
  have fin: "step_ok P True s (?fin s1 c)" if "quiet P s s1" "known_target P (ps_phase s1)" for s1 c
  proof -
    let ?a = "apply_analysis_success ?st s1 (Some P)"
    have phase: "ps_phase (?fin s1 c) = ps_phase s1"
      by (simp add: apply_budget_counter_increment_def apply_analysis_success_def Let_def
          with_outer_progress_def with_loop_iteration_def split: option.split)
    have q: "quiet P s1 ?a"
      using loops_in_range_reset [OF well_formed_caps [OF wf], of s1]
      by (auto simp: apply_analysis_success_def Let_def quiet_def kept_def with_loop_iteration_def
          loops_in_range_def get_loop_iteration_def split: option.split)
    from quiet_trans [OF that(1) q] have qa: "quiet P s ?a" .
    then have out: "get_outer_progress ?a k = get_outer_progress s k" for k
      by (simp add: quiet_def get_outer_progress_def)
    have "one_progress s (?fin s1 c)"
      unfolding one_progress_def
      by (rule exI [of _ "if c = Some ''none'' then None else c"])
        (auto simp: apply_budget_counter_increment_def out split: option.split)
    moreover have "kept P s (?fin s1 c)"
      using qa by (auto simp: quiet_def intro: kept_trans [OF _ kept_budget_increment])
    ultimately show ?thesis using phase that(2) by (simp add: step_ok_def)
  qed
  have adv: "\<exists>s1. reducer_advance_phase ?st t (Some P) timing = Inr (s1, []) \<and> quiet P s s1 \<and> known_target P (ps_phase s1)"
    if "known_target P t" for t
    using routes_mono [OF advance_routes [OF wf that] stamp_outcome_quiet] unfolding routes_def by blast
  show ?thesis
  proof (cases "resolve_next_phase (ps_phase s) ''success'' P")
    case (Inl e)
    with resolve_next_phase_ValueError [OF Inl] show ?thesis
      using steps_routes [OF routes_failed [OF wf]] by (auto simp: handle_analysis_success_def)
  next
    case (Inr t)
    with adv [OF resolve_next_phase_known [OF well_formed_validated [OF wf] Inr]] fin show ?thesis
      by (auto simp: handle_analysis_success_def Let_def steps_def)
  qed
qed

lemma steps_mono:
  assumes "steps P acc t r" and "quiet P s t"
  shows "steps P acc s r"
  using assms by (auto simp: steps_def intro: quiet_step_ok)

lemma steps_agent_success:
  assumes wf: "well_formed P" and known: "known_target P (ps_phase s)"
  shows "steps P True s (handle_agent_success s (Some P) timing)"
proof -
  define s1 where "s1 = (if 0 < ps_last_retry_delay_ms s then s\<lparr>ps_last_retry_delay_ms := 0\<rparr> else s)"
  have q: "quiet P s s1" by (rule quiet_same) (simp_all add: s1_def)
  have "steps P True s1 (Inr (s1\<lparr>ps_commit := c\<rparr>, []))" for c
    by (rule steps_stay [OF refl]) (use known in \<open>auto simp: s1_def intro: quiet_same\<close>)
  then have "steps P True s1 (handle_agent_success s (Some P) timing)"
    using wf unfolding handle_agent_success_def s1_def [symmetric]
    by (auto simp: Let_def intro: steps_analysis_success steps_routes split: option.split)
  then show ?thesis by (rule steps_mono [OF _ q])
qed

lemma steps_execution_result:
  assumes "well_formed P"
  shows "steps P False s (handle_execution_result s ph st (Some P) timing)"
proof -
  have "routes P s (resolve_or_terminal (s\<lparr>ps_post_commit_phase_override := x, ps_last_execution_result_status := y\<rparr>)
      ''success'' P ''execution result'' timing)" for x y
    by (rule routes_mono [OF resolve_or_terminal_routes [OF assms]]) (rule quiet_same, simp_all)
  then show ?thesis using assms
    by (auto simp: handle_execution_result_def intro: steps_routes split: option.split)
qed

lemma steps_loopbacks:
  assumes "well_formed P"
  shows "steps P False s (handle_analysis_loopback s (Some P) timing)"
    and "steps P False s (handle_phase_loopback s (Some P) timing)"
  using assms by (auto simp: handle_analysis_loopback_def handle_phase_loopback_def
      intro: steps_routes split: option.split)

lemma decision_accounting_spec:
  assumes "well_formed P" "phase_of P ph = Some d"
  obtains s' where "decision_loop_accounting s ph d r P = Inr s'" and "quiet P s s'" "ps_phase s' = ps_phase s"
proof (cases "pd_loop_policy d")
  case None
  then show ?thesis by (intro that [of s]) (simp_all add: decision_loop_accounting_def)
next
  case (Some lp)
  let ?f = "iteration_state_field lp"
  from assms Some obtain c :: LoopCounterConfig where "dict_get (pp_loop_counters P) ?f = Some c"
    by (rule well_formed_loop_counter)
  then have cap: "resolve_analysis_cap ?f P = Inr (lc_default_max c)" by (simp add: resolve_analysis_cap_def)
  have reset: "quiet P s (with_loop_iteration ?f 0 s)"
    using loops_in_range_reset [OF well_formed_caps [OF assms(1)], of s]
    by (auto simp: quiet_def kept_def with_loop_iteration_def)
  have charge: "ps_phase (apply_analysis_loopback s s ?f n oc inc) = ps_phase s" for n oc inc
    by (simp add: apply_analysis_loopback_def Let_def with_loop_iteration_def split: option.split)
  show ?thesis
  proof (cases "dr_reset_loop r")
    case True
    with Some reset show ?thesis
      by (intro that [of "with_loop_iteration ?f 0 s"])
        (simp_all add: decision_loop_accounting_def, simp add: with_loop_iteration_def)
  next
    case False
    with Some cap have "decision_loop_accounting s ph d r P = Inr (apply_analysis_loopback s s ?f
        (lc_default_max c) (loopback_review_outcome lp) (\<not> analysis_loopback_is_already_charged ph s P))"
      by (simp add: decision_loop_accounting_def)
    then show ?thesis using loopback_quiet [OF cap assms(1)] charge by (rule that)
  qed
qed

lemma steps_analysis_decision:
  assumes wf: "well_formed P"
  shows "steps P True s (handle_analysis_decision s ph dec (Some P) timing)"
proof (cases "\<exists>d r. phase_of P ph = Some d \<and> dict_get (pd_decisions d) dec = Some r")
  case False
  then show ?thesis using steps_routes [OF routes_failed [OF wf]]
    by (auto simp: handle_analysis_decision_def split: option.split)
next
  case True
  then obtain d r where d: "phase_of P ph = Some d" and r: "dict_get (pd_decisions d) dec = Some r" by blast
  from wf d obtain s1 where s1: "decision_loop_accounting s ph d r P = Inr s1" and q1: "quiet P s s1"
    by (rule decision_accounting_spec [of P ph d s r])
  define s2 where "s2 = apply_budget_counter_increment s s1 (dr_increments_counter r)"
  define s3 where "s3 = (case dr_cycle_outcome r of None \<Rightarrow> s2 | Some oc \<Rightarrow> s2\<lparr>ps_pending_cycle_outcome := Some oc\<rparr>)"
  have out1: "get_outer_progress s1 c = get_outer_progress s c" for c
    using q1 by (simp add: quiet_def get_outer_progress_def)
  have plan3: "ps_outer_progress s3 = ps_outer_progress s2" "kept P s2 s3"
    by (auto simp: s3_def kept_def loops_in_range_def get_loop_iteration_def split: option.split)
  have "kept P s s2"
    using q1 by (auto simp: s2_def quiet_def intro: kept_trans [OF _ kept_budget_increment])
  then have k3: "kept P s s3" using plan3(2) by (rule kept_trans)
  have p3: "one_progress s s3"
    unfolding one_progress_def get_outer_progress_def plan3(1) unfolding get_outer_progress_def [symmetric]
    by (rule exI [of _ "if dr_increments_counter r = Some ''none'' then None else dr_increments_counter r"])
      (auto simp: s2_def apply_budget_counter_increment_def out1 split: option.split)
  note lift = steps_accounted [OF k3 p3]
  have adv: "bind_r (prepare_phase_advance s3 (dr_target r) (Some P) timing) (\<lambda>(s4, t).
        bind_r (advance_phase s4 t (Some P)) (\<lambda>s5. Inr (restore_work_units s s5, [])))
      = reducer_advance_phase s3 (dr_target r) (Some P) timing"
  proof -
    obtain s4 t where "prepare_phase_advance s3 (dr_target r) (Some P) timing = Inr (s4, t)" and "quiet P s3 s4"
      using prepare_phase_advance_spec [OF wf validated_decision [OF well_formed_validated [OF wf] d r]] by blast
    then show ?thesis using k3
      by (simp add: reducer_advance_phase_def advance_phase_def quiet_def kept_def)
  qed
  have "handle_analysis_decision s ph dec (Some P) timing =
      (if dr_target r = failed_route P \<or> \<not> dict_has (pp_phases P) (dr_target r) then
         enter_failed_recovery s3 (failure_reason_or s (''Analysis decision '' @ quoted dec @ '' in phase ''
           @ quoted ph @ '' routes to terminal failure target '' @ quoted (dr_target r))) (Some P)
       else reducer_advance_phase s3 (dr_target r) (Some P) timing)"
    unfolding handle_analysis_decision_def d r option.case s1 bind_r_Inr Let_def
      s2_def [symmetric] s3_def [symmetric] adv by (rule refl)
  then show ?thesis
    using lift [OF routes_failed [OF wf]]
      lift [OF advance_routes [OF wf validated_decision [OF well_formed_validated [OF wf] d r]]] by simp
qed

lemma routes_review_outcome:
  assumes "routes P s r"
  shows "routes P s (bind_r r (\<lambda>(s1, effs). Inr (s1\<lparr>ps_review_outcome := oc\<rparr>, effs)))"
proof -
  have q: "quiet P t (t\<lparr>ps_review_outcome := oc\<rparr>)" for t by (rule quiet_same) simp_all
  from assms show ?thesis by (auto simp: routes_def intro: quiet_trans [OF _ q])
qed

lemma routes_review_and_fix:
  assumes "well_formed P"
  shows "routes P s (handle_review_clean s (Some P) timing)"
    and "routes P s (handle_review_issues_found s (Some P) timing)"
    and "routes P s (handle_fix_success s (Some P) timing)"
    and "routes P s (handle_fix_failure s (Some P) timing)"
    and "routes P s (handle_phase_advance s (Some P) timing)"
proof -
  have byp: "known_target P t" if "phase_of P (ps_phase s) = Some d" "dict_get (pd_bypass_routes d) oc = Some t" for d oc t
    using validated_bypass [OF well_formed_validated [OF assms] that] .
  have "routes P s (case (case phase_of P (ps_phase s) of None \<Rightarrow> None
       | Some d \<Rightarrow> (case pd_clean_outcome d of None \<Rightarrow> None | Some oc \<Rightarrow> dict_get (pd_bypass_routes d) oc)) of
      Some t \<Rightarrow> reducer_advance_phase s t (Some P) timing
    | None \<Rightarrow> resolve_or_terminal s ''success'' P ''review clean'' timing)"
    using assms byp by (auto split: option.splits)
  from routes_review_outcome [OF this] show "routes P s (handle_review_clean s (Some P) timing)"
    by (simp add: handle_review_clean_def Let_def)
  show "routes P s (handle_review_issues_found s (Some P) timing)"
    using assms routes_review_outcome [OF resolve_or_terminal_routes [OF assms]]
    by (auto simp: handle_review_issues_found_def split: option.split)
  show "routes P s (handle_fix_failure s (Some P) timing)"
    unfolding handle_fix_failure_def option.case
    by (rule routes_next [OF assms]) (use assms in auto)
qed (use assms in \<open>auto simp: handle_fix_success_def handle_phase_advance_def\<close>)

lemma commit_frame_sel:
  "commit_frame s s' \<Longrightarrow> ps_work_units s' = ps_work_units s"
  "commit_frame s s' \<Longrightarrow> ps_budget_caps s' = ps_budget_caps s"
  "commit_frame s s' \<Longrightarrow> ps_phase s' = ps_phase s"
  "commit_frame s s' \<Longrightarrow> ps_previous_phase s' = ps_previous_phase s"
  "commit_frame s s' \<Longrightarrow> ps_policy_entry_phase s' = ps_policy_entry_phase s"
  by (unfold commit_frame_def; erule ssubst; simp)+

lemma steps_commit_outcome:
  assumes wf: "well_formed P"
  shows "steps P True s (handle_commit_outcome skipped label s (Some P) timing)"
proof -
  obtain s1 where s1: "apply_commit_outcome s s skipped (Some P) = Inr s1"
    and loops: "\<And>f. get_loop_iteration s1 f =
            (if f \<in> set (commit_loop_resets P (ps_phase s)) then 0 else get_loop_iteration s f)"
    and outer: "\<And>c. get_outer_progress s1 c =
            get_outer_progress s c + (if commit_counter P (ps_phase s) skipped = Some c then 1 else 0)"
    and fr: "commit_frame s s1"
    using commit_accounting_spec [of s skipped P] by blast
  note plan = commit_frame_sel [OF fr]
  define s3 where "s3 = (let s2 = (if ps_post_commit_phase_override s1 \<noteq> None
      then consume_post_commit_phase_override s1 else s1)
    in if commit_closes_a_cycle (ps_phase s) P then s2\<lparr>ps_pending_cycle_outcome := None\<rparr> else s2)"
  have q3: "quiet P s1 s3"
    by (rule quiet_same) (simp_all add: s3_def Let_def consume_post_commit_phase_override_def)
  have "kept P s s1"
    using loops plan well_formed_caps [OF wf] by (auto simp: kept_def loops_in_range_def caps_nonneg_def)
  then have k3: "kept P s s3" using q3 by (auto simp: quiet_def intro: kept_trans)
  have p3: "one_progress s s3"
    using outer q3 unfolding one_progress_def quiet_def get_outer_progress_def by auto
  note lift = steps_accounted [OF k3 p3]
  show ?thesis
  proof (cases "resolve_post_commit_phase s1 P")
    case (Inl e)
    with resolve_post_commit_ValueError [OF Inl] s1 show ?thesis
      using steps_routes [OF routes_failed [OF wf]] by (auto simp: handle_commit_outcome_def)
  next
    case (Inr t)
    have "routes P s3 (advance_through_invocation_gate s3 t P timing)"
      by (rule gate_routes [OF wf resolve_post_commit_known [OF well_formed_validated [OF wf] Inr]])
    moreover from this have "handle_commit_outcome skipped label s (Some P) timing = advance_through_invocation_gate s3 t P timing"
      unfolding handle_commit_outcome_def option.case s1 bind_r_Inr Inr Let_def s3_def [unfolded Let_def, symmetric]
      by (rule catch_routes)
    ultimately show ?thesis using lift by simp
  qed
qed

lemma routes_run_control:
  assumes "well_formed P"
  shows "routes P s (handle_commit_failure s (Some P))" and "routes P s (handle_failed s (Some P))"
    and "routes P s (handle_complete s (Some P))"
    and "known_target P (ps_phase s) \<Longrightarrow> routes P s (handle_commit_residual s (Some P) timing)"
    and "known_target P (ps_phase s) \<Longrightarrow> routes P s (handle_all_workers_complete s (Some P) timing)"
proof -
  show "routes P s (handle_complete s (Some P))"
    by (rule routesI [of _ "advanced P (pp_terminal_phase P) s"])
      (simp_all add: handle_complete_def terminal_success_route_def advance_phase_def quiet_advanced)
  assume known: "known_target P (ps_phase s)"
  then have "routes P s (Inr (s, []))" by (auto intro: routesI)
  moreover have "routes P s (catch_value_error
      (bind_r (resolve_next_phase (ps_phase s) ''success'' P) (\<lambda>t. reducer_advance_phase s t (Some P) timing))
      (\<lambda>m. advance_to_failed s (''No '' @ quoted ''success'' @ '' transition defined in phase ''
         @ quoted (ps_phase s) @ '' for all-workers-complete'') (Some P)))"
    by (rule routes_next [OF assms]) (use assms in auto)
  ultimately show "routes P s (handle_all_workers_complete s (Some P) timing)"
    using assms by (simp add: handle_all_workers_complete_def Let_def routes_failed)
  show "routes P s (handle_commit_residual s (Some P) timing)"
    using known assms by (auto simp: handle_commit_residual_def)
qed (use assms in \<open>auto simp: handle_commit_failure_def handle_failed_def\<close>)

section \<open>Steps with a controller\<close>

definition ctl_ok :: "Recovery option \<Rightarrow> RecoveryController option \<Rightarrow> bool" where
  "ctl_ok rec rc' \<longleftrightarrow>
     (case rec of None \<Rightarrow> rc' = None
      | Some (classify, ck, rc) \<Rightarrow> (case rc' of None \<Rightarrow> False | Some rc1 \<Rightarrow> same_config rc rc1))"

definition effects_ok :: "Recovery option \<Rightarrow> Effect list \<Rightarrow> bool" where
  "effects_ok rec effs \<longleftrightarrow> effs = [] \<or> (rec \<noteq> None \<and> (\<exists>r. effs = [ExitFailureEffect r]))"

definition controller_error :: "py_error \<Rightarrow> bool" where
  "controller_error e \<longleftrightarrow> (\<exists>m. e = ValueError m) \<or> (\<exists>u. e = KeyError u) \<or> (\<exists>m. e = IndexError m)"

definition reduces :: "PipelinePolicy \<Rightarrow> bool \<Rightarrow> PipelineState \<Rightarrow> Recovery option \<Rightarrow> reduced \<Rightarrow> bool" where
  "reduces P acc s rec r \<longleftrightarrow> (case r of
     Inr (rc', s', effs) \<Rightarrow> step_ok P acc s s' \<and> ctl_ok rec rc' \<and> effects_ok rec effs
   | Inl e \<Rightarrow> rec \<noteq> None \<and> controller_error e)"

definition policy_agrees :: "PipelinePolicy \<Rightarrow> Recovery option \<Rightarrow> bool" where
  "policy_agrees P rec \<longleftrightarrow> (case rec of None \<Rightarrow> True | Some (classify, ck, rc) \<Rightarrow> rc_policy rc = Some P)"

lemma ctl_ok_same [simp]: "ctl_ok rec (recovery_of rec)"
  by (auto simp: ctl_ok_def recovery_of_def split: option.split)

lemma reduces_keep: "steps P acc s r \<Longrightarrow> reduces P acc s rec (keep_controller rec r)"
  by (auto simp: steps_def reduces_def keep_controller_def effects_ok_def)

lemma reduces_stay:
  "quiet P s s' \<Longrightarrow> known_target P (ps_phase s') \<Longrightarrow> ctl_ok rec rc' \<Longrightarrow> reduces P acc s rec (Inr (rc', s', []))"
  by (auto simp: reduces_def effects_ok_def intro: step_ok_quiet)

lemma reduces_mono:
  assumes "reduces P acc s rec' r" and "rec' = None \<longleftrightarrow> rec = None" and "\<And>rc'. ctl_ok rec' rc' \<Longrightarrow> ctl_ok rec rc'"
  shows "reduces P acc s rec r"
  using assms by (auto simp: reduces_def effects_ok_def split: sum.splits)

lemma reduces_from: "reduces P acc t rec r \<Longrightarrow> quiet P s t \<Longrightarrow> reduces P acc s rec r"
  by (auto simp: reduces_def split: sum.splits intro: quiet_step_ok)

lemma note_and_select_spec:
  assumes "note_and_select rec ph c noted spent = (rec', sel)"
  shows "rec' = None \<longleftrightarrow> rec = None" and "\<And>rc'. ctl_ok rec' rc' \<Longrightarrow> ctl_ok rec rc'"
    and "ctl_ok rec (recovery_of rec')" and "rec = None \<Longrightarrow> sel = None"
  using assms
  by (auto simp: note_and_select_def Let_def ctl_ok_def recovery_of_def same_config_def
      split: option.splits)

lemma selection_attempt_quiet:
  assumes "selection_attempt s c sel rec = Some s'"
  shows "quiet P s s'" and "ps_phase s' = ps_phase s"
proof -
  have "ps_loop_iterations s' = ps_loop_iterations s \<and> ps_work_units s' = ps_work_units s
      \<and> ps_budget_caps s' = ps_budget_caps s \<and> ps_outer_progress s' = ps_outer_progress s
      \<and> ps_phase s' = ps_phase s \<and> ps_previous_phase s' = ps_previous_phase s
      \<and> ps_policy_entry_phase s' = ps_policy_entry_phase s"
    using assms
    by (auto simp: selection_attempt_def retry_or_fall_over_def all_agents_unavailable_wait_state_def
        with_phase_chain_def split: option.splits if_splits prod.splits)
  then show "quiet P s s'" "ps_phase s' = ps_phase s" by (auto intro: quiet_same)
qed

lemma fallback_routes:
  assumes wf: "well_formed P" and "fallback_target (Some P) ph = Some (P', t)"
    and mark: "\<And>x. quiet P x (mark x)" "\<And>x. ps_phase (mark x) = ps_phase x"
  shows "P' = P \<and> routes P s (advance_to_fallback s P t timing mark)"
proof -
  from assms(2) obtain d where d: "phase_of P ph = Some d" "pd_workflow_fallback d = Some t" and P: "P' = P"
    by (auto simp: fallback_target_def split: option.splits)
  obtain s1 t1 where s1: "prepare_phase_advance s t (Some P) timing = Inr (s1, t1)" "quiet P s s1" "known_target P t1"
    using prepare_phase_advance_spec [OF wf validated_fallback [OF well_formed_validated [OF wf] d]] by blast
  let ?m = "mark (advanced P t1 s1)"
  obtain s3 where s3: "apply_execution_cycle_outcome s ?m P = Inr s3" and fr: "charge_frame ?m s3"
    and l: "loops_in_range P ?m \<Longrightarrow> loops_in_range P s3"
    using apply_execution_cycle_outcome_spec [OF wf, of s ?m] by metis
  have "quiet P s s3"
    by (rule quiet_trans [OF quiet_trans [OF s1(2) quiet_advanced [OF s1(3)]]
        quiet_trans [OF mark(1) quiet_charge [OF fr l]]])
  moreover have "ps_phase s3 = t1" using charge_frame_sel(1) [OF fr] mark(2) by simp
  ultimately show ?thesis using P s1 s3
    by (auto simp: advance_to_fallback_def advance_phase_def routes_def)
qed

lemma reduces_skip_same_agent:
  assumes wf: "well_formed P" and known: "known_target P (ps_phase s)"
  shows "reduces P False s rec (handle_skip_same_agent_retries s c (Some P) rec)"
proof (cases "rec \<noteq> None \<and> length (acs_agents c) \<le> acs_current_index c")
  case True
  then show ?thesis by (auto simp: handle_skip_same_agent_retries_def reduces_def controller_error_def)
next
  case False
  let ?noted = "if rec = None then None else Some (acs_agents c ! acs_current_index c)"
  obtain rec' sel where n: "note_and_select rec (ps_phase s) c ?noted True = (rec', sel)" by fastforce
  note n_spec = note_and_select_spec [OF n]
  let ?adv = "(with_phase_chain (ps_phase s) (chain_with_advance c) s)
      \<lparr>ps_metrics := metrics_with_fallback_increment (ps_metrics s),
       ps_last_agent_session_id := None, ps_agent_retry_intent := cleared_agent_retry_intent\<rparr>"
  have adv: "quiet P s ?adv" "ps_phase ?adv = ps_phase s"
    by (rule quiet_same; simp add: with_phase_chain_def) (simp add: with_phase_chain_def)
  have failed: "reduces P False s rec (keep_controller rec' (enter_failed_recovery s m (Some P)))" for m
    using reduces_mono [OF reduces_keep [OF steps_routes [OF routes_failed [OF wf]]] n_spec(1)] n_spec(2) by blast
  have att: "reduces P False s rec (Inr (recovery_of rec', s', []))"
    if "selection_attempt s c sel rec' = Some s'" for s'
    using selection_attempt_quiet [OF that] known n_spec(3) by (auto intro: reduces_stay)
  have stay: "reduces P False s rec (Inr (recovery_of rec', ?adv, []))"
    using adv known n_spec(3) by (auto intro: reduces_stay)
  show ?thesis
    using False att failed stay
    by (auto simp: handle_skip_same_agent_retries_def n split: option.split)
qed

lemma reduces_agent_failure:
  assumes wf: "well_formed P" and known: "known_target P (ps_phase s)"
  shows "reduces P False s rec (handle_agent_failure s (Some P) timing rec)"
proof (cases "chain_for_phase s (ps_phase s)")
  case None
  then show ?thesis using reduces_keep [OF steps_routes [OF routes_failed [OF wf]]]
    by (simp add: handle_agent_failure_def)
next
  case (Some c)
  obtain x where x: "redirect_expired_cycle_in_place s (Some P) timing = Inr x"
    and xr: "\<forall>y. x = Some y \<longrightarrow> routes P s (Inr y)" using redirect_expired_spec [OF wf] by blast
  let ?spent = "3 \<le> acs_retries c"
  let ?noted = "if ?spent \<and> acs_current_index c < length (acs_agents c)
      then Some (acs_agents c ! acs_current_index c) else None"
  obtain rec' sel where n: "note_and_select rec (ps_phase s) c ?noted ?spent = (rec', sel)" by fastforce
  note n_spec = note_and_select_spec [OF n]
  have keep: "reduces P False s rec (keep_controller rec' r)" if "routes P s r" for r
    using reduces_mono [OF reduces_keep [OF steps_routes [OF that]] n_spec(1)] n_spec(2) by blast
  have att: "reduces P False s rec (Inr (recovery_of rec', s', []))"
    if "selection_attempt s c sel rec' = Some s'" for s'
    using selection_attempt_quiet [OF that] known n_spec(3) by (auto intro: reduces_stay)
  have fb: "reduces P False s rec (keep_controller rec' (advance_to_fallback s P' t timing id))"
    if "fallback_target (Some P) (ps_phase s) = Some (P', t)" for P' t
    using fallback_routes [OF wf that, of id s timing] keep by auto
  have red: "reduces P False s rec (keep_controller rec (Inr y))" if "x = Some y" for y
    using xr that by (auto intro: reduces_keep steps_routes)
  show ?thesis
    using Some red att fb keep [OF routes_failed [OF wf]] reduces_skip_same_agent [OF wf known]
    by (auto simp: handle_agent_failure_def x n Let_def split: option.split)
qed

lemma reduces_handle_phase_failure:
  assumes wf: "well_formed P" and known: "known_target P (ps_phase s)"
  shows "reduces P False s None (handle_phase_failure s e (Some P) timing)"
proof -
  define msg where "msg = (if pf_reason e \<noteq> [] \<and> str_strip (pf_reason e) \<noteq> []
      then pf_phase e @ '': '' @ pf_reason e else no_reason (pf_phase e))"
  have "\<exists>i. (if pf_retry_in_session e \<and> truthy (ps_last_agent_session_id s)
      then resume_agent_retry_intent (the (ps_last_agent_session_id s)) msg False
      else Inr cleared_agent_retry_intent) = Inr i"
    using resume_agent_retry_intent_ok [of "the (ps_last_agent_session_id s)" msg False]
    by (auto simp: truthy_def split: option.splits)
  then obtain i where i: "(if pf_retry_in_session e \<and> truthy (ps_last_agent_session_id s)
      then resume_agent_retry_intent (the (ps_last_agent_session_id s)) msg False
      else Inr cleared_agent_retry_intent) = Inr i" by blast
  have rec: "reduces P False s None (handle_agent_failure
      (s\<lparr>ps_last_error := Some msg, ps_agent_retry_intent := j\<rparr>) (Some P) timing None)" for j
    by (rule reduces_from [OF reduces_agent_failure [OF wf]]) (use known in \<open>auto intro: quiet_same\<close>)
  have fb: "reduces P False s None (keep_controller None
      (advance_to_fallback s P' t timing (\<lambda>x. x\<lparr>ps_last_error := Some msg\<rparr>)))"
    if "fallback_target (Some P) (pf_phase e) = Some (P', t)" for P' t
  proof -
    have "quiet P x (x\<lparr>ps_last_error := Some msg\<rparr>)" for x by (rule quiet_same) simp_all
    with fallback_routes [OF wf that, of "\<lambda>x. x\<lparr>ps_last_error := Some msg\<rparr>" s timing] show ?thesis
      by (auto intro: reduces_keep steps_routes)
  qed
  have fl: "reduces P False s None (keep_controller None (enter_failed_recovery s msg (Some P)))"
    by (rule reduces_keep [OF steps_routes [OF routes_failed [OF wf]]])
  show ?thesis
    unfolding handle_phase_failure_def msg_def [symmetric] Let_def i bind_r_Inr
    using rec fb fl by (auto split: option.split)
qed

lemma handle_allowed:
  assumes wf: "well_formed P" and known: "known_target P (ps_phase s)" and pol: "rc_policy rc = Some P"
    and "handle classify ck rc s raw ctx = Inr (rc', s', effs, evt)"
  shows "quiet P s s'" and "known_target P (ps_phase s')" and "same_config rc rc'"
    and "effects_ok (Some (classify, ck, rc)) effs"
proof -
  have h: "handled_ok rc s (charged_registry rc (handled_failure classify s raw ctx) ctx) (rc', s', effs, evt)"
    using handle_spec [of rc s classify raw ctx ck] assms(4) by simp
  then show "quiet P s s'" "same_config rc rc'" "effects_ok (Some (classify, ck, rc)) effs"
    using pol by (auto simp: handled_ok_def recovery_frame_def recovery_kept_def cap_respected_def effects_ok_def
        moved_def intro!: quiet_same)
  show "known_target P (ps_phase s')"
    using h known pol by (auto simp: handled_ok_def recovery_frame_def)
qed

lemma handle_error:
  "rc_policy rc = Some P \<Longrightarrow> handle classify ck rc s raw ctx = Inl e \<Longrightarrow> controller_error e"
  using recovery_error [of rc classify ck s raw ctx e]
  by (auto simp: rc_policy_def controller_error_def only_refused_def)

lemma charge_if_phase_left_spec:
  assumes "well_formed P"
  obtains s2 where "charge_if_phase_left (Some P) s s1 = Inr s2" and "quiet P s1 s2" and "ps_phase s2 = ps_phase s1"
proof (cases "ps_phase s1 = ps_phase s")
  case True
  then show ?thesis by (intro that [of s1]) (simp_all add: charge_if_phase_left_def)
next
  case False
  obtain s2 where "apply_execution_cycle_outcome s s1 P = Inr s2" and fr: "charge_frame s1 s2"
    and l: "loops_in_range P s1 \<Longrightarrow> loops_in_range P s2"
    using apply_execution_cycle_outcome_spec [OF assms, of s s1] by metis
  with False quiet_charge [OF fr l] charge_frame_sel(1) [OF fr] show ?thesis
    by (intro that [of s2]) (simp_all add: charge_if_phase_left_def)
qed

lemma reduces_delegate:
  assumes wf: "well_formed P" and known: "known_target P (ps_phase s)" and pol: "policy_agrees P (Some r)"
  shows "reduces P False s (Some r) (delegate (Some P) s r raw ctx)"
proof -
  obtain classify ck rc where r: "r = (classify, ck, rc)" by (cases r)
  from pol r have p: "rc_policy rc = Some P" by (simp add: policy_agrees_def)
  show ?thesis
  proof (cases "handle classify ck rc s raw ctx")
    case (Inl e)
    then show ?thesis using handle_error [OF p Inl] by (simp add: delegate_def r reduces_def)
  next
    case (Inr y)
    obtain rc' s1 effs evt where y: "y = (rc', s1, effs, evt)" by (cases y)
    note h = handle_allowed [OF wf known p Inr [unfolded y]]
    obtain s2 where s2: "charge_if_phase_left (Some P) s s1 = Inr s2" and q: "quiet P s1 s2" "ps_phase s2 = ps_phase s1"
      by (rule charge_if_phase_left_spec [OF wf])
    have "quiet P s s2" using h(1) q(1) by (rule quiet_trans)
    then show ?thesis
      using Inr y h q s2 restore_work_units_quiet [OF \<open>quiet P s s2\<close>]
      by (simp add: delegate_def r reduces_def step_ok_quiet ctl_ok_def)
  qed
qed

lemma reduces_phase_failure:
  assumes wf: "well_formed P" and known: "known_target P (ps_phase s)" and pol: "policy_agrees P rec"
  shows "reduces P False s rec (reduce_phase_failure s e (Some P) rec timing)"
proof (cases rec)
  case None
  then show ?thesis using reduces_handle_phase_failure [OF wf known] by (simp add: reduce_phase_failure_def)
next
  case (Some r)
  obtain x where x: "redirect_expired_cycle_in_place s (Some P) timing = Inr x"
    and xr: "\<forall>y. x = Some y \<longrightarrow> routes P s (Inr y)" using redirect_expired_spec [OF wf] by blast
  have "reduces P False s rec (keep_controller rec (Inr y))" if "x = Some y" for y
    using xr that by (auto intro: reduces_keep steps_routes)
  then show ?thesis
    using reduces_delegate [OF wf known] pol Some
    by (auto simp: reduce_phase_failure_def x Let_def split: option.split)
qed

lemma reduces_captured:
  assumes wf: "well_formed P" and known: "known_target P (ps_phase s)" and pol: "policy_agrees P rec"
    and "reduce_captured_agent_failure s (Some P) rec timing = Some r"
  shows "reduces P False s rec r"
proof -
  obtain x where x: "redirect_expired_cycle_in_place s (Some P) timing = Inr x"
    and xr: "\<forall>y. x = Some y \<longrightarrow> routes P s (Inr y)" using redirect_expired_spec [OF wf] by blast
  have "reduces P False s rec (keep_controller rec (Inr y))" if "x = Some y" for y
    using xr that by (auto intro: reduces_keep steps_routes)
  then show ?thesis
    using reduces_delegate [OF wf known] pol assms(4)
    by (auto simp: reduce_captured_agent_failure_def x split: option.splits if_splits)
qed

lemma worker_quiet: "worker_frame s s' \<Longrightarrow> quiet P s s'" "worker_frame s s' \<Longrightarrow> ps_phase s' = ps_phase s"
  by (rule quiet_same; unfold worker_frame_def; erule ssubst; simp)
    (unfold worker_frame_def; erule ssubst; simp)

lemma reduces_worker:
  assumes "worker_frame s s'" and "known_target P (ps_phase s)" and "ctl_ok rec rc'"
  shows "reduces P acc s rec (Inr (rc', restore_work_units s s', []))"
  unfolding restore_work_units_quiet [OF worker_quiet(1) [OF assms(1)]]
  using worker_quiet [OF assms(1)] assms(2,3) by (auto intro: reduces_stay)

lemma reduces_worker_failed:
  assumes wf: "well_formed P" and known: "known_target P (ps_phase s)" and pol: "policy_agrees P rec"
  shows "reduces P False s rec (reduce_worker_failed s uid code err (Some P) rec timing now)"
proof -
  obtain x where x: "redirect_expired_cycle_in_place s (Some P) timing = Inr x"
    and xr: "\<forall>y. x = Some y \<longrightarrow> routes P s (Inr y)" using redirect_expired_spec [OF wf] by blast
  have red: "reduces P False s rec (keep_controller rec (Inr y))" if "x = Some y" for y
    using xr that by (auto intro: reduces_keep steps_routes)
  show ?thesis
  proof (cases rec)
    case None
    have "reduces P False s None (Inr (None, restore_work_units s (handle_worker_failed s uid code err now), []))"
      by (rule reduces_worker [OF worker_frames(5) known]) (simp add: ctl_ok_def)
    with red None show ?thesis by (auto simp: reduce_worker_failed_def x split: option.split)
  next
    case (Some r)
    obtain classify ck rc where r: "r = (classify, ck, rc)" by (cases r)
    let ?raw = "RawMessage (if err \<noteq> [] then err else ''Worker '' @ uid @ '' failed: exit code '' @ int_str code)"
    let ?ctx = "failure_context s (ps_phase s) False None"
    let ?h = "handle classify ck rc s ?raw ?ctx"
    from pol Some r have p: "rc_policy rc = Some P" by (simp add: policy_agrees_def)
    let ?k = "\<lambda>(rc', s1, effs, evt). case dict_get (ps_worker_states s) uid of
        None \<Rightarrow> Inl (KeyError uid)
      | Some w \<Rightarrow> Inr (Some rc', restore_work_units s
          (s1\<lparr>ps_worker_states := dict_set uid (failed_worker w code err now) (ps_worker_states s1)\<rparr>), effs)"
    have "reduces P False s rec (bind_r ?h ?k)"
    proof (cases ?h)
      case (Inl e)
      then show ?thesis using handle_error [OF p Inl] Some by (simp add: reduces_def)
    next
      case (Inr y)
      obtain rc' s1 effs evt where y: "y = (rc', s1, effs, evt)" by (cases y)
      note h = handle_allowed [OF wf known p Inr [unfolded y]]
      have "quiet P s1 (s1\<lparr>ps_worker_states := d\<rparr>)" for d by (rule quiet_same) simp_all
      then have q: "quiet P s (s1\<lparr>ps_worker_states := d\<rparr>)" for d using h(1) by (blast intro: quiet_trans)
      then have "step_ok P False s (s1\<lparr>ps_worker_states := d\<rparr>)" for d using h(2) by (auto intro: step_ok_quiet)
      moreover have "restore_work_units s (s1\<lparr>ps_worker_states := d\<rparr>) = s1\<lparr>ps_worker_states := d\<rparr>" for d
        by (rule restore_work_units_quiet [OF q])
      ultimately show ?thesis using Inr y h Some r
        by (auto simp: reduces_def ctl_ok_def controller_error_def split: option.split)
    qed
    with red Some r show ?thesis by (auto simp: reduce_worker_failed_def x split: option.split)
  qed
qed

section \<open>The reducer\<close>

text \<open>The events on which budget progress may move.\<close>

definition accounting :: "Event \<Rightarrow> bool" where
  "accounting e = (case e of
     PipelineEv pe \<Rightarrow> pe \<in> {AGENT_SUCCESS, ANALYSIS_SUCCESS, COMMIT_SUCCESS, COMMIT_SKIPPED}
   | AnalysisDecisionEv ph d \<Rightarrow> True
   | _ \<Rightarrow> False)"

text \<open>A continuation request needs a tracked chain; every other event is unconditional.\<close>

definition retry_has_chain :: "PipelineState \<Rightarrow> Event \<Rightarrow> bool" where
  "retry_has_chain s e \<longleftrightarrow> (e = PipelineEv AGENT_RETRY \<longrightarrow> chain_for_phase s (ps_phase s) \<noteq> None)"

lemma steps_agent_retry:
  assumes wf: "well_formed P" and known: "known_target P (ps_phase s)"
    and chain: "chain_for_phase s (ps_phase s) \<noteq> None"
  shows "steps P False s (handle_agent_retry s (Some P) timing)"
proof -
  obtain x where x: "redirect_expired_cycle_in_place s (Some P) timing = Inr x"
    and xr: "\<forall>y. x = Some y \<longrightarrow> routes P s (Inr y)" using redirect_expired_spec [OF wf] by blast
  from chain obtain c where c: "chain_for_phase s (ps_phase s) = Some c" by blast
  have "steps P False s (Inr ((with_phase_chain (ps_phase s) (chain_with_retry_increment c) s)
      \<lparr>ps_metrics := metrics_with_continuation_increment (ps_metrics s)\<rparr>, []))"
    by (rule steps_stay [OF refl]) (use known in \<open>auto simp: with_phase_chain_def intro: quiet_same\<close>)
  with xr c show ?thesis by (auto simp: handle_agent_retry_def x intro: steps_routes split: option.split)
qed

lemma routes_restore:
  "routes P s r \<Longrightarrow> routes P s (bind_r r (\<lambda>(s', effs). Inr (restore_work_units s s', [])))"
  by (auto simp: routes_def restore_work_units_quiet)

lemma reduces_steps_None:
  "reduces P acc s None r \<Longrightarrow> \<exists>s'. r = Inr (None, s', []) \<and> step_ok P acc s s'"
  by (auto simp: reduces_def ctl_ok_def effects_ok_def split: sum.splits)

lemma reduces_handler:
  assumes "event_handler pe = Some h" and "steps P acc s (h s (Some P) timing)"
  shows "reduces P acc s rec (reduce_pipeline_event s pe (Some P) rec timing)"
  using assms by (auto simp: reduce_pipeline_event_def keep_controller_def steps_def reduces_def
      effects_ok_def restore_work_units_step)

lemma steps_worker:
  assumes "worker_frame s s'" and "known_target P (ps_phase s)"
  shows "steps P acc s (Inr (s', []))"
  by (rule steps_stay [OF refl]) (use worker_quiet [OF assms(1)] assms(2) in auto)

lemma reduces_pipeline_event:
  assumes wf: "well_formed P" and known: "known_target P (ps_phase s)"
    and chain: "retry_has_chain s (PipelineEv pe)" and "pe \<notin> {AGENT_FAILURE, INTERRUPTED}"
  shows "reduces P (accounting (PipelineEv pe)) s rec (reduce_pipeline_event s pe (Some P) rec timing)"
proof -
  have stay: "steps P acc s (Inr (s\<lparr>ps_checkpoint_saved_count := n\<rparr>, []))" "steps P acc s (Inr (s, []))" for n acc
    by (rule steps_stay [OF refl]; use known in \<open>auto intro: quiet_same\<close>)+
  note handlers = steps_agent_success [OF wf known] steps_analysis_success [OF wf]
    steps_loopbacks [OF wf] routes_review_and_fix [OF wf, THEN steps_routes]
    steps_commit_outcome [OF wf] routes_run_control(1-3) [OF wf, THEN steps_routes]
    routes_run_control(4,5) [OF wf known, THEN steps_routes]
    steps_worker [OF worker_frames(1) known] steps_worker [OF worker_frames(2) known]
  have retry: "pe = AGENT_RETRY \<Longrightarrow> steps P False s (handle_agent_retry s (Some P) timing)"
    using steps_agent_retry [OF wf known] chain by (simp add: retry_has_chain_def)
  have prep: "reduces P False s rec (reduce_pipeline_event s PROMPT_PREPARED (Some P) rec timing)"
    using known by (auto simp: reduce_pipeline_event_def event_handler_def intro: reduces_stay)
  show ?thesis
    by (cases pe)
      (use handlers stay retry prep assms(4) in
        \<open>auto simp: event_handler_def accounting_def handle_commit_success_def handle_commit_skipped_def
           handle_checkpoint_saved_def intro!: reduces_handler\<close>)
qed

lemma reduces_reduce:
  assumes wf: "well_formed P" and known: "known_target P (ps_phase s)" and pol: "policy_agrees P rec"
    and chain: "retry_has_chain s e" and not_int: "e \<noteq> PipelineEv INTERRUPTED"
  shows "reduces P (accounting e) s rec (reduce s e (Some P) rec timing now)"
proof (cases e)
  case (PipelineEv pe)
  show ?thesis
  proof (cases "pe = AGENT_FAILURE")
    case False
    then show ?thesis using reduces_pipeline_event [OF wf known] chain not_int PipelineEv by (simp add: reduce_def)
  next
    case True
    note af = reduces_agent_failure [OF wf known, of rec timing]
    show ?thesis
    proof (cases "reduce_captured_agent_failure s (Some P) rec timing")
      case (Some r)
      then show ?thesis using reduces_captured [OF wf known pol Some] PipelineEv True
        by (simp add: reduce_def accounting_def)
    next
      case None
      have "reduce s e (Some P) rec timing now = bind_r (handle_agent_failure s (Some P) timing rec)
          (\<lambda>(rc, s', effs). Inr (rc, restore_work_units s s', effs))"
      proof (cases rec)
        case None
        then show ?thesis
          using \<open>reduce_captured_agent_failure s (Some P) rec timing = None\<close> PipelineEv True af
          by (auto simp: reduce_def reduce_pipeline_event_def event_handler_def keep_controller_def
              recovery_of_def dest!: reduces_steps_None)
      qed (use None PipelineEv True in \<open>simp add: reduce_def\<close>)
      then show ?thesis using af PipelineEv True
        by (auto simp: reduces_def accounting_def restore_work_units_step bind_r_def split: sum.splits)
    qed
  qed
next
  case (PostFanoutVerificationEv ok code err)
  have "routes P s (reduce_post_fanout_verification s ok code err (Some P))"
  proof (cases ok)
    case True
    then show ?thesis using known by (auto simp: reduce_post_fanout_verification_def intro: routesI)
  next
    case False
    then show ?thesis using routes_restore [OF routes_failed [OF wf]]
      by (simp add: reduce_post_fanout_verification_def)
  qed
  then show ?thesis using PostFanoutVerificationEv
    by (auto simp: reduce_def accounting_def intro: reduces_keep steps_routes)
qed (use reduces_phase_failure [OF wf known pol] reduces_worker_failed [OF wf known pol]
    steps_analysis_decision [OF wf] steps_execution_result [OF wf]
    reduces_worker [OF worker_frames(3) known ctl_ok_same] reduces_worker [OF worker_frames(4) known ctl_ok_same]
  in \<open>auto simp: reduce_def accounting_def intro: reduces_keep\<close>)

lemma reduce_interrupted:
  "reduce s (PipelineEv INTERRUPTED) pol rec timing now =
     Inr (recovery_of rec, s\<lparr>ps_interrupted_by_user := True\<rparr>, [SaveCheckpointEffect])"
  by (simp add: reduce_def reduce_pipeline_event_def event_handler_def handle_interrupted_def
      keep_controller_def)

lemma step_ok_interrupted: "known_target P (ps_phase s) \<Longrightarrow> step_ok P acc s (s\<lparr>ps_interrupted_by_user := True\<rparr>)"
  by (rule step_ok_quiet) (auto intro: quiet_same)

lemma reduce_returned:
  assumes "well_formed P" "known_target P (ps_phase s)" "policy_agrees P rec" "retry_has_chain s e"
    and "reduce s e (Some P) rec timing now = Inr (rc', s', effs)"
  shows "step_ok P (accounting e) s s'" and "ctl_ok rec rc'"
    and "effs = (if e = PipelineEv INTERRUPTED then [SaveCheckpointEffect] else []) \<or>
         rec \<noteq> None \<and> (\<exists>r. effs = [ExitFailureEffect r])"
  using reduces_reduce [OF assms(1-4), of timing now] assms(2,5) reduce_interrupted [of s "Some P" rec timing now]
  by (cases "e = PipelineEv INTERRUPTED"; auto simp: reduces_def effects_ok_def step_ok_interrupted)+

section \<open>Guarantees of one step\<close>

text \<open>
  C7. The bare reducer is total and closed. On a policy that passed validation, from any state whose
  phase the policy knows, every event (a continuation request only with a tracked chain) is reduced
  without an exception; the run stays in a phase the policy declares or names as terminal, the loop
  counters stay within their caps, the parallel plan and the budget caps are never lost, and the
  only effect ever emitted is the checkpoint of an interrupt.
\<close>

theorem reducer_total_and_closed:
  assumes "well_formed P" and "known_target P (ps_phase s)" and "retry_has_chain s e"
  shows "\<exists>s'. reduce s e (Some P) None timing now =
        Inr (None, s', if e = PipelineEv INTERRUPTED then [SaveCheckpointEffect] else [])
      \<and> known_target P (ps_phase s') \<and> (loops_in_range P s \<longrightarrow> loops_in_range P s')
      \<and> ps_work_units s' = ps_work_units s \<and> ps_budget_caps s' = ps_budget_caps s"
proof (cases "e = PipelineEv INTERRUPTED")
  case True
  with step_ok_interrupted [OF assms(2)] show ?thesis
    by (simp add: reduce_interrupted recovery_of_def step_ok_def kept_def)
next
  case False
  from reduces_steps_None [OF reduces_reduce [OF assms(1,2) _ assms(3) False]] False show ?thesis
    by (fastforce simp: policy_agrees_def step_ok_def kept_def)
qed

theorem reducer_total_and_closed_witness:
  "\<exists>s'. reduce (from_policy default_policy) (PipelineEv AGENT_SUCCESS) (Some default_policy) None None 0
        = Inr (None, s', []) \<and> known_target default_policy (ps_phase s')"
proof -
  have "known_target default_policy (ps_phase (from_policy default_policy))" by code_simp
  from reducer_total_and_closed [OF default_well_formed this, of "PipelineEv AGENT_SUCCESS" None 0]
  show ?thesis by (auto simp: retry_has_chain_def)
qed

text \<open>
  The same with a recovery controller built on the same policy: whenever the step returns, the phase
  is known, loop counters, plan and caps are kept, budget progress moves by at most one step of one
  counter and only on an accounting event, and the only further effect is the exit the recovery cap
  asks for. The exceptions that remain are a refused exit reason, an unknown worker id and an agent
  index outside the chain; never a routing error.
\<close>

theorem supervised_reducer_closed:
  assumes "well_formed P" and "known_target P (ps_phase s)" and "retry_has_chain s e"
    and "rc_policy rc = Some P"
  shows "case reduce s e (Some P) (Some (classify, ck, rc)) timing now of
      Inr (rc', s', effs) \<Rightarrow>
        known_target P (ps_phase s') \<and> (loops_in_range P s \<longrightarrow> loops_in_range P s')
        \<and> ps_work_units s' = ps_work_units s \<and> ps_budget_caps s' = ps_budget_caps s
        \<and> (if accounting e then one_progress s s' else ps_outer_progress s' = ps_outer_progress s)
        \<and> (\<exists>rc1. rc' = Some rc1 \<and> same_config rc rc1)
        \<and> (effs = (if e = PipelineEv INTERRUPTED then [SaveCheckpointEffect] else [])
           \<or> (\<exists>r. effs = [ExitFailureEffect r]))
    | Inl err \<Rightarrow> controller_error err"
proof -
  let ?rec = "Some (classify, ck, rc)"
  have pol: "policy_agrees P ?rec" using assms(4) by (simp add: policy_agrees_def)
  show ?thesis
  proof (cases "reduce s e (Some P) ?rec timing now")
    case (Inl err)
    then have "e \<noteq> PipelineEv INTERRUPTED" by (auto simp: reduce_interrupted)
    from reduces_reduce [OF assms(1,2) pol assms(3) this, of timing now] Inl show ?thesis
      by (simp add: reduces_def)
  next
    case (Inr r)
    obtain rc' s' effs where r: "r = (rc', s', effs)" by (cases r)
    note ret = reduce_returned [OF assms(1,2) pol assms(3) Inr [unfolded r]]
    have "\<exists>rc1. rc' = Some rc1 \<and> same_config rc rc1"
      using ret(2) by (auto simp: ctl_ok_def split: option.splits)
    moreover from ret(1) have "known_target P (ps_phase s') \<and> (loops_in_range P s \<longrightarrow> loops_in_range P s')
        \<and> ps_work_units s' = ps_work_units s \<and> ps_budget_caps s' = ps_budget_caps s
        \<and> (if accounting e then one_progress s s' else ps_outer_progress s' = ps_outer_progress s)"
      by (auto simp: step_ok_def kept_def)
    ultimately show ?thesis using ret(3) Inr r by auto
  qed
qed

lemma demo_run_known: "known_target default_policy (ps_phase (demo_run [''claude'', ''codex'']))"
  by code_simp

lemma demo_controller_policy: "rc_policy (demo_controller 200 agents) = Some default_policy"
  by (simp add: demo_controller_def new_controller_def new_cycle_cap_def rc_policy_def demo_bundle_def)

theorem supervised_reducer_closed_witness:
  "case reduce (demo_run [''claude'', ''codex'']) (PipelineEv AGENT_FAILURE) (Some default_policy)
      (Some (\<lambda>raw ph a c. demo_failure AGENT ''boom'' None, demo_clock, demo_controller 200 [''claude'', ''codex'']))
      None 0 of
      Inr (rc', s', effs) \<Rightarrow> known_target default_policy (ps_phase s') | Inl err \<Rightarrow> controller_error err"
proof -
  have "retry_has_chain (demo_run [''claude'', ''codex'']) (PipelineEv AGENT_FAILURE)"
    by (simp add: retry_has_chain_def)
  from supervised_reducer_closed [OF default_well_formed demo_run_known this demo_controller_policy]
  show ?thesis by (fastforce split: sum.splits)
qed

section \<open>Runs\<close>

text \<open>
  A machine driven by events: an invariant every step keeps and a family of counters each step moves
  up by at most the weight of its event.
\<close>

locale event_machine =
  fixes step :: "'e \<Rightarrow> 's \<Rightarrow> 's \<Rightarrow> bool"
    and inv :: "'s \<Rightarrow> bool"
    and counter :: "'s \<Rightarrow> 'k \<Rightarrow> int"
    and weight :: "'e \<Rightarrow> nat"
  assumes inv_step: "inv s \<Longrightarrow> step e s s' \<Longrightarrow> inv s'"
    and counter_up: "inv s \<Longrightarrow> step e s s' \<Longrightarrow> counter s k \<le> counter s' k"
    and counter_weight: "inv s \<Longrightarrow> step e s s' \<Longrightarrow> counter s' k \<le> counter s k + int (weight e)"
begin

inductive run :: "'s \<Rightarrow> 'e list \<Rightarrow> 's \<Rightarrow> bool" for s0 where
  run_nil: "run s0 [] s0"
| run_snoc: "run s0 es s \<Longrightarrow> step e s s' \<Longrightarrow> run s0 (es @ [e]) s'"

lemma run_inv: "run s0 es s \<Longrightarrow> inv s0 \<Longrightarrow> inv s"
  by (induction rule: run.induct) (auto intro: inv_step)

lemma run_counter:
  "run s0 es s \<Longrightarrow> inv s0 \<Longrightarrow>
   counter s0 k \<le> counter s k \<and> counter s k \<le> counter s0 k + int (sum_list (map weight es))"
proof (induction rule: run.induct)
  case run_nil
  show ?case by simp
next
  case (run_snoc es s e s')
  from run_inv [OF run_snoc.hyps(1) run_snoc.prems] have "inv s" .
  from counter_up [OF this run_snoc.hyps(2), of k] counter_weight [OF this run_snoc.hyps(2), of k]
    run_snoc.IH [OF run_snoc.prems]
  show ?case by simp
qed

end

text \<open>One event with the clock readings of its reduction.\<close>

record EventInput =
  ei_event :: Event
  ei_timing :: "RoutingTiming option"
  ei_now :: timestamp

definition bare_step :: "PipelinePolicy \<Rightarrow> EventInput \<Rightarrow> PipelineState \<Rightarrow> PipelineState \<Rightarrow> bool" where
  "bare_step P i s s' \<longleftrightarrow>
     (\<exists>effs. reduce s (ei_event i) (Some P) None (ei_timing i) (ei_now i) = Inr (None, s', effs))"

definition supervised_step ::
    "PipelinePolicy \<Rightarrow> classifier \<times> ClockSamples \<times> EventInput \<Rightarrow> RecoveryController \<times> PipelineState
     \<Rightarrow> RecoveryController \<times> PipelineState \<Rightarrow> bool" where
  "supervised_step P x rs rs' \<longleftrightarrow>
     (case x of (classify, ck, i) \<Rightarrow>
       \<exists>effs. reduce (snd rs) (ei_event i) (Some P) (Some (classify, ck, fst rs)) (ei_timing i) (ei_now i)
         = Inr (Some (fst rs'), snd rs', effs))"

definition run_inv_ok :: "PipelinePolicy \<Rightarrow> PipelineState \<Rightarrow> bool" where
  "run_inv_ok P s \<longleftrightarrow> well_formed P \<and> known_target P (ps_phase s) \<and> loops_in_range P s"

definition event_weight :: "EventInput \<Rightarrow> nat" where
  "event_weight i = (if accounting (ei_event i) then 1 else 0)"

text \<open>A continuation request without a chain raises, so it is no step.\<close>

lemma retry_chain_of_return:
  assumes "reduce s e (Some P) rec timing now = Inr r" and "well_formed P" and "policy_agrees P rec"
    and "known_target P (ps_phase s)"
  shows "retry_has_chain s e \<or> step_ok P (accounting e) s (fst (snd r)) \<and> ctl_ok rec (fst r)"
proof (rule disjCI)
  assume n: "\<not> (step_ok P (accounting e) s (fst (snd r)) \<and> ctl_ok rec (fst r))"
  obtain x where x: "redirect_expired_cycle_in_place s (Some P) timing = Inr x"
    and xr: "\<forall>y. x = Some y \<longrightarrow> routes P s (Inr y)" using redirect_expired_spec [OF assms(2)] by blast
  show "retry_has_chain s e"
  proof (rule ccontr)
    assume "\<not> retry_has_chain s e"
    then have e: "e = PipelineEv AGENT_RETRY" and c: "chain_for_phase s (ps_phase s) = None"
      by (auto simp: retry_has_chain_def)
    show False
    proof (cases x)
      case None
      with assms(1) x e c show False
        by (auto simp: reduce_def reduce_pipeline_event_def event_handler_def handle_agent_retry_def
            keep_controller_def enter_failed_recovery_def terminal_failure_route_def)
    next
      case (Some y)
      with xr have "steps P False s (handle_agent_retry s (Some P) timing)"
        by (simp add: handle_agent_retry_def x steps_routes)
      then have "reduces P False s rec (reduce_pipeline_event s AGENT_RETRY (Some P) rec timing)"
        by (intro reduces_handler [where h = handle_agent_retry]) (simp_all add: event_handler_def)
      with assms(1) n e show False
        by (auto simp: reduce_def reduces_def accounting_def split: prod.splits)
    qed
  qed
qed

lemma step_of_return:
  assumes "reduce s e (Some P) rec timing now = Inr (rc', s', effs)" and "well_formed P" and "policy_agrees P rec"
    and "known_target P (ps_phase s)"
  shows "step_ok P (accounting e) s s'" and "ctl_ok rec rc'"
  using retry_chain_of_return [OF assms] reduce_returned [OF assms(2,4,3) _ assms(1)] by auto

lemma step_ok_progress:
  "step_ok P acc s s' \<Longrightarrow> get_outer_progress s c \<le> get_outer_progress s' c
     \<and> get_outer_progress s' c \<le> get_outer_progress s c + (if acc then 1 else 0)"
  by (cases acc) (auto simp: step_ok_def one_progress_def get_outer_progress_def)

interpretation bare: event_machine "bare_step P" "run_inv_ok P" get_outer_progress event_weight for P
proof
  fix s e s' k
  assume "run_inv_ok P s" and "bare_step P e s s'"
  then have wf: "well_formed P" and l: "loops_in_range P s" and ok: "step_ok P (accounting (ei_event e)) s s'"
    using step_of_return(1) [of s "ei_event e" P None]
    by (auto simp: run_inv_ok_def bare_step_def policy_agrees_def)
  show "run_inv_ok P s'" using wf l ok by (simp add: run_inv_ok_def step_ok_def kept_def)
  show "get_outer_progress s k \<le> get_outer_progress s' k"
    "get_outer_progress s' k \<le> get_outer_progress s k + int (event_weight e)"
    using step_ok_progress [OF ok, of k] by (auto simp: event_weight_def)
qed

lemma supervised_step_spec:
  assumes "run_inv_ok P (snd rs)" "rc_policy (fst rs) = Some P" and "supervised_step P x rs rs'"
  shows "step_ok P (accounting (ei_event (snd (snd x)))) (snd rs) (snd rs')"
    and "rc_policy (fst rs') = Some P" and "run_inv_ok P (snd rs')"
proof -
  obtain classify ck i where x: "x = (classify, ck, i)" by (cases x)
  from assms(3) obtain effs where r: "reduce (snd rs) (ei_event i) (Some P) (Some (classify, ck, fst rs))
      (ei_timing i) (ei_now i) = Inr (Some (fst rs'), snd rs', effs)" by (auto simp: supervised_step_def x)
  have pol: "policy_agrees P (Some (classify, ck, fst rs))" using assms(2) by (simp add: policy_agrees_def)
  from assms(1) have inv: "well_formed P" "known_target P (ps_phase (snd rs))" "loops_in_range P (snd rs)"
    by (simp_all add: run_inv_ok_def)
  note ret = step_of_return [OF r inv(1) pol inv(2)]
  from ret(1) show "step_ok P (accounting (ei_event (snd (snd x)))) (snd rs) (snd rs')" by (simp add: x)
  from ret(1) inv show "run_inv_ok P (snd rs')" by (simp add: run_inv_ok_def step_ok_def kept_def)
  from ret(2) assms(2) show "rc_policy (fst rs') = Some P" by (simp add: ctl_ok_def same_config_def rc_policy_def)
qed

interpretation supervised: event_machine "supervised_step P"
  "\<lambda>rs. run_inv_ok P (snd rs) \<and> rc_policy (fst rs) = Some P" "\<lambda>rs. get_outer_progress (snd rs)"
  "\<lambda>x. event_weight (snd (snd x))" for P
proof (unfold_locales, goal_cases)
  case (1 rs x rs')
  then show ?case using supervised_step_spec by blast
next
  case (2 rs x rs' k)
  then show ?case using supervised_step_spec(1) step_ok_progress by blast
next
  case (3 rs x rs' k)
  then have "step_ok P (accounting (ei_event (snd (snd x)))) (snd rs) (snd rs')"
    using supervised_step_spec(1) by blast
  from step_ok_progress [OF this, of k] show ?case by (auto simp: event_weight_def)
qed

lemma initial_ok: "well_formed P \<Longrightarrow> run_inv_ok P (from_policy P)"
proof -
  assume wf: "well_formed P"
  then have "known_target P (pp_entry_phase P)"
    by (auto simp: well_formed_def validated_def entry_phase_exists_def known_target_def)
  with wf well_formed_caps [OF wf] show ?thesis
    by (auto simp: run_inv_ok_def from_policy_def loops_in_range_def caps_nonneg_def get_loop_iteration_def
        dict_get_or_def)
qed

text \<open>
  Whole runs. From the initial state of a well-formed policy, after any sequence of events with any
  clock readings, the run is in a phase the policy knows, every declared loop counter lies between
  0 and its cap, and every budget counter lies between 0 and the number of accounting events seen.
\<close>

theorem every_run_stays_in_bounds:
  assumes "well_formed P" and "bare.run P (from_policy P) is s"
  shows "known_target P (ps_phase s)
    \<and> (\<forall>f c. dict_get (pp_loop_counters P) f = Some c \<longrightarrow>
          0 \<le> get_loop_iteration s f \<and> get_loop_iteration s f \<le> lc_default_max c)
    \<and> (\<forall>c. 0 \<le> get_outer_progress s c
          \<and> get_outer_progress s c \<le> int (length (filter (\<lambda>i. accounting (ei_event i)) is)))"
proof -
  have "sum_list (map event_weight is) = length (filter (\<lambda>i. accounting (ei_event i)) is)"
    by (induction "is") (simp_all add: event_weight_def)
  moreover have "get_outer_progress (from_policy P) c = 0" for c
    by (simp add: from_policy_def get_outer_progress_def dict_get_or_def)
  ultimately show ?thesis
    using bare.run_inv [OF assms(2) initial_ok [OF assms(1)]]
      bare.run_counter [OF assms(2) initial_ok [OF assms(1)]]
    by (auto simp: run_inv_ok_def loops_in_range_def)
qed

theorem every_run_stays_in_bounds_witness:
  "\<exists>s. bare.run default_policy (from_policy default_policy)
         [\<lparr>ei_event = PipelineEv AGENT_SUCCESS, ei_timing = None, ei_now = 0\<rparr>] s
     \<and> get_outer_progress s ''iteration'' \<le> 1"
proof -
  let ?i = "\<lparr>ei_event = PipelineEv AGENT_SUCCESS, ei_timing = None, ei_now = 0\<rparr>"
  have "case reduce (from_policy default_policy) (PipelineEv AGENT_SUCCESS) (Some default_policy) None None 0 of
      Inl e \<Rightarrow> False | Inr (rc, s, effs) \<Rightarrow> rc = None" by code_simp
  then obtain s effs where "reduce (from_policy default_policy) (PipelineEv AGENT_SUCCESS) (Some default_policy)
      None None 0 = Inr (None, s, effs)" by (auto split: sum.splits)
  then have "bare_step default_policy ?i (from_policy default_policy) s" by (auto simp: bare_step_def)
  with bare.run_nil have r: "bare.run default_policy (from_policy default_policy) ([] @ [?i]) s"
    by (rule bare.run_snoc)
  then have "bare.run default_policy (from_policy default_policy) [?i] s" by simp
  with every_run_stays_in_bounds [OF default_well_formed this] show ?thesis
    by (auto simp: accounting_def)
qed

text \<open>
  C1. Whole runs under a recovery controller. From the initial state of a well-formed policy, after any sequence of
  events that the reducer and the controller handled, whatever the classifier says and whenever the clocks are read,
  the run is in a phase the policy knows, every declared loop counter lies between 0 and its cap, and every budget
  counter lies between 0 and the number of events that can account for budget (an agent, analysis or commit success,
  a skipped commit, an analysis decision): failures, retries, fallovers, waits and failed routes add nothing to it.
\<close>

theorem every_supervised_run_stays_in_bounds:
  assumes "well_formed P" and "rc_policy rc = Some P" and "supervised.run P (rc, from_policy P) xs (rc', s)"
  shows "known_target P (ps_phase s) \<and> rc_policy rc' = Some P
    \<and> (\<forall>f c. dict_get (pp_loop_counters P) f = Some c \<longrightarrow>
          0 \<le> get_loop_iteration s f \<and> get_loop_iteration s f \<le> lc_default_max c)
    \<and> (\<forall>c. 0 \<le> get_outer_progress s c
          \<and> get_outer_progress s c \<le> int (length (filter (\<lambda>x. accounting (ei_event (snd (snd x)))) xs)))"
proof -
  have start: "run_inv_ok P (snd (rc, from_policy P)) \<and> rc_policy (fst (rc, from_policy P)) = Some P"
    using initial_ok [OF assms(1)] assms(2) by simp
  have "sum_list (map (\<lambda>x. event_weight (snd (snd x))) xs) = length (filter (\<lambda>x. accounting (ei_event (snd (snd x)))) xs)"
    by (induction xs) (auto simp: event_weight_def)
  moreover have "get_outer_progress (from_policy P) c = 0" for c
    by (simp add: from_policy_def get_outer_progress_def dict_get_or_def)
  ultimately show ?thesis
    using supervised.run_counter [OF assms(3) start] supervised.run_inv [OF assms(3) start] by (auto simp: run_inv_ok_def loops_in_range_def)
qed

theorem every_supervised_run_stays_in_bounds_witness:
  "\<exists>rc' s. supervised.run default_policy (demo_controller 200 [''claude'', ''codex''], from_policy default_policy)
       [(\<lambda>raw ph a c. demo_failure AGENT ''boom'' None, demo_clock,
         \<lparr>ei_event = PipelineEv AGENT_SUCCESS, ei_timing = None, ei_now = 0\<rparr>)] (rc', s)
     \<and> get_outer_progress s ''iteration'' \<le> 1"
proof -
  let ?rc = "demo_controller 200 [''claude'', ''codex'']" and ?s = "from_policy default_policy"
  let ?cl = "\<lambda>raw ph a c. demo_failure AGENT ''boom'' None"
  let ?i = "\<lparr>ei_event = PipelineEv AGENT_SUCCESS, ei_timing = None, ei_now = 0\<rparr>"
  have "case reduce ?s (PipelineEv AGENT_SUCCESS) (Some default_policy) (Some (?cl, demo_clock, ?rc)) None 0 of
      Inl e \<Rightarrow> False | Inr (rc, s, effs) \<Rightarrow> \<not> Option.is_none rc" by code_simp
  then obtain rc' s effs where "reduce ?s (PipelineEv AGENT_SUCCESS) (Some default_policy)
      (Some (?cl, demo_clock, ?rc)) None 0 = Inr (Some rc', s, effs)"
    by (auto simp: Option.is_none_def split: sum.splits)
  then have "supervised_step default_policy (?cl, demo_clock, ?i) (?rc, ?s) (rc', s)"
    by (auto simp: supervised_step_def)
  with supervised.run_nil have "supervised.run default_policy (?rc, ?s) ([] @ [(?cl, demo_clock, ?i)]) (rc', s)"
    by (rule supervised.run_snoc)
  then have r: "supervised.run default_policy (?rc, ?s) [(?cl, demo_clock, ?i)] (rc', s)" by simp
  from every_supervised_run_stays_in_bounds [OF default_well_formed demo_controller_policy this]
  have "get_outer_progress s ''iteration'' \<le> 1" by (auto simp: accounting_def)
  with r show ?thesis by blast
qed

end
