(* ===== verification/Reducer_Behaviour.thy ===== *)
theory Reducer_Behaviour
  imports Reducer_Invariants
begin

text \<open>
  Functional behaviour of the reducer on the branches that matter most: the expired cycle, the retry
  ladder without a controller, the end of a fan-out, the timer on a route out of the cycle, and the
  two places where the handlers do not do what their neighbours do.
\<close>

section \<open>The expired cycle\<close>

text \<open>A target whose own analysis loop, if it has one, still has passes left.\<close>

definition has_loop_budget :: "PipelinePolicy \<Rightarrow> PipelineState \<Rightarrow> string \<Rightarrow> bool" where
  "has_loop_budget P s t \<longleftrightarrow>
     (\<forall>d lp c. phase_of P t = Some d \<longrightarrow> pd_loop_policy d = Some lp \<longrightarrow>
        dict_get (pp_loop_counters P) (iteration_state_field lp) = Some c \<longrightarrow>
        get_loop_iteration s (iteration_state_field lp) < lc_default_max c)"

lemma bypass_open:
  assumes "well_formed P" and "has_loop_budget P s t"
  shows "resolve_exhausted_analysis_bypass s t P = Inr \<lparr>br_state = s, br_target_phase = t, br_skipped = []\<rparr>"
proof (cases "\<exists>d lp. phase_of P t = Some d \<and> pd_loop_policy d = Some lp")
  case False
  then show ?thesis unfolding resolve_exhausted_analysis_bypass_def
    by (subst bypass_loop.simps) (auto simp: Let_def split: option.splits)
next
  case True
  then obtain d lp where d: "phase_of P t = Some d" and lp: "pd_loop_policy d = Some lp" by blast
  from assms(1) d lp obtain c :: LoopCounterConfig
    where c: "dict_get (pp_loop_counters P) (iteration_state_field lp) = Some c"
    by (rule well_formed_loop_counter)
  have "\<not> should_skip_analysis_reentry (get_loop_iteration s (iteration_state_field lp)) (lc_default_max c)"
    using assms(2) by (auto simp: has_loop_budget_def d lp c should_skip_analysis_reentry_def should_skip_reentry_def
        loop_counter_def)
  then show ?thesis unfolding resolve_exhausted_analysis_bypass_def
    by (subst bypass_loop.simps) (simp add: Let_def d lp resolve_analysis_cap_def c)
qed

text \<open>The events after which the code would run the current phase again.\<close>

definition reruns_phase :: "Recovery option \<Rightarrow> Event \<Rightarrow> bool" where
  "reruns_phase rec e = (case e of
     PipelineEv pe \<Rightarrow> pe \<in> {AGENT_FAILURE, AGENT_RETRY}
   | WorkerFailedEv uid code err \<Rightarrow> True
   | PhaseFailureEv f \<Rightarrow> pf_recoverable f \<or> rec \<noteq> None
   | _ \<Rightarrow> False)"

text \<open>The handler of an agent failure looks for the chain of the phase before it looks at the timer.\<close>

definition asks_for_chain :: "Recovery option \<Rightarrow> Event \<Rightarrow> bool" where
  "asks_for_chain rec e = (case e of
     PipelineEv pe \<Rightarrow> pe = AGENT_FAILURE | PhaseFailureEv f \<Rightarrow> rec = None | _ \<Rightarrow> False)"

definition expired :: "PipelinePolicy \<Rightarrow> CycleTimeboxPolicy \<Rightarrow> PipelineState \<Rightarrow> rat \<Rightarrow> bool" where
  "expired P ct s elapsed \<longleftrightarrow>
     pp_cycle_timebox P = Some ct \<and> ps_cycle_timebox_active s \<and> ps_phase s = ct_guarded_entry ct
     \<and> ct_guarded_entry ct \<notin> {ct_end_entry ct, ct_finalization_target ct, ct_start_source ct}
     \<and> ct_duration_seconds ct \<le> elapsed
     \<and> (\<forall>d. phase_of P (ct_guarded_entry ct) = Some d \<longrightarrow> pd_role d \<noteq> Some RoleAnalysis)
     \<and> has_loop_budget P s (ct_finalization_target ct)"

definition finalized :: "PipelinePolicy \<Rightarrow> CycleTimeboxPolicy \<Rightarrow> rat \<Rightarrow> PipelineState \<Rightarrow> PipelineState" where
  "finalized P ct elapsed s =
     advanced P (ct_finalization_target ct)
       (concluded (Some (cycle_timebox_redirect_reason (ct_duration_seconds ct) elapsed (ct_finalization_target ct)))
         (Some (ct_finalization_cycle_outcome ct)) s)"

lemma concluded_loops [simp]: "get_loop_iteration (concluded r oc s) f = get_loop_iteration s f"
  by (simp add: concluded_def stamp_outcome_def get_loop_iteration_def split: option.split)

lemma concluded_phase [simp]:
  "ps_phase (concluded r oc s) = ps_phase s" "ps_phase_chains (concluded r oc s) = ps_phase_chains s"
  by (simp_all add: concluded_def stamp_outcome_def split: option.split)

lemma redirect_expired:
  assumes wf: "well_formed P" and ex: "expired P ct s elapsed"
  shows "redirect_expired_cycle_in_place s (Some P) (Some elapsed) = Inr (Some (finalized P ct elapsed s, []))"
proof -
  let ?t = "ct_finalization_target ct"
  let ?r = "cycle_timebox_redirect_reason (ct_duration_seconds ct) elapsed ?t"
  let ?c = "concluded (Some ?r) (Some (ct_finalization_cycle_outcome ct)) s"
  note e = ex [unfolded expired_def]
  have d: "apply_cycle_timebox s (ps_phase s) P (Some elapsed) =
      \<lparr>td_state = ?c, td_target_phase = ?t, td_redirected = True, td_redirect_reason = Some ?r,
       td_timing_started = False\<rparr>"
    using e by (auto simp: apply_cycle_timebox_def Let_def)
  have pass: "apply_cycle_timebox ?c ?t P (Some elapsed) = pass_through ?c ?t"
    using e by (auto simp: apply_cycle_timebox_def)
  have own: "own_analysis_bypass ?c ?t P = Inr None"
    using e by (auto simp: own_analysis_bypass_def split: option.split)
  have "has_loop_budget P ?c ?t" using e by (simp add: has_loop_budget_def)
  note open_t = bypass_open [OF wf this]
  have "prepare_phase_advance ?c ?t (Some P) (Some elapsed) = Inr (?c, ?t)"
    using e by (simp add: prepare_phase_advance_def pass own open_t Let_def with_bypassed_cycle_timing_def
        concluded_if_leaving_cycle_def conclude_cycle_on_route_out_of_cycle_def)
  then show ?thesis
    by (simp add: redirect_expired_cycle_in_place_def d Let_def reducer_advance_phase_def advance_phase_def
        finalized_def)
qed

lemma expired_update:
  "expired P ct (s\<lparr>ps_last_error := x, ps_agent_retry_intent := i\<rparr>) elapsed = expired P ct s elapsed"
  by (simp add: expired_def has_loop_budget_def get_loop_iteration_def)

text \<open>A recoverable phase failure is an agent failure with the message and the intent set.\<close>

lemma recoverable_failure:
  assumes "pf_recoverable e"
  obtains msg i where "handle_phase_failure s e pol timing =
    handle_agent_failure (s\<lparr>ps_last_error := Some msg, ps_agent_retry_intent := i\<rparr>) pol timing None"
proof -
  define msg where "msg = (if pf_reason e \<noteq> [] \<and> str_strip (pf_reason e) \<noteq> []
      then pf_phase e @ '': '' @ pf_reason e else no_reason (pf_phase e))"
  have "\<exists>i. (if pf_retry_in_session e \<and> truthy (ps_last_agent_session_id s)
      then resume_agent_retry_intent (the (ps_last_agent_session_id s)) msg False
      else Inr cleared_agent_retry_intent) = Inr i"
    using resume_agent_retry_intent_ok [of "the (ps_last_agent_session_id s)" msg False]
    by (auto simp: truthy_def split: option.splits)
  then obtain i where i: "(if pf_retry_in_session e \<and> truthy (ps_last_agent_session_id s)
      then resume_agent_retry_intent (the (ps_last_agent_session_id s)) msg False
      else Inr cleared_agent_retry_intent) = Inr i" by blast
  show ?thesis
    by (rule that, unfold handle_phase_failure_def msg_def [symmetric] Let_def i bind_r_Inr)
      (simp add: assms)
qed

text \<open>
  C19. A spent cycle buys no further invocation. The timer of the cycle runs, its deadline has passed and the run is in
  the guarded phase; that phase is not the end phase, the start phase or the finalization target of the timebox and has
  no analysis role, and the loop of the finalization target has iterations left. Then every event that would otherwise
  re-run the phase (an agent failure, a continuation request, a failed worker, a recoverable phase failure or, with a
  controller, any phase failure), with or without a recovery controller, moves the run to the finalization target
  instead: no retry is counted, no agent is charged, the timer stops, the redirect is counted, and the verdict is the
  finalization outcome unless the cycle already recorded one. An agent failure, or a phase failure without a
  controller, is covered when the phase has a tracked chain.
\<close>

theorem expired_cycle_never_reruns:
  assumes "well_formed P" and "expired P ct s elapsed" and "reruns_phase rec e"
    and "asks_for_chain rec e \<longrightarrow> chain_for_phase s (ps_phase s) \<noteq> None"
  shows "\<exists>s'. reduce s e (Some P) rec (Some elapsed) now = Inr (recovery_of rec, s', [])
     \<and> ps_phase s' = ct_finalization_target ct \<and> \<not> ps_cycle_timebox_active s'
     \<and> ps_cycle_timebox_redirects s' = ps_cycle_timebox_redirects s + 1
     \<and> ps_phase_chains s' = ps_phase_chains s
     \<and> ps_pending_cycle_outcome s' =
         (if ps_pending_cycle_outcome s = None then Some (ct_finalization_cycle_outcome ct)
          else ps_pending_cycle_outcome s)"
proof -
  have fin: "ps_phase (finalized P ct elapsed t) = ct_finalization_target ct
      \<and> \<not> ps_cycle_timebox_active (finalized P ct elapsed t)
      \<and> ps_cycle_timebox_redirects (finalized P ct elapsed t) = ps_cycle_timebox_redirects t + 1
      \<and> ps_phase_chains (finalized P ct elapsed t) = ps_phase_chains t
      \<and> ps_work_units (finalized P ct elapsed t) = ps_work_units t
      \<and> ps_pending_cycle_outcome (finalized P ct elapsed t) =
         (if ps_pending_cycle_outcome t = None then Some (ct_finalization_cycle_outcome ct)
          else ps_pending_cycle_outcome t)" for t
    by (simp add: finalized_def) (simp add: concluded_def stamp_outcome_def)
  note red = redirect_expired [OF assms(1)]
  have rw: "restore_work_units s (finalized P ct elapsed t) = finalized P ct elapsed t"
    if "ps_work_units t = ps_work_units s" for t
    using fin [of t] that by simp
  let ?good = "\<lambda>t. ps_pending_cycle_outcome t = ps_pending_cycle_outcome s \<and> ps_phase_chains t = ps_phase_chains s
      \<and> ps_cycle_timebox_redirects t = ps_cycle_timebox_redirects s"
  have "\<exists>t. reduce s e (Some P) rec (Some elapsed) now = Inr (recovery_of rec, finalized P ct elapsed t, []) \<and> ?good t"
  proof -
    have af: "handle_agent_failure t (Some P) (Some elapsed) r = keep_controller r (Inr (finalized P ct elapsed t, []))"
      if "expired P ct t elapsed" "chain_for_phase t (ps_phase t) = Some c" for t r c
      using that by (simp add: handle_agent_failure_def red [OF that(1)])
    consider "e = PipelineEv AGENT_FAILURE" | "e = PipelineEv AGENT_RETRY"
      | uid code err where "e = WorkerFailedEv uid code err"
      | f where "e = PhaseFailureEv f" "rec \<noteq> None"
      | f where "e = PhaseFailureEv f" "rec = None" "pf_recoverable f"
      using assms(3) by (cases rec) (auto simp: reruns_phase_def split: Event.splits)
    then show ?thesis
    proof cases
      case 1
      then obtain c where c: "chain_for_phase s (ps_phase s) = Some c" using assms(4) by (auto simp: asks_for_chain_def)
      from 1 show ?thesis
        by (intro exI [of _ s]) (auto simp: reduce_def reduce_captured_agent_failure_def red [OF assms(2)]
            af [OF assms(2) c] keep_controller_def reduce_pipeline_event_def event_handler_def rw
            split: option.split)
    next
      case 2
      then show ?thesis
        by (intro exI [of _ s]) (simp add: reduce_def reduce_pipeline_event_def event_handler_def
            handle_agent_retry_def red [OF assms(2)] keep_controller_def rw)
    next
      case 3
      then show ?thesis
        by (intro exI [of _ s]) (simp add: reduce_def reduce_worker_failed_def red [OF assms(2)] keep_controller_def)
    next
      case 4
      then show ?thesis
        by (intro exI [of _ s]) (auto simp: reduce_def reduce_phase_failure_def red [OF assms(2)] keep_controller_def)
    next
      case 5
      then obtain c where c: "chain_for_phase s (ps_phase s) = Some c" using assms(4) by (auto simp: asks_for_chain_def)
      from 5(3) obtain x i where "handle_phase_failure s f (Some P) (Some elapsed) =
          handle_agent_failure (s\<lparr>ps_last_error := x, ps_agent_retry_intent := i\<rparr>) (Some P) (Some elapsed) None"
        by (rule recoverable_failure)
      with 5 show ?thesis
        using af [of "s\<lparr>ps_last_error := x, ps_agent_retry_intent := i\<rparr>" c None] assms(2) c
        by (intro exI [of _ "s\<lparr>ps_last_error := x, ps_agent_retry_intent := i\<rparr>"])
          (simp add: reduce_def reduce_phase_failure_def expired_update chain_for_phase_def keep_controller_def)
    qed
  qed
  then show ?thesis using fin by fastforce
qed

definition expired_demo :: PipelineState where
  "expired_demo = (demo_run [''claude''])\<lparr>ps_cycle_timebox_active := True\<rparr>"

theorem expired_cycle_never_reruns_witness:
  "\<exists>s'. reduce expired_demo (PipelineEv AGENT_FAILURE) (Some default_policy) None (Some 8000) 0
         = Inr (None, s', [])
       \<and> ps_phase s' = ''development_final_commit_cleanup'' \<and> \<not> ps_cycle_timebox_active s'"
proof -
  let ?s = expired_demo
  have "expired default_policy default_timebox ?s 8000"
    unfolding expired_def has_loop_budget_def
  proof (intro conjI allI impI)
    show "pp_cycle_timebox default_policy = Some default_timebox" by (rule demo_timebox)
    show "ps_cycle_timebox_active ?s" "ps_phase ?s = ct_guarded_entry default_timebox"
      by (simp_all add: expired_demo_def demo_run_def with_phase_chain_def default_timebox_def)
    show "ct_guarded_entry default_timebox \<notin> {ct_end_entry default_timebox, ct_finalization_target default_timebox,
         ct_start_source default_timebox}"
      "ct_duration_seconds default_timebox \<le> 8000" by (simp_all add: default_timebox_def)
    have "case phase_of default_policy (ct_guarded_entry default_timebox) of
        Some d \<Rightarrow> pd_role d \<noteq> Some RoleAnalysis | None \<Rightarrow> True" by code_simp
    then show "pd_role d \<noteq> Some RoleAnalysis"
      if "phase_of default_policy (ct_guarded_entry default_timebox) = Some d" for d using that by simp
    have "case phase_of default_policy (ct_finalization_target default_timebox) of
        Some d \<Rightarrow> (case pd_loop_policy d of Some lp \<Rightarrow>
          (case dict_get (pp_loop_counters default_policy) (iteration_state_field lp) of Some c \<Rightarrow>
             get_loop_iteration ?s (iteration_state_field lp) < lc_default_max c | None \<Rightarrow> True) | None \<Rightarrow> True)
      | None \<Rightarrow> True" by code_simp
    then show "get_loop_iteration ?s (iteration_state_field lp) < lc_default_max c"
      if "phase_of default_policy (ct_finalization_target default_timebox) = Some d" "pd_loop_policy d = Some lp"
        "dict_get (pp_loop_counters default_policy) (iteration_state_field lp) = Some c" for d lp c
      using that by simp
  qed
  moreover have "chain_for_phase ?s (ps_phase ?s) \<noteq> None"
    by (simp add: expired_demo_def demo_run_def with_phase_chain_def chain_for_phase_def)
  ultimately show ?thesis
    using expired_cycle_never_reruns [OF default_well_formed, of default_timebox ?s 8000 None "PipelineEv AGENT_FAILURE" 0]
    by (auto simp: reruns_phase_def recovery_of_def default_timebox_def)
qed

section \<open>The retry ladder without a controller\<close>

text \<open>Failures a chain can still absorb: three retries per agent, then the next agent.\<close>

definition ladder :: "AgentChainState \<Rightarrow> nat" where
  "ladder c = 4 * (length (acs_agents c) - acs_current_index c - 1) + (3 - acs_retries c)"

text \<open>
  \<open>n\<close> agent failures in a row that all left the run in its phase; no deadline is configured.
\<close>

fun absorbed :: "PipelinePolicy \<Rightarrow> nat \<Rightarrow> PipelineState \<Rightarrow> PipelineState option" where
  "absorbed P 0 s = Some s"
| "absorbed P (Suc n) s =
     (case reduce s (PipelineEv AGENT_FAILURE) (Some P) None None 0 of
        Inl e \<Rightarrow> None
      | Inr (rc, s', effs) \<Rightarrow> if ps_phase s' = ps_phase s then absorbed P n s' else None)"

lemma failure_step:
  assumes wf: "well_formed P" and c: "chain_for_phase s (ps_phase s) = Some c"
    and "\<not> ari_skip_same_agent_retries (ps_agent_retry_intent s)"
    and fb: "fallback_target (Some P) (ps_phase s) = None"
  obtains s' c' where "reduce s (PipelineEv AGENT_FAILURE) (Some P) None None 0 = Inr (None, s', [])"
      and "ladder c \<noteq> 0" "ps_phase s' = ps_phase s" "chain_for_phase s' (ps_phase s) = Some c'"
      and "ladder c' + 1 = ladder c" "acs_agents c' = acs_agents c"
      and "\<not> ari_skip_same_agent_retries (ps_agent_retry_intent s')"
    | s' where "reduce s (PipelineEv AGENT_FAILURE) (Some P) None None 0 = Inr (None, s', [])"
      and "ladder c = 0" "ps_phase s' = failed_route P"
proof -
  have noredirect: "redirect_expired_cycle_in_place s (Some P) None = Inr None"
    by (simp add: redirect_expired_cycle_in_place_def)
  have red: "reduce s (PipelineEv AGENT_FAILURE) (Some P) None None 0 =
      bind_r (case retry_or_fall_over s c None of Some s' \<Rightarrow> Inr (s', [])
        | None \<Rightarrow> enter_failed_recovery s (failure_reason_or s (''Agent chain exhausted in phase='' @ quoted (ps_phase s)
            @ '' after '' @ nat_str (acs_retries c) @ '' retries across ''
            @ nat_str (length (acs_agents c)) @ '' agents'')) (Some P))
      (\<lambda>(s', effs). Inr (None, restore_work_units s s', effs))"
    using assms by (auto simp: reduce_def reduce_captured_agent_failure_def reduce_pipeline_event_def event_handler_def
        handle_agent_failure_def noredirect note_and_select_def selection_attempt_def
        all_agents_unavailable_wait_state_def keep_controller_def recovery_of_def bind_r_def Let_def
        split: option.splits sum.splits)
  show thesis
  proof (cases "retry_or_fall_over s c None")
    case (Some s')
    then have "reduce s (PipelineEv AGENT_FAILURE) (Some P) None None 0 = Inr (None, s', [])"
      using red by (auto simp: retry_or_fall_over_def with_phase_chain_def split: if_splits)
    with Some assms(3) show thesis
      by (intro that(1) [of s' "if acs_retries c < 3 then chain_with_retry_increment c else chain_with_advance c"])
        (auto simp: retry_or_fall_over_def ladder_def chain_with_retry_increment_def chain_with_advance_def
          with_phase_chain_def chain_for_phase_def cleared_agent_retry_intent_def split: if_splits)
  next
    case None
    obtain s' where "enter_failed_recovery s (failure_reason_or s (''Agent chain exhausted in phase='' @ quoted (ps_phase s)
            @ '' after '' @ nat_str (acs_retries c) @ '' retries across ''
            @ nat_str (length (acs_agents c)) @ '' agents'')) (Some P) = Inr (s', [])"
      and "quiet P s s'" "ps_phase s' = failed_route P"
      by (rule enter_failed_recovery_spec [OF wf])
    with None red show thesis
      by (intro that(2) [of s']) (auto simp: restore_work_units_quiet retry_or_fall_over_def ladder_def split: if_splits)
  qed
qed

text \<open>
  The retry ladder is finite and exact. Without a controller and without a workflow fallback, a
  chain absorbs exactly \<open>ladder\<close> consecutive agent failures in place (three retries for the agent it
  is at, four attempts for each agent after it), and the next failure takes the run to the policy's
  failed route.
\<close>

theorem agent_failures_absorbed_exactly:
  assumes "well_formed P" and "chain_for_phase s (ps_phase s) = Some c"
    and "\<not> ari_skip_same_agent_retries (ps_agent_retry_intent s)"
    and "fallback_target (Some P) (ps_phase s) = None" and "failed_route P \<noteq> ps_phase s"
  shows "absorbed P n s \<noteq> None \<longleftrightarrow> n \<le> ladder c"
  using assms(2-5)
proof (induction n arbitrary: s c)
  case 0
  show ?case by simp
next
  case (Suc n)
  from assms(1) Suc.prems(1-3) show ?case
  proof (rule failure_step)
    fix s' c'
    assume a: "reduce s (PipelineEv AGENT_FAILURE) (Some P) None None 0 = Inr (None, s', [])"
      "ladder c \<noteq> 0" "ps_phase s' = ps_phase s" "chain_for_phase s' (ps_phase s) = Some c'"
      "ladder c' + 1 = ladder c" "\<not> ari_skip_same_agent_retries (ps_agent_retry_intent s')"
    with Suc.IH [of s' c'] Suc.prems show ?thesis by auto
  next
    fix s'
    assume "reduce s (PipelineEv AGENT_FAILURE) (Some P) None None 0 = Inr (None, s', [])"
      "ladder c = 0" "ps_phase s' = failed_route P"
    with Suc.prems(4) show ?thesis by simp
  qed
qed

theorem agent_failures_absorbed_exactly_witness:
  "absorbed default_policy 7 (demo_run [''claude'', ''codex'']) \<noteq> None
   \<and> absorbed default_policy 8 (demo_run [''claude'', ''codex'']) = None"
proof -
  let ?s = "demo_run [''claude'', ''codex'']"
  let ?c = "\<lparr>acs_agents = [''claude'', ''codex''], acs_current_index = 0, acs_retries = 0\<rparr>"
  have ph: "ps_phase ?s = ''development''" by (simp add: demo_run_def with_phase_chain_def)
  then have c: "chain_for_phase ?s (ps_phase ?s) = Some ?c" by (simp add: demo_run_def)
  have i: "\<not> ari_skip_same_agent_retries (ps_agent_retry_intent ?s)"
    and "Option.is_none (fallback_target (Some default_policy) (ps_phase ?s))"
    and r: "failed_route default_policy \<noteq> ps_phase ?s" by code_simp+
  then have f: "fallback_target (Some default_policy) (ps_phase ?s) = None" by (simp add: Option.is_none_def)
  show ?thesis
    using agent_failures_absorbed_exactly [OF default_well_formed c i f r, of 7]
      agent_failures_absorbed_exactly [OF default_well_formed c i f r, of 8]
    by (auto simp: ladder_def)
qed

section \<open>The end of a fan-out\<close>

definition failed_units :: "PipelineState \<Rightarrow> string list" where
  "failed_units s = sort (map fst (filter (\<lambda>(uid, w). ws_status w \<in> {FAILED, CANCELLED}) (ps_worker_states s)))"

text \<open>
  A fan-out ends exactly when it is over. On the all-complete event the run fails, naming every
  failed or cancelled unit in order, as soon as there is one; it waits while some worker is still
  pending or running; and it follows the phase's success transition when every worker succeeded.
\<close>

theorem fan_out_completion:
  fixes rec :: "Recovery option" and timing :: "RoutingTiming option" and now :: timestamp
  assumes "well_formed P" and "ps_worker_states s \<noteq> []" and "phase_of P (ps_phase s) = Some d"
  defines "r \<equiv> reduce s (PipelineEv ALL_WORKERS_COMPLETE) (Some P) rec timing now"
  shows "if failed_units s \<noteq> [] then
      \<exists>s'. r = Inr (recovery_of rec, s', []) \<and> ps_phase s' = failed_route P
        \<and> ps_last_error s' = Some (''Parallel fan-out had failed workers: '' @ str_join '', '' (failed_units s))
    else if \<exists>(uid, w) \<in> set (ps_worker_states s). ws_status w \<noteq> SUCCEEDED then r = Inr (recovery_of rec, s, [])
    else r = keep_controller rec (reducer_advance_phase s (on_success (pd_transitions d)) (Some P) timing)"
proof -
  have r: "r = keep_controller rec (bind_r (handle_all_workers_complete s (Some P) timing)
      (\<lambda>(s', effs). Inr (restore_work_units s s', effs)))"
    by (simp add: r_def reduce_def reduce_pipeline_event_def event_handler_def)
  define msg where "msg = ''Parallel fan-out had failed workers: '' @ str_join '', '' (failed_units s)"
  obtain sf where f: "enter_failed_recovery s msg (Some P) = Inr (sf, [])" "quiet P s sf"
    "ps_phase sf = failed_route P" "ps_last_error sf = Some msg"
    by (rule enter_failed_recovery_spec [OF assms(1)])
  have nxt: "resolve_next_phase (ps_phase s) ''success'' P = Inr (on_success (pd_transitions d))"
    by (rule resolve_next_phase_success [OF well_formed_validated [OF assms(1)] assms(3)])
  obtain sa where a: "reducer_advance_phase s (on_success (pd_transitions d)) (Some P) timing = Inr (sa, [])" "quiet P s sa"
    using advance_routes [OF assms(1) validated_transitions(1) [OF well_formed_validated [OF assms(1)] assms(3)]]
    by (auto simp: routes_def)
  have eq: "handle_all_workers_complete s (Some P) timing =
      (if failed_units s \<noteq> [] then enter_failed_recovery s msg (Some P)
       else if list_ex (\<lambda>(uid, w). ws_status w \<noteq> SUCCEEDED) (ps_worker_states s) then Inr (s, [])
       else reducer_advance_phase s (on_success (pd_transitions d)) (Some P) timing)"
    unfolding handle_all_workers_complete_def failed_units_def [symmetric] Let_def msg_def [symmetric]
    by (simp add: assms(2) nxt a(1))
  show ?thesis
    unfolding msg_def [symmetric] r eq
    using f(3,4) by (auto simp: f(1) a(1) restore_work_units_quiet [OF f(2)] restore_work_units_quiet [OF a(2)]
        keep_controller_def list_ex_iff)
qed

definition finished_demo :: PipelineState where
  "finished_demo = (handle_worker_failed (handle_fan_out_started fan_out_demo) ''u1'' 1 ''boom'' 7)
     \<lparr>ps_phase := ''development''\<rparr>"

theorem fan_out_completion_witness:
  "\<exists>s'. reduce finished_demo (PipelineEv ALL_WORKERS_COMPLETE) (Some default_policy) None None 0 = Inr (None, s', [])
     \<and> ps_phase s' = ''failed_terminal''
     \<and> ps_last_error s' = Some ''Parallel fan-out had failed workers: u1''"
proof -
  have f: "failed_units finished_demo = [''u1'']" by code_simp
  have "ps_worker_states finished_demo \<noteq> []"
    using f by (auto simp: failed_units_def)
  moreover have "case phase_of default_policy (ps_phase finished_demo) of None \<Rightarrow> False | Some d \<Rightarrow> True" by code_simp
  then obtain d where "phase_of default_policy (ps_phase finished_demo) = Some d" by (auto split: option.splits)
  moreover have "failed_route default_policy = ''failed_terminal''" by code_simp
  ultimately show ?thesis
    using fan_out_completion [OF default_well_formed, of finished_demo d None None 0] f
    by (auto simp: recovery_of_def str_join_def)
qed

section \<open>The timer on a route out of the cycle\<close>

text \<open>
  Every routed advance that lands outside the running cycle, on a phase the declared edges reach
  without entering the cycle or on a terminal, leaves the cycle timer switched off.
\<close>

theorem timer_off_outside_cycle:
  assumes "reducer_advance_phase s t (Some P) timing = Inr (s', effs)" and "pp_cycle_timebox P = Some ct"
    and "outside_cycle P ct (ps_phase s') \<or> ps_phase s' \<in> set (terminal_states P)"
  shows "\<not> ps_cycle_timebox_active s'"
proof -
  from assms(1) obtain s1 t1 where p: "prepare_phase_advance s t (Some P) timing = Inr (s1, t1)"
    and s': "s' = advanced P t1 s1"
    by (auto simp: reducer_advance_phase_def advance_phase_def bind_r_eq_Inr)
  from p obtain b j where "concluded_if_leaving_cycle (with_bypassed_cycle_timing b P timing j) P = (s1, t1)"
    by (auto simp: prepare_phase_advance_def Let_def bind_r_eq_Inr split: option.splits)
  then obtain s0 where "s1 = conclude_cycle_on_route_out_of_cycle s0 t1 P"
    by (auto simp: concluded_if_leaving_cycle_def split: prod.splits)
  moreover have "t1 \<in> set (outside_cycle_phases P ct) \<union> set (terminal_states P)"
    using assms(3) s' outside_search_correct [of t1 P ct] by auto
  ultimately show ?thesis
    using assms(2) s' by (auto simp: conclude_cycle_on_route_out_of_cycle_def)
qed

theorem timer_off_outside_cycle_witness:
  "\<exists>s'. reducer_advance_phase running_cycle_demo ''complete'' (Some default_policy) (Some 60) = Inr (s', [])
     \<and> ps_phase s' = ''complete'' \<and> \<not> ps_cycle_timebox_active s'"
proof -
  have "case reducer_advance_phase running_cycle_demo ''complete'' (Some default_policy) (Some 60) of
      Inl e \<Rightarrow> False | Inr (s', effs) \<Rightarrow> effs = [] \<and> ps_phase s' = ''complete''" by code_simp
  then obtain s' where r: "reducer_advance_phase running_cycle_demo ''complete'' (Some default_policy) (Some 60) = Inr (s', [])"
    and ph: "ps_phase s' = ''complete''" by (auto split: sum.splits)
  have "''complete'' \<in> set (terminal_states default_policy)" by code_simp
  with timer_off_outside_cycle [OF r demo_timebox] r ph show ?thesis by auto
qed

section \<open>Handlers that differ from their neighbours\<close>

text \<open>
  A continuation request in a phase without a tracked chain raises even when a policy is loaded: the
  handler does not pass the policy on to the failed route, unlike the agent-failure handler, which
  routes the same situation to the failed phase.
\<close>

theorem agent_retry_without_chain_raises:
  assumes "chain_for_phase s (ps_phase s) = None" and "well_formed P"
  shows "reduce s (PipelineEv AGENT_RETRY) (Some P) rec None now = Inl routing_requires_policy
    \<and> (\<exists>s'. reduce s (PipelineEv AGENT_FAILURE) (Some P) None None now = Inr (None, s', [])
          \<and> ps_phase s' = failed_route P)"
proof -
  have "reduce s (PipelineEv AGENT_RETRY) (Some P) rec None now = Inl routing_requires_policy"
    by (simp add: reduce_def reduce_pipeline_event_def event_handler_def handle_agent_retry_def
        redirect_expired_cycle_in_place_def assms(1) enter_failed_recovery_def terminal_failure_route_def
        keep_controller_def)
  moreover obtain s' where "enter_failed_recovery s (failure_reason_or s (''No tracked agent chain for '' @ ps_phase s))
      (Some P) = Inr (s', [])" and "quiet P s s'" "ps_phase s' = failed_route P"
    by (rule enter_failed_recovery_spec [OF assms(2)])
  then have "reduce s (PipelineEv AGENT_FAILURE) (Some P) None None now = Inr (None, s', []) \<and> ps_phase s' = failed_route P"
    by (simp add: reduce_def reduce_captured_agent_failure_def reduce_pipeline_event_def event_handler_def
        handle_agent_failure_def assms(1) keep_controller_def recovery_of_def restore_work_units_quiet)
  ultimately show ?thesis by blast
qed

theorem agent_retry_without_chain_raises_witness:
  "reduce (from_policy default_policy) (PipelineEv AGENT_RETRY) (Some default_policy) None None 0
     = Inl routing_requires_policy"
  using agent_retry_without_chain_raises [OF _ default_well_formed, of "from_policy default_policy" None 0]
  by (simp add: from_policy_def chain_for_phase_def)

text \<open>
  The completion event switches phases without the routing seam: a running cycle timer is left
  running in the terminal phase, where every routed advance would have switched it off.
\<close>

theorem complete_leaves_timer_running:
  "reduce s (PipelineEv COMPLETE) (Some P) rec timing now
     = Inr (recovery_of rec, advanced P (pp_terminal_phase P) s, [])
   \<and> ps_cycle_timebox_active (advanced P (pp_terminal_phase P) s) = ps_cycle_timebox_active s"
  by (simp add: reduce_def reduce_pipeline_event_def event_handler_def handle_complete_def
      terminal_success_route_def advance_phase_def keep_controller_def)

end
