(* ===== verification/Work_Units.thy ===== *)
theory Work_Units
  imports Pipeline_State "HOL-Library.Sublist" "HOL-Library.List_Lexorder" "HOL-Library.Char_ord"
begin

text \<open>
  Planning work units (\<^verbatim>\<open>ralph/pipeline/work_unit.py\<close>, \<^verbatim>\<open>work_units.py\<close>): the field validators, the
  validation of the dependency graph, and the check that the edit areas of a plan are disjoint, so
  that workers can share one checkout. Directories are POSIX paths; what \<^verbatim>\<open>PurePosixPath\<close> makes of
  them is written out. The recursion limit of the interpreter, which a very long chain of dependencies
  would meet in the depth-first search, is not modelled.
\<close>

section \<open>POSIX paths\<close>

text \<open>
  \<^verbatim>\<open>PurePosixPath(path)\<close>: the root is empty, one slash, or exactly two slashes; empty components and
  single dots are dropped from the rest.
\<close>

fun split_slash :: "string \<Rightarrow> string list" where
  "split_slash [] = [[]]"
| "split_slash (c # cs) =
     (if c = CHR ''/'' then [] # split_slash cs
      else (case split_slash cs of [] \<Rightarrow> [[c]] | p # ps \<Rightarrow> (c # p) # ps))"

definition posix_root :: "string \<Rightarrow> string" where
  "posix_root path =
     (if starts_with ''//'' path \<and> \<not> starts_with ''///'' path then ''//''
      else if starts_with ''/'' path then ''/'' else '''')"

definition posix_tail :: "string \<Rightarrow> string list" where
  "posix_tail path = filter (\<lambda>p. p \<noteq> '''' \<and> p \<noteq> ''.'') (split_slash path)"

definition posix_parts :: "string \<Rightarrow> string list" where
  "posix_parts path = (if posix_root path = '''' then posix_tail path else posix_root path # posix_tail path)"

definition posix_str :: "string \<Rightarrow> string" where
  "posix_str path =
     (let s = posix_root path @ str_join ''/'' (posix_tail path) in if s = '''' then ''.'' else s)"

definition posix_is_absolute :: "string \<Rightarrow> bool" where
  "posix_is_absolute path \<longleftrightarrow> posix_root path \<noteq> ''''"

section \<open>Field validators of a work unit\<close>

definition is_unit_id_char :: "char \<Rightarrow> bool" where
  "is_unit_id_char c \<longleftrightarrow>
     (CHR ''a'' \<le> c \<and> c \<le> CHR ''z'') \<or> (CHR ''A'' \<le> c \<and> c \<le> CHR ''Z'')
     \<or> (CHR ''0'' \<le> c \<and> c \<le> CHR ''9'') \<or> c = CHR ''_'' \<or> c = CHR ''-''"

definition validate_unit_id :: "string \<Rightarrow> string result" where
  "validate_unit_id v =
     (if 1 \<le> length v \<and> length v \<le> 64 \<and> list_all is_unit_id_char v then Inr v
      else if v = [] then Inl (ValueError ''unit_id must be 1-64 chars from [a-zA-Z0-9_-] (got empty string)'')
      else if 64 < length v then
        Inl (ValueError (''unit_id must be at most 64 chars (got length '' @ nat_str (length v) @ '': ''
               @ str_repr v @ '')''))
      else (case find (\<lambda>c. \<not> is_unit_id_char c) v of
          Some c \<Rightarrow> Inl (ValueError (''unit_id contains invalid character '' @ str_repr [c]
                      @ ''; allowed: [a-zA-Z0-9_-]''))
        | None \<Rightarrow> Inl (ValueError (''unit_id must match ^[a-zA-Z0-9_-]{1,64}$ (got: '' @ str_repr v @ '')''))))"

definition validate_relative_subpath :: "string \<Rightarrow> string result" where
  "validate_relative_subpath path =
     (if path = [] then Inl (ValueError ''allowed_directories entries must be non-empty'')
      else if CHR 0x5C \<in> set path then
        Inl (ValueError (''allowed_directories entries must use '' @ [CHR 0x27] @ ''/'' @ [CHR 0x27] @ '' separators''))
      else if posix_is_absolute path then Inl (ValueError ''allowed_directories entries must be relative paths'')
      else if ''..'' \<in> set (posix_parts path) then
        Inl (ValueError (''allowed_directories entries must not contain '' @ [CHR 0x27] @ ''..'' @ [CHR 0x27]))
      else Inr path)"

fun is_step_id :: "string \<Rightarrow> bool" where
  "is_step_id (s # h # d # ds) \<longleftrightarrow>
     s = CHR ''S'' \<and> h = CHR ''-'' \<and> CHR ''1'' \<le> d \<and> d \<le> CHR ''9''
     \<and> list_all (\<lambda>c. CHR ''0'' \<le> c \<and> c \<le> CHR ''9'') ds"
| "is_step_id _ \<longleftrightarrow> False"

definition validate_step_ids :: "string list \<Rightarrow> string list result" where
  "validate_step_ids ids =
     (if list_ex (\<lambda>i. \<not> is_step_id i) ids
      then Inl (ValueError ''step_ids entries must use the S-<positive-number> form'')
      else if \<not> distinct ids then Inl (ValueError ''step_ids entries must be unique'')
      else Inr ids)"

text \<open>The model accepts a unit when every field is accepted; the length bounds are field constraints.\<close>

definition work_unit_accepted :: "WorkUnit \<Rightarrow> bool" where
  "work_unit_accepted u \<longleftrightarrow>
     returns (validate_unit_id (wu_unit_id u))
     \<and> wu_description u \<noteq> [] \<and> length (wu_description u) \<le> 4096
     \<and> list_all (\<lambda>d. returns (validate_relative_subpath d)) (wu_allowed_directories u)
     \<and> returns (validate_step_ids (wu_step_ids u))"

section \<open>The dependency graph\<close>

fun check_unique_ids :: "string list \<Rightarrow> string list \<Rightarrow> unit result" where
  "check_unique_ids seen [] = Inr ()"
| "check_unique_ids seen (i # ids) =
     (if i \<in> set seen then Inl (WorkUnitsValidationError (''Duplicate work unit id: '' @ i))
      else check_unique_ids (i # seen) ids)"

fun check_dependencies :: "string list \<Rightarrow> WorkUnit list \<Rightarrow> unit result" where
  "check_dependencies known [] = Inr ()"
| "check_dependencies known (u # us) =
     (if wu_unit_id u \<in> set (wu_dependencies u) then
        Inl (WorkUnitsValidationError (''Work unit '' @ quoted (wu_unit_id u) @ '' depends on itself''))
      else (case find (\<lambda>d. d \<notin> set known) (wu_dependencies u) of
          Some d \<Rightarrow> Inl (WorkUnitsValidationError (''Unknown dependency '' @ quoted d @ '' in work unit ''
                      @ quoted (wu_unit_id u)))
        | None \<Rightarrow> check_dependencies known us))"

text \<open>
  \<^verbatim>\<open>dfs(node)\<close> and its loop over dependencies. \<open>visiting\<close> is the path to the node; the visited set is
  threaded through.
\<close>

type_synonym dependency_map = "(string, string list) dict"

definition deps_of :: "dependency_map \<Rightarrow> string \<Rightarrow> string list" where
  "deps_of dm n = dict_get_or dm n []"

function dfs :: "dependency_map \<Rightarrow> string list \<Rightarrow> string list \<Rightarrow> string \<Rightarrow> string list result"
  and dfs_each :: "dependency_map \<Rightarrow> string list \<Rightarrow> string list \<Rightarrow> string list \<Rightarrow> string list result"
where
  "dfs dm visiting visited n =
     (if n \<in> set visited then Inr visited
      else if n \<in> set visiting then
        Inl (WorkUnitsValidationError (''Dependency cycle detected at '' @ quoted n))
      else bind_r (dfs_each dm (n # visiting) visited (deps_of dm n)) (\<lambda>v. Inr (n # v)))"
| "dfs_each dm visiting visited [] = Inr visited"
| "dfs_each dm visiting visited (n # ns) =
     bind_r (dfs dm visiting visited n) (\<lambda>v. dfs_each dm visiting v ns)"
  by pat_completeness auto
termination
proof (relation "measures
    [\<lambda>x. case x of Inl (dm, vg, vd, n) \<Rightarrow> card (fst ` set dm - set vg)
                 | Inr (dm, vg, vd, ns) \<Rightarrow> card (fst ` set dm - set vg),
     \<lambda>x. case x of Inl (dm, vg, vd, n) \<Rightarrow> 1 | Inr (dm, vg, vd, ns) \<Rightarrow> 2 * length ns]", goal_cases)
  case 1
  show ?case by simp
next
  case (2 dm visiting visited n)
  show ?case
  proof (cases "n \<in> fst ` set dm")
    case True
    with 2 have "card (fst ` set dm - set (n # visiting)) < card (fst ` set dm - set visiting)"
      by (intro psubset_card_mono) auto
    then show ?thesis by simp
  next
    case False
    then have "dict_get dm n = None" by (simp add: map_of_eq_None_iff)
    then have "deps_of dm n = []" by (simp add: deps_of_def dict_get_or_def)
    moreover from False have "fst ` set dm - set (n # visiting) = fst ` set dm - set visiting" by auto
    ultimately show ?thesis by simp
  qed
qed simp_all

definition validate_acyclic :: "dependency_map \<Rightarrow> unit result" where
  "validate_acyclic dm = bind_r (dfs_each dm [] [] (map fst dm)) (\<lambda>_. Inr ())"

definition dependency_map_of :: "WorkUnit list \<Rightarrow> dependency_map" where
  "dependency_map_of us = fold (\<lambda>u. dict_set (wu_unit_id u) (wu_dependencies u)) us []"

definition validate_graph :: "WorkUnit list \<Rightarrow> unit result" where
  "validate_graph us =
     bind_r (check_unique_ids [] (map wu_unit_id us)) (\<lambda>_.
     bind_r (check_dependencies (map wu_unit_id us) us) (\<lambda>_.
     validate_acyclic (dependency_map_of us)))"

section \<open>Edit areas\<close>

definition RESERVED_EDIT_PATHS :: "string list" where
  "RESERVED_EDIT_PATHS = [''.agent'', ''.git'', ''.worktrees'', ''.'', '''']"

definition check_reserved :: "string \<Rightarrow> string \<Rightarrow> unit result" where
  "check_reserved uid d =
     (case posix_parts d of
        [] \<Rightarrow> Inl (WorkUnitsValidationError (''Work unit '' @ quoted uid
                @ '' declares an empty allowed_directory. ''
                @ ''The empty string is a reserved path. Choose a specific subdirectory.''))
      | first # _ \<Rightarrow>
          if first = ''.worktrees'' then
            Inl (WorkUnitsValidationError (''Work unit '' @ quoted uid @ '' declares reserved path ''
              @ str_repr d @ '' as an edit area. '' @ ''Path '' @ quoted ''.worktrees''
              @ '' is reserved (defense-in-depth) and may not be used as an ''
              @ ''allowed_directory. Choose a project-owned subdirectory.''))
          else if posix_str d \<in> set RESERVED_EDIT_PATHS \<or> first \<in> {''.agent'', ''.git''} then
            Inl (WorkUnitsValidationError (''Work unit '' @ quoted uid @ '' declares reserved path ''
              @ str_repr d @ '' as an edit area. ''
              @ ''Reserved paths (.agent, .git, .) may not be declared as ''
              @ ''allowed_directories. Choose a project-owned subdirectory.''))
          else Inr ())"

definition path_parts_overlap :: "string list \<Rightarrow> string list \<Rightarrow> bool" where
  "path_parts_overlap a b =
     (let (shorter, longer) = (if length a \<le> length b then (a, b) else (b, a))
      in take (length shorter) longer = shorter)"

type_synonym area = "string \<times> string \<times> string list"

definition all_dirs :: "WorkUnit list \<Rightarrow> area list" where
  "all_dirs us = concat (map (\<lambda>u. map (\<lambda>d. (wu_unit_id u, d, posix_parts d)) (sort (wu_allowed_directories u)))
                   (sort_key wu_unit_id us))"

definition areas_clash :: "area \<Rightarrow> area \<Rightarrow> bool" where
  "areas_clash a b = (case (a, b) of ((u1, d1, p1), (u2, d2, p2)) \<Rightarrow> u1 \<noteq> u2 \<and> path_parts_overlap p1 p2)"

fun check_area_pairs :: "area list \<Rightarrow> unit result" where
  "check_area_pairs [] = Inr ()"
| "check_area_pairs (a # rest) =
     (case find (areas_clash a) rest of
        Some b \<Rightarrow> Inl (WorkUnitsValidationError (''Work unit '' @ quoted (fst a) @ '' edit area ''
            @ quoted (fst (snd a)) @ '' overlaps with '' @ ''work unit '' @ quoted (fst b)
            @ '' edit area '' @ quoted (fst (snd b)) @ ''. ''
            @ ''Choose disjoint subdirectories or merge the work units.''))
      | None \<Rightarrow> check_area_pairs rest)"

definition check_no_overlap :: "WorkUnit list \<Rightarrow> unit result" where
  "check_no_overlap us = check_area_pairs (all_dirs us)"

fun check_each :: "('a \<Rightarrow> unit result) \<Rightarrow> 'a list \<Rightarrow> unit result" where
  "check_each f [] = Inr ()"
| "check_each f (x # xs) = bind_r (f x) (\<lambda>_. check_each f xs)"

definition check_unit_areas :: "WorkUnit \<Rightarrow> unit result" where
  "check_unit_areas u =
     (if wu_allowed_directories u = [] then
        Inl (WorkUnitsValidationError (''Work unit '' @ quoted (wu_unit_id u)
          @ '' does not declare any allowed_directories. ''
          @ ''Each unit must declare the subdirectories it is permitted to edit. ''
          @ ''Choose disjoint subdirectories or merge the work units.''))
      else check_each (check_reserved (wu_unit_id u)) (wu_allowed_directories u))"

definition validate_for_same_workspace :: "WorkUnit list \<Rightarrow> unit result" where
  "validate_for_same_workspace us = bind_r (check_each check_unit_areas us) (\<lambda>_. check_no_overlap us)"

text \<open>
  \<^verbatim>\<open>WorkUnitsPlan(work_units=...)\<close>: pydantic turns the \<^verbatim>\<open>ValueError\<close> of a validator into a
  \<^verbatim>\<open>ValidationError\<close>. \<open>parse_plan\<close> is what \<^verbatim>\<open>parse_work_units_from_artifact\<close> does with units whose fields
  were accepted; \<open>render\<close> is the text pydantic gives its exception.
\<close>

definition new_plan :: "WorkUnit list \<Rightarrow> WorkUnit list result" where
  "new_plan us =
     (case validate_graph us of
        Inl (WorkUnitsValidationError m) \<Rightarrow> Inl (ValidationError m)
      | Inl e \<Rightarrow> Inl e
      | Inr _ \<Rightarrow> Inr us)"

definition parse_plan :: "(string \<Rightarrow> string) \<Rightarrow> WorkUnit list option \<Rightarrow> WorkUnit list option result" where
  "parse_plan render raw =
     (case raw of
        None \<Rightarrow> Inr None
      | Some us \<Rightarrow> (case new_plan us of
          Inr plan \<Rightarrow> Inr (Some plan)
        | Inl (ValidationError m) \<Rightarrow> Inl (WorkUnitsValidationError (render m))
        | Inl e \<Rightarrow> Inl e))"

section \<open>What the graph check decides\<close>

lemma find_SomeD: "find P xs = Some x \<Longrightarrow> x \<in> set xs \<and> P x"
  by (auto simp: find_Some_iff)

lemma returns_then [simp]: "returns (bind_r r (\<lambda>_. q)) \<longleftrightarrow> returns r \<and> returns q"
  by (cases r) simp_all

lemma check_unique_ids: "returns (check_unique_ids seen ids) \<longleftrightarrow> distinct ids \<and> set ids \<inter> set seen = {}"
  by (induction seen ids rule: check_unique_ids.induct) auto

lemma check_dependencies:
  "returns (check_dependencies known us) \<longleftrightarrow>
     (\<forall>u \<in> set us. wu_unit_id u \<notin> set (wu_dependencies u) \<and> set (wu_dependencies u) \<subseteq> set known)"
  by (induction known us rule: check_dependencies.induct)
    (auto split: option.splits simp: find_None_iff dest!: find_SomeD)

definition dep_rel :: "dependency_map \<Rightarrow> (string \<times> string) set" where
  "dep_rel dm = {(x, y). y \<in> set (deps_of dm x)}"

text \<open>The visited set of the search: closed under dependencies, and no member is on a cycle.\<close>

definition settled :: "dependency_map \<Rightarrow> string set \<Rightarrow> bool" where
  "settled dm V \<longleftrightarrow> (\<forall>x \<in> V. set (deps_of dm x) \<subseteq> V \<and> (x, x) \<notin> (dep_rel dm)\<^sup>+)"

lemma settled_closed: "(x, y) \<in> (dep_rel dm)\<^sup>* \<Longrightarrow> settled dm V \<Longrightarrow> x \<in> V \<Longrightarrow> y \<in> V"
  by (induction rule: rtrancl_induct) (auto simp: settled_def dep_rel_def)

lemma settled_insert:
  assumes V: "settled dm V" and deps: "set (deps_of dm n) \<subseteq> V"
  shows "settled dm (insert n V)"
proof -
  have "(n, n) \<notin> (dep_rel dm)\<^sup>+" if n: "n \<notin> V"
  proof
    assume "(n, n) \<in> (dep_rel dm)\<^sup>+"
    then obtain y where "(n, y) \<in> dep_rel dm" "(y, n) \<in> (dep_rel dm)\<^sup>*"
      by (auto dest: tranclD)
    with deps settled_closed [OF _ V] have "n \<in> V" by (auto simp: dep_rel_def)
    with n show False by contradiction
  qed
  with V deps show ?thesis by (auto simp: settled_def)
qed

lemma dfs_sound:
  "dfs dm vg vd n = Inr v \<Longrightarrow> settled dm (set vd) \<Longrightarrow> settled dm (set v) \<and> insert n (set vd) \<subseteq> set v"
  "dfs_each dm vg vd ns = Inr v \<Longrightarrow> settled dm (set vd) \<Longrightarrow> settled dm (set v) \<and> set ns \<union> set vd \<subseteq> set v"
proof (induction dm vg vd n and dm vg vd ns arbitrary: v and v rule: dfs_dfs_each.induct)
  case (1 dm visiting visited n)
  show ?case
  proof (cases "n \<in> set visited")
    case True
    with "1.prems" show ?thesis by auto
  next
    case False
    with "1.prems" obtain w where w: "dfs_each dm (n # visiting) visited (deps_of dm n) = Inr w"
      and v: "v = n # w" and ng: "n \<notin> set visiting"
      by (auto simp: bind_r_eq_Inr split: if_splits)
    from "1.IH" [OF False ng w "1.prems"(2)] settled_insert [of dm "set w" n] v show ?thesis by auto
  qed
next
  case (2 dm visiting visited)
  then show ?case by simp
next
  case (3 dm visiting visited n ns)
  then obtain w where w: "dfs dm visiting visited n = Inr w" "dfs_each dm visiting w ns = Inr v"
    by (auto simp del: dfs.simps simp: bind_r_eq_Inr)
  from "3.IH"(1) [OF w(1) "3.prems"(2)] "3.IH"(2) [OF w(1) w(2)] show ?case by auto
qed

lemma dfs_error:
  "dfs dm vg vd n = Inl e \<Longrightarrow> \<forall>x \<in> set vg. (x, n) \<in> (dep_rel dm)\<^sup>+ \<Longrightarrow> \<not> acyclic (dep_rel dm)"
  "dfs_each dm vg vd ns = Inl e \<Longrightarrow> \<forall>x \<in> set vg. \<forall>n \<in> set ns. (x, n) \<in> (dep_rel dm)\<^sup>+ \<Longrightarrow>
     \<not> acyclic (dep_rel dm)"
proof (induction dm vg vd n and dm vg vd ns rule: dfs_dfs_each.induct)
  case (1 dm visiting visited n)
  show ?case
  proof (cases "n \<in> set visiting")
    case True
    with "1.prems"(2) show ?thesis by (auto simp: acyclic_def)
  next
    case False
    with "1.prems" have nv: "n \<notin> set visited"
      and e: "dfs_each dm (n # visiting) visited (deps_of dm n) = Inl e"
      by (auto simp: bind_r_eq_Inl split: if_splits)
    have "\<forall>x \<in> set (n # visiting). \<forall>m \<in> set (deps_of dm n). (x, m) \<in> (dep_rel dm)\<^sup>+"
      using "1.prems"(2) by (auto simp: dep_rel_def intro: trancl_into_trancl)
    with "1.IH" [OF nv False e] show ?thesis by blast
  qed
next
  case (2 dm visiting visited)
  then show ?case by simp
next
  case (3 dm visiting visited n ns)
  then show ?case by (auto simp del: dfs.simps simp: bind_r_eq_Inl)
qed

lemma validate_acyclic_iff: "returns (validate_acyclic dm) \<longleftrightarrow> acyclic (dep_rel dm)"
proof (cases "dfs_each dm [] [] (map fst dm)")
  case (Inl e)
  with dfs_error(2) [OF Inl] show ?thesis by (simp add: validate_acyclic_def)
next
  case (Inr v)
  then have v: "settled dm (set v)" "fst ` set dm \<subseteq> set v"
    using dfs_sound(2) [OF Inr] by (auto simp: settled_def)
  have "acyclic (dep_rel dm)"
  proof (rule acyclicI, rule allI, rule notI)
    fix x assume cycle: "(x, x) \<in> (dep_rel dm)\<^sup>+"
    then obtain y where "(x, y) \<in> dep_rel dm" by (auto dest: tranclD)
    then have "x \<in> fst ` set dm"
      using dict_has_keys [of dm x] by (auto simp: dep_rel_def deps_of_def dict_get_or_def split: option.splits)
    with v cycle show False by (auto simp: settled_def)
  qed
  with Inr show ?thesis by (simp add: validate_acyclic_def)
qed

text \<open>The dependency relation of a plan, read off its units.\<close>

definition depends_on :: "WorkUnit list \<Rightarrow> (string \<times> string) set" where
  "depends_on us = {(wu_unit_id u, d) | u d. u \<in> set us \<and> d \<in> set (wu_dependencies u)}"

lemma dependency_map_get:
  "dict_get (fold (\<lambda>u. dict_set (wu_unit_id u) (wu_dependencies u)) us dm) i =
     (case find (\<lambda>u. wu_unit_id u = i) (rev us) of Some u \<Rightarrow> Some (wu_dependencies u) | None \<Rightarrow> dict_get dm i)"
  by (induction us rule: rev_induct) auto

lemma find_unique:
  "distinct (map f xs) \<Longrightarrow> x \<in> set xs \<Longrightarrow> find (\<lambda>y. f y = f x) xs = Some x"
  by (induction xs) (auto simp: rev_image_eqI)

lemma dep_rel_of_plan:
  assumes "distinct (map wu_unit_id us)"
  shows "dep_rel (dependency_map_of us) = depends_on us"
proof -
  have d: "distinct (map wu_unit_id (rev us))" using assms by (simp add: rev_map [symmetric])
  have "d \<in> set (deps_of (dependency_map_of us) i) \<longleftrightarrow>
      (\<exists>u \<in> set us. wu_unit_id u = i \<and> d \<in> set (wu_dependencies u))" for i d
  proof (cases "find (\<lambda>u. wu_unit_id u = i) (rev us)")
    case None
    then have "deps_of (dependency_map_of us) i = []"
      by (simp add: deps_of_def dict_get_or_def dependency_map_of_def dependency_map_get)
    with None show ?thesis by (auto simp: find_None_iff)
  next
    case (Some v)
    then have "v \<in> set us" "wu_unit_id v = i" by (auto dest!: find_SomeD)
    moreover have "u = v" if "u \<in> set us" "wu_unit_id u = i" for u
      using find_unique [OF d, of u] Some that by simp
    moreover have deps: "deps_of (dependency_map_of us) i = wu_dependencies v"
      using Some by (simp add: deps_of_def dict_get_or_def dependency_map_of_def dependency_map_get)
    ultimately show ?thesis
      by metis
  qed
  then show ?thesis by (auto simp: dep_rel_def depends_on_def)
qed

lemma validate_graph_iff:
  "returns (validate_graph us) \<longleftrightarrow>
     distinct (map wu_unit_id us) \<and> snd ` depends_on us \<subseteq> wu_unit_id ` set us \<and> acyclic (depends_on us)"
proof -
  have self: "\<forall>u \<in> set us. wu_unit_id u \<notin> set (wu_dependencies u)" if "acyclic (depends_on us)"
    using that by (auto simp: acyclic_def depends_on_def)
  have "returns (validate_graph us) \<longleftrightarrow> distinct (map wu_unit_id us)
      \<and> (\<forall>u \<in> set us. wu_unit_id u \<notin> set (wu_dependencies u) \<and> set (wu_dependencies u) \<subseteq> set (map wu_unit_id us))
      \<and> acyclic (dep_rel (dependency_map_of us))"
    by (simp add: validate_graph_def validate_acyclic_iff check_unique_ids check_dependencies
        del: returns_bind_r)
  with self dep_rel_of_plan [of us] show ?thesis by (auto simp: depends_on_def image_iff subset_iff)
qed

section \<open>What the area check decides\<close>

lemma path_parts_overlap_iff: "path_parts_overlap a b \<longleftrightarrow> prefix a b \<or> prefix b a"
proof -
  have "take (length x) y = x \<longleftrightarrow> prefix x y" for x y :: "string list"
    by (metis append_eq_conv_conj prefix_def take_is_prefix)
  moreover have "x = y" if "prefix x y" "length y \<le> length x" for x y :: "string list"
    using that by (auto simp: prefix_def)
  ultimately show ?thesis by (auto simp: path_parts_overlap_def dest: prefix_length_le)
qed

lemma overlap_common_file: "path_parts_overlap a b \<longleftrightarrow> (\<exists>f. prefix a f \<and> prefix b f)"
  unfolding path_parts_overlap_iff by (meson prefix_order.order_refl prefix_same_cases)

lemma areas_clash_sym: "areas_clash a b \<Longrightarrow> areas_clash b a"
  by (auto simp: areas_clash_def path_parts_overlap_iff split: prod.splits)

lemma areas_clash_irrefl: "\<not> areas_clash a a"
  by (simp add: areas_clash_def split: prod.splits)

lemma check_area_pairs: "returns (check_area_pairs as) \<longleftrightarrow> (\<forall>a \<in> set as. \<forall>b \<in> set as. \<not> areas_clash a b)"
  by (induction as)
    (auto split: option.splits simp: find_None_iff areas_clash_irrefl dest!: find_SomeD dest: areas_clash_sym)

lemma check_each: "returns (check_each f xs) \<longleftrightarrow> (\<forall>x \<in> set xs. returns (f x))"
  by (induction xs) (simp_all del: returns_bind_r)

text \<open>A file, as the list of its path components, that a unit may edit.\<close>

definition may_edit :: "WorkUnit \<Rightarrow> string list \<Rightarrow> bool" where
  "may_edit u f \<longleftrightarrow> (\<exists>d \<in> set (wu_allowed_directories u). prefix (posix_parts d) f)"

lemma check_no_overlap_iff:
  "returns (check_no_overlap us) \<longleftrightarrow>
     (\<forall>u \<in> set us. \<forall>v \<in> set us. wu_unit_id u \<noteq> wu_unit_id v \<longrightarrow> (\<nexists>f. may_edit u f \<and> may_edit v f))"
  unfolding check_no_overlap_def check_area_pairs
  by (auto simp: all_dirs_def areas_clash_def may_edit_def overlap_common_file) blast

text \<open>The reserved names are single components, so comparing the whole path adds nothing.\<close>

lemma reserved_whole_path:
  assumes parts: "posix_parts d = first # rest" and res: "posix_str d \<in> set RESERVED_EDIT_PATHS"
  shows "first \<in> {''.agent'', ''.git'', ''.worktrees''}"
proof -
  have tail: "p \<noteq> '''' \<and> p \<noteq> ''.''" if "p \<in> set (posix_tail d)" for p
    using that by (auto simp: posix_tail_def)
  have no_slash: "CHR ''/'' \<notin> set (posix_str d)"
    using res by (auto simp: RESERVED_EDIT_PATHS_def)
  have root: "posix_root d = ''''"
    using no_slash by (auto simp: posix_str_def posix_root_def Let_def split: if_splits)
  with parts have ft: "posix_tail d = first # rest" by (simp add: posix_parts_def)
  with tail have first: "first \<noteq> ''''" "first \<noteq> ''.''" by auto
  from ft root first have str: "posix_str d = str_join ''/'' (first # rest)"
    by (simp add: posix_str_def str_join_def)
  with no_slash have "rest = []" by (cases rest) (auto simp: str_join_def)
  with str first res show ?thesis by (auto simp: str_join_def RESERVED_EDIT_PATHS_def)
qed

definition project_owned :: "string \<Rightarrow> bool" where
  "project_owned d \<longleftrightarrow>
     (case posix_parts d of [] \<Rightarrow> False | first # _ \<Rightarrow> first \<notin> {''.agent'', ''.git'', ''.worktrees''})"

lemma check_reserved_iff: "returns (check_reserved uid d) \<longleftrightarrow> project_owned d"
proof (cases "posix_parts d")
  case Nil
  then show ?thesis by (simp add: check_reserved_def project_owned_def)
next
  case (Cons first rest)
  with reserved_whole_path [OF Cons] show ?thesis
    by (auto simp: check_reserved_def project_owned_def)
qed

lemma validate_for_same_workspace_iff:
  "returns (validate_for_same_workspace us) \<longleftrightarrow>
     (\<forall>u \<in> set us. wu_allowed_directories u \<noteq> [] \<and> (\<forall>d \<in> set (wu_allowed_directories u). project_owned d))
     \<and> (\<forall>u \<in> set us. \<forall>v \<in> set us. wu_unit_id u \<noteq> wu_unit_id v \<longrightarrow> (\<nexists>f. may_edit u f \<and> may_edit v f))"
proof -
  have "returns (check_unit_areas u) \<longleftrightarrow>
      wu_allowed_directories u \<noteq> [] \<and> (\<forall>d \<in> set (wu_allowed_directories u). project_owned d)" for u
    by (simp add: check_unit_areas_def check_each check_reserved_iff)
  then show ?thesis
    by (simp add: validate_for_same_workspace_def check_each check_no_overlap_iff del: returns_bind_r)
qed

text \<open>
  C27. A plan passes both validations exactly when its unit ids are unique, every dependency is a unit of
  the plan, no unit depends on itself directly or through others, every unit declares edit areas
  outside \<^verbatim>\<open>.git\<close>, \<^verbatim>\<open>.agent\<close> and \<^verbatim>\<open>.worktrees\<close>, and no file lies in the edit areas of two units. The depth-first
  search and the comparison of path prefixes decide this exactly: nothing unsafe passes and nothing
  safe is rejected.
\<close>

theorem accepted_plans_are_isolated_dags:
  "returns (validate_graph us) \<and> returns (validate_for_same_workspace us) \<longleftrightarrow>
     distinct (map wu_unit_id us) \<and> snd ` depends_on us \<subseteq> wu_unit_id ` set us \<and> acyclic (depends_on us)
     \<and> (\<forall>u \<in> set us. wu_allowed_directories u \<noteq> [] \<and> (\<forall>d \<in> set (wu_allowed_directories u). project_owned d))
     \<and> (\<forall>u \<in> set us. \<forall>v \<in> set us. wu_unit_id u \<noteq> wu_unit_id v \<longrightarrow> (\<nexists>f. may_edit u f \<and> may_edit v f))"
  by (simp add: validate_graph_iff validate_for_same_workspace_iff)

definition demo_plan :: "WorkUnit list" where
  "demo_plan =
     [\<lparr>wu_unit_id = ''api'', wu_description = ''routes'', wu_allowed_directories = [''src/api'', ''tests/api''],
       wu_dependencies = [''core''], wu_step_ids = []\<rparr>,
      \<lparr>wu_unit_id = ''core'', wu_description = ''types'', wu_allowed_directories = [''src/./core//''],
       wu_dependencies = [], wu_step_ids = []\<rparr>,
      \<lparr>wu_unit_id = ''docs'', wu_description = ''manual'', wu_allowed_directories = [''src/api2''],
       wu_dependencies = [''core'', ''api''], wu_step_ids = []\<rparr>]"

lemma demo_plan_accepted:
  "returns (validate_graph demo_plan)" "returns (validate_for_same_workspace demo_plan)"
  by code_simp+

theorem accepted_plans_are_isolated_dags_witness:
  "acyclic (depends_on demo_plan) \<and> (\<nexists>f. may_edit (demo_plan ! 0) f \<and> may_edit (demo_plan ! 2) f)"
proof -
  note facts = accepted_plans_are_isolated_dags [of demo_plan, THEN iffD1, OF conjI, OF demo_plan_accepted]
  have "demo_plan ! 0 \<in> set demo_plan" "demo_plan ! 2 \<in> set demo_plan"
    "wu_unit_id (demo_plan ! 0) \<noteq> wu_unit_id (demo_plan ! 2)"
    by (simp_all add: demo_plan_def)
  with facts show ?thesis by blast
qed

text \<open>The graph check raises nothing but its own exception.\<close>

lemma dfs_error_kind:
  "dfs dm vg vd n = Inl e \<Longrightarrow> \<exists>m. e = WorkUnitsValidationError m"
  "dfs_each dm vg vd ns = Inl e \<Longrightarrow> \<exists>m. e = WorkUnitsValidationError m"
  by (induction dm vg vd n and dm vg vd ns rule: dfs_dfs_each.induct)
    (auto simp: bind_r_eq_Inl split: if_splits)

lemma validate_graph_error: "validate_graph us = Inl e \<Longrightarrow> \<exists>m. e = WorkUnitsValidationError m"
proof -
  have "check_unique_ids seen ids = Inl e \<Longrightarrow> \<exists>m. e = WorkUnitsValidationError m" for seen ids
    by (induction seen ids rule: check_unique_ids.induct) (auto split: if_splits)
  moreover have "check_dependencies known us = Inl e \<Longrightarrow> \<exists>m. e = WorkUnitsValidationError m" for known us
    by (induction known us rule: check_dependencies.induct) (auto split: if_splits option.splits)
  ultimately show "validate_graph us = Inl e \<Longrightarrow> \<exists>m. e = WorkUnitsValidationError m"
    by (auto simp: validate_graph_def validate_acyclic_def bind_r_eq_Inl dest: dfs_error_kind(2))
qed

end
