(* ===== verification/Parallel_Coordinator.thy ===== *)
theory Parallel_Coordinator
  imports Reducer Work_Units
begin

text \<open>
  Fan-out execution of a plan: the wave scheduler (\<^verbatim>\<open>ralph/pipeline/parallel/scheduler.py\<close>) and the
  coordinator (\<^verbatim>\<open>parallel_coordinator.py\<close>). Worker tasks run concurrently; what the coordinator sees of them
  is the order in which results reach its queue and the exceptions its task group raises. Both are an
  explicit sequence of arrivals, so a theorem about all sequences is a theorem about all
  interleavings. Starting processes, sessions and directories is not modelled.
\<close>

section \<open>The wave scheduler\<close>

definition is_ready :: "string set \<Rightarrow> string set \<Rightarrow> WorkUnit \<Rightarrow> bool" where
  "is_ready completed currently_running u \<longleftrightarrow>
     wu_unit_id u \<notin> completed \<and> wu_unit_id u \<notin> currently_running
     \<and> list_all (\<lambda>dep. dep \<in> completed) (wu_dependencies u)"

definition schedule_next_wave ::
    "string set \<Rightarrow> WorkUnit list \<Rightarrow> string set \<Rightarrow> int \<Rightarrow> WorkUnit list" where
  "schedule_next_wave completed all_units currently_running max_workers =
     (let available_slots = max_workers - int (card currently_running) in
      if available_slots \<le> 0 then []
      else take (nat available_slots)
             (sort_key wu_unit_id (filter (is_ready completed currently_running) all_units)))"

section \<open>Worker tasks\<close>

record WorkerFailure =
  wfe_unit_id :: string
  wfe_exit_code :: int
  wfe_error :: string

datatype WorkerException =
    WorkerFailureError WorkerFailure
  | OtherException string
  | BaseExceptionGroup "WorkerException list"

record WorkerResult =
  wr_unit_id :: string
  wr_exit_code :: int
  wr_final_message :: string

text \<open>
  The verdict of \<^verbatim>\<open>_run_worker\<close> on what the executor did; an exception other than a worker failure is
  wrapped into one with its text. \<open>evidence\<close> is the artifact directory and whether it holds a Markdown
  file, when the worker has a namespace. Exceptions raised before the executor runs are not wrapped;
  they reach the task group as \<open>OtherException\<close>.
\<close>

datatype ExecutorRun = Finished WorkerResult | RaisedFailure WorkerFailure | RaisedException string

definition run_worker ::
    "WorkUnit \<Rightarrow> ExecutorRun \<Rightarrow> (string \<times> bool) option \<Rightarrow> WorkerFailure + WorkerResult" where
  "run_worker u execution evidence =
     (let uid = wu_unit_id u;
          failed = (\<lambda>code msg. Inl \<lparr>wfe_unit_id = uid, wfe_exit_code = code, wfe_error = msg\<rparr>)
      in case execution of
        RaisedFailure f \<Rightarrow> Inl f
      | RaisedException m \<Rightarrow> failed 1 m
      | Finished r \<Rightarrow>
          if wr_exit_code r \<noteq> 0 then
            (let detail = str_strip (wr_final_message r);
                 msg = ''Worker '' @ str_repr uid @ '' exited with code '' @ int_str (wr_exit_code r)
             in failed (wr_exit_code r) (if detail \<noteq> [] then msg @ '': '' @ detail else msg))
          else (case evidence of
              Some (dir, False) \<Rightarrow> failed (wr_exit_code r)
                (''Worker '' @ str_repr uid @ '' produced no worker-local artifact '' @ ''evidence under '' @ dir
                  @ '' (exit_code='' @ int_str (wr_exit_code r) @ '')'')
            | _ \<Rightarrow> Inr r))"

text \<open>The stack of \<^verbatim>\<open>_flatten_worker_failures\<close> has its top at the head.\<close>

function flatten_stack ::
    "WorkerException list \<Rightarrow> WorkerFailure list \<times> string list \<Rightarrow> WorkerFailure list \<times> string list" where
  "flatten_stack [] acc = acc"
| "flatten_stack (BaseExceptionGroup es # st) acc = flatten_stack (rev es @ st) acc"
| "flatten_stack (WorkerFailureError f # st) acc = flatten_stack st (fst acc @ [f], snd acc)"
| "flatten_stack (OtherException m # st) acc = flatten_stack st (fst acc, snd acc @ [m])"
  by pat_completeness auto
termination
  by (relation "measure (\<lambda>(st, acc). sum_list (map size st) + length st)")
    (simp_all add: size_list_conv_sum_list rev_map [symmetric] sum_list_rev)

definition flatten_worker_failures :: "WorkerException list \<Rightarrow> WorkerFailure list \<times> string list" where
  "flatten_worker_failures exceptions = flatten_stack (rev exceptions) ([], [])"

section \<open>Events of a failed wave\<close>

definition blocked_dependency_error :: "WorkUnit \<Rightarrow> string set \<Rightarrow> string option" where
  "blocked_dependency_error u failed =
     (let blocked_by = sort (filter (\<lambda>dep. dep \<in> failed) (wu_dependencies u)) in
      if blocked_by = [] then None
      else Some (''Blocked by failed dependencies: '' @ str_join '', '' blocked_by))"

text \<open>One round over the snapshot of the pending units; failures found in the round count at once.\<close>

fun blocked_round ::
    "string set \<Rightarrow> (string, WorkUnit) dict \<Rightarrow> Event list \<times> string set \<times> (string, WorkUnit) dict" where
  "blocked_round failed [] = ([], failed, [])"
| "blocked_round failed ((uid, u) # rest) =
     (case blocked_dependency_error u failed of
        None \<Rightarrow> (case blocked_round failed rest of (evs, failed', left_over) \<Rightarrow> (evs, failed', (uid, u) # left_over))
      | Some e \<Rightarrow> (case blocked_round (insert uid failed) rest of
          (evs, failed', left_over) \<Rightarrow> (WorkerFailedEv uid 1 e # evs, failed', left_over)))"

lemma blocked_round_length:
  "blocked_round failed us = (evs, failed', left_over) \<Longrightarrow> length evs + length left_over = length us"
  by (induction failed us arbitrary: evs failed' left_over rule: blocked_round.induct)
    (auto split: option.splits prod.splits)

function blocked_rounds :: "string set \<Rightarrow> (string, WorkUnit) dict \<Rightarrow> Event list" where
  "blocked_rounds failed us =
     (case blocked_round failed us of (evs, failed', left_over) \<Rightarrow>
        if evs = [] then [] else evs @ blocked_rounds failed' left_over)"
  by pat_completeness auto
termination
  by (relation "measure (\<lambda>(failed, us). length us)")
    (auto dest!: blocked_round_length [OF sym] simp: neq_Nil_conv)

declare blocked_rounds.simps [simp del]

definition blocked_pending_failures :: "WorkUnit list \<Rightarrow> string set \<Rightarrow> string set \<Rightarrow> Event list" where
  "blocked_pending_failures work_units pending failed =
     blocked_rounds failed
       (fold (\<lambda>u. dict_set (wu_unit_id u) u) (filter (\<lambda>u. wu_unit_id u \<in> pending) work_units) [])"

definition failed_ids :: "Event list \<Rightarrow> string list" where
  "failed_ids evs = concat (map (\<lambda>e. case e of WorkerFailedEv i c m \<Rightarrow> [i] | _ \<Rightarrow> []) evs)"

text \<open>One event of the three loops: appended unless its unit already has a failure event.\<close>

definition append_failure :: "Event \<Rightarrow> Event list \<times> string set \<Rightarrow> Event list \<times> string set" where
  "append_failure e acc =
     (case e of
        WorkerFailedEv uid c m \<Rightarrow>
          (if uid \<in> snd acc then acc else (fst acc @ [e], insert uid (snd acc)))
      | _ \<Rightarrow> acc)"

definition append_terminal_failure_events ::
    "Event list \<Rightarrow> WorkUnit list \<Rightarrow> string set \<Rightarrow> (string, WorkUnit) dict \<Rightarrow> WorkerFailure list \<Rightarrow> Event list" where
  "append_terminal_failure_events events work_units pending running failures =
     (let failed_unit_ids = set (map wfe_unit_id failures);
          reported = fold append_failure
            (map (\<lambda>f. WorkerFailedEv (wfe_unit_id f) (wfe_exit_code f) (wfe_error f)) failures)
            (events, set (failed_ids events));
          cancelled = fold append_failure
            (map (\<lambda>(uid, u). WorkerFailedEv uid 1 ''Cancelled because another worker failed'') running) reported
      in fst (fold append_failure
           (blocked_pending_failures work_units pending (failed_unit_ids \<union> snd cancelled)) cancelled))"

section \<open>The coordinator loop\<close>

record FanOut =
  fo_pending :: "string set"
  fo_completed :: "string set"
  fo_running :: "(string, WorkUnit) dict"
  fo_events :: "Event list"

definition start_unit :: "WorkUnit \<Rightarrow> FanOut \<Rightarrow> FanOut" where
  "start_unit u fo =
     fo\<lparr>fo_pending := fo_pending fo - {wu_unit_id u},
        fo_running := dict_set (wu_unit_id u) u (fo_running fo),
        fo_events := fo_events fo @ [WorkerStartedEv (wu_unit_id u)]\<rparr>"

definition launch_wave :: "WorkUnit list \<Rightarrow> int \<Rightarrow> FanOut \<Rightarrow> FanOut" where
  "launch_wave us max_workers fo =
     fold start_unit (schedule_next_wave (fo_completed fo) us (set (map fst (fo_running fo))) max_workers) fo"

definition absorb_result :: "string \<Rightarrow> int \<Rightarrow> FanOut \<Rightarrow> FanOut" where
  "absorb_result uid code fo =
     fo\<lparr>fo_running := dict_pop uid (fo_running fo),
        fo_completed := insert uid (fo_completed fo),
        fo_events := fo_events fo @ [WorkerCompletedEv uid code]\<rparr>"

text \<open>
  What reaches the coordinator while it waits: the result of a worker that put one on the queue, or the
  exceptions of the task group once a worker failed and the others were cancelled. Leaving the loop waits for
  the tasks that are still closing their session (\<^verbatim>\<open>bundle.close()\<close>), and the task group raises what they raise.
\<close>

datatype Arrival = ResultArrived string int | GroupRaised "WorkerException list"

datatype LoopExit = Awaiting FanOut | LoopLeft FanOut | LoopRaised FanOut "WorkerException list"

definition close_group :: "FanOut \<Rightarrow> Arrival list \<Rightarrow> LoopExit" where
  "close_group fo arrivals =
     (case arrivals of GroupRaised es # later \<Rightarrow> LoopRaised fo es | _ \<Rightarrow> LoopLeft fo)"

fun fan_out_loop :: "WorkUnit list \<Rightarrow> int \<Rightarrow> Arrival list \<Rightarrow> FanOut \<Rightarrow> LoopExit" where
  "fan_out_loop us max_workers arrivals fo =
     (if fo_pending fo = {} \<and> fo_running fo = [] then close_group fo arrivals
      else let fo' = launch_wave us max_workers fo in
        if fo_running fo' = [] then close_group fo' arrivals
        else (case arrivals of
            [] \<Rightarrow> Awaiting fo'
          | ResultArrived uid code # later \<Rightarrow> fan_out_loop us max_workers later (absorb_result uid code fo')
          | GroupRaised es # later \<Rightarrow> LoopRaised fo' es))"

declare fan_out_loop.simps [simp del]

definition initial_fan_out :: "WorkUnit list \<Rightarrow> FanOut" where
  "initial_fan_out us =
     \<lparr>fo_pending = set (map wu_unit_id us), fo_completed = {}, fo_running = [],
      fo_events = [PipelineEv FAN_OUT_STARTED]\<rparr>"

text \<open>\<open>Inr None\<close>: the coordinator still waits for its workers after the given arrivals.\<close>

definition run_fan_out :: "WorkUnit list \<Rightarrow> int \<Rightarrow> Arrival list \<Rightarrow> Event list option result" where
  "run_fan_out us max_workers arrivals =
     (if us = [] then Inr (Some [PipelineEv FAN_OUT_STARTED, PipelineEv ALL_WORKERS_COMPLETE])
      else case bind_r (new_plan us) validate_for_same_workspace of
        Inl (WorkUnitsValidationError m) \<Rightarrow>
          Inr (Some [WorkerFailedEv ''__preflight__'' 2 (''parallel preflight rejected plan: '' @ m)])
      | Inl e \<Rightarrow> Inl e
      | Inr _ \<Rightarrow>
          (case fan_out_loop us max_workers arrivals (initial_fan_out us) of
             Awaiting fo \<Rightarrow> Inr None
           | LoopLeft fo \<Rightarrow> Inr (Some (fo_events fo @ [PipelineEv ALL_WORKERS_COMPLETE]))
           | LoopRaised fo es \<Rightarrow>
               (case flatten_worker_failures es of (failures, unexpected) \<Rightarrow>
                  if unexpected \<noteq> [] then Inl (ExceptionGroup ''Unexpected fan-out coordinator failure'')
                  else Inr (Some (append_terminal_failure_events (fo_events fo) us (fo_pending fo)
                         (fo_running fo) failures)))))"

section \<open>What the scheduler promises the coordinator\<close>

locale wave_scheduler =
  fixes schedule :: "string set \<Rightarrow> WorkUnit list \<Rightarrow> string set \<Rightarrow> int \<Rightarrow> WorkUnit list"
  assumes only_ready: "u \<in> set (schedule completed us busy m) \<Longrightarrow> u \<in> set us \<and> is_ready completed busy u"
    and within_cap: "int (card busy) + int (length (schedule completed us busy m)) \<le> max (int (card busy)) m"
    and once: "distinct (map wu_unit_id us) \<Longrightarrow> distinct (map wu_unit_id (schedule completed us busy m))"
    and work_conserving:
      "u \<in> set us \<Longrightarrow> is_ready completed busy u \<Longrightarrow> int (card busy) < m \<Longrightarrow> schedule completed us busy m \<noteq> []"
begin

text \<open>An idle coordinator with work left always gets a wave: some unit left has no dependency left.\<close>

lemma no_deadlock:
  assumes dag: "acyclic (depends_on us)" and known: "snd ` depends_on us \<subseteq> wu_unit_id ` set us"
    and left_over: "i \<in> wu_unit_id ` set us - completed" and m: "1 \<le> m"
  shows "schedule completed us {} m \<noteq> []"
proof -
  have "depends_on us = (\<Union>u \<in> set us. Pair (wu_unit_id u) ` set (wu_dependencies u))"
    by (auto simp: depends_on_def)
  then have "finite (depends_on us)" by simp
  then have wf: "wf ((depends_on us)\<inverse>)" using dag by (rule finite_acyclic_wf_converse)
  from wfE_min [OF wf left_over]
  obtain j where j: "j \<in> wu_unit_id ` set us - completed"
    and least: "\<And>d. (d, j) \<in> (depends_on us)\<inverse> \<Longrightarrow> d \<notin> wu_unit_id ` set us - completed"
    by blast
  from j obtain u where u: "u \<in> set us" "wu_unit_id u = j" by blast
  have "d \<in> completed" if d: "d \<in> set (wu_dependencies u)" for d
  proof -
    from u d have e: "(j, d) \<in> depends_on us" by (auto simp: depends_on_def)
    then have "d \<in> wu_unit_id ` set us" using known by force
    with e least show ?thesis by blast
  qed
  with u j have "is_ready completed {} u" by (simp add: is_ready_def list_all_iff)
  with work_conserving [of u us] u m show ?thesis by simp
qed

end

interpretation waves: wave_scheduler schedule_next_wave
proof
  fix u us completed busy m
  show "u \<in> set us \<and> is_ready completed busy u" if "u \<in> set (schedule_next_wave completed us busy m)"
    using that by (auto simp: schedule_next_wave_def Let_def split: if_splits dest: in_set_takeD)
next
  fix us completed busy m
  show "int (card busy) + int (length (schedule_next_wave completed us busy m)) \<le> max (int (card busy)) m"
    by (auto simp: schedule_next_wave_def Let_def)
next
  fix us :: "WorkUnit list" and completed busy m
  assume "distinct (map wu_unit_id us)"
  then have "distinct (map wu_unit_id (sort_key wu_unit_id (filter (is_ready completed busy) us)))"
    by (auto simp: distinct_map intro: inj_on_subset)
  then show "distinct (map wu_unit_id (schedule_next_wave completed us busy m))"
    by (auto simp: schedule_next_wave_def Let_def take_map [symmetric])
next
  fix u us completed busy m
  assume "u \<in> set us" "is_ready completed busy u" "int (card busy) < m"
  then show "schedule_next_wave completed us busy m \<noteq> []"
    by (auto simp: schedule_next_wave_def Let_def filter_empty_conv
        dest!: arg_cong [where f = length] arg_cong [where f = set])
qed

section \<open>The invariant of the loop\<close>

definition started_in :: "Event list \<Rightarrow> string set" where
  "started_in evs = {i. WorkerStartedEv i \<in> set evs}"

definition completed_in :: "Event list \<Rightarrow> string set" where
  "completed_in evs = {i. \<exists>c. WorkerCompletedEv i c \<in> set evs}"

text \<open>A unit is started at most once, and only after all its dependencies completed.\<close>

definition trace_ok :: "WorkUnit list \<Rightarrow> Event list \<Rightarrow> bool" where
  "trace_ok us evs \<longleftrightarrow>
     (\<forall>pre i post. evs = pre @ WorkerStartedEv i # post \<longrightarrow>
        i \<notin> started_in pre \<and> (\<forall>u \<in> set us. wu_unit_id u = i \<longrightarrow> set (wu_dependencies u) \<subseteq> completed_in pre))"

lemma trace_ok_snoc:
  "trace_ok us (evs @ [e]) \<longleftrightarrow> trace_ok us evs
     \<and> (\<forall>i. e = WorkerStartedEv i \<longrightarrow> i \<notin> started_in evs
          \<and> (\<forall>u \<in> set us. wu_unit_id u = i \<longrightarrow> set (wu_dependencies u) \<subseteq> completed_in evs))"
proof -
  have "(\<forall>pre i post. evs @ [e] = pre @ WorkerStartedEv i # post \<longrightarrow> Q i pre) \<longleftrightarrow>
      (\<forall>pre i post. evs = pre @ WorkerStartedEv i # post \<longrightarrow> Q i pre) \<and> (\<forall>i. e = WorkerStartedEv i \<longrightarrow> Q i evs)"
    (is "?l \<longleftrightarrow> ?r") for Q
  proof
    assume l: ?l
    have "Q i pre" if "evs = pre @ WorkerStartedEv i # post" for pre i post
      using l [rule_format, of pre i "post @ [e]"] that by simp
    moreover have "Q i evs" if "e = WorkerStartedEv i" for i
      using l [rule_format, of evs i "[]"] that by simp
    ultimately show ?r by blast
  next
    assume r: ?r
    show ?l
    proof (intro allI impI)
      fix pre i post assume eq: "evs @ [e] = pre @ WorkerStartedEv i # post"
      then show "Q i pre" by (cases post rule: rev_cases) (use r in auto)
    qed
  qed
  then show ?thesis unfolding trace_ok_def .
qed

lemma trace_ok_count:
  assumes "trace_ok us evs" and "i \<in> started_in evs"
  shows "count_list evs (WorkerStartedEv i) = 1"
proof -
  obtain pre post where split: "evs = pre @ WorkerStartedEv i # post"
    using assms(2) by (auto simp: started_in_def dest: split_list)
  have "WorkerStartedEv i \<notin> set pre" using assms(1) split by (auto simp: trace_ok_def started_in_def)
  moreover have "WorkerStartedEv i \<notin> set post"
  proof
    assume "WorkerStartedEv i \<in> set post"
    then obtain mid later where "post = mid @ WorkerStartedEv i # later" by (auto dest: split_list)
    with split have "evs = (pre @ WorkerStartedEv i # mid) @ WorkerStartedEv i # later" by simp
    with assms(1) have "i \<notin> started_in (pre @ WorkerStartedEv i # mid)" unfolding trace_ok_def by blast
    then show False by (simp add: started_in_def)
  qed
  ultimately show ?thesis by (simp add: split count_list_0_iff)
qed

lemma event_sets_snoc [simp]:
  "started_in (evs @ [WorkerStartedEv i]) = insert i (started_in evs)"
  "started_in (evs @ [WorkerCompletedEv i c]) = started_in evs"
  "completed_in (evs @ [WorkerStartedEv i]) = completed_in evs"
  "completed_in (evs @ [WorkerCompletedEv i c]) = insert i (completed_in evs)"
  by (auto simp: started_in_def completed_in_def)

text \<open>
  The abstract view of a wave: the status of each unit. An event moves one known unit. \<open>fo_view\<close> is the
  same view read off the state of the coordinator.
\<close>

type_synonym wave_view = "string \<rightharpoonup> WorkerStatus"

definition view_move :: "string \<Rightarrow> WorkerStatus \<Rightarrow> wave_view \<Rightarrow> wave_view" where
  "view_move uid st v = (if v uid = None then v else v(uid \<mapsto> st))"

fun view_event :: "Event \<Rightarrow> wave_view \<Rightarrow> wave_view" where
  "view_event (WorkerStartedEv uid) v = view_move uid RUNNING v"
| "view_event (WorkerCompletedEv uid c) v = view_move uid SUCCEEDED v"
| "view_event (WorkerFailedEv uid c m) v = view_move uid FAILED v"
| "view_event _ v = v"

definition pending_view :: "WorkUnit list \<Rightarrow> wave_view" where
  "pending_view us uid = (if uid \<in> wu_unit_id ` set us then Some PENDING else None)"

definition fo_view :: "FanOut \<Rightarrow> wave_view" where
  "fo_view fo uid =
     (if uid \<in> fo_completed fo then Some SUCCEEDED
      else if uid \<in> fst ` set (fo_running fo) then Some RUNNING
      else if uid \<in> fo_pending fo then Some PENDING else None)"

fun wave_event :: "Event \<Rightarrow> bool" where
  "wave_event (WorkerStartedEv i) = True"
| "wave_event (WorkerCompletedEv i c) = True"
| "wave_event _ = False"

definition fo_inv :: "WorkUnit list \<Rightarrow> int \<Rightarrow> FanOut \<Rightarrow> bool" where
  "fo_inv us m fo \<longleftrightarrow>
     (let busy = fst ` set (fo_running fo) in
      distinct (map fst (fo_running fo))
      \<and> (\<forall>(i, u) \<in> set (fo_running fo). u \<in> set us \<and> wu_unit_id u = i)
      \<and> int (length (fo_running fo)) \<le> m
      \<and> fo_pending fo \<union> busy \<union> fo_completed fo = wu_unit_id ` set us
      \<and> fo_pending fo \<inter> busy = {} \<and> fo_pending fo \<inter> fo_completed fo = {} \<and> busy \<inter> fo_completed fo = {}
      \<and> started_in (fo_events fo) = busy \<union> fo_completed fo
      \<and> completed_in (fo_events fo) = fo_completed fo
      \<and> trace_ok us (fo_events fo)
      \<and> (\<exists>ws. fo_events fo = PipelineEv FAN_OUT_STARTED # ws \<and> (\<forall>e \<in> set ws. wave_event e))
      \<and> fold view_event (fo_events fo) (pending_view us) = fo_view fo)"

lemma fo_inv_initial: "0 \<le> m \<Longrightarrow> fo_inv us m (initial_fan_out us)"
  by (auto simp: fo_inv_def initial_fan_out_def Let_def started_in_def completed_in_def trace_ok_def
      Cons_eq_append_conv fo_view_def pending_view_def)

lemma dict_set_fresh: "k \<notin> fst ` set d \<Longrightarrow> dict_set k v d = d @ [(k, v)]"
  by (induction d) auto

lemma fo_inv_start:
  assumes inv: "fo_inv us m fo" and u: "u \<in> set us" "wu_unit_id u \<in> fo_pending fo"
    and deps: "set (wu_dependencies u) \<subseteq> fo_completed fo"
    and ids: "distinct (map wu_unit_id us)" and slot: "int (length (fo_running fo)) < m"
  shows "fo_inv us m (start_unit u fo)"
proof -
  have fresh: "wu_unit_id u \<notin> fst ` set (fo_running fo)" using inv u by (auto simp: fo_inv_def Let_def)
  have same: "v = u" if "v \<in> set us" "wu_unit_id v = wu_unit_id u" for v
    using that u ids by (simp add: distinct_map inj_on_def)
  have "view_move (wu_unit_id u) RUNNING (fo_view fo) = fo_view (start_unit u fo)"
    using inv u fresh
    by (auto simp: fun_eq_iff fo_inv_def Let_def view_move_def fo_view_def start_unit_def dict_set_fresh)
  with inv u fresh slot deps show ?thesis
    by (auto simp: fo_inv_def start_unit_def Let_def dict_set_fresh trace_ok_snoc dest: same)
qed

lemma fo_inv_start_all:
  assumes "fo_inv us m fo" "distinct (map wu_unit_id us)" "distinct (map wu_unit_id ws)"
    and "\<And>w. w \<in> set ws \<Longrightarrow> w \<in> set us \<and> wu_unit_id w \<in> fo_pending fo \<and> set (wu_dependencies w) \<subseteq> fo_completed fo"
    and "int (length (fo_running fo) + length ws) \<le> m"
  shows "fo_inv us m (fold start_unit ws fo) \<and> fo_completed (fold start_unit ws fo) = fo_completed fo
     \<and> (ws \<noteq> [] \<or> fo_running fo \<noteq> [] \<longrightarrow> fo_running (fold start_unit ws fo) \<noteq> [])"
  using assms
proof (induction ws arbitrary: fo)
  case Nil
  then show ?case by simp
next
  case (Cons w ws)
  then have w: "w \<in> set us" "wu_unit_id w \<in> fo_pending fo" "set (wu_dependencies w) \<subseteq> fo_completed fo" by auto
  have inv: "fo_inv us m (start_unit w fo)"
    by (rule fo_inv_start) (use Cons.prems w in auto)
  have fresh: "wu_unit_id w \<notin> fst ` set (fo_running fo)" using Cons.prems(1) w by (auto simp: fo_inv_def Let_def)
  have "fo_running (start_unit w fo) \<noteq> []" "length (fo_running (start_unit w fo)) = Suc (length (fo_running fo))"
    "fo_completed (start_unit w fo) = fo_completed fo"
    using fresh by (auto simp: start_unit_def dict_set_fresh)
  moreover have "v \<in> set us \<and> wu_unit_id v \<in> fo_pending (start_unit w fo)
      \<and> set (wu_dependencies v) \<subseteq> fo_completed (start_unit w fo)" if "v \<in> set ws" for v
    using that Cons.prems(3) Cons.prems(4) [of v] by (auto simp: start_unit_def rev_image_eqI)
  ultimately show ?case using Cons.IH [OF inv Cons.prems(2)] Cons.prems(3,5) by auto
qed

lemma fo_inv_launch:
  assumes inv: "fo_inv us m fo" and ids: "distinct (map wu_unit_id us)"
  shows "fo_inv us m (launch_wave us m fo) \<and> fo_completed (launch_wave us m fo) = fo_completed fo
     \<and> (fo_running fo \<noteq> [] \<or> schedule_next_wave (fo_completed fo) us (fst ` set (fo_running fo)) m \<noteq> []
          \<longrightarrow> fo_running (launch_wave us m fo) \<noteq> [])"
proof -
  let ?busy = "fst ` set (fo_running fo)"
  have len: "card ?busy = length (fo_running fo)"
    using inv by (auto simp: fo_inv_def Let_def dest: distinct_card)
  have cap: "int (length (fo_running fo) + length (schedule_next_wave (fo_completed fo) us ?busy m)) \<le> m"
    using waves.within_cap [of ?busy "fo_completed fo" us m] inv by (auto simp: len fo_inv_def Let_def)
  have ready: "w \<in> set us \<and> wu_unit_id w \<in> fo_pending fo \<and> set (wu_dependencies w) \<subseteq> fo_completed fo"
    if "w \<in> set (schedule_next_wave (fo_completed fo) us ?busy m)" for w
    using waves.only_ready [OF that] inv by (auto simp: fo_inv_def Let_def is_ready_def list_all_iff)
  from fo_inv_start_all [OF inv ids waves.once [OF ids] ready cap] show ?thesis
    by (auto simp: launch_wave_def)
qed

lemma dict_pop_keys: "fst ` set (dict_pop k d) = fst ` set d - {k}"
  by (auto simp: dict_pop_def image_iff)

lemma dict_pop_distinct: "distinct (map fst d) \<Longrightarrow> distinct (map fst (dict_pop k d))"
  by (auto simp: dict_pop_def distinct_map inj_on_def)

lemma fo_inv_absorb:
  assumes inv: "fo_inv us m fo" and uid: "uid \<in> fst ` set (fo_running fo)"
  shows "fo_inv us m (absorb_result uid code fo)"
proof -
  have "length (dict_pop uid (fo_running fo)) \<le> length (fo_running fo)"
    by (simp add: dict_pop_def)
  moreover have "set (dict_pop uid (fo_running fo)) \<subseteq> set (fo_running fo)" by (auto simp: dict_pop_def)
  moreover have "view_move uid SUCCEEDED (fo_view fo) = fo_view (absorb_result uid code fo)"
    using inv uid by (auto simp: fun_eq_iff fo_inv_def Let_def view_move_def fo_view_def absorb_result_def dict_pop_keys)
  ultimately show ?thesis
    using inv uid
    by (auto simp: fo_inv_def absorb_result_def Let_def dict_pop_keys dict_pop_distinct trace_ok_snoc)
qed

lemma fo_inv_progress:
  assumes inv: "fo_inv us m fo" and m: "1 \<le> m" and ids: "distinct (map wu_unit_id us)"
    and dag: "acyclic (depends_on us)" and known: "snd ` depends_on us \<subseteq> wu_unit_id ` set us"
    and work: "fo_pending fo \<noteq> {} \<or> fo_running fo \<noteq> []"
  shows "fo_running (launch_wave us m fo) \<noteq> []"
proof (cases "fo_running fo = []")
  case True
  with work obtain i where "i \<in> fo_pending fo" by blast
  with inv have "i \<in> wu_unit_id ` set us - fo_completed fo" by (auto simp: fo_inv_def Let_def)
  from waves.no_deadlock [OF dag known this m] fo_inv_launch [OF inv ids] True show ?thesis by simp
next
  case False
  with fo_inv_launch [OF inv ids] show ?thesis by simp
qed

lemma fo_inv_idle:
  assumes inv: "fo_inv us m fo" and ids: "distinct (map wu_unit_id us)"
    and idle: "fo_pending fo = {}" "fo_running fo = []"
  shows "fo_running (launch_wave us m fo) = []"
proof -
  have "w \<notin> set (schedule_next_wave (fo_completed fo) us {} m)" for w
    using waves.only_ready [of w "fo_completed fo" us "{}" m] inv idle
    by (auto simp: fo_inv_def Let_def is_ready_def)
  then have "schedule_next_wave (fo_completed fo) us {} m = []" 
    by (cases "schedule_next_wave (fo_completed fo) us {} m") force+
  with idle show ?thesis by (simp add: launch_wave_def)
qed

text \<open>
  The contract of the executor: a result that arrives is the result of a worker that is running. The task group
  may raise at any moment, also after the last result, while it waits for the tasks to close.
\<close>

fun answers :: "WorkUnit list \<Rightarrow> int \<Rightarrow> Arrival list \<Rightarrow> FanOut \<Rightarrow> bool" where
  "answers us m [] fo = True"
| "answers us m (GroupRaised es # later) fo = True"
| "answers us m (ResultArrived uid code # later) fo =
     (uid \<in> set (map fst (fo_running (launch_wave us m fo)))
      \<and> answers us m later (absorb_result uid code (launch_wave us m fo)))"

definition exit_ok :: "WorkUnit list \<Rightarrow> int \<Rightarrow> Arrival list \<Rightarrow> FanOut \<Rightarrow> LoopExit \<Rightarrow> bool" where
  "exit_ok us m arrivals fo x =
     (case x of
        LoopLeft fo' \<Rightarrow> fo_inv us m fo' \<and> fo_completed fo' = wu_unit_id ` set us
          \<and> card (fo_completed fo') = card (fo_completed fo) + length arrivals
      | Awaiting fo' \<Rightarrow> fo_inv us m fo' \<and> fo_running fo' \<noteq> []
          \<and> card (fo_completed fo') = card (fo_completed fo) + length arrivals
      | LoopRaised fo' es \<Rightarrow> fo_inv us m fo' \<and> GroupRaised es \<in> set arrivals)"

lemma fan_out_loop_exit:
  assumes m: "1 \<le> m" and ids: "distinct (map wu_unit_id us)"
    and dag: "acyclic (depends_on us)" and known: "snd ` depends_on us \<subseteq> wu_unit_id ` set us"
  shows "fo_inv us m fo \<Longrightarrow> answers us m arrivals fo \<Longrightarrow>
     exit_ok us m arrivals fo (fan_out_loop us m arrivals fo)"
proof (induction arrivals arbitrary: fo)
  case Nil
  have all: "fo_completed fo = wu_unit_id ` set us" if "fo_pending fo = {}" "fo_running fo = []"
    using Nil(1) that by (simp add: fo_inv_def)
  show ?case
  proof (cases "fo_pending fo = {} \<and> fo_running fo = []")
    case True
    with Nil(1) all show ?thesis by (subst fan_out_loop.simps) (simp add: exit_ok_def close_group_def)
  next
    case False
    with fo_inv_launch [OF Nil(1) ids] fo_inv_progress [OF Nil(1) m ids dag known] show ?thesis
      by (subst fan_out_loop.simps) (auto simp: exit_ok_def Let_def)
  qed
next
  case (Cons a later)
  let ?fo = "launch_wave us m fo"
  have launched: "fo_inv us m ?fo" "fo_completed ?fo = fo_completed fo"
    using fo_inv_launch [OF Cons.prems(1) ids] by auto
  show ?case
  proof (cases a)
    case (GroupRaised es)
    with Cons.prems(1) launched show ?thesis
      by (subst fan_out_loop.simps) (auto simp: exit_ok_def close_group_def Let_def)
  next
    case (ResultArrived uid code)
    with Cons.prems have uid: "uid \<in> fst ` set (fo_running ?fo)"
      and rest: "answers us m later (absorb_result uid code ?fo)" by auto
    have "uid \<notin> fo_completed ?fo" "fo_completed ?fo \<subseteq> wu_unit_id ` set us"
      using launched(1) uid by (auto simp: fo_inv_def Let_def)
    moreover from this have "finite (fo_completed ?fo)" by (simp add: finite_subset)
    ultimately have card: "card (fo_completed (absorb_result uid code ?fo)) = Suc (card (fo_completed fo))"
      using launched by (simp add: absorb_result_def)
    from uid fo_inv_idle [OF Cons.prems(1) ids] have "\<not> (fo_pending fo = {} \<and> fo_running fo = [])" by auto
    with uid ResultArrived have "fan_out_loop us m (a # later) fo =
        fan_out_loop us m later (absorb_result uid code ?fo)"
      by (subst fan_out_loop.simps) (auto simp: Let_def)
    with Cons.IH [OF fo_inv_absorb [OF launched(1) uid] rest] card ResultArrived show ?thesis
      by (auto simp: exit_ok_def split: LoopExit.splits)
  qed
qed

text \<open>Whatever is running or done has only dependencies that are done.\<close>

lemma fo_inv_deps:
  assumes inv: "fo_inv us m fo" and u: "u \<in> set us"
    and up: "wu_unit_id u \<in> fst ` set (fo_running fo) \<union> fo_completed fo"
  shows "set (wu_dependencies u) \<subseteq> fo_completed fo"
proof -
  have "wu_unit_id u \<in> started_in (fo_events fo)" using inv up by (auto simp: fo_inv_def Let_def)
  then obtain pre post where split: "fo_events fo = pre @ WorkerStartedEv (wu_unit_id u) # post"
    by (auto simp: started_in_def dest: split_list)
  with inv u have "set (wu_dependencies u) \<subseteq> completed_in pre"
    by (auto simp: fo_inv_def Let_def trace_ok_def)
  moreover have "completed_in pre \<subseteq> completed_in (fo_events fo)" by (auto simp: split completed_in_def)
  ultimately show ?thesis using inv by (auto simp: fo_inv_def Let_def)
qed

section \<open>A wave of an accepted plan\<close>

definition accepted :: "WorkUnit list \<Rightarrow> bool" where
  "accepted us \<longleftrightarrow> returns (validate_graph us) \<and> returns (validate_for_same_workspace us)"

lemma accepted_plan:
  assumes "accepted us"
  shows "distinct (map wu_unit_id us)" "acyclic (depends_on us)"
    "snd ` depends_on us \<subseteq> wu_unit_id ` set us"
    "u \<in> set us \<Longrightarrow> v \<in> set us \<Longrightarrow> wu_unit_id u \<noteq> wu_unit_id v \<Longrightarrow> \<not> (may_edit u f \<and> may_edit v f)"
  using assms by (auto simp: accepted_def validate_graph_iff validate_for_same_workspace_iff)

lemma accepted_preflight: "accepted us \<Longrightarrow> bind_r (new_plan us) validate_for_same_workspace = Inr ()"
  by (auto simp: accepted_def new_plan_def returns_def)

lemma accepted_exit:
  assumes "accepted us" "1 \<le> m" "answers us m arrivals (initial_fan_out us)"
  shows "exit_ok us m arrivals (initial_fan_out us) (fan_out_loop us m arrivals (initial_fan_out us))"
  using assms by (intro fan_out_loop_exit accepted_plan fo_inv_initial) auto

lemma run_accepted:
  assumes "accepted us" and "us \<noteq> []"
  shows "run_fan_out us m arrivals =
    (case fan_out_loop us m arrivals (initial_fan_out us) of
       Awaiting fo \<Rightarrow> Inr None
     | LoopLeft fo \<Rightarrow> Inr (Some (fo_events fo @ [PipelineEv ALL_WORKERS_COMPLETE]))
     | LoopRaised fo es \<Rightarrow> (case flatten_worker_failures es of (failures, unexpected) \<Rightarrow>
         if unexpected \<noteq> [] then Inl (ExceptionGroup ''Unexpected fan-out coordinator failure'')
         else Inr (Some (append_terminal_failure_events (fo_events fo) us (fo_pending fo) (fo_running fo) failures))))"
  using assms(2) by (simp add: run_fan_out_def accepted_preflight [OF assms(1)])

lemma card_unit_ids: "accepted us \<Longrightarrow> card (wu_unit_id ` set us) = length us"
  by (metis accepted_plan(1) distinct_card length_map list.set_map)

lemma waiting_wave:
  assumes acc: "accepted us" and fo: "fo_inv us m fo" "fo_running fo \<noteq> []"
  shows "card (fo_completed fo) < length us"
proof -
  have "fo_completed fo \<subset> wu_unit_id ` set us"
    using fo by (cases "fo_running fo") (auto simp: fo_inv_def Let_def)
  then show ?thesis
    using psubset_card_mono [of "wu_unit_id ` set us" "fo_completed fo"] card_unit_ids [OF acc] by simp
qed

lemma completed_wave:
  assumes acc: "accepted us" and m: "1 \<le> m" and ans: "answers us m arrivals (initial_fan_out us)"
    and results: "\<forall>a \<in> set arrivals. \<exists>i c. a = ResultArrived i c" and complete: "length arrivals = length us"
  obtains fo where "fan_out_loop us m arrivals (initial_fan_out us) = LoopLeft fo" "fo_inv us m fo"
    "fo_completed fo = wu_unit_id ` set us"
proof -
  have ok: "exit_ok us m arrivals (initial_fan_out us) (fan_out_loop us m arrivals (initial_fan_out us))"
    by (rule accepted_exit [OF acc m ans])
  show thesis
  proof (cases "fan_out_loop us m arrivals (initial_fan_out us)")
    case (Awaiting fo)
    with ok waiting_wave [OF acc] complete show thesis by (force simp: exit_ok_def initial_fan_out_def)
  next
    case (LoopLeft fo)
    moreover from ok LoopLeft have "fo_inv us m fo" "fo_completed fo = wu_unit_id ` set us"
      by (auto simp: exit_ok_def)
    ultimately show thesis by (rule that)
  next
    case (LoopRaised fo es)
    with ok results show thesis by (auto simp: exit_ok_def)
  qed
qed

text \<open>
  C28. Liveness of a fan-out without failures. For a plan with at least one unit that passes both validations and at
  least one worker slot, whatever the order in which running workers finish, when every arrival is the result of a
  running worker, the coordinator never deadlocks: as long as results are missing it waits, and after exactly one
  result per unit it returns, reports the wave complete, has completed every unit, and its events start each unit
  exactly once, and only after all its dependencies had completed.
\<close>

theorem fan_out_completes:
  assumes acc: "accepted us" and ne: "us \<noteq> []" and m: "1 \<le> m"
    and ans: "answers us m arrivals (initial_fan_out us)"
    and results: "\<forall>a \<in> set arrivals. \<exists>i c. a = ResultArrived i c"
  shows "length arrivals \<le> length us
     \<and> (length arrivals < length us \<longrightarrow> run_fan_out us m arrivals = Inr None)
     \<and> (length arrivals = length us \<longrightarrow>
         (\<exists>evs. run_fan_out us m arrivals = Inr (Some (evs @ [PipelineEv ALL_WORKERS_COMPLETE]))
            \<and> trace_ok us evs \<and> completed_in evs = wu_unit_id ` set us
            \<and> (\<forall>u \<in> set us. count_list evs (WorkerStartedEv (wu_unit_id u)) = 1)))"
proof -
  let ?x = "fan_out_loop us m arrivals (initial_fan_out us)"
  have ok: "exit_ok us m arrivals (initial_fan_out us) ?x" by (rule accepted_exit [OF acc m ans])
  note run = run_accepted [OF acc ne, of m arrivals]
  show ?thesis
  proof (cases ?x)
    case (Awaiting fo)
    with ok have fo: "fo_inv us m fo" "fo_running fo \<noteq> []" "card (fo_completed fo) = length arrivals"
      by (simp_all add: exit_ok_def initial_fan_out_def)
    with waiting_wave [OF acc fo(1,2)] have "length arrivals < length us" by simp
    with Awaiting run show ?thesis by simp
  next
    case (LoopLeft fo)
    with ok have "exit_ok us m arrivals (initial_fan_out us) (LoopLeft fo)" by simp
    then have fo: "fo_inv us m fo" "fo_completed fo = wu_unit_id ` set us" "card (wu_unit_id ` set us) = length arrivals"
      by (auto simp: exit_ok_def initial_fan_out_def)
    have "trace_ok us (fo_events fo)" "completed_in (fo_events fo) = wu_unit_id ` set us"
      "started_in (fo_events fo) = wu_unit_id ` set us" using fo(1,2) by (auto simp: fo_inv_def Let_def)
    moreover from this have "count_list (fo_events fo) (WorkerStartedEv (wu_unit_id u)) = 1" if "u \<in> set us" for u
      using that by (intro trace_ok_count) auto
    ultimately show ?thesis using fo(3) card_unit_ids [OF acc] LoopLeft run by auto
  next
    case (LoopRaised fo es)
    with ok results show ?thesis by (auto simp: exit_ok_def)
  qed
qed

theorem fan_out_completes_witness:
  "run_fan_out demo_plan 2 [ResultArrived ''core'' 0] = Inr None
   \<and> (\<exists>evs. run_fan_out demo_plan 2 [ResultArrived ''core'' 0, ResultArrived ''api'' 0, ResultArrived ''docs'' 0]
        = Inr (Some (evs @ [PipelineEv ALL_WORKERS_COMPLETE])) \<and> trace_ok demo_plan evs
        \<and> (\<forall>u \<in> set demo_plan. count_list evs (WorkerStartedEv (wu_unit_id u)) = 1))"
proof -
  have acc: "accepted demo_plan" by (simp add: accepted_def demo_plan_accepted)
  have ne: "demo_plan \<noteq> []" and len: "length demo_plan = 3" by (simp_all add: demo_plan_def)
  have a1: "answers demo_plan 2 [ResultArrived ''core'' 0] (initial_fan_out demo_plan)" by code_simp
  have a2: "answers demo_plan 2 [ResultArrived ''core'' 0, ResultArrived ''api'' 0, ResultArrived ''docs'' 0]
      (initial_fan_out demo_plan)" by code_simp
  from fan_out_completes [OF acc ne _ a1] fan_out_completes [OF acc ne _ a2] show ?thesis
    by (auto simp: len)
qed

text \<open>
  C16. Safety of a fan-out at every moment the coordinator waits or fails, for every order of arrivals:
  no more workers run than the cap allows, the dependencies of every running unit have completed,
  and no file lies in the edit areas of two running units, so concurrent workers in one checkout
  never write the same file.
\<close>

theorem concurrent_workers_are_isolated:
  assumes acc: "accepted us" and m: "1 \<le> m" and ans: "answers us m arrivals (initial_fan_out us)"
    and reached: "fan_out_loop us m arrivals (initial_fan_out us) \<in> {Awaiting fo, LoopRaised fo es}"
  shows "int (length (fo_running fo)) \<le> m
     \<and> (\<forall>(i, u) \<in> set (fo_running fo). u \<in> set us \<and> set (wu_dependencies u) \<subseteq> fo_completed fo)
     \<and> (\<forall>(i, u) \<in> set (fo_running fo). \<forall>(j, v) \<in> set (fo_running fo).
           i \<noteq> j \<longrightarrow> (\<nexists>f. may_edit u f \<and> may_edit v f))"
proof -
  have inv: "fo_inv us m fo" using accepted_exit [OF acc m ans] reached by (auto simp: exit_ok_def)
  have unit: "u \<in> set us \<and> wu_unit_id u = i" if "(i, u) \<in> set (fo_running fo)" for i u
    using inv that by (auto simp: fo_inv_def Let_def)
  have deps: "set (wu_dependencies u) \<subseteq> fo_completed fo" if "(i, u) \<in> set (fo_running fo)" for i u
    using fo_inv_deps [OF inv, of u] unit [OF that] that by (auto simp: rev_image_eqI)
  have "int (length (fo_running fo)) \<le> m" using inv by (simp add: fo_inv_def Let_def)
  moreover have "\<nexists>f. may_edit u f \<and> may_edit v f"
    if "(i, u) \<in> set (fo_running fo)" "(j, v) \<in> set (fo_running fo)" "i \<noteq> j" for i u j v
    using accepted_plan(4) [OF acc] unit [OF that(1)] unit [OF that(2)] that(3) by blast
  ultimately show ?thesis using deps unit by blast
qed

theorem concurrent_workers_are_isolated_witness:
  "\<exists>fo. fan_out_loop demo_plan 2 [ResultArrived ''core'' 0] (initial_fan_out demo_plan) = Awaiting fo
     \<and> int (length (fo_running fo)) \<le> 2 \<and> fo_running fo \<noteq> []"
proof -
  have acc: "accepted demo_plan" by (simp add: accepted_def demo_plan_accepted)
  have ans: "answers demo_plan 2 [ResultArrived ''core'' 0] (initial_fan_out demo_plan)" by code_simp
  have "case fan_out_loop demo_plan 2 [ResultArrived ''core'' 0] (initial_fan_out demo_plan) of
      Awaiting fo \<Rightarrow> fo_running fo \<noteq> [] | _ \<Rightarrow> False"
    by code_simp
  then obtain fo where
    "fan_out_loop demo_plan 2 [ResultArrived ''core'' 0] (initial_fan_out demo_plan) = Awaiting fo"
    "fo_running fo \<noteq> []" by (auto split: LoopExit.splits)
  with concurrent_workers_are_isolated [OF acc _ ans, of fo] show ?thesis by auto
qed

section \<open>A failed wave\<close>

lemma failed_ids_simps [simp]:
  "failed_ids [] = []" "failed_ids (WorkerFailedEv i c m # evs) = i # failed_ids evs"
  "failed_ids (as @ bs) = failed_ids as @ failed_ids bs"
  by (simp_all add: failed_ids_def)

lemma failed_ids_wave: "\<forall>e \<in> set evs. wave_event e \<Longrightarrow> failed_ids (PipelineEv x # evs) = []"
  by (auto simp: failed_ids_def split: Event.splits)

lemma append_failures:
  assumes "distinct (failed_ids evs)"
  shows "\<exists>new. fold append_failure es (evs, set (failed_ids evs)) = (evs @ new, set (failed_ids (evs @ new)))
     \<and> set (failed_ids (evs @ new)) = set (failed_ids evs) \<union> set (failed_ids es)
     \<and> distinct (failed_ids (evs @ new)) \<and> set new \<subseteq> set es \<inter> {e. \<exists>i c m. e = WorkerFailedEv i c m}"
  using assms
proof (induction es arbitrary: evs)
  case Nil
  then show ?case by simp
next
  case (Cons e es)
  show ?case
  proof (cases "\<exists>i c m. e = WorkerFailedEv i c m \<and> i \<notin> set (failed_ids evs)")
    case True
    then obtain i c m where e: "e = WorkerFailedEv i c m" "i \<notin> set (failed_ids evs)" by blast
    then have "append_failure e (evs, set (failed_ids evs)) = (evs @ [e], set (failed_ids (evs @ [e])))"
      by (simp add: append_failure_def)
    moreover have "distinct (failed_ids (evs @ [e]))" using Cons.prems e by simp
    ultimately obtain new where "fold append_failure (e # es) (evs, set (failed_ids evs)) =
          (evs @ e # new, set (failed_ids (evs @ e # new)))"
        "set (failed_ids (evs @ e # new)) = set (failed_ids (evs @ [e])) \<union> set (failed_ids es)"
        "distinct (failed_ids (evs @ e # new))" "set new \<subseteq> set es \<inter> {e. \<exists>i c m. e = WorkerFailedEv i c m}"
      using Cons.IH [of "evs @ [e]"] by auto
    with e show ?thesis by (intro exI [of _ "e # new"]) auto
  next
    case False
    then have "append_failure e (evs, set (failed_ids evs)) = (evs, set (failed_ids evs))"
      and "set (failed_ids (e # es)) \<subseteq> set (failed_ids evs) \<union> set (failed_ids es)"
        "set (failed_ids es) \<subseteq> set (failed_ids (e # es))"
      by (auto simp: append_failure_def failed_ids_def split: Event.splits)
    moreover obtain new where "fold append_failure es (evs, set (failed_ids evs)) = (evs @ new, set (failed_ids (evs @ new)))"
        "set (failed_ids (evs @ new)) = set (failed_ids evs) \<union> set (failed_ids es)"
        "distinct (failed_ids (evs @ new))" "set new \<subseteq> set es \<inter> {e. \<exists>i c m. e = WorkerFailedEv i c m}"
      using Cons.IH [OF Cons.prems] by blast
    ultimately show ?thesis by (intro exI [of _ new]) auto
  qed
qed

lemma blocked_dependency_None: "blocked_dependency_error u F = None \<longleftrightarrow> set (wu_dependencies u) \<inter> F = {}"
proof -
  have "sort (filter (\<lambda>d. d \<in> F) (wu_dependencies u)) = [] \<longleftrightarrow> filter (\<lambda>d. d \<in> F) (wu_dependencies u) = []"
    by (metis length_0_conv length_sort)
  then show ?thesis by (auto simp: blocked_dependency_error_def Let_def filter_empty_conv)
qed

lemma blocked_round_frame:
  "blocked_round F us = (evs, F', rest) \<Longrightarrow>
     F' = F \<union> set (failed_ids evs) \<and> set (failed_ids evs) \<subseteq> fst ` set us \<and> set rest \<subseteq> set us
     \<and> set us \<subseteq> set rest \<union> {(i, u). i \<in> set (failed_ids evs)}"
proof (induction F us arbitrary: evs F' rest rule: blocked_round.induct)
  case (1 F)
  then show ?case by simp
next
  case (2 F uid u us)
  show ?case
  proof (cases "blocked_dependency_error u F")
    case None
    obtain evs1 F1 rest1 where r: "blocked_round F us = (evs1, F1, rest1)" by (metis prod_cases3)
    with 2(3) None have "evs = evs1" "F' = F1" "rest = (uid, u) # rest1" by simp_all
    with 2(1) [OF None r] show ?thesis by auto
  next
    case (Some e)
    obtain evs1 F1 rest1 where r: "blocked_round (insert uid F) us = (evs1, F1, rest1)" by (metis prod_cases3)
    with 2(3) Some have "evs = WorkerFailedEv uid 1 e # evs1" "F' = F1" "rest = rest1" by simp_all
    with 2(2) [OF Some r] show ?thesis by auto
  qed
qed

text \<open>What a round may report: nothing outside any set that contains the failures and is closed under blocking.\<close>

definition blocks_closed :: "(string, WorkUnit) dict \<Rightarrow> string set \<Rightarrow> bool" where
  "blocks_closed us B \<longleftrightarrow> (\<forall>(i, u) \<in> set us. set (wu_dependencies u) \<inter> B \<noteq> {} \<longrightarrow> i \<in> B)"

lemma blocks_closed_Cons:
  "blocks_closed ((i, u) # us) B \<longleftrightarrow> (set (wu_dependencies u) \<inter> B \<noteq> {} \<longrightarrow> i \<in> B) \<and> blocks_closed us B"
  by (simp add: blocks_closed_def)

lemma blocks_closed_mono: "blocks_closed us B \<Longrightarrow> set vs \<subseteq> set us \<Longrightarrow> blocks_closed vs B"
  by (auto simp: blocks_closed_def)

lemma blocked_round_least:
  "blocked_round F us = (evs, F', rest) \<Longrightarrow> F \<subseteq> B \<Longrightarrow> blocks_closed us B \<Longrightarrow> set (failed_ids evs) \<subseteq> B"
proof (induction F us arbitrary: evs F' rest rule: blocked_round.induct)
  case (1 F)
  then show ?case by simp
next
  case (2 F uid u us)
  show ?case
  proof (cases "blocked_dependency_error u F")
    case None
    obtain evs1 F1 rest1 where r: "blocked_round F us = (evs1, F1, rest1)" by (metis prod_cases3)
    from 2(1) [OF None r] 2(3-5) None r show ?thesis by (simp add: blocks_closed_Cons)
  next
    case (Some e)
    obtain evs1 F1 rest1 where r: "blocked_round (insert uid F) us = (evs1, F1, rest1)" by (metis prod_cases3)
    have "set (wu_dependencies u) \<inter> F \<noteq> {}" using Some blocked_dependency_None [of u F] by simp
    with 2(4,5) have "uid \<in> B" by (auto simp: blocks_closed_Cons)
    with 2(2) [OF Some r] 2(3-5) Some r show ?thesis by (auto simp: blocks_closed_Cons)
  qed
qed

lemma blocked_round_none:
  "blocked_round F us = ([], F', rest) \<Longrightarrow> \<forall>(i, u) \<in> set us. set (wu_dependencies u) \<inter> F = {}"
  by (induction F us arbitrary: F' rest rule: blocked_round.induct)
    (auto split: option.splits prod.splits simp: blocked_dependency_None)

lemma blocked_rounds_spec:
  "set (failed_ids (blocked_rounds F us)) \<subseteq> fst ` set us
   \<and> blocks_closed us (F \<union> set (failed_ids (blocked_rounds F us))) 
   \<and> (F \<subseteq> B \<longrightarrow> blocks_closed us B \<longrightarrow> set (failed_ids (blocked_rounds F us)) \<subseteq> B)"
proof (induction F us rule: blocked_rounds.induct)
  case (1 F us)
  obtain evs F' rest where r: "blocked_round F us = (evs, F', rest)" by (metis prod_cases3)
  note frame = blocked_round_frame [OF r]
  show ?case
  proof (cases "evs = []")
    case True
    then have "blocks_closed us F" using blocked_round_none r by (fastforce simp: blocks_closed_def)
    with True r show ?thesis by (subst (1 2 3) blocked_rounds.simps) simp
  next
    case False
    let ?R = "set (failed_ids (blocked_rounds F' rest))"
    have eq: "set (failed_ids (blocked_rounds F us)) = set (failed_ids evs) \<union> ?R"
      using r False by (subst blocked_rounds.simps) simp
    have ih: "?R \<subseteq> fst ` set rest" "blocks_closed rest (F' \<union> ?R)"
      "F' \<subseteq> B \<longrightarrow> blocks_closed rest B \<longrightarrow> ?R \<subseteq> B"
      using "1.IH" [OF r [symmetric] refl False] by auto
    have "i \<in> F \<union> (set (failed_ids evs) \<union> ?R)" if iu: "(i, u) \<in> set us"
      and d: "set (wu_dependencies u) \<inter> (F \<union> (set (failed_ids evs) \<union> ?R)) \<noteq> {}" for i u
    proof -
      from iu frame consider "(i, u) \<in> set rest" | "i \<in> set (failed_ids evs)" by blast
      then show ?thesis by cases (use ih(2) d frame in \<open>auto simp: blocks_closed_def\<close>)
    qed
    then have "blocks_closed us (F \<union> (set (failed_ids evs) \<union> ?R))"
      unfolding blocks_closed_def by blast
    moreover have "set (failed_ids evs) \<union> ?R \<subseteq> B" if "F \<subseteq> B" "blocks_closed us B"
      using blocked_round_least [OF r that] ih(3) that frame blocks_closed_mono [of us B rest] by blast
    ultimately show ?thesis unfolding eq using frame ih(1) by blast
  qed
qed

lemma dict_of_units:
  "distinct (map wu_unit_id us) \<Longrightarrow> fst ` set d \<inter> wu_unit_id ` set us = {} \<Longrightarrow>
   fold (\<lambda>u. dict_set (wu_unit_id u) (g u)) us d = d @ map (\<lambda>u. (wu_unit_id u, g u)) us"
proof (induction us arbitrary: d)
  case Nil
  then show ?case by simp
next
  case (Cons u us)
  then have "dict_set (wu_unit_id u) (g u) d = d @ [(wu_unit_id u, g u)]" by (intro dict_set_fresh) auto
  with Cons show ?case by auto
qed

text \<open>The units a failure of \<open>busy\<close> takes down: themselves and whatever depends on them.\<close>

definition taken_down :: "WorkUnit list \<Rightarrow> string set \<Rightarrow> string set" where
  "taken_down us busy = busy \<union> {i. \<exists>j \<in> busy. (i, j) \<in> (depends_on us)\<^sup>+}"

lemma blocked_pending_spec:
  assumes inv: "fo_inv us m fo" and ids: "distinct (map wu_unit_id us)"
  defines "busy \<equiv> fst ` set (fo_running fo)"
  shows "busy \<union> set (failed_ids (blocked_pending_failures us (fo_pending fo) busy)) = taken_down us busy"
proof -
  let ?P = "map (\<lambda>u. (wu_unit_id u, u)) (filter (\<lambda>u. wu_unit_id u \<in> fo_pending fo) us)"
  let ?R = "set (failed_ids (blocked_rounds busy ?P))"
  have R: "set (failed_ids (blocked_pending_failures us (fo_pending fo) busy)) = ?R"
    using ids by (simp add: blocked_pending_failures_def dict_of_units distinct_map inj_on_def)
  note spec = blocked_rounds_spec [of busy ?P "taken_down us busy"]
  have "blocks_closed ?P (taken_down us busy)"
    by (auto simp: blocks_closed_def taken_down_def depends_on_def intro: trancl_into_trancl2 r_into_trancl')
  with spec have sound: "?R \<subseteq> taken_down us busy" by (auto simp: taken_down_def)
  have apart: "fo_pending fo \<inter> busy = {}" "fo_pending fo \<inter> fo_completed fo = {}" "busy \<inter> fo_completed fo = {}"
    using inv by (simp_all add: busy_def fo_inv_def Let_def)
  from spec have "?R \<subseteq> fst ` set ?P" by blast
  then have pendR: "?R \<subseteq> fo_pending fo" by auto
  have pend: "i \<in> fo_pending fo" if "(i, d) \<in> depends_on us" "d \<notin> fo_completed fo" for i d
  proof -
    from that obtain u where u: "u \<in> set us" "wu_unit_id u = i" "d \<in> set (wu_dependencies u)"
      by (auto simp: depends_on_def)
    with that fo_inv_deps [OF inv u(1)] have "i \<notin> fst ` set (fo_running fo) \<union> fo_completed fo" by auto
    with inv u show ?thesis by (auto simp: fo_inv_def Let_def)
  qed
  have step: "i \<in> ?R" if e: "(i, d) \<in> depends_on us" and d: "d \<in> busy \<union> ?R" for i d
  proof -
    have "d \<notin> fo_completed fo" using d pendR apart by auto
    with e have i: "i \<in> fo_pending fo" by (rule pend)
    with e d spec have "i \<in> busy \<union> ?R" by (force simp: blocks_closed_def depends_on_def)
    with i apart show ?thesis by auto
  qed
  have "i \<in> ?R" if "(i, j) \<in> (depends_on us)\<^sup>+" "j \<in> busy" for i j
    using that by (induction rule: converse_trancl_induct) (auto intro: step)
  then have "taken_down us busy \<subseteq> busy \<union> ?R" by (auto simp: taken_down_def)
  with sound show ?thesis by (auto simp: R taken_down_def)
qed

lemma terminal_failure_events:
  assumes inv: "fo_inv us m fo" and ids: "distinct (map wu_unit_id us)"
    and own: "wfe_unit_id ` set failures \<subseteq> fst ` set (fo_running fo)"
  shows "\<exists>new. append_terminal_failure_events (fo_events fo) us (fo_pending fo) (fo_running fo) failures = fo_events fo @ new
     \<and> distinct (failed_ids new) \<and> set (failed_ids new) = taken_down us (fst ` set (fo_running fo))
     \<and> (\<forall>e \<in> set new. \<exists>i c msg. e = WorkerFailedEv i c msg)"
proof -
  let ?evs = "fo_events fo"
  let ?fs = "map (\<lambda>f. WorkerFailedEv (wfe_unit_id f) (wfe_exit_code f) (wfe_error f)) failures"
  let ?cs = "map (\<lambda>(uid, u). WorkerFailedEv uid 1 ''Cancelled because another worker failed'') (fo_running fo)"
  let ?busy = "fst ` set (fo_running fo)"
  let ?bs = "blocked_pending_failures us (fo_pending fo) ?busy"
  have none: "failed_ids ?evs = []" using inv by (auto simp: fo_inv_def Let_def failed_ids_wave)
  have fs: "set (failed_ids ?fs) = wfe_unit_id ` set failures" by (induction failures) auto
  have "set (failed_ids (map (\<lambda>(uid, u). WorkerFailedEv uid 1 msg) xs)) = fst ` set xs"
    for msg and xs :: "(string, WorkUnit) dict"
    by (induction xs) (simp_all add: case_prod_unfold)
  then have cs: "set (failed_ids ?cs) = ?busy" .
  obtain n1 where n1: "fold append_failure ?fs (?evs, set (failed_ids ?evs)) = (?evs @ n1, set (failed_ids (?evs @ n1)))"
      "set (failed_ids (?evs @ n1)) = set (failed_ids ?evs) \<union> set (failed_ids ?fs)" "distinct (failed_ids (?evs @ n1))"
      "set n1 \<subseteq> set ?fs \<inter> {e. \<exists>i c m. e = WorkerFailedEv i c m}"
    using append_failures [of ?evs ?fs] none by auto
  obtain n2 where n2: "fold append_failure ?cs (?evs @ n1, set (failed_ids (?evs @ n1)))
        = ((?evs @ n1) @ n2, set (failed_ids ((?evs @ n1) @ n2)))"
      "set (failed_ids ((?evs @ n1) @ n2)) = set (failed_ids (?evs @ n1)) \<union> set (failed_ids ?cs)"
      "distinct (failed_ids ((?evs @ n1) @ n2))" "set n2 \<subseteq> set ?cs \<inter> {e. \<exists>i c m. e = WorkerFailedEv i c m}"
    using append_failures [OF n1(3), of ?cs] by blast
  have seen: "set (map wfe_unit_id failures) \<union> set (failed_ids ((?evs @ n1) @ n2)) = ?busy"
    using n1(2) n2(2) fs cs none own by auto
  obtain n3 where n3: "fold append_failure ?bs ((?evs @ n1) @ n2, set (failed_ids ((?evs @ n1) @ n2)))
        = (((?evs @ n1) @ n2) @ n3, set (failed_ids (((?evs @ n1) @ n2) @ n3)))"
      "set (failed_ids (((?evs @ n1) @ n2) @ n3)) = set (failed_ids ((?evs @ n1) @ n2)) \<union> set (failed_ids ?bs)"
      "distinct (failed_ids (((?evs @ n1) @ n2) @ n3))" "set n3 \<subseteq> set ?bs \<inter> {e. \<exists>i c m. e = WorkerFailedEv i c m}"
    using append_failures [OF n2(3), of ?bs] by blast
  have "append_terminal_failure_events ?evs us (fo_pending fo) (fo_running fo) failures = ((?evs @ n1) @ n2) @ n3"
    unfolding append_terminal_failure_events_def Let_def n1(1) n2(1) snd_conv seen n3(1) fst_conv ..
  moreover have "set (failed_ids (n1 @ n2 @ n3)) = taken_down us ?busy"
    using n3(2) seen none own n2(2) n1(2) fs cs blocked_pending_spec [OF inv ids] by auto
  ultimately show ?thesis
    using n1(4) n2(4) n3(3,4) none by (intro exI [of _ "n1 @ n2 @ n3"]) auto
qed

lemma failed_wave:
  assumes acc: "accepted us" and ne: "us \<noteq> []" and m: "1 \<le> m"
    and ans: "answers us m arrivals (initial_fan_out us)"
    and raised: "fan_out_loop us m arrivals (initial_fan_out us) = LoopRaised fo es"
    and flat: "flatten_worker_failures es = (failures, [])"
    and own: "wfe_unit_id ` set failures \<subseteq> fst ` set (fo_running fo)"
  obtains new where "run_fan_out us m arrivals = Inr (Some (fo_events fo @ new))" "fo_inv us m fo"
    "distinct (failed_ids new)" "set (failed_ids new) = taken_down us (fst ` set (fo_running fo))"
    "\<forall>e \<in> set new. \<exists>i c msg. e = WorkerFailedEv i c msg"
proof -
  have inv: "fo_inv us m fo" using accepted_exit [OF acc m ans] raised by (auto simp: exit_ok_def)
  obtain new where new: "append_terminal_failure_events (fo_events fo) us (fo_pending fo) (fo_running fo) failures
      = fo_events fo @ new" "distinct (failed_ids new)"
      "set (failed_ids new) = taken_down us (fst ` set (fo_running fo))"
      "\<forall>e \<in> set new. \<exists>i c msg. e = WorkerFailedEv i c msg"
    using terminal_failure_events [OF inv accepted_plan(1) [OF acc] own] by blast
  have "run_fan_out us m arrivals = Inr (Some (fo_events fo @ new))"
    using raised flat new(1) by (simp add: run_accepted [OF acc ne])
  with inv new(2-4) show thesis by (intro that)
qed

text \<open>
  A failed fan-out. When workers fail, the events the coordinator returns report as failed, each
  exactly once, the workers that were running and every unit that depends on one of them directly
  or through others, and no other unit; the wave is not reported complete.
\<close>

theorem failed_wave_reported_exactly:
  assumes acc: "accepted us" and ne: "us \<noteq> []" and m: "1 \<le> m"
    and ans: "answers us m arrivals (initial_fan_out us)"
    and raised: "fan_out_loop us m arrivals (initial_fan_out us) = LoopRaised fo es"
    and flat: "flatten_worker_failures es = (failures, [])"
    and own: "wfe_unit_id ` set failures \<subseteq> fst ` set (fo_running fo)"
  shows "\<exists>new. run_fan_out us m arrivals = Inr (Some (fo_events fo @ new))
     \<and> distinct (failed_ids new) \<and> set (failed_ids new) = taken_down us (fst ` set (fo_running fo))
     \<and> PipelineEv ALL_WORKERS_COMPLETE \<notin> set (fo_events fo @ new)"
proof -
  obtain new where new: "run_fan_out us m arrivals = Inr (Some (fo_events fo @ new))" "fo_inv us m fo"
    "distinct (failed_ids new)" "set (failed_ids new) = taken_down us (fst ` set (fo_running fo))"
    "\<forall>e \<in> set new. \<exists>i c msg. e = WorkerFailedEv i c msg"
    by (rule failed_wave [OF assms])
  have "PipelineEv ALL_WORKERS_COMPLETE \<notin> set (fo_events fo)"
    using new(2) by (auto simp: fo_inv_def Let_def dest: bspec)
  with new(5) have "PipelineEv ALL_WORKERS_COMPLETE \<notin> set (fo_events fo @ new)" by auto
  with new(1,3,4) show ?thesis by blast
qed

theorem failed_wave_reported_exactly_witness:
  "\<exists>fo new. fan_out_loop demo_plan 2 [GroupRaised [WorkerFailureError \<lparr>wfe_unit_id = ''core'', wfe_exit_code = 3, wfe_error = ''boom''\<rparr>]]
        (initial_fan_out demo_plan)
      = LoopRaised fo [WorkerFailureError \<lparr>wfe_unit_id = ''core'', wfe_exit_code = 3, wfe_error = ''boom''\<rparr>]
     \<and> run_fan_out demo_plan 2 [GroupRaised [WorkerFailureError \<lparr>wfe_unit_id = ''core'', wfe_exit_code = 3, wfe_error = ''boom''\<rparr>]]
      = Inr (Some (fo_events fo @ new))
     \<and> set (failed_ids new) = taken_down demo_plan {''core''}"
proof -
  let ?es = "[WorkerFailureError \<lparr>wfe_unit_id = ''core'', wfe_exit_code = 3, wfe_error = ''boom''\<rparr>]"
  have acc: "accepted demo_plan" by (simp add: accepted_def demo_plan_accepted)
  have ans: "answers demo_plan 2 [GroupRaised ?es] (initial_fan_out demo_plan)" by code_simp
  have "case fan_out_loop demo_plan 2 [GroupRaised ?es] (initial_fan_out demo_plan) of
      LoopRaised fo es \<Rightarrow> map fst (fo_running fo) = [''core''] \<and> es = ?es | _ \<Rightarrow> False"
    by code_simp
  then obtain fo where raised:
      "fan_out_loop demo_plan 2 [GroupRaised ?es] (initial_fan_out demo_plan) = LoopRaised fo ?es"
    and core: "map fst (fo_running fo) = [''core'']" by (auto split: LoopExit.splits)
  have busy: "fst ` set (fo_running fo) = {''core''}" using arg_cong [OF core, of set] by simp
  have flat: "flatten_worker_failures ?es =
      ([\<lparr>wfe_unit_id = ''core'', wfe_exit_code = 3, wfe_error = ''boom''\<rparr>], [])"
    by (simp add: flatten_worker_failures_def)
  from failed_wave_reported_exactly [OF acc _ _ ans raised flat] raised show ?thesis
    by (auto simp: busy demo_plan_def)
qed

section \<open>Resuming a plan\<close>

text \<open>
  C36. A fan-out cannot resume a plan in which a unit still to run depends on a unit that already
  succeeded: the coordinator is given the remaining units only, its preflight builds a plan from
  them, and the dependency on the finished unit is rejected as unknown, by an exception the
  preflight does not catch. \<^verbatim>\<open>_cleared_after_successful_wave\<close> promises that an interrupted wave resumes
  only the unfinished units.
\<close>

theorem resume_with_finished_dependency_crashes:
  assumes acc: "accepted us" and u: "u \<in> set us" "wu_unit_id u \<notin> finished"
    and d: "d \<in> set (wu_dependencies u)" "d \<in> finished"
  shows "\<exists>msg. run_fan_out (filter (\<lambda>u. wu_unit_id u \<notin> finished) us) m arrivals = Inl (ValidationError msg)"
proof -
  let ?rest = "filter (\<lambda>u. wu_unit_id u \<notin> finished) us"
  have "(wu_unit_id u, d) \<in> depends_on ?rest" using u d by (auto simp: depends_on_def)
  moreover have "d \<notin> wu_unit_id ` set ?rest" using d by auto
  ultimately have "\<not> returns (validate_graph ?rest)" by (force simp: validate_graph_iff)
  then obtain e where e: "validate_graph ?rest = Inl e" by (cases "validate_graph ?rest") auto
  then obtain msg where msg: "e = WorkUnitsValidationError msg"
    using validate_graph_error by blast
  have "?rest \<noteq> []" using u by (auto simp: filter_empty_conv)
  then show ?thesis by (simp add: run_fan_out_def new_plan_def e msg)
qed

theorem resume_with_finished_dependency_crashes_witness:
  "\<exists>msg. run_fan_out (filter (\<lambda>u. wu_unit_id u \<notin> {''core''}) demo_plan) 2 [] = Inl (ValidationError msg)"
  by (rule resume_with_finished_dependency_crashes [of _ "demo_plan ! 0" _ "''core''"])
    (simp_all add: accepted_def demo_plan_accepted, simp_all add: demo_plan_def)

end
