(* ===== verification/Effect_Router.thy ===== *)
theory Effect_Router
  imports Reducer_Behaviour Parallel_Coordinator
begin

text \<open>
  What to do next in a phase: the effect router (\<^verbatim>\<open>ralph/pipeline/effect_router.py\<close>), the policy orchestrator
  (\<^verbatim>\<open>orchestrator.py\<close>), and the state a run starts from (\<^verbatim>\<open>state_init.py\<close>). What the router learns from the
  workspace is an argument: the root, the units of the plan artifact, whether git reports
  uncommitted changes, and how deleting the commit-message artifacts ends.
\<close>

section \<open>Agents of a phase\<close>

text \<open>
  Of \<^verbatim>\<open>UnifiedConfig\<close> the fields that routing reads. Its validator turns flat chains and drains into the
  configuration records, so the branches for lists and strings in the router do not arise.
\<close>

record UnifiedConfig =
  uc_developer_iters :: int
  uc_agent_chains :: "(string, AgentChainConfig) dict"
  uc_agent_drains :: "(string, AgentDrainConfig) dict"

definition config_drain_candidates :: "string \<Rightarrow> string option \<Rightarrow> string list" where
  "config_drain_candidates phase policy_drain =
     fold (\<lambda>c acc. case c of None \<Rightarrow> acc
                     | Some x \<Rightarrow> if x \<noteq> [] \<and> x \<notin> set acc then acc @ [x] else acc)
       [policy_drain, Some phase] []"

definition config_agents_of_drain :: "UnifiedConfig \<Rightarrow> string \<Rightarrow> string list option" where
  "config_agents_of_drain cfg drain_name =
     (let direct = map_option acc_agents (dict_get (uc_agent_chains cfg) drain_name) in
      case dict_get (uc_agent_drains cfg) drain_name of
        None \<Rightarrow> direct
      | Some d \<Rightarrow> (case dict_get (uc_agent_chains cfg) (adc_chain d) of
          None \<Rightarrow> direct
        | Some c \<Rightarrow> Some (acc_agents c)))"

definition config_agents_for_phase :: "UnifiedConfig option \<Rightarrow> string \<Rightarrow> string option \<Rightarrow> string list" where
  "config_agents_for_phase config phase policy_drain =
     (case config of
        None \<Rightarrow> []
      | Some cfg \<Rightarrow>
          (case List.map_filter (config_agents_of_drain cfg) (config_drain_candidates phase policy_drain) of
             [] \<Rightarrow> [] | agents # _ \<Rightarrow> agents))"

definition policy_agents :: "AgentsPolicy \<Rightarrow> PhaseDefinition \<Rightarrow> string list" where
  "policy_agents ap d =
     (case dict_get (ap_agent_drains ap) (pd_drain d) of
        None \<Rightarrow> []
      | Some b \<Rightarrow> (case dict_get (ap_agent_chains ap) (adc_chain b) of None \<Rightarrow> [] | Some c \<Rightarrow> acc_agents c))"

definition agents_for_phase ::
    "UnifiedConfig option \<Rightarrow> string \<Rightarrow> AgentsPolicy option \<Rightarrow> PipelinePolicy option \<Rightarrow> string list" where
  "agents_for_phase config phase agents_policy pipeline_policy =
     (let phase_def = (case pipeline_policy of None \<Rightarrow> None | Some P \<Rightarrow> phase_of P phase);
          config_agents = config_agents_for_phase config phase (map_option pd_drain phase_def)
      in if config_agents \<noteq> [] then config_agents
         else case (agents_policy, phase_def) of
           (Some ap, Some d) \<Rightarrow> policy_agents ap d
         | _ \<Rightarrow> [])"

definition agent_name_for_phase_from_policy ::
    "PipelineState \<Rightarrow> PolicyBundle \<Rightarrow> UnifiedConfig option \<Rightarrow> string option" where
  "agent_name_for_phase_from_policy s B config =
     (case current_agent s of
        Some a \<Rightarrow> Some a
      | None \<Rightarrow> (case phase_of (pb_pipeline B) (ps_phase s) of
          None \<Rightarrow> None
        | Some d \<Rightarrow>
            (let config_agents = config_agents_for_phase config (ps_phase s) (Some (pd_drain d)) in
             if config_agents \<noteq> [] then Some (hd config_agents)
             else (case policy_agents (pb_agents B) d of [] \<Rightarrow> None | a # _ \<Rightarrow> Some a))))"

section \<open>The effect router\<close>

text \<open>
  \<open>env_changes\<close> is what \<^verbatim>\<open>has_uncommitted_changes\<close> answers or raises. \<open>env_plan_units\<close> is what
  \<^verbatim>\<open>_work_units_from_plan_artifact\<close> reads, empty when there is no usable plan, or the exception that it lets
  escape (an unreadable file, for one). \<open>env_deleted\<close> is how \<^verbatim>\<open>delete_commit_message_artifacts\<close> ends.
\<close>

record RouterEnv =
  env_root :: string
  env_plan_units :: "WorkUnit list result"
  env_changes :: "bool result"
  env_deleted :: "unit result"

definition under_root :: "string \<Rightarrow> string \<Rightarrow> string" where
  "under_root base rel = (if base = ''/'' then base @ rel else base @ ''/'' @ rel)"

definition normalized_phase :: "string \<Rightarrow> string" where
  "normalized_phase phase = map (\<lambda>c. if c = CHR ''/'' \<or> c = CHR '' '' then CHR ''_'' else c) phase"

definition prompt_file_for_phase :: "string \<Rightarrow> string" where
  "prompt_file_for_phase phase = ''.agent/tmp/'' @ normalized_phase phase @ ''_prompt.md''"

definition skip_invocation_effect :: "PipelineState \<Rightarrow> PhaseDefinition \<Rightarrow> PipelinePolicy \<Rightarrow> Effect" where
  "skip_invocation_effect s d P =
     (let t = on_success (pd_transitions d) in
      if t = pp_terminal_phase P then ExitSuccessEffect
      else PreparePromptEffect t None (Some (ps_phase s)) True)"

definition fan_out_effect :: "PipelineState \<Rightarrow> PhaseDefinition \<Rightarrow> WorkUnit list \<Rightarrow> Effect result" where
  "fan_out_effect s d us =
     (case pd_parallelization d of
        None \<Rightarrow> build_exit_failure_effect
          (''Phase '' @ str_repr (ps_phase s) @ '' does not declare parallelization but the plan ''
            @ ''declares '' @ nat_str (length us) @ '' work_units; either declare ''
            @ ''[phases.'' @ ps_phase s @ ''.parallelization] or remove the work_units from the plan'')
      | Some pz \<Rightarrow>
          (case bind_r (new_plan us) validate_for_same_workspace of
             Inl (WorkUnitsValidationError m) \<Rightarrow>
               (let names = str_join '', '' (map wu_unit_id (filter (\<lambda>u. wu_allowed_directories u = []) us));
                    offending = (if names \<noteq> [] then names else ''(see details)'')
                in build_exit_failure_effect (''parallel preflight rejected plan: '' @ m
                     @ '' (offending units: '' @ offending @ '')''))
           | Inl e \<Rightarrow> Inl e
           | Inr _ \<Rightarrow> Inr (FanOutEffect us (max_parallel_workers pz) (post_fanout_verification pz) (ps_phase s))))"

definition invoke_or_exit ::
    "PipelineState \<Rightarrow> PhaseDefinition \<Rightarrow> PolicyBundle \<Rightarrow> UnifiedConfig option \<Rightarrow> string \<Rightarrow> Effect result" where
  "invoke_or_exit s d B config missing =
     (case agent_name_for_phase_from_policy s B config of
        None \<Rightarrow> build_exit_failure_effect (missing @ quoted (ps_phase s))
      | Some a \<Rightarrow> Inr (InvokeAgentEffect a (ps_phase s) (prompt_file_for_phase (ps_phase s))
                        (Some (pd_drain d)) ''''))"

definition routed_plan :: "PipelineState \<Rightarrow> PhaseDefinition \<Rightarrow> RouterEnv \<Rightarrow> WorkUnit list result" where
  "routed_plan s d env =
     (if ps_work_units s = [] \<and> pd_parallelization d \<noteq> None then env_plan_units env else Inr (ps_work_units s))"

definition parallel_or_agent_effect ::
    "PipelineState \<Rightarrow> PhaseDefinition \<Rightarrow> PolicyBundle \<Rightarrow> UnifiedConfig option \<Rightarrow> RouterEnv \<Rightarrow> Effect result" where
  "parallel_or_agent_effect s d B config env =
     bind_r (routed_plan s d env) (\<lambda>us.
       let subagents = (case pd_parallelization d of None \<Rightarrow> False | Some pz \<Rightarrow> agent_subagents_dispatch pz)
       in if 2 \<le> length us \<and> \<not> subagents then fan_out_effect s d us
          else invoke_or_exit s d B config ''No agent configured for phase '')"

definition should_early_skip_commit :: "RouterEnv \<Rightarrow> bool" where
  "should_early_skip_commit env = (case env_changes env of Inl e \<Rightarrow> False | Inr changes \<Rightarrow> \<not> changes)"

definition commit_phase_effect ::
    "PipelineState \<Rightarrow> PhaseDefinition \<Rightarrow> PolicyBundle \<Rightarrow> UnifiedConfig option \<Rightarrow> RouterEnv \<Rightarrow> Effect result" where
  "commit_phase_effect s d B config env =
     (if agent_invoked (ps_commit s) then
        Inr (CommitEffect (under_root (env_root env) ''.agent/artifacts/commit_message.md''))
      else if should_early_skip_commit env then bind_r (env_deleted env) (\<lambda>_. Inr EarlySkipCommitEffect)
      else invoke_or_exit s d B config ''No agent configured for commit phase '')"

definition recovery_prepare_effect :: "PipelineState \<Rightarrow> PipelinePolicy \<Rightarrow> Effect" where
  "recovery_prepare_effect s P =
     (let entry = ps_policy_entry_phase s;
          target = (if truthy (ps_previous_phase s) then the (ps_previous_phase s) else entry);
          target' = (if target = failed_route P then entry else target)
      in PreparePromptEffect target' (resolve_phase_drain target' P) (ps_previous_phase s) False)"

definition terminal_phase_effect :: "PipelineState \<Rightarrow> PipelinePolicy \<Rightarrow> Effect option" where
  "terminal_phase_effect s P =
     (if ps_phase s = pp_terminal_phase P then Some ExitSuccessEffect
      else if ps_phase s = failed_route P then Some (recovery_prepare_effect s P)
      else None)"

definition current_analysis_phase_advance_effect ::
    "PipelineState \<Rightarrow> PhaseDefinition \<Rightarrow> PipelinePolicy \<Rightarrow> Effect option result" where
  "current_analysis_phase_advance_effect s d P =
     (if pd_role d \<noteq> Some RoleAnalysis then Inr None
      else bind_r (resolve_exhausted_analysis_bypass s (ps_phase s) P) (\<lambda>b.
        Inr (if br_skipped b = [] then None else Some (ExhaustedAnalysisPhaseAdvanceEffect (ps_phase s)))))"

definition determine_effect_from_policy ::
    "PipelineState \<Rightarrow> PolicyBundle \<Rightarrow> UnifiedConfig option \<Rightarrow> RouterEnv \<Rightarrow> Effect result" where
  "determine_effect_from_policy s B config env =
     (let P = pb_pipeline B in
      case terminal_phase_effect s P of
        Some e \<Rightarrow> Inr e
      | None \<Rightarrow> (case phase_of P (ps_phase s) of
          None \<Rightarrow> build_exit_failure_effect (''Unknown phase: '' @ ps_phase s)
        | Some d \<Rightarrow>
            bind_r (current_analysis_phase_advance_effect s d P) (\<lambda>exhausted.
              case exhausted of
                Some e \<Rightarrow> Inr e
              | None \<Rightarrow>
                  if pd_skip_invocation d then Inr (skip_invocation_effect s d P)
                  else if pd_role d = Some RoleCommit then commit_phase_effect s d B config env
                  else parallel_or_agent_effect s d B config env)))"

section \<open>The orchestrator\<close>

text \<open>
  \<open>prompt_file\<close> is the resolved source prompt, \<open>None\<close> without a workspace scope. A missing drain or chain is
  the \<^verbatim>\<open>KeyError\<close> of the dictionary access, an empty chain the \<^verbatim>\<open>IndexError\<close> of \<^verbatim>\<open>agents[0]\<close>. The entry
  phase of a state is always a string, so its \<^verbatim>\<open>None\<close> tests do not arise.
\<close>

definition is_agent_invoked_for_phase :: "PipelineState \<Rightarrow> PhaseDefinition \<Rightarrow> bool" where
  "is_agent_invoked_for_phase s d = (pd_role d = Some RoleCommit \<and> agent_invoked (ps_commit s))"

definition current_agent_name :: "PipelineState \<Rightarrow> AgentChainConfig \<Rightarrow> string result" where
  "current_agent_name s chain =
     (let fallback = (case acc_agents chain of [] \<Rightarrow> Inl (IndexError ''list index out of range'') | a # _ \<Rightarrow> Inr a)
      in case chain_for_phase s (ps_phase s) of
        None \<Rightarrow> fallback
      | Some c \<Rightarrow> if acs_agents c \<noteq> [] \<and> acs_current_index c < length (acs_agents c)
                  then Inr (acs_agents c ! acs_current_index c) else fallback)"

definition route_transition :: "PipelineState \<Rightarrow> string option \<Rightarrow> PipelinePolicy \<Rightarrow> Effect" where
  "route_transition s target P =
     (case target of
        None \<Rightarrow> PreparePromptEffect (ps_phase s) None (ps_previous_phase s) False
      | Some t \<Rightarrow>
          if t = failed_route P then PreparePromptEffect (ps_phase s) None (ps_previous_phase s) False
          else if t = pp_terminal_phase P then ExitSuccessEffect
          else PreparePromptEffect t None (Some (ps_phase s)) False)"

definition derive_effect_for_phase ::
    "PipelineState \<Rightarrow> PhaseDefinition \<Rightarrow> AgentChainConfig \<Rightarrow> string \<Rightarrow> PipelinePolicy \<Rightarrow> string option \<Rightarrow> Effect result" where
  "derive_effect_for_phase s d chain chain_name P prompt_file =
     (if pd_skip_invocation d then Inr (route_transition s (Some (on_success (pd_transitions d))) P)
      else if \<not> is_agent_invoked_for_phase s d then
        Inr (PreparePromptEffect (ps_phase s) (Some (pd_drain d)) (ps_previous_phase s) False)
      else bind_r (current_agent_name s chain) (\<lambda>a.
        Inr (InvokeAgentEffect a (ps_phase s) (case prompt_file of None \<Rightarrow> ''PROMPT.md'' | Some f \<Rightarrow> f)
               (Some (pd_drain d)) chain_name)))"

definition determine_next_effect ::
    "PipelineState \<Rightarrow> PipelinePolicy \<Rightarrow> AgentsPolicy \<Rightarrow> string option \<Rightarrow> Effect result" where
  "determine_next_effect s P ap prompt_file =
     (if ps_phase s = pp_terminal_phase P then Inr ExitSuccessEffect
      else if ps_phase s = failed_route P then
        (let target = (if truthy (ps_previous_phase s) then the (ps_previous_phase s) else ps_policy_entry_phase s) in
         if target = failed_route P then
           Inl (RuntimeError (''Cannot determine recovery target for failed_route phase ''
             @ quoted (failed_route P) @ '': both previous_phase and policy_entry_phase ''
             @ ''are unset or recursion prevented routing. ''
             @ ''Ensure policy_entry_phase is set in the initial state.''))
         else Inr (PreparePromptEffect target (ps_current_drain s) (ps_previous_phase s) False))
      else (case phase_of P (ps_phase s) of
          None \<Rightarrow> Inl (PhaseHandlerNotFoundError (ps_phase s))
        | Some d \<Rightarrow> (case dict_get (ap_agent_drains ap) (pd_drain d) of
            None \<Rightarrow> Inl (KeyError (pd_drain d))
          | Some b \<Rightarrow> (case dict_get (ap_agent_chains ap) (adc_chain b) of
              None \<Rightarrow> Inl (KeyError (adc_chain b))
            | Some c \<Rightarrow> derive_effect_for_phase s d c (adc_chain b) P prompt_file))))"

section \<open>The initial state\<close>

definition initial_phase_chains ::
    "UnifiedConfig \<Rightarrow> AgentsPolicy option \<Rightarrow> PipelinePolicy \<Rightarrow> (string, AgentChainState) dict" where
  "initial_phase_chains config ap P =
     map (\<lambda>(ph, d). (ph, \<lparr>acs_agents = agents_for_phase (Some config) ph ap (Some P),
                         acs_current_index = 0, acs_retries = 0\<rparr>)) (pp_phases P)"

definition initial_budget_caps :: "UnifiedConfig \<Rightarrow> PipelinePolicy \<Rightarrow> (string, int) dict \<Rightarrow> (string, int) dict" where
  "initial_budget_caps config P overrides =
     (let caps = map (\<lambda>(n, c). (n, bc_default_max c)) (pp_budget_counters P);
          caps' = (if dict_has caps ''iteration'' then dict_set ''iteration'' (uc_developer_iters config) caps
                   else caps)
      in fold (\<lambda>(k, v). dict_set k v) overrides caps')"

definition create_initial_state ::
    "UnifiedConfig \<Rightarrow> AgentsPolicy option \<Rightarrow> PipelinePolicy \<Rightarrow> (string, int) dict \<Rightarrow> PipelineState" where
  "create_initial_state config ap P overrides =
     (from_policy P)
       \<lparr>ps_budget_caps := initial_budget_caps config P overrides,
        ps_phase_chains := initial_phase_chains config ap P,
        ps_policy_entry_phase := pp_entry_phase P,
        ps_policy_format_version := Some (if pp_entry_block P \<noteq> None then 2 else 1),
        ps_current_drain := resolve_phase_drain (pp_entry_phase P) P\<rparr>"

section \<open>What the router decides\<close>

lemma bypass_skips_grow: "bypass_loop P v s t sk = Inr r \<Longrightarrow> length sk \<le> length (br_skipped r)"
proof (induction P v s t sk arbitrary: r rule: bypass_loop.induct)
  case (1 P v s t sk)
  show ?case
  proof (cases "br_skipped r = sk")
    case False
    with "1.prems" obtain d lp cap t' where
      *: "t \<notin> set v" "phase_of P t = Some d" "pd_loop_policy d = Some lp"
        "resolve_analysis_cap (iteration_state_field lp) P = Inr cap"
        "\<not> \<not> should_skip_analysis_reentry (get_loop_iteration s (iteration_state_field lp)) cap"
        "resolve_next_phase t ''success'' P = Inr t'"
      and rest: "bypass_loop P (t # v) (skip_state P t (iteration_state_field lp) s) t'
          (sk @ [\<lparr>sk_phase = t, sk_target_phase = t', sk_iteration_field = iteration_state_field lp,
             sk_iteration_value = get_loop_iteration s (iteration_state_field lp), sk_max_iterations = cap\<rparr>]) = Inr r"
      by (subst (asm) bypass_loop.simps)
        (auto simp: Let_def bind_r_eq_Inr split: if_splits option.splits)
    from "1.IH" [OF refl * (1-3) refl refl * (4-6) rest] show ?thesis by simp
  qed simp
qed

lemma bypass_skips_exhausted:
  assumes spent: "\<not> has_loop_budget P s t" and r: "resolve_exhausted_analysis_bypass s t P = Inr r"
  shows "br_skipped r \<noteq> []"
proof -
  from spent obtain d lp and c :: LoopCounterConfig where d: "phase_of P t = Some d" and lp: "pd_loop_policy d = Some lp"
    and c: "dict_get (pp_loop_counters P) (iteration_state_field lp) = Some c"
    and full: "lc_default_max c \<le> get_loop_iteration s (iteration_state_field lp)"
    by (auto simp: has_loop_budget_def not_less)
  have skip: "should_skip_analysis_reentry (get_loop_iteration s (iteration_state_field lp)) (lc_default_max c)"
    using full by (simp add: should_skip_analysis_reentry_def should_skip_reentry_def loop_counter_def)
  from r obtain s' t' x where "bypass_loop P [t] s' t' [x] = Inr r"
    unfolding resolve_exhausted_analysis_bypass_def
    by (subst (asm) bypass_loop.simps)
      (auto simp: d lp c resolve_analysis_cap_def skip Let_def bind_r_eq_Inr)
  from bypass_skips_grow [OF this] show ?thesis by auto
qed

lemma current_analysis_spec:
  assumes wf: "well_formed P" and d: "phase_of P (ps_phase s) = Some d"
  shows "current_analysis_phase_advance_effect s d P =
     Inr (if pd_role d = Some RoleAnalysis \<and> \<not> has_loop_budget P s (ps_phase s)
          then Some (ExhaustedAnalysisPhaseAdvanceEffect (ps_phase s)) else None)"
proof (cases "has_loop_budget P s (ps_phase s)")
  case True
  then show ?thesis by (simp add: current_analysis_phase_advance_effect_def bypass_open [OF wf True])
next
  case False
  have "known_target P (ps_phase s)" using d by (simp add: known_target_def)
  with wf obtain r where "resolve_exhausted_analysis_bypass s (ps_phase s) P = Inr r" by (rule bypass_spec)
  with False bypass_skips_exhausted [OF False this] show ?thesis
    by (simp add: current_analysis_phase_advance_effect_def)
qed

text \<open>What each effect says about the state it was chosen in.\<close>

definition effect_fits :: "PolicyBundle \<Rightarrow> UnifiedConfig option \<Rightarrow> RouterEnv \<Rightarrow> PipelineState \<Rightarrow> Effect \<Rightarrow> bool" where
  "effect_fits B config env s e =
     (let P = pb_pipeline B; ph = ps_phase s;
          in_phase = (\<lambda>Q. ph \<noteq> pp_terminal_phase P \<and> ph \<noteq> failed_route P \<and> (\<exists>d. phase_of P ph = Some d \<and> Q d))
      in case e of
        ExitSuccessEffect \<Rightarrow> ph = pp_terminal_phase P
          \<or> in_phase (\<lambda>d. pd_skip_invocation d \<and> on_success (pd_transitions d) = pp_terminal_phase P)
      | PreparePromptEffect t drain prev skip \<Rightarrow>
          if skip then in_phase (\<lambda>d. pd_skip_invocation d \<and> t = on_success (pd_transitions d)
                         \<and> t \<noteq> pp_terminal_phase P \<and> known_target P t)
          else ph = failed_route P \<and> (ps_policy_entry_phase s \<noteq> failed_route P \<longrightarrow> t \<noteq> failed_route P)
      | ExhaustedAnalysisPhaseAdvanceEffect q \<Rightarrow> q = ph
          \<and> in_phase (\<lambda>d. pd_role d = Some RoleAnalysis) \<and> \<not> has_loop_budget P s ph
      | InvokeAgentEffect a q f drain chain \<Rightarrow> q = ph
          \<and> agent_name_for_phase_from_policy s B config = Some a
          \<and> in_phase (\<lambda>d. \<not> pd_skip_invocation d \<and> drain = Some (pd_drain d)
               \<and> (pd_role d = Some RoleAnalysis \<longrightarrow> has_loop_budget P s ph)
               \<and> (pd_role d = Some RoleCommit \<longrightarrow> \<not> agent_invoked (ps_commit s) \<and> env_changes env \<noteq> Inr False))
      | CommitEffect f \<Rightarrow> in_phase (\<lambda>d. pd_role d = Some RoleCommit) \<and> agent_invoked (ps_commit s)
      | EarlySkipCommitEffect \<Rightarrow> in_phase (\<lambda>d. pd_role d = Some RoleCommit)
          \<and> \<not> agent_invoked (ps_commit s) \<and> env_changes env = Inr False
      | FanOutEffect us m v q \<Rightarrow> q = ph \<and> accepted us \<and> 2 \<le> length us
          \<and> in_phase (\<lambda>d. \<exists>pz. pd_parallelization d = Some pz \<and> \<not> agent_subagents_dispatch pz
                         \<and> m = max_parallel_workers pz)
      | ExitFailureEffect r \<Rightarrow> in_phase (\<lambda>d. agent_name_for_phase_from_policy s B config = None
            \<or> (\<exists>us. 2 \<le> length us \<and> (us = ps_work_units s \<or> env_plan_units env = Inr us)
                  \<and> (pd_parallelization d = None \<or> \<not> accepted us)))
      | SaveCheckpointEffect \<Rightarrow> False)"

lemma build_exit_failure_Inr: "build_exit_failure_effect r = Inr e \<Longrightarrow> e = ExitFailureEffect r"
  by (auto simp: build_exit_failure_effect_def split: if_splits option.splits)

lemma preflight_Inr: "bind_r (new_plan us) validate_for_same_workspace = Inr () \<longleftrightarrow> accepted us"
  by (auto simp: accepted_def new_plan_def returns_def bind_r_eq_Inr split: sum.splits py_error.splits)

lemma fan_out_effect_cases:
  assumes "fan_out_effect s d us = Inr e"
  shows "(\<exists>r. e = ExitFailureEffect r) \<and> (pd_parallelization d = None \<or> \<not> accepted us)
    \<or> (\<exists>pz. pd_parallelization d = Some pz \<and> accepted us
         \<and> e = FanOutEffect us (max_parallel_workers pz) (post_fanout_verification pz) (ps_phase s))"
proof (cases "pd_parallelization d")
  case None
  with assms show ?thesis by (auto simp: fan_out_effect_def dest: build_exit_failure_Inr)
next
  case (Some pz)
  show ?thesis
  proof (cases "bind_r (new_plan us) validate_for_same_workspace")
    case (Inl err)
    then have "\<not> accepted us" using preflight_Inr [of us] by auto
    with assms Some Inl show ?thesis
      by (auto simp: fan_out_effect_def Let_def dest!: build_exit_failure_Inr split: py_error.splits)
  next
    case (Inr x)
    with preflight_Inr [of us] assms Some show ?thesis by (auto simp: fan_out_effect_def)
  qed
qed

lemma known_phase_cases:
  assumes "known_target P ph" "ph \<noteq> pp_terminal_phase P" "ph \<noteq> failed_route P"
  obtains d where "phase_of P ph = Some d"
proof -
  have "ph \<in> fst ` set (pp_phases P)"
    using assms unfolding known_target_def dict_has_keys
    by (auto simp: terminal_states_def terminal_phase_names_def intro: rev_image_eqI)
  then have "dict_has (pp_phases P) ph" by (simp only: dict_has_keys)
  then show thesis using that by auto
qed

lemma invoke_or_exit_cases:
  assumes "invoke_or_exit s d B config missing = Inr e"
  shows "agent_name_for_phase_from_policy s B config = None \<and> (\<exists>r. e = ExitFailureEffect r)
    \<or> (\<exists>a. agent_name_for_phase_from_policy s B config = Some a
        \<and> e = InvokeAgentEffect a (ps_phase s) (prompt_file_for_phase (ps_phase s)) (Some (pd_drain d)) '''')"
  using assms by (auto simp: invoke_or_exit_def dest!: build_exit_failure_Inr split: option.splits)

lemma parallel_or_agent_cases:
  assumes "parallel_or_agent_effect s d B config env = Inr e"
  obtains us where "fan_out_effect s d us = Inr e" "2 \<le> length us"
      "us = ps_work_units s \<or> env_plan_units env = Inr us"
      "\<forall>pz. pd_parallelization d = Some pz \<longrightarrow> \<not> agent_subagents_dispatch pz"
    | "invoke_or_exit s d B config ''No agent configured for phase '' = Inr e"
proof -
  let ?sub = "case pd_parallelization d of None \<Rightarrow> False | Some pz \<Rightarrow> agent_subagents_dispatch pz"
  from assms obtain us where us: "routed_plan s d env = Inr us"
    and e: "(if 2 \<le> length us \<and> \<not> ?sub then fan_out_effect s d us
       else invoke_or_exit s d B config ''No agent configured for phase '') = Inr e"
    by (auto simp only: parallel_or_agent_effect_def bind_r_eq_Inr Let_def)
  from us have src: "us = ps_work_units s \<or> env_plan_units env = Inr us" by (auto simp: routed_plan_def split: if_splits)
  show thesis
  proof (cases "2 \<le> length us \<and> \<not> ?sub")
    case True
    with e src show thesis by (intro that(1) [of us]) auto
  next
    case False
    with e show thesis by (intro that(2)) (simp only: if_False)
  qed
qed

lemma commit_phase_cases:
  assumes "commit_phase_effect s d B config env = Inr e"
  obtains f where "e = CommitEffect f" "agent_invoked (ps_commit s)"
    | "e = EarlySkipCommitEffect" "\<not> agent_invoked (ps_commit s)" "env_changes env = Inr False"
    | "invoke_or_exit s d B config ''No agent configured for commit phase '' = Inr e"
      "\<not> agent_invoked (ps_commit s)" "env_changes env \<noteq> Inr False"
proof (cases "agent_invoked (ps_commit s)")
  case True
  with assms have "CommitEffect (under_root (env_root env) ''.agent/artifacts/commit_message.md'') = e"
    by (simp only: commit_phase_effect_def if_True sum.inject)
  then show thesis using True by (intro that(1)) (rule sym)
next
  case False
  then show thesis
  proof (cases "env_changes env = Inr False")
    case True
    with False assms show thesis
      by (intro that(2)) (auto simp: commit_phase_effect_def should_early_skip_commit_def bind_r_eq_Inr)
  next
    case no: False
    then have "\<not> should_early_skip_commit env" by (auto simp: should_early_skip_commit_def split: sum.splits)
    with no False assms show thesis
      by (intro that(3)) (simp_all only: commit_phase_effect_def if_False not_False_eq_True)
  qed
qed

lemma recovery_prepare_fits:
  assumes "ps_phase s = failed_route (pb_pipeline B)"
  shows "effect_fits B config env s (recovery_prepare_effect s (pb_pipeline B))"
  using assms by (auto simp: effect_fits_def recovery_prepare_effect_def Let_def)

lemma routed_effect_spec:
  assumes wf: "well_formed (pb_pipeline B)" and known: "known_target (pb_pipeline B) (ps_phase s)"
    and eff: "determine_effect_from_policy s B config env = Inr e"
  shows "effect_fits B config env s e"
proof -
  let ?P = "pb_pipeline B"
  consider (terminal) "ps_phase s = pp_terminal_phase ?P"
    | (failed) "ps_phase s \<noteq> pp_terminal_phase ?P" "ps_phase s = failed_route ?P"
    | (work) "ps_phase s \<noteq> pp_terminal_phase ?P" "ps_phase s \<noteq> failed_route ?P" by blast
  then show ?thesis
  proof cases
    case terminal
    with eff show ?thesis by (auto simp: determine_effect_from_policy_def terminal_phase_effect_def effect_fits_def)
  next
    case failed
    with eff have "e = recovery_prepare_effect s ?P"
      by (simp add: determine_effect_from_policy_def terminal_phase_effect_def)
    with recovery_prepare_fits failed(2) show ?thesis by simp
  next
    case work
    obtain d where d: "phase_of ?P (ps_phase s) = Some d" by (rule known_phase_cases [OF known work])
    note route = eff [unfolded determine_effect_from_policy_def Let_def terminal_phase_effect_def,
        simplified work d current_analysis_spec [OF wf d] if_False option.case bind_r_Inr]
    have succ: "known_target ?P (on_success (pd_transitions d))"
      by (rule validated_transitions(1) [OF well_formed_validated [OF wf] d])
    show ?thesis
    proof (cases "pd_role d = Some RoleAnalysis \<and> \<not> has_loop_budget ?P s (ps_phase s)")
      case True
      with route work d show ?thesis by (auto simp: effect_fits_def Let_def)
    next
      case False
      note route' = route [simplified False if_False option.case]
      show ?thesis
      proof (cases "pd_skip_invocation d")
        case True
        with route' work d succ show ?thesis
          by (auto simp: effect_fits_def Let_def skip_invocation_effect_def split: if_splits)
      next
        case invoked: False
        show ?thesis
        proof (cases "pd_role d = Some RoleCommit")
          case True
          with route' invoked have "commit_phase_effect s d B config env = Inr e" by simp
          then show ?thesis
          proof (cases rule: commit_phase_cases)
            case 3
            from invoke_or_exit_cases [OF 3(1)] 3(2,3) work d True invoked show ?thesis
              by (auto simp: effect_fits_def Let_def)
          qed (use True work d in \<open>auto simp: effect_fits_def Let_def\<close>)
        next
          case plain: False
          with route' invoked have "parallel_or_agent_effect s d B config env = Inr e" by simp
          then show ?thesis
          proof (cases rule: parallel_or_agent_cases)
            case (1 us)
            from fan_out_effect_cases [OF 1(1)] show ?thesis
            proof (elim disjE conjE exE)
              fix pz assume "pd_parallelization d = Some pz" "accepted us"
                "e = FanOutEffect us (max_parallel_workers pz) (post_fanout_verification pz) (ps_phase s)"
              with 1(2,4) work d show ?thesis by (simp add: effect_fits_def)
            qed (use 1(2,3) work d in \<open>simp add: effect_fits_def; blast\<close>)+
          next
            case 2
            from invoke_or_exit_cases [OF 2] work d plain invoked False show ?thesis
              by (auto simp: effect_fits_def Let_def)
          qed
        qed
      qed
    qed
  qed
qed

text \<open>
  The plan the router consults can be read, and when it has two or more units the phase declares parallelization and
  leaves the plan to the subagents of its agent or validation accepts the plan.
\<close>

definition plan_routable :: "PipelineState \<Rightarrow> PhaseDefinition \<Rightarrow> RouterEnv \<Rightarrow> bool" where
  "plan_routable s d env \<longleftrightarrow>
     (\<exists>us. routed_plan s d env = Inr us \<and> (2 \<le> length us \<longrightarrow>
        (\<exists>pz. pd_parallelization d = Some pz \<and> (agent_subagents_dispatch pz \<or> accepted us))))"

text \<open>
  C29. The router always finds something to do. The policy is well-formed, the run is in a phase it knows, and an agent
  is configured for that phase. The plan the router consults (the units of the run or, when it has none and the phase
  declares parallelization, those of the plan artifact) can be read; when it has two or more units, the phase declares
  parallelization and either leaves the plan to the subagents of its agent or validation accepts the plan. Deleting
  the commit-message artifacts does not raise. Then the router raises nothing and returns an effect other than a
  failure exit, whatever git answers or raises.
\<close>

theorem router_always_decides:
  assumes wf: "well_formed (pb_pipeline B)" and known: "known_target (pb_pipeline B) (ps_phase s)"
    and agent: "agent_name_for_phase_from_policy s B config \<noteq> None"
    and plan: "\<forall>d. phase_of (pb_pipeline B) (ps_phase s) = Some d \<longrightarrow> plan_routable s d env"
    and deleted: "env_deleted env = Inr ()"
  shows "\<exists>e. determine_effect_from_policy s B config env = Inr e \<and> \<not> is_exit_failure e"
proof -
  let ?P = "pb_pipeline B"
  show ?thesis
  proof (cases "terminal_phase_effect s ?P")
    case (Some e)
    then have "\<not> is_exit_failure e"
      by (auto simp: terminal_phase_effect_def recovery_prepare_effect_def Let_def is_exit_failure_def split: if_splits)
    with Some show ?thesis by (simp add: determine_effect_from_policy_def)
  next
    case None
    then have work: "ps_phase s \<noteq> pp_terminal_phase ?P" "ps_phase s \<noteq> failed_route ?P"
      by (auto simp: terminal_phase_effect_def split: if_splits)
    obtain d where d: "phase_of ?P (ps_phase s) = Some d" by (rule known_phase_cases [OF known work])
    obtain a where a: "agent_name_for_phase_from_policy s B config = Some a" using agent by auto
    have invoke: "\<exists>e. invoke_or_exit s d B config m = Inr e \<and> \<not> is_exit_failure e" for m
      by (simp add: invoke_or_exit_def a is_exit_failure_def)
    have skip: "\<not> is_exit_failure (skip_invocation_effect s d ?P)"
      by (simp add: skip_invocation_effect_def Let_def is_exit_failure_def)
    have commit: "\<exists>e. commit_phase_effect s d B config env = Inr e \<and> \<not> is_exit_failure e"
      using invoke by (auto simp: commit_phase_effect_def is_exit_failure_def deleted)
    have fan: "\<exists>e. fan_out_effect s d us = Inr e \<and> \<not> is_exit_failure e"
      if "accepted us" "pd_parallelization d = Some pz" for us pz
      using that preflight_Inr [of us] by (simp add: fan_out_effect_def is_exit_failure_def)
    have par: "\<exists>e. parallel_or_agent_effect s d B config env = Inr e \<and> \<not> is_exit_failure e"
    proof -
      from plan d obtain us where us: "routed_plan s d env = Inr us"
        and ready: "2 \<le> length us \<longrightarrow> (\<exists>pz. pd_parallelization d = Some pz \<and> (agent_subagents_dispatch pz \<or> accepted us))"
        by (auto simp: plan_routable_def)
      let ?sub = "case pd_parallelization d of None \<Rightarrow> False | Some pz \<Rightarrow> agent_subagents_dispatch pz"
      show ?thesis
      proof (cases "2 \<le> length us \<and> \<not> ?sub")
        case True
        with ready obtain pz where "pd_parallelization d = Some pz" "accepted us" by auto
        then have "\<exists>e. fan_out_effect s d us = Inr e \<and> \<not> is_exit_failure e" by (intro fan)
        with True us show ?thesis by (simp only: parallel_or_agent_effect_def bind_r_Inr Let_def simp_thms if_True)
      next
        case False
        with invoke us show ?thesis by (simp only: parallel_or_agent_effect_def bind_r_Inr Let_def if_False)
      qed
    qed
    show ?thesis
      unfolding determine_effect_from_policy_def Let_def None d option.case current_analysis_spec [OF wf d] bind_r_Inr
      using skip commit par by (auto simp: is_exit_failure_def [of "ExhaustedAnalysisPhaseAdvanceEffect _"])
  qed
qed

section \<open>The initial state is a good start\<close>

lemma dict_get_map: "dict_get (map (\<lambda>(k, v). (k, f k v)) d) k = map_option (f k) (dict_get d k)"
  by (induction d) auto

lemma dict_get_fold_set:
  "distinct (map fst kvs) \<Longrightarrow>
   dict_get (fold (\<lambda>(k, v). dict_set k v) kvs d) k = (case dict_get kvs k of Some v \<Rightarrow> Some v | None \<Rightarrow> dict_get d k)"
proof (induction kvs arbitrary: d)
  case Nil
  then show ?case by simp
next
  case (Cons kv kvs)
  obtain k' v' where kv: "kv = (k', v')" by (cases kv)
  with Cons.prems have "dict_get kvs k' = None" by (simp add: map_of_eq_None_iff)
  with Cons kv show ?case by (auto split: option.splits)
qed

lemma created_run_inv:
  assumes "well_formed P"
  shows "run_inv_ok P (create_initial_state config ap P overrides)"
  using initial_ok [OF assms]
  by (simp add: run_inv_ok_def create_initial_state_def loops_in_range_def get_loop_iteration_def)

text \<open>
  A run starts in the entry phase with the loop counters at 0 and every budget counter of the policy
  capped by its override, else, for the developer iterations, by the configuration, else by the
  policy's default; every declared phase starts with the agents that routing would choose for it,
  at the first agent and with no retries.
\<close>

theorem created_state_correct:
  fixes config :: UnifiedConfig and ap :: "AgentsPolicy option"
  assumes wf: "well_formed P" and ov: "distinct (map fst overrides)"
  defines "s \<equiv> create_initial_state config ap P overrides"
  shows "ps_phase s = pp_entry_phase P \<and> run_inv_ok P s
    \<and> (\<forall>c. get_budget_cap s c =
        (case dict_get overrides c of Some v \<Rightarrow> v
         | None \<Rightarrow> (case dict_get (pp_budget_counters P) c of None \<Rightarrow> 0
             | Some b \<Rightarrow> if c = ''iteration'' then uc_developer_iters config else bc_default_max b)))
    \<and> (\<forall>ph d. phase_of P ph = Some d \<longrightarrow> chain_for_phase s ph =
        Some \<lparr>acs_agents = agents_for_phase (Some config) ph ap (Some P), acs_current_index = 0, acs_retries = 0\<rparr>)"
proof -
  let ?caps = "map (\<lambda>(n, c :: BudgetCounterConfig). (n, bc_default_max c)) (pp_budget_counters P)"
  have caps: "dict_get ?caps c = map_option bc_default_max (dict_get (pp_budget_counters P) c)" for c
    using dict_get_map [of "\<lambda>_. bc_default_max" "pp_budget_counters P" c] by simp
  have "get_budget_cap s c =
        (case dict_get overrides c of Some v \<Rightarrow> v
         | None \<Rightarrow> (case dict_get (pp_budget_counters P) c of None \<Rightarrow> 0
             | Some b \<Rightarrow> if c = ''iteration'' then uc_developer_iters config else bc_default_max b))" for c
    unfolding s_def get_budget_cap_def create_initial_state_def initial_budget_caps_def Let_def dict_get_or_def
    by (auto simp: dict_get_fold_set [OF ov] caps split: option.split)
  moreover have "chain_for_phase s ph = Some \<lparr>acs_agents = agents_for_phase (Some config) ph ap (Some P),
      acs_current_index = 0, acs_retries = 0\<rparr>" if "phase_of P ph = Some d" for ph d
    using that dict_get_map [of "\<lambda>ph d. \<lparr>acs_agents = agents_for_phase (Some config) ph ap (Some P),
        acs_current_index = 0, acs_retries = 0\<rparr>" "pp_phases P" ph]
    by (simp add: s_def chain_for_phase_def create_initial_state_def initial_phase_chains_def)
  moreover have "ps_phase s = pp_entry_phase P" by (simp add: s_def create_initial_state_def from_policy_def)
  ultimately show ?thesis using created_run_inv [OF wf] by (simp add: s_def)
qed

definition demo_config :: UnifiedConfig where
  "demo_config = \<lparr>uc_developer_iters = 4,
     uc_agent_chains = [(''planning'', \<lparr>acc_agents = [''claude'', ''codex''], acc_max_retries = 2, acc_retry_delay_ms = 0\<rparr>)],
     uc_agent_drains = []\<rparr>"

theorem created_state_correct_witness:
  "ps_phase (create_initial_state demo_config None default_policy [(''iteration'', 7)]) = ''planning''
   \<and> get_budget_cap (create_initial_state demo_config None default_policy [(''iteration'', 7)]) ''iteration'' = 7
   \<and> get_budget_cap (create_initial_state demo_config None default_policy []) ''iteration'' = 4"
proof -
  have entry: "pp_entry_phase default_policy = ''planning''" by code_simp
  have it: "dict_get (pp_budget_counters default_policy) ''iteration'' = Some \<lparr>bc_tracks_budget = True, bc_default_max = 5\<rparr>"
    by code_simp
  from created_state_correct [OF default_well_formed, of "[(''iteration'', 7)]" demo_config None]
    created_state_correct [OF default_well_formed, of "[]" demo_config None]
  show ?thesis by (simp add: entry it demo_config_def)
qed

definition demo_env :: RouterEnv where
  "demo_env = \<lparr>env_root = ''/repo'', env_plan_units = Inr [], env_changes = Inr True, env_deleted = Inr ()\<rparr>"

theorem router_always_decides_witness:
  "\<exists>e. determine_effect_from_policy (create_initial_state demo_config None default_policy [])
         (demo_bundle [''claude'']) (Some demo_config) demo_env = Inr e \<and> \<not> is_exit_failure e"
proof (rule router_always_decides)
  show "well_formed (pb_pipeline (demo_bundle [''claude'']))" by (simp add: demo_bundle_def default_well_formed)
  show "known_target (pb_pipeline (demo_bundle [''claude''])) (ps_phase (create_initial_state demo_config None default_policy []))"
    by code_simp
  have "case agent_name_for_phase_from_policy (create_initial_state demo_config None default_policy [])
      (demo_bundle [''claude'']) (Some demo_config) of None \<Rightarrow> False | Some a \<Rightarrow> True" by code_simp
  then show "agent_name_for_phase_from_policy (create_initial_state demo_config None default_policy [])
      (demo_bundle [''claude'']) (Some demo_config) \<noteq> None" by (auto split: option.splits)
qed (simp_all add: demo_env_def plan_routable_def routed_plan_def create_initial_state_def from_policy_def)

section \<open>The orchestrator beside the router\<close>

text \<open>Where both answer, they send the run to the same phase; prompts are prepared by one and taken as prepared by the other.\<close>

fun goes_to :: "PipelineState \<Rightarrow> Effect \<Rightarrow> string option" where
  "goes_to s (PreparePromptEffect t d p k) = Some t"
| "goes_to s (InvokeAgentEffect a ph f d c) = Some ph"
| "goes_to s _ = None"

text \<open>
  The policy orchestrator and the effect router agree on where a run goes next: outside commit and
  exhausted analysis phases and without a plan to fan out, whenever the orchestrator answers and the
  router does not give up, both exit successfully or both continue in the same phase. A routing-only
  phase that leads to the failed route is excluded: the orchestrator stays in it.
\<close>

theorem orchestrator_agrees_with_router:
  assumes wf: "well_formed P" and P: "pb_pipeline B = P" and known: "known_target P (ps_phase s)"
    and o: "determine_next_effect s P ap prompt = Inr e" and r: "determine_effect_from_policy s B config env = Inr e'"
    and live: "\<not> is_exit_failure e'"
    and plain: "\<forall>d. phase_of P (ps_phase s) = Some d \<longrightarrow> pd_role d \<noteq> Some RoleCommit
        \<and> (pd_role d = Some RoleAnalysis \<longrightarrow> has_loop_budget P s (ps_phase s))
        \<and> (pd_skip_invocation d \<longrightarrow> on_success (pd_transitions d) \<noteq> failed_route P)"
    and serial: "length (ps_work_units s) < 2" "\<forall>us. env_plan_units env = Inr us \<longrightarrow> length us < 2"
  shows "goes_to s e = goes_to s e' \<and> (e = ExitSuccessEffect \<longleftrightarrow> e' = ExitSuccessEffect)"
proof (cases "ps_phase s = pp_terminal_phase P \<or> ps_phase s = failed_route P")
  case True
  with o r show ?thesis
    by (auto simp: determine_next_effect_def determine_effect_from_policy_def P terminal_phase_effect_def
        recovery_prepare_effect_def Let_def split: if_splits)
next
  case False
  then have work: "ps_phase s \<noteq> pp_terminal_phase P" "ps_phase s \<noteq> failed_route P" by auto
  obtain d where d: "phase_of P (ps_phase s) = Some d" by (rule known_phase_cases [OF known work])
  from o work d obtain c n where oe: "derive_effect_for_phase s d c n P prompt = Inr e"
    by (auto simp: determine_next_effect_def split: option.splits)
  have route: "(if pd_skip_invocation d then Inr (skip_invocation_effect s d P)
      else parallel_or_agent_effect s d B config env) = Inr e'"
    using r plain d work
    by (auto simp: determine_effect_from_policy_def P terminal_phase_effect_def current_analysis_spec [OF wf d]
        split: if_splits)
  show ?thesis
  proof (cases "pd_skip_invocation d")
    case True
    with oe route plain d show ?thesis
      by (auto simp: derive_effect_for_phase_def route_transition_def skip_invocation_effect_def Let_def split: if_splits)
  next
    case False
    with oe plain d have e: "e = PreparePromptEffect (ps_phase s) (Some (pd_drain d)) (ps_previous_phase s) False"
      by (simp add: derive_effect_for_phase_def is_agent_invoked_for_phase_def)
    from False route have "parallel_or_agent_effect s d B config env = Inr e'" by simp
    then show ?thesis
    proof (cases rule: parallel_or_agent_cases)
      case (1 us)
      with serial show ?thesis by auto
    next
      case 2
      from invoke_or_exit_cases [OF 2] live e show ?thesis by (auto simp: is_exit_failure_def)
    qed
  qed
qed

theorem orchestrator_agrees_with_router_witness:
  "\<exists>e e'. determine_next_effect (create_initial_state demo_config None default_policy []\<lparr>ps_phase := ''development''\<rparr>)
       default_policy (pb_agents (demo_bundle [''claude''])) None = Inr e
     \<and> determine_effect_from_policy (create_initial_state demo_config None default_policy []\<lparr>ps_phase := ''development''\<rparr>)
       (demo_bundle [''claude'']) None demo_env = Inr e'
     \<and> goes_to (create_initial_state demo_config None default_policy []\<lparr>ps_phase := ''development''\<rparr>) e
       = goes_to (create_initial_state demo_config None default_policy []\<lparr>ps_phase := ''development''\<rparr>) e'"
proof -
  let ?s = "create_initial_state demo_config None default_policy []\<lparr>ps_phase := ''development''\<rparr>"
  have known: "known_target default_policy (ps_phase ?s)" by code_simp
  have "case determine_next_effect ?s default_policy (pb_agents (demo_bundle [''claude''])) None of
      Inl e \<Rightarrow> False | Inr e \<Rightarrow> True" by code_simp
  then obtain e where e: "determine_next_effect ?s default_policy (pb_agents (demo_bundle [''claude''])) None = Inr e"
    by (auto split: sum.splits)
  have "case determine_effect_from_policy ?s (demo_bundle [''claude'']) None demo_env of
      Inl e \<Rightarrow> False | Inr e \<Rightarrow> \<not> is_exit_failure e" by code_simp
  then obtain e' where e': "determine_effect_from_policy ?s (demo_bundle [''claude'']) None demo_env = Inr e'"
    "\<not> is_exit_failure e'" by (auto split: sum.splits)
  have "case phase_of default_policy ''development'' of None \<Rightarrow> False
      | Some d \<Rightarrow> pd_role d = Some RoleExecution \<and> \<not> pd_skip_invocation d" by code_simp
  then obtain d where d: "phase_of default_policy (ps_phase ?s) = Some d" "pd_role d = Some RoleExecution"
    "\<not> pd_skip_invocation d" by (auto split: option.splits)
  have B: "pb_pipeline (demo_bundle [''claude'']) = default_policy" by (simp add: demo_bundle_def)
  have serial: "length (ps_work_units ?s) < 2" "\<forall>us. env_plan_units demo_env = Inr us \<longrightarrow> length us < 2"
    by (simp_all add: create_initial_state_def from_policy_def demo_env_def)
  from orchestrator_agrees_with_router [OF default_well_formed B known e e'(1,2) _ serial] d e e'(1)
  show ?thesis by auto
qed

end
