(* ===== verification/Fan_Out.thy ===== *)
theory Fan_Out
  imports Effect_Router
begin

text \<open>
  The fan-out phase as the run sees it (\<^verbatim>\<open>ralph/pipeline/fan_out.py\<close>): resume the worker table, run the
  coordinator, reduce its events, clear the wave, save it, verify. Sessions and manifests are input and output around
  it; the one thing they can do to the state is raise, which is \<open>wc_setup\<close>, as \<open>wc_summary\<close> is for the summary written at
  the end. Subscribers are not modelled. The \<open>k\<close>-th reduction of a wave reads the clock \<open>clk k\<close>.
\<close>

section \<open>Operations\<close>

definition cleared_after_successful_wave :: "PipelineState \<Rightarrow> PipelineState" where
  "cleared_after_successful_wave s =
     (if ps_worker_states s \<noteq> [] \<and> list_all (\<lambda>(uid, w). ws_status w = SUCCEEDED) (ps_worker_states s)
      then with_parallel_execution_cleared s else s)"

text \<open>\<^verbatim>\<open>_reduce(state, event, policy)\<close>: no recovery controller and no routing timing is passed.\<close>

definition reduce_plain :: "PipelinePolicy \<Rightarrow> timestamp \<Rightarrow> PipelineState \<Rightarrow> Event \<Rightarrow> PipelineState result" where
  "reduce_plain P now s e = bind_r (reduce s e (Some P) None None now) (\<lambda>(rc, s', effs). Inr s')"

definition resume_fan_out_state ::
    "PipelineState \<Rightarrow> WorkUnit list \<Rightarrow> PipelinePolicy \<Rightarrow> timestamp \<Rightarrow> (PipelineState \<times> WorkUnit list) result" where
  "resume_fan_out_state s us P now =
     bind_r (reduce_plain P now s (PipelineEv WORKERS_RESUMED)) (\<lambda>s'.
       let completed_ids = set (map fst (filter (\<lambda>(uid, w). ws_status w = SUCCEEDED) (ps_worker_states s')))
       in Inr (s', filter (\<lambda>u. wu_unit_id u \<notin> completed_ids) us))"

text \<open>The loop over the events; an exception leaves with the state reached so far.\<close>

fun reduce_events ::
    "PipelinePolicy \<Rightarrow> (nat \<Rightarrow> timestamp) \<Rightarrow> nat \<Rightarrow> Event list \<Rightarrow> PipelineState
     \<Rightarrow> (PipelineState \<times> py_error) + PipelineState" where
  "reduce_events P clk k [] s = Inr s"
| "reduce_events P clk k (e # es) s =
     (case reduce_plain P (clk k) s e of
        Inl err \<Rightarrow> Inl (s, err)
      | Inr s' \<Rightarrow> reduce_events P clk (Suc k) es s')"

text \<open>
  \<open>verify_error\<close> is what the verification command answers: \<open>None\<close> when it passed, an exception on the left. The first
  component are the states given to \<^verbatim>\<open>ckpt.save\<close>; the last tells whether verification passed, \<open>None\<close> when it did not run.
\<close>

definition run_verify_phase ::
    "bool \<Rightarrow> bool \<Rightarrow> string option result \<Rightarrow> PipelinePolicy \<Rightarrow> timestamp \<Rightarrow> PipelineState
     \<Rightarrow> (PipelineState list \<times> PipelineState \<times> bool option) result" where
  "run_verify_phase requested any_worker_failed verify_error P now s =
     (if \<not> requested \<or> any_worker_failed then Inr ([], s, None)
      else bind_r verify_error (\<lambda>answer.
        let event = (case answer of Some err \<Rightarrow> PostFanoutVerificationEv False (Some 1) (Some err)
                     | None \<Rightarrow> PostFanoutVerificationEv True (Some 0) None)
        in bind_r (reduce_plain P now s event) (\<lambda>s'. Inr ([s'], s', Some (answer = None)))))"

definition wave_failure :: "PipelineState \<Rightarrow> string \<Rightarrow> Event" where
  "wave_failure s reason = PhaseFailureEv
     \<lparr>pf_phase = ps_phase s, pf_reason = reason, pf_recoverable = True, pf_retry_in_session = False,
      pf_failure_category = None, pf_skip_same_agent_retries = False\<rparr>"

record WaveContext =
  wc_policy :: PipelinePolicy
  wc_max_workers :: int
  wc_verify :: bool
  wc_setup :: "unit result"
  wc_arrivals :: "Arrival list"
  wc_verify_error :: "string option result"
  wc_summary :: "unit result"
  wc_on_success :: "PipelineState \<Rightarrow> PipelineState result"
  wc_error_text :: "py_error \<Rightarrow> string"

text \<open>
  What a wave leaves: the states it gave to \<^verbatim>\<open>ckpt.save\<close>, in order (a write that fails is logged and the wave goes on),
  and its result, \<open>Inr None\<close> while the coordinator still waits for its workers.
\<close>

type_synonym wave_result = "PipelineState list \<times> PipelineState option result"

definition saving :: "PipelineState list \<Rightarrow> wave_result \<Rightarrow> wave_result" where
  "saving saved r = (saved @ fst r, snd r)"

text \<open>The failure event of a wave is reduced, and the state is saved and returned.\<close>

definition wave_failed :: "PipelinePolicy \<Rightarrow> timestamp \<Rightarrow> PipelineState \<Rightarrow> string \<Rightarrow> wave_result" where
  "wave_failed P now s reason =
     (case reduce_plain P now s (wave_failure s reason) of Inl e \<Rightarrow> ([], Inl e) | Inr s' \<Rightarrow> ([s'], Inr (Some s')))"

definition wave_crashed :: "WaveContext \<Rightarrow> timestamp \<Rightarrow> PipelineState \<Rightarrow> py_error \<Rightarrow> wave_result" where
  "wave_crashed ctx now s e = wave_failed (wc_policy ctx) now s (''Fan-out execution crashed: '' @ wc_error_text ctx e)"

text \<open>What follows the wave: clear, save, verify, and hand over to integration when everything succeeded.\<close>

definition complete_wave ::
    "WaveContext \<Rightarrow> WorkUnit list \<Rightarrow> timestamp \<Rightarrow> PipelineState \<Rightarrow> PipelineState \<Rightarrow> bool option \<Rightarrow> wave_result" where
  "complete_wave ctx us now wave current passed =
     (case wc_summary ctx of
        Inl e \<Rightarrow> wave_crashed ctx now current e
      | Inr _ \<Rightarrow>
          let all_succeeded = (length (ps_worker_states wave) = length us \<and> ps_worker_states wave \<noteq> []
                \<and> list_all (\<lambda>(uid, w). ws_status w = SUCCEEDED) (ps_worker_states wave));
              verified = (\<not> wc_verify ctx \<or> passed = Some True)
          in if all_succeeded \<and> verified then
               (case wc_on_success ctx current of
                  Inl e \<Rightarrow> wave_crashed ctx now current e | Inr s \<Rightarrow> ([], Inr (Some s)))
             else ([], Inr (Some current)))"

definition finish_wave ::
    "WaveContext \<Rightarrow> WorkUnit list \<Rightarrow> Event list \<Rightarrow> timestamp \<Rightarrow> timestamp \<Rightarrow> PipelineState \<Rightarrow> wave_result" where
  "finish_wave ctx us evs now later wave =
     (let any_failed = list_ex (\<lambda>e. case e of WorkerFailedEv i c m \<Rightarrow> True | _ \<Rightarrow> False) evs;
          current = cleared_after_successful_wave wave
      in saving [current]
        (case run_verify_phase (wc_verify ctx) any_failed (wc_verify_error ctx) (wc_policy ctx) now current of
           Inl e \<Rightarrow> wave_crashed ctx later current e
         | Inr (saved, current', passed) \<Rightarrow> saving saved (complete_wave ctx us later wave current' passed)))"

definition resumed_wave_done :: "WaveContext \<Rightarrow> timestamp \<Rightarrow> timestamp \<Rightarrow> PipelineState \<Rightarrow> wave_result" where
  "resumed_wave_done ctx now later current =
     (case reduce_plain (wc_policy ctx) now current (PipelineEv ALL_WORKERS_COMPLETE) of
        Inl e \<Rightarrow> wave_crashed ctx later current e
      | Inr s' \<Rightarrow> ([cleared_after_successful_wave s'], Inr (Some (cleared_after_successful_wave s'))))"

definition run_wave ::
    "WaveContext \<Rightarrow> (nat \<Rightarrow> timestamp) \<Rightarrow> WorkUnit list \<Rightarrow> WorkUnit list \<Rightarrow> PipelineState \<Rightarrow> wave_result" where
  "run_wave ctx clk us rest current =
     (case run_fan_out rest (wc_max_workers ctx) (wc_arrivals ctx) of
        Inl e \<Rightarrow> wave_crashed ctx (clk 1) current e
      | Inr None \<Rightarrow> ([], Inr None)
      | Inr (Some evs) \<Rightarrow>
          (case reduce_events (wc_policy ctx) clk 1 evs current of
             Inl (s', e) \<Rightarrow> wave_crashed ctx (clk (1 + length evs)) s' e
           | Inr wave \<Rightarrow> finish_wave ctx us evs (clk (1 + length evs)) (clk (2 + length evs)) wave))"

definition run_fan_out_async ::
    "WaveContext \<Rightarrow> (nat \<Rightarrow> timestamp) \<Rightarrow> WorkUnit list \<Rightarrow> PipelineState \<Rightarrow> wave_result" where
  "run_fan_out_async ctx clk us s =
     (case bind_r (new_plan us) validate_for_same_workspace of
        Inl (WorkUnitsValidationError m) \<Rightarrow> wave_failed (wc_policy ctx) (clk 0) s
          (''Parallel plan rejected (same-workspace safety check failed): '' @ m)
      | Inl e \<Rightarrow> wave_crashed ctx (clk 0) s e
      | Inr _ \<Rightarrow> (case wc_setup ctx of
          Inl e \<Rightarrow> wave_crashed ctx (clk 0) s e
        | Inr _ \<Rightarrow>
            (let seeded = (if ps_work_units s \<noteq> [] then s else set_work_units us s) in
             case resume_fan_out_state seeded us (wc_policy ctx) (clk 0) of
               Inl e \<Rightarrow> wave_crashed ctx (clk 1) s e
             | Inr (current, rest) \<Rightarrow>
                 if rest = [] then resumed_wave_done ctx (clk 1) (clk 2) current
                 else run_wave ctx clk us rest current)))"

text \<open>The status the summary of a wave gives a unit, and its two verdicts.\<close>

definition summary_status :: "PipelineState \<Rightarrow> string \<Rightarrow> string" where
  "summary_status s uid =
     (case dict_get (ps_worker_states s) uid of
        None \<Rightarrow> ''failed''
      | Some w \<Rightarrow> (case ws_status w of
          SUCCEEDED \<Rightarrow> ''succeeded''
        | CANCELLED \<Rightarrow> ''cancelled''
        | FAILED \<Rightarrow> (if starts_with ''Blocked by'' (case ws_error_message w of None \<Rightarrow> '''' | Some m \<Rightarrow> m)
                    then ''blocked'' else ''failed'')
        | _ \<Rightarrow> ''failed''))"

definition summary_verdicts :: "PipelineState \<Rightarrow> WorkUnit list \<Rightarrow> bool option \<Rightarrow> bool \<times> bool" where
  "summary_verdicts s us passed =
     (let statuses = map (summary_status s \<circ> wu_unit_id) us;
          any_failed = list_ex (\<lambda>st. st \<in> {''failed'', ''cancelled'', ''blocked''}) statuses
      in if passed = Some False then (True, False) else (any_failed, \<not> any_failed \<and> us \<noteq> []))"

section \<open>The worker table refines the coordinator's view\<close>

text \<open>The reducer's worker table implements the status of each unit that the events describe.\<close>

definition view_of :: "PipelineState \<Rightarrow> wave_view" where
  "view_of s uid = map_option ws_status (dict_get (ps_worker_states s) uid)"

fun worker_event :: "Event \<Rightarrow> bool" where
  "worker_event (WorkerStartedEv uid) = True"
| "worker_event (WorkerCompletedEv uid c) = True"
| "worker_event (WorkerFailedEv uid c m) = True"
| "worker_event _ = False"

lemma worker_frame_units: "worker_frame s s' \<Longrightarrow> ps_work_units s' = ps_work_units s"
  unfolding worker_frame_def
  by (metis PipelineState.select_convs(26) PipelineState.surjective PipelineState.update_convs(27))

lemma worker_frame_iff: "worker_frame s s' \<longleftrightarrow> (\<exists>w. s' = s\<lparr>ps_worker_states := w\<rparr>)"
  by (auto simp: worker_frame_def)

lemma worker_frame_trans: "worker_frame s s' \<Longrightarrow> worker_frame s' s'' \<Longrightarrow> worker_frame s s''"
  by (auto simp: worker_frame_iff)

lemma dict_set_same_keys: "dict_get d k = Some v \<Longrightarrow> map fst (dict_set k w d) = map fst d"
  by (auto simp: update_keys dest!: dict_get_in intro: rev_image_eqI)

lemma worker_started_keys: "map fst (ps_worker_states (handle_worker_started s uid now)) = map fst (ps_worker_states s)"
  by (simp add: handle_worker_started_def dict_set_same_keys split: option.split)

lemma worker_completed_keys:
  "map fst (ps_worker_states (handle_worker_completed s uid code now)) = map fst (ps_worker_states s)"
  by (simp add: handle_worker_completed_def dict_set_same_keys split: option.split)

lemma worker_failed_keys:
  "map fst (ps_worker_states (handle_worker_failed s uid code err now)) = map fst (ps_worker_states s)"
  by (simp add: handle_worker_failed_def dict_set_same_keys split: option.split)

lemma reduce_worker_event:
  assumes "worker_event e"
  shows "\<exists>s'. reduce_plain P now s e = Inr s' \<and> worker_frame s s' \<and> view_of s' = view_event e (view_of s)
     \<and> map fst (ps_worker_states s') = map fst (ps_worker_states s)"
proof (cases e)
  case (WorkerStartedEv uid)
  have "reduce_plain P now s e = Inr (handle_worker_started s uid now)"
    using worker_frame_units [OF worker_frames(3) [of s uid now]]
    by (simp add: WorkerStartedEv reduce_plain_def reduce_def)
  moreover have "view_of (handle_worker_started s uid now) = view_event e (view_of s)"
    by (auto simp: WorkerStartedEv view_of_def view_move_def handle_worker_started_def split: option.split)
  ultimately show ?thesis by (simp add: worker_started_keys)
next
  case (WorkerCompletedEv uid code)
  have "reduce_plain P now s e = Inr (handle_worker_completed s uid code now)"
    using worker_frame_units [OF worker_frames(4) [of s uid code now]]
    by (simp add: WorkerCompletedEv reduce_plain_def reduce_def)
  moreover have "view_of (handle_worker_completed s uid code now) = view_event e (view_of s)"
    by (auto simp: WorkerCompletedEv view_of_def view_move_def handle_worker_completed_def split: option.split)
  ultimately show ?thesis by (simp add: worker_completed_keys)
next
  case (WorkerFailedEv uid code err)
  have "reduce_plain P now s e = Inr (handle_worker_failed s uid code err now)"
    using worker_frame_units [OF worker_frames(5) [of s uid code err now]]
    by (simp add: WorkerFailedEv reduce_plain_def reduce_def reduce_worker_failed_def
        redirect_expired_cycle_in_place_def)
  moreover have "view_of (handle_worker_failed s uid code err now) = view_event e (view_of s)"
    by (auto simp: WorkerFailedEv view_of_def view_move_def handle_worker_failed_def failed_worker_def split: option.split)
  ultimately show ?thesis by (simp add: worker_failed_keys)
qed (use assms in simp_all)

lemma reduce_worker_events:
  "\<forall>e \<in> set evs. worker_event e \<Longrightarrow>
   \<exists>s'. reduce_events P clk k evs s = Inr s' \<and> worker_frame s s' \<and> view_of s' = fold view_event evs (view_of s)
     \<and> map fst (ps_worker_states s') = map fst (ps_worker_states s)"
proof (induction evs arbitrary: s k)
  case Nil
  then show ?case by (simp add: worker_frame_def)
next
  case (Cons e evs)
  then obtain s1 where s1: "reduce_plain P (clk k) s e = Inr s1" "worker_frame s s1" "view_of s1 = view_event e (view_of s)"
    "map fst (ps_worker_states s1) = map fst (ps_worker_states s)"
    using reduce_worker_event [of e P "clk k" s] by auto
  with Cons.IH [of "Suc k" s1] Cons.prems show ?case by (auto intro: worker_frame_trans)
qed

lemma wave_event_worker: "wave_event e \<Longrightarrow> worker_event e"
  by (cases e) simp_all

lemma view_fan_out_started:
  assumes "us \<noteq> []" "ps_work_units s = us" "ps_worker_states s = []"
  shows "view_of (handle_fan_out_started s) = pending_view us"
  using fan_out_lookup [of s] assms
  by (auto simp: fun_eq_iff view_of_def pending_view_def pending_worker_def)

lemma fan_out_started_keys:
  assumes "us \<noteq> []" "ps_work_units s = us" "ps_worker_states s = []" "distinct (map wu_unit_id us)"
  shows "map fst (ps_worker_states (handle_fan_out_started s)) = map wu_unit_id us"
  using assms by (simp add: handle_fan_out_started_def dict_of_units [of us "[]"] comp_def)

lemma reduce_fan_out_started:
  "reduce_plain P now s (PipelineEv FAN_OUT_STARTED) = Inr (handle_fan_out_started s)"
  using worker_frame_units [OF worker_frames(1) [of s]]
  by (simp add: reduce_plain_def reduce_def reduce_pipeline_event_def event_handler_def keep_controller_def)

lemma reduce_wave:
  assumes fresh: "us \<noteq> []" "ps_work_units s = us" "ps_worker_states s = []"
    and ids: "distinct (map wu_unit_id us)" and ws: "\<forall>e \<in> set ws. worker_event e"
  shows "\<exists>s'. reduce_events P clk k (PipelineEv FAN_OUT_STARTED # ws) s = Inr s' \<and> worker_frame s s'
     \<and> view_of s' = fold view_event (PipelineEv FAN_OUT_STARTED # ws) (pending_view us)
     \<and> map fst (ps_worker_states s') = map wu_unit_id us"
  using reduce_worker_events [OF ws, of P clk "Suc k" "handle_fan_out_started s"] fan_out_started_keys [OF fresh ids]
  by (auto simp: reduce_fan_out_started view_fan_out_started [OF fresh]
      intro: worker_frame_trans [OF worker_frames(1)])

lemma reduce_events_append:
  "reduce_events P clk k (as @ bs) s =
     (case reduce_events P clk k as s of Inl x \<Rightarrow> Inl x | Inr s' \<Rightarrow> reduce_events P clk (k + length as) bs s')"
  by (induction as arbitrary: s k) (auto split: sum.splits)

lemma fo_inv_events:
  assumes "fo_inv us m fo"
  obtains ws where "fo_events fo = PipelineEv FAN_OUT_STARTED # ws" "\<forall>e \<in> set ws. worker_event e"
    "fold view_event (fo_events fo) (pending_view us) = fo_view fo"
proof -
  have "\<exists>ws. fo_events fo = PipelineEv FAN_OUT_STARTED # ws \<and> (\<forall>e \<in> set ws. wave_event e)"
    using assms unfolding fo_inv_def Let_def by (elim conjE)
  moreover have view: "fold view_event (fo_events fo) (pending_view us) = fo_view fo"
    using assms unfolding fo_inv_def Let_def by (elim conjE)
  ultimately obtain ws where ws: "fo_events fo = PipelineEv FAN_OUT_STARTED # ws" "\<forall>e \<in> set ws. wave_event e" by blast
  then have "\<forall>e \<in> set ws. worker_event e" using wave_event_worker by blast
  with ws(1) view show thesis by (intro that)
qed

text \<open>
  C30. The run's worker table implements the coordinator's state in a first wave. The plan of the run has units and
  passed both validations, its worker table is still empty, there is at least one worker slot, and every result
  comes from a running worker. Then for every order in which results and failures arrive, at every point where the
  coordinator waits, leaves its loop or sees a failure: reducing the events it has recorded so far raises nothing,
  changes nothing but the worker table, and gives every unit exactly the status it has for the coordinator, pending,
  running or succeeded.
\<close>

theorem worker_table_refines_wave:
  assumes acc: "accepted us" and ne: "us \<noteq> []" and m: "1 \<le> m"
    and ans: "answers us m arrivals (initial_fan_out us)"
    and reached: "fan_out_loop us m arrivals (initial_fan_out us) \<in> {Awaiting fo, LoopLeft fo, LoopRaised fo es}"
    and fresh: "ps_work_units s = us" "ps_worker_states s = []"
  shows "\<exists>s'. reduce_events P clk k (fo_events fo) s = Inr s' \<and> worker_frame s s' \<and> view_of s' = fo_view fo"
proof -
  have "fo_inv us m fo" using accepted_exit [OF acc m ans] reached by (auto simp: exit_ok_def)
  then obtain ws where ws: "fo_events fo = PipelineEv FAN_OUT_STARTED # ws" "\<forall>e \<in> set ws. worker_event e"
    "fold view_event (fo_events fo) (pending_view us) = fo_view fo"
    by (rule fo_inv_events)
  with reduce_wave [OF ne fresh accepted_plan(1) [OF acc] ws(2), of P clk k] show ?thesis by auto
qed

lemma view_failed:
  "\<forall>e \<in> set evs. \<exists>i c msg. e = WorkerFailedEv i c msg \<Longrightarrow>
   fold view_event evs v = (\<lambda>uid. if uid \<in> set (failed_ids evs) \<and> v uid \<noteq> None then Some FAILED else v uid)"
proof (induction evs arbitrary: v)
  case Nil
  then show ?case by simp
next
  case (Cons e evs)
  then obtain i c msg where e: "e = WorkerFailedEv i c msg" by auto
  have "fold view_event (e # evs) v = (\<lambda>uid. if uid \<in> set (failed_ids evs) \<and> view_move i FAILED v uid \<noteq> None
      then Some FAILED else view_move i FAILED v uid)"
    using Cons e by simp
  then show ?case by (auto simp: e view_move_def fun_eq_iff)
qed

text \<open>The router does not look at the worker table.\<close>

lemma bypass_ignores_workers:
  "bypass_loop P v (s\<lparr>ps_worker_states := w\<rparr>) t sk =
     (case bypass_loop P v s t sk of Inl e \<Rightarrow> Inl e
      | Inr r \<Rightarrow> Inr (r\<lparr>br_state := (br_state r)\<lparr>ps_worker_states := w\<rparr>\<rparr>))"
proof (induction P v s t sk rule: bypass_loop.induct)
  case (1 P v s t sk)
  have skip: "skip_state P t f (s\<lparr>ps_worker_states := w\<rparr>) = (skip_state P t f s)\<lparr>ps_worker_states := w\<rparr>" for f
    by (simp add: skip_state_def stamp_outcome_def with_loop_iteration_def split: option.split)
  have iter: "get_loop_iteration (s\<lparr>ps_worker_states := w\<rparr>) f = get_loop_iteration s f" for f
    by (simp add: get_loop_iteration_def)
  show ?case
  proof (cases "t \<in> set v \<or> (\<forall>d lp. phase_of P t = Some d \<longrightarrow> pd_loop_policy d \<noteq> Some lp)")
    case True
    then show ?thesis by (subst (1 2) bypass_loop.simps) (auto simp: Let_def split: option.splits)
  next
    case False
    then obtain d lp where d: "t \<notin> set v" "phase_of P t = Some d" "pd_loop_policy d = Some lp" by auto
    let ?f = "iteration_state_field lp"
    show ?thesis
    proof (cases "resolve_analysis_cap ?f P")
      case (Inl e)
      with d show ?thesis by (subst (1 2) bypass_loop.simps) (simp add: Let_def iter)
    next
      case (Inr cap)
      show ?thesis
      proof (cases "should_skip_analysis_reentry (get_loop_iteration s ?f) cap")
        case False
        with d Inr show ?thesis by (subst (1 2) bypass_loop.simps) (simp add: Let_def iter)
      next
        case True
        with d Inr "1.IH" [OF refl d(1-3) refl refl Inr] show ?thesis
          by (subst (1 2) bypass_loop.simps)
            (cases "resolve_next_phase t ''success'' P", simp_all add: Let_def iter skip)
      qed
    qed
  qed
qed

lemma analysis_ignores_workers:
  "current_analysis_phase_advance_effect (s\<lparr>ps_worker_states := w\<rparr>) d P = current_analysis_phase_advance_effect s d P"
  by (cases "bypass_loop P [] s (ps_phase s) []")
    (simp_all add: current_analysis_phase_advance_effect_def resolve_exhausted_analysis_bypass_def
      bypass_ignores_workers)

lemma route_ignores_workers:
  "determine_effect_from_policy (s\<lparr>ps_worker_states := w\<rparr>) B config env = determine_effect_from_policy s B config env"
proof -
  let ?s = "s\<lparr>ps_worker_states := w\<rparr>"
  have sel: "ps_phase ?s = ps_phase s" "ps_work_units ?s = ps_work_units s" "ps_commit ?s = ps_commit s"
    "ps_previous_phase ?s = ps_previous_phase s" "ps_policy_entry_phase ?s = ps_policy_entry_phase s"
    by simp_all
  have chain: "current_agent ?s = current_agent s"
    by (simp add: current_agent_def chain_for_phase_def)
  have agent: "agent_name_for_phase_from_policy ?s B config = agent_name_for_phase_from_policy s B config"
    unfolding agent_name_for_phase_from_policy_def chain sel ..
  have invoke: "invoke_or_exit ?s d B config msg = invoke_or_exit s d B config msg" for d msg
    unfolding invoke_or_exit_def agent sel ..
  have fan: "fan_out_effect ?s d us = fan_out_effect s d us" for d us
    unfolding fan_out_effect_def sel ..
  have parallel: "parallel_or_agent_effect ?s d B config env = parallel_or_agent_effect s d B config env" for d
    unfolding parallel_or_agent_effect_def routed_plan_def invoke fan sel ..
  have commit: "commit_phase_effect ?s d B config env = commit_phase_effect s d B config env" for d
    unfolding commit_phase_effect_def invoke sel ..
  have terminal: "terminal_phase_effect ?s P = terminal_phase_effect s P" for P
    unfolding terminal_phase_effect_def recovery_prepare_effect_def sel ..
  have skip: "skip_invocation_effect ?s d P = skip_invocation_effect s d P" for d P
    unfolding skip_invocation_effect_def sel ..
  show ?thesis
    unfolding determine_effect_from_policy_def terminal skip commit parallel sel analysis_ignores_workers ..
qed

definition demo_wave :: PipelineState where
  "demo_wave = (from_policy default_policy)\<lparr>ps_phase := ''development'', ps_work_units := demo_plan\<rparr>"

lemma demo_wave_fresh: "ps_work_units demo_wave = demo_plan" "ps_worker_states demo_wave = []"
  by (simp_all add: demo_wave_def from_policy_def)

theorem worker_table_refines_wave_witness:
  "\<exists>fo s'. fan_out_loop demo_plan 2 [ResultArrived ''core'' 0] (initial_fan_out demo_plan) = Awaiting fo
     \<and> reduce_events default_policy (\<lambda>k. int k) 0 (fo_events fo) demo_wave = Inr s' \<and> view_of s' = fo_view fo"
proof -
  have acc: "accepted demo_plan" by (simp add: accepted_def demo_plan_accepted)
  have ne: "demo_plan \<noteq> []" by (simp add: demo_plan_def)
  have ans: "answers demo_plan 2 [ResultArrived ''core'' 0] (initial_fan_out demo_plan)" by code_simp
  have "case fan_out_loop demo_plan 2 [ResultArrived ''core'' 0] (initial_fan_out demo_plan) of
      Awaiting fo \<Rightarrow> True | _ \<Rightarrow> False" by code_simp
  then obtain fo where fo: "fan_out_loop demo_plan 2 [ResultArrived ''core'' 0] (initial_fan_out demo_plan) = Awaiting fo"
    by (auto split: LoopExit.splits)
  with worker_table_refines_wave [OF acc ne _ ans, of fo _ demo_wave default_policy "\<lambda>k. int k" 0]
  show ?thesis by (auto simp: demo_wave_fresh)
qed

section \<open>The end of a wave\<close>

lemma taken_down_known:
  assumes "fo_inv us m fo"
  shows "taken_down us (fst ` set (fo_running fo)) \<subseteq> {uid. fo_view fo uid \<noteq> None}"
proof -
  have known: "wu_unit_id ` set us = {uid. fo_view fo uid \<noteq> None}"
    using assms by (auto simp: fo_inv_def Let_def fo_view_def)
  have "i \<in> wu_unit_id ` set us" if "(i, j) \<in> (depends_on us)\<^sup>+" for i j
    using that by (auto dest!: tranclD simp: depends_on_def)
  moreover have "fst ` set (fo_running fo) \<subseteq> wu_unit_id ` set us"
    using assms by (auto simp: fo_inv_def Let_def)
  ultimately show ?thesis unfolding known [symmetric] taken_down_def by blast
qed

text \<open>
  C35. A failed first wave leaves the run where it was. The plan has units and passes both validations, the run has no
  worker table yet, there is at least one worker slot, and the task group raises worker failures of running units and
  nothing else. Then the worker table of the run shows exactly the units the failure took down as failed and the rest
  as the coordinator left them, and nothing else of the state has changed: no retry is counted, no budget charged, no
  phase left, and for every policy, configuration and environment the router answers as it did before the wave. The
  failure branch of the all-workers-complete handler is not reached: the wave does not emit that event.
\<close>

theorem failed_fan_out_is_repeated:
  assumes acc: "accepted us" and ne: "us \<noteq> []" and m: "1 \<le> m"
    and ans: "answers us m arrivals (initial_fan_out us)"
    and raised: "fan_out_loop us m arrivals (initial_fan_out us) = LoopRaised fo es"
    and flat: "flatten_worker_failures es = (failures, [])"
    and own: "wfe_unit_id ` set failures \<subseteq> fst ` set (fo_running fo)"
    and fresh: "ps_work_units s = us" "ps_worker_states s = []"
  shows "\<exists>evs s'. run_fan_out us m arrivals = Inr (Some evs) \<and> PipelineEv ALL_WORKERS_COMPLETE \<notin> set evs
     \<and> reduce_events P clk k evs s = Inr s'
     \<and> s' = s\<lparr>ps_worker_states := ps_worker_states s'\<rparr>
     \<and> (\<forall>uid. view_of s' uid =
          (if uid \<in> taken_down us (fst ` set (fo_running fo)) then Some FAILED else fo_view fo uid))
     \<and> (\<forall>B config env. determine_effect_from_policy s' B config env = determine_effect_from_policy s B config env)"
proof -
  obtain new where new: "run_fan_out us m arrivals = Inr (Some (fo_events fo @ new))" and inv: "fo_inv us m fo"
    and ids: "set (failed_ids new) = taken_down us (fst ` set (fo_running fo))"
    and failed: "\<forall>e \<in> set new. \<exists>i c msg. e = WorkerFailedEv i c msg"
    by (rule failed_wave [OF acc ne m ans raised flat own])
  obtain ws where ws: "fo_events fo = PipelineEv FAN_OUT_STARTED # ws" "\<forall>e \<in> set ws. worker_event e"
    "fold view_event (fo_events fo) (pending_view us) = fo_view fo"
    by (rule fo_inv_events [OF inv])
  have all: "\<forall>e \<in> set (ws @ new). worker_event e" using ws(2) failed by auto
  from reduce_wave [OF ne fresh accepted_plan(1) [OF acc] all, of P clk k] obtain s' where
    s': "reduce_events P clk k (fo_events fo @ new) s = Inr s'" "worker_frame s s'"
      "view_of s' = fold view_event new (fo_view fo)"
    using ws(1,3) by auto
  have "view_of s' uid = (if uid \<in> taken_down us (fst ` set (fo_running fo)) then Some FAILED else fo_view fo uid)" for uid
    using taken_down_known [OF inv] by (auto simp: s'(3) view_failed [OF failed] ids)
  moreover have "determine_effect_from_policy s' B config env = determine_effect_from_policy s B config env"
    for B config env
    using s'(2) by (auto simp: worker_frame_iff route_ignores_workers)
  moreover have "PipelineEv ALL_WORKERS_COMPLETE \<notin> set (fo_events fo @ new)" using all ws(1) 
    by (auto dest!: bspec [of _ _ "PipelineEv ALL_WORKERS_COMPLETE"])
  ultimately show ?thesis using new s'(1,2) by (auto simp: worker_frame_def)
qed

theorem failed_fan_out_is_repeated_witness:
  "\<exists>evs s'. run_fan_out demo_plan 2 [GroupRaised [WorkerFailureError \<lparr>wfe_unit_id = ''core'', wfe_exit_code = 3, wfe_error = ''boom''\<rparr>]]
       = Inr (Some evs)
     \<and> reduce_events default_policy (\<lambda>k. int k) 0 evs demo_wave = Inr s' \<and> view_of s' ''core'' = Some FAILED
     \<and> ps_phase s' = ''development''"
proof -
  let ?es = "[WorkerFailureError \<lparr>wfe_unit_id = ''core'', wfe_exit_code = 3, wfe_error = ''boom''\<rparr>]"
  have acc: "accepted demo_plan" by (simp add: accepted_def demo_plan_accepted)
  have ne: "demo_plan \<noteq> []" by (simp add: demo_plan_def)
  have ans: "answers demo_plan 2 [GroupRaised ?es] (initial_fan_out demo_plan)" by code_simp
  have "case fan_out_loop demo_plan 2 [GroupRaised ?es] (initial_fan_out demo_plan) of
      LoopRaised fo es \<Rightarrow> map fst (fo_running fo) = [''core''] \<and> es = ?es | _ \<Rightarrow> False"
    by code_simp
  then obtain fo where raised:
      "fan_out_loop demo_plan 2 [GroupRaised ?es] (initial_fan_out demo_plan) = LoopRaised fo ?es"
    and core: "map fst (fo_running fo) = [''core'']" by (auto split: LoopExit.splits)
  have busy: "fst ` set (fo_running fo) = {''core''}" using arg_cong [OF core, of set] by simp
  have flat: "flatten_worker_failures ?es =
      ([\<lparr>wfe_unit_id = ''core'', wfe_exit_code = 3, wfe_error = ''boom''\<rparr>], [])"
    by (simp add: flatten_worker_failures_def)
  have core_down: "''core'' \<in> taken_down demo_plan {''core''}" by (simp add: taken_down_def)
  obtain evs s' where r: "run_fan_out demo_plan 2 [GroupRaised ?es] = Inr (Some evs)"
      "reduce_events default_policy (\<lambda>k. int k) 0 evs demo_wave = Inr s'"
      "s' = demo_wave\<lparr>ps_worker_states := ps_worker_states s'\<rparr>" "view_of s' ''core'' = Some FAILED"
    using failed_fan_out_is_repeated [OF acc ne _ ans raised flat _ demo_wave_fresh, of default_policy "\<lambda>k. int k" 0]
      core_down by (auto simp: busy)
  have "ps_phase s' = ''development''" by (subst r(3)) (simp add: demo_wave_def)
  with r(1,2,4) show ?thesis by blast
qed

lemma bypass_frame_workers: "bypass_frame s s' \<Longrightarrow> ps_worker_states s' = ps_worker_states s"
  by (unfold bypass_frame_def; elim conjE; erule ssubst; simp)

lemma timebox_frame_workers: "timebox_frame s s' \<Longrightarrow> ps_worker_states s' = ps_worker_states s"
  by (unfold timebox_frame_def; elim conjE; erule ssubst; simp)

lemma advance_keeps_workers:
  assumes wf: "well_formed P" and t: "known_target P t"
    and adv: "reducer_advance_phase s t (Some P) timing = Inr (s', effs)"
  shows "ps_worker_states s' = ps_worker_states s"
proof -
  let ?tb = "apply_cycle_timebox s t P timing"
  obtain b where prep: "prepare_phase_advance s t (Some P) timing =
      Inr (concluded_if_leaving_cycle (with_bypassed_cycle_timing b P timing (td_timing_started ?tb)) P)"
    and fr: "bypass_frame (td_state ?tb) (br_state b)"
    by (rule prepare_phase_advance_cases [OF wf t])
  have "ps_worker_states (br_state b) = ps_worker_states s"
    using bypass_frame_workers [OF fr] timebox_frame_workers [OF apply_cycle_timebox_frame] by simp
  then have "ps_worker_states (fst (with_bypassed_cycle_timing b P timing (td_timing_started ?tb))) = ps_worker_states s"
    using timebox_frame_workers [OF apply_cycle_timebox_frame] timebox_frame_workers [OF start_bypassed_frame]
    by (simp add: with_bypassed_cycle_timing_def Let_def)
  then have "ps_worker_states (fst (concluded_if_leaving_cycle
      (with_bypassed_cycle_timing b P timing (td_timing_started ?tb)) P)) = ps_worker_states s"
    using timebox_frame_workers [OF conclude_frame]
    by (cases "with_bypassed_cycle_timing b P timing (td_timing_started ?tb)")
      (simp add: concluded_if_leaving_cycle_def)
  moreover obtain s1 t1 where st: "concluded_if_leaving_cycle
      (with_bypassed_cycle_timing b P timing (td_timing_started ?tb)) P = (s1, t1)" by fastforce
  moreover have "ps_worker_states (advanced P t1 s1) = ps_worker_states s1"
    by (simp add: advanced_def Let_def)
  ultimately show ?thesis
    using adv by (auto simp: reducer_advance_phase_def prep advance_phase_def)
qed

lemma wave_no_failure: "fo_inv us m fo \<Longrightarrow> WorkerFailedEv i c msg \<notin> set (fo_events fo)"
  by (auto simp: fo_inv_def Let_def dest: bspec)

text \<open>When every worker succeeded, the all-complete event follows the success transition.\<close>

lemma all_workers_succeeded_advance:
  assumes wf: "well_formed P" and d: "phase_of P (ps_phase s) = Some d" and ne: "ps_worker_states s \<noteq> []"
    and succ: "list_all (\<lambda>(uid, w). ws_status w = SUCCEEDED) (ps_worker_states s)"
  obtains s' where "reducer_advance_phase s (on_success (pd_transitions d)) (Some P) None = Inr (s', [])"
    "reduce_plain P now s (PipelineEv ALL_WORKERS_COMPLETE) = Inr s'" "ps_worker_states s' = ps_worker_states s"
proof -
  note val = well_formed_validated [OF wf]
  have t: "known_target P (on_success (pd_transitions d))" by (rule validated_transitions(1) [OF val d])
  obtain s' where s': "reducer_advance_phase s (on_success (pd_transitions d)) (Some P) None = Inr (s', [])" "quiet P s s'"
    using advance_routes [OF wf t] by (auto simp: routes_def)
  have none: "filter (\<lambda>(uid, w). ws_status w \<in> {FAILED, CANCELLED}) (ps_worker_states s) = []"
    "\<not> list_ex (\<lambda>(uid, w). ws_status w \<noteq> SUCCEEDED) (ps_worker_states s)"
    using succ by (auto simp: list_all_iff list_ex_iff filter_empty_conv)
  have "handle_all_workers_complete s (Some P) None = Inr (s', [])"
    using ne none s'(1) resolve_next_phase_success [OF val d]
    by (simp only: handle_all_workers_complete_def Let_def if_False if_True option.case bind_r_Inr
        catch_value_error_Inr list.map(1) sort_key_simps simp_thms)
  then have "reduce_plain P now s (PipelineEv ALL_WORKERS_COMPLETE) = Inr s'"
    using restore_work_units_quiet [OF s'(2)]
    by (simp add: reduce_plain_def reduce_def reduce_pipeline_event_def event_handler_def keep_controller_def)
  with s'(1) advance_keeps_workers [OF wf t s'(1)] show thesis by (intro that)
qed

text \<open>
  A successful fan-out end to end. Started on a validated plan with a fresh worker table, whatever
  the order in which its workers finish, once every worker has delivered its result the phase leaves
  along its success transition exactly as the reducer routes it, the plan and the worker table are
  cleared before the wave's one checkpoint so that the next phase is routed without them, and the integration callback,
  which here raises nothing, decides the state that is returned.
\<close>

theorem successful_fan_out_advances:
  assumes wf: "well_formed P" and d: "phase_of P (ps_phase s) = Some d"
    and acc: "accepted us" and ne: "us \<noteq> []" and m: "1 \<le> wc_max_workers ctx"
    and ans: "answers us (wc_max_workers ctx) (wc_arrivals ctx) (initial_fan_out us)"
    and results: "\<forall>a \<in> set (wc_arrivals ctx). \<exists>i c. a = ResultArrived i c"
    and complete: "length (wc_arrivals ctx) = length us"
    and fresh: "ps_work_units s = us" "ps_worker_states s = []"
    and ctx: "wc_policy ctx = P" "wc_setup ctx = Inr ()" "\<not> wc_verify ctx" "wc_summary ctx = Inr ()"
    and callback: "\<forall>x. wc_on_success ctx x = Inr (landed x)"
  shows "\<exists>s1 s2. s1 = s\<lparr>ps_worker_states := ps_worker_states s1\<rparr>
     \<and> reducer_advance_phase s1 (on_success (pd_transitions d)) (Some P) None = Inr (s2, [])
     \<and> run_fan_out_async ctx clk us s
         = ([with_parallel_execution_cleared s2], Inr (Some (landed (with_parallel_execution_cleared s2))))"
proof -
  let ?x = "fan_out_loop us (wc_max_workers ctx) (wc_arrivals ctx) (initial_fan_out us)"
  obtain fo where fo: "?x = LoopLeft fo" "fo_inv us (wc_max_workers ctx) fo" "fo_completed fo = wu_unit_id ` set us"
    by (rule completed_wave [OF acc m ans results complete])
  have run: "run_fan_out us (wc_max_workers ctx) (wc_arrivals ctx)
      = Inr (Some (fo_events fo @ [PipelineEv ALL_WORKERS_COMPLETE]))"
    by (simp add: run_accepted [OF acc ne] fo(1))
  obtain ws where ws: "fo_events fo = PipelineEv FAN_OUT_STARTED # ws" "\<forall>e \<in> set ws. worker_event e"
    "fold view_event (fo_events fo) (pending_view us) = fo_view fo"
    by (rule fo_inv_events [OF fo(2)])
  from reduce_wave [OF ne fresh accepted_plan(1) [OF acc] ws(2), of P clk 1] ws(1,3) obtain s1 where
    s1: "reduce_events P clk 1 (fo_events fo) s = Inr s1" "worker_frame s s1" "view_of s1 = fo_view fo"
      "map fst (ps_worker_states s1) = map wu_unit_id us" by auto
  have "ws_status w = SUCCEEDED" if w: "(uid, w) \<in> set (ps_worker_states s1)" for uid w
  proof -
    have "distinct (map fst (ps_worker_states s1))" using accepted_plan(1) [OF acc] s1(4) by simp
    with w have "dict_get (ps_worker_states s1) uid = Some w" by simp
    moreover have "uid \<in> wu_unit_id ` set us"
      using arg_cong [OF s1(4), of set] w by (metis fst_conv image_eqI list.set_map)
    ultimately show ?thesis using fun_cong [OF s1(3), of uid] fo(3) by (simp add: view_of_def fo_view_def)
  qed
  then have succ: "list_all (\<lambda>(uid, w). ws_status w = SUCCEEDED) (ps_worker_states s1)" by (auto simp: list_all_iff)
  have len: "length (ps_worker_states s1) = length us" using arg_cong [OF s1(4), of length] by simp
  with ne have ne1: "ps_worker_states s1 \<noteq> []" by auto
  have phase: "phase_of P (ps_phase s1) = Some d" using d s1(2) by (auto simp: worker_frame_iff)
  obtain s2 where s2: "reducer_advance_phase s1 (on_success (pd_transitions d)) (Some P) None = Inr (s2, [])"
    "reduce_plain P (clk (1 + length (fo_events fo))) s1 (PipelineEv ALL_WORKERS_COMPLETE) = Inr s2"
    "ps_worker_states s2 = ps_worker_states s1"
    by (rule all_workers_succeeded_advance [OF wf phase ne1 succ])
  have red: "reduce_events P clk 1 (fo_events fo @ [PipelineEv ALL_WORKERS_COMPLETE]) s = Inr s2"
    unfolding reduce_events_append s1(1) by (simp del: One_nat_def add: s2(2))
  have quiet_events: "\<not> list_ex (\<lambda>e. case e of WorkerFailedEv i c m \<Rightarrow> True | _ \<Rightarrow> False)
      (fo_events fo @ [PipelineEv ALL_WORKERS_COMPLETE])"
    using wave_no_failure [OF fo(2)] by (auto simp: list_ex_iff split: Event.splits)
  have "finish_wave ctx us (fo_events fo @ [PipelineEv ALL_WORKERS_COMPLETE]) now later s2
      = ([with_parallel_execution_cleared s2], Inr (Some (landed (with_parallel_execution_cleared s2))))" for now later
    using ctx(3,4) succ ne1 len s2(3) callback
    by (simp add: finish_wave_def complete_wave_def saving_def Let_def run_verify_phase_def cleared_after_successful_wave_def)
  moreover have "resume_fan_out_state s us P (clk 0) = Inr (s, us)"
    using fresh worker_frame_units [OF worker_frames(2) [of s]]
    by (simp add: resume_fan_out_state_def reduce_plain_def reduce_def reduce_pipeline_event_def event_handler_def
        keep_controller_def handle_workers_resumed_def Let_def)
  ultimately have "run_fan_out_async ctx clk us s
      = ([with_parallel_execution_cleared s2], Inr (Some (landed (with_parallel_execution_cleared s2))))"
    using ne fresh ctx run red
    by (simp del: One_nat_def add: run_fan_out_async_def run_wave_def accepted_preflight [OF acc])
  with s1(2) s2(1) show ?thesis by (auto simp: worker_frame_def)
qed

definition demo_wave_context :: WaveContext where
  "demo_wave_context =
     \<lparr>wc_policy = default_policy, wc_max_workers = 2, wc_verify = False, wc_setup = Inr (),
      wc_arrivals = [ResultArrived ''core'' 0, ResultArrived ''api'' 0, ResultArrived ''docs'' 0],
      wc_verify_error = Inr None, wc_summary = Inr (), wc_on_success = Inr, wc_error_text = (\<lambda>e. ''error'')\<rparr>"

theorem successful_fan_out_advances_witness:
  "\<exists>s2. run_fan_out_async demo_wave_context (\<lambda>k. int k) demo_plan demo_wave
       = ([with_parallel_execution_cleared s2], Inr (Some (with_parallel_execution_cleared s2)))"
proof -
  have acc: "accepted demo_plan" by (simp add: accepted_def demo_plan_accepted)
  have ne: "demo_plan \<noteq> []" and len: "length demo_plan = 3" by (simp_all add: demo_plan_def)
  have phase: "ps_phase demo_wave = ''development''" by (simp add: demo_wave_def)
  have "case phase_of default_policy ''development'' of None \<Rightarrow> False | Some d \<Rightarrow> True" by code_simp
  then obtain d where d: "phase_of default_policy (ps_phase demo_wave) = Some d"
    by (auto simp: phase split: option.splits)
  have ans: "answers demo_plan (wc_max_workers demo_wave_context) (wc_arrivals demo_wave_context) (initial_fan_out demo_plan)"
    by code_simp
  from successful_fan_out_advances [OF default_well_formed d acc ne _ ans _ _ demo_wave_fresh, of "\<lambda>x. x" "\<lambda>k. int k"]
  show ?thesis by (auto simp: demo_wave_context_def len)
qed

end
