(* ===== verification/Failure_Markers.thy ===== *)
theory Failure_Markers
  imports Recovery_Types
begin

text \<open>
  What the failure classifier reads: the textual surfaces of an exception
  (\<^verbatim>\<open>ralph/recovery/failure_details.py\<close>) and the marker vocabularies of
  \<^verbatim>\<open>ralph/recovery/failure_classifier.py\<close> with the predicates over them.
\<close>

section \<open>Exceptions\<close>

text \<open>
  Exceptions refer to each other by \<^verbatim>\<open>__cause__\<close> and \<^verbatim>\<open>__context__\<close>, possibly in a cycle, so they live in
  a heap: a list, a reference being a position. \<open>ex_bases\<close> are the names of the class and its base
  classes, which \<^verbatim>\<open>isinstance\<close> looks at; \<open>ex_errno\<close> is the symbolic name of the error number. An
  attribute the object does not have, or has with another type than the code tests for, is \<open>None\<close>.
\<close>

record PyException =
  ex_class :: string
  ex_bases :: "string list"
  ex_str :: string
  ex_stderr :: "string option"
  ex_parsed_output :: "string list"
  ex_errno :: "string option"
  ex_reason :: "string option"
  ex_child_alive :: "bool option"
  ex_resumable_session_id :: "string option"
  ex_cause :: "nat option"
  ex_context :: "nat option"

type_synonym exc_heap = "PyException list"

definition isinstance :: "PyException \<Rightarrow> string \<Rightarrow> bool" where
  "isinstance e c \<longleftrightarrow> c \<in> set (ex_bases e)"

section \<open>Failure details\<close>

definition failure_detail_parts :: "PyException \<Rightarrow> string list" where
  "failure_detail_parts e =
     (let message = str_strip (ex_str e);
          parts = (if message \<noteq> [] then [message] else []);
          parts' = (case ex_stderr e of None \<Rightarrow> parts
             | Some t \<Rightarrow> (let stderr_text = str_strip t in
                 if stderr_text \<noteq> [] \<and> stderr_text \<notin> set parts then parts @ [stderr_text] else parts))
      in parts' @ filter (\<lambda>t. t \<noteq> []) (map str_strip (ex_parsed_output e)))"

definition message_detail_parts :: "string \<Rightarrow> string list" where
  "message_detail_parts m = (let t = str_strip m in if t \<noteq> [] then [t] else [])"

definition contains_casefolded_marker :: "string list \<Rightarrow> string list \<Rightarrow> bool" where
  "contains_casefolded_marker parts markers \<longleftrightarrow>
     list_ex (\<lambda>part. list_ex (\<lambda>m. str_contains (casefold m) (casefold part)) markers) parts"

section \<open>Vocabularies\<close>

definition TRANSPORT_SUBSTRINGS :: "string list" where
  "TRANSPORT_SUBSTRINGS =
    [''connection reset'', ''socket hang up'', ''ECONNREFUSED'', ''broken pipe'', ''Network is unreachable'',
     ''Temporary failure in name resolution'', ''Connection refused'', ''Connection timed out'',
     ''Name or service not known'', ''nodename nor servname provided'', ''connection error'']"

definition SESSION_NOT_FOUND_SUBSTRINGS :: "string list" where
  "SESSION_NOT_FOUND_SUBSTRINGS =
    [''No conversation found with session ID:'', ''Session not found'', ''Unknown session'',
     ''session does not exist'']"

definition TOOL_AVAILABILITY_SUBSTRINGS :: "string list" where
  "TOOL_AVAILABILITY_SUBSTRINGS =
    [''no such tool available'']"

definition POST_TOOL_EMPTY_RESPONSE_SUBSTRINGS :: "string list" where
  "POST_TOOL_EMPTY_RESPONSE_SUBSTRINGS =
    [''empty response with no tool calls'', ''empty response'']"

definition UNAVAILABLE_AGENT_SUBSTRINGS :: "string list" where
  "UNAVAILABLE_AGENT_SUBSTRINGS =
    [''agent produced no output'', ''no output for'', ''empty response'', ''timed out with no output'',
     ''no tool calls'']"

definition json_pair :: "string \<Rightarrow> string \<Rightarrow> string" where
  "json_pair sep v = [CHR 0x22] @ ''type'' @ [CHR 0x22] @ sep @ [CHR 0x22] @ v @ [CHR 0x22]"

definition POST_TOOL_ACTIVITY_MARKERS :: "string list" where
  "POST_TOOL_ACTIVITY_MARKERS =
    [json_pair '':'' ''tool_result'', json_pair '': '' ''tool_result'', json_pair '':'' ''mcp_tool_result'',
     json_pair '': '' ''mcp_tool_result'', json_pair '':'' ''tool_use'', json_pair '': '' ''tool_use'',
     ''[plain] tool:'', '' tool: '']"

definition MISSING_ARTIFACT_SUBSTRINGS :: "string list" where
  "MISSING_ARTIFACT_SUBSTRINGS =
    [''Missing required artifact'', ''Artifact not found at .agent/artifacts/'', ''required_artifact_missing'',
     ''Missing/invalid issues artifact'', ''Missing required analysis artifact'',
     ''Missing fix_result artifact'', ''required artifact receipt missing'']"

definition PERMANENT_ACCOUNT_SUBSTRINGS :: "string list" where
  "PERMANENT_ACCOUNT_SUBSTRINGS =
    [''organization has no valid billing information'', ''your account is not active'', ''payment required'',
     ''account suspended'', ''subscription expired'', ''trial expired'']"

definition SUBSCRIPTION_LIMIT_SUBSTRINGS :: "string list" where
  "SUBSCRIPTION_LIMIT_SUBSTRINGS =
    [''You'' @ [CHR 0x27] @ ''ve hit your session limit'', ''You'' @ [CHR 0x27] @ ''ve hit your weekly limit'',
     ''You'' @ [CHR 0x27] @ ''ve hit your Opus limit'', ''Credit balance is too low'',
     ''You'' @ [CHR 0x27] @ ''re out of extra usage'', ''Extra usage is required for long context requests'',
     ''workspace API usage limits'', ''billing_error'', ''you exceeded your current quota'',
     ''insufficient_quota'', ''insufficient quota'', ''rate limit reached for requests'',
     ''billing hard limit reached'', ''monthly spend limit reached'', ''selected model is at capacity'',
     ''you'' @ [CHR 0x27] @ ''ve run out of credits'', ''rate_limit_error'',
     ''number of request tokens has exceeded your per-minute rate limit'',
     ''number of output tokens has exceeded your per-minute rate limit'', ''out of credits'',
     ''spend limit reached'', ''rate limit reached'', ''resource_exhausted'', ''resource exhausted'',
     ''quota exceeded'', ''quota limit has been exceeded'', ''rate limit exceeded'', ''too many requests'',
     ''credits exhausted'', ''no credits remaining'', ''insufficient credits'', ''insufficient balance'',
     ''usage limit exceeded'', ''request limit exceeded'', ''token limit exceeded'', ''plan limit reached'',
     ''billing threshold reached'', ''free tier limit exceeded'', ''daily limit reached'',
     ''hourly limit reached'', ''per-minute limit exceeded'', ''daily limit exceeded'',
     ''weekly limit exceeded'', ''monthly limit exceeded'']"

definition ARTIFACT_VALIDATION_TYPE_NAMES :: "string list" where
  "ARTIFACT_VALIDATION_TYPE_NAMES =
    [''PlanArtifactValidationError'', ''DevelopmentResultValidationError'', ''TypedArtifactValidationError'',
     ''SmokeTestResultValidationError'', ''ProductSpecValidationError'', ''WorkUnitsValidationError'']"

definition WATCHDOG_UNAVAILABILITY_REASONS :: "string list" where
  "WATCHDOG_UNAVAILABILITY_REASONS =
    [''no_output_at_start'', ''children_persist_too_long'']"

definition config_substrings :: "string list" where
  "config_substrings =
    [''is not bound'', ''is not defined'', ''Checkpoint was saved at phase'',
     ''no longer exists in pipeline.toml'']"

definition artifact_validation_substrings :: "string list" where
  "artifact_validation_substrings =
    [''Invalid plan artifact:'', ''Invalid development evidence:'', ''Missing/invalid issues artifact:'',
     ''Artifact type mismatch:'', ''Artifact content must be a JSON object'', ''must be valid JSON text'',
     ''must be a JSON object'', ''PROOF INVALID:'', ''PROOF INCOMPLETE:'',
     ''proof entries are incomplete or invalid'', ''analysis item ID'', ''Unknown plan_item reference'',
     ''Unknown analysis finding ID'']"

definition NO_OUTPUT_SUBSTRINGS :: "string list" where
  "NO_OUTPUT_SUBSTRINGS =
    [''no output'', ''empty output'', ''produced empty output'', ''without producing output'']"

definition CONFLICT_ATTEMPT_SUBSTRINGS :: "string list" where
  "CONFLICT_ATTEMPT_SUBSTRINGS =
    [''conflict attempt failed'', ''candidate produced no activity before it exited'']"

definition TIMEOUT_SUBSTRINGS :: "string list" where
  "TIMEOUT_SUBSTRINGS =
    [''timed out'', ''timeout'', ''idle'']"

section \<open>Predicates over the vocabularies\<close>

definition ENV_ERRNOS :: "string list" where
  "ENV_ERRNOS = [''ENETUNREACH'', ''ECONNREFUSED'', ''EHOSTUNREACH'', ''ENETDOWN'', ''EPIPE'', ''ENOSPC'']"

definition is_environmental_exc :: "PyException \<Rightarrow> bool" where
  "is_environmental_exc e \<longleftrightarrow>
     isinstance e ''ConnectionError'' \<or> isinstance e ''TimeoutError'' \<or> isinstance e ''gaierror''
     \<or> isinstance e ''URLError''
     \<or> isinstance e ''OSError'' \<and> (case ex_errno e of None \<Rightarrow> False | Some n \<Rightarrow> n \<in> set ENV_ERRNOS)"

definition message_looks_environmental :: "string \<Rightarrow> bool" where
  "message_looks_environmental msg \<longleftrightarrow>
     list_ex (\<lambda>s. str_contains (str_lower s) (str_lower msg)) TRANSPORT_SUBSTRINGS"

definition is_user_config_exc :: "PyException \<Rightarrow> bool" where
  "is_user_config_exc e \<longleftrightarrow> ex_class e \<in> set
     [''DrainNotBoundError'', ''CheckpointPolicyMismatchError'', ''PolicyValidationError'',
      ''UnknownAgentError'', ''McpConfigError'']"

definition is_user_config_message :: "string \<Rightarrow> bool" where
  "is_user_config_message msg \<longleftrightarrow> list_ex (\<lambda>s. str_contains s msg) config_substrings"

definition is_missing_artifact_message :: "string \<Rightarrow> bool" where
  "is_missing_artifact_message msg \<longleftrightarrow> list_ex (\<lambda>s. str_contains s msg) MISSING_ARTIFACT_SUBSTRINGS"

definition is_unsubmitted_artifact_failure :: "string list \<Rightarrow> bool" where
  "is_unsubmitted_artifact_failure parts \<longleftrightarrow>
     contains_casefolded_marker parts MISSING_ARTIFACT_SUBSTRINGS
     \<or> contains_casefolded_marker parts POST_TOOL_EMPTY_RESPONSE_SUBSTRINGS"

definition is_artifact_validation_message :: "string \<Rightarrow> bool" where
  "is_artifact_validation_message msg \<longleftrightarrow>
     is_missing_artifact_message msg \<or> list_ex (\<lambda>s. str_contains s msg) artifact_validation_substrings"

definition is_tool_dispatch_unregistered_error :: "PyException \<Rightarrow> bool" where
  "is_tool_dispatch_unregistered_error e \<longleftrightarrow>
     ex_class e = ''ToolDispatchError'' \<and> str_contains ''is not registered'' (casefold (ex_str e))"

definition is_post_tool_empty_response_failure :: "string list \<Rightarrow> bool" where
  "is_post_tool_empty_response_failure parts \<longleftrightarrow>
     contains_casefolded_marker parts POST_TOOL_EMPTY_RESPONSE_SUBSTRINGS
     \<and> contains_casefolded_marker parts POST_TOOL_ACTIVITY_MARKERS"

definition is_unavailable_agent_message :: "string \<Rightarrow> bool" where
  "is_unavailable_agent_message msg \<longleftrightarrow>
     list_ex (\<lambda>m. str_contains (casefold m) (casefold msg)) UNAVAILABLE_AGENT_SUBSTRINGS"

definition is_subscription_limit_message :: "string list \<Rightarrow> bool" where
  "is_subscription_limit_message parts \<longleftrightarrow> contains_casefolded_marker parts SUBSCRIPTION_LIMIT_SUBSTRINGS"

definition is_permanent_account_failure :: "string list \<Rightarrow> bool" where
  "is_permanent_account_failure parts \<longleftrightarrow> contains_casefolded_marker parts PERMANENT_ACCOUNT_SUBSTRINGS"

text \<open>\<^verbatim>\<open>(connectivity_state or "").casefold() == "online"\<close>.\<close>

definition is_online :: "string option \<Rightarrow> bool" where
  "is_online connectivity_state \<longleftrightarrow>
     casefold (case connectivity_state of None \<Rightarrow> [] | Some c \<Rightarrow> c) = ''online''"

definition is_suspicious_timeout_without_output :: "string list \<Rightarrow> string option \<Rightarrow> bool" where
  "is_suspicious_timeout_without_output parts connectivity_state \<longleftrightarrow>
     is_online connectivity_state
     \<and> contains_casefolded_marker parts NO_OUTPUT_SUBSTRINGS
     \<and> contains_casefolded_marker parts TIMEOUT_SUBSTRINGS"

end
