(* ===== verification/Failure_Classifier.thy ===== *)
theory Failure_Classifier
  imports Failure_Markers Recovery_Controller
begin

text \<open>
  The classifier of failures (\<^verbatim>\<open>FailureClassifier\<close> of \<^verbatim>\<open>ralph/recovery/failure_classifier.py\<close>): a failure is a
  message or an exception of the heap, and its classification decides who pays for it and whether
  the agent is put on cooldown. The recovery controller takes the classifier as an argument; here it
  gets the real one.
\<close>

section \<open>The typed cause of a watchdog kill\<close>

definition is_watchdog_kill :: "PyException \<Rightarrow> bool" where
  "is_watchdog_kill e \<longleftrightarrow> isinstance e ''IdleWatchdogKilledError''"

definition next_exc :: "PyException \<Rightarrow> nat option" where
  "next_exc e = (case ex_cause e of Some c \<Rightarrow> Some c | None \<Rightarrow> ex_context e)"

text \<open>
  The \<^verbatim>\<open>while\<close> loop of \<^verbatim>\<open>_find_typed_watchdog_cause\<close>, with the positions it has visited. A reference outside
  the heap, which Python does not have, ends it.
\<close>

function watchdog_walk :: "exc_heap \<Rightarrow> nat list \<Rightarrow> nat option \<Rightarrow> nat option" where
  "watchdog_walk h visited current =
     (case current of None \<Rightarrow> None
      | Some r \<Rightarrow>
          if r \<in> set visited \<or> length h \<le> r then None
          else if is_watchdog_kill (h ! r) then Some r
          else watchdog_walk h (r # visited) (next_exc (h ! r)))"
  by pat_completeness auto

lemma unvisited_shrinks:
  "r < (n :: nat) \<Longrightarrow> r \<notin> set visited \<Longrightarrow> card ({..<n} - set (r # visited)) < card ({..<n} - set visited)"
  by (rule psubset_card_mono) auto

termination watchdog_walk
  by (relation "measure (\<lambda>(h, visited, _). card ({..<length h} - set visited))")
     (auto simp del: set_simps intro: unvisited_shrinks)

declare watchdog_walk.simps [simp del]

definition find_typed_watchdog_cause :: "exc_heap \<Rightarrow> nat \<Rightarrow> nat option" where
  "find_typed_watchdog_cause h r =
     (if is_watchdog_kill (h ! r) then Some r else watchdog_walk h [r] (next_exc (h ! r)))"

section \<open>Categories\<close>

text \<open>A verdict: the category, whether it counts against the budget, and whether the session is reset.\<close>

type_synonym verdict = "FailureCategory \<times> bool \<times> bool"

definition classify_agent_invocation_error :: "string \<Rightarrow> string list \<Rightarrow> string option \<Rightarrow> verdict option" where
  "classify_agent_invocation_error raw_message parts conn =
     (if contains_casefolded_marker parts SESSION_NOT_FOUND_SUBSTRINGS then Some (AGENT, True, True)
      else if is_permanent_account_failure parts then Some (USER_CONFIG, False, False)
      else if is_subscription_limit_message parts then Some (AGENT, True, False)
      else if is_suspicious_timeout_without_output parts conn then Some (AGENT, True, False)
      else if \<not> message_looks_environmental raw_message
              \<and> (contains_casefolded_marker parts POST_TOOL_EMPTY_RESPONSE_SUBSTRINGS
                 \<or> contains_casefolded_marker parts NO_OUTPUT_SUBSTRINGS
                 \<or> contains_casefolded_marker parts TIMEOUT_SUBSTRINGS)
        then Some (AGENT, True, False)
      else None)"

definition categorize_exc :: "exc_heap \<Rightarrow> nat \<Rightarrow> string \<Rightarrow> string list \<Rightarrow> string option \<Rightarrow> verdict option" where
  "categorize_exc h r raw_message parts conn =
     (let e = h ! r; type_name = ex_class e in
      if find_typed_watchdog_cause h r \<noteq> None then Some (AGENT, True, False)
      else if is_user_config_exc e then Some (USER_CONFIG, False, False)
      else if type_name \<in> set ARTIFACT_VALIDATION_TYPE_NAMES then Some (ARTIFACT_VALIDATION, False, False)
      else if is_environmental_exc e then Some (ENVIRONMENTAL, False, False)
      else if type_name \<in> set [''AgentInactivityTimeoutError'', ''BrokenAgentExitError'']
        then Some (AGENT, True, type_name = ''BrokenAgentExitError'')
      else if type_name \<in> set [''OpenCodeResumableExitError'', ''AgyIncompleteExitError'']
        then Some (AGENT, True, False)
      else if type_name = ''AgentInvocationError'' then classify_agent_invocation_error raw_message parts conn
      else None)"

definition TYPED_EXIT_REASON_CATEGORIES :: "(string, verdict) dict" where
  "TYPED_EXIT_REASON_CATEGORIES =
     [(''PiContextExhaustedExitError'', (AGENT, False, False)),
      (''PiProviderFailureExitError'', (ENVIRONMENTAL, False, False)),
      (''BrokenAgentExitError'', (AGENT, False, False)),
      (''MissingCredentialsError'', (USER_CONFIG, False, False)),
      (''AgentNotFound'', (USER_CONFIG, False, False))]"

text \<open>The rows of \<^verbatim>\<open>_classify_message_only_failure\<close>, first match wins.\<close>

definition message_checks :: "string \<Rightarrow> string list \<Rightarrow> string option \<Rightarrow> (bool \<times> verdict) list" where
  "message_checks raw_message parts conn =
     [(contains_casefolded_marker parts SESSION_NOT_FOUND_SUBSTRINGS, (AGENT, True, True)),
      (is_permanent_account_failure parts, (USER_CONFIG, False, False)),
      (is_subscription_limit_message parts, (AGENT, True, False)),
      (is_suspicious_timeout_without_output parts conn, (AGENT, True, False)),
      (message_looks_environmental raw_message, (ENVIRONMENTAL, False, False)),
      (is_user_config_message raw_message, (USER_CONFIG, False, False)),
      (is_artifact_validation_message raw_message, (ARTIFACT_VALIDATION, False, False)),
      (contains_casefolded_marker parts CONFLICT_ATTEMPT_SUBSTRINGS, (AGENT, False, False)),
      (dict_has TYPED_EXIT_REASON_CATEGORIES (str_strip raw_message),
       dict_get_or TYPED_EXIT_REASON_CATEGORIES (str_strip raw_message) (AGENT, False, False)),
      (\<not> message_looks_environmental raw_message
       \<and> (contains_casefolded_marker parts POST_TOOL_EMPTY_RESPONSE_SUBSTRINGS
          \<or> is_online conn \<and> (contains_casefolded_marker parts NO_OUTPUT_SUBSTRINGS
                               \<or> contains_casefolded_marker parts TIMEOUT_SUBSTRINGS)),
       (AGENT, True, False))]"

definition classify_message_only_failure :: "string \<Rightarrow> string list \<Rightarrow> string option \<Rightarrow> verdict option" where
  "classify_message_only_failure raw_message parts conn =
     map_option snd (find fst (message_checks raw_message parts conn))"

definition categorize :: "exc_heap \<Rightarrow> nat option \<Rightarrow> string \<Rightarrow> string list \<Rightarrow> string option \<Rightarrow> verdict" where
  "categorize h exc raw_message parts conn =
     (case (case exc of None \<Rightarrow> None | Some r \<Rightarrow> categorize_exc h r raw_message parts conn) of
        Some v \<Rightarrow> v
      | None \<Rightarrow> (case classify_message_only_failure raw_message parts conn of
          Some v \<Rightarrow> v | None \<Rightarrow> (AMBIGUOUS, False, False)))"

definition build_reason :: "FailureCategory \<Rightarrow> string \<Rightarrow> string" where
  "build_reason c raw_message =
     (case c of
        ENVIRONMENTAL \<Rightarrow> ''Environmental fault'' | AGENT \<Rightarrow> ''Agent fault''
      | USER_CONFIG \<Rightarrow> ''Configuration fault'' | ARTIFACT_VALIDATION \<Rightarrow> ''Artifact validation fault''
      | AMBIGUOUS \<Rightarrow> ''Ambiguous fault (flagged for review)'')
     @ '': '' @ (if raw_message \<noteq> [] then take 300 raw_message else ''(no message)'')"

section \<open>Unavailability\<close>

definition connectivity_unavailability_reason :: "string list \<Rightarrow> string option \<Rightarrow> UnavailabilityReason option" where
  "connectivity_unavailability_reason parts conn =
     (if is_subscription_limit_message parts then Some OUT_OF_CREDITS
      else if is_suspicious_timeout_without_output parts conn then Some SUSPICIOUS_TIMEOUT_NO_OUTPUT
      else None)"

definition classify_unavailability_reason ::
    "string option \<Rightarrow> string list \<Rightarrow> string \<Rightarrow> string option \<Rightarrow> bool option \<Rightarrow> UnavailabilityReason option" where
  "classify_unavailability_reason watchdog_reason parts raw_message conn child_alive =
     (let r1 = (if watchdog_reason = Some ''no_output_at_start'' then Some NO_OUTPUT_AT_START
                else if watchdog_reason = Some ''no_progress_quiet''
                  then (if child_alive = Some True then None else Some STALE_CHILD_QUIET)
                else if watchdog_reason = Some ''strictly_stuck'' then Some STRICTLY_STUCK
                else if watchdog_reason = Some ''children_persist_too_long''
                  then Some SUSPICIOUS_TIMEOUT_NO_OUTPUT
                else if is_online conn then connectivity_unavailability_reason parts conn
                else None);
          r2 = (if r1 = None \<and> contains_casefolded_marker parts POST_TOOL_EMPTY_RESPONSE_SUBSTRINGS
                then Some NO_OUTPUT_AFTER_ACTIVITY else r1)
      in if r2 = None \<and> is_unavailable_agent_message raw_message then Some NO_OUTPUT_AT_START else r2)"

definition is_tool_availability_failure :: "PyException option \<Rightarrow> string list \<Rightarrow> bool" where
  "is_tool_availability_failure exc parts \<longleftrightarrow>
     (case exc of None \<Rightarrow> False | Some e \<Rightarrow> is_tool_dispatch_unregistered_error e)
     \<or> contains_casefolded_marker parts TOOL_AVAILABILITY_SUBSTRINGS
     \<or> is_post_tool_empty_response_failure parts"

section \<open>Classification\<close>

datatype Failure = Message string | Raised nat

text \<open>The parts of \<^verbatim>\<open>classify\<close>: what it derives from the failure before it decides.\<close>

definition failure_exc :: "Failure \<Rightarrow> nat option" where
  "failure_exc x = (case x of Message m \<Rightarrow> None | Raised r \<Rightarrow> Some r)"

definition raw_message_of :: "exc_heap \<Rightarrow> Failure \<Rightarrow> string" where
  "raw_message_of h x =
     (case x of Message m \<Rightarrow> m
      | Raised r \<Rightarrow> (let e = h ! r in
          if ex_str e \<noteq> [] then ex_class e @ '': '' @ ex_str e else ex_class e))"

definition detail_parts_of :: "exc_heap \<Rightarrow> Failure \<Rightarrow> string list" where
  "detail_parts_of h x = (case x of Message m \<Rightarrow> [m] | Raised r \<Rightarrow> failure_detail_parts (h ! r))"

definition watchdog_reason_of :: "exc_heap \<Rightarrow> Failure \<Rightarrow> string option" where
  "watchdog_reason_of h x =
     (case x of Message m \<Rightarrow> None
      | Raised r \<Rightarrow> if ex_class (h ! r) = ''AgentInactivityTimeoutError'' then ex_reason (h ! r) else None)"

definition child_alive_of :: "exc_heap \<Rightarrow> Failure \<Rightarrow> bool option" where
  "child_alive_of h x =
     (case x of Message m \<Rightarrow> None
      | Raised r \<Rightarrow> (case find_typed_watchdog_cause h r of
          None \<Rightarrow> None | Some w \<Rightarrow> ex_child_alive (h ! w)))"

definition nonempty_text :: "string option \<Rightarrow> string option" where
  "nonempty_text t = (if t = Some [] then None else t)"

definition resumable_session_id_of :: "exc_heap \<Rightarrow> Failure \<Rightarrow> string option" where
  "resumable_session_id_of h x =
     (case x of Message m \<Rightarrow> None
      | Raised r \<Rightarrow>
          (case (case find_typed_watchdog_cause h r of
                   None \<Rightarrow> None | Some w \<Rightarrow> nonempty_text (ex_resumable_session_id (h ! w))) of
             Some i \<Rightarrow> Some i
           | None \<Rightarrow> nonempty_text (ex_resumable_session_id (h ! r))))"

definition has_class :: "exc_heap \<Rightarrow> Failure \<Rightarrow> string list \<Rightarrow> bool" where
  "has_class h x names \<longleftrightarrow> (case x of Message m \<Rightarrow> False | Raised r \<Rightarrow> ex_class (h ! r) \<in> set names)"

definition is_broken_agent :: "exc_heap \<Rightarrow> Failure \<Rightarrow> bool" where
  "is_broken_agent h x \<longleftrightarrow> has_class h x [''BrokenAgentExitError'']"

definition base_unavailable ::
    "exc_heap \<Rightarrow> Failure \<Rightarrow> FailureCategory \<Rightarrow> bool \<Rightarrow> string option \<Rightarrow> bool" where
  "base_unavailable h x category reset_tool_registry conn \<longleftrightarrow>
     (let watchdog_reason = watchdog_reason_of h x; child_alive = child_alive_of h x;
          parts = detail_parts_of h x
      in is_broken_agent h x
         \<or> category = AGENT \<and> is_online conn \<and> \<not> reset_tool_registry
           \<and> ((case watchdog_reason of None \<Rightarrow> False
                | Some w \<Rightarrow> w \<in> set WATCHDOG_UNAVAILABILITY_REASONS \<and> w \<noteq> ''no_progress_quiet'')
              \<or> watchdog_reason = Some ''no_progress_quiet'' \<and> child_alive \<in> {Some False, None}
              \<or> (failure_exc x = None \<or> has_class h x [''AgentInvocationError'', ''AgentInactivityTimeoutError''])
                \<and> \<not> (watchdog_reason = Some ''no_progress_quiet'' \<and> child_alive = Some True)
                \<and> (is_unavailable_agent_message (raw_message_of h x)
                   \<or> contains_casefolded_marker parts POST_TOOL_EMPTY_RESPONSE_SUBSTRINGS
                   \<or> is_subscription_limit_message parts)))"

text \<open>
  \<^verbatim>\<open>classify\<close>. \<open>original\<close> is the exception object the record keeps; the controller reads it back.
\<close>

definition classify ::
    "exc_heap \<Rightarrow> RawFailure option \<Rightarrow> Failure \<Rightarrow> string \<Rightarrow> string option \<Rightarrow> string option \<Rightarrow> ClassifiedFailure" where
  "classify h original x phase agent conn =
     (let raw_message = raw_message_of h x; parts = detail_parts_of h x;
          (category0, counts0, reset_session) = categorize h (failure_exc x) raw_message parts conn;
          watchdog_reason = watchdog_reason_of h x;
          reset_tool_registry = is_tool_availability_failure (map_option ((!) h) (failure_exc x)) parts;
          upgrade = (reset_tool_registry \<and> category0 \<notin> {AGENT, ENVIRONMENTAL});
          category = (if upgrade then AGENT else category0);
          counts = (if upgrade then True else counts0);
          child_alive = child_alive_of h x;
          resumable_session_id = resumable_session_id_of h x;
          unavailable = base_unavailable h x category reset_tool_registry conn;
          resumable_kill = (unavailable \<and> watchdog_reason = Some ''no_output_at_start''
                            \<and> resumable_session_id \<noteq> None);
          is_unavailable = (unavailable \<and> \<not> resumable_kill);
          unavailability_reason =
            (if is_broken_agent h x then Some BROKEN_AGENT
             else if is_unavailable
               then classify_unavailability_reason watchdog_reason parts raw_message conn child_alive
             else None)
      in \<lparr>cf_category = category, cf_reason = build_reason category raw_message,
          cf_attributed_agent = (if category = AGENT then agent else None),
          cf_attributed_phase = phase, cf_counts_against_budget = counts,
          cf_original_exception = original, cf_raw_message = raw_message,
          cf_reset_session = reset_session, cf_reset_tool_registry = reset_tool_registry,
          cf_is_unavailable = is_unavailable, cf_watchdog_reason = watchdog_reason,
          cf_unavailability_reason = unavailability_reason,
          cf_resumable_session_id = resumable_session_id\<rparr>)"

definition should_reset_tool_registry :: "exc_heap \<Rightarrow> nat \<Rightarrow> string \<Rightarrow> string option \<Rightarrow> bool" where
  "should_reset_tool_registry h r phase agent =
     cf_reset_tool_registry (classify h None (Raised r) phase agent None)"

text \<open>
  The classifier as the controller calls it, with the connectivity state of the run: \<open>ref\<close> says where in
  the heap the exception object is that the controller was handed.
\<close>

definition failure_of :: "(RawFailure \<Rightarrow> nat) \<Rightarrow> RawFailure \<Rightarrow> Failure" where
  "failure_of ref raw = (case raw of RawMessage m \<Rightarrow> Message m | _ \<Rightarrow> Raised (ref raw))"

definition controller_classifier :: "exc_heap \<Rightarrow> (RawFailure \<Rightarrow> nat) \<Rightarrow> classifier" where
  "controller_classifier h ref raw phase agent conn =
     classify h (case raw of RawMessage m \<Rightarrow> None | _ \<Rightarrow> Some raw) (failure_of ref raw) phase agent (Some conn)"

section \<open>The walk finds the nearest typed cause\<close>

text \<open>
  The contract of the walk, without its bookkeeping: \<open>nearest_kill h r w\<close> says that \<open>w\<close> is the first
  watchdog kill on the chain of causes that starts at \<open>r\<close>.
\<close>

inductive nearest_kill :: "exc_heap \<Rightarrow> nat \<Rightarrow> nat \<Rightarrow> bool" for h where
  here: "r < length h \<Longrightarrow> is_watchdog_kill (h ! r) \<Longrightarrow> nearest_kill h r r"
| there: "r < length h \<Longrightarrow> \<not> is_watchdog_kill (h ! r) \<Longrightarrow> next_exc (h ! r) = Some r'
    \<Longrightarrow> nearest_kill h r' w \<Longrightarrow> nearest_kill h r w"

inductive_cases nearest_killE: "nearest_kill h r w"

lemma nearest_kill_kills: "nearest_kill h r w \<Longrightarrow> is_watchdog_kill (h ! w) \<and> w < length h"
  by (induction rule: nearest_kill.induct) auto

lemma no_kill_in_closed_set:
  assumes "nearest_kill h r w" and "r \<in> V"
    and "\<And>v. v \<in> V \<Longrightarrow> \<not> is_watchdog_kill (h ! v)"
    and "\<And>v r'. v \<in> V \<Longrightarrow> next_exc (h ! v) = Some r' \<Longrightarrow> r' \<in> V"
  shows False
  using assms by (induction rule: nearest_kill.induct) auto

lemma watchdog_walk_sound: "watchdog_walk h visited (Some r) = Some w \<Longrightarrow> nearest_kill h r w"
proof (induction h visited "Some r" arbitrary: r rule: watchdog_walk.induct)
  case (1 h visited)
  show ?case
  proof (cases "is_watchdog_kill (h ! r)")
    case True
    with "1.prems" show ?thesis
      by (auto simp: watchdog_walk.simps [of h visited] intro: nearest_kill.here split: if_splits)
  next
    case False
    with "1.prems" have r: "r \<notin> set visited" "r < length h"
      and w: "watchdog_walk h (r # visited) (next_exc (h ! r)) = Some w"
      by (auto simp: watchdog_walk.simps [of h visited] split: if_splits)
    from w obtain r' where r': "next_exc (h ! r) = Some r'"
      by (cases "next_exc (h ! r)") (auto simp: watchdog_walk.simps)
    with 1(1) [of r r'] w r False have "nearest_kill h r' w" by simp
    with r False r' show ?thesis by (blast intro: nearest_kill.there)
  qed
qed

lemma watchdog_walk_complete:
  assumes "nearest_kill h r w"
    and "\<forall>v \<in> set visited. \<not> is_watchdog_kill (h ! v)"
    and "\<forall>v \<in> set visited. next_exc (h ! v) \<in> insert None (insert (Some r) (Some ` set visited))"
  shows "watchdog_walk h visited (Some r) = Some w"
  using assms
proof (induction arbitrary: visited rule: nearest_kill.induct)
  case (here r)
  then show ?case by (auto simp: watchdog_walk.simps [of h visited])
next
  case (there r r' w)
  have "r \<notin> set visited"
  proof
    assume "r \<in> set visited"
    moreover have "nearest_kill h r w" using there.hyps by (blast intro: nearest_kill.there)
    ultimately show False
      using no_kill_in_closed_set [of h r w "set visited"] there.prems by fastforce
  qed
  moreover have "watchdog_walk h (r # visited) (Some r') = Some w"
    using there.prems there.hyps by (intro there.IH) auto
  ultimately show ?case using there.hyps by (simp add: watchdog_walk.simps [of h visited])
qed

lemma find_typed_watchdog_cause_iff:
  assumes "r < length h"
  shows "find_typed_watchdog_cause h r = Some w \<longleftrightarrow> nearest_kill h r w"
proof (cases "is_watchdog_kill (h ! r)")
  case True
  with assms show ?thesis
    by (auto simp: find_typed_watchdog_cause_def intro: nearest_kill.here elim: nearest_killE)
next
  case False
  show ?thesis
  proof (cases "next_exc (h ! r)")
    case None
    with False show ?thesis
      by (auto simp: find_typed_watchdog_cause_def watchdog_walk.simps elim: nearest_killE)
  next
    case (Some r')
    have "watchdog_walk h [r] (Some r') = Some w \<longleftrightarrow> nearest_kill h r' w"
      using watchdog_walk_sound watchdog_walk_complete [of h r' w "[r]"] False Some by auto
    moreover have "nearest_kill h r w \<longleftrightarrow> nearest_kill h r' w"
      using False Some assms by (auto intro: nearest_kill.there elim: nearest_killE)
    ultimately show ?thesis using False Some by (simp add: find_typed_watchdog_cause_def)
  qed
qed

section \<open>Verdicts\<close>

text \<open>Only agent failures count against a budget, and only those reset the session.\<close>

definition fair_verdict :: "verdict \<Rightarrow> bool" where
  "fair_verdict v = (case v of (c, counts, reset_session) \<Rightarrow> (counts \<longrightarrow> c = AGENT) \<and> (reset_session \<longrightarrow> counts))"

lemma fair_verdict_simps [simp]:
  "fair_verdict (c, counts, rs) \<longleftrightarrow> (counts \<longrightarrow> c = AGENT) \<and> (rs \<longrightarrow> counts)"
  by (simp add: fair_verdict_def)

lemma exc_verdict_fair: "categorize_exc h r m parts conn = Some v \<Longrightarrow> fair_verdict v"
  by (auto simp: categorize_exc_def classify_agent_invocation_error_def Let_def split: if_splits)

lemma typed_exit_verdict_fair: "fair_verdict (dict_get_or TYPED_EXIT_REASON_CATEGORIES k (AGENT, False, False))"
  by (simp add: TYPED_EXIT_REASON_CATEGORIES_def dict_get_or_def)

lemma message_checks_fair: "(b, v) \<in> set (message_checks m parts conn) \<Longrightarrow> fair_verdict v"
  unfolding message_checks_def using typed_exit_verdict_fair [of "str_strip m"] by auto

lemma message_verdict_fair: "classify_message_only_failure m parts conn = Some v \<Longrightarrow> fair_verdict v"
  unfolding classify_message_only_failure_def find_Some_iff map_option_eq_Some
  using message_checks_fair by (metis nth_mem prod.collapse)

lemma categorize_fair: "fair_verdict (categorize h x m parts conn)"
  by (auto simp: categorize_def split: option.splits dest: exc_verdict_fair message_verdict_fair)

lemma typed_cause_verdict:
  "find_typed_watchdog_cause h r = Some w \<Longrightarrow> categorize h (Some r) m parts conn = (AGENT, True, False)"
  by (simp add: categorize_def categorize_exc_def)

lemma watchdog_reasons_iff:
  "w \<in> set WATCHDOG_UNAVAILABILITY_REASONS \<longleftrightarrow> w = ''no_output_at_start'' \<or> w = ''children_persist_too_long''"
  by (simp only: WATCHDOG_UNAVAILABILITY_REASONS_def set_simps insert_iff empty_iff simp_thms)

lemma no_unavailability_reason:
  assumes "classify_unavailability_reason w parts m conn alive = None"
  shows "w \<noteq> Some ''no_output_at_start''" and "w \<noteq> Some ''children_persist_too_long''"
    and "w = Some ''no_progress_quiet'' \<Longrightarrow> alive = Some True"
    and "\<not> contains_casefolded_marker parts POST_TOOL_EMPTY_RESPONSE_SUBSTRINGS"
    and "\<not> is_unavailable_agent_message m"
    and "w \<noteq> Some ''no_progress_quiet'' \<Longrightarrow> is_online conn \<Longrightarrow> \<not> is_subscription_limit_message parts"
  using assms unfolding classify_unavailability_reason_def connectivity_unavailability_reason_def Let_def
  by (simp_all split: if_split_asm)

lemma unavailability_reason_given:
  assumes "base_unavailable h x c rt conn" and "\<not> is_broken_agent h x"
  shows "classify_unavailability_reason (watchdog_reason_of h x) (detail_parts_of h x) (raw_message_of h x)
           conn (child_alive_of h x) \<noteq> None"
proof
  assume none: "classify_unavailability_reason (watchdog_reason_of h x) (detail_parts_of h x) (raw_message_of h x)
           conn (child_alive_of h x) = None"
  note n = no_unavailability_reason [OF none]
  have "\<not> (case watchdog_reason_of h x of None \<Rightarrow> False
          | Some w \<Rightarrow> w \<in> set WATCHDOG_UNAVAILABILITY_REASONS \<and> w \<noteq> ''no_progress_quiet'')"
    using n(1,2) by (auto simp only: watchdog_reasons_iff split: option.splits)
  moreover have "watchdog_reason_of h x = Some ''no_progress_quiet'' \<Longrightarrow> child_alive_of h x \<notin> {Some False, None}"
    using n(3) by simp
  ultimately show False using assms n(3-6) unfolding base_unavailable_def Let_def by blast
qed

text \<open>The class hierarchy: a broken-agent exit is no network or operating-system error.\<close>

definition agent_exits_ok :: "exc_heap \<Rightarrow> Failure \<Rightarrow> bool" where
  "agent_exits_ok h x \<longleftrightarrow> (case x of Message m \<Rightarrow> True
     | Raised r \<Rightarrow> r < length h \<and> (is_broken_agent h x \<longrightarrow> \<not> is_environmental_exc (h ! r)))"

lemma broken_agent_verdict:
  assumes "is_broken_agent h x" and "agent_exits_ok h x"
  shows "fst (categorize h (failure_exc x) m parts conn) = AGENT"
  using assms
  by (auto simp: is_broken_agent_def has_class_def agent_exits_ok_def failure_exc_def categorize_def
      categorize_exc_def is_user_config_exc_def ARTIFACT_VALIDATION_TYPE_NAMES_def Let_def split: Failure.splits)

lemma broken_agent_no_watchdog: "is_broken_agent h x \<Longrightarrow> watchdog_reason_of h x = None"
  by (auto simp: is_broken_agent_def has_class_def watchdog_reason_of_def split: Failure.splits)

subsection \<open>The fields of a classification\<close>

definition category_of :: "exc_heap \<Rightarrow> Failure \<Rightarrow> string option \<Rightarrow> verdict" where
  "category_of h x conn =
     (let (c, n, rs) = categorize h (failure_exc x) (raw_message_of h x) (detail_parts_of h x) conn
      in if is_tool_availability_failure (map_option ((!) h) (failure_exc x)) (detail_parts_of h x)
            \<and> c \<notin> {AGENT, ENVIRONMENTAL}
         then (AGENT, True, rs) else (c, n, rs))"

lemma category_of_fair: "fair_verdict (category_of h x conn)"
  using categorize_fair [of h "failure_exc x" "raw_message_of h x" "detail_parts_of h x" conn]
  by (auto simp: category_of_def split: prod.splits)

lemma classify_fields:
  fixes f :: ClassifiedFailure
  assumes "f = classify h orig x phase agent conn"
  shows "(cf_category f, cf_counts_against_budget f, cf_reset_session f) = category_of h x conn"
    and "cf_reset_tool_registry f = is_tool_availability_failure (map_option ((!) h) (failure_exc x)) (detail_parts_of h x)"
    and "cf_watchdog_reason f = watchdog_reason_of h x"
    and "cf_resumable_session_id f = resumable_session_id_of h x"
    and "cf_attributed_agent f = (if cf_category f = AGENT then agent else None)"
    and "cf_is_unavailable f \<longleftrightarrow> base_unavailable h x (cf_category f) (cf_reset_tool_registry f) conn
           \<and> \<not> (watchdog_reason_of h x = Some ''no_output_at_start'' \<and> resumable_session_id_of h x \<noteq> None)"
    and "cf_unavailability_reason f =
           (if is_broken_agent h x then Some BROKEN_AGENT
            else if cf_is_unavailable f
              then classify_unavailability_reason (watchdog_reason_of h x) (detail_parts_of h x)
                     (raw_message_of h x) conn (child_alive_of h x)
            else None)"
  unfolding assms classify_def category_of_def Let_def by (auto split: prod.splits)

section \<open>Properties of the classifier\<close>

text \<open>
  C15. A watchdog kill is classified by its type, whatever texts the exceptions of its chain carry
  and however the chain of causes is linked, cycles included: the first kill on the walk along the chain makes it
  an agent failure that counts, without a session reset; the session it was running is the one to be
  resumed, and then a missing first output does not make the agent unavailable; when the run is online and the tools
  are intact, a kill for lack of progress puts the agent on cooldown exactly when no live child was seen.
\<close>

theorem watchdog_kill_classified_by_type:
  fixes f :: ClassifiedFailure
  assumes "r < length h" and "nearest_kill h r w"
    and "f = classify h orig (Raised r) phase agent conn"
  shows "cf_category f = AGENT \<and> cf_counts_against_budget f \<and> \<not> cf_reset_session f
    \<and> cf_attributed_agent f = agent
    \<and> (\<forall>i. ex_resumable_session_id (h ! w) = Some i \<and> i \<noteq> [] \<longrightarrow> cf_resumable_session_id f = Some i
         \<and> (cf_watchdog_reason f = Some ''no_output_at_start'' \<longrightarrow> \<not> cf_is_unavailable f))
    \<and> (cf_watchdog_reason f = Some ''no_progress_quiet'' \<and> is_online conn \<and> \<not> cf_reset_tool_registry f
         \<longrightarrow> (cf_is_unavailable f \<longleftrightarrow> ex_child_alive (h ! w) \<noteq> Some True))"
proof -
  note fields = classify_fields [OF assms(3)]
  have w: "find_typed_watchdog_cause h r = Some w"
    using assms(1,2) by (simp add: find_typed_watchdog_cause_iff)
  have cat: "category_of h (Raised r) conn = (AGENT, True, False)"
    by (simp add: category_of_def failure_exc_def typed_cause_verdict [OF w])
  have alive: "child_alive_of h (Raised r) = ex_child_alive (h ! w)"
    by (simp add: child_alive_of_def w)
  have sess: "resumable_session_id_of h (Raised r) = Some i"
    if "ex_resumable_session_id (h ! w) = Some i \<and> i \<noteq> []" for i
    using that by (simp add: resumable_session_id_of_def w nonempty_text_def)
  have quiet: "cf_is_unavailable f \<longleftrightarrow> ex_child_alive (h ! w) \<noteq> Some True"
    if q: "cf_watchdog_reason f = Some ''no_progress_quiet''" and "is_online conn" "\<not> cf_reset_tool_registry f"
  proof -
    have "\<not> is_broken_agent h (Raised r)"
      using q fields(3) broken_agent_no_watchdog [of h "Raised r"] by auto
    moreover have "''no_progress_quiet'' \<notin> set WATCHDOG_UNAVAILABILITY_REASONS"
      by (simp add: WATCHDOG_UNAVAILABILITY_REASONS_def)
    ultimately show ?thesis
      using that cat fields(1,3,6) by (auto simp: base_unavailable_def Let_def alive)
  qed
  show ?thesis
    using cat fields(1,3-6) sess quiet by auto
qed

definition plain_exception :: "string \<Rightarrow> string list \<Rightarrow> string \<Rightarrow> PyException" where
  "plain_exception cls bases text =
     \<lparr>ex_class = cls, ex_bases = cls # bases, ex_str = text, ex_stderr = None, ex_parsed_output = [],
      ex_errno = None, ex_reason = None, ex_child_alive = None, ex_resumable_session_id = None,
      ex_cause = None, ex_context = None\<rparr>"

definition demo_heap :: exc_heap where
  "demo_heap =
     [(plain_exception ''AgentInactivityTimeoutError'' [''AgentInvocationError'', ''Exception''] ''Connection timed out'')
        \<lparr>ex_reason := Some ''no_output_at_start'', ex_cause := Some 1\<rparr>,
      (plain_exception ''_IdleStreamTimeoutError'' [''RuntimeError'', ''Exception''] ''stream'')\<lparr>ex_cause := Some 2\<rparr>,
      (plain_exception ''IdleWatchdogKilledError'' [''Exception''] ''Network is unreachable'')
        \<lparr>ex_resumable_session_id := Some ''s-7'', ex_context := Some 0\<rparr>]"

lemma demo_heap_kill: "nearest_kill demo_heap 0 2"
proof -
  have h: "length demo_heap = 3" "\<not> is_watchdog_kill (demo_heap ! 0)" "\<not> is_watchdog_kill (demo_heap ! 1)"
    "is_watchdog_kill (demo_heap ! 2)" "next_exc (demo_heap ! 0) = Some 1" "next_exc (demo_heap ! 1) = Some 2"
    by code_simp+
  then have "nearest_kill demo_heap 2 2" by (intro nearest_kill.here) simp_all
  with h have "nearest_kill demo_heap 1 2" by (intro nearest_kill.there [of 1 _ 2]) simp_all
  with h show ?thesis by (intro nearest_kill.there [of 0 _ 1]) simp_all
qed

theorem watchdog_kill_classified_by_type_witness:
  "cf_category (classify demo_heap None (Raised 0) ''dev'' (Some ''pi'') (Some ''online'')) = AGENT
   \<and> cf_resumable_session_id (classify demo_heap None (Raised 0) ''dev'' (Some ''pi'') (Some ''online'')) = Some ''s-7''
   \<and> \<not> cf_is_unavailable (classify demo_heap None (Raised 0) ''dev'' (Some ''pi'') (Some ''online''))"
proof -
  have "0 < length demo_heap" "ex_resumable_session_id (demo_heap ! 2) = Some ''s-7''"
    "cf_watchdog_reason (classify demo_heap None (Raised 0) ''dev'' (Some ''pi'') (Some ''online'')) = Some ''no_output_at_start''"
    by code_simp+
  with watchdog_kill_classified_by_type [OF _ demo_heap_kill refl, of None "''dev''" "Some ''pi''" "Some ''online''"]
  show ?thesis by simp
qed

lemma classified_fields_consistent:
  fixes f :: ClassifiedFailure
  assumes "agent_exits_ok h x" and "f = classify h orig x phase agent conn"
  shows "(cf_is_unavailable f \<longleftrightarrow> cf_unavailability_reason f \<noteq> None)
    \<and> (cf_is_unavailable f \<longrightarrow> cf_category f = AGENT
         \<and> (is_broken_agent h x \<or> is_online conn \<and> \<not> cf_reset_tool_registry f))
    \<and> (cf_counts_against_budget f \<longrightarrow> cf_category f = AGENT \<and> cf_attributed_agent f = agent)
    \<and> (cf_reset_session f \<longrightarrow> cf_counts_against_budget f)"
proof -
  note fields = classify_fields [OF assms(2)]
  have broken: "cf_category f = AGENT \<and> cf_is_unavailable f" if b: "is_broken_agent h x"
  proof
    have "fst (category_of h x conn) = AGENT"
      using broken_agent_verdict [OF b assms(1), of "raw_message_of h x" "detail_parts_of h x" conn]
      by (auto simp: category_of_def split: prod.splits)
    then show "cf_category f = AGENT" using fields(1) [symmetric] by simp
    show "cf_is_unavailable f"
      using b broken_agent_no_watchdog [OF b] fields(6) by (simp add: base_unavailable_def Let_def)
  qed
  have "cf_category f = AGENT \<and> is_online conn \<and> \<not> cf_reset_tool_registry f
      \<and> cf_unavailability_reason f \<noteq> None" if "cf_is_unavailable f" "\<not> is_broken_agent h x"
    using that fields(6,7) unavailability_reason_given [OF _ that(2)]
    by (auto simp: base_unavailable_def Let_def)
  moreover have "(cf_counts_against_budget f \<longrightarrow> cf_category f = AGENT) \<and> (cf_reset_session f \<longrightarrow> cf_counts_against_budget f)"
    using category_of_fair [of h x conn] fields(1) [symmetric] by simp
  moreover have "cf_unavailability_reason f \<noteq> None \<longrightarrow> cf_is_unavailable f"
    using broken fields(7) by (metis (full_types))
  moreover have "is_broken_agent h x \<Longrightarrow> cf_unavailability_reason f \<noteq> None"
    using fields(7) by simp
  moreover have "cf_category f = AGENT \<Longrightarrow> cf_attributed_agent f = agent"
    using fields(5) by simp
  ultimately show ?thesis using broken by blast
qed

text \<open>
  C26. A classification is consistent. An agent is reported unavailable exactly when a reason for it is
  given, only for agent failures, and, unless the agent exited as broken, only while the network is
  known to be up and the tools are intact; a failure that counts against a budget is an agent
  failure attributed to the agent, and the session is reset only for such a failure.
\<close>

theorem classification_consistent:
  fixes f :: ClassifiedFailure
  assumes "agent_exits_ok h x" and "f = classify h orig x phase agent conn"
  shows "(cf_is_unavailable f \<longleftrightarrow> cf_unavailability_reason f \<noteq> None)
    \<and> (cf_is_unavailable f \<longrightarrow> cf_category f = AGENT
         \<and> (is_broken_agent h x \<or> is_online conn \<and> \<not> cf_reset_tool_registry f))
    \<and> (cf_counts_against_budget f \<longrightarrow> cf_category f = AGENT \<and> cf_attributed_agent f = agent)
    \<and> (cf_reset_session f \<longrightarrow> cf_counts_against_budget f)"
  using classified_fields_consistent [OF assms] .

definition broken_heap :: exc_heap where
  "broken_heap = [plain_exception ''BrokenAgentExitError'' [''AgentInvocationError'', ''Exception''] ''no output'']"

theorem classification_consistent_witness:
  "cf_unavailability_reason (classify broken_heap None (Raised 0) ''dev'' (Some ''pi'') None) = Some BROKEN_AGENT
   \<and> cf_is_unavailable (classify broken_heap None (Raised 0) ''dev'' (Some ''pi'') None)
   \<and> cf_category (classify broken_heap None (Raised 0) ''dev'' (Some ''pi'') None) = AGENT"
proof -
  have "agent_exits_ok broken_heap (Raised 0)" by code_simp
  note consistent = classification_consistent [OF this refl, of None "''dev''" "Some ''pi''" None]
  have "is_broken_agent broken_heap (Raised 0)" by code_simp
  then have "cf_unavailability_reason (classify broken_heap None (Raised 0) ''dev'' (Some ''pi'') None) = Some BROKEN_AGENT"
    by (simp add: classify_fields(7) [OF refl])
  with consistent show ?thesis by blast
qed

text \<open>
  C9. Never exit for unavailability, with the real classifier. The failure comes without a classification, an exception
  of a broken agent is no network or operating-system error, the back-off policies are valid and the cooldown store lists
  an agent once. The classifier reports the failing agent, one of the chain of the phase, unavailable and every other
  agent of the chain is on cooldown. The readings of the clock in the step come after the
  mark of the agent, less than its base back-off later, and before a cooldown of another agent ends. Below the
  recovery cap, for a failure that is neither an in-session retry nor a broken-agent failure of a sole agent, the
  controller keeps the phase, emits no exit, does not count a recovery cycle, raises the wait flag, and the wait it asks
  for is positive and ends with some agent of the chain available again. The budget of no agent changes.
\<close>

theorem classified_unavailability_never_exits:
  fixes f :: ClassifiedFailure
  assumes "f = controller_classifier h ref raw (fc_phase ctx) (fc_agent ctx) (ps_last_connectivity_state s)"
    and "fc_classified_failure ctx = None" and "agent_exits_ok h (failure_of ref raw)" and "cf_is_unavailable f"
    and "fc_agent ctx = Some a" and "chain_for_phase s (fc_phase ctx) = Some c" and "a \<in> set (acs_agents c)"
    and "\<forall>b \<in> set (acs_agents c). \<forall>n \<in> later_reads ck b. ck_mark_ms ck \<le> n
      \<and> (if b = a then n < ck_mark_ms ck + base_backoff_ms (backoff_policy_for (rc_tracker rc) (cf_unavailability_reason f))
         else \<not> is_available (fc_phase ctx) b n (rc_tracker rc))"
    and "\<forall>r. backoff_policy_valid (backoff_policy_for (rc_tracker rc) (Some r))"
    and "distinct_entries (rc_tracker rc)"
    and "broken_agent_reason f = None \<or> length (acs_agents c) \<noteq> 1" and "\<not> fc_retry_in_session ctx"
    and "ps_recovery_cycle_count s < rc_cap rc"
  shows "\<exists>rc' s' evt'. handle (controller_classifier h ref) ck rc s raw ctx = Inr (rc', s', [], evt')
    \<and> ps_phase s' = ps_phase s \<and> ps_is_waiting_state s'
    \<and> ps_recovery_cycle_count s' = ps_recovery_cycle_count s
    \<and> 0 < ps_last_retry_delay_ms s'
    \<and> (\<exists>b \<in> set (acs_agents c). is_available (fc_phase ctx) b (ck_wait_ms ck + ps_last_retry_delay_ms s')
         (fst (mark_unavailable (fc_phase ctx) a (cf_unavailability_reason f) (ck_mark_ms ck) (rc_tracker rc))))
    \<and> (\<forall>ph b. registry_get (rc_registry rc') ph b = registry_get (rc_registry rc) ph b)"
proof -
  have f: "handled_failure (controller_classifier h ref) s raw ctx = f"
    using assms(1,2) by (simp add: handled_failure_def)
  note consistent = classified_fields_consistent [OF assms(3), of f _ "fc_phase ctx" "fc_agent ctx"
      "Some (ps_last_connectivity_state s)"]
  have cat: "cf_category f = AGENT" and reason: "cf_unavailability_reason f \<noteq> None"
    using consistent assms(1,4) by (auto simp: controller_classifier_def)
  obtain r where r: "cf_unavailability_reason f = Some r" using reason by blast
  obtain rc' s' evt' where ok: "handle (controller_classifier h ref) ck rc s raw ctx = Inr (rc', s', [], evt')"
    and rest: "ps_phase s' = ps_phase s" "ps_is_waiting_state s'"
      "ps_recovery_cycle_count s' = ps_recovery_cycle_count s" "0 < ps_last_retry_delay_ms s'"
      "\<exists>b \<in> set (acs_agents c). is_available (fc_phase ctx) b (ck_wait_ms ck + ps_last_retry_delay_ms s')
         (fst (mark_unavailable (fc_phase ctx) a (cf_unavailability_reason f) (ck_mark_ms ck) (rc_tracker rc)))"
    using never_exit_for_unavailability [OF f cat assms(4-8) _ assms(10-13)] assms(9) r by auto
  have "rc_registry rc' = charged_registry rc f ctx"
    using handle_spec [of rc s "controller_classifier h ref" raw ctx ck] ok f by (simp add: handled_ok_def)
  then have "rc_registry rc' = rc_registry rc" using assms(4) by (auto simp: charged_registry_def split: option.splits)
  with ok rest show ?thesis by auto
qed

definition quiet_heap :: exc_heap where
  "quiet_heap = [(plain_exception ''AgentInactivityTimeoutError'' [''AgentInvocationError'', ''Exception''] ''quiet'')
     \<lparr>ex_reason := Some ''no_progress_quiet''\<rparr>]"

definition quiet_run :: PipelineState where
  "quiet_run = (demo_run [''claude''])\<lparr>ps_last_connectivity_state := ''online''\<rparr>"

definition quiet_context :: FailureContext where
  "quiet_context = \<lparr>fc_phase = ''development'', fc_agent = Some ''claude'', fc_retry_in_session = False,
                    fc_classified_failure = None\<rparr>"

theorem classified_unavailability_never_exits_witness:
  "\<exists>rc' s' evt'. handle (controller_classifier quiet_heap (\<lambda>_. 0)) demo_clock (demo_controller 200 [''claude''])
        quiet_run (OtherException ''AgentInactivityTimeoutError'' ''quiet'') quiet_context = Inr (rc', s', [], evt')
     \<and> ps_is_waiting_state s' \<and> 0 < ps_last_retry_delay_ms s'"
proof -
  let ?raw = "OtherException ''AgentInactivityTimeoutError'' ''quiet''"
  define f where "f = controller_classifier quiet_heap (\<lambda>_. 0) ?raw (fc_phase quiet_context) (fc_agent quiet_context)
    (ps_last_connectivity_state quiet_run)"
  have base: "base_backoff_ms (backoff_policy_for (new_tracker None [] []) (cf_unavailability_reason f)) > 2"
    and ok: "agent_exits_ok quiet_heap (failure_of (\<lambda>_. 0) ?raw)" and un: "cf_is_unavailable f"
    unfolding f_def by code_simp+
  note facts = demo_waiting_hypotheses [OF base]
  have valid: "\<forall>r. backoff_policy_valid (backoff_policy_for (rc_tracker (demo_controller 200 [''claude''])) (Some r))"
  proof
    fix r show "backoff_policy_valid (backoff_policy_for (rc_tracker (demo_controller 200 [''claude''])) (Some r))"
      unfolding facts(3) by (cases r; hypsubst) code_simp+
  qed
  have chain: "chain_for_phase quiet_run (fc_phase quiet_context)
      = Some \<lparr>acs_agents = [''claude''], acs_current_index = 0, acs_retries = 0\<rparr>"
    by (simp add: quiet_run_def demo_run_def quiet_context_def chain_for_phase_def with_phase_chain_def)
  have ctx: "fc_classified_failure quiet_context = None" "fc_agent quiet_context = Some ''claude''"
      "''claude'' \<in> set (acs_agents \<lparr>acs_agents = [''claude''], acs_current_index = 0, acs_retries = 0\<rparr>)"
      "\<not> fc_retry_in_session quiet_context"
    by (simp_all add: quiet_context_def)
  have "broken_agent_reason f = None"
    by (simp add: f_def controller_classifier_def classify_def broken_agent_reason_def Let_def split: prod.splits)
  then have sole: "broken_agent_reason f = None
      \<or> length (acs_agents \<lparr>acs_agents = [''claude''], acs_current_index = 0, acs_retries = 0\<rparr>) \<noteq> 1" by (rule disjI1)
  have cap: "ps_recovery_cycle_count quiet_run < rc_cap (demo_controller 200 [''claude''])"
    by (simp add: facts(4) quiet_run_def demo_run_def with_phase_chain_def from_policy_def)
  show ?thesis
    using classified_unavailability_never_exits [OF f_def ctx(1) ok un ctx(2) chain ctx(3) facts(1) valid facts(2)
        sole ctx(4) cap] by blast
qed

end
