(* ===== verification/Integration_State.thy ===== *)
theory Integration_State
  imports Ralph_Prelude
begin

text \<open>
  What auto-integration remembers and decides without touching a repository: the integration record of
  a run (\<^verbatim>\<open>ralph/pipeline/rebase_state.py\<close>), the outcome table (\<^verbatim>\<open>auto_integrate_outcome.py\<close>), the budget
  of conflict resolutions (\<^verbatim>\<open>auto_integrate_conflict_budget.py\<close>), the evidence that survives a seam
  (\<^verbatim>\<open>auto_integrate_resolution_state.py\<close>), the dispatch gate (\<^verbatim>\<open>integration_resolution.py\<close>) and the
  wait between landings (\<^verbatim>\<open>auto_integrate_backoff.py\<close>).
\<close>

section \<open>The integration record\<close>

record RebaseState =
  rb_pending :: bool
  rb_in_progress :: bool
  rb_completed :: bool
  rb_last_action :: "string option"
  rb_last_reason :: "string option"
  rb_last_target :: "string option"
  rb_fast_forwarded :: bool
  rb_last_refresh :: "string option"
  rb_freshness_verdict :: "string option"
  rb_freshness_source :: "string option"
  rb_freshness_safe :: bool
  rb_freshness_target_sha :: "string option"
  rb_reclaimed_worktree_path :: "string option"
  rb_reclaim_snapshot_ref :: "string option"
  rb_reclaim_discarded_path_count :: int
  rb_last_push :: "string option"
  rb_last_remote_sync :: "string option"
  rb_last_remote :: "string option"
  rb_last_push_status :: "string option"
  rb_consecutive_conflicts :: int
  rb_last_conflict_feature_sha :: "string option"
  rb_last_conflict_target_sha :: "string option"
  rb_last_conflict_paths :: "string list"
  rb_last_conflict_stage_oids :: "string list"
  rb_last_conflict_scope :: string
  rb_recovery_record_retained :: bool
  rb_resolution_exhausted :: bool
  rb_resolution_exhaustion_reason :: "string option"
  rb_unresolved_integration_carried :: bool
  rb_legacy_checkpoint_blocked :: bool
  rb_legacy_phase :: "string option"
  rb_legacy_conflicted_files :: "string list"
  rb_legacy_resolved_files :: "string list"
  rb_legacy_error_count :: int
  rb_legacy_timestamp :: "string option"
  rb_legacy_source :: "string option"

definition new_rebase_state :: RebaseState where
  "new_rebase_state =
     \<lparr>rb_pending = False, rb_in_progress = False, rb_completed = False, rb_last_action = None,
      rb_last_reason = None, rb_last_target = None, rb_fast_forwarded = False, rb_last_refresh = None,
      rb_freshness_verdict = None, rb_freshness_source = None, rb_freshness_safe = True,
      rb_freshness_target_sha = None, rb_reclaimed_worktree_path = None, rb_reclaim_snapshot_ref = None,
      rb_reclaim_discarded_path_count = 0, rb_last_push = None, rb_last_remote_sync = None,
      rb_last_remote = None, rb_last_push_status = None, rb_consecutive_conflicts = 0,
      rb_last_conflict_feature_sha = None, rb_last_conflict_target_sha = None,
      rb_last_conflict_paths = [], rb_last_conflict_stage_oids = [], rb_last_conflict_scope = [],
      rb_recovery_record_retained = False, rb_resolution_exhausted = False,
      rb_resolution_exhaustion_reason = None, rb_unresolved_integration_carried = False,
      rb_legacy_checkpoint_blocked = False, rb_legacy_phase = None, rb_legacy_conflicted_files = [],
      rb_legacy_resolved_files = [], rb_legacy_error_count = 0, rb_legacy_timestamp = None,
      rb_legacy_source = None\<rparr>"

definition integration_unresolved :: "RebaseState \<Rightarrow> bool" where
  "integration_unresolved s \<longleftrightarrow>
     rb_last_action s = Some ''conflict'' \<or> rb_recovery_record_retained s
     \<or> rb_legacy_checkpoint_blocked s \<or> rb_unresolved_integration_carried s"

section \<open>Outcomes\<close>

definition ACTION_SKIPPED :: string where "ACTION_SKIPPED = ''skipped''"

definition ACTION_REBASED :: string where "ACTION_REBASED = ''rebased''"

definition ACTION_MERGED :: string where "ACTION_MERGED = ''merged''"

definition ACTION_CONFLICT :: string where "ACTION_CONFLICT = ''conflict''"

definition RESOLUTION_FAILED :: string where "RESOLUTION_FAILED = ''resolution_failed''"

definition record_skip :: "string \<Rightarrow> string option \<Rightarrow> RebaseState" where
  "record_skip reason target = new_rebase_state
     \<lparr>rb_last_action := Some ACTION_SKIPPED, rb_last_reason := Some reason, rb_last_target := target\<rparr>"

definition record_conflict :: "string \<Rightarrow> string option \<Rightarrow> RebaseState" where
  "record_conflict reason target = new_rebase_state
     \<lparr>rb_last_action := Some ACTION_CONFLICT, rb_last_reason := Some reason, rb_last_target := target\<rparr>"

definition record_resolution_exhausted :: "string \<Rightarrow> string option \<Rightarrow> RebaseState" where
  "record_resolution_exhausted reason target = new_rebase_state
     \<lparr>rb_last_action := Some ACTION_CONFLICT, rb_last_reason := Some reason, rb_last_target := target,
      rb_resolution_exhausted := True, rb_resolution_exhaustion_reason := Some reason\<rparr>"

datatype RebaseResult = RebaseSuccess | RebaseConflicts "string list" | RebaseNoOp string | RebaseFailed string

record MergeResult =
  mr_outcome :: string
  mr_reason :: "string option"

type_synonym headline = "string \<times> string option"

definition classify_rebase_conflict_outcome :: "bool \<Rightarrow> MergeResult option \<Rightarrow> headline option" where
  "classify_rebase_conflict_outcome merge_attempted merge_outcome =
     (case merge_outcome of None \<Rightarrow> None
      | Some m \<Rightarrow>
          if \<not> merge_attempted then None
          else if mr_outcome m = RESOLUTION_FAILED then
            Some (ACTION_CONFLICT, Some (case mr_reason m of
                Some d \<Rightarrow> if d \<noteq> [] then ''conflict resolution did not complete ('' @ d @ ''); merge aborted''
                          else ''conflict resolution failed; merge aborted''
              | None \<Rightarrow> ''conflict resolution failed; merge aborted''))
          else if mr_outcome m = ''conflict'' then
            Some (ACTION_CONFLICT, Some ''rebase and endpoint merge both conflicted'')
          else if mr_outcome m \<in> {''success'', ''noop''} then Some (ACTION_MERGED, None)
          else None)"

definition classify_merge_only_outcome :: "MergeResult option \<Rightarrow> headline" where
  "classify_merge_only_outcome merge_outcome =
     (case merge_outcome of None \<Rightarrow> (ACTION_CONFLICT, Some ''endpoint merge attempt raised'')
      | Some m \<Rightarrow>
          if mr_outcome m = RESOLUTION_FAILED
          then (ACTION_CONFLICT, Some ''conflict resolution failed; merge aborted'')
          else if mr_outcome m \<in> {''success'', ''noop''} then (ACTION_MERGED, None)
          else (ACTION_CONFLICT, Some (''endpoint merge conflicted ('' @ mr_outcome m @ '')'')))"

definition classify_rebase_noop_outcome :: "string \<Rightarrow> bool \<Rightarrow> MergeResult option \<Rightarrow> headline" where
  "classify_rebase_noop_outcome reason merge_attempted merge_outcome =
     (if merge_attempted then classify_merge_only_outcome merge_outcome else (ACTION_REBASED, Some reason))"

definition classify_rebase_failed_outcome :: "string \<Rightarrow> bool \<Rightarrow> MergeResult option \<Rightarrow> headline" where
  "classify_rebase_failed_outcome kind merge_attempted merge_outcome =
     (case classify_rebase_conflict_outcome merge_attempted merge_outcome of
        None \<Rightarrow> (ACTION_SKIPPED, Some (''rebase failed: '' @ kind))
      | Some sub \<Rightarrow>
          if sub = (ACTION_CONFLICT, Some ''rebase and endpoint merge both conflicted'')
          then (ACTION_CONFLICT, Some ''rebase failed and endpoint merge conflicted'')
          else sub)"

definition classify_rebase_outcome :: "RebaseResult \<Rightarrow> bool \<Rightarrow> MergeResult option \<Rightarrow> headline" where
  "classify_rebase_outcome rebase_outcome merge_attempted merge_outcome =
     (case rebase_outcome of
        RebaseConflicts files \<Rightarrow> (case classify_rebase_conflict_outcome merge_attempted merge_outcome of
            Some sub \<Rightarrow> sub | None \<Rightarrow> (ACTION_CONFLICT, Some ''rebase conflicts''))
      | RebaseNoOp reason \<Rightarrow> classify_rebase_noop_outcome reason merge_attempted merge_outcome
      | RebaseFailed kind \<Rightarrow> classify_rebase_failed_outcome kind merge_attempted merge_outcome
      | RebaseSuccess \<Rightarrow>
          if merge_attempted \<and> merge_outcome \<noteq> None then (ACTION_MERGED, None) else (ACTION_REBASED, None))"

definition record_rebase_outcome ::
    "RebaseResult \<Rightarrow> bool \<Rightarrow> MergeResult option \<Rightarrow> string \<Rightarrow> RebaseState" where
  "record_rebase_outcome rebase_outcome merge_attempted merge_outcome target =
     (let (action, reason) = classify_rebase_outcome rebase_outcome merge_attempted merge_outcome in
      new_rebase_state\<lparr>rb_last_action := Some action, rb_last_reason := reason, rb_last_target := Some target\<rparr>)"

section \<open>The dispatch gate\<close>

datatype IntegrationResolutionStatus = RESOLVED | RECOVERABLE | EXHAUSTED

definition status_value :: "IntegrationResolutionStatus \<Rightarrow> string" where
  "status_value st = (case st of RESOLVED \<Rightarrow> ''resolved'' | RECOVERABLE \<Rightarrow> ''recoverable'' | EXHAUSTED \<Rightarrow> ''exhausted'')"

record IntegrationResolutionVerdict =
  iv_status :: IntegrationResolutionStatus
  iv_reasons :: "string list"
  iv_recovery_executor :: "string option"

definition dispatch_allowed :: "IntegrationResolutionVerdict \<Rightarrow> bool" where
  "dispatch_allowed v \<longleftrightarrow> iv_status v = RESOLVED"

definition RESOLUTION_DRAIN :: string where "RESOLUTION_DRAIN = ''rebase_conflict_resolution''"

definition persisted_integration_resolution_verdict :: "RebaseState \<Rightarrow> IntegrationResolutionVerdict option" where
  "persisted_integration_resolution_verdict s =
     (if rb_resolution_exhausted s then
        Some \<lparr>iv_status = EXHAUSTED,
              iv_reasons = [case rb_resolution_exhaustion_reason s of
                  Some r \<Rightarrow> if r \<noteq> [] then r else ''conflict resolver exhausted''
                | None \<Rightarrow> ''conflict resolver exhausted''],
              iv_recovery_executor = None\<rparr>
      else if integration_unresolved s then
        Some \<lparr>iv_status = RECOVERABLE, iv_reasons = [''persisted integration state is unresolved''],
              iv_recovery_executor = Some RESOLUTION_DRAIN\<rparr>
      else None)"

definition verdict_from_persisted_reasons :: "string list \<Rightarrow> IntegrationResolutionVerdict" where
  "verdict_from_persisted_reasons reasons =
     (if reasons \<noteq> []
      then \<lparr>iv_status = RECOVERABLE, iv_reasons = reasons, iv_recovery_executor = Some RESOLUTION_DRAIN\<rparr>
      else \<lparr>iv_status = RESOLVED, iv_reasons = [], iv_recovery_executor = None\<rparr>)"

definition is_unmerged_code :: "string \<Rightarrow> bool" where
  "is_unmerged_code code \<longleftrightarrow> code ! 0 = CHR ''U'' \<or> code ! 1 = CHR ''U'' \<or> code \<in> {''AA'', ''DD''}"

definition unmerged_porcelain_paths :: "string \<Rightarrow> string list" where
  "unmerged_porcelain_paths out =
     map (\<lambda>l. let p = str_strip (drop 3 l) in if p \<noteq> [] then p else str_strip l)
       (filter (\<lambda>l. 4 \<le> length l \<and> is_unmerged_code (take 2 l)) (splitlines out))"

text \<open>
  What git says about the tree; \<open>None\<close> is a probe that raised. The porcelain probe also says whether the
  command succeeded.
\<close>

record LiveTree =
  lt_porcelain :: "(bool \<times> string) option"
  lt_rebase_active :: "bool option"
  lt_merge_status :: "string option"

definition live_integration_reasons :: "LiveTree \<Rightarrow> string list" where
  "live_integration_reasons t =
     (case lt_porcelain t of
        Some (True, out) \<Rightarrow> (let unmerged = unmerged_porcelain_paths out in
          if unmerged \<noteq> []
          then [''unmerged paths remain from an unfinished rebase or merge: '' @ str_join '', '' unmerged] else [])
      | _ \<Rightarrow> [''unable to inspect full git porcelain status''])
     @ (case lt_rebase_active t of Some True \<Rightarrow> [''rebase is in progress''] | Some False \<Rightarrow> []
        | None \<Rightarrow> [''unable to inspect rebase state''])
     @ (case lt_merge_status t of
          Some m \<Rightarrow> if m \<noteq> ''none'' then [''merge is in progress or merge state is unreadable''] else []
        | None \<Rightarrow> [''unable to inspect merge state''])"

text \<open>\<open>None\<close> for the tree: there is no repository to inspect.\<close>

definition inspect_integration_resolution :: "LiveTree option \<Rightarrow> RebaseState \<Rightarrow> IntegrationResolutionVerdict" where
  "inspect_integration_resolution tree s =
     (let persisted = persisted_integration_resolution_verdict s in
      case tree of
        None \<Rightarrow> (case persisted of Some v \<Rightarrow> v | None \<Rightarrow> verdict_from_persisted_reasons [])
      | Some t \<Rightarrow> (let reasons = live_integration_reasons t in
          case persisted of
            Some v \<Rightarrow> if reasons \<noteq> [] then v
                      else \<lparr>iv_status = RESOLVED, iv_reasons = [], iv_recovery_executor = None\<rparr>
          | None \<Rightarrow> verdict_from_persisted_reasons reasons))"

definition assert_non_resolution_dispatch_allowed :: "string \<Rightarrow> IntegrationResolutionVerdict \<Rightarrow> unit result" where
  "assert_non_resolution_dispatch_allowed phase v =
     (if phase \<noteq> RESOLUTION_DRAIN \<and> \<not> dispatch_allowed v then
        (let detail = str_join ''; '' (iv_reasons v);
             detail' = (if detail \<noteq> [] then detail else status_value (iv_status v))
         in Inl (RuntimeError (''cannot dispatch '' @ str_repr phase @ '': integration resolution is ''
              @ status_value (iv_status v) @ '': '' @ detail')))
      else Inr ())"

section \<open>Evidence across seams\<close>

definition retains_unresolved_resolution_state :: "RebaseState \<Rightarrow> bool" where
  "retains_unresolved_resolution_state s \<longleftrightarrow> persisted_integration_resolution_verdict s \<noteq> None"

definition preserve_unresolved_resolution_state :: "RebaseState option \<Rightarrow> RebaseState \<Rightarrow> RebaseState option" where
  "preserve_unresolved_resolution_state outcome prior =
     (case outcome of
        None \<Rightarrow> if retains_unresolved_resolution_state prior then Some prior else None
      | Some r \<Rightarrow>
          if rb_fast_forwarded r then Some r
          else if \<not> retains_unresolved_resolution_state prior then Some r
          else (let r1 = (if rb_resolution_exhausted prior \<and> \<not> rb_resolution_exhausted r
                          then r\<lparr>rb_resolution_exhausted := True,
                                 rb_resolution_exhaustion_reason := rb_resolution_exhaustion_reason prior\<rparr>
                          else r)
                in Some (if integration_unresolved prior \<and> \<not> integration_unresolved r
                         then r1\<lparr>rb_unresolved_integration_carried := True\<rparr> else r1)))"

section \<open>The conflict budget\<close>

definition MAX_CONSECUTIVE_RESOLVER_ATTEMPTS :: int where
  "MAX_CONSECUTIVE_RESOLVER_ATTEMPTS = 2"

record ConflictIdentity =
  ci_feature_sha :: "string option"
  ci_target_sha :: "string option"
  ci_conflicted_paths :: "string list"
  ci_stage_oids :: "string list"
  ci_scope :: string

definition unknown_identity :: ConflictIdentity where
  "unknown_identity = \<lparr>ci_feature_sha = None, ci_target_sha = None, ci_conflicted_paths = [],
     ci_stage_oids = [], ci_scope = ''feature''\<rparr>"

definition differs :: "'a list \<Rightarrow> 'a list \<Rightarrow> bool" where
  "differs a b \<longleftrightarrow> a \<noteq> [] \<and> b \<noteq> [] \<and> a \<noteq> b"

definition matches :: "ConflictIdentity \<Rightarrow> RebaseState \<Rightarrow> bool" where
  "matches i s \<longleftrightarrow>
     (if differs (ci_scope i) (rb_last_conflict_scope s) then False
      else if differs (ci_conflicted_paths i) (rb_last_conflict_paths s) then False
      else if differs (ci_stage_oids i) (rb_last_conflict_stage_oids s) then False
      else if None \<in> {rb_last_conflict_feature_sha s, rb_last_conflict_target_sha s}
              \<or> None \<in> {ci_feature_sha i, ci_target_sha i} then True
      else (rb_last_conflict_feature_sha s, rb_last_conflict_target_sha s) = (ci_feature_sha i, ci_target_sha i))"

definition prior_conflict_count :: "RebaseState \<Rightarrow> string \<Rightarrow> ConflictIdentity \<Rightarrow> int" where
  "prior_conflict_count s target i =
     (if rb_last_target s \<noteq> Some target then 0
      else if \<not> matches i s then 0
      else max 0 (rb_consecutive_conflicts s))"

definition resolver_allowed :: "RebaseState \<Rightarrow> string \<Rightarrow> ConflictIdentity \<Rightarrow> bool" where
  "resolver_allowed s target i \<longleftrightarrow> prior_conflict_count s target i < MAX_CONSECUTIVE_RESOLVER_ATTEMPTS"

definition with_conflict_identity :: "ConflictIdentity \<Rightarrow> RebaseState \<Rightarrow> RebaseState" where
  "with_conflict_identity i r = r
     \<lparr>rb_last_conflict_feature_sha := ci_feature_sha i, rb_last_conflict_target_sha := ci_target_sha i,
      rb_last_conflict_paths := ci_conflicted_paths i, rb_last_conflict_stage_oids := ci_stage_oids i,
      rb_last_conflict_scope := ci_scope i\<rparr>"

definition recorded_identity :: "RebaseState \<Rightarrow> ConflictIdentity" where
  "recorded_identity s = \<lparr>ci_feature_sha = rb_last_conflict_feature_sha s, ci_target_sha = rb_last_conflict_target_sha s,
     ci_conflicted_paths = rb_last_conflict_paths s, ci_stage_oids = rb_last_conflict_stage_oids s,
     ci_scope = rb_last_conflict_scope s\<rparr>"

definition no_identity :: ConflictIdentity where
  "no_identity = \<lparr>ci_feature_sha = None, ci_target_sha = None, ci_conflicted_paths = [], ci_stage_oids = [],
     ci_scope = []\<rparr>"

definition apply_conflict_budget ::
    "RebaseState \<Rightarrow> RebaseState \<Rightarrow> string \<Rightarrow> bool \<Rightarrow> ConflictIdentity \<Rightarrow> RebaseState" where
  "apply_conflict_budget record prior target resolver_suppressed identity =
     (let carried = prior_conflict_count prior target identity in
      if rb_fast_forwarded record then
        with_conflict_identity no_identity (record\<lparr>rb_consecutive_conflicts := 0\<rparr>)
      else if rb_last_action record \<noteq> Some ACTION_CONFLICT then
        with_conflict_identity (recorded_identity prior) (record\<lparr>rb_consecutive_conflicts := carried\<rparr>)
      else
        (let r = with_conflict_identity identity (record\<lparr>rb_consecutive_conflicts := carried + 1\<rparr>) in
         if resolver_suppressed then
           r\<lparr>rb_last_reason := Some (''conflict resolution budget exhausted for '' @ quoted target @ '' after ''
               @ int_str carried @ '' unresolved attempts; agent resolution suppressed until an integration lands'')\<rparr>
         else r))"

text \<open>The bookings of resolutions in flight: an ordered dictionary of at most 64 keys.\<close>

definition MAX_ACTIVE_CONFLICT_ATTEMPTS :: nat where
  "MAX_ACTIVE_CONFLICT_ATTEMPTS = 64"

fun evict_oldest :: "ConflictIdentity list \<Rightarrow> ConflictIdentity list" where
  "evict_oldest [] = []"
| "evict_oldest (k # ks) =
     (if MAX_ACTIVE_CONFLICT_ATTEMPTS \<le> length (k # ks) then evict_oldest ks else k # ks)"

definition start_conflict_attempt :: "ConflictIdentity \<Rightarrow> ConflictIdentity list \<Rightarrow> bool \<times> ConflictIdentity list" where
  "start_conflict_attempt key active =
     (if key \<in> set active then (False, active) else (True, evict_oldest active @ [key]))"

definition finish_conflict_attempt :: "ConflictIdentity \<Rightarrow> ConflictIdentity list \<Rightarrow> ConflictIdentity list" where
  "finish_conflict_attempt key active = filter (\<lambda>k. k \<noteq> key) active"

section \<open>The wait before a retry\<close>

definition RETRY_BASE_DELAY_SECONDS :: rat where "RETRY_BASE_DELAY_SECONDS = 1 / 2"

definition RETRY_MAX_DELAY_SECONDS :: rat where "RETRY_MAX_DELAY_SECONDS = 4"

text \<open>The delay asked of \<^verbatim>\<open>sleep\<close>, for attempts from 1 on; \<open>j\<close> is what \<^verbatim>\<open>jitter()\<close> returned.\<close>

definition retry_delay :: "nat \<Rightarrow> rat \<Rightarrow> rat" where
  "retry_delay attempt j =
     (let step = RETRY_BASE_DELAY_SECONDS * 2 ^ (attempt - 1); spread = 1 / 2 + 1 / 2 * j
      in min step RETRY_MAX_DELAY_SECONDS * spread)"

section \<open>Evidence survives until a landing\<close>

lemma retains_iff:
  "retains_unresolved_resolution_state s \<longleftrightarrow> rb_resolution_exhausted s \<or> integration_unresolved s"
  by (simp add: retains_unresolved_resolution_state_def persisted_integration_resolution_verdict_def)

lemma preserve_keeps_evidence:
  assumes "retains_unresolved_resolution_state prior"
  obtains r where "preserve_unresolved_resolution_state outcome prior = Some r"
    and "rb_fast_forwarded r
      \<or> (rb_resolution_exhausted prior \<longrightarrow> rb_resolution_exhausted r)
        \<and> (integration_unresolved prior \<longrightarrow> integration_unresolved r)"
proof -
  have "\<exists>r. preserve_unresolved_resolution_state outcome prior = Some r
      \<and> (rb_fast_forwarded r \<or> (rb_resolution_exhausted prior \<longrightarrow> rb_resolution_exhausted r)
        \<and> (integration_unresolved prior \<longrightarrow> integration_unresolved r))"
    using assms
    by (cases outcome) (auto simp: preserve_unresolved_resolution_state_def integration_unresolved_def Let_def)
  then show ?thesis using that by blast
qed

text \<open>
  C25. The dispatch gate. An ordinary phase may run exactly when the live repository shows no
  unfinished integration (every probe answered, no unmerged path, no rebase or merge in progress), whatever is on
  record; without a repository to look at, exactly when the run has neither an unresolved integration nor an exhausted
  resolver on record. The conflict resolution phase itself always may. The module's description asks for both
  conditions at once; a clean repository overrides the record.
\<close>

theorem dispatch_gate_correct:
  "assert_non_resolution_dispatch_allowed phase (inspect_integration_resolution tree s) = Inr ()
   \<longleftrightarrow> phase = RESOLUTION_DRAIN
     \<or> (case tree of
          None \<Rightarrow> \<not> rb_resolution_exhausted s \<and> \<not> integration_unresolved s
        | Some t \<Rightarrow> (\<exists>out. lt_porcelain t = Some (True, out) \<and> unmerged_porcelain_paths out = [])
            \<and> lt_rebase_active t = Some False \<and> lt_merge_status t = Some ''none'')"
proof -
  have live: "live_integration_reasons t = [] \<longleftrightarrow>
      (\<exists>out. lt_porcelain t = Some (True, out) \<and> unmerged_porcelain_paths out = [])
      \<and> lt_rebase_active t = Some False \<and> lt_merge_status t = Some ''none''" for t
    by (auto simp: live_integration_reasons_def Let_def split: option.splits bool.splits if_splits)
  have status: "persisted_integration_resolution_verdict s = Some v \<Longrightarrow> iv_status v \<noteq> RESOLVED" for v
    by (auto simp: persisted_integration_resolution_verdict_def split: if_splits)
  have none: "persisted_integration_resolution_verdict s = None \<longleftrightarrow> \<not> rb_resolution_exhausted s \<and> \<not> integration_unresolved s"
    using retains_iff [of s]
    by (cases "persisted_integration_resolution_verdict s") (auto simp: retains_unresolved_resolution_state_def)
  have "dispatch_allowed (inspect_integration_resolution tree s) \<longleftrightarrow>
      (case tree of None \<Rightarrow> persisted_integration_resolution_verdict s = None
        | Some t \<Rightarrow> live_integration_reasons t = [])"
    using status
    by (auto simp: inspect_integration_resolution_def dispatch_allowed_def verdict_from_persisted_reasons_def Let_def
        split: option.splits)
  then show ?thesis
    by (cases tree) (simp_all add: assert_non_resolution_dispatch_allowed_def Let_def live none)
qed

section \<open>The budget\<close>

lemma matches_cong:
  "recorded_identity s = recorded_identity s' \<Longrightarrow> matches i s = matches i s'"
  by (simp add: matches_def recorded_identity_def)

lemma recorded_with_identity [simp]: "recorded_identity (with_conflict_identity i r) = i"
  by (simp add: recorded_identity_def with_conflict_identity_def)

lemma with_identity_fields [simp]:
  "rb_last_target (with_conflict_identity i r) = rb_last_target r"
  "rb_consecutive_conflicts (with_conflict_identity i r) = rb_consecutive_conflicts r"
  "rb_last_action (with_conflict_identity i r) = rb_last_action r"
  "rb_fast_forwarded (with_conflict_identity i r) = rb_fast_forwarded r"
  by (simp_all add: with_conflict_identity_def)

lemma matches_recorded: "matches i s" if "recorded_identity s = i"
  using that by (auto simp: matches_def recorded_identity_def differs_def)

lemma unknown_matches: "rb_last_conflict_scope s \<in> {[], ''feature''} \<Longrightarrow> matches unknown_identity s"
  by (auto simp: matches_def unknown_identity_def differs_def)

lemma prior_conflict_count_nonneg [simp]: "0 \<le> prior_conflict_count s t i"
  by (simp add: prior_conflict_count_def)

lemma budget_counts_conflict:
  assumes "\<not> rb_fast_forwarded r" and "rb_last_action r = Some ACTION_CONFLICT" and "rb_last_target r = Some t"
  shows "prior_conflict_count (apply_conflict_budget r s t suppressed i) t i = prior_conflict_count s t i + 1"
proof -
  let ?r = "apply_conflict_budget r s t suppressed i"
  have "recorded_identity ?r = i" "rb_last_target ?r = Some t"
    "rb_consecutive_conflicts ?r = prior_conflict_count s t i + 1"
    using assms by (simp_all add: apply_conflict_budget_def recorded_identity_def with_conflict_identity_def Let_def)
  then show ?thesis by (simp add: prior_conflict_count_def matches_recorded)
qed

lemma budget_carried_by_others:
  assumes "\<not> rb_fast_forwarded r" and "rb_last_action r \<noteq> Some ACTION_CONFLICT" and "rb_last_target r = Some t"
  shows "prior_conflict_count (apply_conflict_budget r s t suppressed i) t i = prior_conflict_count s t i"
proof -
  let ?r = "apply_conflict_budget r s t suppressed i"
  have r: "recorded_identity ?r = recorded_identity s" "rb_last_target ?r = Some t"
    "rb_consecutive_conflicts ?r = prior_conflict_count s t i"
    using assms by (simp_all add: apply_conflict_budget_def recorded_identity_def with_conflict_identity_def Let_def)
  have "matches i ?r = matches i s" by (rule matches_cong [OF r(1)])
  with r show ?thesis by (simp add: prior_conflict_count_def)
qed

lemma budget_reset_by_landing:
  "rb_fast_forwarded r \<Longrightarrow> prior_conflict_count (apply_conflict_budget r s t suppressed i) t' i' = 0"
  by (simp add: apply_conflict_budget_def prior_conflict_count_def Let_def)

subsection \<open>Bookings and waits\<close>

lemma evict_oldest_length: "length (evict_oldest ks) < MAX_ACTIVE_CONFLICT_ATTEMPTS"
  by (induction ks) (auto simp: MAX_ACTIVE_CONFLICT_ATTEMPTS_def)

lemma bookings_bounded:
  assumes "length active \<le> MAX_ACTIVE_CONFLICT_ATTEMPTS"
  shows "length (snd (start_conflict_attempt key active)) \<le> MAX_ACTIVE_CONFLICT_ATTEMPTS"
  using assms evict_oldest_length [of active] by (auto simp: start_conflict_attempt_def)

lemma booked_once:
  "start_conflict_attempt key active = (True, active') \<Longrightarrow> start_conflict_attempt key active' = (False, active')"
  by (auto simp: start_conflict_attempt_def split: if_splits)

lemma finished_can_restart: "fst (start_conflict_attempt key (finish_conflict_attempt key active))"
  by (simp add: start_conflict_attempt_def finish_conflict_attempt_def)

lemma retry_delay_bounds:
  assumes "0 \<le> j" "j < 1"
  shows "0 < retry_delay n j \<and> retry_delay n j < RETRY_MAX_DELAY_SECONDS"
proof -
  let ?m = "min (1 / 2 * 2 ^ (n - 1)) (4 :: rat)"
  have m: "0 < ?m" "?m \<le> 4" by simp_all
  have "?m * (1 / 2 + 1 / 2 * j) < ?m * 1"
    using assms m(1) by (intro mult_strict_left_mono) simp_all
  moreover have "0 < ?m * (1 / 2 + 1 / 2 * j)"
    using assms m(1) by (intro mult_pos_pos) simp_all
  ultimately show ?thesis
    using m unfolding retry_delay_def Let_def RETRY_BASE_DELAY_SECONDS_def RETRY_MAX_DELAY_SECONDS_def by linarith
qed

end
