(* ===== verification/Auto_Integration.thy ===== *)
theory Auto_Integration
  imports Integration_State
begin

text \<open>
  The integration seams (\<^verbatim>\<open>ralph/pipeline/auto_integrate.py\<close>), with the rebase-or-merge step
  (\<^verbatim>\<open>auto_integrate_rebase_merge.py\<close>) and the budget seam (\<^verbatim>\<open>auto_integrate_budget_seam.py\<close>). What git, the
  resolver agent and the remote answer during a seam is data: a record per attempt. The theorems
  quantify over all of it, so they hold for every repository and every behaviour of the resolver.
\<close>

section \<open>What a call gives\<close>

text \<open>A call returns, raises, or reports a violated terminal state, which every guard lets pass.\<close>

datatype 'a observed = Observed 'a | Raised string | TerminalStateViolation string

definition and_then :: "'a observed \<Rightarrow> ('a \<Rightarrow> 'b observed) \<Rightarrow> 'b observed" where
  "and_then x f = (case x of Observed v \<Rightarrow> f v | Raised m \<Rightarrow> Raised m
     | TerminalStateViolation m \<Rightarrow> TerminalStateViolation m)"

section \<open>Rebase or merge\<close>

record ReclaimResult =
  rl_worktree_path :: string
  rl_snapshot_ref :: string
  rl_discarded_path_count :: int

text \<open>
  The answers of one attempt: the counts of \<^verbatim>\<open>git rev-list\<close> (\<open>None\<close> when the query failed), the changed
  paths, the result of \<^verbatim>\<open>rebase_onto\<close>, whether the resolution could be recorded and how it ended, what
  was left of the rebase, the endpoint merge (\<open>None\<close> when it raised), and the landing.
\<close>

record GitAnswers =
  ga_total :: "int option"
  ga_merges :: "int option"
  ga_roots :: "int option"
  ga_cherry :: "int option"
  ga_changed_paths :: "string list option"
  ga_rebase :: RebaseResult
  ga_flag_recorded :: bool
  ga_resolution :: "bool \<times> string option"
  ga_landed_stops :: bool
  ga_rebase_left :: bool
  ga_endpoint_merge :: "MergeResult option"
  ga_head_readable :: bool
  ga_fast_forward :: "bool \<times> string"
  ga_reclaimed :: "ReclaimResult option"
  ga_published :: "RebaseState \<Rightarrow> RebaseState"

record RebaseRunResult =
  rr_rebase_outcome :: RebaseResult
  rr_merge_attempted :: bool
  rr_merge_outcome :: "MergeResult option"
  rr_short_circuit :: "RebaseState option"

fun has_case_collision :: "string list \<Rightarrow> string list \<Rightarrow> bool" where
  "has_case_collision seen [] = False"
| "has_case_collision seen (p # ps) =
     (if p = [] then has_case_collision seen ps
      else if casefold p \<in> set seen then True
      else has_case_collision (casefold p # seen) ps)"

definition range_has_case_collision :: "GitAnswers \<Rightarrow> bool" where
  "range_has_case_collision g =
     (case ga_changed_paths g of None \<Rightarrow> False | Some ps \<Rightarrow> has_case_collision [] ps)"

definition all_empty_replay :: "GitAnswers \<Rightarrow> int \<Rightarrow> bool" where
  "all_empty_replay g feature_count \<longleftrightarrow> feature_count \<noteq> 0 \<and> ga_cherry g = Some 0"

definition positive_count :: "int option \<Rightarrow> bool" where
  "positive_count c = (case c of None \<Rightarrow> False | Some n \<Rightarrow> 0 < n)"

definition range_routing_reason :: "GitAnswers \<Rightarrow> string option" where
  "range_routing_reason g =
     (case ga_total g of None \<Rightarrow> None
      | Some n \<Rightarrow>
          if n = 0 then None
          else if positive_count (ga_merges g)
            then Some ''branch contains merge commits; routing to endpoint merge''
          else if positive_count (ga_roots g)
            then Some ''branch contains root commits; routing to endpoint merge''
          else if all_empty_replay g n
            then Some ''branch has no replayable commits; routing to endpoint merge''
          else if range_has_case_collision g
            then Some ''branch range has case-folding path collision; routing to endpoint merge''
          else None)"

definition endpoint_merge_result :: "GitAnswers \<Rightarrow> string \<Rightarrow> RebaseResult \<Rightarrow> RebaseRunResult" where
  "endpoint_merge_result g target rebase_outcome =
     (case ga_endpoint_merge g of
        None \<Rightarrow> \<lparr>rr_rebase_outcome = rebase_outcome, rr_merge_attempted = True, rr_merge_outcome = None,
                 rr_short_circuit = Some (record_conflict
                   ''rebase conflict followed by merge attempt exception'' (Some target))\<rparr>
      | Some m \<Rightarrow>
          \<lparr>rr_rebase_outcome = rebase_outcome, rr_merge_attempted = True, rr_merge_outcome = Some m,
           rr_short_circuit =
             (if mr_outcome m \<in> {''conflict'', RESOLUTION_FAILED}
              then Some (record_rebase_outcome rebase_outcome True (Some m) target) else None)\<rparr>)"

definition fallback_to_endpoint_merge :: "GitAnswers \<Rightarrow> string \<Rightarrow> RebaseResult \<Rightarrow> RebaseRunResult" where
  "fallback_to_endpoint_merge g target rebase_outcome =
     (if ga_rebase_left g then
        \<lparr>rr_rebase_outcome = rebase_outcome, rr_merge_attempted = False, rr_merge_outcome = None,
         rr_short_circuit = Some (record_conflict
           (if ga_landed_stops g then ''rebase paused with landed stops; resume remaining stops''
            else ''rebase in-progress after abort'') (Some target))\<rparr>
      else endpoint_merge_result g target rebase_outcome)"

definition resolve_conflicted_rebase :: "GitAnswers \<Rightarrow> string \<Rightarrow> RebaseRunResult option" where
  "resolve_conflicted_rebase g target =
     (if \<not> ga_flag_recorded g then None
      else case ga_resolution g of
        (True, _) \<Rightarrow> Some \<lparr>rr_rebase_outcome = RebaseSuccess, rr_merge_attempted = False,
                         rr_merge_outcome = None, rr_short_circuit = None\<rparr>
      | (False, Some reason) \<Rightarrow>
          Some \<lparr>rr_rebase_outcome = RebaseConflicts [], rr_merge_attempted = False, rr_merge_outcome = None,
                rr_short_circuit = Some (record_resolution_exhausted reason (Some target))\<rparr>
      | (False, None) \<Rightarrow> None)"

definition REBASE_SKIPPED_FOR_MERGE :: string where
  "REBASE_SKIPPED_FOR_MERGE = ''rebase skipped on retry to preserve the integration merge commit''"

definition run_rebase_or_merge :: "GitAnswers \<Rightarrow> string \<Rightarrow> bool \<Rightarrow> bool \<Rightarrow> RebaseRunResult" where
  "run_rebase_or_merge g target prefer_merge stop_resolver =
     (if prefer_merge then endpoint_merge_result g target (RebaseNoOp REBASE_SKIPPED_FOR_MERGE)
      else case range_routing_reason g of
        Some reason \<Rightarrow> endpoint_merge_result g target (RebaseNoOp reason)
      | None \<Rightarrow> (case ga_rebase g of
          RebaseConflicts files \<Rightarrow>
            (if stop_resolver then
               (case resolve_conflicted_rebase g target of
                  Some resolved \<Rightarrow> resolved
                | None \<Rightarrow> fallback_to_endpoint_merge g target (RebaseConflicts files))
             else fallback_to_endpoint_merge g target (RebaseConflicts files))
        | RebaseFailed kind \<Rightarrow> fallback_to_endpoint_merge g target (RebaseFailed kind)
        | other \<Rightarrow> \<lparr>rr_rebase_outcome = other, rr_merge_attempted = False, rr_merge_outcome = None,
                     rr_short_circuit = None\<rparr>))"

section \<open>One integration\<close>

definition RETRYABLE_REASONS :: "string list" where
  "RETRYABLE_REASONS =
     [''target advanced concurrently (not an ancestor of feature)'',
      ''target advanced concurrently (CAS mismatch)'',
      ''target branch could not be read at fast-forward time'',
      ''target worktree lookup failed'',
      ''target is checked out in a sibling worktree that refused merge --ff-only; shared ref left untouched, next clean seam will retry'']"

definition is_retryable_fast_forward_failure :: "string \<Rightarrow> bool" where
  "is_retryable_fast_forward_failure reason \<longleftrightarrow> reason \<in> set RETRYABLE_REASONS"

definition record_refresh :: "RebaseState \<Rightarrow> string option \<Rightarrow> RebaseState" where
  "record_refresh r refresh = (case refresh of None \<Rightarrow> r | Some v \<Rightarrow> r\<lparr>rb_last_refresh := Some v\<rparr>)"

text \<open>
  \<^verbatim>\<open>_integrate_once\<close>. The publication to a remote, which comes after a landing, is the function the answers
  hold; it is the identity when remote synchronisation is off.
\<close>

definition integrate_once :: "GitAnswers \<Rightarrow> string \<Rightarrow> bool \<Rightarrow> string option \<Rightarrow> bool \<Rightarrow> RebaseState \<times> bool" where
  "integrate_once g target prefer_merge refresh stop_resolver =
     (let run = run_rebase_or_merge g target prefer_merge stop_resolver in
      case rr_short_circuit run of
        Some r \<Rightarrow> (record_refresh r refresh, False)
      | None \<Rightarrow>
          if \<not> ga_head_readable g then
            (record_refresh (record_skip ''post-integration HEAD read failed'' (Some target)) refresh, False)
          else
            (let (ok, skip_reason) = ga_fast_forward g;
                 r = (record_rebase_outcome (rr_rebase_outcome run) (rr_merge_attempted run) (rr_merge_outcome run) target)
                       \<lparr>rb_last_refresh := refresh,
                        rb_reclaimed_worktree_path := map_option rl_worktree_path (ga_reclaimed g),
                        rb_reclaim_snapshot_ref := map_option rl_snapshot_ref (ga_reclaimed g),
                        rb_reclaim_discarded_path_count :=
                          (case ga_reclaimed g of None \<Rightarrow> 0 | Some x \<Rightarrow> rl_discarded_path_count x)\<rparr>
             in if \<not> ok then
                  (r\<lparr>rb_last_reason := Some skip_reason, rb_fast_forwarded := False\<rparr>,
                   is_retryable_fast_forward_failure skip_reason)
                else (ga_published g (r\<lparr>rb_fast_forwarded := True, rb_last_reason := None\<rparr>), False)))"

section \<open>The budget seam\<close>

definition carry_budget_through_skip :: "RebaseState \<Rightarrow> RebaseState \<Rightarrow> RebaseState" where
  "carry_budget_through_skip skip prior =
     (case rb_last_target skip of None \<Rightarrow> skip
      | Some target \<Rightarrow> apply_conflict_budget skip prior target False unknown_identity)"

definition charge_failed_attempt ::
    "RebaseState \<Rightarrow> RebaseState \<Rightarrow> string \<Rightarrow> ConflictIdentity \<Rightarrow> bool \<Rightarrow> RebaseState" where
  "charge_failed_attempt skip prior target identity resolver_offered =
     (let carried = prior_conflict_count prior target identity in
      skip\<lparr>rb_consecutive_conflicts := (if resolver_offered then carried + 1 else carried),
           rb_last_conflict_feature_sha := ci_feature_sha identity,
           rb_last_conflict_target_sha := ci_target_sha identity,
           rb_last_conflict_paths := ci_conflicted_paths identity,
           rb_last_conflict_stage_oids := ci_stage_oids identity\<rparr>)"

section \<open>Early skips\<close>

text \<open>What the skip table reads; \<open>Inl\<close> is the text of the git error.\<close>

record SkipAnswers =
  sk_target_sha :: "string option"
  sk_head_sha :: "string + string"
  sk_precondition :: "string option"
  sk_reclaimed :: bool
  sk_precondition_again :: "string option"

definition reclaim_and_retry_preconditions :: "SkipAnswers \<Rightarrow> string \<Rightarrow> RebaseState option" where
  "reclaim_and_retry_preconditions k target =
     (if \<not> sk_reclaimed k then None
      else case sk_precondition_again k of
        Some e \<Rightarrow> Some (record_skip (''preconditions not met after reclaim: '' @ e) (Some target))
      | None \<Rightarrow> Some (record_skip ''_reclaim_succeeded'' (Some target)))"

definition handle_precondition_failure :: "SkipAnswers \<Rightarrow> string \<Rightarrow> string \<Rightarrow> RebaseState option" where
  "handle_precondition_failure k target e =
     (case reclaim_and_retry_preconditions k target of
        Some r \<Rightarrow> if rb_last_reason r = Some ''_reclaim_succeeded'' then None else Some r
      | None \<Rightarrow> Some (record_skip (''preconditions not met: '' @ e) (Some target)))"

definition check_skip_conditions :: "SkipAnswers \<Rightarrow> string \<Rightarrow> string \<Rightarrow> RebaseState option" where
  "check_skip_conditions k current_branch target =
     (if current_branch = target then Some (record_skip ''on target branch'' (Some target))
      else case sk_head_sha k of
        Inl e \<Rightarrow> Some (record_skip (''HEAD read failed: '' @ e) (Some target))
      | Inr head_sha \<Rightarrow>
          if sk_target_sha k = Some head_sha then Some (record_skip ''no commits beyond target'' (Some target))
          else (case sk_precondition k of
              None \<Rightarrow> None
            | Some e \<Rightarrow> handle_precondition_failure k target e))"

record SeamContext =
  sc_current_branch :: "string option"
  sc_target :: "string option"
  sc_refresh :: "string option"

definition check_early_skips ::
    "SeamContext \<Rightarrow> string \<Rightarrow> SkipAnswers \<Rightarrow> RebaseState option \<times> string option" where
  "check_early_skips ctx missing_target k =
     (case sc_current_branch ctx of
        None \<Rightarrow> (Some (record_refresh (record_skip ''detached HEAD'' (sc_target ctx)) (sc_refresh ctx)), None)
      | Some branch \<Rightarrow> (case sc_target ctx of
          None \<Rightarrow> (Some (record_skip
              (if missing_target \<noteq> [] then ''local integration target branch does not exist: '' @ missing_target
               else ''no integration target configured'')
              (if missing_target \<noteq> [] then Some missing_target else None)), None)
        | Some target \<Rightarrow> (case check_skip_conditions k branch target of
            Some skip \<Rightarrow> (Some (record_refresh skip (sc_refresh ctx)), None)
          | None \<Rightarrow> (None, Some target))))"

section \<open>The attempts of a seam\<close>

text \<open>Each call of an attempt may raise: the freshening of the target, the identity, the integration.\<close>

record AttemptAnswers =
  at_freshen :: "(RebaseState option \<times> string option) observed"
  at_identity :: "ConflictIdentity observed"
  at_git :: "GitAnswers observed"

datatype seam_end =
    SeamViolation string
  | SeamFailed string "string option" ConflictIdentity
  | SeamUnsafe RebaseState
  | SeamDone RebaseState "RebaseState option" bool ConflictIdentity

datatype attempt_end =
    AttemptStops seam_end
  | AttemptRetries RebaseState "RebaseState option" "string option" ConflictIdentity

definition run_attempt ::
    "AttemptAnswers \<Rightarrow> string \<Rightarrow> bool \<Rightarrow> bool \<Rightarrow> string option \<Rightarrow> ConflictIdentity \<Rightarrow> attempt_end" where
  "run_attempt a target stop_resolver prefer_merge refresh identity =
     (case at_freshen a of
        Raised m \<Rightarrow> AttemptStops (SeamFailed m refresh identity)
      | TerminalStateViolation m \<Rightarrow> AttemptStops (SeamViolation m)
      | Observed (remote, refresh') \<Rightarrow>
          if (case remote of Some r \<Rightarrow> \<not> rb_freshness_safe r | None \<Rightarrow> False)
          then AttemptStops (SeamUnsafe (the remote))
          else (case at_identity a of
              Raised m \<Rightarrow> AttemptStops (SeamFailed m refresh' identity)
            | TerminalStateViolation m \<Rightarrow> AttemptStops (SeamViolation m)
            | Observed i \<Rightarrow> (case at_git a of
                Raised m \<Rightarrow> AttemptStops (SeamFailed m refresh' i)
              | TerminalStateViolation m \<Rightarrow> AttemptStops (SeamViolation m)
              | Observed g \<Rightarrow> (case integrate_once g target prefer_merge refresh' stop_resolver of
                  (r, retry) \<Rightarrow> if retry then AttemptRetries r remote refresh' i
                                else AttemptStops (SeamDone r remote False i)))))"

definition MAX_INTEGRATION_ATTEMPTS :: nat where
  "MAX_INTEGRATION_ATTEMPTS = 3"

text \<open>The \<^verbatim>\<open>for\<close> loop: \<open>left\<close> more attempts may follow attempt number \<open>k\<close>.\<close>

fun attempt_loop ::
    "nat \<Rightarrow> (nat \<Rightarrow> AttemptAnswers) \<Rightarrow> nat \<Rightarrow> string \<Rightarrow> bool \<Rightarrow> bool \<Rightarrow> string option \<Rightarrow> ConflictIdentity \<Rightarrow> seam_end" where
  "attempt_loop left answers k target stop_resolver prefer_merge refresh identity =
     (case run_attempt (answers k) target stop_resolver prefer_merge refresh identity of
        AttemptStops e \<Rightarrow> e
      | AttemptRetries r remote refresh' i \<Rightarrow>
          (case left of
             0 \<Rightarrow> SeamDone r remote True i
           | Suc n \<Rightarrow> attempt_loop n answers (Suc k) target stop_resolver
                        (rb_last_action r = Some ACTION_MERGED) refresh' i))"

declare attempt_loop.simps [simp del]

definition record_attempt_budget_spent :: "RebaseState \<Rightarrow> RebaseState" where
  "record_attempt_budget_spent r =
     (let base = (case rb_last_reason r of Some b \<Rightarrow> if b \<noteq> [] then b else ''fast-forward did not land''
                  | None \<Rightarrow> ''fast-forward did not land'')
      in r\<lparr>rb_last_reason := Some (base @ ''; exhausted '' @ nat_str MAX_INTEGRATION_ATTEMPTS @ '' integration attempts'')\<rparr>)"

definition or_else :: "string option \<Rightarrow> string option \<Rightarrow> string option" where
  "or_else a b = (case a of Some t \<Rightarrow> if t \<noteq> [] then a else b | None \<Rightarrow> b)"

definition with_remote_record :: "RebaseState \<Rightarrow> RebaseState option \<Rightarrow> RebaseState" where
  "with_remote_record r remote =
     (case remote of None \<Rightarrow> r
      | Some x \<Rightarrow> r\<lparr>rb_last_remote_sync := rb_last_remote_sync x, rb_last_remote := rb_last_remote x,
                   rb_last_refresh := or_else (rb_last_refresh x) (rb_last_refresh r),
                   rb_last_reason := or_else (rb_last_reason r) (rb_last_reason x),
                   rb_freshness_verdict := rb_freshness_verdict x, rb_freshness_source := rb_freshness_source x,
                   rb_freshness_safe := rb_freshness_safe x,
                   rb_freshness_target_sha := rb_freshness_target_sha x\<rparr>)"

section \<open>The seams\<close>

text \<open>
  The answers of a seam. \<open>se_context\<close> is what \<^verbatim>\<open>_auto_integrate_resolve_context\<close> gives, with \<open>None\<close> when the
  feature is off; an exception raised while the skip table or the first identity is read is \<open>Raised\<close> in
  \<open>se_identity\<close>, as both end in the same handler.
\<close>

record SeamAnswers =
  se_context :: "SeamContext option observed"
  se_missing_target :: string
  se_skip :: SkipAnswers
  se_identity :: "ConflictIdentity observed"
  se_attempts :: "nat \<Rightarrow> AttemptAnswers"

text \<open>The resolvers handed down: one for the endpoint merge, one for a paused rebase.\<close>

definition finish_seam :: "seam_end \<Rightarrow> RebaseState \<Rightarrow> string \<Rightarrow> bool \<Rightarrow> bool \<Rightarrow> RebaseState observed" where
  "finish_seam e s target resolver allowed =
     (case e of
        SeamViolation m \<Rightarrow> TerminalStateViolation m
      | SeamFailed m refresh i \<Rightarrow> Observed (charge_failed_attempt
          (record_refresh (record_skip (''unexpected failure: '' @ m) (Some target)) refresh) s target i
          (resolver \<and> allowed))
      | SeamUnsafe r \<Rightarrow> Observed r
      | SeamDone r remote exhausted i \<Rightarrow>
          (let r1 = with_remote_record r remote;
               r2 = (if exhausted then record_attempt_budget_spent r1 else r1)
           in Observed (apply_conflict_budget r2 s target (resolver \<and> \<not> allowed) i)))"

definition auto_integrate_after_commit_inner ::
    "SeamAnswers \<Rightarrow> RebaseState \<Rightarrow> bool \<Rightarrow> bool \<Rightarrow> RebaseState option observed" where
  "auto_integrate_after_commit_inner q s resolver stop_resolver =
     and_then (se_context q) (\<lambda>ctx.
       case ctx of None \<Rightarrow> Observed None
       | Some c \<Rightarrow> (case check_early_skips c (se_missing_target q) (se_skip q) of
           (Some skip, _) \<Rightarrow> Observed (Some (carry_budget_through_skip skip s))
         | (None, None) \<Rightarrow> Observed None
         | (None, Some target) \<Rightarrow>
             and_then (se_identity q) (\<lambda>i.
               let allowed = resolver_allowed s target i;
                   e = attempt_loop (MAX_INTEGRATION_ATTEMPTS - 1) (se_attempts q) 0 target
                         (stop_resolver \<and> allowed) False (sc_refresh c) i
               in and_then (finish_seam e s target resolver allowed) (\<lambda>r. Observed (Some r)))))"

definition auto_integrate_after_commit ::
    "SeamAnswers \<Rightarrow> RebaseState \<Rightarrow> bool \<Rightarrow> bool \<Rightarrow> RebaseState option observed" where
  "auto_integrate_after_commit q s resolver stop_resolver =
     (case auto_integrate_after_commit_inner q s resolver stop_resolver of
        Observed r \<Rightarrow> Observed (preserve_unresolved_resolution_state r s)
      | TerminalStateViolation m \<Rightarrow> TerminalStateViolation m
      | Raised m \<Rightarrow> Observed (Some (record_skip (''unexpected failure: '' @ m) None)))"

text \<open>
  The phase boundary. Its gate (\<^verbatim>\<open>phase_boundary_outcome\<close>) may end it; \<open>BoundaryRaised\<close> carries the target the
  handler could still resolve.
\<close>

datatype boundary = BoundaryOff | BoundaryEnds "RebaseState option" | BoundaryRaised string string | BoundaryOpen SeamAnswers

definition auto_integrate_on_phase_transition_inner ::
    "boundary \<Rightarrow> RebaseState \<Rightarrow> bool \<Rightarrow> bool \<Rightarrow> RebaseState option observed" where
  "auto_integrate_on_phase_transition_inner b s resolver stop_resolver =
     (case b of
        BoundaryOff \<Rightarrow> Observed None
      | BoundaryEnds r \<Rightarrow> Observed r
      | BoundaryRaised m target \<Rightarrow>
          Observed (Some (record_skip (''phase-transition pre-check failed: '' @ m) (Some target)))
      | BoundaryOpen q \<Rightarrow> auto_integrate_after_commit q s resolver stop_resolver)"

definition auto_integrate_on_phase_transition ::
    "boundary \<Rightarrow> RebaseState \<Rightarrow> bool \<Rightarrow> bool \<Rightarrow> RebaseState option observed" where
  "auto_integrate_on_phase_transition b s resolver stop_resolver =
     and_then (auto_integrate_on_phase_transition_inner b s resolver stop_resolver)
       (\<lambda>r. Observed (preserve_unresolved_resolution_state r s))"

section \<open>Evidence\<close>

text \<open>
  C24. A phase boundary never launders an unresolved integration: whatever git and the resolver answer,
  when the run has an unresolved integration (or an exhausted resolver) on record, the boundary
  leaves a record that either landed or still carries that evidence, unless it reports a violated
  terminal state.
\<close>

theorem boundary_keeps_evidence:
  assumes "retains_unresolved_resolution_state s"
  shows "(\<exists>m. auto_integrate_on_phase_transition b s resolver stop = TerminalStateViolation m)
    \<or> (\<exists>r. auto_integrate_on_phase_transition b s resolver stop = Observed (Some r)
         \<and> (rb_fast_forwarded r
            \<or> (rb_resolution_exhausted s \<longrightarrow> rb_resolution_exhausted r)
              \<and> (integration_unresolved s \<longrightarrow> integration_unresolved r)))"
proof (cases "auto_integrate_on_phase_transition_inner b s resolver stop")
  case (Observed o')
  from preserve_keeps_evidence [OF assms, of o'] Observed show ?thesis
    by (metis auto_integrate_on_phase_transition_def and_then_def observed.simps(10))
next
  case (Raised m)
  then show ?thesis
    by (auto simp: auto_integrate_on_phase_transition_inner_def auto_integrate_after_commit_def
        split: boundary.splits observed.splits)
next
  case (TerminalStateViolation m)
  then show ?thesis by (simp add: auto_integrate_on_phase_transition_def and_then_def)
qed

theorem boundary_keeps_evidence_witness:
  "\<exists>r. auto_integrate_on_phase_transition (BoundaryEnds (Some (record_skip ''dirty'' (Some ''main''))))
         (record_conflict ''both'' (Some ''main'')) True True = Observed (Some r)
     \<and> rb_last_action r = Some ''skipped'' \<and> integration_unresolved r"
proof -
  let ?s = "record_conflict ''both'' (Some ''main'')"
  let ?b = "BoundaryEnds (Some (record_skip ''dirty'' (Some ''main'')))"
  have s: "retains_unresolved_resolution_state ?s" "integration_unresolved ?s" by code_simp+
  have "case auto_integrate_on_phase_transition ?b ?s True True of
      Observed (Some r) \<Rightarrow> rb_last_action r = Some ''skipped'' \<and> \<not> rb_fast_forwarded r | _ \<Rightarrow> False"
    by code_simp
  with boundary_keeps_evidence [OF s(1), of ?b True True] s(2) show ?thesis
    by (auto split: observed.splits option.splits)
qed

text \<open>
  The commit seam is guarded only in part: an exception before the attempts (the context cannot be
  resolved, say) is turned into a skip that bypasses the guard, so the evidence is lost.
\<close>

definition broken_context :: SeamAnswers where
  "broken_context = \<lparr>se_context = Raised ''not a git repository'', se_missing_target = [],
     se_skip = \<lparr>sk_target_sha = None, sk_head_sha = Inl [], sk_precondition = None, sk_reclaimed = False,
                sk_precondition_again = None\<rparr>,
     se_identity = Observed unknown_identity,
     se_attempts = (\<lambda>_. \<lparr>at_freshen = Raised [], at_identity = Raised [], at_git = Raised []\<rparr>)\<rparr>"

text \<open>
  C40. The commit seam launders an unresolved integration whenever a read before its attempts fails. For every run with
  an unresolved integration (or an exhausted resolver) on record, when the context of the commit seam cannot be resolved
  or the identity of the conflict cannot be read, the seam records a skip without the evidence, although nothing landed:
  the conflict count starts again, the resolver is allowed for every conflict, and the dispatch gate opens where there is
  no worktree to look at. The phase boundary, given the same answers, keeps the evidence.
\<close>

theorem commit_seam_drops_evidence:
  assumes "retains_unresolved_resolution_state s"
    and "(\<exists>m. se_context q = Raised m)
      \<or> (\<exists>c t m. se_context q = Observed (Some c) \<and> check_early_skips c (se_missing_target q) (se_skip q) = (None, Some t)
            \<and> se_identity q = Raised m)"
  shows "(\<exists>r. auto_integrate_after_commit q s resolver stop = Observed (Some r) \<and> \<not> rb_fast_forwarded r
      \<and> \<not> retains_unresolved_resolution_state r \<and> rb_consecutive_conflicts r = 0
      \<and> (\<forall>t i. resolver_allowed r t i) \<and> dispatch_allowed (inspect_integration_resolution None r))
    \<and> (\<exists>r. auto_integrate_on_phase_transition (BoundaryOpen q) s resolver stop = Observed (Some r)
      \<and> \<not> rb_fast_forwarded r \<and> retains_unresolved_resolution_state r)"
proof -
  have "\<exists>m. auto_integrate_after_commit_inner q s resolver stop = Raised m"
    using assms(2) by (auto simp: auto_integrate_after_commit_inner_def and_then_def)
  then obtain r m where seam: "auto_integrate_after_commit q s resolver stop = Observed (Some r)"
    and r: "r = record_skip m None"
    by (auto simp: auto_integrate_after_commit_def)
  have bare: "\<not> rb_fast_forwarded r" "persisted_integration_resolution_verdict r = None" "rb_consecutive_conflicts r = 0"
    by (simp_all add: r record_skip_def new_rebase_state_def persisted_integration_resolution_verdict_def
        integration_unresolved_def ACTION_SKIPPED_def ACTION_CONFLICT_def)
  have allowed: "\<forall>t i. resolver_allowed r t i"
    using bare(3) by (simp add: resolver_allowed_def prior_conflict_count_def MAX_CONSECUTIVE_RESOLVER_ATTEMPTS_def)
  have opens: "dispatch_allowed (inspect_integration_resolution None r)"
    using bare(2) by (simp add: inspect_integration_resolution_def dispatch_allowed_def verdict_from_persisted_reasons_def)
  obtain r' where r': "preserve_unresolved_resolution_state (Some r) s = Some r'"
    "rb_fast_forwarded r' \<or> (rb_resolution_exhausted s \<longrightarrow> rb_resolution_exhausted r')
       \<and> (integration_unresolved s \<longrightarrow> integration_unresolved r')"
    by (rule preserve_keeps_evidence [OF assms(1)])
  have landed: "\<not> rb_fast_forwarded r'" using r'(1) bare(1)
    by (auto simp: preserve_unresolved_resolution_state_def Let_def split: if_splits)
  with r'(2) assms(1) have "retains_unresolved_resolution_state r'"
    by (auto simp: retains_unresolved_resolution_state_def persisted_integration_resolution_verdict_def split: if_splits)
  moreover have "auto_integrate_on_phase_transition (BoundaryOpen q) s resolver stop = Observed (Some r')"
    using r'(1) seam by (simp add: auto_integrate_on_phase_transition_def auto_integrate_on_phase_transition_inner_def
        and_then_def)
  ultimately show ?thesis using seam bare allowed opens landed by (simp add: retains_unresolved_resolution_state_def)
qed

theorem commit_seam_drops_evidence_witness:
  "\<exists>r. auto_integrate_after_commit broken_context ((record_conflict ''both'' (Some ''main''))\<lparr>rb_consecutive_conflicts := 2\<rparr>)
        True True = Observed (Some r)
     \<and> \<not> retains_unresolved_resolution_state r \<and> rb_consecutive_conflicts r = 0"
proof -
  let ?s = "(record_conflict ''both'' (Some ''main''))\<lparr>rb_consecutive_conflicts := 2\<rparr>"
  have s: "retains_unresolved_resolution_state ?s" by code_simp
  have "\<exists>m. se_context broken_context = Raised m" by (simp add: broken_context_def)
  from commit_seam_drops_evidence [OF s disjI1 [OF this], of True True] show ?thesis by blast
qed

text \<open>
  A skip forgives the budget of a conflict with the remote: the count is carried with the identity
  of the feature scope, which never matches a conflict recorded with the remote scope.
\<close>

theorem skip_refunds_remote_conflict:
  assumes "rb_last_target s = Some target" and "rb_last_conflict_scope s = ''remote''"
    and "0 < rb_consecutive_conflicts s"
  shows "rb_consecutive_conflicts (carry_budget_through_skip (record_skip reason (Some target)) s) = 0
    \<and> prior_conflict_count s target (unknown_identity\<lparr>ci_scope := ''remote''\<rparr>) = rb_consecutive_conflicts s"
  using assms
  by (simp add: carry_budget_through_skip_def apply_conflict_budget_def record_skip_def new_rebase_state_def
      prior_conflict_count_def matches_def differs_def unknown_identity_def ACTION_SKIPPED_def ACTION_CONFLICT_def Let_def)

theorem skip_refunds_remote_conflict_witness:
  "rb_consecutive_conflicts (carry_budget_through_skip (record_skip ''dirty'' (Some ''main''))
     ((record_conflict ''both'' (Some ''main''))\<lparr>rb_consecutive_conflicts := 2, rb_last_conflict_scope := ''remote''\<rparr>)) = 0"
proof -
  let ?s = "(record_conflict ''both'' (Some ''main''))\<lparr>rb_consecutive_conflicts := 2, rb_last_conflict_scope := ''remote''\<rparr>"
  have "rb_last_target ?s = Some ''main''" "rb_last_conflict_scope ?s = ''remote''" "0 < rb_consecutive_conflicts ?s"
    by (simp_all add: record_conflict_def)
  from skip_refunds_remote_conflict [OF this, of "''dirty''"] show ?thesis by simp
qed

section \<open>Resolutions paid for in vain\<close>

lemma skip_fields [simp]:
  "rb_last_target (record_skip m t) = t" "\<not> rb_fast_forwarded (record_skip m t)"
  "rb_last_action (record_skip m t) = Some ACTION_SKIPPED" "rb_last_conflict_scope (record_skip m t) = []"
  by (simp_all add: record_skip_def new_rebase_state_def)

lemma conflict_fields [simp]:
  "rb_last_target (record_conflict m t) = t" "\<not> rb_fast_forwarded (record_conflict m t)"
  "rb_last_target (record_resolution_exhausted m t) = t" "\<not> rb_fast_forwarded (record_resolution_exhausted m t)"
  by (simp_all add: record_conflict_def record_resolution_exhausted_def new_rebase_state_def)

lemma outcome_fields [simp]:
  "rb_last_target (record_rebase_outcome o' a m t) = Some t" "\<not> rb_fast_forwarded (record_rebase_outcome o' a m t)"
  by (simp_all add: record_rebase_outcome_def new_rebase_state_def split: prod.splits)

lemma refresh_fields [simp]:
  "rb_last_target (record_refresh r f) = rb_last_target r" "rb_fast_forwarded (record_refresh r f) = rb_fast_forwarded r"
  "rb_last_action (record_refresh r f) = rb_last_action r"
  "rb_last_conflict_scope (record_refresh r f) = rb_last_conflict_scope r"
  by (simp_all add: record_refresh_def split: option.splits)

lemma actions_differ [simp]: "ACTION_SKIPPED \<noteq> ACTION_CONFLICT"
  by (simp add: ACTION_SKIPPED_def ACTION_CONFLICT_def)

lemma spent_fields [simp]:
  "rb_last_target (record_attempt_budget_spent r) = rb_last_target r"
  "rb_fast_forwarded (record_attempt_budget_spent r) = rb_fast_forwarded r"
  "rb_last_action (record_attempt_budget_spent r) = rb_last_action r"
  by (simp_all add: record_attempt_budget_spent_def Let_def)

definition conflict_record :: "string \<Rightarrow> RebaseRunResult \<Rightarrow> bool" where
  "conflict_record t run = (case rr_short_circuit run of None \<Rightarrow> True
     | Some r \<Rightarrow> rb_last_target r = Some t \<and> \<not> rb_fast_forwarded r)"

lemma endpoint_merge_conflict_record: "conflict_record t (endpoint_merge_result g t o')"
  by (simp add: conflict_record_def endpoint_merge_result_def split: option.split)

lemma fallback_conflict_record: "conflict_record t (fallback_to_endpoint_merge g t o')"
  using endpoint_merge_conflict_record by (simp add: fallback_to_endpoint_merge_def) (simp add: conflict_record_def)

lemma resolved_conflict_record: "resolve_conflicted_rebase g t = Some run \<Longrightarrow> conflict_record t run"
  by (auto simp: resolve_conflicted_rebase_def conflict_record_def split: if_splits prod.splits bool.splits option.splits)

lemma run_conflict_record: "conflict_record t (run_rebase_or_merge g t p st)"
proof -
  have "conflict_record t \<lparr>rr_rebase_outcome = o', rr_merge_attempted = a, rr_merge_outcome = m,
      rr_short_circuit = None\<rparr>" for o' a m by (simp add: conflict_record_def)
  then show ?thesis
    unfolding run_rebase_or_merge_def
    by (auto intro: endpoint_merge_conflict_record fallback_conflict_record resolved_conflict_record
        split: option.split RebaseResult.split)
qed

lemma short_circuit_spec:
  "rr_short_circuit (run_rebase_or_merge g t p st) = Some r \<Longrightarrow> rb_last_target r = Some t \<and> \<not> rb_fast_forwarded r"
  using run_conflict_record [of t g p st] by (simp add: conflict_record_def)

text \<open>Publication is fail-open: it does not change whether the record says the target landed.\<close>

definition publication_keeps_landing :: "GitAnswers \<Rightarrow> bool" where
  "publication_keeps_landing g \<longleftrightarrow> (\<forall>r. rb_fast_forwarded (ga_published g r) = rb_fast_forwarded r)"

lemma integrate_once_spec:
  assumes "integrate_once g t p f st = (r, retry)" and "publication_keeps_landing g"
  shows "rb_fast_forwarded r \<or> rb_last_target r = Some t"
proof (cases "rr_short_circuit (run_rebase_or_merge g t p st)")
  case None
  obtain ok reason where ff: "ga_fast_forward g = (ok, reason)" by fastforce
  have pub: "rb_fast_forwarded (ga_published g x) = rb_fast_forwarded x" for x
    using assms(2) by (simp add: publication_keeps_landing_def)
  show ?thesis
    using assms(1) None ff
    by (cases "ga_head_readable g"; cases ok) (auto simp: integrate_once_def pub Let_def)
next
  case (Some x)
  with assms(1) short_circuit_spec [OF Some] show ?thesis by (auto simp: integrate_once_def Let_def)
qed

text \<open>
  A seam about one conflict, with local git only: the target is \<open>t\<close> and every identity read is \<open>i\<close>.
\<close>

definition seam_about :: "string \<Rightarrow> ConflictIdentity \<Rightarrow> SeamAnswers \<Rightarrow> bool" where
  "seam_about t i q \<longleftrightarrow>
     (\<exists>c. se_context q = Observed (Some c) \<and> sc_target c = Some t) \<and> se_identity q = Observed i
     \<and> (\<forall>k. (\<exists>f. at_freshen (se_attempts q k) = Observed (None, f)) \<and> at_identity (se_attempts q k) = Observed i
           \<and> (\<forall>g. at_git (se_attempts q k) = Observed g \<longrightarrow> publication_keeps_landing g))"

definition end_about :: "string \<Rightarrow> ConflictIdentity \<Rightarrow> seam_end \<Rightarrow> bool" where
  "end_about t i e = (case e of
     SeamViolation m \<Rightarrow> True | SeamFailed m f j \<Rightarrow> j = i | SeamUnsafe r \<Rightarrow> False
   | SeamDone r remote ex j \<Rightarrow> j = i \<and> remote = None \<and> (rb_fast_forwarded r \<or> rb_last_target r = Some t))"

lemma run_attempt_about:
  assumes "at_freshen a = Observed (None, f')" and "at_identity a = Observed i"
    and "\<And>g. at_git a = Observed g \<Longrightarrow> publication_keeps_landing g"
  shows "case run_attempt a t st p f i of AttemptStops e \<Rightarrow> end_about t i e
    | AttemptRetries r remote f'' j \<Rightarrow> end_about t i (SeamDone r remote True j)"
proof (cases "at_git a")
  case (Observed g)
  obtain r retry where io: "integrate_once g t p f' st = (r, retry)" by fastforce
  from integrate_once_spec [OF io assms(3) [OF Observed]] Observed io assms(1,2) show ?thesis
    by (simp add: run_attempt_def end_about_def)
qed (use assms in \<open>simp_all add: run_attempt_def end_about_def\<close>)

lemma attempt_loop_about:
  assumes "\<And>k. (\<exists>f. at_freshen (as k) = Observed (None, f)) \<and> at_identity (as k) = Observed i
      \<and> (\<forall>g. at_git (as k) = Observed g \<longrightarrow> publication_keeps_landing g)"
  shows "end_about t i (attempt_loop n as k t st p f i)"
proof (induction n arbitrary: k p f)
  case 0
  obtain f' where "at_freshen (as k) = Observed (None, f')" using assms by blast
  from run_attempt_about [OF this, of i t st p f] assms [of k] show ?case
    by (auto simp: attempt_loop.simps split: attempt_end.splits)
next
  case (Suc n)
  obtain f' where "at_freshen (as k) = Observed (None, f')" using assms by blast
  from run_attempt_about [OF this, of i t st p f] assms [of k]
  have "case run_attempt (as k) t st p f i of AttemptStops e \<Rightarrow> end_about t i e
    | AttemptRetries r remote f'' j \<Rightarrow> j = i"
    by (auto simp: end_about_def split: attempt_end.splits)
  with Suc.IH show ?case by (auto simp: attempt_loop.simps [of "Suc n"] split: attempt_end.splits)
qed

text \<open>The resolver was handed down, and the seam ended in a conflict or with an exception.\<close>

definition vain_end :: "seam_end \<Rightarrow> bool" where
  "vain_end e = (case e of SeamFailed m f j \<Rightarrow> True
     | SeamDone r remote ex j \<Rightarrow> \<not> rb_fast_forwarded r \<and> rb_last_action r = Some ACTION_CONFLICT
     | _ \<Rightarrow> False)"

definition paid_in_vain :: "SeamAnswers \<Rightarrow> RebaseState \<Rightarrow> bool" where
  "paid_in_vain q s =
     (case se_context q of
        Observed (Some c) \<Rightarrow> (case check_early_skips c (se_missing_target q) (se_skip q) of
          (None, Some target) \<Rightarrow> (case se_identity q of
            Observed i \<Rightarrow> resolver_allowed s target i
              \<and> vain_end (attempt_loop (MAX_INTEGRATION_ATTEMPTS - 1) (se_attempts q) 0 target True False (sc_refresh c) i)
          | _ \<Rightarrow> False)
        | _ \<Rightarrow> False)
      | _ \<Rightarrow> False)"

text \<open>The commit seams of a run: the record changes when the seam returns one.\<close>

definition seam_next :: "SeamAnswers \<Rightarrow> RebaseState \<Rightarrow> RebaseState" where
  "seam_next q s = (case auto_integrate_after_commit q s True True of Observed (Some r) \<Rightarrow> r | _ \<Rightarrow> s)"

fun never_lands :: "RebaseState \<Rightarrow> SeamAnswers list \<Rightarrow> bool" where
  "never_lands s [] = True"
| "never_lands s (q # qs) =
     ((case auto_integrate_after_commit q s True True of Observed (Some r) \<Rightarrow> \<not> rb_fast_forwarded r | _ \<Rightarrow> True)
      \<and> never_lands (seam_next q s) qs)"

fun vain_payments :: "RebaseState \<Rightarrow> SeamAnswers list \<Rightarrow> nat" where
  "vain_payments s [] = 0"
| "vain_payments s (q # qs) = (if paid_in_vain q s then 1 else 0) + vain_payments (seam_next q s) qs"

lemma preserve_keeps_count:
  assumes "preserve_unresolved_resolution_state (Some r) s = Some r'"
  shows "prior_conflict_count r' t i = prior_conflict_count r t i \<and> rb_fast_forwarded r' = rb_fast_forwarded r"
proof -
  have r': "recorded_identity r' = recorded_identity r" "rb_last_target r' = rb_last_target r"
    "rb_consecutive_conflicts r' = rb_consecutive_conflicts r" "rb_fast_forwarded r' = rb_fast_forwarded r"
    using assms
    by (auto simp: preserve_unresolved_resolution_state_def Let_def recorded_identity_def split: if_splits)
  moreover have "matches i r' = matches i r" by (rule matches_cong [OF r'(1)])
  ultimately show ?thesis by (simp add: prior_conflict_count_def)
qed

lemma preserve_some: "\<exists>r'. preserve_unresolved_resolution_state (Some r) s = Some r'"
  by (simp add: preserve_unresolved_resolution_state_def Let_def)

lemma finish_seam_counts:
  assumes "end_about t i e" and "finish_seam e s t True (resolver_allowed s t i) = Observed r" and "\<not> rb_fast_forwarded r"
  shows "prior_conflict_count r t i \<ge> prior_conflict_count s t i + (if resolver_allowed s t i \<and> vain_end e then 1 else 0)"
proof (cases e)
  case (SeamFailed m f j)
  with assms have r: "r = charge_failed_attempt (record_refresh (record_skip (''unexpected failure: '' @ m) (Some t)) f) s t i
      (resolver_allowed s t i)" by (auto simp: finish_seam_def end_about_def)
  have "matches i r" "rb_last_target r = Some t"
    "rb_consecutive_conflicts r = prior_conflict_count s t i + (if resolver_allowed s t i then 1 else 0)"
    unfolding r by (auto simp: charge_failed_attempt_def matches_def differs_def Let_def)
  then show ?thesis using SeamFailed by (simp add: prior_conflict_count_def [of r] vain_end_def)
next
  case (SeamDone x remote ex j)
  define y where "y = (if ex then record_attempt_budget_spent x else x)"
  have y: "rb_fast_forwarded y = rb_fast_forwarded x" "rb_last_action y = rb_last_action x"
    "rb_last_target y = rb_last_target x" by (simp_all add: y_def)
  from SeamDone assms(1,2) have r: "r = apply_conflict_budget y s t (\<not> resolver_allowed s t i) i"
    by (auto simp: finish_seam_def end_about_def with_remote_record_def y_def Let_def)
  then have "rb_fast_forwarded r = rb_fast_forwarded y"
    by (simp add: apply_conflict_budget_def Let_def)
  with assms(3) y SeamDone assms(1) have nff: "\<not> rb_fast_forwarded y" and tgt: "rb_last_target y = Some t"
    by (auto simp: end_about_def)
  show ?thesis
    using budget_counts_conflict [OF nff _ tgt, of s _ i] budget_carried_by_others [OF nff _ tgt, of s _ i]
    by (cases "rb_last_action y = Some ACTION_CONFLICT") (simp_all add: r SeamDone vain_end_def y nff)
qed (use assms in \<open>simp_all add: finish_seam_def end_about_def\<close>)

lemma skip_keeps_count:
  assumes "ci_scope i = ''feature''" and "rb_last_target x = Some t" and "\<not> rb_fast_forwarded x"
    and "rb_last_action x \<noteq> Some ACTION_CONFLICT"
  shows "prior_conflict_count (carry_budget_through_skip x s) t i = prior_conflict_count s t i"
proof -
  let ?r = "carry_budget_through_skip x s"
  have r: "recorded_identity ?r = recorded_identity s" "rb_last_target ?r = Some t"
    "rb_consecutive_conflicts ?r = prior_conflict_count s t unknown_identity"
    using assms
    by (simp_all add: carry_budget_through_skip_def apply_conflict_budget_def Let_def recorded_identity_def with_conflict_identity_def)
  have "matches i ?r = matches i s" by (rule matches_cong [OF r(1)])
  moreover have "matches i s \<Longrightarrow> matches unknown_identity s"
    using assms(1) by (intro unknown_matches) (auto simp: matches_def differs_def split: if_splits)
  ultimately show ?thesis using r by (auto simp: prior_conflict_count_def)
qed

lemma early_skip_fields:
  "check_early_skips c m k = (Some x, y) \<Longrightarrow> sc_target c = Some t
     \<Longrightarrow> rb_last_target x = Some t \<and> \<not> rb_fast_forwarded x \<and> rb_last_action x = Some ACTION_SKIPPED"
  by (auto simp: check_early_skips_def check_skip_conditions_def handle_precondition_failure_def
      reclaim_and_retry_preconditions_def split: option.splits if_splits sum.splits)

lemma early_skip_target: "check_early_skips c m k = (None, y) \<Longrightarrow> sc_target c = Some t \<Longrightarrow> y = Some t"
  by (auto simp: check_early_skips_def split: option.splits)

lemma skipping_seam_counts:
  assumes c: "se_context q = Observed (Some c)" "sc_target c = Some t" and scope: "ci_scope i = ''feature''"
    and x: "check_early_skips c (se_missing_target q) (se_skip q) = (Some x, y)"
  shows "prior_conflict_count (seam_next q s) t i = prior_conflict_count s t i \<and> \<not> paid_in_vain q s"
proof -
  let ?r = "carry_budget_through_skip x s"
  obtain r' where r': "preserve_unresolved_resolution_state (Some ?r) s = Some r'" using preserve_some by blast
  then have "seam_next q s = r'"
    using x c by (simp add: seam_next_def auto_integrate_after_commit_def auto_integrate_after_commit_inner_def and_then_def)
  moreover have "prior_conflict_count ?r t i = prior_conflict_count s t i"
    using skip_keeps_count [OF scope, of x t s] early_skip_fields [OF x c(2)] by simp
  ultimately show ?thesis using preserve_keeps_count [OF r', of t i] x c by (simp add: paid_in_vain_def)
qed

lemma attempting_seam_counts:
  assumes q: "seam_about t i q" and c: "se_context q = Observed (Some c)"
    and x: "check_early_skips c (se_missing_target q) (se_skip q) = (None, Some t)"
    and nl: "case auto_integrate_after_commit q s True True of Observed (Some r) \<Rightarrow> \<not> rb_fast_forwarded r | _ \<Rightarrow> True"
  shows "(prior_conflict_count (seam_next q s) t i \<ge> prior_conflict_count s t i + (if paid_in_vain q s then 1 else 0))
      \<and> (paid_in_vain q s \<longrightarrow> resolver_allowed s t i)"
proof -
  let ?e = "\<lambda>st. attempt_loop (MAX_INTEGRATION_ATTEMPTS - 1) (se_attempts q) 0 t st False (sc_refresh c) i"
  let ?a = "resolver_allowed s t i"
  have id: "se_identity q = Observed i" using q by (simp add: seam_about_def)
  have e: "end_about t i (?e ?a)" using q by (intro attempt_loop_about) (simp add: seam_about_def)
  have inner: "auto_integrate_after_commit_inner q s True True =
      and_then (finish_seam (?e ?a) s t True ?a) (\<lambda>r. Observed (Some r))"
    using x c id by (simp add: auto_integrate_after_commit_inner_def and_then_def Let_def)
  have paid: "paid_in_vain q s \<longleftrightarrow> ?a \<and> vain_end (?e True)"
    using x c id by (simp add: paid_in_vain_def)
  show ?thesis
  proof (cases "finish_seam (?e ?a) s t True ?a")
    case (Observed r)
    obtain r' where r': "preserve_unresolved_resolution_state (Some r) s = Some r'" using preserve_some by blast
    have res: "auto_integrate_after_commit q s True True = Observed (Some r')"
      using inner Observed r' by (simp add: auto_integrate_after_commit_def and_then_def)
    then have "\<not> rb_fast_forwarded r" using nl preserve_keeps_count [OF r', of t i] by simp
    from finish_seam_counts [OF e Observed this] preserve_keeps_count [OF r', of t i] res paid
    show ?thesis by (auto simp: seam_next_def split: if_splits)
  next
    case (Raised m)
    then show ?thesis by (simp add: finish_seam_def Let_def split: seam_end.splits)
  next
    case (TerminalStateViolation m)
    then have "seam_next q s = s" and "?a \<Longrightarrow> \<not> vain_end (?e True)"
      using inner by (auto simp: seam_next_def auto_integrate_after_commit_def and_then_def finish_seam_def
          vain_end_def Let_def split: seam_end.splits)
    then show ?thesis using paid by auto
  qed
qed

lemma seam_step_counts:
  assumes q: "seam_about t i q" and scope: "ci_scope i = ''feature''"
    and nl: "case auto_integrate_after_commit q s True True of Observed (Some r) \<Rightarrow> \<not> rb_fast_forwarded r | _ \<Rightarrow> True"
  shows "prior_conflict_count (seam_next q s) t i \<ge> prior_conflict_count s t i + (if paid_in_vain q s then 1 else 0)"
    and "paid_in_vain q s \<Longrightarrow> prior_conflict_count s t i < MAX_CONSECUTIVE_RESOLVER_ATTEMPTS"
proof -
  from q obtain c where c: "se_context q = Observed (Some c)" "sc_target c = Some t"
    by (auto simp: seam_about_def)
  obtain x y where xy: "check_early_skips c (se_missing_target q) (se_skip q) = (x, y)" by fastforce
  note facts = skipping_seam_counts [OF c scope] attempting_seam_counts [OF q c(1) _ nl]
    early_skip_target [of c "se_missing_target q" "se_skip q" y t]
  show "prior_conflict_count (seam_next q s) t i \<ge> prior_conflict_count s t i + (if paid_in_vain q s then 1 else 0)"
    using facts c(2) xy by (cases x) auto
  show "paid_in_vain q s \<Longrightarrow> prior_conflict_count s t i < MAX_CONSECUTIVE_RESOLVER_ATTEMPTS"
    using facts c(2) xy by (cases x) (auto simp: resolver_allowed_def)
qed

text \<open>
  C14. The conflict budget bounds the resolver. In any sequence of commit seams about one conflict (on a feature branch
  with local git: in every seam the context resolves to the same target, every identity read gives the same tips and
  every freshening read answers, none of them raises, and publication does not change whether a record says it landed)
  in which nothing lands, whatever the integration attempts and the resolver do and whatever skips come between, at most
  two seams hand the conflict to the resolver and end in a conflict or an exception, less what the record already counts.
\<close>

theorem resolver_budget_bounded:
  assumes "\<forall>q \<in> set qs. seam_about t i q" and "ci_scope i = ''feature''" and "never_lands s qs"
  shows "int (vain_payments s qs) \<le> max 0 (2 - prior_conflict_count s t i)"
  using assms(1,3)
proof (induction qs arbitrary: s)
  case Nil
  then show ?case by simp
next
  case (Cons q qs)
  from Cons.prems have "case auto_integrate_after_commit q s True True of Observed (Some r) \<Rightarrow> \<not> rb_fast_forwarded r | _ \<Rightarrow> True"
    and rest: "never_lands (seam_next q s) qs" and q: "seam_about t i q" by simp_all
  note step = seam_step_counts [OF q assms(2) this(1)]
  have "int (vain_payments (seam_next q s) qs) \<le> max 0 (2 - prior_conflict_count (seam_next q s) t i)"
    using Cons.IH [OF _ rest] Cons.prems(1) by simp
  with step show ?case by (auto simp: MAX_CONSECUTIVE_RESOLVER_ATTEMPTS_def split: if_splits)
qed

definition conflicting_seam :: SeamAnswers where
  "conflicting_seam =
     \<lparr>se_context = Observed (Some \<lparr>sc_current_branch = Some ''feat'', sc_target = Some ''main'', sc_refresh = None\<rparr>),
      se_missing_target = [],
      se_skip = \<lparr>sk_target_sha = Some ''b'', sk_head_sha = Inr ''a'', sk_precondition = None, sk_reclaimed = False,
                 sk_precondition_again = None\<rparr>,
      se_identity = Observed unknown_identity,
      se_attempts = (\<lambda>_. \<lparr>at_freshen = Observed (None, None), at_identity = Observed unknown_identity,
        at_git = Observed \<lparr>ga_total = Some 1, ga_merges = Some 0, ga_roots = Some 0, ga_cherry = Some 1,
          ga_changed_paths = None, ga_rebase = RebaseConflicts [''f''], ga_flag_recorded = True,
          ga_resolution = (False, None), ga_landed_stops = False, ga_rebase_left = False,
          ga_endpoint_merge = Some \<lparr>mr_outcome = ''conflict'', mr_reason = None\<rparr>, ga_head_readable = True,
          ga_fast_forward = (False, []), ga_reclaimed = None, ga_published = (\<lambda>r. r)\<rparr>\<rparr>)\<rparr>"

theorem resolver_budget_bounded_witness:
  "vain_payments new_rebase_state [conflicting_seam, conflicting_seam, conflicting_seam] = 2
   \<and> int (vain_payments new_rebase_state [conflicting_seam, conflicting_seam, conflicting_seam]) \<le> 2"
proof -
  let ?qs = "[conflicting_seam, conflicting_seam, conflicting_seam]"
  have "seam_about ''main'' unknown_identity conflicting_seam"
    by (simp add: seam_about_def conflicting_seam_def publication_keeps_landing_def)
  moreover have "never_lands new_rebase_state ?qs" "vain_payments new_rebase_state ?qs = 2" by code_simp+
  moreover have "prior_conflict_count new_rebase_state ''main'' unknown_identity = 0" by code_simp
  ultimately show ?thesis
    using resolver_budget_bounded [of ?qs "''main''" unknown_identity new_rebase_state]
    by (simp add: unknown_identity_def)
qed

end
