(* ===== verification/Json_Text.thy ===== *)
theory Json_Text
  imports Ralph_Prelude
begin

text \<open>
  What the program uses of Python's text and data codecs: UTF-8 decoding, \<^verbatim>\<open>json.loads\<close>, \<^verbatim>\<open>json.dumps(d, indent=2)\<close>
  of a dictionary of scalars, and \<^verbatim>\<open>base64\<close>. A text is a list of code points; bytes are a \<^typ>\<open>string\<close>,
  whose characters are the 256 byte values.
\<close>

type_synonym unicode = "nat list"

definition codes :: "string \<Rightarrow> unicode" where
  "codes s = map of_char s"

lemma codes_eq_iff [simp]: "codes s = codes t \<longleftrightarrow> s = t"
  by (auto simp: codes_def inj_map_eq_map inj_def)

section \<open>UTF-8\<close>

definition is_continuation :: "nat \<Rightarrow> bool" where
  "is_continuation c \<longleftrightarrow> 128 \<le> c \<and> c < 192"

text \<open>The range of the second byte depends on the first: no overlong forms, no surrogates, no code point past the last.\<close>

definition second_byte_ok :: "nat \<Rightarrow> nat \<Rightarrow> bool" where
  "second_byte_ok b c \<longleftrightarrow> is_continuation c
     \<and> (b = 224 \<longrightarrow> 160 \<le> c) \<and> (b = 237 \<longrightarrow> c < 160) \<and> (b = 240 \<longrightarrow> 144 \<le> c) \<and> (b = 244 \<longrightarrow> c < 144)"

fun utf8_decode :: "nat list \<Rightarrow> unicode option" where
  "utf8_decode [] = Some []"
| "utf8_decode (b # bs) =
     (if b < 128 then map_option (Cons b) (utf8_decode bs)
      else if 194 \<le> b \<and> b < 224 then
        (case bs of c # r \<Rightarrow>
            if is_continuation c then map_option (Cons ((b - 192) * 64 + (c - 128))) (utf8_decode r) else None
         | _ \<Rightarrow> None)
      else if 224 \<le> b \<and> b < 240 then
        (case bs of c # d # r \<Rightarrow>
            if second_byte_ok b c \<and> is_continuation d
            then map_option (Cons ((b - 224) * 4096 + (c - 128) * 64 + (d - 128))) (utf8_decode r) else None
         | _ \<Rightarrow> None)
      else if 240 \<le> b \<and> b < 245 then
        (case bs of c # d # e # r \<Rightarrow>
            if second_byte_ok b c \<and> is_continuation d \<and> is_continuation e
            then map_option (Cons ((b - 240) * 262144 + (c - 128) * 4096 + (d - 128) * 64 + (e - 128))) (utf8_decode r)
            else None
         | _ \<Rightarrow> None)
      else None)"

lemma utf8_decode_ascii: "\<forall>b \<in> set bs. b < 128 \<Longrightarrow> utf8_decode bs = Some bs"
  by (induction bs) simp_all

definition utf8_encode_code :: "nat \<Rightarrow> nat list" where
  "utf8_encode_code n =
     (if n < 128 then [n]
      else if n < 2048 then [192 + n div 64, 128 + n mod 64]
      else if n < 65536 then [224 + n div 4096, 128 + n div 64 mod 64, 128 + n mod 64]
      else [240 + n div 262144, 128 + n div 4096 mod 64, 128 + n div 64 mod 64, 128 + n mod 64])"

definition utf8_encode :: "unicode \<Rightarrow> string" where
  "utf8_encode t = map char_of (concat (map utf8_encode_code t))"

lemma codes_utf8_encode_ascii:
  assumes "\<forall>c \<in> set t. c < 128"
  shows "codes (utf8_encode t) = t"
proof -
  have "concat (map utf8_encode_code t) = t" using assms by (induction t) (simp_all add: utf8_encode_code_def)
  moreover have "map (\<lambda>c. c mod 256) t = t" using assms by (intro map_idI) auto
  ultimately show ?thesis by (simp add: utf8_encode_def codes_def comp_def)
qed

section \<open>JSON values and strings\<close>

datatype json = JNull | JBool bool | JNumber unicode | JString unicode | JArray "json list" | JObject "(unicode, json) dict"

definition hexd :: "nat \<Rightarrow> nat" where
  "hexd n = (if n < 10 then 48 + n else 87 + n)"

definition hex_val :: "nat \<Rightarrow> nat option" where
  "hex_val c = (if 48 \<le> c \<and> c \<le> 57 then Some (c - 48) else if 97 \<le> c \<and> c \<le> 102 then Some (c - 87)
     else if 65 \<le> c \<and> c \<le> 70 then Some (c - 55) else None)"

definition hex4 :: "nat \<Rightarrow> unicode" where
  "hex4 n = [hexd (n div 4096 mod 16), hexd (n div 256 mod 16), hexd (n div 16 mod 16), hexd (n mod 16)]"

definition read_hex4 :: "unicode \<Rightarrow> nat option" where
  "read_hex4 t = (case t of a # b # c # d # r \<Rightarrow>
     (case (hex_val a, hex_val b, hex_val c, hex_val d) of
        (Some w, Some x, Some y, Some z) \<Rightarrow> Some (w * 4096 + x * 256 + y * 16 + z)
      | _ \<Rightarrow> None) | _ \<Rightarrow> None)"

text \<open>\<^verbatim>\<open>json.dumps\<close> escapes everything outside printable ASCII; code points past \<^verbatim>\<open>U+FFFF\<close> become a surrogate pair.\<close>

definition escape_code :: "nat \<Rightarrow> unicode" where
  "escape_code n =
     (if n = 34 then [92, 34] else if n = 92 then [92, 92]
      else if n = 10 then [92, 110] else if n = 13 then [92, 114] else if n = 9 then [92, 116]
      else if n = 12 then [92, 102] else if n = 8 then [92, 98]
      else if 32 \<le> n \<and> n < 127 then [n]
      else if n < 65536 then [92, 117] @ hex4 n
      else [92, 117] @ hex4 (55296 + (n - 65536) div 1024) @ [92, 117] @ hex4 (56320 + (n - 65536) mod 1024))"

definition dump_string :: "unicode \<Rightarrow> unicode" where
  "dump_string t = [34] @ concat (map escape_code t) @ [34]"

definition simple_escape :: "nat \<Rightarrow> nat option" where
  "simple_escape c =
     (if c \<in> {34, 92, 47} then Some c else if c = 98 then Some 8 else if c = 102 then Some 12
      else if c = 110 then Some 10 else if c = 114 then Some 13 else if c = 116 then Some 9 else None)"

definition is_high_surrogate :: "nat \<Rightarrow> bool" where
  "is_high_surrogate n \<longleftrightarrow> 55296 \<le> n \<and> n < 56320"

definition is_low_surrogate :: "nat \<Rightarrow> bool" where
  "is_low_surrogate n \<longleftrightarrow> 56320 \<le> n \<and> n < 57344"

text \<open>The second half of a pair, when the text goes on with an escaped low surrogate.\<close>

definition low_half :: "unicode \<Rightarrow> nat option" where
  "low_half t = (case t of a # b # r \<Rightarrow>
     (if a = 92 \<and> b = 117 then (case read_hex4 r of Some l \<Rightarrow> if is_low_surrogate l then Some l else None | None \<Rightarrow> None)
      else None) | _ \<Rightarrow> None)"

text \<open>The body of a string after its opening quote, and what follows the closing one.\<close>

function scan_string :: "unicode \<Rightarrow> unicode \<Rightarrow> (unicode \<times> unicode) option" where
  "scan_string acc [] = None"
| "scan_string acc (c # cs) =
     (if c = 34 then Some (rev acc, cs)
      else if c = 92 then
        (case cs of [] \<Rightarrow> None
         | e # r \<Rightarrow>
             if e = 117 then
               (case read_hex4 r of None \<Rightarrow> None
                | Some u \<Rightarrow>
                    (case (if is_high_surrogate u then low_half (drop 4 r) else None) of
                       Some l \<Rightarrow> scan_string ((65536 + (u - 55296) * 1024 + (l - 56320)) # acc) (drop 10 r)
                     | None \<Rightarrow> scan_string (u # acc) (drop 4 r)))
             else (case simple_escape e of None \<Rightarrow> None | Some x \<Rightarrow> scan_string (x # acc) r))
      else if c < 32 then None
      else scan_string (c # acc) cs)"
  by pat_completeness auto

termination scan_string
  by (relation "measure (\<lambda>(acc, t). length t)") auto

section \<open>JSON documents\<close>

definition skip_ws :: "unicode \<Rightarrow> unicode" where
  "skip_ws t = dropWhile (\<lambda>c. c \<in> {32, 9, 10, 13}) t"

definition is_digit :: "nat \<Rightarrow> bool" where
  "is_digit c \<longleftrightarrow> 48 \<le> c \<and> c \<le> 57"

text \<open>
  \<^verbatim>\<open>-?(0|[1-9]\d*)(\.\d+)?([eE][-+]?\d+)?\<close>; the fraction and the exponent are taken only when complete.
  A number is kept as its text.
\<close>

definition scan_fraction :: "unicode \<Rightarrow> unicode \<times> unicode" where
  "scan_fraction t = (case t of c # r \<Rightarrow>
     (let ds = takeWhile is_digit r in if c = 46 \<and> ds \<noteq> [] then (c # ds, drop (length ds) r) else ([], t))
   | [] \<Rightarrow> ([], t))"

definition scan_exponent :: "unicode \<Rightarrow> unicode \<times> unicode" where
  "scan_exponent t = (case t of c # r \<Rightarrow>
     (let sg = (case r of d # _ \<Rightarrow> if d = 43 \<or> d = 45 then [d] else [] | [] \<Rightarrow> []);
          r' = drop (length sg) r; ds = takeWhile is_digit r'
      in if (c = 101 \<or> c = 69) \<and> ds \<noteq> [] then (c # sg @ ds, drop (length ds) r') else ([], t))
   | [] \<Rightarrow> ([], t))"

definition scan_number :: "unicode \<Rightarrow> (unicode \<times> unicode) option" where
  "scan_number t =
     (let sg = (case t of c # _ \<Rightarrow> if c = 45 then [c] else [] | [] \<Rightarrow> []);
          r = drop (length sg) t;
          ds = takeWhile is_digit r;
          int_part = (if ds = [] then [] else if hd ds = 48 then [48] else ds)
      in if int_part = [] then None
         else (let (fr, r1) = scan_fraction (drop (length int_part) r); (ex, r2) = scan_exponent r1
               in Some (sg @ int_part @ fr @ ex, r2)))"

definition strip_prefix :: "unicode \<Rightarrow> unicode \<Rightarrow> unicode option" where
  "strip_prefix p t = (if take (length p) t = p then Some (drop (length p) t) else None)"

definition scan_literal :: "unicode \<Rightarrow> (json \<times> unicode) option" where
  "scan_literal t =
     (case strip_prefix (codes ''null'') t of Some r \<Rightarrow> Some (JNull, r)
      | None \<Rightarrow> (case strip_prefix (codes ''true'') t of Some r \<Rightarrow> Some (JBool True, r)
      | None \<Rightarrow> (case strip_prefix (codes ''false'') t of Some r \<Rightarrow> Some (JBool False, r)
      | None \<Rightarrow> (case scan_number t of Some (n, r) \<Rightarrow> Some (JNumber n, r)
      | None \<Rightarrow> (case strip_prefix (codes ''NaN'') t of Some r \<Rightarrow> Some (JNumber (codes ''NaN''), r)
      | None \<Rightarrow> (case strip_prefix (codes ''Infinity'') t of Some r \<Rightarrow> Some (JNumber (codes ''Infinity''), r)
      | None \<Rightarrow> (case strip_prefix (codes ''-Infinity'') t of Some r \<Rightarrow> Some (JNumber (codes ''-Infinity''), r)
      | None \<Rightarrow> None)))))))"

text \<open>
  The recursive scanner. Each call consumes fuel, and each call that recurses has consumed a character
  first, so fuel beyond the length of the text is enough. A repeated key keeps its last value.
\<close>

fun scan_value :: "nat \<Rightarrow> unicode \<Rightarrow> (json \<times> unicode) option"
  and scan_members :: "nat \<Rightarrow> (unicode, json) dict \<Rightarrow> unicode \<Rightarrow> (json \<times> unicode) option"
  and scan_elements :: "nat \<Rightarrow> json list \<Rightarrow> unicode \<Rightarrow> (json \<times> unicode) option" where
  "scan_value 0 t = None"
| "scan_value (Suc n) t =
     (case t of [] \<Rightarrow> None
      | c # cs \<Rightarrow>
          if c = 34 then map_option (\<lambda>(s, r). (JString s, r)) (scan_string [] cs)
          else if c = 123 then
            (case skip_ws cs of [] \<Rightarrow> None
             | d # ds \<Rightarrow> if d = 125 then Some (JObject [], ds) else scan_members n [] (d # ds))
          else if c = 91 then
            (case skip_ws cs of [] \<Rightarrow> None
             | d # ds \<Rightarrow> if d = 93 then Some (JArray [], ds) else scan_elements n [] (d # ds))
          else scan_literal t)"
| "scan_members 0 acc t = None"
| "scan_members (Suc n) acc t =
     (case t of [] \<Rightarrow> None
      | q # cs \<Rightarrow>
          if q \<noteq> 34 then None
          else (case scan_string [] cs of None \<Rightarrow> None
            | Some (k, r) \<Rightarrow> (case skip_ws r of [] \<Rightarrow> None
              | colon # r1 \<Rightarrow>
                  if colon \<noteq> 58 then None
                  else (case scan_value n (skip_ws r1) of None \<Rightarrow> None
                    | Some (v, r2) \<Rightarrow> (case skip_ws r2 of [] \<Rightarrow> None
                      | d # r3 \<Rightarrow>
                          if d = 125 then Some (JObject (dict_set k v acc), r3)
                          else if d = 44 then scan_members n (dict_set k v acc) (skip_ws r3)
                          else None)))))"
| "scan_elements 0 acc t = None"
| "scan_elements (Suc n) acc t =
     (case scan_value n t of None \<Rightarrow> None
      | Some (v, r) \<Rightarrow> (case skip_ws r of [] \<Rightarrow> None
        | d # r1 \<Rightarrow>
            if d = 93 then Some (JArray (acc @ [v]), r1)
            else if d = 44 then scan_elements n (acc @ [v]) (skip_ws r1)
            else None))"

definition json_loads :: "unicode \<Rightarrow> json option" where
  "json_loads t =
     (let s = skip_ws t in
      case scan_value (Suc (length s)) s of
        None \<Rightarrow> None
      | Some (v, r) \<Rightarrow> if skip_ws r = [] then Some v else None)"

text \<open>\<^verbatim>\<open>json.dumps(d, indent=2)\<close> for a dictionary whose values are strings, booleans or \<^verbatim>\<open>None\<close>.\<close>

definition dump_scalar :: "json \<Rightarrow> unicode" where
  "dump_scalar v = (case v of JString s \<Rightarrow> dump_string s | JBool b \<Rightarrow> codes (if b then ''true'' else ''false'')
     | _ \<Rightarrow> codes ''null'')"

definition dump_member :: "unicode \<times> json \<Rightarrow> unicode" where
  "dump_member kv = [10, 32, 32] @ dump_string (fst kv) @ [58, 32] @ dump_scalar (snd kv)"

fun dump_members :: "(unicode, json) dict \<Rightarrow> unicode" where
  "dump_members [] = []"
| "dump_members [kv] = dump_member kv"
| "dump_members (kv # kvs) = dump_member kv @ [44] @ dump_members kvs"

definition json_dumps :: "(unicode, json) dict \<Rightarrow> unicode" where
  "json_dumps d = (if d = [] then [123, 125] else [123] @ dump_members d @ [10, 125])"

section \<open>Base64\<close>

definition b64_digit :: "nat \<Rightarrow> nat" where
  "b64_digit n = (if n < 26 then 65 + n else if n < 52 then 71 + n else if n < 62 then n - 4
     else if n = 62 then 43 else 47)"

definition b64_val :: "nat \<Rightarrow> nat option" where
  "b64_val c = (if 65 \<le> c \<and> c \<le> 90 then Some (c - 65) else if 97 \<le> c \<and> c \<le> 122 then Some (c - 71)
     else if 48 \<le> c \<and> c \<le> 57 then Some (c + 4) else if c = 43 then Some 62 else if c = 47 then Some 63 else None)"

fun b64encode :: "nat list \<Rightarrow> unicode" where
  "b64encode [] = []"
| "b64encode [a] = [b64_digit (a div 4), b64_digit (a mod 4 * 16), 61, 61]"
| "b64encode [a, b] = [b64_digit (a div 4), b64_digit (a mod 4 * 16 + b div 16), b64_digit (b mod 16 * 4), 61]"
| "b64encode (a # b # c # r) =
     [b64_digit (a div 4), b64_digit (a mod 4 * 16 + b div 16), b64_digit (b mod 16 * 4 + c div 64), b64_digit (c mod 64)]
     @ b64encode r"

text \<open>\<^verbatim>\<open>b64decode(s, validate=True)\<close>: groups of four, padding only in the last.\<close>

fun b64decode :: "unicode \<Rightarrow> nat list option" where
  "b64decode [] = Some []"
| "b64decode (w # x # y # z # r) =
     (case (b64_val w, b64_val x) of
        (Some p, Some q) \<Rightarrow>
          (if z = 61 then
             (if r \<noteq> [] then None
              else if y = 61 then Some [p * 4 + q div 16]
              else (case b64_val y of None \<Rightarrow> None | Some s \<Rightarrow> Some [p * 4 + q div 16, q mod 16 * 16 + s div 4]))
           else (case (b64_val y, b64_val z) of
               (Some s, Some t) \<Rightarrow>
                 map_option (\<lambda>bs. [p * 4 + q div 16, q mod 16 * 16 + s div 4, s mod 4 * 64 + t] @ bs) (b64decode r)
             | _ \<Rightarrow> None))
      | _ \<Rightarrow> None)"
| "b64decode _ = None"

section \<open>Round trips\<close>

text \<open>A code point that is not a surrogate; those are all a text decoded from UTF-8 or from bytes has.\<close>

definition scalar_value :: "nat \<Rightarrow> bool" where
  "scalar_value n \<longleftrightarrow> n < 1114112 \<and> \<not> is_high_surrogate n \<and> \<not> is_low_surrogate n"

lemma hex_val_hexd [simp]: "d < 16 \<Longrightarrow> hex_val (hexd d) = Some d"
  by (auto simp: hex_val_def hexd_def)

lemma hex_digits_value:
  assumes "n < (65536 :: nat)"
  shows "n div 4096 mod 16 * 4096 + n div 256 mod 16 * 256 + n div 16 mod 16 * 16 + n mod 16 = n"
proof -
  have "n div 4096 mod 16 = n div 4096" using assms by (simp add: less_mult_imp_div_less)
  moreover have "n div 256 = n div 4096 * 16 + n div 256 mod 16"
    using div_mult_mod_eq [of "n div 256" 16] by (simp add: div_mult2_eq [symmetric])
  moreover have "n div 16 = n div 256 * 16 + n div 16 mod 16"
    using div_mult_mod_eq [of "n div 16" 16] by (simp add: div_mult2_eq [symmetric])
  moreover have "n = n div 16 * 16 + n mod 16" by simp
  ultimately show ?thesis by linarith
qed

lemma read_hex4_hex4: "n < 65536 \<Longrightarrow> read_hex4 (hex4 n @ r) = Some n"
  using hex_digits_value [of n] by (simp add: read_hex4_def hex4_def)

lemma length_hex4 [simp]: "length (hex4 n) = 4"
  by (simp add: hex4_def)

lemma scan_escaped_code:
  assumes "scalar_value n"
  shows "scan_string acc (escape_code n @ r) = scan_string (n # acc) r"
proof -
  consider "n \<in> {34, 92, 10, 13, 9, 12, 8}" | "n \<notin> {34, 92, 10, 13, 9, 12, 8}" "32 \<le> n" "n < 127"
    | "n \<notin> {34, 92, 10, 13, 9, 12, 8}" "\<not> (32 \<le> n \<and> n < 127)" "n < 65536"
    | "65536 \<le> n" by fastforce
  then show ?thesis
  proof cases
    case 1
    then show ?thesis by (auto simp: escape_code_def simple_escape_def)
  next
    case 2
    then show ?thesis by (auto simp: escape_code_def)
  next
    case 3
    then have "escape_code n = [92, 117] @ hex4 n" by (auto simp: escape_code_def)
    with 3 assms show ?thesis by (simp add: read_hex4_hex4 scalar_value_def)
  next
    case 4
    let ?h = "55296 + (n - 65536) div 1024" and ?l = "56320 + (n - 65536) mod 1024"
    have "n < 1114112" using assms by (simp add: scalar_value_def)
    with 4 have "n - 65536 < 1024 * 1024" by linarith
    then have b: "(n - 65536) div 1024 < 1024" by (rule less_mult_imp_div_less)
    have e: "escape_code n = [92, 117] @ hex4 ?h @ [92, 117] @ hex4 ?l" using 4 by (simp add: escape_code_def)
    have sur: "is_high_surrogate ?h" "is_low_surrogate ?l" using b by (simp_all add: is_high_surrogate_def is_low_surrogate_def)
    have "low_half ([92, 117] @ hex4 ?l @ r) = Some ?l"
      using sur(2) by (simp add: low_half_def read_hex4_hex4)
    moreover have "65536 + (n - 65536) div 1024 * 1024 + (n - 65536) mod 1024 = n" using 4 by simp
    ultimately show ?thesis using b sur by (simp add: e read_hex4_hex4)
  qed
qed

lemma scan_dumped_string:
  assumes "\<forall>n \<in> set t. scalar_value n"
  shows "scan_string acc (concat (map escape_code t) @ 34 # r) = Some (rev acc @ t, r)"
  using assms by (induction t arbitrary: acc) (simp_all add: scan_escaped_code)

text \<open>The values a dump can hold.\<close>

definition scalar_json :: "json \<Rightarrow> bool" where
  "scalar_json v = (case v of JString s \<Rightarrow> \<forall>n \<in> set s. scalar_value n | JBool b \<Rightarrow> True | JNull \<Rightarrow> True | _ \<Rightarrow> False)"

lemma scan_dumped_scalar:
  assumes "scalar_json v"
  shows "scan_value (Suc n) (dump_scalar v @ r) = Some (v, r)"
proof (cases v)
  case (JString s)
  with assms scan_dumped_string [of s "[]" r] show ?thesis
    by (simp add: dump_scalar_def dump_string_def scalar_json_def)
next
  case (JBool b)
  then show ?thesis
    by (cases b) (simp_all add: dump_scalar_def codes_def scan_literal_def strip_prefix_def)
qed (use assms in \<open>simp_all add: scalar_json_def dump_scalar_def codes_def scan_literal_def strip_prefix_def\<close>)

lemma skip_ws_scalar [simp]: "skip_ws (dump_scalar v @ r) = dump_scalar v @ r"
  by (simp add: dump_scalar_def dump_string_def codes_def skip_ws_def split: json.split)

lemma skip_ws_simps [simp]:
  "skip_ws (34 # t) = 34 # t" "skip_ws (58 # t) = 58 # t" "skip_ws (44 # t) = 44 # t" "skip_ws (125 # t) = 125 # t"
  "skip_ws (123 # t) = 123 # t" "skip_ws (10 # t) = skip_ws t" "skip_ws (32 # t) = skip_ws t" "skip_ws [] = []"
  by (simp_all add: skip_ws_def)

lemma scan_dumped_member:
  assumes "\<forall>n \<in> set k. scalar_value n" and "scalar_json v"
  shows "scan_members (Suc (Suc n)) acc (skip_ws (dump_member (k, v) @ r)) =
    (case skip_ws r of [] \<Rightarrow> None
     | d # r3 \<Rightarrow> if d = 125 then Some (JObject (dict_set k v acc), r3)
                 else if d = 44 then scan_members (Suc n) (dict_set k v acc) (skip_ws r3) else None)"
proof -
  have "skip_ws (dump_member (k, v) @ r) = 34 # concat (map escape_code k) @ 34 # 58 # 32 # dump_scalar v @ r"
    by (simp add: dump_member_def dump_string_def)
  with scan_dumped_string [OF assms(1), of "[]" "58 # 32 # dump_scalar v @ r"] scan_dumped_scalar [OF assms(2), of n r]
  show ?thesis by (simp del: scan_value.simps)
qed

lemma scan_dumped_members:
  assumes "\<forall>(k, v) \<in> set kvs. (\<forall>n \<in> set k. scalar_value n) \<and> scalar_json v" and "kvs \<noteq> []" and "length kvs < n"
  shows "scan_members n acc (skip_ws (dump_members kvs @ [10, 125] @ r)) =
    Some (JObject (fold (\<lambda>(k, v). dict_set k v) kvs acc), r)"
  using assms
proof (induction kvs arbitrary: acc n rule: dump_members.induct)
  case (2 kv)
  then obtain m where "n = Suc (Suc m)" by (metis length_Cons less_imp_Suc_add list.size(3) add_Suc)
  with 2 scan_dumped_member [of "fst kv" "snd kv" m acc "10 # 125 # r"] show ?case by (cases kv) simp
next
  case (3 kv kv' kvs)
  then obtain m where n: "n = Suc (Suc m)" by (metis length_Cons less_imp_Suc_add add_Suc)
  have "scan_members (Suc m) acc' (skip_ws (dump_members (kv' # kvs) @ [10, 125] @ r)) =
      Some (JObject (fold (\<lambda>(k, v). dict_set k v) (kv' # kvs) acc'), r)" for acc'
    using "3.IH" [of "Suc m" acc'] "3.prems" n by simp
  with 3 n scan_dumped_member [of "fst kv" "snd kv" m acc "44 # dump_members (kv' # kvs) @ 10 # 125 # r"]
  show ?case by (cases kv) simp
qed simp

lemma fold_dict_set_distinct:
  "distinct (map fst acc @ map fst kvs) \<Longrightarrow> fold (\<lambda>(k, v). dict_set k v) kvs acc = acc @ kvs"
proof (induction kvs arbitrary: acc)
  case (Cons kv kvs)
  have "k \<notin> fst ` set acc \<Longrightarrow> dict_set k v acc = acc @ [(k, v)]" for k v
    by (induction acc) auto
  with Cons show ?case by (cases kv) auto
qed simp

lemma dump_members_length: "length kvs \<le> length (dump_members kvs)"
  by (induction kvs rule: dump_members.induct) (auto simp: dump_member_def)

lemma json_loads_dumps:
  assumes "\<forall>(k, v) \<in> set d. (\<forall>n \<in> set k. scalar_value n) \<and> scalar_json v" and "distinct (map fst d)"
  shows "json_loads (json_dumps d) = Some (JObject d)"
proof (cases "d = []")
  case True
  then show ?thesis by (simp add: json_loads_def json_dumps_def)
next
  case False
  let ?t = "dump_members d @ [10, 125]"
  have s: "skip_ws (json_dumps d) = 123 # ?t" using False by (simp add: json_dumps_def)
  obtain kv kvs where d: "d = kv # kvs" using False by (cases d) auto
  have "\<exists>ds. skip_ws ?t = 34 # ds" unfolding d by (cases kvs) (auto simp: dump_member_def dump_string_def)
  then obtain ds where ds: "skip_ws ?t = 34 # ds" by blast
  have "scan_members (length (123 # ?t)) [] (skip_ws ?t) = Some (JObject d, [])"
    using scan_dumped_members [OF assms(1) False, of "length (123 # ?t)" "[]" "[]"] dump_members_length [of d]
      fold_dict_set_distinct [of "[]" d] assms(2) by simp
  then have "scan_value (Suc (length (123 # ?t))) (123 # ?t) = Some (JObject d, [])"
    using ds by (simp del: scan_members.simps)
  then show ?thesis unfolding json_loads_def s Let_def by simp
qed

text \<open>A dump is plain ASCII.\<close>

lemma hexd_ascii [simp]: "d < 16 \<Longrightarrow> hexd d < 128"
  by (simp add: hexd_def)

lemma escape_code_ascii: "\<forall>c \<in> set (escape_code n). c < 128"
  by (simp add: escape_code_def hex4_def)

lemma dump_string_ascii: "\<forall>c \<in> set (dump_string t). c < 128"
  using escape_code_ascii by (auto simp: dump_string_def)

lemma dump_member_ascii: "\<forall>c \<in> set (dump_member kv). c < 128"
  using dump_string_ascii by (auto simp: dump_member_def dump_scalar_def codes_def split: json.splits)

lemma json_dumps_ascii: "\<forall>c \<in> set (json_dumps d). c < 128"
proof -
  have "\<forall>c \<in> set (dump_members d). c < 128"
    using dump_member_ascii by (induction d rule: dump_members.induct) auto
  then show ?thesis by (auto simp: json_dumps_def)
qed

lemma codes_scalar: "\<forall>n \<in> set (codes s). scalar_value n"
proof -
  have "n < 256 \<Longrightarrow> scalar_value n" for n
    by (simp add: scalar_value_def is_high_surrogate_def is_low_surrogate_def)
  then show ?thesis by (simp add: codes_def)
qed

lemma codes_bytes: "\<forall>b \<in> set (codes s). b < 256"
  by (simp add: codes_def)

lemma chars_codes [simp]: "map char_of (codes s) = s"
  by (simp add: codes_def comp_def)

lemma ascii_scalar: "\<forall>c \<in> set t. c < 128 \<Longrightarrow> \<forall>n \<in> set t. scalar_value n"
  by (auto simp: scalar_value_def is_high_surrogate_def is_low_surrogate_def)

subsection \<open>Base64\<close>

lemma b64_val_digit [simp]: "n < 64 \<Longrightarrow> b64_val (b64_digit n) = Some n"
  by (auto simp: b64_val_def b64_digit_def)

lemma b64_digit_no_padding [simp]: "n < 64 \<Longrightarrow> b64_digit n \<noteq> 61"
  by (auto simp: b64_digit_def)

lemma b64_groups:
  fixes a b c :: nat
  assumes "a < 256" "b < 256" "c < 256"
  shows "a div 4 < 64" "a mod 4 * 16 < 64" "a mod 4 * 16 + b div 16 < 64" "b mod 16 * 4 < 64"
    "b mod 16 * 4 + c div 64 < 64" "a div 4 * 4 + (a mod 4 * 16 + b div 16) div 16 = a"
    "(a mod 4 * 16 + b div 16) mod 16 * 16 + (b mod 16 * 4 + c div 64) div 4 = b"
    "(b mod 16 * 4 + c div 64) mod 4 * 64 + c mod 64 = c"
proof -
  have bh: "b div 16 < 16" and ch: "c div 64 < 4" using assms by (simp_all add: less_mult_imp_div_less)
  have bl: "b mod 16 < 16" and am: "a mod 4 < 4" by simp_all
  show "a div 4 < 64" using assms(1) by (simp add: less_mult_imp_div_less)
  show "a mod 4 * 16 < 64" "a mod 4 * 16 + b div 16 < 64" using am bh by linarith+
  show "b mod 16 * 4 < 64" "b mod 16 * 4 + c div 64 < 64" using bl ch by linarith+
  show "a div 4 * 4 + (a mod 4 * 16 + b div 16) div 16 = a" using bh by simp
  show "(a mod 4 * 16 + b div 16) mod 16 * 16 + (b mod 16 * 4 + c div 64) div 4 = b" using bh ch by simp
  show "(b mod 16 * 4 + c div 64) mod 4 * 64 + c mod 64 = c" using ch by simp
qed

lemma b64decode_encode: "\<forall>b \<in> set bs. b < 256 \<Longrightarrow> b64decode (b64encode bs) = Some bs"
proof (induction bs rule: b64encode.induct)
  case (2 a)
  then show ?case using b64_groups [of a 0 0] by simp
next
  case (3 a b)
  then show ?case using b64_groups [of a b 0] by simp
next
  case (4 a b c r)
  then have "b div 16 < 16" by (simp add: less_mult_imp_div_less)
  then have whole: "b div 16 mod 16 * 16 + b mod 16 = b" by simp
  from 4 show ?case using b64_groups [of a b c] by (simp add: whole)
qed simp

lemma b64_digit_ascii [simp]: "b64_digit n < 128"
  by (auto simp: b64_digit_def)

lemma b64encode_ascii: "\<forall>c \<in> set (b64encode bs). c < 128"
  by (induction bs rule: b64encode.induct) simp_all

end
