(* ===== verification/Config_Overlay.thy ===== *)
theory Config_Overlay
  imports Json_Text
begin

text \<open>
  The overlay protocol for configuration files the operator owns (\<^verbatim>\<open>mcp/transport/config_overlay.py\<close>), the atomic
  byte publication under it (\<^verbatim>\<open>mcp/artifacts/idempotent_write.py\<close>), and the three transports that overlay a
  user-global file (\<^verbatim>\<open>agy.py\<close>, \<^verbatim>\<open>cursor.py\<close>, \<^verbatim>\<open>kimi.py\<close> under \<^verbatim>\<open>mcp/transport\<close>). The disk is a map from paths to
  files; a run threads a record holding the disk and its history, the disk before each operation with the operation,
  so that what a kill, a power cut or a failing call can leave behind is a function of the run. SHA-256 is a
  parameter, and so are the random part of a staging name, drawn per publication, and the payload, which the
  transports merge from the files they find.
\<close>

section \<open>The disk\<close>

type_synonym bytes = string
type_synonym path = string

record File =
  content :: bytes
  readable :: bool

type_synonym fs = "path \<rightharpoonup> File"

datatype fs_op = WriteFile path bytes | Replace path path | Unlink path

definition write_file :: "path \<Rightarrow> bytes \<Rightarrow> fs \<Rightarrow> fs" where
  "write_file p b f = f(p \<mapsto> \<lparr>content = b, readable = True\<rparr>)"

definition replace_file :: "path \<Rightarrow> path \<Rightarrow> fs \<Rightarrow> fs" where
  "replace_file s d f = (f(d := f s))(s := None)"

definition unlink_file :: "path \<Rightarrow> fs \<Rightarrow> fs" where
  "unlink_file p f = f(p := None)"

fun run_op :: "fs_op \<Rightarrow> fs \<Rightarrow> fs" where
  "run_op (WriteFile p b) f = write_file p b f"
| "run_op (Replace s d) f = replace_file s d f"
| "run_op (Unlink p) f = unlink_file p f"

text \<open>
  What an operation that does not complete can leave: nothing done, a torn file under the name being written, or
  no staging file, when the process survives and the publication's handler removes it.
\<close>

fun interrupted :: "fs_op \<Rightarrow> fs \<Rightarrow> fs \<Rightarrow> bool" where
  "interrupted (WriteFile p b) f f' \<longleftrightarrow> f' = f \<or> (\<exists>file. f' = f(p := file))"
| "interrupted (Replace s d) f f' \<longleftrightarrow> f' = f \<or> f' = f(s := None)"
| "interrupted (Unlink p) f f' \<longleftrightarrow> f' = f"

record Run =
  files :: fs
  history :: "(fs \<times> fs_op) list"

definition boot :: "fs \<Rightarrow> Run" where
  "boot f = \<lparr>files = f, history = []\<rparr>"

definition emit :: "fs_op \<Rightarrow> Run \<Rightarrow> Run" where
  "emit op d = \<lparr>files = run_op op (files d), history = history d @ [(files d, op)]\<rparr>"

section \<open>Publishing bytes atomically\<close>

type_synonym uuids = "nat \<Rightarrow> string"

definition read_bytes_or_none :: "Run \<Rightarrow> path \<Rightarrow> bytes option" where
  "read_bytes_or_none d p = (case files d p of Some f \<Rightarrow> if readable f then Some (content f) else None | None \<Rightarrow> None)"

definition unique_staging_path :: "uuids \<Rightarrow> Run \<Rightarrow> path \<Rightarrow> path" where
  "unique_staging_path u d tmp = tmp @ ''.'' @ u (length (history d))"

definition atomic_write_bytes_if_changed :: "uuids \<Rightarrow> path \<Rightarrow> bytes \<Rightarrow> path \<Rightarrow> Run \<Rightarrow> Run" where
  "atomic_write_bytes_if_changed u dest b tmp d =
     (if read_bytes_or_none d dest = Some b then d
      else (let staging = unique_staging_path u d tmp
            in emit (Replace staging dest) (emit (WriteFile staging b) d)))"

definition unlink_missing_ok :: "path \<Rightarrow> Run \<Rightarrow> Run" where
  "unlink_missing_ok p d = (if files d p = None then d else emit (Unlink p) d)"

section \<open>The backup record\<close>

definition LOCK_SUFFIX :: string where "LOCK_SUFFIX = ''.ralph.lock''"
definition BACKUP_SUFFIX :: string where "BACKUP_SUFFIX = ''.ralph-backup''"
definition STAGING_SUFFIX :: string where "STAGING_SUFFIX = ''.ralph-staging''"
definition BACKUP_SCHEMA :: string where "BACKUP_SCHEMA = ''ralph-mcp-config-backup/1''"

record BackupRecord =
  original_bytes :: "bytes option"
  overlay_digest :: unicode

definition mcp_config_lock_path :: "path \<Rightarrow> path" where
  "mcp_config_lock_path c = c @ LOCK_SUFFIX"

definition mcp_config_backup_path :: "path \<Rightarrow> path" where
  "mcp_config_backup_path c = c @ BACKUP_SUFFIX"

definition digest :: "(bytes \<Rightarrow> string) \<Rightarrow> bytes \<Rightarrow> unicode" where
  "digest sha b = codes (sha b)"

definition encode_backup_record :: "(bytes \<Rightarrow> string) \<Rightarrow> bytes option \<Rightarrow> bytes \<Rightarrow> bytes" where
  "encode_backup_record sha original payload = utf8_encode (json_dumps
     [(codes ''schema'', JString (codes BACKUP_SCHEMA)),
      (codes ''original_present'', JBool (original \<noteq> None)),
      (codes ''original_base64'', JString (case original of Some b \<Rightarrow> b64encode (codes b) | None \<Rightarrow> [])),
      (codes ''overlay_sha256'', JString (digest sha payload))])"

definition parse_backup_fields :: "bytes \<Rightarrow> (unicode, json) dict option" where
  "parse_backup_fields raw =
     (case utf8_decode (codes raw) of None \<Rightarrow> None
      | Some t \<Rightarrow> (case json_loads t of
          Some (JObject obj) \<Rightarrow>
            if dict_get obj (codes ''schema'') \<noteq> Some (JString (codes BACKUP_SCHEMA)) then None else Some obj
        | _ \<Rightarrow> None))"

definition decode_original_bytes :: "json option \<Rightarrow> bytes option" where
  "decode_original_bytes encoded =
     (case encoded of Some (JString t) \<Rightarrow>
        if \<forall>c \<in> set t. c < 128 then map_option (map char_of) (b64decode t) else None
      | _ \<Rightarrow> None)"

definition decode_backup_record :: "bytes \<Rightarrow> BackupRecord option" where
  "decode_backup_record raw =
     (case parse_backup_fields raw of None \<Rightarrow> None
      | Some obj \<Rightarrow>
          (case (dict_get obj (codes ''overlay_sha256''), dict_get obj (codes ''original_present'')) of
             (Some (JString dg), Some (JBool present)) \<Rightarrow>
               if \<not> present then Some \<lparr>original_bytes = None, overlay_digest = dg\<rparr>
               else (case decode_original_bytes (dict_get obj (codes ''original_base64'')) of None \<Rightarrow> None
                 | Some b \<Rightarrow> Some \<lparr>original_bytes = Some b, overlay_digest = dg\<rparr>)
           | _ \<Rightarrow> None))"

section \<open>Stage, restore, reclaim\<close>

definition publish :: "uuids \<Rightarrow> path \<Rightarrow> bytes \<Rightarrow> Run \<Rightarrow> Run" where
  "publish u p b d = atomic_write_bytes_if_changed u p b (p @ STAGING_SUFFIX) d"

definition stage_config_overlay ::
  "(bytes \<Rightarrow> string) \<Rightarrow> uuids \<Rightarrow> path \<Rightarrow> bytes \<Rightarrow> Run \<Rightarrow> bytes option \<times> Run" where
  "stage_config_overlay sha u c payload d =
     (let original = read_bytes_or_none d c;
          d1 = (if original \<noteq> Some payload
                then publish u (mcp_config_backup_path c) (encode_backup_record sha original payload) d else d)
      in (original, atomic_write_bytes_if_changed u c payload (c @ STAGING_SUFFIX) d1))"

definition restore_config_overlay :: "uuids \<Rightarrow> path \<Rightarrow> bytes option \<Rightarrow> Run \<Rightarrow> Run" where
  "restore_config_overlay u c original d =
     unlink_missing_ok (mcp_config_backup_path c)
       (case original of None \<Rightarrow> unlink_missing_ok c d
        | Some b \<Rightarrow> atomic_write_bytes_if_changed u c b (c @ STAGING_SUFFIX) d)"

definition reclaim_config_overlay :: "(bytes \<Rightarrow> string) \<Rightarrow> uuids \<Rightarrow> path \<Rightarrow> Run \<Rightarrow> bool \<times> Run" where
  "reclaim_config_overlay sha u c d =
     (case read_bytes_or_none d (mcp_config_backup_path c) of None \<Rightarrow> (False, d)
      | Some raw \<Rightarrow>
          (case decode_backup_record raw of None \<Rightarrow> (False, unlink_missing_ok (mcp_config_backup_path c) d)
           | Some r \<Rightarrow>
               (case read_bytes_or_none d c of
                  None \<Rightarrow> (False, unlink_missing_ok (mcp_config_backup_path c) d)
                | Some b \<Rightarrow>
                    if digest sha b \<noteq> overlay_digest r then (False, unlink_missing_ok (mcp_config_backup_path c) d)
                    else (True, restore_config_overlay u c (original_bytes r) d))))"

section \<open>The transports\<close>

text \<open>
  One overlay transaction, inside its locks: reclaim, stage every target, run, restore every target. The prior
  bytes are kept in a dictionary by path. While the agent runs nobody writes the files in question.
\<close>

definition reclaim_all :: "(bytes \<Rightarrow> string) \<Rightarrow> uuids \<Rightarrow> path list \<Rightarrow> Run \<Rightarrow> Run" where
  "reclaim_all sha u cs d = fold (\<lambda>c d. snd (reclaim_config_overlay sha u c d)) cs d"

fun stage_all ::
  "(bytes \<Rightarrow> string) \<Rightarrow> uuids \<Rightarrow> bytes \<Rightarrow> path list \<Rightarrow> (path, bytes option) dict \<Rightarrow> Run
   \<Rightarrow> (path, bytes option) dict \<times> Run" where
  "stage_all sha u payload [] originals d = (originals, d)"
| "stage_all sha u payload (c # cs) originals d =
     (let (original, d1) = stage_config_overlay sha u c payload d
      in stage_all sha u payload cs (dict_set c original originals) d1)"

definition restore_all :: "uuids \<Rightarrow> path list \<Rightarrow> (path, bytes option) dict \<Rightarrow> Run \<Rightarrow> Run" where
  "restore_all u cs originals d = fold (\<lambda>c d. restore_config_overlay u c (dict_get_or originals c None) d) cs d"

definition overlay_transaction ::
  "(bytes \<Rightarrow> string) \<Rightarrow> uuids \<Rightarrow> path list \<Rightarrow> (fs \<Rightarrow> path list) \<Rightarrow> (fs \<Rightarrow> bytes) \<Rightarrow> Run \<Rightarrow> Run" where
  "overlay_transaction sha u considered targets merged d =
     (let d1 = reclaim_all sha u considered d;
          cs = targets (files d1);
          (originals, d2) = stage_all sha u (merged (files d1)) cs [] d1
      in restore_all u cs originals d2)"

definition cursor_global_config_path :: "path \<Rightarrow> path" where
  "cursor_global_config_path home = home @ ''/.cursor/mcp.json''"

definition cursor_workspace_config_path :: "path \<Rightarrow> path" where
  "cursor_workspace_config_path workspace = workspace @ ''/.cursor/mcp.json''"

definition cursor_paths_to_consider :: "path \<Rightarrow> path option \<Rightarrow> path list" where
  "cursor_paths_to_consider home workspace =
     (case workspace of Some w \<Rightarrow> [cursor_workspace_config_path w] | None \<Rightarrow> []) @ [cursor_global_config_path home]"

definition cursor_workspace_mcp_endpoint ::
  "(bytes \<Rightarrow> string) \<Rightarrow> uuids \<Rightarrow> path \<Rightarrow> path \<Rightarrow> (fs \<Rightarrow> bytes) \<Rightarrow> Run \<Rightarrow> Run" where
  "cursor_workspace_mcp_endpoint sha u home workspace merged d =
     (let cs = cursor_paths_to_consider home (Some workspace)
      in overlay_transaction sha u cs (\<lambda>f. cs) merged d)"

definition agy_workspace_mcp_endpoint ::
  "(bytes \<Rightarrow> string) \<Rightarrow> uuids \<Rightarrow> path \<Rightarrow> path \<Rightarrow> (fs \<Rightarrow> bytes) \<Rightarrow> Run \<Rightarrow> Run" where
  "agy_workspace_mcp_endpoint sha u global_path secondary_path merged d =
     overlay_transaction sha u [global_path, secondary_path] (\<lambda>f. [global_path, secondary_path]) merged d"

definition kimi_workspace_config_path :: "path \<Rightarrow> path" where
  "kimi_workspace_config_path workspace = workspace @ ''/.kimi-code/mcp.json''"

definition kimi_global_config_path :: "path \<Rightarrow> string option \<Rightarrow> path" where
  "kimi_global_config_path home kimi_home =
     (case kimi_home of Some (k # ks) \<Rightarrow> (k # ks) @ ''/mcp.json'' | _ \<Rightarrow> home @ ''/.kimi-code/mcp.json'')"

definition kimi_paths_to_consider :: "path \<Rightarrow> path option \<Rightarrow> path list" where
  "kimi_paths_to_consider global workspace =
     [global] @ (case workspace of Some w \<Rightarrow> [kimi_workspace_config_path w] | None \<Rightarrow> [])"

definition kimi_write_target_paths :: "path \<Rightarrow> path option \<Rightarrow> fs \<Rightarrow> path list" where
  "kimi_write_target_paths global workspace f =
     [global] @ (case workspace of
        Some w \<Rightarrow> (if f (kimi_workspace_config_path w) \<noteq> None then [kimi_workspace_config_path w] else [])
      | None \<Rightarrow> [])"

definition kimi_workspace_mcp_endpoint ::
  "(bytes \<Rightarrow> string) \<Rightarrow> uuids \<Rightarrow> path \<Rightarrow> path \<Rightarrow> (fs \<Rightarrow> bytes) \<Rightarrow> Run \<Rightarrow> Run" where
  "kimi_workspace_mcp_endpoint sha u global workspace merged d =
     overlay_transaction sha u (kimi_paths_to_consider global (Some workspace))
       (kimi_write_target_paths global (Some workspace)) merged d"

section \<open>The record survives its own encoding\<close>

lemma decode_encode_backup:
  "decode_backup_record (encode_backup_record sha original payload) =
     Some \<lparr>original_bytes = original, overlay_digest = digest sha payload\<rparr>"
proof -
  let ?b64 = "case original of Some b \<Rightarrow> b64encode (codes b) | None \<Rightarrow> []"
  let ?d = "[(codes ''schema'', JString (codes BACKUP_SCHEMA)), (codes ''original_present'', JBool (original \<noteq> None)),
      (codes ''original_base64'', JString ?b64), (codes ''overlay_sha256'', JString (digest sha payload))]"
  have ascii: "\<forall>c \<in> set ?b64. c < 128" using b64encode_ascii by (cases original) auto
  have "scalar_json (JString ?b64)" "scalar_json (JString (digest sha payload))" "scalar_json (JString (codes BACKUP_SCHEMA))"
    using ascii_scalar [OF ascii] codes_scalar by (simp_all add: scalar_json_def digest_def)
  then have loads: "json_loads (json_dumps ?d) = Some (JObject ?d)"
    using codes_scalar by (intro json_loads_dumps) (simp_all add: scalar_json_def)
  have "utf8_decode (codes (encode_backup_record sha original payload)) = Some (json_dumps ?d)"
    using json_dumps_ascii utf8_decode_ascii by (simp add: encode_backup_record_def codes_utf8_encode_ascii)
  then have "parse_backup_fields (encode_backup_record sha original payload) = Some ?d"
    unfolding parse_backup_fields_def by (simp only: loads option.case json.case) simp
  moreover have "decode_original_bytes (Some (JString ?b64)) = original" if "original \<noteq> None"
    using that ascii codes_bytes b64decode_encode by (auto simp: decode_original_bytes_def)
  ultimately show ?thesis by (auto simp: decode_backup_record_def)
qed

text \<open>
  C23. Round trip of the backup record: for every prior content (any bytes at all, the empty file and the absent
  file included) and every payload, the sidecar that is written before the overlay decodes to exactly that prior
  content and to the digest of exactly that payload, through JSON, UTF-8 and base64.
\<close>

theorem backup_record_round_trip:
  "decode_backup_record (encode_backup_record sha original payload) =
     Some \<lparr>original_bytes = original, overlay_digest = digest sha payload\<rparr>"
  by (rule decode_encode_backup)

section \<open>Disks and runs\<close>

locale file_backend =
  fixes look :: "'disk \<Rightarrow> path \<Rightarrow> File option"
    and put :: "path \<Rightarrow> bytes \<Rightarrow> 'disk \<Rightarrow> 'disk"
    and replace :: "path \<Rightarrow> path \<Rightarrow> 'disk \<Rightarrow> 'disk"
    and unlink :: "path \<Rightarrow> 'disk \<Rightarrow> 'disk"
  assumes look_write: "look (put p b f) q = (if q = p then Some \<lparr>content = b, readable = True\<rparr> else look f q)"
    and look_replace: "s \<noteq> e \<Longrightarrow> look (replace s e f) q = (if q = e then look f s else if q = s then None else look f q)"
    and look_unlink: "look (unlink p f) q = (if q = p then None else look f q)"
begin

lemma look_published:
  "s \<noteq> e \<Longrightarrow> q \<noteq> s \<Longrightarrow> look (replace s e (put s b f)) q =
     (if q = e then Some \<lparr>content = b, readable = True\<rparr> else look f q)"
  by (simp add: look_replace look_write)

lemma look_published_staging: "s \<noteq> e \<Longrightarrow> look (replace s e f) s = None"
  by (simp add: look_replace)

end

interpretation disk: file_backend "\<lambda>f. f" write_file replace_file unlink_file
  by unfold_locales (auto simp: write_file_def replace_file_def unlink_file_def)

text \<open>A run is safe for a property of disks when whatever it may leave behind has the property.\<close>

definition left_behind :: "Run \<Rightarrow> fs \<Rightarrow> bool" where
  "left_behind d f \<longleftrightarrow> f = files d \<or> (\<exists>(g, op) \<in> set (history d). interrupted op g f)"

definition safe :: "(fs \<Rightarrow> bool) \<Rightarrow> Run \<Rightarrow> bool" where
  "safe Q d \<longleftrightarrow> (\<forall>f. left_behind d f \<longrightarrow> Q f)"

lemma safe_files: "safe Q d \<Longrightarrow> Q (files d)"
  by (simp add: safe_def left_behind_def)

lemma safe_boot [simp]: "safe Q (boot f) = Q f"
  by (simp add: safe_def left_behind_def boot_def)

lemma files_boot [simp]: "files (boot f) = f"
  by (simp add: boot_def)

lemma safe_emit:
  "safe Q d \<Longrightarrow> (\<And>f. interrupted op (files d) f \<Longrightarrow> Q f) \<Longrightarrow> Q (run_op op (files d)) \<Longrightarrow> safe Q (emit op d)"
  by (auto simp: safe_def left_behind_def emit_def)

lemma files_emit [simp]: "files (emit op d) = run_op op (files d)"
  by (simp add: emit_def)

lemma read_bytes_Some_iff:
  "read_bytes_or_none d p = Some b \<longleftrightarrow> files d p = Some \<lparr>content = b, readable = True\<rparr>"
  by (auto simp: read_bytes_or_none_def split: option.splits)

lemma files_unlink [simp]: "files (unlink_missing_ok p d) = (files d)(p := None)"
  by (auto simp: unlink_missing_ok_def unlink_file_def)

lemma safe_unlink: "safe Q d \<Longrightarrow> Q ((files d)(p := None)) \<Longrightarrow> safe Q (unlink_missing_ok p d)"
  using safe_files by (auto simp: unlink_missing_ok_def unlink_file_def intro!: safe_emit)

lemma files_atomic_write:
  assumes "unique_staging_path u d tmp \<noteq> dest" and "q \<noteq> unique_staging_path u d tmp"
  shows "files (atomic_write_bytes_if_changed u dest b tmp d) q =
    ((files d)(dest \<mapsto> \<lparr>content = b, readable = True\<rparr>)) q"
  using assms disk.look_published [of "unique_staging_path u d tmp" dest q b "files d"]
  by (auto simp: atomic_write_bytes_if_changed_def read_bytes_Some_iff Let_def)

lemma safe_atomic_write:
  assumes "safe Q d" and "unique_staging_path u d tmp \<noteq> dest"
    and "\<And>f x. Q (f(unique_staging_path u d tmp := x)) = Q f"
    and "Q ((files d)(dest \<mapsto> \<lparr>content = b, readable = True\<rparr>))"
  shows "safe Q (atomic_write_bytes_if_changed u dest b tmp d)"
proof -
  let ?s = "unique_staging_path u d tmp"
  have Q: "Q (files d)" using assms(1) by (rule safe_files)
  have "safe Q (emit (WriteFile ?s b) d)"
    using assms(1,3) Q by (intro safe_emit) (auto simp: write_file_def)
  moreover have "(files d)(?s \<mapsto> \<lparr>content = b, readable = True\<rparr>, dest \<mapsto> \<lparr>content = b, readable = True\<rparr>, ?s := None)
      = ((files d)(dest \<mapsto> \<lparr>content = b, readable = True\<rparr>))(?s := None)" by auto
  ultimately have "safe Q (emit (Replace ?s dest) (emit (WriteFile ?s b) d))"
    using assms(2-4) Q by (intro safe_emit [of Q "emit (WriteFile ?s b) d"]) (auto simp: write_file_def replace_file_def)
  then show ?thesis using assms(1) by (simp add: atomic_write_bytes_if_changed_def Let_def)
qed

section \<open>Recovery of one file\<close>

text \<open>
  The file of the operator is \<open>x\<close>. It is in place and no record is kept; or a record names it, and the file in
  place is still the operator's or the overlay the record names.
\<close>

definition clean :: "File option \<Rightarrow> path \<Rightarrow> fs \<Rightarrow> bool" where
  "clean x c f \<longleftrightarrow> f c = x \<and> f (mcp_config_backup_path c) = None"

definition recorded :: "(bytes \<Rightarrow> string) \<Rightarrow> File option \<Rightarrow> path \<Rightarrow> bytes \<Rightarrow> fs \<Rightarrow> bool" where
  "recorded sha x c payload f \<longleftrightarrow> f (mcp_config_backup_path c) =
     Some \<lparr>content = encode_backup_record sha (map_option content x) payload, readable = True\<rparr>"

definition recoverable :: "(bytes \<Rightarrow> string) \<Rightarrow> File option \<Rightarrow> path \<Rightarrow> fs \<Rightarrow> bool" where
  "recoverable sha x c f \<longleftrightarrow> clean x c f
     \<or> (\<exists>payload. recorded sha x c payload f \<and> (f c = x \<or> f c = Some \<lparr>content = payload, readable = True\<rparr>))"

definition staged :: "(bytes \<Rightarrow> string) \<Rightarrow> File option \<Rightarrow> path \<Rightarrow> bytes \<Rightarrow> fs \<Rightarrow> bool" where
  "staged sha x c payload f \<longleftrightarrow> f c = Some \<lparr>content = payload, readable = True\<rparr>
     \<and> (recorded sha x c payload f \<or> clean x c f)"

definition own_file :: "File option \<Rightarrow> bool" where
  "own_file x \<longleftrightarrow> (case x of None \<Rightarrow> True | Some f \<Rightarrow> readable f)"

lemmas recovery_defs = clean_def recorded_def recoverable_def staged_def

lemma own_file_cases:
  assumes "own_file x"
  obtains "x = None" | b where "x = Some \<lparr>content = b, readable = True\<rparr>"
proof (cases x)
  case (Some f)
  with assms that(2) [of "content f"] show ?thesis by (auto simp: own_file_def)
qed (rule that(1))

lemma paths_differ [simp]:
  "mcp_config_backup_path c \<noteq> c" "c \<noteq> mcp_config_backup_path c"
  "unique_staging_path u d (c @ STAGING_SUFFIX) \<noteq> c" "c \<noteq> unique_staging_path u d (c @ STAGING_SUFFIX)"
  "unique_staging_path u d (c @ STAGING_SUFFIX) \<noteq> mcp_config_backup_path c"
  "mcp_config_backup_path c \<noteq> unique_staging_path u d (c @ STAGING_SUFFIX)"
  "unique_staging_path u d (mcp_config_backup_path c @ STAGING_SUFFIX) \<noteq> c"
  "c \<noteq> unique_staging_path u d (mcp_config_backup_path c @ STAGING_SUFFIX)"
  by (simp_all add: mcp_config_backup_path_def unique_staging_path_def BACKUP_SUFFIX_def STAGING_SUFFIX_def)

lemma recoverable_cong:
  "f c = g c \<Longrightarrow> f (mcp_config_backup_path c) = g (mcp_config_backup_path c) \<Longrightarrow>
   recoverable sha x c f = recoverable sha x c g"
  by (simp add: recovery_defs)

lemma recoverable_staging [simp]:
  "recoverable sha x c (f(unique_staging_path u d (c @ STAGING_SUFFIX) := y)) = recoverable sha x c f"
  "recoverable sha x c (f(unique_staging_path u d (mcp_config_backup_path c @ STAGING_SUFFIX) := y)) = recoverable sha x c f"
  by (rule recoverable_cong; simp)+

lemma read_own_file: "own_file x \<Longrightarrow> files d c = x \<Longrightarrow> read_bytes_or_none d c = map_option content x"
  by (erule own_file_cases) (auto simp: read_bytes_or_none_def)

lemma stage_from_clean:
  assumes "own_file x" and "safe (recoverable sha x c) d" and "clean x c (files d)"
    and st: "stage_config_overlay sha u c payload d = (original, d')"
  shows "original = map_option content x \<and> safe (recoverable sha x c) d' \<and> staged sha x c payload (files d')"
proof -
  let ?S = "safe (recoverable sha x c)"
  let ?r = "encode_backup_record sha (map_option content x) payload"
  have o: "read_bytes_or_none d c = map_option content x" using assms(1,3) by (simp add: read_own_file clean_def)
  show ?thesis
  proof (cases "map_option content x = Some payload")
    case True
    then have "files d c = Some \<lparr>content = payload, readable = True\<rparr>" using o read_bytes_Some_iff by metis
    moreover have "d' = d" "original = map_option content x"
      using st o True by (auto simp: stage_config_overlay_def atomic_write_bytes_if_changed_def)
    ultimately show ?thesis using assms(2,3) by (simp add: staged_def)
  next
    case False
    define d1 where "d1 = publish u (mcp_config_backup_path c) ?r d"
    have "files d1 c = x" and "recorded sha x c payload (files d1)"
      using assms(3) by (simp_all add: d1_def publish_def files_atomic_write recovery_defs)
    moreover have "?S d1"
      unfolding d1_def publish_def using assms(2,3) by (intro safe_atomic_write) (auto simp: recovery_defs)
    ultimately have "?S (atomic_write_bytes_if_changed u c payload (c @ STAGING_SUFFIX) d1)"
      "staged sha x c payload (files (atomic_write_bytes_if_changed u c payload (c @ STAGING_SUFFIX) d1))"
      by (intro safe_atomic_write, auto simp: recovery_defs files_atomic_write)
    moreover have "d' = atomic_write_bytes_if_changed u c payload (c @ STAGING_SUFFIX) d1" "original = map_option content x"
      using st o False by (auto simp: stage_config_overlay_def d1_def Let_def)
    ultimately show ?thesis by simp
  qed
qed

lemma restore_recoverable:
  assumes "own_file x" and "safe (recoverable sha x c) d"
  shows "safe (recoverable sha x c) (restore_config_overlay u c (map_option content x) d)
    \<and> clean x c (files (restore_config_overlay u c (map_option content x) d))"
proof -
  define d1 where "d1 = (case map_option content x of None \<Rightarrow> unlink_missing_ok c d
     | Some b \<Rightarrow> atomic_write_bytes_if_changed u c b (c @ STAGING_SUFFIX) d)"
  have Q: "recoverable sha x c ((files d)(c := x))"
    using safe_files [OF assms(2)] by (auto simp: recovery_defs)
  from assms(1) have "files d1 c = x \<and> safe (recoverable sha x c) d1"
  proof (cases rule: own_file_cases)
    case 1
    with Q assms(2) show ?thesis by (auto simp: d1_def intro: safe_unlink)
  next
    case (2 b)
    with Q assms(2) show ?thesis by (auto simp: d1_def files_atomic_write intro!: safe_atomic_write)
  qed
  then show ?thesis unfolding restore_config_overlay_def d1_def [symmetric]
    by (intro conjI safe_unlink) (auto simp: recovery_defs)
qed

lemma reclaim_recoverable:
  assumes "own_file x" and "safe (recoverable sha x c) d"
  shows "safe (recoverable sha x c) (snd (reclaim_config_overlay sha u c d))
    \<and> clean x c (files (snd (reclaim_config_overlay sha u c d)))"
proof -
  let ?b = "mcp_config_backup_path c"
  consider "clean x c (files d)"
    | payload where "recorded sha x c payload (files d)"
      "files d c = x \<or> files d c = Some \<lparr>content = payload, readable = True\<rparr>"
    using safe_files [OF assms(2)] by (auto simp: recoverable_def)
  then show ?thesis
  proof cases
    case 1
    then have "reclaim_config_overlay sha u c d = (False, d)"
      by (simp add: reclaim_config_overlay_def read_bytes_or_none_def clean_def)
    with 1 assms(2) show ?thesis by simp
  next
    case (2 payload)
    have raw: "read_bytes_or_none d ?b = Some (encode_backup_record sha (map_option content x) payload)"
      using 2(1) by (simp add: recorded_def read_bytes_or_none_def)
    have drop: "safe (recoverable sha x c) (unlink_missing_ok ?b d) \<and> clean x c (files (unlink_missing_ok ?b d))"
      if "files d c = x" using that assms(2) by (intro conjI safe_unlink) (auto simp: recovery_defs)
    show ?thesis
    proof (cases "files d c = Some \<lparr>content = payload, readable = True\<rparr>")
      case True
      then have "read_bytes_or_none d c = Some payload" by (simp add: read_bytes_Some_iff)
      then have "reclaim_config_overlay sha u c d = (True, restore_config_overlay u c (map_option content x) d)"
        by (simp add: reclaim_config_overlay_def raw decode_encode_backup)
      then show ?thesis using restore_recoverable [OF assms] by simp
    next
      case False
      with 2(2) have fc: "files d c = x" by simp
      have "reclaim_config_overlay sha u c d = (True, restore_config_overlay u c (map_option content x) d)
          \<or> snd (reclaim_config_overlay sha u c d) = unlink_missing_ok ?b d"
        by (auto simp: reclaim_config_overlay_def raw decode_encode_backup split: option.split)
      then show ?thesis using restore_recoverable [OF assms] drop [OF fc] by fastforce
    qed
  qed
qed

section \<open>Recovery of several files\<close>

text \<open>Nothing a transaction does for the path \<open>e\<close> concerns the path \<open>c\<close> when neither \<open>c\<close> nor its record starts with \<open>e\<close>.\<close>

definition owns :: "path \<Rightarrow> path \<Rightarrow> bool" where
  "owns e p \<longleftrightarrow> take (length e) p = e"

definition apart :: "path \<Rightarrow> path \<Rightarrow> bool" where
  "apart c e \<longleftrightarrow> \<not> owns e c \<and> \<not> owns e (mcp_config_backup_path c)"

definition untouched :: "(bytes \<Rightarrow> string) \<Rightarrow> File option \<Rightarrow> path \<Rightarrow> Run \<Rightarrow> Run \<Rightarrow> bool" where
  "untouched sha x c d d' \<longleftrightarrow> files d' c = files d c \<and> files d' (mcp_config_backup_path c) = files d (mcp_config_backup_path c)
     \<and> (safe (recoverable sha x c) d \<longrightarrow> safe (recoverable sha x c) d')"

lemma untouched_refl [simp]: "untouched sha x c d d"
  by (simp add: untouched_def)

lemma untouched_trans: "untouched sha x c d d1 \<Longrightarrow> untouched sha x c d1 d2 \<Longrightarrow> untouched sha x c d d2"
  by (simp add: untouched_def)

lemma owns_simps [simp]:
  "owns e e" "owns e (mcp_config_backup_path e)" "owns e (unique_staging_path u d (e @ s))"
  "owns e (unique_staging_path u d (mcp_config_backup_path e @ s))"
  by (simp_all add: owns_def mcp_config_backup_path_def unique_staging_path_def)

lemma apart_owns: "apart c e \<Longrightarrow> owns e p \<Longrightarrow> p \<noteq> c \<and> p \<noteq> mcp_config_backup_path c"
  by (auto simp: apart_def)

lemma untouched_atomic_write:
  assumes "apart c e" and "owns e dest" and "owns e (unique_staging_path u d tmp)" and "unique_staging_path u d tmp \<noteq> dest"
  shows "untouched sha x c d (atomic_write_bytes_if_changed u dest b tmp d)"
proof -
  note ne = apart_owns [OF assms(1,2)] apart_owns [OF assms(1,3)]
  have "recoverable sha x c (f(unique_staging_path u d tmp := y)) = recoverable sha x c f" for f y
    using ne by (intro recoverable_cong) auto
  moreover have "recoverable sha x c ((files d)(dest := y)) = recoverable sha x c (files d)" for y
    using ne by (intro recoverable_cong) auto
  ultimately show ?thesis using ne assms(4)
    by (auto simp: untouched_def files_atomic_write intro!: safe_atomic_write dest: safe_files)
qed

lemma untouched_unlink:
  assumes "apart c e" and "owns e p"
  shows "untouched sha x c d (unlink_missing_ok p d)"
proof -
  note ne = apart_owns [OF assms]
  have "recoverable sha x c ((files d)(p := None)) = recoverable sha x c (files d)"
    using ne by (intro recoverable_cong) auto
  then show ?thesis using ne by (auto simp: untouched_def intro: safe_unlink dest: safe_files)
qed

lemmas untouched_intros = untouched_trans [OF _ untouched_unlink] untouched_trans [OF _ untouched_atomic_write]
  untouched_unlink untouched_atomic_write

lemma untouched_restore: "apart c e \<Longrightarrow> untouched sha x c d (restore_config_overlay u e original d)"
  by (cases original) (auto simp: restore_config_overlay_def intro!: untouched_intros)

lemma untouched_reclaim: "apart c e \<Longrightarrow> untouched sha x c d (snd (reclaim_config_overlay sha u e d))"
  by (auto simp: reclaim_config_overlay_def untouched_restore split: option.split intro!: untouched_unlink)

lemma untouched_stage:
  assumes "apart c e" shows "untouched sha x c d (snd (stage_config_overlay sha u e payload d))"
proof -
  have "untouched sha x c d (publish u (mcp_config_backup_path e) r d)" for r
    unfolding publish_def using assms by (intro untouched_atomic_write) auto
  moreover have "untouched sha x c d1 (atomic_write_bytes_if_changed u e payload (e @ STAGING_SUFFIX) d1)" for d1
    using assms by (intro untouched_atomic_write) auto
  ultimately show ?thesis by (auto simp: stage_config_overlay_def Let_def intro: untouched_trans)
qed

lemma untouched_fold:
  "(\<And>e d. e \<in> set es \<Longrightarrow> untouched sha x c d (g e d)) \<Longrightarrow> untouched sha x c d (fold g es d)"
proof (induction es arbitrary: d)
  case (Cons e es)
  then have "untouched sha x c d (g e d)" "untouched sha x c (g e d) (fold g es (g e d))" by simp_all
  then show ?case using untouched_trans by simp
qed simp

lemma untouched_stage_all:
  "\<forall>e \<in> set es. apart c e \<Longrightarrow> c \<notin> set es \<Longrightarrow> stage_all sha u payload es originals d = (originals', d') \<Longrightarrow>
   untouched sha x c d d' \<and> dict_get originals' c = dict_get originals c"
proof (induction es arbitrary: originals d)
  case (Cons e es)
  obtain original d1 where st: "stage_config_overlay sha u e payload d = (original, d1)" by fastforce
  have "untouched sha x c d d1" using untouched_stage [of c e] Cons.prems(1) st by (metis list.set_intros(1) snd_conv)
  with Cons st show ?case using untouched_trans by fastforce
qed simp

definition all_apart :: "path list \<Rightarrow> bool" where
  "all_apart cs \<longleftrightarrow> distinct cs \<and> (\<forall>c \<in> set cs. \<forall>e \<in> set cs. c \<noteq> e \<longrightarrow> apart c e)"

text \<open>A pass over paths that are apart does for each of them what it does for that path alone.\<close>

lemma fold_at:
  assumes "all_apart cs" and "c \<in> set cs" and "\<And>e d. apart c e \<Longrightarrow> untouched sha x c d (g e d)"
  shows "\<exists>d1. untouched sha x c d d1 \<and> untouched sha x c (g c d1) (fold g cs d)"
proof -
  obtain xs ys where cs: "cs = xs @ c # ys" using assms(2) split_list by metis
  have "\<forall>e \<in> set xs \<union> set ys. apart c e" using assms(1) unfolding cs all_apart_def by auto
  then have "untouched sha x c d (fold g xs d)"
    "untouched sha x c (g c (fold g xs d)) (fold g ys (g c (fold g xs d)))"
    using assms(3) by (auto intro!: untouched_fold)
  then show ?thesis unfolding cs by auto
qed

lemma reclaim_all_at:
  assumes "all_apart cs" and "c \<in> set cs" and "own_file x" and "safe (recoverable sha x c) d"
  shows "safe (recoverable sha x c) (reclaim_all sha u cs d) \<and> clean x c (files (reclaim_all sha u cs d))"
proof -
  obtain d1 where "untouched sha x c d d1"
    "untouched sha x c (snd (reclaim_config_overlay sha u c d1)) (reclaim_all sha u cs d)"
    using fold_at [OF assms(1,2), of sha x "\<lambda>c d. snd (reclaim_config_overlay sha u c d)" d] untouched_reclaim
    unfolding reclaim_all_def by blast
  then show ?thesis using reclaim_recoverable [OF assms(3), of sha c d1 u] assms(4)
    by (auto simp: untouched_def clean_def)
qed

lemma restore_all_at:
  assumes "all_apart cs" and "c \<in> set cs" and "own_file x" and "safe (recoverable sha x c) d"
    and "dict_get_or originals c None = map_option content x"
  shows "safe (recoverable sha x c) (restore_all u cs originals d) \<and> clean x c (files (restore_all u cs originals d))"
proof -
  obtain d1 where "untouched sha x c d d1"
    "untouched sha x c (restore_config_overlay u c (dict_get_or originals c None) d1) (restore_all u cs originals d)"
    using fold_at [OF assms(1,2), of sha x "\<lambda>c d. restore_config_overlay u c (dict_get_or originals c None) d" d]
      untouched_restore unfolding restore_all_def by blast
  then show ?thesis using restore_recoverable [OF assms(3), of sha c d1 u] assms(4,5)
    by (auto simp: untouched_def clean_def)
qed

lemma stage_all_at:
  "all_apart cs \<Longrightarrow> c \<in> set cs \<Longrightarrow> own_file x \<Longrightarrow> safe (recoverable sha x c) d \<Longrightarrow> clean x c (files d) \<Longrightarrow>
   stage_all sha u payload cs originals d = (originals', d') \<Longrightarrow>
   dict_get originals' c = Some (map_option content x) \<and> safe (recoverable sha x c) d'"
proof (induction cs arbitrary: originals d)
  case (Cons e cs)
  obtain original d1 where st: "stage_config_overlay sha u e payload d = (original, d1)" by fastforce
  have rest: "stage_all sha u payload cs (dict_set e original originals) d1 = (originals', d')"
    using Cons.prems(6) st by simp
  show ?case
  proof (cases "e = c")
    case True
    have "\<forall>e \<in> set cs. apart c e" "c \<notin> set cs" using Cons.prems(1) True by (auto simp: all_apart_def)
    from untouched_stage_all [OF this rest, of x]
    show ?thesis using stage_from_clean [OF Cons.prems(3-5), of u payload original d1] st True by (simp add: untouched_def)
  next
    case False
    have "apart c e" using Cons.prems(1,2) False by (auto simp: all_apart_def)
    then have "untouched sha x c d d1" using untouched_stage [of c e] st by (metis snd_conv)
    then have "safe (recoverable sha x c) d1" "clean x c (files d1)" using Cons.prems(4,5) by (auto simp: untouched_def clean_def)
    moreover have "all_apart cs" "c \<in> set cs" using Cons.prems(1,2) False by (auto simp: all_apart_def)
    ultimately show ?thesis using Cons.IH Cons.prems(3) rest by blast
  qed
qed simp

section \<open>Transactions and crashes\<close>

definition targets_ok :: "path list \<Rightarrow> (fs \<Rightarrow> path list) \<Rightarrow> bool" where
  "targets_ok cs targets \<longleftrightarrow> (\<forall>f. distinct (targets f) \<and> set (targets f) \<subseteq> set cs)"

lemma all_apart_subset: "all_apart cs \<Longrightarrow> distinct es \<Longrightarrow> set es \<subseteq> set cs \<Longrightarrow> all_apart es"
  by (auto simp: all_apart_def)

lemma transaction_recoverable:
  assumes "all_apart cs" and "targets_ok cs targets" and "c \<in> set cs" and "own_file x" and "safe (recoverable sha x c) d"
  shows "safe (recoverable sha x c) (overlay_transaction sha u cs targets merged d)
    \<and> clean x c (files (overlay_transaction sha u cs targets merged d))"
proof -
  define d1 where "d1 = reclaim_all sha u cs d"
  define es where "es = targets (files d1)"
  obtain originals d2 where st: "stage_all sha u (merged (files d1)) es [] d1 = (originals, d2)" by fastforce
  have run: "overlay_transaction sha u cs targets merged d = restore_all u es originals d2"
    by (simp add: overlay_transaction_def d1_def [symmetric] es_def [symmetric] st)
  have d1: "safe (recoverable sha x c) d1" "clean x c (files d1)"
    using reclaim_all_at [OF assms(1,3-5)] by (simp_all add: d1_def)
  have es: "distinct es" "set es \<subseteq> set cs" using assms(2) by (simp_all add: targets_ok_def es_def)
  show ?thesis
  proof (cases "c \<in> set es")
    case True
    note ap = all_apart_subset [OF assms(1) es]
    from stage_all_at [OF ap True assms(4) d1 st] show ?thesis
      unfolding run by (intro restore_all_at [OF ap True assms(4)]) (simp_all add: dict_get_or_def)
  next
    case False
    then have ap: "\<forall>e \<in> set es. apart c e" using assms(1,3) es(2) unfolding all_apart_def by (metis subsetD)
    then have "untouched sha x c d2 (restore_all u es originals d2)"
      unfolding restore_all_def using untouched_restore by (intro untouched_fold) blast
    moreover have "untouched sha x c d1 d2" using untouched_stage_all [OF ap False st] by blast
    ultimately show ?thesis unfolding run using d1 by (simp add: untouched_def clean_def)
  qed
qed

text \<open>
  The disks that runs can leave one after the other, each with its own payload and random names, each complete or
  stopped anywhere.
\<close>

inductive after_crashes :: "(bytes \<Rightarrow> string) \<Rightarrow> path list \<Rightarrow> (fs \<Rightarrow> path list) \<Rightarrow> fs \<Rightarrow> fs \<Rightarrow> bool"
  for sha cs targets f0 where
  untouched_disk: "after_crashes sha cs targets f0 f0"
| another_run: "after_crashes sha cs targets f0 f \<Longrightarrow>
    left_behind (overlay_transaction sha u cs targets merged (boot f)) f' \<Longrightarrow> after_crashes sha cs targets f0 f'"

lemma after_crashes_recoverable:
  assumes "after_crashes sha cs targets f0 f" and "all_apart cs" and "targets_ok cs targets" and "c \<in> set cs"
    and "own_file (f0 c)" and "f0 (mcp_config_backup_path c) = None"
  shows "recoverable sha (f0 c) c f"
  using assms(1)
proof (induction rule: after_crashes.induct)
  case untouched_disk
  then show ?case using assms(6) by (simp add: recovery_defs)
next
  case (another_run f u merged f')
  have "safe (recoverable sha (f0 c) c) (overlay_transaction sha u cs targets merged (boot f))"
    using transaction_recoverable [OF assms(2-5), of sha "boot f"] another_run.IH by simp
  then show ?case using another_run.hyps(2) by (simp add: safe_def)
qed

text \<open>
  C4. Crash recovery of the operator's configuration. The overlaid paths are distinct, no path is the beginning of another
  path or of the backup path of another, and every transaction chooses its targets among them, each once. Start from a disk
  on which an overlaid path is absent or readable and has no backup record, and let any number of overlay transactions
  happen, with any payloads, each of them complete or killed at any operation, torn writes and failed publications
  included. Then the next reclaim, and the next complete transaction as well, leave at that path exactly the file the
  operator had there in the beginning (or no file, if there was none), and no backup record.
\<close>

theorem operator_config_survives_crashes:
  assumes "after_crashes sha cs targets f0 f" and "all_apart cs" and "targets_ok cs targets" and "c \<in> set cs"
    and "own_file (f0 c)" and "f0 (mcp_config_backup_path c) = None"
  shows "files (reclaim_all sha u cs (boot f)) c = f0 c
    \<and> files (reclaim_all sha u cs (boot f)) (mcp_config_backup_path c) = None
    \<and> files (overlay_transaction sha u cs targets merged (boot f)) c = f0 c
    \<and> files (overlay_transaction sha u cs targets merged (boot f)) (mcp_config_backup_path c) = None"
proof -
  have "safe (recoverable sha (f0 c) c) (boot f)" using after_crashes_recoverable [OF assms] by simp
  then show ?thesis
    using reclaim_all_at [OF assms(2,4,5)] transaction_recoverable [OF assms(2-5)] unfolding clean_def by blast
qed

definition killed_disk :: fs where
  "killed_disk = [''m'' \<mapsto> \<lparr>content = ''mine'', readable = True\<rparr>]"

definition killed_run :: Run where
  "killed_run = overlay_transaction (\<lambda>b. b) (\<lambda>n. ''u'') [''m''] (\<lambda>f. [''m'']) (\<lambda>f. ''r'') (boot killed_disk)"

lemma killed_midway:
  "4 < length (history killed_run) \<and> fst (history killed_run ! 4) ''m'' = Some \<lparr>content = ''r'', readable = True\<rparr>"
  by (simp add: killed_run_def killed_disk_def overlay_transaction_def reclaim_all_def reclaim_config_overlay_def boot_def
      stage_config_overlay_def publish_def atomic_write_bytes_if_changed_def unlink_missing_ok_def restore_all_def
      restore_config_overlay_def read_bytes_or_none_def emit_def write_file_def replace_file_def unlink_file_def
      mcp_config_backup_path_def unique_staging_path_def BACKUP_SUFFIX_def STAGING_SUFFIX_def dict_get_or_def Let_def)

text \<open>The file carries the overlay when the run is killed; the operator's own is put back.\<close>

theorem operator_config_survives_crashes_witness:
  "fst (history killed_run ! 4) ''m'' = Some \<lparr>content = ''r'', readable = True\<rparr>
   \<and> files (reclaim_all (\<lambda>b. b) (\<lambda>n. ''v'') [''m''] (boot (fst (history killed_run ! 4)))) ''m''
     = Some \<lparr>content = ''mine'', readable = True\<rparr>"
proof -
  let ?f = "fst (history killed_run ! 4)"
  have "history killed_run ! 4 \<in> set (history killed_run)" using killed_midway by (intro nth_mem) simp
  then obtain op where "(?f, op) \<in> set (history killed_run)" by (metis prod.collapse)
  moreover have "interrupted op ?f ?f" by (cases op) simp_all
  ultimately have "left_behind killed_run ?f" unfolding left_behind_def by blast
  then have 1: "after_crashes (\<lambda>b. b) [''m''] (\<lambda>f. [''m'']) killed_disk ?f"
    unfolding killed_run_def by (rule another_run [OF untouched_disk])
  have 2: "all_apart [''m'']" "targets_ok [''m''] (\<lambda>f. [''m''])" "''m'' \<in> set [''m'']"
    by (simp_all add: all_apart_def targets_ok_def)
  have 3: "own_file (killed_disk ''m'')" "killed_disk (mcp_config_backup_path ''m'') = None"
    "killed_disk ''m'' = Some \<lparr>content = ''mine'', readable = True\<rparr>"
    by (simp_all add: killed_disk_def own_file_def mcp_config_backup_path_def BACKUP_SUFFIX_def)
  from operator_config_survives_crashes [OF 1 2 3(1,2), of "\<lambda>n. ''v''"] show ?thesis using killed_midway 3(3) by simp
qed

text \<open>
  C39. A workspace at the home directory. The workspace file and the user-global file are then one path, which the
  transaction stages twice; the second snapshot is Ralph's own overlay and replaces the first under the same key. A
  complete, undisturbed run therefore leaves the overlay in place of whatever the operator had and deletes the
  record that could have brought it back.
\<close>

theorem workspace_at_home_loses_config:
  "files (cursor_workspace_mcp_endpoint sha u home home (\<lambda>f. payload) (boot f)) (cursor_global_config_path home)
     = Some \<lparr>content = payload, readable = True\<rparr>
   \<and> files (cursor_workspace_mcp_endpoint sha u home home (\<lambda>f. payload) (boot f))
       (mcp_config_backup_path (cursor_global_config_path home)) = None"
proof -
  let ?c = "cursor_global_config_path home"
  define d1 where "d1 = reclaim_all sha u [?c, ?c] (boot f)"
  obtain o1 d2 where s1: "stage_config_overlay sha u ?c payload d1 = (o1, d2)" by fastforce
  have "files d2 ?c = Some \<lparr>content = payload, readable = True\<rparr>"
    using s1 by (auto simp: stage_config_overlay_def Let_def files_atomic_write)
  then have "read_bytes_or_none d2 ?c = Some payload" by (simp add: read_bytes_Some_iff)
  then have "stage_config_overlay sha u ?c payload d2 = (Some payload, d2)"
    by (simp add: stage_config_overlay_def atomic_write_bytes_if_changed_def)
  then have "cursor_workspace_mcp_endpoint sha u home home (\<lambda>f. payload) (boot f) =
      restore_config_overlay u ?c (Some payload) (restore_config_overlay u ?c (Some payload) d2)"
    using s1 by (simp add: cursor_workspace_mcp_endpoint_def cursor_paths_to_consider_def overlay_transaction_def
        cursor_workspace_config_path_def cursor_global_config_path_def restore_all_def dict_get_or_def d1_def)
  then show ?thesis by (simp add: restore_config_overlay_def files_atomic_write)
qed

text \<open>
  An unreadable configuration. A read error counts as an absent file, so the record says that there was
  nothing, and the complete transaction deletes the file it could not read.
\<close>

theorem unreadable_config_is_deleted:
  "files (overlay_transaction sha u [c] (\<lambda>f. [c]) (\<lambda>f. payload) (boot [c \<mapsto> \<lparr>content = b, readable = False\<rparr>])) c = None
   \<and> files (overlay_transaction sha u [c] (\<lambda>f. [c]) (\<lambda>f. payload) (boot [c \<mapsto> \<lparr>content = b, readable = False\<rparr>]))
       (mcp_config_backup_path c) = None"
proof -
  let ?f = "[c \<mapsto> \<lparr>content = b, readable = False\<rparr>]"
  have "read_bytes_or_none (boot ?f) (mcp_config_backup_path c) = None" "read_bytes_or_none (boot ?f) c = None"
    by (simp_all add: read_bytes_or_none_def)
  then have "reclaim_all sha u [c] (boot ?f) = boot ?f" "fst (stage_config_overlay sha u c payload (boot ?f)) = None"
    by (simp_all add: reclaim_all_def reclaim_config_overlay_def stage_config_overlay_def)
  then show ?thesis
    by (cases "stage_config_overlay sha u c payload (boot ?f)")
      (simp add: overlay_transaction_def restore_all_def dict_get_or_def restore_config_overlay_def)
qed

end
