(* ===== verification/Watchdog_Policy.thy ===== *)
theory Watchdog_Policy
  imports Ralph_Prelude
begin

text \<open>
  The timeout policy of the idle watchdog (\<^verbatim>\<open>agents/idle_watchdog/timeout_policy.py\<close>, defaults from
  \<^verbatim>\<open>timeout_defaults.py\<close>) and the enumerations of the watchdog. Durations are exact rationals.
\<close>

datatype TimeoutProfile = STANDARD | ACTIVITY_ONLY

text \<open>\<open>WAITING\<close> is the verdict \<^verbatim>\<open>WAITING_ON_CHILD\<close>, whose name the execution state of the agent has as well.\<close>

datatype WatchdogVerdict = CONTINUE | WAITING | FIRE

datatype WatchdogFireReason =
    NO_OUTPUT_DEADLINE | CONFLICT_INACTIVITY | OPERATOR_CAP_REACHED | NO_OUTPUT_AT_START
  | STALLED_AFTER_TOOL_RESULT | REPEATED_ERROR_LOOP | REPEATED_IDENTICAL_TOOL_CALL | CHILDREN_PERSIST_TOO_LONG
  | NO_PROGRESS_QUIET | STRICTLY_STUCK | SESSION_CEILING_EXCEEDED | PROCESS_EXIT_HANG | DESCENDANT_HANG
  | DEFERRED_BY_STUCK_CLASSIFIER

datatype AliveBy =
    FRESH_PROGRESS | FRESH_HEARTBEAT_ONLY | STALE_LABEL_ONLY | OS_DESCENDANT_ONLY_STALE_PROGRESS
  | CPU_IDLE_WHILE_ALIVE | LOG_STALE_WHILE_ALIVE

datatype AgentExecutionState = ACTIVE | WAITING_ON_CHILD | RESUMABLE_CONTINUE | TERMINAL_COMPLETE

record TimeoutPolicy =
  tp_idle_timeout :: "rat option"
  tp_profile :: TimeoutProfile
  tp_operator_cap :: "rat option"
  tp_activity_status_interval :: rat
  tp_drain_window :: rat
  tp_max_waiting :: rat
  tp_max_session :: "rat option"
  tp_idle_poll_interval :: rat
  tp_parent_exit_grace :: rat
  tp_descendant_wait_timeout :: rat
  tp_descendant_wait_poll :: rat
  tp_process_exit_wait :: rat
  tp_waiting_status_interval :: rat
  tp_suspect_waiting :: "rat option"
  tp_max_waiting_no_progress :: "rat option"
  tp_no_progress_quiet :: "rat option"
  tp_quiet_minimum_invocation :: "rat option"
  tp_no_output_at_start :: "rat option"
  tp_post_tool_result :: "rat option"
  tp_error_consecutive :: "int option"
  tp_error_window_count :: "int option"
  tp_error_window :: "rat option"
  tp_evidence_ttl :: "rat option"
  tp_silent_subagent :: "rat option"
  tp_change_weights :: "(string, rat) dict option"
  tp_process_monitor :: bool
  tp_capture_output :: bool
  tp_subagent_poll_interval :: rat
  tp_os_descendant_ceiling :: "rat option"
  tp_os_descendant_suspect :: "rat option"
  tp_cpu_idle :: "rat option"
  tp_log_growth :: "rat option"
  tp_strictly_stuck :: "rat option"
  tp_heartbeat_ceiling :: "rat option"
  tp_log_throttle :: rat
  tp_subagent_progress_interval :: rat
  tp_stuck_job_sub_ceiling :: "rat option"

section \<open>Validation\<close>

text \<open>
  A validator is the list of its checks in order: the condition that is refused, and the message. \<open>over\<close> and
  \<open>at_least\<close> compare optional limits: nothing is refused when one of them is unset.
\<close>

type_synonym checks = "(bool \<times> string) list"

definition non_positive :: "rat option \<Rightarrow> bool" where
  "non_positive x = (case x of None \<Rightarrow> False | Some v \<Rightarrow> v \<le> 0)"

definition over :: "rat option \<Rightarrow> rat option \<Rightarrow> bool" where
  "over x y = (case (x, y) of (Some a, Some b) \<Rightarrow> a > b | _ \<Rightarrow> False)"

definition at_least :: "rat option \<Rightarrow> rat option \<Rightarrow> bool" where
  "at_least x y = (case (x, y) of (Some a, Some b) \<Rightarrow> a \<ge> b | _ \<Rightarrow> False)"

definition validate_profile :: "TimeoutPolicy \<Rightarrow> checks" where
  "validate_profile p =
     [(tp_profile p = ACTIVITY_ONLY \<and> tp_idle_timeout p = None, ''activity_only profile requires idle_timeout_seconds''),
      (non_positive (tp_operator_cap p), ''activity_only_operator_cap_seconds must be positive when set''),
      (tp_activity_status_interval p \<le> 0, ''activity_only_status_interval_seconds must be positive'')]"

definition validate_idle_fields :: "TimeoutPolicy \<Rightarrow> checks" where
  "validate_idle_fields p =
     [(non_positive (tp_idle_timeout p), ''idle_timeout_seconds must be positive''),
      (tp_drain_window p < 0, ''drain_window_seconds must be >= 0''),
      (over (tp_idle_timeout p) (Some (tp_max_waiting p)),
       ''max_waiting_on_child_seconds must be >= idle_timeout_seconds when both set'')]"

definition validate_session_and_poll_fields :: "TimeoutPolicy \<Rightarrow> checks" where
  "validate_session_and_poll_fields p =
     [(non_positive (tp_max_session p), ''max_session_seconds must be positive''),
      (over (tp_idle_timeout p) (tp_max_session p), ''max_session_seconds must be >= idle_timeout_seconds''),
      (tp_idle_poll_interval p \<le> 0, ''idle_poll_interval_seconds must be positive''),
      (tp_parent_exit_grace p < 0, ''parent_exit_grace_seconds must be >= 0''),
      (tp_descendant_wait_timeout p < 0, ''descendant_wait_timeout_seconds must be >= 0''),
      (tp_descendant_wait_poll p \<le> 0, ''descendant_wait_poll_seconds must be positive''),
      (tp_process_exit_wait p < 0, ''process_exit_wait_seconds must be >= 0'')]"

definition validate_waiting_status_fields :: "TimeoutPolicy \<Rightarrow> checks" where
  "validate_waiting_status_fields p =
     [(tp_waiting_status_interval p \<le> 0, ''waiting_status_interval_seconds must be positive''),
      (non_positive (tp_suspect_waiting p), ''suspect_waiting_on_child_seconds must be positive''),
      (at_least (tp_suspect_waiting p) (Some (tp_max_waiting p)),
       ''suspect_waiting_on_child_seconds must be strictly less than max_waiting_on_child_seconds''),
      (non_positive (tp_max_waiting_no_progress p), ''max_waiting_on_child_no_progress_seconds must be positive''),
      (over (tp_max_waiting_no_progress p) (Some (tp_max_waiting p)),
       ''max_waiting_on_child_no_progress_seconds must be <= max_waiting_on_child_seconds'')]"

definition validate_no_progress_quiet_seconds :: "TimeoutPolicy \<Rightarrow> checks" where
  "validate_no_progress_quiet_seconds p =
     [(non_positive (tp_no_progress_quiet p), ''no_progress_quiet_seconds must be positive when set''),
      (over (tp_no_progress_quiet p) (tp_max_waiting_no_progress p),
       ''no_progress_quiet_seconds must be <= max_waiting_on_child_no_progress_seconds'')]"

definition validate_no_progress_quiet_minimum_invocation_seconds :: "TimeoutPolicy \<Rightarrow> checks" where
  "validate_no_progress_quiet_minimum_invocation_seconds p =
     [(non_positive (tp_quiet_minimum_invocation p),
       ''no_progress_quiet_minimum_invocation_seconds must be positive when set''),
      (over (tp_quiet_minimum_invocation p) (tp_no_progress_quiet p),
       ''no_progress_quiet_minimum_invocation_seconds must be <= no_progress_quiet_seconds'')]"

definition NO_OUTPUT_AT_START_SECONDS :: rat where
  "NO_OUTPUT_AT_START_SECONDS = 360"

definition start_limit_too_late :: "TimeoutPolicy \<Rightarrow> bool" where
  "start_limit_too_late p = at_least (tp_no_output_at_start p) (tp_max_waiting_no_progress p)"

text \<open>The default limit is switched off where it does not fit; any other is refused.\<close>

definition validate_no_output_at_start_seconds :: "TimeoutPolicy \<Rightarrow> checks" where
  "validate_no_output_at_start_seconds p =
     [(non_positive (tp_no_output_at_start p), ''no_output_at_start_seconds must be positive when set''),
      (start_limit_too_late p \<and> tp_no_output_at_start p \<noteq> Some NO_OUTPUT_AT_START_SECONDS,
       ''no_output_at_start_seconds must be strictly less than max_waiting_on_child_no_progress_seconds'')]"

definition adjust_no_output_at_start_seconds :: "TimeoutPolicy \<Rightarrow> TimeoutPolicy" where
  "adjust_no_output_at_start_seconds p =
     (if start_limit_too_late p then p\<lparr>tp_no_output_at_start := None\<rparr> else p)"

definition validate_post_tool_result_progression :: "TimeoutPolicy \<Rightarrow> checks" where
  "validate_post_tool_result_progression p =
     [(non_positive (tp_post_tool_result p), ''post_tool_result_progression_seconds must be positive when set'')]"

definition validate_repeated_error_fields :: "TimeoutPolicy \<Rightarrow> checks" where
  "validate_repeated_error_fields p =
     [(case tp_error_consecutive p of None \<Rightarrow> False | Some n \<Rightarrow> n \<le> 0,
       ''repeated_error_consecutive_threshold must be positive when set''),
      (case tp_error_window_count p of None \<Rightarrow> False | Some n \<Rightarrow> n \<le> 0,
       ''repeated_error_window_count must be positive when set''),
      (non_positive (tp_error_window p), ''repeated_error_window_seconds must be positive when set'')]"

definition validate_activity_evidence_ttl :: "TimeoutPolicy \<Rightarrow> checks" where
  "validate_activity_evidence_ttl p =
     [(case tp_evidence_ttl p of None \<Rightarrow> False | Some t \<Rightarrow> t < 0, ''activity_evidence_ttl_seconds must be >= 0 when set'')]"

definition validate_silent_subagent_seconds :: "TimeoutPolicy \<Rightarrow> checks" where
  "validate_silent_subagent_seconds p =
     [(non_positive (tp_silent_subagent p), ''silent_subagent_seconds must be > 0 when set'')]"

definition VALID_WORKSPACE_CHANGE_WEIGHT_KEYS :: "string list" where
  "VALID_WORKSPACE_CHANGE_WEIGHT_KEYS = [''artifact'', ''cache'', ''log'', ''other'', ''source'']"

text \<open>The message of a refused weight stops before the value, whose rendering as a float is not modelled.\<close>

definition validate_workspace_change_weights :: "TimeoutPolicy \<Rightarrow> checks" where
  "validate_workspace_change_weights p = (case tp_change_weights p of None \<Rightarrow> [] | Some ws \<Rightarrow>
     concat (map (\<lambda>(k, v).
       [(k \<notin> set VALID_WORKSPACE_CHANGE_WEIGHT_KEYS,
         ''workspace_change_weights['' @ quoted k @ ''] is not a valid WorkspaceChangeKind value; allowed: ''
         @ ''['' @ quoted ''artifact'' @ '', '' @ quoted ''cache'' @ '', '' @ quoted ''log'' @ '', ''
         @ quoted ''other'' @ '', '' @ quoted ''source'' @ '']''),
        (v \<notin> {0, 1}, ''workspace_change_weights['' @ quoted k @ '']='')]) ws))"

definition validate_subagent_output_poll_interval :: "TimeoutPolicy \<Rightarrow> checks" where
  "validate_subagent_output_poll_interval p =
     [(tp_subagent_poll_interval p \<le> 0, ''subagent_output_poll_interval_seconds must be positive'')]"

definition validate_os_descendant_only_fields :: "TimeoutPolicy \<Rightarrow> checks" where
  "validate_os_descendant_only_fields p =
     [(non_positive (tp_os_descendant_ceiling p), ''os_descendant_only_ceiling_seconds must be positive when set''),
      (over (tp_os_descendant_ceiling p) (Some (tp_max_waiting p)),
       ''os_descendant_only_ceiling_seconds must be <= max_waiting_on_child_seconds''),
      (over (tp_os_descendant_ceiling p) (tp_max_waiting_no_progress p),
       ''os_descendant_only_ceiling_seconds must be <= max_waiting_on_child_no_progress_seconds''),
      (non_positive (tp_os_descendant_suspect p), ''os_descendant_only_suspect_seconds must be positive when set''),
      (at_least (tp_os_descendant_suspect p) (tp_os_descendant_ceiling p),
       ''os_descendant_only_suspect_seconds must be < os_descendant_only_ceiling_seconds''),
      (tp_suspect_waiting p \<noteq> None \<and> at_least (tp_os_descendant_suspect p) (Some (tp_max_waiting p)),
       ''os_descendant_only_suspect_seconds must be < max_waiting_on_child_seconds'')]"

definition validate_strictly_stuck_seconds :: "TimeoutPolicy \<Rightarrow> checks" where
  "validate_strictly_stuck_seconds p =
     [(non_positive (tp_strictly_stuck p), ''no_progress_quiet_strictly_stuck_seconds must be positive when set''),
      (over (tp_strictly_stuck p) (Some (tp_max_waiting p)),
       ''no_progress_quiet_strictly_stuck_seconds must be <= max_waiting_on_child_seconds'')]"

definition validate_no_progress_quiet_heartbeat_ceiling_seconds :: "TimeoutPolicy \<Rightarrow> checks" where
  "validate_no_progress_quiet_heartbeat_ceiling_seconds p =
     [(non_positive (tp_heartbeat_ceiling p), ''no_progress_quiet_heartbeat_ceiling_seconds must be positive when set''),
      (over (tp_heartbeat_ceiling p) (tp_no_progress_quiet p),
       ''no_progress_quiet_heartbeat_ceiling_seconds must be <= no_progress_quiet_seconds when both are set'')]"

definition validate_intervals :: "TimeoutPolicy \<Rightarrow> checks" where
  "validate_intervals p =
     [(tp_log_throttle p \<le> 0, ''watchdog_log_throttle_seconds must be positive''),
      (tp_subagent_progress_interval p \<le> 0, ''watchdog_subagent_progress_interval_seconds must be positive'')]"

definition validate_stuck_job_sub_ceiling_seconds :: "TimeoutPolicy \<Rightarrow> checks" where
  "validate_stuck_job_sub_ceiling_seconds p =
     [(non_positive (tp_stuck_job_sub_ceiling p), ''stuck_job_sub_ceiling_seconds must be positive when set''),
      (over (tp_stuck_job_sub_ceiling p) (Some (tp_max_waiting p)),
       ''stuck_job_sub_ceiling_seconds must be <= max_waiting_on_child_seconds'')]"

definition validators :: "(TimeoutPolicy \<Rightarrow> checks) list" where
  "validators =
     [validate_profile, validate_idle_fields, validate_session_and_poll_fields, validate_waiting_status_fields,
      validate_no_progress_quiet_seconds, validate_no_progress_quiet_minimum_invocation_seconds,
      validate_no_output_at_start_seconds, validate_post_tool_result_progression, validate_repeated_error_fields,
      validate_activity_evidence_ttl, validate_silent_subagent_seconds, validate_workspace_change_weights,
      validate_subagent_output_poll_interval, validate_os_descendant_only_fields, validate_strictly_stuck_seconds,
      validate_no_progress_quiet_heartbeat_ceiling_seconds, validate_intervals, validate_stuck_job_sub_ceiling_seconds]"

definition all_checks :: "TimeoutPolicy \<Rightarrow> checks" where
  "all_checks p = concat (map (\<lambda>v. v p) validators)"

definition new_timeout_policy :: "TimeoutPolicy \<Rightarrow> TimeoutPolicy result" where
  "new_timeout_policy p = (case find fst (all_checks p) of
     Some (bad, m) \<Rightarrow> Inl (ValueError m) | None \<Rightarrow> Inr (adjust_no_output_at_start_seconds p))"

section \<open>The defaults\<close>

definition default_timeout_policy :: "rat option \<Rightarrow> TimeoutPolicy" where
  "default_timeout_policy idle =
     \<lparr>tp_idle_timeout = idle, tp_profile = STANDARD, tp_operator_cap = None, tp_activity_status_interval = 30,
      tp_drain_window = 1 / 2, tp_max_waiting = 1800, tp_max_session = None, tp_idle_poll_interval = 1 / 20,
      tp_parent_exit_grace = 5, tp_descendant_wait_timeout = 30, tp_descendant_wait_poll = 1 / 2,
      tp_process_exit_wait = 30, tp_waiting_status_interval = 30, tp_suspect_waiting = Some 600,
      tp_max_waiting_no_progress = Some 600, tp_no_progress_quiet = Some 240, tp_quiet_minimum_invocation = Some 120,
      tp_no_output_at_start = Some NO_OUTPUT_AT_START_SECONDS, tp_post_tool_result = Some 120,
      tp_error_consecutive = Some 5, tp_error_window_count = Some 8, tp_error_window = Some 600,
      tp_evidence_ttl = Some 30, tp_silent_subagent = Some 180,
      tp_change_weights = Some [(''source'', 1), (''log'', 0), (''cache'', 0), (''artifact'', 0), (''other'', 0)],
      tp_process_monitor = True, tp_capture_output = True, tp_subagent_poll_interval = 1,
      tp_os_descendant_ceiling = Some 300, tp_os_descendant_suspect = Some 60, tp_cpu_idle = Some 60,
      tp_log_growth = Some 30, tp_strictly_stuck = None, tp_heartbeat_ceiling = Some 240, tp_log_throttle = 30,
      tp_subagent_progress_interval = 30, tp_stuck_job_sub_ceiling = Some 600\<rparr>"

definition production_policy :: TimeoutPolicy where
  "production_policy = default_timeout_policy (Some 300)"

lemma production_policy_accepted: "new_timeout_policy production_policy = Inr production_policy"
  by (simp add: new_timeout_policy_def all_checks_def validators_def production_policy_def default_timeout_policy_def
      validate_profile_def validate_idle_fields_def validate_session_and_poll_fields_def validate_waiting_status_fields_def
      validate_no_progress_quiet_seconds_def validate_no_progress_quiet_minimum_invocation_seconds_def
      validate_no_output_at_start_seconds_def validate_post_tool_result_progression_def validate_repeated_error_fields_def
      validate_activity_evidence_ttl_def validate_silent_subagent_seconds_def validate_workspace_change_weights_def
      validate_subagent_output_poll_interval_def validate_os_descendant_only_fields_def validate_strictly_stuck_seconds_def
      validate_no_progress_quiet_heartbeat_ceiling_seconds_def validate_intervals_def
      validate_stuck_job_sub_ceiling_seconds_def non_positive_def over_def at_least_def start_limit_too_late_def
      NO_OUTPUT_AT_START_SECONDS_def adjust_no_output_at_start_seconds_def VALID_WORKSPACE_CHANGE_WEIGHT_KEYS_def)

text \<open>What acceptance gives: the limits are positive and every special limit stays within the general one.\<close>

lemma accepted_validator:
  "new_timeout_policy p = Inr q \<Longrightarrow> v \<in> set validators \<Longrightarrow> list_all (\<lambda>x. \<not> fst x) (v p)"
  by (fastforce simp: new_timeout_policy_def find_None_iff all_checks_def list_all_iff split: option.splits prod.splits)

lemma accepted_adjusted: "new_timeout_policy p = Inr q \<Longrightarrow> q = adjust_no_output_at_start_seconds p"
  by (auto simp: new_timeout_policy_def split: option.splits)

lemma not_over: "\<not> over x y \<Longrightarrow> x = Some a \<Longrightarrow> y = Some b \<Longrightarrow> a \<le> b"
  by (simp add: over_def)

definition ceilings_ok :: "TimeoutPolicy \<Rightarrow> bool" where
  "ceilings_ok p \<longleftrightarrow> \<not> over (tp_max_waiting_no_progress p) (Some (tp_max_waiting p))
     \<and> \<not> over (tp_os_descendant_ceiling p) (Some (tp_max_waiting p))"

lemma accepted_ceilings:
  assumes "new_timeout_policy p = Inr q"
  shows "ceilings_ok q"
proof -
  have "list_all (\<lambda>x. \<not> fst x) (validate_waiting_status_fields p)"
    "list_all (\<lambda>x. \<not> fst x) (validate_os_descendant_only_fields p)"
    using accepted_validator [OF assms] by (simp_all add: validators_def)
  then have "ceilings_ok p"
    by (simp add: ceilings_ok_def validate_waiting_status_fields_def validate_os_descendant_only_fields_def)
  then show ?thesis using accepted_adjusted [OF assms] by (simp add: ceilings_ok_def adjust_no_output_at_start_seconds_def)
qed

lemma accepted_drain_window:
  assumes "new_timeout_policy p = Inr q"
  shows "0 \<le> tp_drain_window q"
proof -
  have "list_all (\<lambda>x. \<not> fst x) (validate_idle_fields p)" using accepted_validator [OF assms] by (simp add: validators_def)
  then have "0 \<le> tp_drain_window p" by (simp add: validate_idle_fields_def)
  then show ?thesis using accepted_adjusted [OF assms] by (simp add: adjust_no_output_at_start_seconds_def)
qed

end
