(* ===== verification/Repetition_Tracker.thy ===== *)
theory Repetition_Tracker
  imports Ralph_Prelude
begin

text \<open>
  The repetition breaker of the watchdog (\<^verbatim>\<open>agents/idle_watchdog/repetition_tracker.py\<close>). A message comes with its
  fingerprint and tool arguments with their JSON text: the regular expressions that normalise a message and the
  rendering of arbitrary objects are not modelled. Each operation takes the time it reads.
\<close>

type_synonym events = "(string \<times> rat) list"

record RepetitionTracker =
  rt_consecutive_threshold :: "int option"
  rt_window_count :: "int option"
  rt_window_seconds :: "rat option"
  rt_event_maxlen :: nat
  rt_events :: events
  rt_last_fingerprint :: "string option"
  rt_consecutive :: int
  rt_tool_events :: events
  rt_last_tool_fingerprint :: "string option"
  rt_last_tool_name :: "string option"
  rt_last_tool_args_preview :: "string option"
  rt_tool_consecutive :: int

definition MIN_EVENT_DEQUE_CAP :: int where "MIN_EVENT_DEQUE_CAP = 256"

definition derive_event_maxlen :: "int option \<Rightarrow> nat" where
  "derive_event_maxlen wc = nat (max ((case wc of None \<Rightarrow> 0 | Some n \<Rightarrow> n) * 8) MIN_EVENT_DEQUE_CAP)"

definition new_repetition_tracker :: "int option \<Rightarrow> int option \<Rightarrow> rat option \<Rightarrow> RepetitionTracker" where
  "new_repetition_tracker threshold wc ws =
     \<lparr>rt_consecutive_threshold = threshold, rt_window_count = wc, rt_window_seconds = ws,
      rt_event_maxlen = derive_event_maxlen wc, rt_events = [], rt_last_fingerprint = None, rt_consecutive = 0,
      rt_tool_events = [], rt_last_tool_fingerprint = None, rt_last_tool_name = None,
      rt_last_tool_args_preview = None, rt_tool_consecutive = 0\<rparr>"

text \<open>\<^verbatim>\<open>append\<close> to a deque with a maximal length drops from the left.\<close>

definition deque_append :: "nat \<Rightarrow> 'a \<Rightarrow> 'a list \<Rightarrow> 'a list" where
  "deque_append n x xs = drop (Suc (length xs) - n) (xs @ [x])"

definition prune_before :: "rat option \<Rightarrow> rat \<Rightarrow> events \<Rightarrow> events" where
  "prune_before ws now es = (case ws of None \<Rightarrow> es | Some w \<Rightarrow> dropWhile (\<lambda>e. snd e < now - w) es)"

definition note_error :: "rat \<Rightarrow> string \<Rightarrow> RepetitionTracker \<Rightarrow> RepetitionTracker" where
  "note_error now fp t =
     (let same = (rt_last_fingerprint t = Some fp)
      in t\<lparr>rt_consecutive := (if same then rt_consecutive t + 1 else 1),
           rt_last_fingerprint := Some fp,
           rt_events := prune_before (rt_window_seconds t) now (deque_append (rt_event_maxlen t) (fp, now) (rt_events t))\<rparr>)"

definition DIAGNOSTIC_PREVIEW_CHARS :: nat where "DIAGNOSTIC_PREVIEW_CHARS = 512"

definition tool_args_preview :: "string \<Rightarrow> string" where
  "tool_args_preview blob =
     (if length blob > DIAGNOSTIC_PREVIEW_CHARS then take (DIAGNOSTIC_PREVIEW_CHARS - 3) blob @ ''...'' else blob)"

definition tool_call_fingerprint :: "string \<Rightarrow> string \<Rightarrow> string" where
  "tool_call_fingerprint tool_name blob = tool_name @ ''|'' @ blob"

definition mark_tool_call :: "rat \<Rightarrow> string \<Rightarrow> string \<Rightarrow> RepetitionTracker \<Rightarrow> RepetitionTracker" where
  "mark_tool_call now tool_name blob t =
     (let name = (if tool_name = [] then ''unknown'' else tool_name);
          fp = tool_call_fingerprint name blob;
          same = (rt_last_tool_fingerprint t = Some fp)
      in t\<lparr>rt_tool_consecutive := (if same then rt_tool_consecutive t + 1 else 1),
           rt_last_tool_fingerprint := Some fp, rt_last_tool_name := Some name,
           rt_last_tool_args_preview := Some (tool_args_preview blob),
           rt_tool_events :=
             prune_before (rt_window_seconds t) now (deque_append (rt_event_maxlen t) (fp, now) (rt_tool_events t))\<rparr>)"

definition note_progress :: "RepetitionTracker \<Rightarrow> RepetitionTracker" where
  "note_progress t = t\<lparr>rt_consecutive := 0, rt_last_fingerprint := None, rt_tool_consecutive := 0,
     rt_last_tool_fingerprint := None, rt_last_tool_name := None, rt_last_tool_args_preview := None\<rparr>"

text \<open>The two scans of a window, as the loops are written.\<close>

fun max_fingerprint_scan :: "(string, nat) dict \<Rightarrow> nat \<Rightarrow> events \<Rightarrow> nat" where
  "max_fingerprint_scan counts best [] = best"
| "max_fingerprint_scan counts best ((fp, t) # es) =
     (let running = dict_get_or counts fp 0 + 1
      in max_fingerprint_scan (dict_set fp running counts) (max best running) es)"

definition max_fingerprint_count :: "events \<Rightarrow> nat" where
  "max_fingerprint_count es = max_fingerprint_scan [] 0 es"

definition MAX_CYCLE_FINGERPRINTS :: nat where "MAX_CYCLE_FINGERPRINTS = 4"

fun cycling_scan :: "string list \<Rightarrow> events \<Rightarrow> bool" where
  "cycling_scan distinct_fps [] = True"
| "cycling_scan distinct_fps ((fp, t) # es) =
     (let seen = List.insert fp distinct_fps
      in if length seen > MAX_CYCLE_FINGERPRINTS then False else cycling_scan seen es)"

definition window_is_cycling :: "events \<Rightarrow> bool" where
  "window_is_cycling es = cycling_scan [] es"

definition at_threshold :: "int option \<Rightarrow> int \<Rightarrow> bool" where
  "at_threshold limit n = (case limit of None \<Rightarrow> False | Some k \<Rightarrow> n \<ge> k)"

definition error_dimension_tripped :: "rat \<Rightarrow> RepetitionTracker \<Rightarrow> bool \<times> RepetitionTracker" where
  "error_dimension_tripped now t =
     (if at_threshold (rt_consecutive_threshold t) (rt_consecutive t) then (True, t)
      else case (rt_window_count t, rt_window_seconds t) of
        (Some wc, Some ws) \<Rightarrow>
          (let t' = t\<lparr>rt_events := prune_before (rt_window_seconds t) now (rt_events t)\<rparr>
           in (int (max_fingerprint_count (rt_events t')) \<ge> wc, t'))
      | _ \<Rightarrow> (False, t))"

definition tool_dimension_tripped :: "rat \<Rightarrow> RepetitionTracker \<Rightarrow> bool \<times> RepetitionTracker" where
  "tool_dimension_tripped now t =
     (if at_threshold (rt_consecutive_threshold t) (rt_tool_consecutive t) then (True, t)
      else case (rt_window_count t, rt_window_seconds t) of
        (Some wc, Some ws) \<Rightarrow>
          (let t' = t\<lparr>rt_tool_events := prune_before (rt_window_seconds t) now (rt_tool_events t)\<rparr>
           in (int (max_fingerprint_count (rt_tool_events t')) \<ge> wc \<and> window_is_cycling (rt_tool_events t'), t'))
      | _ \<Rightarrow> (False, t))"

definition tripped :: "rat \<Rightarrow> RepetitionTracker \<Rightarrow> bool \<times> RepetitionTracker" where
  "tripped now t =
     (let (e, t') = error_dimension_tripped now t in if e then (True, t') else tool_dimension_tripped now t')"

definition tripped_tool_dimension :: "rat \<Rightarrow> RepetitionTracker \<Rightarrow> bool \<times> RepetitionTracker" where
  "tripped_tool_dimension now t =
     (let (tool, t') = tool_dimension_tripped now t
      in if tool then (let (e, t'') = error_dimension_tripped now t' in (\<not> e, t'')) else (False, t'))"

section \<open>The scans compute what they are named for\<close>

lemma max_fingerprint_scan_counts:
  assumes "\<And>fp. dict_get_or counts fp 0 = count_list ps fp" and "best = Max (insert 0 (count_list ps ` set ps))"
  shows "max_fingerprint_scan counts best es =
    Max (insert 0 (count_list (ps @ map fst es) ` set (ps @ map fst es)))"
  using assms
proof (induction counts best es arbitrary: ps rule: max_fingerprint_scan.induct)
  case (2 counts best fp t es)
  let ?C = "\<lambda>xs. Max (insert 0 (count_list xs ` set xs))"
  have snoc: "max (?C ps) (count_list ps fp + 1) = ?C (ps @ [fp])"
  proof (rule sym, rule Max_eqI)
    show "finite (insert 0 (count_list (ps @ [fp]) ` set (ps @ [fp])))" by simp
  next
    fix y assume "y \<in> insert 0 (count_list (ps @ [fp]) ` set (ps @ [fp]))"
    then consider "y = 0" | x where "x \<in> set ps" "x \<noteq> fp" "y = count_list ps x" | "y = count_list ps fp + 1"
      by (auto split: if_splits)
    then show "y \<le> max (?C ps) (count_list ps fp + 1)"
    proof cases
      case (2 x)
      then have "y \<le> ?C ps" by (intro Max_ge) auto
      then show ?thesis by simp
    qed simp_all
  next
    have "?C ps \<in> insert 0 (count_list ps ` set ps)" by (intro Max_in) auto
    then consider "?C ps = 0" | x where "x \<in> set ps" "?C ps = count_list ps x" by auto
    then show "max (?C ps) (count_list ps fp + 1) \<in> insert 0 (count_list (ps @ [fp]) ` set (ps @ [fp]))"
    proof cases
      case (2 x)
      then show ?thesis by (cases "x = fp") (auto simp: max_def)
    qed (auto simp: max_def)
  qed
  show ?case
    using "2.IH" [OF refl, of "ps @ [fp]"] "2.prems" snoc by (simp add: add.commute)
qed simp

lemma max_fingerprint_count_eq:
  "max_fingerprint_count es = Max (insert 0 (count_list (map fst es) ` fst ` set es))"
  unfolding max_fingerprint_count_def
  using max_fingerprint_scan_counts [of "[]" "[]" 0 es] by (simp add: dict_get_or_def)

lemma cycling_scan_eq:
  "distinct seen \<Longrightarrow> length seen \<le> MAX_CYCLE_FINGERPRINTS \<Longrightarrow>
   cycling_scan seen es \<longleftrightarrow> card (set seen \<union> fst ` set es) \<le> MAX_CYCLE_FINGERPRINTS"
proof (induction seen es rule: cycling_scan.induct)
  case (1 seen)
  then show ?case by (simp add: distinct_card)
next
  case (2 seen fp t es)
  let ?seen = "List.insert fp seen"
  have d: "distinct ?seen" using "2.prems" by simp
  have u: "set seen \<union> fst ` set ((fp, t) # es) = set ?seen \<union> fst ` set es" by auto
  have "length ?seen \<le> card (set ?seen \<union> fst ` set es)"
    using distinct_card [OF d] card_mono [OF _ Un_upper1, of "set ?seen" "fst ` set es"] by simp
  with "2.IH" [OF refl] d u show ?case by (auto simp: Let_def)
qed

lemma window_is_cycling_eq: "window_is_cycling es \<longleftrightarrow> card (fst ` set es) \<le> MAX_CYCLE_FINGERPRINTS"
  unfolding window_is_cycling_def using cycling_scan_eq [of "[]" es] by (simp add: MAX_CYCLE_FINGERPRINTS_def)

lemma dimension_limits_kept [simp]:
  "rt_consecutive_threshold (snd (error_dimension_tripped now t)) = rt_consecutive_threshold t"
  "rt_consecutive (snd (error_dimension_tripped now t)) = rt_consecutive t"
  "rt_consecutive_threshold (snd (tool_dimension_tripped now t)) = rt_consecutive_threshold t"
  "rt_consecutive (snd (tool_dimension_tripped now t)) = rt_consecutive t"
  by (simp_all add: error_dimension_tripped_def tool_dimension_tripped_def Let_def split: option.split)

text \<open>Asking a dimension prunes its own events only, and pruning twice at one time is pruning once.\<close>

lemma prune_before_idem [simp]: "prune_before ws now (prune_before ws now es) = prune_before ws now es"
  by (simp add: prune_before_def split: option.split)

lemma dimension_asked_again [simp]:
  "fst (error_dimension_tripped now (snd (error_dimension_tripped now t))) = fst (error_dimension_tripped now t)"
  "fst (error_dimension_tripped now (snd (tool_dimension_tripped now t))) = fst (error_dimension_tripped now t)"
  "fst (tool_dimension_tripped now (snd (error_dimension_tripped now t))) = fst (tool_dimension_tripped now t)"
  "fst (tool_dimension_tripped now (snd (tool_dimension_tripped now t))) = fst (tool_dimension_tripped now t)"
  by (auto simp: error_dimension_tripped_def tool_dimension_tripped_def Let_def split: option.splits)

lemma tripped_eq:
  "fst (tripped now t) \<longleftrightarrow> fst (error_dimension_tripped now t) \<or> fst (tool_dimension_tripped now t)"
  by (simp add: tripped_def case_prod_beta Let_def)

lemma tripped_tool_eq:
  "fst (tripped_tool_dimension now (snd (tripped now t)))
     \<longleftrightarrow> fst (tool_dimension_tripped now t) \<and> \<not> fst (error_dimension_tripped now t)"
  by (simp add: tripped_tool_dimension_def tripped_def case_prod_beta Let_def)

lemma tracker_limits_kept [simp]:
  "rt_consecutive_threshold (snd (tripped now t)) = rt_consecutive_threshold t"
  "rt_consecutive (snd (tripped now t)) = rt_consecutive t"
  by (simp_all add: tripped_def split_def Let_def)

end
