(* ===== verification/Idle_Watchdog.thy ===== *)
theory Idle_Watchdog
  imports Watchdog_Policy Repetition_Tracker
begin

text \<open>
  The idle watchdog (\<^verbatim>\<open>agents/idle_watchdog/\<close>): a record of what an agent was last seen doing, operations that
  record activity, and \<^verbatim>\<open>evaluate\<close>, which decides on each tick whether the agent goes on, waits on a child, or is
  killed. The answers of the outside world during a tick are a record: the time, the liveness of children, the
  connectivity, and what \<^verbatim>\<open>classify_quiet\<close> says at each place that asks it. An operation that reads the clock
  several times reads one time, a tick at most two. The status events a listener gets are kept in the state, with the
  exact elapsed time where the code rounds it to a tenth; logs, log throttles and the diagnostic payload of events
  are left out.
\<close>

section \<open>Evidence\<close>

datatype EvidenceTier = FIRST_PARTY | SIDE_CHANNEL

datatype ChannelName = STDOUT | MCP_TOOL | SUBAGENT_OUTPUT | SUBAGENT_LIVENESS | WORKSPACE

record ChannelEvidenceSummary =
  ch_name :: ChannelName
  ch_tier :: EvidenceTier
  ch_last_at :: "rat option"
  ch_age :: "rat option"
  ch_counter :: "int option"
  ch_kind_breakdown :: "(string, int) dict option"
  ch_alive_by :: "AliveBy option"
  ch_can_defer :: bool

definition CHANNEL_TIERS :: "ChannelName \<Rightarrow> EvidenceTier" where
  "CHANNEL_TIERS c = (case c of STDOUT \<Rightarrow> FIRST_PARTY | MCP_TOOL \<Rightarrow> FIRST_PARTY | SUBAGENT_OUTPUT \<Rightarrow> FIRST_PARTY
     | SUBAGENT_LIVENESS \<Rightarrow> SIDE_CHANNEL | WORKSPACE \<Rightarrow> SIDE_CHANNEL)"

definition CHANNEL_DEFERS_BY_DEFAULT :: "ChannelName \<Rightarrow> bool" where
  "CHANNEL_DEFERS_BY_DEFAULT c = (case c of STDOUT \<Rightarrow> False | MCP_TOOL \<Rightarrow> True | SUBAGENT_OUTPUT \<Rightarrow> True
     | SUBAGENT_LIVENESS \<Rightarrow> False | WORKSPACE \<Rightarrow> False)"

definition is_fresh :: "ChannelEvidenceSummary \<Rightarrow> rat option \<Rightarrow> bool" where
  "is_fresh c ttl = (case (ttl, ch_age c) of (Some t, Some a) \<Rightarrow> t > 0 \<and> a < t | _ \<Rightarrow> False)"

definition age_or_zero :: "ChannelEvidenceSummary \<Rightarrow> rat" where
  "age_or_zero c = (case ch_age c of None \<Rightarrow> 0 | Some a \<Rightarrow> a)"

text \<open>The freshest channel of a tier that may defer.\<close>

fun freshest :: "EvidenceTier \<Rightarrow> rat option \<Rightarrow> ChannelEvidenceSummary option \<Rightarrow> ChannelEvidenceSummary list
    \<Rightarrow> ChannelEvidenceSummary option" where
  "freshest tier ttl best [] = best"
| "freshest tier ttl best (c # cs) =
     (if ch_tier c \<noteq> tier \<or> \<not> ch_can_defer c \<or> \<not> is_fresh c ttl then freshest tier ttl best cs
      else (case best of
          None \<Rightarrow> freshest tier ttl (Some c) cs
        | Some b \<Rightarrow> freshest tier ttl (if age_or_zero c < age_or_zero b then Some c else best) cs))"

definition first_party_fresh :: "ChannelEvidenceSummary list \<Rightarrow> rat option \<Rightarrow> ChannelEvidenceSummary option" where
  "first_party_fresh cs ttl = freshest FIRST_PARTY ttl None cs"

definition side_channel_fresh :: "ChannelEvidenceSummary list \<Rightarrow> rat option \<Rightarrow> ChannelEvidenceSummary option" where
  "side_channel_fresh cs ttl = freshest SIDE_CHANNEL ttl None cs"

definition channel_summary ::
  "ChannelName \<Rightarrow> rat option \<Rightarrow> int option \<Rightarrow> rat \<Rightarrow> (string, int) dict option \<Rightarrow> AliveBy option \<Rightarrow> bool option
   \<Rightarrow> ChannelEvidenceSummary" where
  "channel_summary c last_at counter now kinds alive_by can_defer =
     \<lparr>ch_name = c, ch_tier = CHANNEL_TIERS c, ch_last_at = last_at,
      ch_age = map_option (\<lambda>t. max 0 (now - t)) last_at,
      ch_counter = (case counter of Some n \<Rightarrow> if n > 0 then Some n else None | None \<Rightarrow> None),
      ch_kind_breakdown = kinds, ch_alive_by = alive_by,
      ch_can_defer = (case can_defer of Some b \<Rightarrow> b | None \<Rightarrow> CHANNEL_DEFERS_BY_DEFAULT c)\<rparr>"

section \<open>What stuck looks like\<close>

datatype StuckKind = THINKING | LOADING | WAITING_ON_CONNECTIVITY | TRANSITIONING | STUCK | DUPLICATE_KILL | SILENT_SUBAGENT

definition any_first_party_fresh :: "ChannelEvidenceSummary list \<Rightarrow> rat option \<Rightarrow> bool" where
  "any_first_party_fresh cs ttl = list_ex (\<lambda>c. ch_tier c = FIRST_PARTY \<and> ch_can_defer c \<and> is_fresh c ttl) cs"

definition subagent_liveness_fresh :: "ChannelEvidenceSummary list \<Rightarrow> rat option \<Rightarrow> bool" where
  "subagent_liveness_fresh cs ttl = list_ex (\<lambda>c. ch_name c = SUBAGENT_LIVENESS \<and> is_fresh c ttl \<and> ch_can_defer c) cs"

definition has_count :: "ChannelEvidenceSummary \<Rightarrow> bool" where
  "has_count c = (case ch_counter c of None \<Rightarrow> False | Some n \<Rightarrow> n \<ge> 1)"

definition silent_subagent_path :: "ChannelEvidenceSummary list \<Rightarrow> rat \<Rightarrow> bool" where
  "silent_subagent_path cs silent =
     (if silent \<le> 0 then False
      else if list_ex (\<lambda>c. ch_name c = SUBAGENT_LIVENESS \<and> has_count c \<and> ch_alive_by c \<noteq> None) cs then False
      else list_ex (\<lambda>c. ch_name c \<in> {SUBAGENT_OUTPUT, SUBAGENT_LIVENESS} \<and> has_count c
             \<and> (case ch_age c of None \<Rightarrow> True | Some a \<Rightarrow> a \<ge> silent)) cs)"

definition classify_stuck ::
  "bool \<Rightarrow> string option \<Rightarrow> ChannelEvidenceSummary list \<Rightarrow> AgentExecutionState \<Rightarrow> rat option \<Rightarrow> rat option \<Rightarrow> StuckKind" where
  "classify_stuck is_waiting_state connectivity cs quiet ttl silent =
     (if is_waiting_state then DUPLICATE_KILL
      else if connectivity = Some ''offline'' then WAITING_ON_CONNECTIVITY
      else if any_first_party_fresh cs ttl then THINKING
      else if subagent_liveness_fresh cs ttl then LOADING
      else if quiet = WAITING_ON_CHILD then LOADING
      else if quiet = RESUMABLE_CONTINUE then TRANSITIONING
      else if (case silent of None \<Rightarrow> False | Some s \<Rightarrow> s > 0 \<and> silent_subagent_path cs s) then SILENT_SUBAGENT
      else STUCK)"

section \<open>The state\<close>

datatype WaitingStatusKind =
    ENTERED | PROGRESS | SUSPECTED_FROZEN | EXITED | HARD_STOP | SUBAGENT_PROGRESS | STALLED | STALL_RESUMED

record StatusEvent =
  ev_kind :: WaitingStatusKind
  ev_cumulative :: rat
  ev_current_run :: rat
  ev_idle_elapsed :: rat
  ev_ceiling :: rat
  ev_suspect :: "rat option"
  ev_stall_active :: bool

record IdleWatchdog =
  wd_config :: TimeoutPolicy
  wd_last_activity :: rat
  wd_session_started_at :: rat
  wd_last_meaningful_output_at :: "rat option"
  wd_has_meaningful_output :: bool
  wd_any_output_count :: int
  wd_observed_output_bytes :: int
  wd_captured_session_id :: "string option"
  wd_process_alive :: bool
  wd_process_exit_observed_at :: "rat option"
  wd_invocation_started_at :: "rat option"
  wd_waiting_started_at :: "rat option"
  wd_cumulative_waiting :: rat
  wd_strictly_stuck_started_at :: "rat option"
  wd_in_drain_window :: bool
  wd_drain_started_at :: "rat option"
  wd_last_fire_reason :: "WatchdogFireReason option"
  wd_last_deferred_kind :: "StuckKind option"
  wd_last_alive_by :: "AliveBy option"
  wd_last_waiting_status_at :: "rat option"
  wd_suspicion_announced :: bool
  wd_last_tool_result_at :: "rat option"
  wd_awaiting_progression :: bool
  wd_mcp_tool_call_count :: int
  wd_last_mcp_tool_call_at :: "rat option"
  wd_subagent_progress_count :: int
  wd_last_subagent_progress_at :: "rat option"
  wd_last_subagent_progress_emit_at :: "rat option"
  wd_last_subagent_progress_description :: "string option"
  wd_subagent_output_count :: int
  wd_last_subagent_output_at :: "rat option"
  wd_workspace_event_count :: int
  wd_last_workspace_event_at :: "rat option"
  wd_last_workspace_event_weight :: rat
  wd_workspace_kind_counts :: "(string, int) dict"
  wd_captures :: "string list"
  wd_tombstones :: "string list"
  wd_tracker :: RepetitionTracker
  wd_last_progress_fingerprint :: "string option"
  wd_is_waiting_state :: bool
  wd_stall_active :: bool
  wd_last_activity_only_status_at :: "rat option"
  wd_events :: "StatusEvent list"

definition new_watchdog :: "TimeoutPolicy \<Rightarrow> rat \<Rightarrow> IdleWatchdog" where
  "new_watchdog p now =
     \<lparr>wd_config = p, wd_last_activity = now, wd_session_started_at = now, wd_last_meaningful_output_at = None,
      wd_has_meaningful_output = False, wd_any_output_count = 0, wd_observed_output_bytes = 0,
      wd_captured_session_id = None, wd_process_alive = True, wd_process_exit_observed_at = None,
      wd_invocation_started_at = None, wd_waiting_started_at = None, wd_cumulative_waiting = 0,
      wd_strictly_stuck_started_at = None, wd_in_drain_window = False, wd_drain_started_at = None,
      wd_last_fire_reason = None, wd_last_deferred_kind = None, wd_last_alive_by = None,
      wd_last_waiting_status_at = None, wd_suspicion_announced = False, wd_last_tool_result_at = None,
      wd_awaiting_progression = False, wd_mcp_tool_call_count = 0, wd_last_mcp_tool_call_at = None,
      wd_subagent_progress_count = 0, wd_last_subagent_progress_at = None, wd_last_subagent_progress_emit_at = None,
      wd_last_subagent_progress_description = None, wd_subagent_output_count = 0, wd_last_subagent_output_at = None,
      wd_workspace_event_count = 0, wd_last_workspace_event_at = None, wd_last_workspace_event_weight = 0,
      wd_workspace_kind_counts = [], wd_captures = [], wd_tombstones = [],
      wd_tracker = new_repetition_tracker (tp_error_consecutive p) (tp_error_window_count p) (tp_error_window p),
      wd_last_progress_fingerprint = None, wd_is_waiting_state = False, wd_stall_active = False,
      wd_last_activity_only_status_at = None, wd_events = []\<rparr>"

definition emit_status ::
  "WaitingStatusKind \<Rightarrow> rat \<Rightarrow> rat \<Rightarrow> rat option \<Rightarrow> rat option \<Rightarrow> IdleWatchdog \<Rightarrow> IdleWatchdog" where
  "emit_status kind run idle ceil suspect w = w\<lparr>wd_events := wd_events w @
     [\<lparr>ev_kind = kind, ev_cumulative = wd_cumulative_waiting w + run, ev_current_run = run, ev_idle_elapsed = idle,
       ev_ceiling = (case ceil of None \<Rightarrow> tp_max_waiting (wd_config w) | Some c \<Rightarrow> c),
       ev_suspect = (case suspect of None \<Rightarrow> tp_suspect_waiting (wd_config w) | Some s \<Rightarrow> suspect),
       ev_stall_active = wd_stall_active w\<rparr>]\<rparr>"

definition set_stall :: "bool \<Rightarrow> rat \<Rightarrow> IdleWatchdog \<Rightarrow> IdleWatchdog" where
  "set_stall active idle w =
     (if active = wd_stall_active w then w
      else emit_status (if active then STALLED else STALL_RESUMED) 0 idle None None (w\<lparr>wd_stall_active := active\<rparr>))"

definition accumulate_waiting_run :: "rat \<Rightarrow> IdleWatchdog \<Rightarrow> IdleWatchdog" where
  "accumulate_waiting_run now w = (case wd_waiting_started_at w of None \<Rightarrow> w
     | Some started \<Rightarrow>
         (let run = max 0 (now - started);
              idle = now - wd_last_activity w;
              w1 = emit_status EXITED run idle None None (w\<lparr>wd_cumulative_waiting := wd_cumulative_waiting w + run\<rparr>)
          in set_stall False idle (w1\<lparr>wd_waiting_started_at := None, wd_last_waiting_status_at := None,
               wd_suspicion_announced := False\<rparr>)))"

definition reset_idle_baseline :: "rat \<Rightarrow> IdleWatchdog \<Rightarrow> IdleWatchdog" where
  "reset_idle_baseline now w = set_stall False 0
     ((accumulate_waiting_run now w)\<lparr>wd_last_activity := now, wd_in_drain_window := False,
        wd_drain_started_at := None, wd_awaiting_progression := False\<rparr>)"

section \<open>Recording activity\<close>

definition record_invocation_start :: "rat \<Rightarrow> IdleWatchdog \<Rightarrow> IdleWatchdog" where
  "record_invocation_start now w = set_stall False 0
     (w\<lparr>wd_last_activity := now, wd_invocation_started_at := Some now, wd_last_meaningful_output_at := Some now,
        wd_has_meaningful_output := False, wd_any_output_count := 0, wd_observed_output_bytes := 0,
        wd_captured_session_id := None, wd_process_alive := True, wd_process_exit_observed_at := None,
        wd_waiting_started_at := None, wd_cumulative_waiting := 0, wd_in_drain_window := False,
        wd_drain_started_at := None, wd_last_fire_reason := None, wd_last_deferred_kind := None,
        wd_last_alive_by := None, wd_last_subagent_progress_description := None,
        wd_last_waiting_status_at := None, wd_suspicion_announced := False, wd_last_tool_result_at := None,
        wd_awaiting_progression := False, wd_mcp_tool_call_count := 0, wd_last_mcp_tool_call_at := None,
        wd_subagent_progress_count := 0, wd_last_subagent_progress_at := None,
        wd_last_subagent_progress_emit_at := None, wd_subagent_output_count := 0, wd_last_subagent_output_at := None,
        wd_workspace_event_count := 0, wd_last_workspace_event_at := None, wd_last_workspace_event_weight := 0,
        wd_workspace_kind_counts := [], wd_captures := [], wd_tombstones := [],
        wd_last_progress_fingerprint := None\<rparr>)"

definition record_invocation_end :: "rat \<Rightarrow> IdleWatchdog \<Rightarrow> IdleWatchdog" where
  "record_invocation_end now w = set_stall False (max 0 (now - wd_last_activity w)) w"

definition record_meaningful_output :: "rat \<Rightarrow> IdleWatchdog \<Rightarrow> IdleWatchdog" where
  "record_meaningful_output now w = w\<lparr>wd_last_meaningful_output_at := Some now, wd_has_meaningful_output := True\<rparr>"

definition record_activity :: "rat \<Rightarrow> IdleWatchdog \<Rightarrow> IdleWatchdog" where
  "record_activity now w = (let w1 = reset_idle_baseline now w
     in record_meaningful_output now (w1\<lparr>wd_tracker := note_progress (wd_tracker w1)\<rparr>))"

definition record_any_output :: "int \<Rightarrow> IdleWatchdog \<Rightarrow> IdleWatchdog" where
  "record_any_output bytes w = w\<lparr>wd_any_output_count := wd_any_output_count w + 1,
     wd_observed_output_bytes := wd_observed_output_bytes w + max 0 bytes\<rparr>"

definition record_lifecycle_activity :: "rat \<Rightarrow> IdleWatchdog \<Rightarrow> IdleWatchdog" where
  "record_lifecycle_activity now w = reset_idle_baseline now (record_any_output 0 w)"

definition record_tool_use_activity :: "rat \<Rightarrow> IdleWatchdog \<Rightarrow> IdleWatchdog" where
  "record_tool_use_activity now w = record_meaningful_output now (reset_idle_baseline now w)"

definition record_tool_call_activity :: "rat \<Rightarrow> string \<Rightarrow> string \<Rightarrow> IdleWatchdog \<Rightarrow> IdleWatchdog" where
  "record_tool_call_activity now tool_name blob w = (let w1 = accumulate_waiting_run now w
     in w1\<lparr>wd_tracker := mark_tool_call now tool_name blob (wd_tracker w1)\<rparr>)"

definition record_error_activity :: "rat \<Rightarrow> string \<Rightarrow> IdleWatchdog \<Rightarrow> IdleWatchdog" where
  "record_error_activity now fp w = (let w1 = accumulate_waiting_run now w
     in w1\<lparr>wd_tracker := note_error now fp (wd_tracker w1)\<rparr>)"

definition record_progress_report :: "rat \<Rightarrow> string \<Rightarrow> IdleWatchdog \<Rightarrow> IdleWatchdog" where
  "record_progress_report now fp w =
     (if wd_last_progress_fingerprint w = Some fp then record_error_activity now fp w
      else record_activity now (w\<lparr>wd_last_progress_fingerprint := Some fp\<rparr>))"

definition record_tool_result_activity :: "rat \<Rightarrow> bool \<Rightarrow> IdleWatchdog \<Rightarrow> IdleWatchdog" where
  "record_tool_result_activity now is_harness_echo w =
     (let w1 = accumulate_waiting_run now w;
          w2 = (if is_harness_echo then w1 else record_meaningful_output now (reset_idle_baseline now w1))
      in w2\<lparr>wd_last_tool_result_at := Some now, wd_awaiting_progression := True\<rparr>)"

definition record_mcp_tool_call :: "rat \<Rightarrow> IdleWatchdog \<Rightarrow> IdleWatchdog" where
  "record_mcp_tool_call now w = w\<lparr>wd_mcp_tool_call_count := wd_mcp_tool_call_count w + 1,
     wd_last_mcp_tool_call_at := Some now\<rparr>"

definition record_subagent_work :: "rat \<Rightarrow> string option \<Rightarrow> IdleWatchdog \<Rightarrow> IdleWatchdog" where
  "record_subagent_work now description w =
     w\<lparr>wd_subagent_progress_count := wd_subagent_progress_count w + 1, wd_last_subagent_progress_at := Some now,
       wd_last_subagent_progress_description :=
         (case description of None \<Rightarrow> wd_last_subagent_progress_description w | Some d \<Rightarrow> Some d)\<rparr>"

definition record_subagent_output :: "rat \<Rightarrow> int \<Rightarrow> IdleWatchdog \<Rightarrow> IdleWatchdog" where
  "record_subagent_output now line_count w = w\<lparr>wd_subagent_output_count := wd_subagent_output_count w + line_count,
     wd_last_subagent_output_at := Some now\<rparr>"

definition record_workspace_event :: "rat \<Rightarrow> string \<Rightarrow> rat \<Rightarrow> IdleWatchdog \<Rightarrow> IdleWatchdog" where
  "record_workspace_event now kind weight w =
     (if weight = 0 then w
      else w\<lparr>wd_workspace_event_count := wd_workspace_event_count w + 1, wd_last_workspace_event_at := Some now,
             wd_last_workspace_event_weight := weight,
             wd_workspace_kind_counts :=
               dict_set kind (dict_get_or (wd_workspace_kind_counts w) kind 0 + 1) (wd_workspace_kind_counts w)\<rparr>)"

definition record_process_liveness :: "rat \<Rightarrow> bool \<Rightarrow> bool \<Rightarrow> IdleWatchdog \<Rightarrow> IdleWatchdog" where
  "record_process_liveness now is_alive obs w =
     (let w1 = w\<lparr>wd_process_alive := is_alive\<rparr> in
      if \<not> obs then w1
      else if is_alive then w1\<lparr>wd_process_exit_observed_at := None\<rparr>
      else if wd_process_exit_observed_at w1 = None then w1\<lparr>wd_process_exit_observed_at := Some now\<rparr> else w1)"

definition record_session_id_capture :: "string \<Rightarrow> IdleWatchdog \<Rightarrow> IdleWatchdog" where
  "record_session_id_capture session_id w = w\<lparr>wd_captured_session_id := Some session_id\<rparr>"

definition set_is_waiting_state :: "bool \<Rightarrow> IdleWatchdog \<Rightarrow> IdleWatchdog" where
  "set_is_waiting_state b w = w\<lparr>wd_is_waiting_state := b\<rparr>"

definition BROKEN_AGENT_MAX_NONBLANK_LINES :: int where "BROKEN_AGENT_MAX_NONBLANK_LINES = 2"
definition BROKEN_AGENT_MAX_OUTPUT_BYTES :: int where "BROKEN_AGENT_MAX_OUTPUT_BYTES = 256"

definition is_structurally_small_output :: "int \<Rightarrow> int \<Rightarrow> bool" where
  "is_structurally_small_output nonblank_line_count total_bytes =
     (if nonblank_line_count > BROKEN_AGENT_MAX_NONBLANK_LINES then False else total_bytes \<le> BROKEN_AGENT_MAX_OUTPUT_BYTES)"

definition observed_output_is_structurally_small :: "IdleWatchdog \<Rightarrow> bool" where
  "observed_output_is_structurally_small w =
     is_structurally_small_output (wd_any_output_count w) (wd_observed_output_bytes w)"

end
