(* ===== verification/Watchdog_Verdicts.thy ===== *)
theory Watchdog_Verdicts
  imports Idle_Watchdog
begin

text \<open>
  The evaluation of the idle watchdog (\<^verbatim>\<open>_active_branch.py\<close>, \<^verbatim>\<open>_waiting_branch.py\<close>, \<^verbatim>\<open>_fire_evaluators.py\<close>, \<^verbatim>\<open>_gate.py\<close> and
  the evidence half of \<^verbatim>\<open>_activity_methods.py\<close> under \<^verbatim>\<open>agents/idle_watchdog\<close>). \<^verbatim>\<open>classify_quiet\<close> is asked up to four
  times in a tick and may answer differently each time; where the code guards the call, an exception counts as the
  answer its handler assumes. The two assertions of the code hold in every state the operations reach (lemma
  \<open>assertions_hold\<close> of \<^verbatim>\<open>Watchdog_Runs\<close>); the definitions read a default there. \<open>tk_now\<close> is the reading at the start of a
  tick; the readings the code takes later in it (the elapsed time of the invocation, the windows of the repetition
  tracker, the evidence summary) are one sample, \<open>tk_later\<close>, and the count of live subagents is one value per tick.
\<close>

section \<open>A tick\<close>

record CorroborationSnapshot =
  co_alive_by :: "AliveBy option"
  co_scoped_child_active :: "bool option"

text \<open>The process monitor: live subagents, and the new lines of each worker; \<open>None\<close> where a call raises.\<close>

record Monitor =
  mo_live :: int
  mo_outputs :: "(string \<times> nat option) list option"

record Tick =
  tk_now :: rat
  tk_later :: rat
  tk_quiet :: "nat \<Rightarrow> AgentExecutionState"
  tk_corroboration :: CorroborationSnapshot
  tk_connectivity :: "string option"
  tk_monitor :: "Monitor option"

definition MAX_SUBAGENT_OUTPUT_CAPTURES :: nat where "MAX_SUBAGENT_OUTPUT_CAPTURES = 128"
definition MAX_EVICTED_TOMBSTONES :: nat where "MAX_EVICTED_TOMBSTONES = MAX_SUBAGENT_OUTPUT_CAPTURES"

fun read_captures :: "string list \<Rightarrow> (string \<times> nat option) list \<Rightarrow> string list \<Rightarrow> nat \<Rightarrow> string list \<times> nat" where
  "read_captures tombstones [] captures n = (captures, n)"
| "read_captures tombstones ((worker, lines) # outs) captures n =
     (if worker \<in> set tombstones then read_captures tombstones outs captures n
      else read_captures tombstones outs (if worker \<in> set captures then captures else captures @ [worker])
             (n + (case lines of None \<Rightarrow> 0 | Some k \<Rightarrow> k)))"

definition poll_subagent_output :: "rat \<Rightarrow> Monitor option \<Rightarrow> IdleWatchdog \<Rightarrow> IdleWatchdog" where
  "poll_subagent_output now monitor w =
     (case monitor of None \<Rightarrow> w | Some m \<Rightarrow> (case mo_outputs m of None \<Rightarrow> w
      | Some outs \<Rightarrow>
          (let live = map fst outs;
               tombstones = filter (\<lambda>t. t \<in> set live) (wd_tombstones w);
               (captures, n) = read_captures tombstones outs (wd_captures w) 0;
               extra = length captures - MAX_SUBAGENT_OUTPUT_CAPTURES;
               tombstones' = tombstones @ take extra captures;
               w1 = w\<lparr>wd_captures := filter (\<lambda>c. c \<in> set live) (drop extra captures),
                      wd_tombstones := drop (length tombstones' - MAX_EVICTED_TOMBSTONES) tombstones'\<rparr>
           in if n \<noteq> 0 then record_subagent_output now (int n) w1 else w1)))"

section \<open>The evidence summary\<close>

definition latest :: "rat option list \<Rightarrow> rat option" where
  "latest ts = fold (\<lambda>t best. case (t, best) of (None, _) \<Rightarrow> best | (Some a, None) \<Rightarrow> Some a
     | (Some a, Some b) \<Rightarrow> Some (max a b)) ts None"

definition subagent_output_summary :: "rat \<Rightarrow> IdleWatchdog \<Rightarrow> ChannelEvidenceSummary" where
  "subagent_output_summary now w = channel_summary SUBAGENT_OUTPUT
     (latest [wd_last_subagent_progress_at w, wd_last_subagent_output_at w])
     (Some (wd_subagent_progress_count w + wd_subagent_output_count w)) now None None None"

definition workspace_summary :: "rat \<Rightarrow> IdleWatchdog \<Rightarrow> ChannelEvidenceSummary" where
  "workspace_summary now w = channel_summary WORKSPACE (wd_last_workspace_event_at w) (Some (wd_workspace_event_count w)) now
     (if wd_workspace_kind_counts w = [] then None else Some (wd_workspace_kind_counts w)) None
     (Some (wd_last_workspace_event_weight w > 0))"

definition live_subagents :: "Monitor option \<Rightarrow> int" where
  "live_subagents monitor = (case monitor of None \<Rightarrow> 0 | Some m \<Rightarrow> mo_live m)"

definition subagent_liveness_summary :: "rat \<Rightarrow> Monitor option \<Rightarrow> IdleWatchdog \<Rightarrow> ChannelEvidenceSummary" where
  "subagent_liveness_summary now monitor w =
     (let alive = (live_subagents monitor > 0);
          last_at = (case wd_last_subagent_progress_at w of None \<Rightarrow> if alive then Some now else None | Some t \<Rightarrow> Some t);
          counter = (if alive then max (wd_subagent_progress_count w) (live_subagents monitor)
                     else wd_subagent_progress_count w)
      in \<lparr>ch_name = SUBAGENT_LIVENESS, ch_tier = SIDE_CHANNEL, ch_last_at = last_at,
          ch_age = map_option (\<lambda>t. max 0 (now - t)) last_at,
          ch_counter = (if counter > 0 then Some counter else None), ch_kind_breakdown = None,
          ch_alive_by = (if alive then Some OS_DESCENDANT_ONLY_STALE_PROGRESS else None), ch_can_defer = alive\<rparr>)"

definition last_evidence_summary :: "rat \<Rightarrow> Monitor option \<Rightarrow> IdleWatchdog \<Rightarrow> ChannelEvidenceSummary list" where
  "last_evidence_summary now monitor w =
     [channel_summary STDOUT (Some (wd_last_activity w)) None now None None None,
      channel_summary MCP_TOOL (wd_last_mcp_tool_call_at w) (Some (wd_mcp_tool_call_count w)) now None None None,
      subagent_output_summary now w, subagent_liveness_summary now monitor w, workspace_summary now w]"

definition evidence :: "Tick \<Rightarrow> IdleWatchdog \<Rightarrow> ChannelEvidenceSummary list" where
  "evidence k w = last_evidence_summary (tk_now k) (tk_monitor k) w"

definition channel_evidence_active :: "Tick \<Rightarrow> IdleWatchdog \<Rightarrow> bool" where
  "channel_evidence_active k w =
     (let ttl = tp_evidence_ttl (wd_config w)
      in first_party_fresh (evidence k w) ttl \<noteq> None \<or> side_channel_fresh (evidence k w) ttl \<noteq> None)"

section \<open>The gate\<close>

definition classify_stuck_now :: "Tick \<Rightarrow> IdleWatchdog \<Rightarrow> StuckKind" where
  "classify_stuck_now k w = classify_stuck (wd_is_waiting_state w) (tk_connectivity k) (evidence k w) ACTIVE
     (tp_evidence_ttl (wd_config w)) (tp_silent_subagent (wd_config w))"

definition gate_fire :: "Tick \<Rightarrow> WatchdogFireReason \<Rightarrow> rat \<Rightarrow> IdleWatchdog \<Rightarrow> WatchdogVerdict \<times> IdleWatchdog" where
  "gate_fire k reason idle w =
     (if reason = SESSION_CEILING_EXCEEDED then (FIRE, set_stall True idle w)
      else (let kind = classify_stuck_now k w in
        if kind = STUCK then (FIRE, set_stall True idle w)
        else if kind = SILENT_SUBAGENT then (FIRE, set_stall True idle w)
        else (CONTINUE, (if wd_stall_active w then set_stall False idle w else w)
               \<lparr>wd_last_fire_reason := Some DEFERRED_BY_STUCK_CLASSIFIER, wd_last_deferred_kind := Some kind\<rparr>)))"

text \<open>The shape most fire paths share: ask the gate, then note the reason.\<close>

definition fire_if_gated ::
  "Tick \<Rightarrow> WatchdogFireReason \<Rightarrow> rat \<Rightarrow> IdleWatchdog \<Rightarrow> WatchdogVerdict \<times> IdleWatchdog" where
  "fire_if_gated k reason idle w =
     (case gate_fire k reason idle w of
        (FIRE, w1) \<Rightarrow> (FIRE, w1\<lparr>wd_last_fire_reason := Some reason\<rparr>)
      | (_, w1) \<Rightarrow> (CONTINUE, w1))"

definition after_fire ::
  "(IdleWatchdog \<Rightarrow> IdleWatchdog) \<Rightarrow> WatchdogVerdict \<times> IdleWatchdog \<Rightarrow> WatchdogVerdict \<times> IdleWatchdog" where
  "after_fire f r = (case r of (v, w) \<Rightarrow> if v = FIRE then (FIRE, f w) else (v, w))"

section \<open>The fire evaluators\<close>

definition invocation_elapsed :: "Tick \<Rightarrow> IdleWatchdog \<Rightarrow> rat" where
  "invocation_elapsed k w = (case wd_invocation_started_at w of None \<Rightarrow> 0 | Some t \<Rightarrow> tk_later k - t)"

definition reached :: "rat option \<Rightarrow> rat \<Rightarrow> bool" where
  "reached thr x = (case thr of None \<Rightarrow> False | Some l \<Rightarrow> x \<ge> l)"

definition not_before :: "rat option \<Rightarrow> rat \<Rightarrow> bool" where
  "not_before thr x = (case thr of None \<Rightarrow> True | Some l \<Rightarrow> x \<ge> l)"

definition heartbeat_ceiling_reached :: "Tick \<Rightarrow> IdleWatchdog \<Rightarrow> bool" where
  "heartbeat_ceiling_reached k w \<longleftrightarrow> co_alive_by (tk_corroboration k) = Some FRESH_HEARTBEAT_ONLY
     \<and> reached (tp_heartbeat_ceiling (wd_config w)) (invocation_elapsed k w)
     \<and> not_before (tp_quiet_minimum_invocation (wd_config w)) (invocation_elapsed k w)"

definition is_no_progress_quiet :: "Tick \<Rightarrow> IdleWatchdog \<Rightarrow> bool" where
  "is_no_progress_quiet k w =
     (if tp_no_progress_quiet (wd_config w) = None then False
      else if heartbeat_ceiling_reached k w then True
      else if \<not> reached (tp_no_progress_quiet (wd_config w)) (invocation_elapsed k w) then False
      else if \<not> not_before (tp_quiet_minimum_invocation (wd_config w)) (invocation_elapsed k w) then False
      else if co_alive_by (tk_corroboration k) \<noteq> None then False
      else \<not> channel_evidence_active k w)"

definition fire_no_progress_quiet ::
  "Tick \<Rightarrow> rat \<Rightarrow> rat option \<Rightarrow> IdleWatchdog \<Rightarrow> WatchdogVerdict \<times> IdleWatchdog" where
  "fire_no_progress_quiet k idle limit w =
     after_fire (\<lambda>w1. emit_status HARD_STOP (invocation_elapsed k w1) idle limit None
         (w1\<lparr>wd_last_alive_by := co_alive_by (tk_corroboration k)\<rparr>))
       (fire_if_gated k NO_PROGRESS_QUIET idle w)"

definition evaluate_no_progress_quiet ::
  "Tick \<Rightarrow> rat \<Rightarrow> IdleWatchdog \<Rightarrow> (WatchdogVerdict \<times> IdleWatchdog) option" where
  "evaluate_no_progress_quiet k idle w =
     (if tp_no_progress_quiet (wd_config w) = None \<and> tp_heartbeat_ceiling (wd_config w) = None then None
      else if heartbeat_ceiling_reached k w
        then Some (fire_no_progress_quiet k idle (tp_heartbeat_ceiling (wd_config w)) w)
      else if \<not> reached (tp_no_progress_quiet (wd_config w)) (invocation_elapsed k w) then None
      else if \<not> reached (tp_no_progress_quiet (wd_config w)) idle then None
      else if \<not> is_no_progress_quiet k w then None
      else Some (fire_no_progress_quiet k idle (tp_no_progress_quiet (wd_config w)) w))"

text \<open>This evaluator changes the state also when it gives no verdict: it measures how long the signs last.\<close>

definition evaluate_strictly_stuck ::
  "Tick \<Rightarrow> rat \<Rightarrow> IdleWatchdog \<Rightarrow> WatchdogVerdict option \<times> IdleWatchdog" where
  "evaluate_strictly_stuck k idle w =
     (case tp_strictly_stuck (wd_config w) of
        None \<Rightarrow> (None, w\<lparr>wd_strictly_stuck_started_at := None\<rparr>)
      | Some thr \<Rightarrow>
          if co_alive_by (tk_corroboration k) \<notin> {Some OS_DESCENDANT_ONLY_STALE_PROGRESS, Some CPU_IDLE_WHILE_ALIVE,
               Some LOG_STALE_WHILE_ALIVE}
          then (None, w\<lparr>wd_strictly_stuck_started_at := None\<rparr>)
          else (case wd_strictly_stuck_started_at w of
              None \<Rightarrow> (None, w\<lparr>wd_strictly_stuck_started_at := Some (tk_now k)\<rparr>)
            | Some started \<Rightarrow>
                (let run = tk_now k - started in
                 if run < thr then (None, w)
                 else if channel_evidence_active k w then (None, w)
                 else (case after_fire (emit_status HARD_STOP run idle (Some thr) None) (fire_if_gated k STRICTLY_STUCK idle w)
                         of (v, w1) \<Rightarrow> (Some v, w1)))))"

definition evaluate_no_output_at_start ::
  "Tick \<Rightarrow> rat \<Rightarrow> IdleWatchdog \<Rightarrow> (WatchdogVerdict \<times> IdleWatchdog) option" where
  "evaluate_no_output_at_start k idle w =
     (if tp_no_output_at_start (wd_config w) = None \<or> wd_has_meaningful_output w
         \<or> (case wd_last_meaningful_output_at w of None \<Rightarrow> True
            | Some t \<Rightarrow> \<not> reached (tp_no_output_at_start (wd_config w)) (tk_now k - t))
      then None
      else if tk_quiet k 1 \<noteq> ACTIVE then None
      else if channel_evidence_active k w then None
      else if co_alive_by (tk_corroboration k) \<in> {Some FRESH_PROGRESS, Some FRESH_HEARTBEAT_ONLY} then None
      else if wd_cumulative_waiting w > 0 then None
      else Some (after_fire (\<lambda>w1. emit_status HARD_STOP (invocation_elapsed k w1) idle (tp_no_output_at_start (wd_config w)) None w1)
                  (fire_if_gated k NO_OUTPUT_AT_START idle w)))"

section \<open>The active branch\<close>

definition post_tool_result_stalled ::
  "Tick \<Rightarrow> rat \<Rightarrow> IdleWatchdog \<Rightarrow> (WatchdogVerdict \<times> IdleWatchdog) option" where
  "post_tool_result_stalled k idle w =
     (case (tp_post_tool_result (wd_config w), wd_last_tool_result_at w) of
        (Some thr, Some t) \<Rightarrow>
          if \<not> wd_awaiting_progression w then None
          else if tk_now k - t < thr then None
          else Some (fire_if_gated k STALLED_AFTER_TOOL_RESULT idle w)
      | _ \<Rightarrow> None)"

definition handle_active_branch :: "Tick \<Rightarrow> IdleWatchdog \<Rightarrow> WatchdogVerdict \<times> IdleWatchdog" where
  "handle_active_branch k w =
     (let idle = tk_now k - wd_last_activity w; w1 = accumulate_waiting_run (tk_now k) w in
      if tp_drain_window (wd_config w) = 0 then fire_if_gated k NO_OUTPUT_DEADLINE idle w1
      else (CONTINUE, w1\<lparr>wd_in_drain_window := True, wd_drain_started_at := Some (tk_now k)\<rparr>))"

section \<open>The waiting branch\<close>

definition NON_PROGRESS_ALIVE_BY_VALUES :: "AliveBy list" where
  "NON_PROGRESS_ALIVE_BY_VALUES = [FRESH_HEARTBEAT_ONLY, STALE_LABEL_ONLY, OS_DESCENDANT_ONLY_STALE_PROGRESS,
     CPU_IDLE_WHILE_ALIVE, LOG_STALE_WHILE_ALIVE]"

definition STUCK_ALIVE_BY_VALUES :: "AliveBy list" where
  "STUCK_ALIVE_BY_VALUES = [OS_DESCENDANT_ONLY_STALE_PROGRESS, CPU_IDLE_WHILE_ALIVE, LOG_STALE_WHILE_ALIVE, STALE_LABEL_ONLY]"

definition effective_waiting_ceiling :: "TimeoutPolicy \<Rightarrow> AliveBy option \<Rightarrow> rat" where
  "effective_waiting_ceiling p alive_by =
     (case alive_by of None \<Rightarrow> tp_max_waiting p
      | Some a \<Rightarrow>
          if a = FRESH_PROGRESS then tp_max_waiting p
          else (case (a = OS_DESCENDANT_ONLY_STALE_PROGRESS, tp_os_descendant_ceiling p, tp_max_waiting_no_progress p) of
              (True, Some c, Some n) \<Rightarrow> min c n
            | (True, Some c, None) \<Rightarrow> c
            | (_, _, Some n) \<Rightarrow> if a \<in> set NON_PROGRESS_ALIVE_BY_VALUES then n else tp_max_waiting p
            | (_, _, None) \<Rightarrow> tp_max_waiting p))"

definition compute_effective_suspect :: "TimeoutPolicy \<Rightarrow> AliveBy option \<Rightarrow> rat option" where
  "compute_effective_suspect p alive_by =
     (case tp_suspect_waiting p of None \<Rightarrow> None
      | Some s \<Rightarrow> (case (alive_by = Some OS_DESCENDANT_ONLY_STALE_PROGRESS, tp_os_descendant_suspect p) of
          (True, Some o') \<Rightarrow> Some (min s o') | _ \<Rightarrow> Some s))"

definition enter_waiting_run :: "Tick \<Rightarrow> IdleWatchdog \<Rightarrow> IdleWatchdog" where
  "enter_waiting_run k w =
     (if wd_waiting_started_at w \<noteq> None then w
      else emit_status ENTERED 0 (tk_now k - wd_last_activity w)
             (Some (effective_waiting_ceiling (wd_config w) (co_alive_by (tk_corroboration k)))) None
             (w\<lparr>wd_waiting_started_at := Some (tk_now k), wd_last_waiting_status_at := Some (tk_now k),
                wd_suspicion_announced := False\<rparr>))"

definition current_run :: "Tick \<Rightarrow> IdleWatchdog \<Rightarrow> rat" where
  "current_run k w = (case wd_waiting_started_at w of None \<Rightarrow> 0 | Some t \<Rightarrow> tk_now k - t)"

definition waiting_total :: "Tick \<Rightarrow> IdleWatchdog \<Rightarrow> rat" where
  "waiting_total k w = wd_cumulative_waiting w + current_run k w"

definition stuck_job :: "Tick \<Rightarrow> IdleWatchdog \<Rightarrow> bool" where
  "stuck_job k w \<longleftrightarrow> co_scoped_child_active (tk_corroboration k) = Some True
     \<and> (case co_alive_by (tk_corroboration k) of None \<Rightarrow> False | Some a \<Rightarrow> a \<in> set STUCK_ALIVE_BY_VALUES)
     \<and> reached (tp_stuck_job_sub_ceiling (wd_config w)) (waiting_total k w)"

definition announce_suspicion :: "Tick \<Rightarrow> rat \<Rightarrow> rat option \<Rightarrow> IdleWatchdog \<Rightarrow> IdleWatchdog" where
  "announce_suspicion k limit suspect w =
     (if reached suspect (waiting_total k w) \<and> \<not> wd_suspicion_announced w
      then (let idle = tk_now k - wd_last_activity w
            in emit_status SUSPECTED_FROZEN (current_run k w) idle (Some limit) suspect
                 (set_stall True idle (w\<lparr>wd_suspicion_announced := True\<rparr>)))
      else w)"

definition report_progress :: "Tick \<Rightarrow> rat \<Rightarrow> IdleWatchdog \<Rightarrow> IdleWatchdog" where
  "report_progress k limit w =
     (case wd_last_waiting_status_at w of None \<Rightarrow> w
      | Some t \<Rightarrow>
          if tk_now k - t \<ge> tp_waiting_status_interval (wd_config w)
          then emit_status PROGRESS (current_run k w) (tk_now k - wd_last_activity w) (Some limit) None
                 (w\<lparr>wd_last_waiting_status_at := Some (tk_now k)\<rparr>)
          else w)"

definition report_subagents :: "Tick \<Rightarrow> rat \<Rightarrow> IdleWatchdog \<Rightarrow> IdleWatchdog" where
  "report_subagents k limit w =
     (if (wd_last_subagent_progress_description w \<noteq> None \<or> live_subagents (tk_monitor k) > 0)
         \<and> (case wd_last_subagent_progress_emit_at w of None \<Rightarrow> True
            | Some t \<Rightarrow> tk_now k - t \<ge> tp_subagent_progress_interval (wd_config w))
      then emit_status SUBAGENT_PROGRESS (current_run k w) (tk_now k - wd_last_activity w) (Some limit) None
             (w\<lparr>wd_last_subagent_progress_emit_at := Some (tk_now k)\<rparr>)
      else w)"

definition handle_waiting_branch :: "Tick \<Rightarrow> IdleWatchdog \<Rightarrow> WatchdogVerdict \<times> IdleWatchdog" where
  "handle_waiting_branch k w0 =
     (let w = enter_waiting_run k w0; idle = tk_now k - wd_last_activity w in
      if tk_quiet k 3 \<noteq> WAITING_ON_CHILD then
        (let w1 = accumulate_waiting_run (tk_now k) w
         in if channel_evidence_active k w1 then (CONTINUE, w1) else handle_active_branch k w1)
      else
        (let alive_by = co_alive_by (tk_corroboration k);
             limit = effective_waiting_ceiling (wd_config w) alive_by;
             suspect = compute_effective_suspect (wd_config w) alive_by
         in if stuck_job k w then
              after_fire (\<lambda>w1. emit_status HARD_STOP (current_run k w) idle (tp_stuck_job_sub_ceiling (wd_config w)) suspect
                  (set_stall True idle w1))
                (fire_if_gated k CHILDREN_PERSIST_TOO_LONG idle w)
            else if waiting_total k w \<ge> limit then
              (if tp_profile (wd_config w) = ACTIVITY_ONLY then (CONTINUE, w)
               else (FIRE, emit_status HARD_STOP (current_run k w) idle (Some limit) suspect
                       (set_stall True idle (w\<lparr>wd_last_fire_reason := Some CHILDREN_PERSIST_TOO_LONG\<rparr>))))
            else (WAITING, report_subagents k limit (report_progress k limit (announce_suspicion k limit suspect w)))))"

section \<open>Evaluation\<close>

definition handle_drain_window :: "Tick \<Rightarrow> IdleWatchdog \<Rightarrow> WatchdogVerdict \<times> IdleWatchdog" where
  "handle_drain_window k w =
     (if tk_quiet k 2 = WAITING_ON_CHILD
      then handle_waiting_branch k (w\<lparr>wd_in_drain_window := False, wd_drain_started_at := None\<rparr>)
      else if tk_now k - (case wd_drain_started_at w of None \<Rightarrow> tk_now k | Some t \<Rightarrow> t) < tp_drain_window (wd_config w)
        then (CONTINUE, w)
      else fire_if_gated k NO_OUTPUT_DEADLINE (tk_now k - wd_last_activity w) w)"

definition evaluate_final_verdict :: "Tick \<Rightarrow> rat \<Rightarrow> IdleWatchdog \<Rightarrow> WatchdogVerdict \<times> IdleWatchdog" where
  "evaluate_final_verdict k idle w =
     (if wd_in_drain_window w then handle_drain_window k w
      else case post_tool_result_stalled k idle w of
        Some r \<Rightarrow> r
      | None \<Rightarrow>
          if tk_quiet k 2 = WAITING_ON_CHILD then handle_waiting_branch k w
          else if channel_evidence_active k w then (CONTINUE, w)
          else handle_active_branch k w)"

definition channel_priority :: "ChannelName \<Rightarrow> int" where
  "channel_priority c = (case c of STDOUT \<Rightarrow> 0 | MCP_TOOL \<Rightarrow> 1 | SUBAGENT_LIVENESS \<Rightarrow> 1 | SUBAGENT_OUTPUT \<Rightarrow> 2 | WORKSPACE \<Rightarrow> 3)"

fun newest_channel :: "ChannelName option \<Rightarrow> rat option \<Rightarrow> int \<Rightarrow> ChannelEvidenceSummary list \<Rightarrow> ChannelName option \<times> rat option" where
  "newest_channel kind at_time priority [] = (kind, at_time)"
| "newest_channel kind at_time priority (c # cs) =
     (case ch_last_at c of None \<Rightarrow> newest_channel kind at_time priority cs
      | Some t \<Rightarrow>
          if (case at_time of None \<Rightarrow> True | Some a \<Rightarrow> t > a \<or> t = a \<and> channel_priority (ch_name c) > priority)
          then newest_channel (Some (ch_name c)) (Some t) (channel_priority (ch_name c)) cs
          else newest_channel kind at_time priority cs)"

definition activity_only_snapshot :: "Tick \<Rightarrow> IdleWatchdog \<Rightarrow> ChannelName option \<times> rat option" where
  "activity_only_snapshot k w =
     newest_channel None None (- 1) (last_evidence_summary (tk_later k) (tk_monitor k) w)"

definition activity_only_operator_cap_reached :: "rat \<Rightarrow> IdleWatchdog \<Rightarrow> bool" where
  "activity_only_operator_cap_reached now w =
     (case (tp_operator_cap (wd_config w), wd_invocation_started_at w) of
        (Some cap, Some t) \<Rightarrow> now - t \<ge> cap | _ \<Rightarrow> False)"

definition emit_activity_only_status :: "rat \<Rightarrow> rat \<Rightarrow> IdleWatchdog \<Rightarrow> IdleWatchdog" where
  "emit_activity_only_status now last_at w =
     (if (case wd_last_activity_only_status_at w of None \<Rightarrow> False
          | Some t \<Rightarrow> now - t < tp_activity_status_interval (wd_config w))
      then w
      else emit_status PROGRESS (case wd_invocation_started_at w of None \<Rightarrow> 0 | Some t \<Rightarrow> max 0 (now - t)) (max 0 (now - last_at))
             (tp_idle_timeout (wd_config w)) None (w\<lparr>wd_last_activity_only_status_at := Some now\<rparr>))"

definition evaluate_activity_only :: "Tick \<Rightarrow> IdleWatchdog \<Rightarrow> WatchdogVerdict \<times> IdleWatchdog" where
  "evaluate_activity_only k w =
     (let now = tk_now k;
          last_at = (case snd (activity_only_snapshot k w) of None \<Rightarrow> wd_session_started_at w | Some t \<Rightarrow> t)
      in if activity_only_operator_cap_reached now w then (FIRE, w\<lparr>wd_last_fire_reason := Some OPERATOR_CAP_REACHED\<rparr>)
         else (let w1 = emit_activity_only_status now last_at w
               in if \<not> reached (tp_idle_timeout (wd_config w)) (now - last_at) then (CONTINUE, w1)
                  else (FIRE, w1\<lparr>wd_last_fire_reason := Some CONFLICT_INACTIVITY\<rparr>)))"

definition early_fire_reason :: "Tick \<Rightarrow> IdleWatchdog \<Rightarrow> WatchdogFireReason option \<times> IdleWatchdog" where
  "early_fire_reason k w =
     (if reached (tp_max_session (wd_config w)) (tk_now k - wd_session_started_at w) then (Some SESSION_CEILING_EXCEEDED, w)
      else (case tripped (tk_later k) (wd_tracker w) of
          (False, t) \<Rightarrow> (None, w\<lparr>wd_tracker := t\<rparr>)
        | (True, t) \<Rightarrow> (case tripped_tool_dimension (tk_later k) t of
            (tool, t') \<Rightarrow> (Some (if tool then REPEATED_IDENTICAL_TOOL_CALL else REPEATED_ERROR_LOOP), w\<lparr>wd_tracker := t'\<rparr>))))"

definition evaluate_quiet_child :: "Tick \<Rightarrow> rat \<Rightarrow> IdleWatchdog \<Rightarrow> (WatchdogVerdict \<times> IdleWatchdog) option" where
  "evaluate_quiet_child k idle w =
     (if tk_quiet k 0 = WAITING_ON_CHILD
         \<and> (tp_no_progress_quiet (wd_config w) \<noteq> None \<or> tp_heartbeat_ceiling (wd_config w) \<noteq> None)
      then evaluate_no_progress_quiet k idle w else None)"

definition evaluate_inner :: "Tick \<Rightarrow> IdleWatchdog \<Rightarrow> WatchdogVerdict \<times> IdleWatchdog" where
  "evaluate_inner k w0 =
     (let w = poll_subagent_output (tk_now k) (tk_monitor k) w0 in
      if tp_profile (wd_config w) = ACTIVITY_ONLY then evaluate_activity_only k w
      else case early_fire_reason k w of
        (Some reason, w1) \<Rightarrow> fire_if_gated k reason (tk_now k - wd_last_activity w1) w1
      | (None, w1) \<Rightarrow>
          (let idle = tk_now k - wd_last_activity w1 in
           case evaluate_no_output_at_start k idle w1 of
             Some r \<Rightarrow> r
           | None \<Rightarrow>
               (case tp_idle_timeout (wd_config w1) of
                  None \<Rightarrow> (CONTINUE, w1)
                | Some timeout \<Rightarrow>
                    (case evaluate_strictly_stuck k idle w1 of
                       (Some v, w2) \<Rightarrow> (v, w2)
                     | (None, w2) \<Rightarrow>
                         (case evaluate_quiet_child k idle w2 of
                            Some r \<Rightarrow> r
                          | None \<Rightarrow>
                              if idle < timeout then (CONTINUE, accumulate_waiting_run (tk_now k) w2)
                              else evaluate_final_verdict k idle w2)))))"

definition evaluate :: "Tick \<Rightarrow> IdleWatchdog \<Rightarrow> WatchdogVerdict \<times> IdleWatchdog" where
  "evaluate k w = evaluate_inner k w"

end
