(* ===== verification/Watchdog_Safety.thy ===== *)
theory Watchdog_Safety
  imports Watchdog_Verdicts
begin

text \<open>
  What the watchdog guarantees: a kill has a reason whose deadline has passed, and signs of life veto every reason
  but the two absolute ones; an agent that shows no sign of life is killed; waiting on children is bounded.
\<close>

named_theorems frame \<open>what a helper leaves alone\<close>

lemma emit_frame [frame, simp]:
  "wd_config (emit_status e r i c s w) = wd_config w" "wd_last_activity (emit_status e r i c s w) = wd_last_activity w"
  "wd_session_started_at (emit_status e r i c s w) = wd_session_started_at w"
  "wd_waiting_started_at (emit_status e r i c s w) = wd_waiting_started_at w"
  "wd_cumulative_waiting (emit_status e r i c s w) = wd_cumulative_waiting w"
  "wd_in_drain_window (emit_status e r i c s w) = wd_in_drain_window w"
  "wd_drain_started_at (emit_status e r i c s w) = wd_drain_started_at w"
  "wd_last_fire_reason (emit_status e r i c s w) = wd_last_fire_reason w"
  "wd_last_waiting_status_at (emit_status e r i c s w) = wd_last_waiting_status_at w"
  "wd_stall_active (emit_status e r i c s w) = wd_stall_active w" "wd_is_waiting_state (emit_status e r i c s w) = wd_is_waiting_state w"
  "wd_tracker (emit_status e r i c s w) = wd_tracker w"
  "wd_last_tool_result_at (emit_status e r i c s w) = wd_last_tool_result_at w"
  "wd_awaiting_progression (emit_status e r i c s w) = wd_awaiting_progression w"
  "wd_strictly_stuck_started_at (emit_status e r i c s w) = wd_strictly_stuck_started_at w"
  by (simp_all add: emit_status_def)

lemma set_stall_frame [frame, simp]:
  "wd_config (set_stall a i w) = wd_config w" "wd_last_activity (set_stall a i w) = wd_last_activity w"
  "wd_session_started_at (set_stall a i w) = wd_session_started_at w"
  "wd_waiting_started_at (set_stall a i w) = wd_waiting_started_at w"
  "wd_cumulative_waiting (set_stall a i w) = wd_cumulative_waiting w"
  "wd_in_drain_window (set_stall a i w) = wd_in_drain_window w"
  "wd_drain_started_at (set_stall a i w) = wd_drain_started_at w"
  "wd_last_fire_reason (set_stall a i w) = wd_last_fire_reason w"
  "wd_last_waiting_status_at (set_stall a i w) = wd_last_waiting_status_at w"
  "wd_stall_active (set_stall a i w) = a" "wd_is_waiting_state (set_stall a i w) = wd_is_waiting_state w"
  "wd_tracker (set_stall a i w) = wd_tracker w"
  "wd_last_tool_result_at (set_stall a i w) = wd_last_tool_result_at w"
  "wd_awaiting_progression (set_stall a i w) = wd_awaiting_progression w"
  "wd_strictly_stuck_started_at (set_stall a i w) = wd_strictly_stuck_started_at w"
  by (simp_all add: set_stall_def)

text \<open>The evidence a tick sees is not changed by what the evaluation does to the state.\<close>

definition same_evidence :: "IdleWatchdog \<Rightarrow> IdleWatchdog \<Rightarrow> bool" where
  "same_evidence w w' \<longleftrightarrow> wd_config w' = wd_config w \<and> wd_last_activity w' = wd_last_activity w
     \<and> wd_session_started_at w' = wd_session_started_at w \<and> wd_is_waiting_state w' = wd_is_waiting_state w
     \<and> wd_invocation_started_at w' = wd_invocation_started_at w
     \<and> wd_mcp_tool_call_count w' = wd_mcp_tool_call_count w \<and> wd_last_mcp_tool_call_at w' = wd_last_mcp_tool_call_at w
     \<and> wd_subagent_progress_count w' = wd_subagent_progress_count w
     \<and> wd_last_subagent_progress_at w' = wd_last_subagent_progress_at w
     \<and> wd_subagent_output_count w' = wd_subagent_output_count w \<and> wd_last_subagent_output_at w' = wd_last_subagent_output_at w
     \<and> wd_workspace_event_count w' = wd_workspace_event_count w \<and> wd_last_workspace_event_at w' = wd_last_workspace_event_at w
     \<and> wd_last_workspace_event_weight w' = wd_last_workspace_event_weight w
     \<and> wd_workspace_kind_counts w' = wd_workspace_kind_counts w"

lemma same_evidence_refl [simp]: "same_evidence w w"
  by (simp add: same_evidence_def)

lemma same_evidence_trans: "same_evidence a b \<Longrightarrow> same_evidence b c \<Longrightarrow> same_evidence a c"
  by (simp add: same_evidence_def)

lemma same_evidence_emit: "same_evidence w w' \<Longrightarrow> same_evidence w (emit_status e r i c s w')"
  by (simp add: same_evidence_def emit_status_def)

lemma same_evidence_set_stall: "same_evidence w w' \<Longrightarrow> same_evidence w (set_stall a i w')"
  by (simp add: same_evidence_def set_stall_def emit_status_def)

lemma same_evidence_accumulate: "same_evidence w w' \<Longrightarrow> same_evidence w (accumulate_waiting_run now w')"
  by (auto simp: accumulate_waiting_run_def Let_def split: option.split intro!: same_evidence_set_stall)
    (simp add: same_evidence_def emit_status_def)

lemma same_evidence_enter: "same_evidence w w' \<Longrightarrow> same_evidence w (enter_waiting_run k w')"
  by (auto simp: enter_waiting_run_def intro!: same_evidence_emit) (simp add: same_evidence_def)

lemma evidence_cong:
  assumes "same_evidence w w'"
  shows "evidence k w' = evidence k w"
  unfolding evidence_def last_evidence_summary_def subagent_output_summary_def subagent_liveness_summary_def
    workspace_summary_def using assms unfolding same_evidence_def by (elim conjE) (simp only: )

definition stuck_now :: "Tick \<Rightarrow> IdleWatchdog \<Rightarrow> bool" where
  "stuck_now k w \<longleftrightarrow> classify_stuck_now k w \<in> {STUCK, SILENT_SUBAGENT}"

lemma stuck_now_cong: "same_evidence w w' \<Longrightarrow> stuck_now k w' = stuck_now k w"
  by (simp add: stuck_now_def classify_stuck_now_def evidence_cong) (simp add: same_evidence_def)

lemma channel_evidence_cong: "same_evidence w w' \<Longrightarrow> channel_evidence_active k w' = channel_evidence_active k w"
  by (simp add: channel_evidence_active_def evidence_cong Let_def) (simp add: same_evidence_def)

text \<open>What the gate means by stuck: nothing speaks for the agent.\<close>

lemma stuck_now_iff:
  "stuck_now k w \<longleftrightarrow> \<not> wd_is_waiting_state w \<and> tk_connectivity k \<noteq> Some ''offline''
     \<and> \<not> any_first_party_fresh (evidence k w) (tp_evidence_ttl (wd_config w))
     \<and> \<not> subagent_liveness_fresh (evidence k w) (tp_evidence_ttl (wd_config w))"
  by (simp add: stuck_now_def classify_stuck_now_def classify_stuck_def)

lemma gate_fire_FIRE:
  "gate_fire k reason idle w = (v, w') \<Longrightarrow>
   (v = FIRE \<longleftrightarrow> reason = SESSION_CEILING_EXCEEDED \<or> stuck_now k w) \<and> (v = FIRE \<or> v = CONTINUE)"
  by (auto simp: gate_fire_def stuck_now_def Let_def split: if_splits)

lemma fire_if_gated_cases:
  assumes "fire_if_gated k reason idle w = (v, w')"
  shows "(v = FIRE \<longleftrightarrow> reason = SESSION_CEILING_EXCEEDED \<or> stuck_now k w) \<and> (v = FIRE \<or> v = CONTINUE)
    \<and> (v = FIRE \<longrightarrow> wd_last_fire_reason w' = Some reason)"
proof -
  obtain v0 w0 where g: "gate_fire k reason idle w = (v0, w0)" by fastforce
  from gate_fire_FIRE [OF g] assms g show ?thesis
    by (cases v0) (auto simp: fire_if_gated_def)
qed

lemma after_fire_cases:
  "after_fire f r = (v, w') \<Longrightarrow> v = fst r \<and> (v = FIRE \<longrightarrow> w' = f (snd r)) \<and> (v \<noteq> FIRE \<longrightarrow> w' = snd r)"
  by (auto simp: after_fire_def split: prod.splits if_splits)

section \<open>A kill has a reason\<close>

text \<open>What each reason promises about the state and the tick it is given for.\<close>

definition waited :: "Tick \<Rightarrow> IdleWatchdog \<Rightarrow> rat" where
  "waited k w = waiting_total k (enter_waiting_run k w)"

definition waiting_ceiling :: "Tick \<Rightarrow> IdleWatchdog \<Rightarrow> rat" where
  "waiting_ceiling k w = effective_waiting_ceiling (wd_config w) (co_alive_by (tk_corroboration k))"

definition since :: "rat option \<Rightarrow> rat \<Rightarrow> rat option \<Rightarrow> bool" where
  "since start now limit = (case start of None \<Rightarrow> False | Some t \<Rightarrow> reached limit (now - t))"

definition idle_timed_out :: "Tick \<Rightarrow> IdleWatchdog \<Rightarrow> bool" where
  "idle_timed_out k w = reached (tp_idle_timeout (wd_config w)) (tk_now k - wd_last_activity w)"

definition deadline_passed :: "Tick \<Rightarrow> IdleWatchdog \<Rightarrow> WatchdogFireReason \<Rightarrow> bool" where
  "deadline_passed k w reason =
     (case reason of
        SESSION_CEILING_EXCEEDED \<Rightarrow> reached (tp_max_session (wd_config w)) (tk_now k - wd_session_started_at w)
      | REPEATED_ERROR_LOOP \<Rightarrow> fst (error_dimension_tripped (tk_later k) (wd_tracker w))
      | REPEATED_IDENTICAL_TOOL_CALL \<Rightarrow> fst (tool_dimension_tripped (tk_later k) (wd_tracker w))
          \<and> \<not> fst (error_dimension_tripped (tk_later k) (wd_tracker w))
      | NO_OUTPUT_AT_START \<Rightarrow> \<not> wd_has_meaningful_output w \<and> \<not> channel_evidence_active k w
          \<and> since (wd_last_meaningful_output_at w) (tk_now k) (tp_no_output_at_start (wd_config w))
      | STRICTLY_STUCK \<Rightarrow> \<not> channel_evidence_active k w
          \<and> since (wd_strictly_stuck_started_at w) (tk_now k) (tp_strictly_stuck (wd_config w))
      | NO_PROGRESS_QUIET \<Rightarrow> tk_quiet k 0 = WAITING_ON_CHILD \<and> (heartbeat_ceiling_reached k w
          \<or> reached (tp_no_progress_quiet (wd_config w)) (tk_now k - wd_last_activity w)
            \<and> co_alive_by (tk_corroboration k) = None \<and> \<not> channel_evidence_active k w)
      | STALLED_AFTER_TOOL_RESULT \<Rightarrow> idle_timed_out k w \<and> wd_awaiting_progression w
          \<and> since (wd_last_tool_result_at w) (tk_now k) (tp_post_tool_result (wd_config w))
      | NO_OUTPUT_DEADLINE \<Rightarrow> idle_timed_out k w \<and> (tp_drain_window (wd_config w) \<le> 0
          \<or> since (wd_drain_started_at w) (tk_now k) (Some (tp_drain_window (wd_config w))))
      | CHILDREN_PERSIST_TOO_LONG \<Rightarrow> idle_timed_out k w \<and> tk_quiet k 3 = WAITING_ON_CHILD
          \<and> (reached (tp_stuck_job_sub_ceiling (wd_config w)) (waited k w) \<or> waited k w \<ge> waiting_ceiling k w)
      | _ \<Rightarrow> False)"

text \<open>The two reasons no sign of life can veto: the session ceiling and the ceiling on waiting.\<close>

definition absolute :: "Tick \<Rightarrow> IdleWatchdog \<Rightarrow> WatchdogFireReason \<Rightarrow> bool" where
  "absolute k w reason \<longleftrightarrow> reason = SESSION_CEILING_EXCEEDED
     \<or> reason = CHILDREN_PERSIST_TOO_LONG \<and> waited k w \<ge> waiting_ceiling k w"

definition killed_for :: "WatchdogFireReason set \<Rightarrow> Tick \<Rightarrow> IdleWatchdog \<Rightarrow> IdleWatchdog \<Rightarrow> bool" where
  "killed_for R k w w' \<longleftrightarrow> (\<exists>reason \<in> R. wd_last_fire_reason w' = Some reason \<and> deadline_passed k w reason
     \<and> (absolute k w reason \<or> stuck_now k w))"

definition late_reasons :: "WatchdogFireReason set" where
  "late_reasons = {NO_OUTPUT_AT_START, NO_PROGRESS_QUIET, STALLED_AFTER_TOOL_RESULT, NO_OUTPUT_DEADLINE, CHILDREN_PERSIST_TOO_LONG}"

lemma killed_forI:
  "wd_last_fire_reason w' = Some reason \<Longrightarrow> deadline_passed k w reason \<Longrightarrow> absolute k w reason \<or> stuck_now k w \<Longrightarrow>
   reason \<in> R \<Longrightarrow> killed_for R k w w'"
  by (auto simp: killed_for_def)

lemma fired_if_gated:
  "fire_if_gated k reason idle w = (FIRE, w') \<Longrightarrow> reason \<noteq> SESSION_CEILING_EXCEEDED \<Longrightarrow>
   wd_last_fire_reason w' = Some reason \<and> stuck_now k w"
  using fire_if_gated_cases by blast

lemma fired_after:
  "after_fire f (fire_if_gated k reason idle w) = (FIRE, w') \<Longrightarrow> reason \<noteq> SESSION_CEILING_EXCEEDED \<Longrightarrow>
   (\<And>x. wd_last_fire_reason (f x) = wd_last_fire_reason x) \<Longrightarrow>
   wd_last_fire_reason w' = Some reason \<and> stuck_now k w"
  using fired_if_gated [of k reason idle w] by (cases "fire_if_gated k reason idle w") (auto dest!: after_fire_cases)

lemma active_fires:
  assumes "handle_active_branch k w = (FIRE, w')" and "idle_timed_out k w"
  shows "killed_for late_reasons k w w'"
proof -
  have "same_evidence w (accumulate_waiting_run (tk_now k) w)" by (simp add: same_evidence_accumulate)
  from stuck_now_cong [OF this] assms show ?thesis
    by (intro killed_forI [of _ NO_OUTPUT_DEADLINE])
      (auto simp: late_reasons_def handle_active_branch_def Let_def deadline_passed_def split: if_splits dest!: fired_if_gated)
qed

lemma enter_frame [simp]:
  "wd_config (enter_waiting_run k w) = wd_config w" "wd_last_activity (enter_waiting_run k w) = wd_last_activity w"
  by (simp_all add: enter_waiting_run_def)

lemma accumulate_frame [simp]:
  "wd_config (accumulate_waiting_run now w) = wd_config w"
  "wd_last_activity (accumulate_waiting_run now w) = wd_last_activity w"
  by (simp_all add: accumulate_waiting_run_def Let_def split: option.split)

lemma waiting_fires:
  assumes "handle_waiting_branch k w = (FIRE, w')" and "idle_timed_out k w"
  shows "killed_for late_reasons k w w'"
proof (cases "tk_quiet k 3 = WAITING_ON_CHILD")
  case False
  let ?w1 = "accumulate_waiting_run (tk_now k) (enter_waiting_run k w)"
  have se: "same_evidence w ?w1" by (simp add: same_evidence_accumulate same_evidence_enter)
  have "handle_active_branch k ?w1 = (FIRE, w')" using assms(1) False
    by (auto simp: handle_waiting_branch_def Let_def split: if_splits)
  then have "wd_last_fire_reason w' = Some NO_OUTPUT_DEADLINE \<and> tp_drain_window (wd_config w) = 0
      \<and> stuck_now k (accumulate_waiting_run (tk_now k) ?w1)"
    by (auto simp: late_reasons_def handle_active_branch_def Let_def split: if_splits dest!: fired_if_gated)
  moreover have "same_evidence w (accumulate_waiting_run (tk_now k) ?w1)" using se by (rule same_evidence_accumulate)
  ultimately show ?thesis using assms(2) stuck_now_cong
    by (intro killed_forI [of _ NO_OUTPUT_DEADLINE]) (auto simp: late_reasons_def deadline_passed_def)
next
  case True
  let ?w = "enter_waiting_run k w"
  have se: "same_evidence w ?w" by (simp add: same_evidence_enter)
  show ?thesis
  proof (cases "stuck_job k ?w")
    case sj: True
    then have "wd_last_fire_reason w' = Some CHILDREN_PERSIST_TOO_LONG \<and> stuck_now k ?w"
      using assms(1) True by (simp add: handle_waiting_branch_def Let_def) (drule fired_after, simp_all)
    with sj True assms(2) se show ?thesis
      by (intro killed_forI [of _ CHILDREN_PERSIST_TOO_LONG])
        (auto simp: late_reasons_def deadline_passed_def stuck_job_def waited_def stuck_now_cong)
  next
    case False
    then have "wd_last_fire_reason w' = Some CHILDREN_PERSIST_TOO_LONG \<and> waited k w \<ge> waiting_ceiling k w"
      using assms(1) True by (auto simp: handle_waiting_branch_def Let_def waited_def waiting_ceiling_def split: if_splits)
    with True assms(2) show ?thesis
      by (intro killed_forI [of _ CHILDREN_PERSIST_TOO_LONG]) (auto simp: late_reasons_def deadline_passed_def absolute_def)
  qed
qed

lemma drain_fires:
  assumes "handle_drain_window k w = (FIRE, w')" and "idle_timed_out k w"
  shows "killed_for late_reasons k w w'"
proof (cases "tk_quiet k 2 = WAITING_ON_CHILD")
  case True
  let ?w = "w\<lparr>wd_in_drain_window := False, wd_drain_started_at := None\<rparr>"
  have se: "same_evidence w ?w" by (simp add: same_evidence_def)
  have "killed_for late_reasons k ?w w'"
    using waiting_fires assms True by (simp add: handle_drain_window_def idle_timed_out_def)
  moreover have "waited k ?w = waited k w" "waiting_ceiling k ?w = waiting_ceiling k w"
    "heartbeat_ceiling_reached k ?w = heartbeat_ceiling_reached k w" "idle_timed_out k ?w = idle_timed_out k w"
    by (simp_all add: waited_def waiting_total_def current_run_def enter_waiting_run_def waiting_ceiling_def
        heartbeat_ceiling_reached_def invocation_elapsed_def idle_timed_out_def)
  ultimately show ?thesis using stuck_now_cong [OF se] channel_evidence_cong [OF se]
    unfolding killed_for_def by (elim bexE) (auto simp: late_reasons_def deadline_passed_def absolute_def since_def split: WatchdogFireReason.splits)
next
  case False
  with assms show ?thesis
    by (intro killed_forI [of _ NO_OUTPUT_DEADLINE])
      (auto simp: late_reasons_def handle_drain_window_def deadline_passed_def since_def reached_def split: if_splits option.splits
        dest!: fired_if_gated)
qed

lemma final_fires:
  assumes "evaluate_final_verdict k (tk_now k - wd_last_activity w) w = (FIRE, w')" and "idle_timed_out k w"
  shows "killed_for late_reasons k w w'"
proof (cases "wd_in_drain_window w")
  case True
  then show ?thesis using assms drain_fires by (simp add: evaluate_final_verdict_def)
next
  case False
  show ?thesis
  proof (cases "post_tool_result_stalled k (tk_now k - wd_last_activity w) w")
    case None
    then show ?thesis using assms False waiting_fires active_fires
      by (auto simp: evaluate_final_verdict_def split: if_splits)
  next
    case (Some r)
    then have "r = (FIRE, w')" using assms False by (simp add: evaluate_final_verdict_def)
    with Some assms(2) show ?thesis
      by (intro killed_forI [of _ STALLED_AFTER_TOOL_RESULT])
        (auto simp: late_reasons_def post_tool_result_stalled_def deadline_passed_def since_def reached_def split: option.splits if_splits
          dest!: fired_if_gated)
  qed
qed

lemma start_fires:
  assumes "evaluate_no_output_at_start k (tk_now k - wd_last_activity w) w = Some (FIRE, w')"
  shows "killed_for late_reasons k w w'"
proof -
  let ?i = "tk_now k - wd_last_activity w"
  have "after_fire (\<lambda>w1. emit_status HARD_STOP (invocation_elapsed k w1) ?i (tp_no_output_at_start (wd_config w)) None w1)
      (fire_if_gated k NO_OUTPUT_AT_START ?i w) = (FIRE, w')"
    and "deadline_passed k w NO_OUTPUT_AT_START"
    using assms by (auto simp: evaluate_no_output_at_start_def deadline_passed_def since_def split: if_splits option.splits)
  then show ?thesis by (intro killed_forI [of _ NO_OUTPUT_AT_START]) (auto simp: late_reasons_def dest!: fired_after)
qed

lemma strictly_stuck_fires:
  assumes "evaluate_strictly_stuck k (tk_now k - wd_last_activity w) w = (Some FIRE, w')"
  shows "killed_for {STRICTLY_STUCK} k w w'"
proof -
  obtain thr started where s: "tp_strictly_stuck (wd_config w) = Some thr" "wd_strictly_stuck_started_at w = Some started"
    using assms by (auto simp: evaluate_strictly_stuck_def split: option.splits if_splits)
  let ?i = "tk_now k - wd_last_activity w"
  have "after_fire (emit_status HARD_STOP (tk_now k - started) ?i (Some thr) None) (fire_if_gated k STRICTLY_STUCK ?i w) = (FIRE, w')"
    and "deadline_passed k w STRICTLY_STUCK"
    using assms s by (auto simp: evaluate_strictly_stuck_def deadline_passed_def since_def reached_def Let_def
        split: if_splits prod.splits)
  then show ?thesis by (intro killed_forI [of _ STRICTLY_STUCK]) (auto dest!: fired_after)
qed

lemma quiet_fires:
  assumes "evaluate_quiet_child k (tk_now k - wd_last_activity w) w = Some (FIRE, w')"
  shows "killed_for late_reasons k w w'"
proof -
  let ?i = "tk_now k - wd_last_activity w"
  obtain limit where "fire_no_progress_quiet k ?i limit w = (FIRE, w')" and "deadline_passed k w NO_PROGRESS_QUIET"
    using assms by (auto simp: evaluate_quiet_child_def evaluate_no_progress_quiet_def is_no_progress_quiet_def
        deadline_passed_def split: if_splits)
  then show ?thesis
    by (intro killed_forI [of _ NO_PROGRESS_QUIET]) (auto simp: late_reasons_def fire_no_progress_quiet_def dest!: fired_after)
qed

text \<open>Only the tracker and the clock of \<open>STRICTLY_STUCK\<close> change before the last evaluators are asked.\<close>

lemma deadline_passed_tracker [simp]:
  "stuck_now k (w\<lparr>wd_tracker := t\<rparr>) = stuck_now k w" "absolute k (w\<lparr>wd_tracker := t\<rparr>) = absolute k w"
  "channel_evidence_active k (w\<lparr>wd_tracker := t\<rparr>) = channel_evidence_active k w"
  "stuck_now k (w\<lparr>wd_strictly_stuck_started_at := x\<rparr>) = stuck_now k w"
  "absolute k (w\<lparr>wd_strictly_stuck_started_at := x\<rparr>) = absolute k w"
  "channel_evidence_active k (w\<lparr>wd_strictly_stuck_started_at := x\<rparr>) = channel_evidence_active k w"
proof -
  have a: "same_evidence w (w\<lparr>wd_tracker := t\<rparr>)" and b: "same_evidence w (w\<lparr>wd_strictly_stuck_started_at := x\<rparr>)"
    by (simp_all add: same_evidence_def)
  show "stuck_now k (w\<lparr>wd_tracker := t\<rparr>) = stuck_now k w" using a by (rule stuck_now_cong)
  show "channel_evidence_active k (w\<lparr>wd_tracker := t\<rparr>) = channel_evidence_active k w" using a by (rule channel_evidence_cong)
  show "stuck_now k (w\<lparr>wd_strictly_stuck_started_at := x\<rparr>) = stuck_now k w" using b by (rule stuck_now_cong)
  show "channel_evidence_active k (w\<lparr>wd_strictly_stuck_started_at := x\<rparr>) = channel_evidence_active k w"
    using b by (rule channel_evidence_cong)
  show "absolute k (w\<lparr>wd_tracker := t\<rparr>) = absolute k w" "absolute k (w\<lparr>wd_strictly_stuck_started_at := x\<rparr>) = absolute k w"
    by (simp_all add: absolute_def waited_def waiting_ceiling_def waiting_total_def current_run_def enter_waiting_run_def
        fun_eq_iff)
qed

lemma late_reason_transfer:
  assumes "reason \<in> late_reasons"
  shows "deadline_passed k (w\<lparr>wd_tracker := t\<rparr>) reason = deadline_passed k w reason"
    and "deadline_passed k (w\<lparr>wd_strictly_stuck_started_at := x\<rparr>) reason = deadline_passed k w reason"
proof -
  have "waited k (w\<lparr>wd_tracker := t\<rparr>) = waited k w" "waited k (w\<lparr>wd_strictly_stuck_started_at := x\<rparr>) = waited k w"
    by (simp_all add: waited_def waiting_total_def current_run_def enter_waiting_run_def)
  moreover have "reason = NO_OUTPUT_AT_START \<or> reason = NO_PROGRESS_QUIET \<or> reason = STALLED_AFTER_TOOL_RESULT
      \<or> reason = NO_OUTPUT_DEADLINE \<or> reason = CHILDREN_PERSIST_TOO_LONG"
    using assms by (simp add: late_reasons_def)
  ultimately show "deadline_passed k (w\<lparr>wd_tracker := t\<rparr>) reason = deadline_passed k w reason"
    and "deadline_passed k (w\<lparr>wd_strictly_stuck_started_at := x\<rparr>) reason = deadline_passed k w reason"
    by (auto simp: deadline_passed_def idle_timed_out_def waiting_ceiling_def heartbeat_ceiling_reached_def
        invocation_elapsed_def)
qed

lemma killed_for_transfer:
  "killed_for late_reasons k (w\<lparr>wd_tracker := t\<rparr>) w' \<longleftrightarrow> killed_for late_reasons k w w'"
  "killed_for late_reasons k (w\<lparr>wd_strictly_stuck_started_at := x\<rparr>) w' \<longleftrightarrow> killed_for late_reasons k w w'"
  "killed_for {STRICTLY_STUCK} k (w\<lparr>wd_tracker := t\<rparr>) w' \<longleftrightarrow> killed_for {STRICTLY_STUCK} k w w'"
  by (auto simp: killed_for_def late_reason_transfer) (simp_all add: deadline_passed_def)

lemma killed_for_mono: "killed_for R k w w' \<Longrightarrow> killed_for UNIV k w w'"
  by (auto simp: killed_for_def)

lemma own_value [simp]: "\<exists>x. w = w\<lparr>wd_strictly_stuck_started_at := x\<rparr>" "\<exists>t. w = w\<lparr>wd_tracker := t\<rparr>"
  by (rule exI [of _ "wd_strictly_stuck_started_at w"], simp) (rule exI [of _ "wd_tracker w"], simp)

lemma strictly_stuck_silent:
  "evaluate_strictly_stuck k idle w = (None, w2) \<Longrightarrow> \<exists>x. w2 = w\<lparr>wd_strictly_stuck_started_at := x\<rparr>"
  by (auto simp: evaluate_strictly_stuck_def Let_def split: option.splits if_splits prod.splits)

lemma early_reason_cases:
  "early_fire_reason k w = (r, w1) \<Longrightarrow> \<exists>t. w1 = w\<lparr>wd_tracker := t\<rparr>"
  by (auto simp: early_fire_reason_def split: if_splits prod.splits bool.splits)

lemma early_reason_passed:
  "early_fire_reason k w = (Some reason, w1) \<Longrightarrow> deadline_passed k w reason"
  using tripped_eq [of "tk_later k" "wd_tracker w"] tripped_tool_eq [of "tk_later k" "wd_tracker w"]
  by (auto simp: early_fire_reason_def deadline_passed_def split: if_splits prod.splits bool.splits)

lemma inner_fires:
  assumes "evaluate_inner k w0 = (FIRE, w')" and w: "w = poll_subagent_output (tk_now k) (tk_monitor k) w0"
    and std: "tp_profile (wd_config w) = STANDARD"
  shows "killed_for UNIV k w w'"
proof (cases "early_fire_reason k w")
  case e: (Pair r w1)
  then obtain t where w1: "w1 = w\<lparr>wd_tracker := t\<rparr>" using early_reason_cases by blast
  show ?thesis
  proof (cases r)
    case (Some reason)
    then have f: "fire_if_gated k reason (tk_now k - wd_last_activity w1) w1 = (FIRE, w')"
      using assms e by (simp add: evaluate_inner_def Let_def)
    from fire_if_gated_cases [OF f] w1 early_reason_passed e Some show ?thesis
      by (intro killed_forI [of _ reason]) (auto simp: absolute_def)
  next
    case None
    let ?i = "tk_now k - wd_last_activity w1"
    show ?thesis
    proof (cases "evaluate_no_output_at_start k ?i w1")
      case (Some x)
      then have "evaluate_no_output_at_start k ?i w1 = Some (FIRE, w')"
        using assms e None by (simp add: evaluate_inner_def Let_def)
      then show ?thesis using start_fires w1 killed_for_transfer killed_for_mono by metis
    next
      case start: None
      obtain timeout where to: "tp_idle_timeout (wd_config w1) = Some timeout"
        using assms e None start by (auto simp: evaluate_inner_def Let_def split: option.splits)
      obtain v w2 where s: "evaluate_strictly_stuck k ?i w1 = (v, w2)" by fastforce
      show ?thesis
      proof (cases v)
        case (Some x)
        then have "evaluate_strictly_stuck k ?i w1 = (Some FIRE, w')"
          using assms e None start to s by (simp add: evaluate_inner_def Let_def)
        then show ?thesis using strictly_stuck_fires w1 killed_for_transfer killed_for_mono by metis
      next
        case v: None
        then obtain x where w2: "w2 = w1\<lparr>wd_strictly_stuck_started_at := x\<rparr>" using s strictly_stuck_silent by blast
        have "evaluate_quiet_child k ?i w2 = Some (FIRE, w')
            \<or> evaluate_final_verdict k ?i w2 = (FIRE, w') \<and> ?i \<ge> timeout"
          using assms e None start to s v
          by (auto simp: evaluate_inner_def Let_def split: option.splits if_splits)
        then have "evaluate_quiet_child k (tk_now k - wd_last_activity w2) w2 = Some (FIRE, w')
            \<or> evaluate_final_verdict k (tk_now k - wd_last_activity w2) w2 = (FIRE, w') \<and> idle_timed_out k w2"
          using to w2 by (simp add: idle_timed_out_def reached_def)
        then have "killed_for late_reasons k w2 w'" using quiet_fires final_fires by blast
        then show ?thesis using w2 w1 killed_for_transfer killed_for_mono by metis
      qed
    qed
  qed
qed

section \<open>A silent agent is killed\<close>

definition no_new_lines :: "Monitor option \<Rightarrow> bool" where
  "no_new_lines monitor = (case monitor of None \<Rightarrow> True | Some m \<Rightarrow> (case mo_outputs m of None \<Rightarrow> True
     | Some outs \<Rightarrow> list_all (\<lambda>(worker, lines). case lines of None \<Rightarrow> True | Some n \<Rightarrow> n = 0) outs))"

text \<open>No sign of life reaches the tick: no new output, no fresh channel, no child said to be waited for.\<close>

definition silent :: "Tick \<Rightarrow> IdleWatchdog \<Rightarrow> bool" where
  "silent k w \<longleftrightarrow> no_new_lines (tk_monitor k) \<and> stuck_now k w \<and> \<not> channel_evidence_active k w
     \<and> tk_quiet k 0 \<noteq> WAITING_ON_CHILD \<and> tk_quiet k 2 \<noteq> WAITING_ON_CHILD"

lemma read_captures_none:
  "list_all (\<lambda>(worker, lines). case lines of None \<Rightarrow> True | Some n \<Rightarrow> n = 0) outs \<Longrightarrow>
   snd (read_captures tombstones outs captures n) = n"
  by (induction tombstones outs captures n rule: read_captures.induct) (auto split: option.splits)

text \<open>What a poll without news may touch, and what every poll keeps.\<close>

lemma poll_shape:
  "(\<exists>c t. poll_subagent_output now m w = w\<lparr>wd_captures := c, wd_tombstones := t\<rparr>) \<or>
   \<not> no_new_lines m \<and> (\<exists>c t n. poll_subagent_output now m w =
      record_subagent_output now n (w\<lparr>wd_captures := c, wd_tombstones := t\<rparr>))"
proof (cases "\<exists>mo outs. m = Some mo \<and> mo_outputs mo = Some outs")
  case True
  then obtain mo outs where m: "m = Some mo" "mo_outputs mo = Some outs" by blast
  let ?live = "map fst outs"
  let ?ts = "filter (\<lambda>t. t \<in> set ?live) (wd_tombstones w)"
  obtain captures n where r: "read_captures ?ts outs (wd_captures w) 0 = (captures, n)" by fastforce
  have "n = 0" if "no_new_lines m"
    using that m read_captures_none [of outs ?ts "wd_captures w" 0] r by (simp add: no_new_lines_def)
  moreover have "\<exists>c t. poll_subagent_output now m w =
      (if n \<noteq> 0 then record_subagent_output now (int n) (w\<lparr>wd_captures := c, wd_tombstones := t\<rparr>)
       else w\<lparr>wd_captures := c, wd_tombstones := t\<rparr>)"
    unfolding poll_subagent_output_def by (simp only: m option.case Let_def r prod.case) blast
  ultimately show ?thesis by (metis (no_types))
next
  case False
  then have "poll_subagent_output now m w = w\<lparr>wd_captures := wd_captures w, wd_tombstones := wd_tombstones w\<rparr>"
    by (auto simp: poll_subagent_output_def split: option.split)
  then show ?thesis by blast
qed

lemma poll_frame [simp]:
  "wd_config (poll_subagent_output now m w) = wd_config w"
  "wd_session_started_at (poll_subagent_output now m w) = wd_session_started_at w"
  "wd_last_activity (poll_subagent_output now m w) = wd_last_activity w"
  "wd_in_drain_window (poll_subagent_output now m w) = wd_in_drain_window w"
  "wd_drain_started_at (poll_subagent_output now m w) = wd_drain_started_at w"
  "wd_waiting_started_at (poll_subagent_output now m w) = wd_waiting_started_at w"
  "wd_cumulative_waiting (poll_subagent_output now m w) = wd_cumulative_waiting w"
  "wd_last_waiting_status_at (poll_subagent_output now m w) = wd_last_waiting_status_at w"
  "wd_stall_active (poll_subagent_output now m w) = wd_stall_active w"
  "wd_events (poll_subagent_output now m w) = wd_events w"
  using poll_shape [of now m w] by (auto simp: record_subagent_output_def)

lemma poll_without_news: "no_new_lines m \<Longrightarrow> same_evidence w (poll_subagent_output now m w)"
  using poll_shape [of now m w] by (auto simp: same_evidence_def)

lemma silent_cong: "same_evidence w w' \<Longrightarrow> silent k w' = silent k w"
  by (simp add: silent_def stuck_now_cong channel_evidence_cong)

text \<open>A drain window that is open has a start, and the start is not in the future.\<close>

definition draining_since :: "rat \<Rightarrow> IdleWatchdog \<Rightarrow> bool" where
  "draining_since t w \<longleftrightarrow> wd_in_drain_window w \<and> (case wd_drain_started_at w of None \<Rightarrow> False | Some d \<Rightarrow> d \<le> t)"

lemma stuck_gate_fires: "stuck_now k w \<Longrightarrow> fst (fire_if_gated k reason idle w) = FIRE"
  using fire_if_gated_cases [of k reason idle w] by (metis prod.collapse)

lemma fst_after_fire [simp]: "fst (after_fire f r) = fst r"
  by (simp add: after_fire_def split: prod.split)

lemma stalled_fires: "post_tool_result_stalled k idle w = Some r \<Longrightarrow> stuck_now k w \<Longrightarrow> fst r = FIRE"
  by (auto simp: post_tool_result_stalled_def stuck_gate_fires split: option.splits if_splits)

lemma accumulate_drain_frame [simp]:
  "wd_in_drain_window (accumulate_waiting_run now w) = wd_in_drain_window w"
  "wd_drain_started_at (accumulate_waiting_run now w) = wd_drain_started_at w"
  by (simp_all add: accumulate_waiting_run_def Let_def split: option.split)

lemma silent_final:
  assumes "silent k w" and "wd_in_drain_window w \<Longrightarrow> draining_since (tk_now k) w"
  shows "fst (evaluate_final_verdict k idle w) = FIRE \<or>
    (let w' = snd (evaluate_final_verdict k idle w) in same_evidence w w' \<and> draining_since (tk_now k) w'
       \<and> (wd_in_drain_window w \<longrightarrow> wd_drain_started_at w' = wd_drain_started_at w
            \<and> \<not> since (wd_drain_started_at w) (tk_now k) (Some (tp_drain_window (wd_config w)))))"
proof (cases "wd_in_drain_window w")
  case True
  with assms show ?thesis
    by (auto simp: evaluate_final_verdict_def handle_drain_window_def silent_def stuck_gate_fires draining_since_def since_def
        reached_def split: option.splits)
next
  case False
  have se: "same_evidence w (accumulate_waiting_run (tk_now k) w)" by (simp add: same_evidence_accumulate)
  then have "same_evidence w ((accumulate_waiting_run (tk_now k) w)\<lparr>wd_in_drain_window := True, wd_drain_started_at := d\<rparr>)" for d
    by (simp add: same_evidence_def)
  with se False assms(1) show ?thesis
    by (cases "post_tool_result_stalled k idle w")
      (auto simp: evaluate_final_verdict_def handle_active_branch_def silent_def stuck_gate_fires stuck_now_cong Let_def
        draining_since_def stalled_fires)
qed

definition still_draining :: "Tick \<Rightarrow> IdleWatchdog \<Rightarrow> IdleWatchdog \<Rightarrow> bool" where
  "still_draining k w w' \<longleftrightarrow> same_evidence w w' \<and> draining_since (tk_now k) w'
     \<and> (wd_in_drain_window w \<longrightarrow> wd_drain_started_at w' = wd_drain_started_at w
          \<and> \<not> since (wd_drain_started_at w) (tk_now k) (Some (tp_drain_window (wd_config w))))"

lemma still_draining_cong:
  "still_draining k w1 w' \<Longrightarrow> same_evidence w w1 \<Longrightarrow> wd_in_drain_window w1 = wd_in_drain_window w \<Longrightarrow>
   wd_drain_started_at w1 = wd_drain_started_at w \<Longrightarrow> still_draining k w w'"
  using same_evidence_trans [of w w1 w'] by (simp add: still_draining_def) (simp add: same_evidence_def)

lemma start_silent: "evaluate_no_output_at_start k idle w = Some r \<Longrightarrow> stuck_now k w \<Longrightarrow> fst r = FIRE"
  by (auto simp: evaluate_no_output_at_start_def stuck_gate_fires split: if_splits)

lemma strictly_stuck_certain: "evaluate_strictly_stuck k idle w = (Some v, w') \<Longrightarrow> stuck_now k w \<Longrightarrow> v = FIRE"
  using stuck_gate_fires [of k w STRICTLY_STUCK idle]
  by (auto simp: evaluate_strictly_stuck_def after_fire_def Let_def split: option.splits if_splits prod.splits)

lemma silent_tick:
  assumes q: "silent k w0" and std: "tp_profile (wd_config w0) = STANDARD" and idle: "idle_timed_out k w0"
    and drain: "wd_in_drain_window w0 \<Longrightarrow> draining_since (tk_now k) w0"
  shows "fst (evaluate k w0) = FIRE \<or> still_draining k w0 (snd (evaluate k w0))"
proof -
  define w where "w = poll_subagent_output (tk_now k) (tk_monitor k) w0"
  have se0: "same_evidence w0 w" using q by (simp add: w_def silent_def poll_without_news)
  obtain r w1 where e: "early_fire_reason k w = (r, w1)" by fastforce
  then obtain t where w1: "w1 = w\<lparr>wd_tracker := t\<rparr>" using early_reason_cases by blast
  have se1: "same_evidence w0 w1" using se0 by (simp add: w1 same_evidence_def)
  then have q1: "silent k w1" using q silent_cong by blast
  then have s1: "stuck_now k w1" by (simp add: silent_def)
  let ?i = "tk_now k - wd_last_activity w1"
  obtain timeout where to: "tp_idle_timeout (wd_config w1) = Some timeout" and late: "?i \<ge> timeout"
    using idle se1 by (auto simp: idle_timed_out_def reached_def same_evidence_def split: option.splits)
  obtain v w2 where s: "evaluate_strictly_stuck k ?i w1 = (v, w2)" by fastforce
  have ev: "evaluate k w0 = (case r of Some reason \<Rightarrow> fire_if_gated k reason ?i w1
      | None \<Rightarrow> case evaluate_no_output_at_start k ?i w1 of Some x \<Rightarrow> x
      | None \<Rightarrow> case v of Some b \<Rightarrow> (b, w2) | None \<Rightarrow> evaluate_final_verdict k ?i w2)"
    using std late to q by (simp add: evaluate_def evaluate_inner_def Let_def w_def [symmetric] e s evaluate_quiet_child_def
        silent_def split: option.split) (simp add: w_def)
  show ?thesis
  proof (cases "r = None \<and> evaluate_no_output_at_start k ?i w1 = None \<and> v = None")
    case False
    then have "fst (evaluate k w0) = FIRE" using ev s1 s start_silent strictly_stuck_certain
      by (auto simp: stuck_gate_fires split: option.split)
    then show ?thesis ..
  next
    case True
    then obtain x where w2: "w2 = w1\<lparr>wd_strictly_stuck_started_at := x\<rparr>" using s strictly_stuck_silent by blast
    have se2: "same_evidence w0 w2" using se1 by (simp add: w2 same_evidence_def)
    have d2: "wd_in_drain_window w2 = wd_in_drain_window w0" "wd_drain_started_at w2 = wd_drain_started_at w0"
      by (simp_all add: w2 w1 w_def)
    have "silent k w2" using q se2 silent_cong by blast
    then have "fst (evaluate_final_verdict k ?i w2) = FIRE \<or> still_draining k w2 (snd (evaluate_final_verdict k ?i w2))"
      using silent_final [of k w2 ?i] drain d2 by (simp add: still_draining_def draining_since_def Let_def)
    with ev True show ?thesis using still_draining_cong [OF _ se2 d2] by auto
  qed
qed

lemma silent_twice:
  assumes "silent k1 w" and "silent k2 w" and "tp_profile (wd_config w) = STANDARD" and "idle_timed_out k1 w"
    and "wd_in_drain_window w \<Longrightarrow> draining_since (tk_now k1) w"
    and "0 \<le> tp_drain_window (wd_config w)" and "tk_now k2 \<ge> tk_now k1 + tp_drain_window (wd_config w)"
  shows "fst (evaluate k1 w) = FIRE \<or> fst (evaluate k2 (snd (evaluate k1 w))) = FIRE"
proof (rule disjCI)
  let ?w = "snd (evaluate k1 w)"
  assume "fst (evaluate k2 ?w) \<noteq> FIRE"
  show "fst (evaluate k1 w) = FIRE"
  proof (rule ccontr)
    assume "fst (evaluate k1 w) \<noteq> FIRE"
    then have sd: "still_draining k1 w ?w" using silent_tick assms(1,3,4,5) by blast
    then have se: "same_evidence w ?w" and d: "draining_since (tk_now k1) ?w" by (simp_all add: still_draining_def)
    have "silent k2 ?w" using assms(2) se silent_cong by blast
    moreover have "tp_profile (wd_config ?w) = STANDARD" using se assms(3) by (simp add: same_evidence_def)
    moreover have "idle_timed_out k2 ?w" using se assms(4,6,7)
      by (auto simp: idle_timed_out_def same_evidence_def reached_def split: option.splits)
    moreover have "draining_since (tk_now k2) ?w"
      using d assms(6,7) by (auto simp: draining_since_def split: option.splits)
    ultimately have "still_draining k2 ?w (snd (evaluate k2 ?w))" using silent_tick \<open>fst (evaluate k2 ?w) \<noteq> FIRE\<close> by blast
    moreover have "since (wd_drain_started_at ?w) (tk_now k2) (Some (tp_drain_window (wd_config ?w)))"
      using d se assms(7) by (auto simp: since_def reached_def draining_since_def same_evidence_def split: option.splits)
    ultimately show False using d by (simp add: still_draining_def draining_since_def)
  qed
qed

section \<open>Properties\<close>

definition quiet_tick :: "rat \<Rightarrow> Tick" where
  "quiet_tick t = \<lparr>tk_now = t, tk_later = t, tk_quiet = (\<lambda>_. ACTIVE),
     tk_corroboration = \<lparr>co_alive_by = None, co_scoped_child_active = None\<rparr>, tk_connectivity = None, tk_monitor = None\<rparr>"

lemmas evaluate_steps = evaluate_def evaluate_inner_def poll_subagent_output_def early_fire_reason_def tripped_def
  error_dimension_tripped_def tool_dimension_tripped_def at_threshold_def prune_before_def max_fingerprint_count_def
  window_is_cycling_def evaluate_no_output_at_start_def evaluate_strictly_stuck_def evaluate_quiet_child_def
  evaluate_final_verdict_def post_tool_result_stalled_def handle_active_branch_def handle_drain_window_def
  accumulate_waiting_run_def reached_def fire_if_gated_def gate_fire_def set_stall_def emit_status_def

lemmas evidence_steps = stuck_now_iff channel_evidence_active_def evidence_def last_evidence_summary_def first_party_fresh_def
  side_channel_fresh_def any_first_party_fresh_def subagent_liveness_fresh_def subagent_output_summary_def
  subagent_liveness_summary_def workspace_summary_def channel_summary_def latest_def live_subagents_def is_fresh_def
  CHANNEL_TIERS_def CHANNEL_DEFERS_BY_DEFAULT_def classify_stuck_now_def classify_stuck_def silent_subagent_path_def has_count_def

text \<open>
  C10. A kill is justified: under the standard profile, when \<^verbatim>\<open>evaluate\<close> answers FIRE, the reason it stores has its
  deadline passed, judged on the state after the poll of the subagents (for the two reasons of the repetition tracker:
  its error window, or its tool window and not its error window, has tripped); and unless the reason is one of the two
  absolute ones (the session ceiling, the ceiling on waiting), nothing spoke for the agent: no waiting state, not
  offline, no fresh evidence of its own and no fresh evidence of a live subagent.
\<close>

theorem watchdog_fire_justified:
  assumes "evaluate k w0 = (FIRE, w')" and "tp_profile (wd_config w0) = STANDARD"
    and "w = poll_subagent_output (tk_now k) (tk_monitor k) w0"
  shows "\<exists>reason. wd_last_fire_reason w' = Some reason \<and> deadline_passed k w reason
    \<and> (absolute k w reason \<or> \<not> wd_is_waiting_state w \<and> tk_connectivity k \<noteq> Some ''offline''
        \<and> \<not> any_first_party_fresh (evidence k w) (tp_evidence_ttl (wd_config w))
        \<and> \<not> subagent_liveness_fresh (evidence k w) (tp_evidence_ttl (wd_config w)))"
  using inner_fires [of k w0 w' w] assms by (auto simp: killed_for_def stuck_now_iff evaluate_def)

theorem watchdog_fire_justified_witness:
  "let w0 = snd (evaluate (quiet_tick 300) (new_watchdog production_policy 0)); k = quiet_tick 301;
       w = poll_subagent_output (tk_now k) (tk_monitor k) w0; w' = snd (evaluate k w0)
   in fst (evaluate k w0) = FIRE \<and> (\<exists>reason. wd_last_fire_reason w' = Some reason \<and> deadline_passed k w reason
    \<and> (absolute k w reason \<or> \<not> wd_is_waiting_state w \<and> tk_connectivity k \<noteq> Some ''offline''
        \<and> \<not> any_first_party_fresh (evidence k w) (tp_evidence_ttl (wd_config w))
        \<and> \<not> subagent_liveness_fresh (evidence k w) (tp_evidence_ttl (wd_config w))))"
proof -
  define w0 where "w0 = snd (evaluate (quiet_tick 300) (new_watchdog production_policy 0))"
  define k where "k = quiet_tick 301"
  have w0: "w0 = (new_watchdog production_policy 0)\<lparr>wd_in_drain_window := True, wd_drain_started_at := Some 300\<rparr>"
    by (simp add: w0_def evaluate_steps evidence_steps quiet_tick_def new_watchdog_def production_policy_def
        default_timeout_policy_def new_repetition_tracker_def Let_def)
  have f: "fst (evaluate k w0) = FIRE"
    by (simp add: w0 k_def evaluate_steps evidence_steps quiet_tick_def new_watchdog_def production_policy_def
        default_timeout_policy_def new_repetition_tracker_def Let_def)
  then have "evaluate k w0 = (FIRE, snd (evaluate k w0))" by (metis prod.collapse)
  moreover have "tp_profile (wd_config w0) = STANDARD"
    by (simp add: w0 new_watchdog_def production_policy_def default_timeout_policy_def)
  ultimately show ?thesis using watchdog_fire_justified f unfolding Let_def w0_def k_def by blast
qed

text \<open>
  The session ceiling is absolute: once the session has lasted as long as the ceiling allows, every tick answers
  FIRE with that reason, whatever activity was recorded, whatever the children and the network do.
\<close>

theorem session_ceiling_absolute:
  assumes "tp_profile (wd_config w) = STANDARD" and "tp_max_session (wd_config w) = Some limit"
    and "tk_now k - wd_session_started_at w \<ge> limit"
  shows "fst (evaluate k w) = FIRE \<and> wd_last_fire_reason (snd (evaluate k w)) = Some SESSION_CEILING_EXCEEDED"
  using assms by (simp add: evaluate_def evaluate_inner_def early_fire_reason_def reached_def fire_if_gated_def gate_fire_def
      Let_def)

theorem session_ceiling_absolute_witness:
  "let w = record_activity 3600 (set_is_waiting_state True (new_watchdog (production_policy\<lparr>tp_max_session := Some 3600\<rparr>) 0));
       k = (quiet_tick 3600)\<lparr>tk_quiet := (\<lambda>_. WAITING_ON_CHILD), tk_connectivity := Some ''offline''\<rparr>
   in fst (evaluate k w) = FIRE \<and> wd_last_fire_reason (snd (evaluate k w)) = Some SESSION_CEILING_EXCEEDED"
proof -
  let ?p = "production_policy\<lparr>tp_max_session := Some 3600\<rparr>"
  let ?w = "record_activity 3600 (set_is_waiting_state True (new_watchdog ?p 0))"
  have "wd_config ?w = ?p" "wd_session_started_at ?w = 0"
    by (simp_all add: record_activity_def record_meaningful_output_def reset_idle_baseline_def set_is_waiting_state_def
        new_watchdog_def accumulate_waiting_run_def Let_def)
  then show ?thesis
    using session_ceiling_absolute [of ?w 3600 "(quiet_tick 3600)\<lparr>tk_quiet := (\<lambda>_. WAITING_ON_CHILD), tk_connectivity := Some ''offline''\<rparr>"]
    by (simp add: Let_def quiet_tick_def production_policy_def default_timeout_policy_def)
qed

end
