(* ===== verification/Watchdog_Runs.thy ===== *)
theory Watchdog_Runs
  imports Watchdog_Safety
begin

text \<open>
  Histories of the idle watchdog: any sequence of the recording operations and of evaluations, each at its time. An
  interface (locale \<open>watchdog_steps\<close>) lists the primitive changes all operations are made of; what these keep, every
  operation keeps, and so does every history.
\<close>

section \<open>Histories\<close>

datatype wd_op =
    Invocation_Start | Invocation_End | Activity | Any_Output int | Lifecycle_Activity | Tool_Use
  | Tool_Call string string | Error_Activity string | Progress_Report string | Tool_Result bool | Mcp_Tool_Call
  | Subagent_Work "string option" | Subagent_Output int | Workspace_Event string rat | Process_Liveness bool bool
  | Session_Id_Capture string | Waiting_State bool | Evaluate Tick

definition at_time :: "rat \<Rightarrow> Tick \<Rightarrow> Tick" where
  "at_time t k = k\<lparr>tk_now := t\<rparr>"

fun apply_op :: "rat \<Rightarrow> wd_op \<Rightarrow> IdleWatchdog \<Rightarrow> IdleWatchdog" where
  "apply_op t Invocation_Start w = record_invocation_start t w"
| "apply_op t Invocation_End w = record_invocation_end t w"
| "apply_op t Activity w = record_activity t w"
| "apply_op t (Any_Output n) w = record_any_output n w"
| "apply_op t Lifecycle_Activity w = record_lifecycle_activity t w"
| "apply_op t Tool_Use w = record_tool_use_activity t w"
| "apply_op t (Tool_Call name blob) w = record_tool_call_activity t name blob w"
| "apply_op t (Error_Activity fp) w = record_error_activity t fp w"
| "apply_op t (Progress_Report fp) w = record_progress_report t fp w"
| "apply_op t (Tool_Result echo) w = record_tool_result_activity t echo w"
| "apply_op t Mcp_Tool_Call w = record_mcp_tool_call t w"
| "apply_op t (Subagent_Work d) w = record_subagent_work t d w"
| "apply_op t (Subagent_Output n) w = record_subagent_output t n w"
| "apply_op t (Workspace_Event kind weight) w = record_workspace_event t kind weight w"
| "apply_op t (Process_Liveness alive obs) w = record_process_liveness t alive obs w"
| "apply_op t (Session_Id_Capture s) w = record_session_id_capture s w"
| "apply_op t (Waiting_State b) w = set_is_waiting_state b w"
| "apply_op t (Evaluate k) w = snd (evaluate (at_time t k) w)"

type_synonym wd_history = "(rat \<times> wd_op) list"

definition after_history :: "wd_history \<Rightarrow> IdleWatchdog \<Rightarrow> IdleWatchdog" where
  "after_history h w = fold (\<lambda>(t, op) w. apply_op t op w) h w"

text \<open>The times of a history that starts at \<open>t0\<close> and ends by \<open>t1\<close> do not go back.\<close>

definition in_order :: "rat \<Rightarrow> wd_history \<Rightarrow> rat \<Rightarrow> bool" where
  "in_order t0 h t1 \<longleftrightarrow> sorted (t0 # map fst h @ [t1])"

section \<open>The primitive changes\<close>

text \<open>The fields the control flow of the watchdog lives in; everything else is data.\<close>

definition control ::
  "IdleWatchdog \<Rightarrow> rat option \<times> rat \<times> rat option \<times> bool \<times> rat option \<times> bool \<times> StatusEvent list \<times> TimeoutPolicy" where
  "control w = (wd_waiting_started_at w, wd_cumulative_waiting w, wd_last_waiting_status_at w, wd_in_drain_window w,
     wd_drain_started_at w, wd_stall_active w, wd_events w, wd_config w)"

locale watchdog_steps =
  fixes keeps :: "rat \<Rightarrow> IdleWatchdog \<Rightarrow> IdleWatchdog \<Rightarrow> bool"
  assumes keeps_trans: "keeps t a b \<Longrightarrow> keeps t b c \<Longrightarrow> keeps t a c"
    and keeps_data: "control w' = control w \<Longrightarrow> keeps t w w'"
    and keeps_emit: "kind \<notin> {STALLED, STALL_RESUMED} \<Longrightarrow> keeps t w (emit_status kind run idle ceil suspect w)"
    and keeps_set_stall: "keeps t w (set_stall active idle w)"
    and keeps_accumulate: "keeps t w (accumulate_waiting_run t w)"
    and keeps_enter: "keeps (tk_now k) w (enter_waiting_run k w)"
    and keeps_status: "keeps t w (w\<lparr>wd_last_waiting_status_at := Some t\<rparr>)"
    and keeps_open_drain: "keeps t w (w\<lparr>wd_in_drain_window := True, wd_drain_started_at := Some t\<rparr>)"
    and keeps_close_drain: "keeps t w (w\<lparr>wd_in_drain_window := False, wd_drain_started_at := None\<rparr>)"
begin

lemma keeps_refl: "keeps t w w"
  by (rule keeps_data) simp

lemma then_data: "keeps t w w1 \<Longrightarrow> control w2 = control w1 \<Longrightarrow> keeps t w w2"
  using keeps_trans keeps_data by blast

lemma then_emit: "keeps t w w1 \<Longrightarrow> kind \<notin> {STALLED, STALL_RESUMED} \<Longrightarrow> keeps t w (emit_status kind run idle ceil suspect w1)"
  using keeps_trans keeps_emit by blast

lemma then_set_stall: "keeps t w w1 \<Longrightarrow> keeps t w (set_stall active idle w1)"
  using keeps_trans keeps_set_stall by blast

lemma then_accumulate: "keeps t w w1 \<Longrightarrow> keeps t w (accumulate_waiting_run t w1)"
  using keeps_trans keeps_accumulate by blast

lemma keeps_poll: "keeps t w (poll_subagent_output now m w)"
  by (rule keeps_data) (simp add: control_def)

lemma keeps_gate: "keeps t w (snd (gate_fire k reason idle w))"
proof -
  have "keeps t w (x\<lparr>wd_last_fire_reason := r, wd_last_deferred_kind := d\<rparr>)" if "keeps t w x" for x r d
    using that by (rule then_data) (simp add: control_def)
  then show ?thesis by (auto simp: gate_fire_def Let_def keeps_refl intro: keeps_set_stall)
qed

lemma keeps_fire_if_gated: "keeps t w (snd (fire_if_gated k reason idle w))"
proof (cases "gate_fire k reason idle w")
  case (Pair v w1)
  have g: "keeps t w w1" using keeps_gate [of t w k reason idle] Pair by simp
  then have "keeps t w (w1\<lparr>wd_last_fire_reason := Some reason\<rparr>)" by (rule then_data) (simp add: control_def)
  with g Pair show ?thesis by (cases v) (simp_all add: fire_if_gated_def)
qed

lemma keeps_after_fire:
  "(\<And>x. keeps t w x \<Longrightarrow> keeps t w (f x)) \<Longrightarrow> keeps t w (snd (after_fire f (fire_if_gated k reason idle w)))"
  using keeps_fire_if_gated [of t w k reason idle] by (auto simp: after_fire_def split: prod.split)

lemma keeps_no_progress_quiet: "keeps t w (snd (fire_no_progress_quiet k idle limit w))"
  unfolding fire_no_progress_quiet_def
proof (rule keeps_after_fire)
  fix x assume "keeps t w x"
  then have "keeps t w (x\<lparr>wd_last_alive_by := a\<rparr>)" for a by (rule then_data) (simp add: control_def)
  then show "keeps t w (emit_status HARD_STOP (invocation_elapsed k x) idle limit None
      (x\<lparr>wd_last_alive_by := co_alive_by (tk_corroboration k)\<rparr>))" by (rule then_emit) simp
qed

lemma keeps_strictly_stuck: "keeps t w (snd (evaluate_strictly_stuck k idle w))"
proof -
  have "keeps t w (w\<lparr>wd_strictly_stuck_started_at := x\<rparr>)" for x by (rule keeps_data) (simp add: control_def)
  moreover have "keeps t w (snd (after_fire (emit_status HARD_STOP run idle c None) (fire_if_gated k STRICTLY_STUCK idle w)))" for run c
    by (rule keeps_after_fire, rule then_emit) simp_all
  ultimately show ?thesis
    by (auto simp: evaluate_strictly_stuck_def Let_def keeps_refl split_def split: option.split)
qed

lemma keeps_start: "evaluate_no_output_at_start k idle w = Some r \<Longrightarrow> keeps t w (snd r)"
proof -
  have "keeps t w (snd (after_fire (\<lambda>w1. emit_status HARD_STOP (g w1) idle c None w1) (fire_if_gated k NO_OUTPUT_AT_START idle w)))"
    for g c by (rule keeps_after_fire, rule then_emit) simp_all
  then show "evaluate_no_output_at_start k idle w = Some r \<Longrightarrow> keeps t w (snd r)"
    by (auto simp: evaluate_no_output_at_start_def split: if_splits)
qed

lemma keeps_active: "keeps (tk_now k) w (snd (handle_active_branch k w))"
proof -
  have a: "keeps (tk_now k) w (accumulate_waiting_run (tk_now k) w)" by (rule keeps_accumulate)
  show ?thesis
    unfolding handle_active_branch_def Let_def
    using keeps_trans [OF a keeps_fire_if_gated] keeps_trans [OF a keeps_open_drain] by simp
qed

lemma keeps_reports:
  "keeps (tk_now k) w (report_subagents k limit (report_progress k limit (announce_suspicion k limit suspect w)))"
proof -
  have data: "keeps t x (x\<lparr>wd_suspicion_announced := b\<rparr>)" "keeps t x (x\<lparr>wd_last_subagent_progress_emit_at := e\<rparr>)" for t x b e
    by (rule keeps_data, simp add: control_def)+
  have a: "keeps t x (announce_suspicion k limit suspect x)" for t x
    by (auto simp: announce_suspicion_def Let_def keeps_refl intro!: then_emit then_set_stall data)
  have b: "keeps (tk_now k) x (report_progress k limit x)" for x
    by (auto simp: report_progress_def keeps_refl split: option.split intro!: then_emit keeps_status)
  have c: "keeps t x (report_subagents k limit x)" for t x
    by (auto simp: report_subagents_def keeps_refl intro!: then_emit data)
  show ?thesis by (rule keeps_trans [OF a keeps_trans [OF b c]])
qed

lemma keeps_waiting: "keeps (tk_now k) w0 (snd (handle_waiting_branch k w0))"
proof -
  let ?w = "enter_waiting_run k w0"
  have e: "keeps (tk_now k) w0 ?w" by (rule keeps_enter)
  have a: "keeps (tk_now k) w0 (accumulate_waiting_run (tk_now k) ?w)" using e by (rule then_accumulate)
  have sj: "keeps (tk_now k) w0 (snd (after_fire (\<lambda>x. emit_status HARD_STOP r i c s (set_stall True i x))
      (fire_if_gated k CHILDREN_PERSIST_TOO_LONG i ?w)))" for r i c s
    by (rule keeps_trans [OF e], rule keeps_after_fire) (simp add: then_emit then_set_stall)
  have hs: "keeps (tk_now k) w0 (emit_status HARD_STOP r i c s (set_stall True i (?w\<lparr>wd_last_fire_reason := f\<rparr>)))" for r i c s f
    by (intro then_emit then_set_stall then_data [OF e]) (simp_all add: control_def)
  show ?thesis
    unfolding handle_waiting_branch_def Let_def
    using a sj hs e keeps_trans [OF a keeps_active] keeps_trans [OF e keeps_reports] by simp
qed

lemma keeps_final: "keeps (tk_now k) w (snd (evaluate_final_verdict k idle w))"
proof -
  have d: "keeps (tk_now k) w (snd (handle_drain_window k w))"
    unfolding handle_drain_window_def
    using keeps_trans [OF keeps_close_drain keeps_waiting] by (simp add: keeps_refl keeps_fire_if_gated)
  have p: "keeps t w (snd r)" if "post_tool_result_stalled k idle w = Some r" for t r
    using that by (auto simp: post_tool_result_stalled_def keeps_fire_if_gated split: option.splits if_splits)
  show ?thesis
    using d p by (simp add: evaluate_final_verdict_def keeps_waiting keeps_active keeps_refl split: option.split)
qed

lemma keeps_activity_only: "keeps (tk_now k) w (snd (evaluate_activity_only k w))"
proof -
  have data: "keeps t x (x\<lparr>wd_last_fire_reason := r\<rparr>)" "keeps t x (x\<lparr>wd_last_activity_only_status_at := a\<rparr>)" for t x r a
    by (rule keeps_data, simp add: control_def)+
  have e: "keeps t x (emit_activity_only_status now last_at x)" for t x now last_at
    using data(2) by (auto simp: emit_activity_only_status_def keeps_refl intro!: then_emit split: option.split)
  show ?thesis
    unfolding evaluate_activity_only_def Let_def using e data(1) keeps_trans [OF e data(1)] by simp
qed

lemma keeps_evaluate: "keeps (tk_now k) w0 (snd (evaluate k w0))"
proof -
  define w where "w = poll_subagent_output (tk_now k) (tk_monitor k) w0"
  have p: "keeps (tk_now k) w0 w" unfolding w_def by (rule keeps_poll)
  obtain r w1 where e: "early_fire_reason k w = (r, w1)" by fastforce
  then obtain t where w1: "w1 = w\<lparr>wd_tracker := t\<rparr>" using early_reason_cases by blast
  have k1: "keeps (tk_now k) w0 w1" using p unfolding w1 by (rule then_data) (simp add: control_def)
  let ?i = "tk_now k - wd_last_activity w1"
  obtain v w2 where s: "evaluate_strictly_stuck k ?i w1 = (v, w2)" by fastforce
  have k2: "keeps (tk_now k) w0 w2" using keeps_trans [OF k1 keeps_strictly_stuck, of k ?i] s by simp
  have q: "keeps (tk_now k) w0 (snd r)" if "evaluate_quiet_child k ?i w2 = Some r" for r
    using that keeps_trans [OF k2 keeps_no_progress_quiet]
    by (auto simp: evaluate_quiet_child_def evaluate_no_progress_quiet_def split: if_splits)
  show ?thesis
    using keeps_trans [OF p keeps_activity_only] keeps_trans [OF k1 keeps_fire_if_gated] keeps_trans [OF k1 keeps_start]
      k1 k2 q then_accumulate [OF k2] keeps_trans [OF k2 keeps_final]
    by (simp add: evaluate_def evaluate_inner_def Let_def w_def [symmetric] e s split: option.split)
qed

lemma keeps_reset: "keeps t w (reset_idle_baseline t w)"
proof -
  let ?x = "accumulate_waiting_run t w"
  have "keeps t w (?x\<lparr>wd_in_drain_window := False, wd_drain_started_at := None\<rparr>)"
    by (rule keeps_trans [OF keeps_accumulate keeps_close_drain])
  then have "keeps t w (?x\<lparr>wd_last_activity := t, wd_in_drain_window := False, wd_drain_started_at := None,
      wd_awaiting_progression := False\<rparr>)" by (rule then_data) (simp add: control_def)
  then show ?thesis unfolding reset_idle_baseline_def by (rule then_set_stall)
qed

lemma keeps_activity: "keeps t w (record_activity t w)"
  unfolding record_activity_def Let_def by (rule then_data [OF keeps_reset]) (simp add: control_def record_meaningful_output_def)

lemma keeps_error: "keeps t w (record_error_activity t fp w)"
  unfolding record_error_activity_def Let_def by (rule then_data [OF keeps_accumulate]) (simp add: control_def)

lemma keeps_progress_report: "keeps t w (record_progress_report t fp w)"
proof -
  have "keeps t w (w\<lparr>wd_last_progress_fingerprint := Some fp\<rparr>)" by (rule keeps_data) (simp add: control_def)
  then show ?thesis unfolding record_progress_report_def using keeps_trans keeps_activity keeps_error by auto
qed

lemma keeps_tool_result: "keeps t w (record_tool_result_activity t echo w)"
proof -
  have r: "keeps t w (record_meaningful_output t (reset_idle_baseline t (accumulate_waiting_run t w)))"
    by (rule then_data [OF keeps_trans [OF keeps_accumulate keeps_reset]]) (simp add: control_def record_meaningful_output_def)
  show ?thesis unfolding record_tool_result_activity_def Let_def
    by (cases echo) (auto intro: then_data [OF r] then_data [OF keeps_accumulate] simp: control_def)
qed

lemma keeps_lifecycle: "keeps t w (record_lifecycle_activity t w)"
proof -
  have "keeps t w (record_any_output 0 w)" by (rule keeps_data) (simp add: control_def record_any_output_def)
  then show ?thesis unfolding record_lifecycle_activity_def using keeps_trans keeps_reset by blast
qed

text \<open>What the primitive changes keep, every operation keeps; the start of an invocation is apart.\<close>

lemma keeps_op: "op \<noteq> Invocation_Start \<Longrightarrow> keeps t w (apply_op t op w)"
proof (cases op)
  case Tool_Use
  then show ?thesis
    by (simp add: record_tool_use_activity_def) (rule then_data [OF keeps_reset], simp add: control_def record_meaningful_output_def)
next
  case (Tool_Call name blob)
  then show ?thesis
    by (simp add: record_tool_call_activity_def Let_def) (rule then_data [OF keeps_accumulate], simp add: control_def)
next
  case (Evaluate k)
  then show ?thesis using keeps_evaluate [of "at_time t k" w] by (simp add: at_time_def)
qed (simp_all add: keeps_activity keeps_error keeps_progress_report keeps_tool_result keeps_lifecycle keeps_set_stall
    record_invocation_end_def,
    (rule keeps_data, simp add: control_def record_any_output_def record_mcp_tool_call_def record_subagent_work_def
      record_subagent_output_def record_workspace_event_def record_process_liveness_def record_session_id_capture_def
      set_is_waiting_state_def Let_def)+)

end

section \<open>Waiting time is never lost\<close>

text \<open>The waiting done by time \<open>t\<close>: the finished runs and the open one.\<close>

definition waiting_by :: "rat \<Rightarrow> IdleWatchdog \<Rightarrow> rat" where
  "waiting_by t w = wd_cumulative_waiting w + (case wd_waiting_started_at w of None \<Rightarrow> 0 | Some s \<Rightarrow> t - s)"

definition started_by :: "rat \<Rightarrow> IdleWatchdog \<Rightarrow> bool" where
  "started_by t w = (case wd_waiting_started_at w of None \<Rightarrow> True | Some s \<Rightarrow> s \<le> t)"

definition waiting_kept :: "rat \<Rightarrow> IdleWatchdog \<Rightarrow> IdleWatchdog \<Rightarrow> bool" where
  "waiting_kept t w w' \<longleftrightarrow> (started_by t w \<longrightarrow> started_by t w' \<and> waiting_by t w' = waiting_by t w) \<and> wd_config w' = wd_config w"

interpretation waiting: watchdog_steps waiting_kept
proof unfold_locales
  show "waiting_kept t a b \<Longrightarrow> waiting_kept t b c \<Longrightarrow> waiting_kept t a c" for t a b c
    by (auto simp: waiting_kept_def)
  show "control w' = control w \<Longrightarrow> waiting_kept t w w'" for w' w t
    by (simp add: waiting_kept_def control_def started_by_def waiting_by_def)
  show "waiting_kept t w (accumulate_waiting_run t w)" for t w
    by (auto simp: waiting_kept_def started_by_def waiting_by_def accumulate_waiting_run_def Let_def split: option.split)
  show "waiting_kept (tk_now k) w (enter_waiting_run k w)" for k w
    by (auto simp: waiting_kept_def started_by_def waiting_by_def enter_waiting_run_def)
qed (auto simp: waiting_kept_def started_by_def waiting_by_def)

section \<open>The assertions of the code\<close>

definition assertions :: "rat \<Rightarrow> IdleWatchdog \<Rightarrow> bool" where
  "assertions t w \<longleftrightarrow> (wd_in_drain_window w \<longrightarrow> draining_since t w)
     \<and> (wd_waiting_started_at w \<noteq> None \<longrightarrow> wd_last_waiting_status_at w \<noteq> None)"

definition assertions_kept :: "rat \<Rightarrow> IdleWatchdog \<Rightarrow> IdleWatchdog \<Rightarrow> bool" where
  "assertions_kept t w w' \<longleftrightarrow> (assertions t w \<longrightarrow> assertions t w') \<and> wd_config w' = wd_config w"

interpretation asserted: watchdog_steps assertions_kept
proof unfold_locales
  show "assertions_kept t w (accumulate_waiting_run t w)" for t w
    by (auto simp: assertions_kept_def assertions_def draining_since_def accumulate_waiting_run_def Let_def split: option.split)
  show "assertions_kept (tk_now k) w (enter_waiting_run k w)" for k w
    by (auto simp: assertions_kept_def assertions_def draining_since_def enter_waiting_run_def)
qed (auto simp: assertions_kept_def assertions_def draining_since_def control_def)

section \<open>Stall events alternate\<close>

text \<open>
  A listener that follows the events: it knows whether the agent is said to be stalled, and refuses a second report
  of the same, or an event whose own flag says otherwise.
\<close>

fun follow :: "bool \<Rightarrow> StatusEvent list \<Rightarrow> bool option" where
  "follow stalled [] = Some stalled"
| "follow stalled (e # es) =
     (let now = (if ev_kind e = STALLED then True else if ev_kind e = STALL_RESUMED then False else stalled)
      in if ev_kind e \<in> {STALLED, STALL_RESUMED} \<and> now = stalled \<or> ev_stall_active e \<noteq> now then None else follow now es)"

lemma follow_append: "follow s (es @ es') = (case follow s es of None \<Rightarrow> None | Some s' \<Rightarrow> follow s' es')"
  by (induction s es rule: follow.induct) (simp_all add: Let_def)

definition stalls_reported :: "IdleWatchdog \<Rightarrow> bool" where
  "stalls_reported w \<longleftrightarrow> follow False (wd_events w) = Some (wd_stall_active w)"

definition reports_kept :: "rat \<Rightarrow> IdleWatchdog \<Rightarrow> IdleWatchdog \<Rightarrow> bool" where
  "reports_kept t w w' \<longleftrightarrow> stalls_reported w \<longrightarrow> stalls_reported w'"

lemma emit_reported: "kind \<notin> {STALLED, STALL_RESUMED} \<Longrightarrow> stalls_reported w \<Longrightarrow> stalls_reported (emit_status kind run idle ceil suspect w)"
  by (simp add: stalls_reported_def emit_status_def follow_append)

lemma set_stall_reported: "stalls_reported w \<Longrightarrow> stalls_reported (set_stall active idle w)"
  by (auto simp: stalls_reported_def set_stall_def emit_status_def follow_append)

lemma reported_data [simp]:
  "stalls_reported (w\<lparr>wd_cumulative_waiting := c\<rparr>) = stalls_reported w"
  "stalls_reported (w\<lparr>wd_waiting_started_at := s, wd_last_waiting_status_at := l, wd_suspicion_announced := b\<rparr>) = stalls_reported w"
  "stalls_reported (w\<lparr>wd_last_waiting_status_at := l\<rparr>) = stalls_reported w"
  "stalls_reported (w\<lparr>wd_in_drain_window := d, wd_drain_started_at := x\<rparr>) = stalls_reported w"
  by (simp_all add: stalls_reported_def)

interpretation reported: watchdog_steps reports_kept
proof unfold_locales
  show "reports_kept t w (accumulate_waiting_run t w)" for t w
    by (auto simp: reports_kept_def accumulate_waiting_run_def Let_def split: option.split
        intro!: set_stall_reported emit_reported)
  show "reports_kept (tk_now k) w (enter_waiting_run k w)" for k w
    by (auto simp: reports_kept_def enter_waiting_run_def intro!: emit_reported)
  show "control w' = control w \<Longrightarrow> reports_kept t w w'" for w' w t
    by (simp add: reports_kept_def control_def stalls_reported_def)
qed (auto simp: reports_kept_def emit_reported set_stall_reported)

section \<open>Over a history\<close>

lemma after_history_simps [simp]:
  "after_history [] w = w" "after_history ((t, op) # h) w = after_history h (apply_op t op w)"
  "after_history (h @ h') w = after_history h' (after_history h w)"
  by (simp_all add: after_history_def)

lemma config_kept [simp]: "wd_config (after_history h w) = wd_config w"
proof (induction h arbitrary: w)
  case (Cons e h)
  obtain t op where e: "e = (t, op)" by fastforce
  have "wd_config (apply_op t op w) = wd_config w"
    using asserted.keeps_op [of op t w] by (cases "op = Invocation_Start")
      (auto simp: assertions_kept_def record_invocation_start_def)
  then show ?case using Cons e by simp
qed simp

lemma stalls_reported_always: "stalls_reported w \<Longrightarrow> stalls_reported (after_history h w)"
proof (induction h arbitrary: w)
  case (Cons e h)
  obtain t op where e: "e = (t, op)" by fastforce
  have "stalls_reported (apply_op t op w)"
  proof (cases "op = Invocation_Start")
    case True
    then show ?thesis using Cons.prems unfolding True apply_op.simps record_invocation_start_def
      by (intro set_stall_reported) (simp add: stalls_reported_def)
  qed (use reported.keeps_op [of op t w] Cons.prems in \<open>simp add: reports_kept_def\<close>)
  then show ?case using Cons.IH e by simp
qed simp

lemma assertions_later: "assertions t w \<Longrightarrow> t \<le> t' \<Longrightarrow> assertions t' w"
  by (auto simp: assertions_def draining_since_def split: option.splits)

lemma assertions_op: "assertions t w \<Longrightarrow> assertions t (apply_op t op w)"
  using asserted.keeps_op [of op t w] by (cases "op = Invocation_Start")
    (auto simp: assertions_kept_def assertions_def record_invocation_start_def)

lemma assertions_history:
  "in_order t0 h t1 \<Longrightarrow> assertions t0 w \<Longrightarrow> assertions t1 (after_history h w)"
proof (induction h arbitrary: t0 w)
  case Nil
  then show ?case using assertions_later by (simp add: in_order_def)
next
  case (Cons e h)
  obtain t op where e: "e = (t, op)" by fastforce
  have "t0 \<le> t" "in_order t h t1" using Cons.prems e by (auto simp: in_order_def)
  with Cons.IH [of t "apply_op t op w"] Cons.prems(2) assertions_op assertions_later show ?case by (simp add: e)
qed

text \<open>The code may rely on its two assertions, in every state a watchdog can get into.\<close>

lemma assertions_hold: "in_order t0 h t1 \<Longrightarrow> assertions t1 (after_history h (new_watchdog p t0))"
  by (erule assertions_history) (simp add: assertions_def new_watchdog_def)

text \<open>The time a history spends with a waiting run open.\<close>

fun waiting_spent :: "rat \<Rightarrow> wd_history \<Rightarrow> rat \<Rightarrow> IdleWatchdog \<Rightarrow> rat" where
  "waiting_spent t0 [] t1 w = (if wd_waiting_started_at w = None then 0 else t1 - t0)"
| "waiting_spent t0 ((t, op) # h) t1 w =
     (if wd_waiting_started_at w = None then 0 else t - t0) + waiting_spent t h t1 (apply_op t op w)"

lemma waiting_spent_eq:
  assumes "in_order t0 h t1" and "started_by t0 w" and "Invocation_Start \<notin> snd ` set h"
  shows "started_by t1 (after_history h w) \<and> waiting_by t1 (after_history h w) = waiting_by t0 w + waiting_spent t0 h t1 w"
  using assms
proof (induction h arbitrary: t0 w)
  case Nil
  then show ?case by (auto simp: in_order_def started_by_def waiting_by_def split: option.splits)
next
  case (Cons e h)
  obtain t op where e: "e = (t, op)" by fastforce
  have o: "t0 \<le> t" "in_order t h t1" using Cons.prems e by (auto simp: in_order_def)
  have s: "started_by t w" and w: "waiting_by t w = waiting_by t0 w + (if wd_waiting_started_at w = None then 0 else t - t0)"
    using Cons.prems(2) o(1) by (auto simp: started_by_def waiting_by_def split: option.splits)
  have "started_by t (apply_op t op w) \<and> waiting_by t (apply_op t op w) = waiting_by t w"
    using waiting.keeps_op [of op t w] Cons.prems(3) e s by (auto simp: waiting_kept_def)
  with Cons.IH [of t "apply_op t op w"] o Cons.prems(3) w show ?case by (simp add: e)
qed

text \<open>The answer WAITING comes from one place only, below the ceiling.\<close>

lemma gated_not_waiting: "fst (fire_if_gated k reason idle w) \<noteq> WAITING"
  using fire_if_gated_cases [of k reason idle w] by (metis WatchdogVerdict.distinct(1,5) prod.collapse)

lemma active_not_waiting: "fst (handle_active_branch k w) \<noteq> WAITING"
  by (simp add: handle_active_branch_def Let_def gated_not_waiting)

lemma entered_total: "waiting_total k (enter_waiting_run k w) = waiting_by (tk_now k) w"
  by (auto simp: waiting_total_def current_run_def waiting_by_def enter_waiting_run_def)

lemma waiting_branch_below:
  "fst (handle_waiting_branch k w) = WAITING \<Longrightarrow>
   waiting_by (tk_now k) w < effective_waiting_ceiling (wd_config w) (co_alive_by (tk_corroboration k))"
  using active_not_waiting gated_not_waiting
  by (auto simp: handle_waiting_branch_def Let_def entered_total split: if_splits)

lemma final_below:
  assumes "fst (evaluate_final_verdict k idle w) = WAITING"
  shows "waiting_by (tk_now k) w < effective_waiting_ceiling (wd_config w) (co_alive_by (tk_corroboration k))"
proof -
  have p: "fst r \<noteq> WAITING" if "post_tool_result_stalled k idle w = Some r" for r
    using that by (auto simp: post_tool_result_stalled_def gated_not_waiting split: option.splits if_splits)
  have "fst (handle_waiting_branch k w) = WAITING
      \<or> fst (handle_waiting_branch k (w\<lparr>wd_in_drain_window := False, wd_drain_started_at := None\<rparr>)) = WAITING"
    using assms p by (auto simp: evaluate_final_verdict_def handle_drain_window_def gated_not_waiting active_not_waiting
        split: option.splits if_splits)
  then show ?thesis by (auto dest!: waiting_branch_below simp: waiting_by_def)
qed

lemma effective_ceiling_le:
  "ceilings_ok p \<Longrightarrow> effective_waiting_ceiling p a \<le> tp_max_waiting p"
  by (auto simp: ceilings_ok_def over_def effective_waiting_ceiling_def split: option.splits bool.splits)

lemma quiet_child_not_waiting: "evaluate_quiet_child k idle w = Some r \<Longrightarrow> fst r \<noteq> WAITING"
  by (auto simp: evaluate_quiet_child_def evaluate_no_progress_quiet_def fire_no_progress_quiet_def gated_not_waiting
      split: if_splits)

lemma start_not_waiting: "evaluate_no_output_at_start k idle w = Some r \<Longrightarrow> fst r \<noteq> WAITING"
  by (auto simp: evaluate_no_output_at_start_def gated_not_waiting split: if_splits)

lemma strictly_stuck_not_waiting: "evaluate_strictly_stuck k idle w = (Some v, w') \<Longrightarrow> v \<noteq> WAITING"
  using gated_not_waiting [of k STRICTLY_STUCK idle w]
  by (auto simp: evaluate_strictly_stuck_def after_fire_def Let_def split: option.splits if_splits prod.splits)

lemma activity_only_not_waiting: "fst (evaluate_activity_only k w) \<noteq> WAITING"
  by (simp add: evaluate_activity_only_def Let_def)

lemma waiting_below:
  assumes "fst (evaluate k w0) = WAITING" and "ceilings_ok (wd_config w0)"
  shows "waiting_by (tk_now k) w0 < tp_max_waiting (wd_config w0)"
proof -
  define w where "w = poll_subagent_output (tk_now k) (tk_monitor k) w0"
  obtain r w1 where e: "early_fire_reason k w = (r, w1)" by fastforce
  then obtain t where w1: "w1 = w\<lparr>wd_tracker := t\<rparr>" using early_reason_cases by blast
  let ?i = "tk_now k - wd_last_activity w1"
  obtain v w2 where s: "evaluate_strictly_stuck k ?i w1 = (v, w2)" by fastforce
  have "v = None \<and> fst (evaluate_final_verdict k ?i w2) = WAITING"
    using assms(1) strictly_stuck_not_waiting [of k ?i w1] s quiet_child_not_waiting start_not_waiting
    by (auto simp: evaluate_def evaluate_inner_def Let_def w_def [symmetric] e activity_only_not_waiting gated_not_waiting
        split: if_splits option.splits)
  then obtain x where w2: "w2 = w1\<lparr>wd_strictly_stuck_started_at := x\<rparr>"
    and f: "fst (evaluate_final_verdict k ?i w2) = WAITING" using s strictly_stuck_silent by blast
  from final_below [OF f] have "waiting_by (tk_now k) w0 < effective_waiting_ceiling (wd_config w0) (co_alive_by (tk_corroboration k))"
    by (simp add: w2 w1 w_def waiting_by_def)
  then show ?thesis using effective_ceiling_le [OF assms(2)] by (meson order_less_le_trans)
qed

section \<open>Properties\<close>

text \<open>
  C11. A silent agent is killed: after any history, in order of time, of a watchdog with an accepted policy and the
  standard profile, when two ticks at least a drain window apart see no new output, no fresh evidence of the agent or of
  a subagent, no fresh channel and no child to wait for, while no waiting state is set and the network is not reported
  offline, and the first comes at or after the idle timeout, then the first or the second answers FIRE.
\<close>

theorem silent_agent_is_killed:
  assumes "new_timeout_policy q = Inr p" and "tp_profile p = STANDARD" and "in_order t0 h (tk_now k1)"
    and "w = after_history h (new_watchdog p t0)" and "silent k1 w" and "silent k2 w" and "idle_timed_out k1 w"
    and "tk_now k2 \<ge> tk_now k1 + tp_drain_window p"
  shows "fst (evaluate k1 w) = FIRE \<or> fst (evaluate k2 (snd (evaluate k1 w))) = FIRE"
proof (rule silent_twice)
  have c: "wd_config w = p" using assms(4) by (simp add: new_watchdog_def)
  show "0 \<le> tp_drain_window (wd_config w)" using accepted_drain_window [OF assms(1)] c by simp
  show "tk_now k2 \<ge> tk_now k1 + tp_drain_window (wd_config w)" using assms(8) c by simp
  show "tp_profile (wd_config w) = STANDARD" using assms(2) c by simp
  show "wd_in_drain_window w \<Longrightarrow> draining_since (tk_now k1) w"
    using assertions_hold [OF assms(3), of p] assms(4) by (simp add: assertions_def)
qed (use assms in simp_all)

theorem silent_agent_is_killed_witness:
  "let w = after_history [(5, Lifecycle_Activity)] (new_watchdog production_policy 0)
   in fst (evaluate (quiet_tick 305) w) = FIRE \<or> fst (evaluate (quiet_tick 306) (snd (evaluate (quiet_tick 305) w))) = FIRE"
proof -
  let ?w = "after_history [(5, Lifecycle_Activity)] (new_watchdog production_policy 0)"
  note w = record_lifecycle_activity_def reset_idle_baseline_def record_any_output_def accumulate_waiting_run_def set_stall_def
    new_watchdog_def production_policy_def default_timeout_policy_def Let_def
  have "silent (quiet_tick 305) ?w" "silent (quiet_tick 306) ?w"
    by (simp_all add: silent_def no_new_lines_def evidence_steps quiet_tick_def w)
  moreover have "idle_timed_out (quiet_tick 305) ?w" by (simp add: idle_timed_out_def reached_def quiet_tick_def w)
  ultimately show ?thesis
    using silent_agent_is_killed [OF production_policy_accepted, of 0 "[(5, Lifecycle_Activity)]" "quiet_tick 305" ?w "quiet_tick 306"]
    by (simp add: in_order_def quiet_tick_def production_policy_def default_timeout_policy_def)
qed

text \<open>
  C12. Waiting on children is bounded over a whole invocation: however often waiting runs are left and entered again,
  whatever is recorded in between, when a tick answers WAITING, all the time the invocation has spent waiting is
  still below the configured maximum.
\<close>

theorem waiting_is_bounded:
  assumes "new_timeout_policy q = Inr p" and "in_order t0 h (tk_now k)" and "Invocation_Start \<notin> snd ` set h"
    and "w0 = record_invocation_start t0 w" and "wd_config w = p" and "fst (evaluate k (after_history h w0)) = WAITING"
  shows "waiting_spent t0 h (tk_now k) w0 < tp_max_waiting p"
proof -
  have w0: "wd_config w0 = p" "started_by t0 w0" "waiting_by t0 w0 = 0"
    using assms(4,5) by (simp_all add: record_invocation_start_def started_by_def waiting_by_def)
  have "waiting_by (tk_now k) (after_history h w0) < tp_max_waiting p"
    using waiting_below [OF assms(6)] accepted_ceilings [OF assms(1)] w0(1) by simp
  then show ?thesis using waiting_spent_eq [OF assms(2) w0(2) assms(3)] w0(3) by simp
qed

text \<open>
  Stall reports alternate: over every history, a listener that follows the events never sees a stall reported
  twice nor a resumption without a stall, the flag every event carries is what it has followed so far, and at the
  end it agrees with the watchdog.
\<close>

theorem stall_reports_alternate:
  "follow False (wd_events (after_history h (new_watchdog p t0))) = Some (wd_stall_active (after_history h (new_watchdog p t0)))"
  using stalls_reported_always [of "new_watchdog p t0" h] by (simp add: stalls_reported_def new_watchdog_def)

definition child_tick :: "AliveBy \<Rightarrow> string option \<Rightarrow> rat \<Rightarrow> Tick" where
  "child_tick alive_by connectivity t = \<lparr>tk_now = t, tk_later = t, tk_quiet = (\<lambda>_. WAITING_ON_CHILD),
     tk_corroboration = \<lparr>co_alive_by = Some alive_by, co_scoped_child_active = Some True\<rparr>,
     tk_connectivity = connectivity, tk_monitor = None\<rparr>"

lemmas waiting_steps = handle_waiting_branch_def enter_waiting_run_def effective_waiting_ceiling_def compute_effective_suspect_def
  announce_suspicion_def report_progress_def report_subagents_def stuck_job_def STUCK_ALIVE_BY_VALUES_def
  NON_PROGRESS_ALIVE_BY_VALUES_def waiting_total_def current_run_def evaluate_no_progress_quiet_def is_no_progress_quiet_def
  heartbeat_ceiling_reached_def invocation_elapsed_def not_before_def after_fire_def

lemmas invocation_state = record_invocation_start_def new_watchdog_def production_policy_def default_timeout_policy_def
  new_repetition_tracker_def NO_OUTPUT_AT_START_SECONDS_def

definition invoked :: IdleWatchdog where
  "invoked = record_invocation_start 0 (new_watchdog production_policy 0)"

lemma first_wait:
  "a \<noteq> FRESH_HEARTBEAT_ONLY \<Longrightarrow> evaluate (child_tick a c 300) invoked =
     (WAITING, emit_status ENTERED 0 300 (Some (effective_waiting_ceiling production_policy (Some a))) None
        (invoked\<lparr>wd_waiting_started_at := Some 300, wd_last_waiting_status_at := Some 300\<rparr>))"
  by (cases a) (simp_all add: invoked_def evaluate_steps waiting_steps child_tick_def invocation_state live_subagents_def Let_def)

theorem waiting_is_bounded_witness:
  "waiting_spent 0 [(300, Evaluate (child_tick FRESH_PROGRESS None 300))] 400 invoked < tp_max_waiting production_policy
   \<and> waiting_spent 0 [(300, Evaluate (child_tick FRESH_PROGRESS None 300))] 400 invoked = 100"
proof -
  let ?k = "child_tick FRESH_PROGRESS None"
  let ?h = "[(300, Evaluate (?k 300))]"
  have k: "at_time 300 (?k 300) = ?k 300" by (simp add: at_time_def child_tick_def)
  have "fst (evaluate (?k 400) (after_history ?h invoked)) = WAITING"
    by (simp add: k first_wait)
      (simp add: invoked_def evaluate_steps waiting_steps child_tick_def invocation_state live_subagents_def Let_def)
  moreover have "tk_now (?k 400) = 400" "in_order 0 ?h 400" by (simp_all add: child_tick_def in_order_def)
  moreover have "wd_config (new_watchdog production_policy 0) = production_policy" by (simp add: new_watchdog_def)
  ultimately have "waiting_spent 0 ?h 400 invoked < tp_max_waiting production_policy"
    using waiting_is_bounded [OF production_policy_accepted, of 0 ?h "?k 400" invoked "new_watchdog production_policy 0"]
    by (simp add: invoked_def)
  moreover have "waiting_spent 0 ?h 400 invoked = 100"
    by (simp add: k first_wait) (simp add: invoked_def record_invocation_start_def)
  ultimately show ?thesis by blast
qed

text \<open>An offline network strands a stuck child: the tick that finds it changes two fields and never more.\<close>

abbreviation offline_child :: "rat \<Rightarrow> Tick" where
  "offline_child t \<equiv> child_tick CPU_IDLE_WHILE_ALIVE (Some ''offline'') t"

definition stranded :: "WatchdogFireReason option \<Rightarrow> StuckKind option \<Rightarrow> IdleWatchdog" where
  "stranded r d = (snd (evaluate (offline_child 300) invoked))\<lparr>wd_last_fire_reason := r, wd_last_deferred_kind := d\<rparr>"

lemma stranded_tick:
  assumes "t \<ge> 900"
  shows "evaluate (offline_child t) (stranded r d) = (CONTINUE, stranded (Some DEFERRED_BY_STUCK_CLASSIFIER) (Some WAITING_ON_CONNECTIVITY))"
  using assms
  by (simp add: stranded_def first_wait)
    (simp add: invoked_def evaluate_steps waiting_steps child_tick_def invocation_state live_subagents_def Let_def
      classify_stuck_now_def classify_stuck_def)

lemma stranded_fields:
  "wd_config (stranded r d) = production_policy" "wd_waiting_started_at (stranded r d) = Some 300"
  "wd_cumulative_waiting (stranded r d) = 0"
  by (simp_all add: stranded_def first_wait) (simp_all add: invoked_def record_invocation_start_def new_watchdog_def)

lemma stranded_history:
  "list_all (\<lambda>t. 900 \<le> t) ts \<Longrightarrow>
   \<exists>r' d'. after_history (map (\<lambda>t. (t, Evaluate (offline_child t))) ts) (stranded r d) = stranded r' d'"
proof (induction ts arbitrary: r d)
  case (Cons t ts)
  have "at_time t (offline_child t) = offline_child t" by (simp add: at_time_def child_tick_def)
  with Cons show ?case by (simp add: stranded_tick)
qed auto

text \<open>
  C38. The ceiling on waiting can be bypassed, against the comment that calls it absolute: under the default limits, without a session ceiling, a
  child that is alive but idle, seen while the network is offline, makes every tick from 900 seconds on answer
  CONTINUE, for as long as this lasts, although the time waited has reached the ceiling of 600 seconds: the check
  for a stuck job comes first, and its deferral returns before the ceiling is looked at.
\<close>

theorem waiting_ceiling_bypassed:
  assumes "list_all (\<lambda>t. 900 \<le> t) ts" and "900 \<le> t"
    and "w = after_history (map (\<lambda>t. (t, Evaluate (offline_child t))) ts) (snd (evaluate (offline_child 300) invoked))"
  shows "fst (evaluate (offline_child t) w) = CONTINUE \<and> waiting_by t w \<ge> waiting_ceiling (offline_child t) w"
proof -
  let ?w = "snd (evaluate (offline_child 300) invoked)"
  have "?w = stranded (wd_last_fire_reason ?w) (wd_last_deferred_kind ?w)" by (simp add: stranded_def)
  then obtain r d where w: "w = stranded r d"
    using stranded_history [OF assms(1), of "wd_last_fire_reason ?w" "wd_last_deferred_kind ?w"] assms(3) by auto
  have "waiting_by t w = t - 300" "waiting_ceiling (offline_child t) w = 600"
    by (simp_all add: w stranded_fields waiting_by_def waiting_ceiling_def effective_waiting_ceiling_def child_tick_def
        NON_PROGRESS_ALIVE_BY_VALUES_def production_policy_def default_timeout_policy_def)
  then show ?thesis using assms(2) w stranded_tick by simp
qed

theorem waiting_ceiling_bypassed_witness:
  "let w = after_history (map (\<lambda>t. (t, Evaluate (offline_child t))) [900, 2000]) (snd (evaluate (offline_child 300) invoked))
   in fst (evaluate (offline_child 10000) w) = CONTINUE \<and> waiting_by 10000 w \<ge> waiting_ceiling (offline_child 10000) w"
  using waiting_ceiling_bypassed [of "[900, 2000]" 10000] by (simp add: Let_def)

end
