(* ===== verification/Child_Liveness.thy ===== *)
theory Child_Liveness
  imports Watchdog_Policy
begin

text \<open>
  What is known of the children of an agent: the registry of child evidence (\<^verbatim>\<open>process/child_liveness.py\<close>), the probe
  that joins it with the managed processes (\<^verbatim>\<open>process/_default_liveness_probe.py\<close>), and the execution strategies that
  turn it into an execution state (\<^verbatim>\<open>agents/execution_state/\<close>). An operation that reads the clock several times reads
  one time. The parsing of the lines an agent prints into registry operations is not modelled.
\<close>

section \<open>The registry\<close>

record MutableRecord =
  mr_scope_prefix :: string
  mr_pid :: "int option"
  mr_started_at :: rat
  mr_last_progress_at :: "rat option"
  mr_last_heartbeat_at :: "rat option"
  mr_last_ack_at :: "rat option"
  mr_last_known_phase :: string
  mr_terminal_state :: "string option"

record ChildLivenessRegistry =
  cr_progress_ttl :: rat
  cr_heartbeat_ttl :: rat
  cr_stale_label_ttl :: rat
  cr_exit_reconcile :: rat
  cr_records :: "(string, MutableRecord) dict"

record ChildActivitySnapshot =
  cs_has_process :: bool
  cs_has_fresh_label :: bool
  cs_has_fresh_heartbeat :: bool
  cs_has_fresh_progress :: bool
  cs_oldest :: "rat option"
  cs_active_count :: nat
  cs_terminal_count :: nat

record ChildEvidenceVerdict =
  cv_alive_by :: "AliveBy option"
  cv_deferral_allowed :: bool
  cv_all_children_terminal :: bool

definition CHILD_PROGRESS_TTL_SECONDS :: rat where "CHILD_PROGRESS_TTL_SECONDS = 45"
definition CHILD_HEARTBEAT_TTL_SECONDS :: rat where "CHILD_HEARTBEAT_TTL_SECONDS = 15"
definition CHILD_STALE_LABEL_TTL_SECONDS :: rat where "CHILD_STALE_LABEL_TTL_SECONDS = 10"
definition CHILD_EXIT_RECONCILE_SECONDS :: rat where "CHILD_EXIT_RECONCILE_SECONDS = 5"

definition make_child_registry :: "rat option \<Rightarrow> rat option \<Rightarrow> rat option \<Rightarrow> rat option \<Rightarrow> ChildLivenessRegistry" where
  "make_child_registry progress heartbeat label reconcile =
     \<lparr>cr_progress_ttl = (case progress of None \<Rightarrow> CHILD_PROGRESS_TTL_SECONDS | Some t \<Rightarrow> t),
      cr_heartbeat_ttl = (case heartbeat of None \<Rightarrow> CHILD_HEARTBEAT_TTL_SECONDS | Some t \<Rightarrow> t),
      cr_stale_label_ttl = (case label of None \<Rightarrow> CHILD_STALE_LABEL_TTL_SECONDS | Some t \<Rightarrow> t),
      cr_exit_reconcile = (case reconcile of None \<Rightarrow> CHILD_EXIT_RECONCILE_SECONDS | Some t \<Rightarrow> t), cr_records = []\<rparr>"

definition register_child :: "rat \<Rightarrow> string \<Rightarrow> string \<Rightarrow> int option \<Rightarrow> string \<Rightarrow> ChildLivenessRegistry \<Rightarrow> ChildLivenessRegistry" where
  "register_child now child_id scope_prefix pid phase r = r\<lparr>cr_records := dict_set child_id
     \<lparr>mr_scope_prefix = scope_prefix, mr_pid = pid, mr_started_at = now, mr_last_progress_at = None,
      mr_last_heartbeat_at = None, mr_last_ack_at = None, mr_last_known_phase = phase, mr_terminal_state = None\<rparr>
     (cr_records r)\<rparr>"

text \<open>The recording operations change the record of a known child and ignore any other.\<close>

definition update_child :: "string \<Rightarrow> (MutableRecord \<Rightarrow> MutableRecord) \<Rightarrow> ChildLivenessRegistry \<Rightarrow> ChildLivenessRegistry" where
  "update_child child_id f r = (case dict_get (cr_records r) child_id of
     None \<Rightarrow> r | Some c \<Rightarrow> r\<lparr>cr_records := dict_set child_id (f c) (cr_records r)\<rparr>)"

definition record_heartbeat :: "rat \<Rightarrow> string \<Rightarrow> ChildLivenessRegistry \<Rightarrow> ChildLivenessRegistry" where
  "record_heartbeat now child_id r = update_child child_id (\<lambda>c. c\<lparr>mr_last_heartbeat_at := Some now\<rparr>) r"

definition record_progress :: "rat \<Rightarrow> string \<Rightarrow> string option \<Rightarrow> ChildLivenessRegistry \<Rightarrow> ChildLivenessRegistry" where
  "record_progress now child_id phase r = update_child child_id
     (\<lambda>c. c\<lparr>mr_last_progress_at := Some now, mr_last_heartbeat_at := Some now,
            mr_last_known_phase := (case phase of None \<Rightarrow> mr_last_known_phase c | Some p \<Rightarrow> p)\<rparr>) r"

definition record_terminal_ack :: "rat \<Rightarrow> string \<Rightarrow> string \<Rightarrow> ChildLivenessRegistry \<Rightarrow> ChildLivenessRegistry" where
  "record_terminal_ack now child_id terminal_state r = update_child child_id
     (\<lambda>c. c\<lparr>mr_last_ack_at := Some now, mr_terminal_state := Some terminal_state\<rparr>) r"

definition has_child :: "string \<Rightarrow> ChildLivenessRegistry \<Rightarrow> bool" where
  "has_child child_id r = dict_has (cr_records r) child_id"

definition in_scope :: "string \<Rightarrow> MutableRecord \<Rightarrow> bool" where
  "in_scope scope_prefix c = starts_with scope_prefix (mr_scope_prefix c)"

definition has_records :: "string \<Rightarrow> ChildLivenessRegistry \<Rightarrow> bool" where
  "has_records scope_prefix r = list_ex (\<lambda>(i, c). in_scope scope_prefix c) (cr_records r)"

definition heartbeat_fresh :: "ChildLivenessRegistry \<Rightarrow> rat \<Rightarrow> MutableRecord \<Rightarrow> bool" where
  "heartbeat_fresh r t c = (case mr_last_heartbeat_at c of None \<Rightarrow> False | Some h \<Rightarrow> t - h \<le> cr_heartbeat_ttl r)"

definition progress_fresh :: "ChildLivenessRegistry \<Rightarrow> rat \<Rightarrow> MutableRecord \<Rightarrow> bool" where
  "progress_fresh r t c = (case mr_last_progress_at c of None \<Rightarrow> False | Some p \<Rightarrow> t - p \<le> cr_progress_ttl r)"

definition prunable :: "ChildLivenessRegistry \<Rightarrow> rat \<Rightarrow> MutableRecord \<Rightarrow> bool" where
  "prunable r t c =
     (if mr_terminal_state c \<noteq> None
      then (case mr_last_ack_at c of None \<Rightarrow> False | Some a \<Rightarrow> t - a > cr_exit_reconcile r)
      else (case mr_last_progress_at c of
          Some p \<Rightarrow> t - p > cr_progress_ttl r \<and> \<not> heartbeat_fresh r t c
        | None \<Rightarrow> t - mr_started_at c > cr_stale_label_ttl r \<and> \<not> heartbeat_fresh r t c))"

definition prune_stale :: "rat \<Rightarrow> ChildLivenessRegistry \<Rightarrow> nat \<times> ChildLivenessRegistry" where
  "prune_stale t r =
     (let to_prune = map fst (filter (\<lambda>(i, c). prunable r t c) (cr_records r))
      in (length to_prune, r\<lparr>cr_records := fold dict_pop to_prune (cr_records r)\<rparr>))"

definition note_child :: "ChildLivenessRegistry \<Rightarrow> rat \<Rightarrow> MutableRecord \<Rightarrow> ChildActivitySnapshot \<Rightarrow> ChildActivitySnapshot" where
  "note_child r now c s =
     (if mr_terminal_state c \<noteq> None then s\<lparr>cs_terminal_count := Suc (cs_terminal_count s)\<rparr>
      else (let child_age = now - mr_started_at c in
        s\<lparr>cs_active_count := Suc (cs_active_count s), cs_has_process := True,
          cs_oldest := (case cs_oldest s of None \<Rightarrow> Some child_age | Some o' \<Rightarrow> Some (if child_age > o' then child_age else o')),
          cs_has_fresh_label := cs_has_fresh_label s \<or> child_age \<le> cr_stale_label_ttl r \<or> heartbeat_fresh r now c,
          cs_has_fresh_heartbeat := cs_has_fresh_heartbeat s \<or> heartbeat_fresh r now c,
          cs_has_fresh_progress := cs_has_fresh_progress s \<or> progress_fresh r now c\<rparr>))"

definition no_children :: ChildActivitySnapshot where
  "no_children = \<lparr>cs_has_process = False, cs_has_fresh_label = False, cs_has_fresh_heartbeat = False,
     cs_has_fresh_progress = False, cs_oldest = None, cs_active_count = 0, cs_terminal_count = 0\<rparr>"

definition snapshot :: "rat \<Rightarrow> string \<Rightarrow> ChildLivenessRegistry \<Rightarrow> ChildActivitySnapshot \<times> ChildLivenessRegistry" where
  "snapshot now scope_prefix r0 =
     (let r = snd (prune_stale now r0)
      in (fold (\<lambda>(i, c) s. if in_scope scope_prefix c then note_child r now c s else s) (cr_records r) no_children, r))"

definition has_active_phase :: "rat \<Rightarrow> string \<Rightarrow> string \<Rightarrow> ChildLivenessRegistry \<Rightarrow> bool" where
  "has_active_phase now scope_prefix phase r =
     list_ex (\<lambda>(i, c). in_scope scope_prefix c \<and> mr_terminal_state c = None \<and> mr_last_known_phase c = phase
       \<and> heartbeat_fresh r now c) (cr_records r)"

definition active_pids :: "rat \<Rightarrow> string \<Rightarrow> ChildLivenessRegistry \<Rightarrow> int list \<times> ChildLivenessRegistry" where
  "active_pids now scope_prefix r0 =
     (let r = snd (prune_stale now r0)
      in (remdups (List.map_filter (\<lambda>(i, c). if in_scope scope_prefix c \<and> mr_terminal_state c = None then mr_pid c else None)
            (cr_records r)), r))"

definition classify_child_snapshot :: "ChildActivitySnapshot \<Rightarrow> bool \<Rightarrow> ChildEvidenceVerdict" where
  "classify_child_snapshot s has_os_descendants =
     (if cs_terminal_count s > 0 \<and> cs_active_count s = 0
      then \<lparr>cv_alive_by = None, cv_deferral_allowed = False, cv_all_children_terminal = True\<rparr>
      else if cs_has_fresh_progress s
      then \<lparr>cv_alive_by = Some FRESH_PROGRESS, cv_deferral_allowed = True, cv_all_children_terminal = False\<rparr>
      else if cs_has_fresh_heartbeat s \<and> cs_has_process s
      then \<lparr>cv_alive_by = Some FRESH_HEARTBEAT_ONLY, cv_deferral_allowed = True, cv_all_children_terminal = False\<rparr>
      else if cs_has_process s
      then \<lparr>cv_alive_by = Some STALE_LABEL_ONLY, cv_deferral_allowed = cs_has_fresh_label s, cv_all_children_terminal = False\<rparr>
      else if has_os_descendants
      then \<lparr>cv_alive_by = Some OS_DESCENDANT_ONLY_STALE_PROGRESS, cv_deferral_allowed = False, cv_all_children_terminal = False\<rparr>
      else \<lparr>cv_alive_by = None, cv_deferral_allowed = False, cv_all_children_terminal = False\<rparr>)"

section \<open>The probe\<close>

text \<open>The labels of the processes the manager lists as active, \<open>None\<close> for a process without one.\<close>

type_synonym labels = "string option list"

definition labelled :: "string \<Rightarrow> labels \<Rightarrow> nat" where
  "labelled prefix ls = length (filter (\<lambda>l. case l of None \<Rightarrow> False | Some x \<Rightarrow> starts_with prefix x) ls)"

definition any_agent_active :: "labels \<Rightarrow> string \<Rightarrow> bool" where
  "any_agent_active ls prefix = (labelled prefix ls > 0)"

definition child_snapshot ::
  "rat \<Rightarrow> labels \<Rightarrow> string \<Rightarrow> ChildLivenessRegistry option \<Rightarrow> ChildActivitySnapshot \<times> ChildLivenessRegistry option" where
  "child_snapshot now ls scope_prefix reg =
     (let active_count = (if scope_prefix \<noteq> [] then labelled scope_prefix ls else 0); has_process = (active_count > 0)
      in case reg of
        Some r \<Rightarrow> (case snapshot now scope_prefix r of (s, r') \<Rightarrow>
          (\<lparr>cs_has_process = (has_process \<or> cs_has_process s), cs_has_fresh_label = cs_has_fresh_label s,
            cs_has_fresh_heartbeat = False, cs_has_fresh_progress = cs_has_fresh_progress s, cs_oldest = cs_oldest s,
            cs_active_count = max active_count (cs_active_count s), cs_terminal_count = cs_terminal_count s\<rparr>, Some r'))
      | None \<Rightarrow> (\<lparr>cs_has_process = has_process, cs_has_fresh_label = has_process, cs_has_fresh_heartbeat = False,
            cs_has_fresh_progress = False, cs_oldest = None, cs_active_count = active_count, cs_terminal_count = 0\<rparr>, None))"

section \<open>What the registry answers\<close>

definition registry_ok :: "ChildLivenessRegistry \<Rightarrow> bool" where
  "registry_ok r \<longleftrightarrow> distinct (map fst (cr_records r))"

text \<open>A child counts when it is not known to have ended and its last sign of its kind is recent enough.\<close>

definition child_fresh :: "ChildLivenessRegistry \<Rightarrow> rat \<Rightarrow> MutableRecord \<Rightarrow> bool" where
  "child_fresh r t c \<longleftrightarrow> mr_terminal_state c = None \<and> (heartbeat_fresh r t c \<or> progress_fresh r t c
     \<or> mr_last_progress_at c = None \<and> t - mr_started_at c \<le> cr_stale_label_ttl r)"

definition has_fresh_child :: "ChildLivenessRegistry \<Rightarrow> rat \<Rightarrow> string \<Rightarrow> bool" where
  "has_fresh_child r t prefix \<longleftrightarrow> (\<exists>(i, c) \<in> set (cr_records r). in_scope prefix c \<and> child_fresh r t c)"

lemma fold_dict_pop: "fold dict_pop ks d = filter (\<lambda>(k, v). k \<notin> set ks) d"
  by (induction ks arbitrary: d) (auto simp: dict_pop_def split_def intro: filter_cong)

lemma prune_records:
  assumes "registry_ok r"
  shows "cr_records (snd (prune_stale t r)) = filter (\<lambda>(i, c). \<not> prunable r t c) (cr_records r)"
proof -
  have "i \<in> set (map fst (filter (\<lambda>(i, c). prunable r t c) (cr_records r))) \<longleftrightarrow> prunable r t c"
    if "(i, c) \<in> set (cr_records r)" for i c
    using that assms by (force simp: registry_ok_def image_iff dest: eq_key_imp_eq_value)
  then show ?thesis by (auto simp: prune_stale_def fold_dict_pop Let_def intro!: filter_cong)
qed

lemma prune_limits [simp]:
  "cr_progress_ttl (snd (prune_stale t r)) = cr_progress_ttl r"
  "cr_heartbeat_ttl (snd (prune_stale t r)) = cr_heartbeat_ttl r"
  "cr_stale_label_ttl (snd (prune_stale t r)) = cr_stale_label_ttl r"
  "cr_exit_reconcile (snd (prune_stale t r)) = cr_exit_reconcile r"
  by (simp_all add: prune_stale_def Let_def)

lemma prune_freshness [simp]:
  "heartbeat_fresh (snd (prune_stale t' r)) = heartbeat_fresh r" "progress_fresh (snd (prune_stale t' r)) = progress_fresh r"
  by (simp_all add: heartbeat_fresh_def progress_fresh_def fun_eq_iff split: option.split)

lemma prune_ok: "registry_ok r \<Longrightarrow> registry_ok (snd (prune_stale t r))"
  by (simp add: registry_ok_def prune_stale_def fold_dict_pop Let_def distinct_map_filter)

lemma child_fresh_iff: "child_fresh r t c \<longleftrightarrow> mr_terminal_state c = None \<and> \<not> prunable r t c"
  by (auto simp: child_fresh_def prunable_def progress_fresh_def split: option.splits)

text \<open>What the scan of the children computes.\<close>

abbreviation scan_children ::
  "ChildLivenessRegistry \<Rightarrow> rat \<Rightarrow> string \<Rightarrow> (string, MutableRecord) dict \<Rightarrow> ChildActivitySnapshot \<Rightarrow> ChildActivitySnapshot" where
  "scan_children r now prefix \<equiv> fold (\<lambda>(i, c) s. if in_scope prefix c then note_child r now c s else s)"

lemma note_child_simps [simp]:
  "cs_has_fresh_progress (note_child r t c s) \<longleftrightarrow> cs_has_fresh_progress s \<or> mr_terminal_state c = None \<and> progress_fresh r t c"
  "cs_has_fresh_heartbeat (note_child r t c s) \<longleftrightarrow> cs_has_fresh_heartbeat s \<or> mr_terminal_state c = None \<and> heartbeat_fresh r t c"
  "cs_has_fresh_label (note_child r t c s) \<longleftrightarrow> cs_has_fresh_label s
     \<or> mr_terminal_state c = None \<and> (t - mr_started_at c \<le> cr_stale_label_ttl r \<or> heartbeat_fresh r t c)"
  "cs_has_process (note_child r t c s) \<longleftrightarrow> cs_has_process s \<or> mr_terminal_state c = None"
  "cs_active_count (note_child r t c s) > 0 \<longleftrightarrow> cs_active_count s > 0 \<or> mr_terminal_state c = None"
  "cs_terminal_count (note_child r t c s) > 0 \<longleftrightarrow> cs_terminal_count s > 0 \<or> mr_terminal_state c \<noteq> None"
  by (auto simp: note_child_def Let_def)

lemma scan_progress:
  "cs_has_fresh_progress (scan_children r t prefix xs s) \<longleftrightarrow> cs_has_fresh_progress s
     \<or> (\<exists>(i, c) \<in> set xs. in_scope prefix c \<and> mr_terminal_state c = None \<and> progress_fresh r t c)"
  by (induction xs arbitrary: s) (auto split: if_splits)

lemma scan_heartbeat:
  "cs_has_fresh_heartbeat (scan_children r t prefix xs s) \<longleftrightarrow> cs_has_fresh_heartbeat s
     \<or> (\<exists>(i, c) \<in> set xs. in_scope prefix c \<and> mr_terminal_state c = None \<and> heartbeat_fresh r t c)"
  by (induction xs arbitrary: s) (auto split: if_splits)

lemma scan_label:
  "cs_has_fresh_label (scan_children r t prefix xs s) \<longleftrightarrow> cs_has_fresh_label s
     \<or> (\<exists>(i, c) \<in> set xs. in_scope prefix c \<and> mr_terminal_state c = None
          \<and> (t - mr_started_at c \<le> cr_stale_label_ttl r \<or> heartbeat_fresh r t c))"
  by (induction xs arbitrary: s) (auto split: if_splits)

lemma scan_counts:
  "cs_has_process (scan_children r t prefix xs s) \<longleftrightarrow> cs_has_process s
     \<or> (\<exists>(i, c) \<in> set xs. in_scope prefix c \<and> mr_terminal_state c = None)"
  "cs_active_count (scan_children r t prefix xs s) > 0 \<longleftrightarrow> cs_active_count s > 0
     \<or> (\<exists>(i, c) \<in> set xs. in_scope prefix c \<and> mr_terminal_state c = None)"
  "cs_terminal_count (scan_children r t prefix xs s) > 0 \<longleftrightarrow> cs_terminal_count s > 0
     \<or> (\<exists>(i, c) \<in> set xs. in_scope prefix c \<and> mr_terminal_state c \<noteq> None)"
  by (induction xs arbitrary: s) (auto simp del: not_None_eq split: if_splits)

lemmas scan_results = scan_progress scan_heartbeat scan_label scan_counts

lemma snapshot_children:
  fixes prefix :: string
  assumes "registry_ok r"
  defines "live \<equiv> \<lambda>c. in_scope prefix c \<and> mr_terminal_state c = None"
  shows "cs_has_fresh_progress (fst (snapshot t prefix r)) \<longleftrightarrow> (\<exists>(i, c) \<in> set (cr_records r). live c \<and> progress_fresh r t c)"
    and "cs_has_fresh_heartbeat (fst (snapshot t prefix r)) \<longleftrightarrow> (\<exists>(i, c) \<in> set (cr_records r). live c \<and> heartbeat_fresh r t c)"
    and "cs_has_process (fst (snapshot t prefix r)) \<longleftrightarrow> has_fresh_child r t prefix"
    and "cs_active_count (fst (snapshot t prefix r)) > 0 \<longleftrightarrow> has_fresh_child r t prefix"
    and "cs_has_fresh_label (fst (snapshot t prefix r)) \<longleftrightarrow> (\<exists>(i, c) \<in> set (cr_records r). in_scope prefix c
       \<and> child_fresh r t c \<and> (t - mr_started_at c \<le> cr_stale_label_ttl r \<or> heartbeat_fresh r t c))"
proof -
  have p: "progress_fresh r t c \<Longrightarrow> mr_terminal_state c = None \<Longrightarrow> \<not> prunable r t c" for c
    by (auto simp: prunable_def progress_fresh_def split: option.splits)
  have h: "heartbeat_fresh r t c \<Longrightarrow> mr_terminal_state c = None \<Longrightarrow> \<not> prunable r t c" for c
    by (auto simp: prunable_def split: option.splits)
  note s = snapshot_def scan_results prune_records [OF assms(1)] no_children_def Let_def
  show "cs_has_fresh_progress (fst (snapshot t prefix r)) \<longleftrightarrow> (\<exists>(i, c) \<in> set (cr_records r). live c \<and> progress_fresh r t c)"
    using p by (auto simp: s live_def)
  show "cs_has_fresh_heartbeat (fst (snapshot t prefix r)) \<longleftrightarrow> (\<exists>(i, c) \<in> set (cr_records r). live c \<and> heartbeat_fresh r t c)"
    using h by (auto simp: s live_def)
  show "cs_has_process (fst (snapshot t prefix r)) \<longleftrightarrow> has_fresh_child r t prefix"
    by (auto simp: s has_fresh_child_def child_fresh_iff)
  show "cs_active_count (fst (snapshot t prefix r)) > 0 \<longleftrightarrow> has_fresh_child r t prefix"
    by (auto simp: s has_fresh_child_def child_fresh_iff)
  show "cs_has_fresh_label (fst (snapshot t prefix r)) \<longleftrightarrow> (\<exists>(i, c) \<in> set (cr_records r). in_scope prefix c
       \<and> child_fresh r t c \<and> (t - mr_started_at c \<le> cr_stale_label_ttl r \<or> heartbeat_fresh r t c))"
    by (auto simp: s child_fresh_iff)
qed

lemma registry_defers:
  assumes "registry_ok r"
  shows "cv_deferral_allowed (classify_child_snapshot (fst (snapshot t prefix r)) os) \<longleftrightarrow> has_fresh_child r t prefix"
proof -
  let ?s = "fst (snapshot t prefix r)"
  note s = snapshot_children [OF assms, of t prefix]
  have "cs_has_fresh_label ?s" if "has_fresh_child r t prefix" "\<not> cs_has_fresh_progress ?s" "\<not> cs_has_fresh_heartbeat ?s"
  proof -
    from that(1) obtain i c where c: "(i, c) \<in> set (cr_records r)" "in_scope prefix c" "child_fresh r t c"
      by (auto simp: has_fresh_child_def)
    moreover have "\<not> progress_fresh r t c" "\<not> heartbeat_fresh r t c"
      using that(2,3) s(1,2) c by (auto simp: child_fresh_def)
    ultimately show ?thesis using s(5) by (auto simp: child_fresh_def)
  qed
  moreover have "cs_has_fresh_progress ?s \<Longrightarrow> has_fresh_child r t prefix"
    using s(1) by (auto simp: has_fresh_child_def child_fresh_def)
  ultimately show ?thesis using s(3,4) by (auto simp: classify_child_snapshot_def)
qed

lemma registry_ops_ok:
  "registry_ok r \<Longrightarrow> registry_ok (register_child now i p pid ph r)"
  "registry_ok r \<Longrightarrow> registry_ok (record_heartbeat now i r)"
  "registry_ok r \<Longrightarrow> registry_ok (record_progress now i ph' r)"
  "registry_ok r \<Longrightarrow> registry_ok (record_terminal_ack now i st r)"
  "registry_ok r \<Longrightarrow> registry_ok (snd (snapshot now p r))"
  "registry_ok (make_child_registry a b c d)"
  using prune_ok by (auto simp: registry_ok_def register_child_def record_heartbeat_def record_progress_def record_terminal_ack_def
      update_child_def snapshot_def make_child_registry_def Let_def dict_set_distinct split: option.split)

text \<open>The registries a run can have: a new one, changed by any sequence of the operations, whatever the clock says.\<close>

inductive registry_reachable :: "ChildLivenessRegistry \<Rightarrow> bool" where
  created: "registry_reachable (make_child_registry progress heartbeat label reconcile)"
| registered: "registry_reachable r \<Longrightarrow> registry_reachable (register_child now i prefix pid phase r)"
| beat: "registry_reachable r \<Longrightarrow> registry_reachable (record_heartbeat now i r)"
| progressed: "registry_reachable r \<Longrightarrow> registry_reachable (record_progress now i phase' r)"
| acknowledged: "registry_reachable r \<Longrightarrow> registry_reachable (record_terminal_ack now i state r)"
| looked: "registry_reachable r \<Longrightarrow> registry_reachable (snd (snapshot now prefix r))"
| pruned: "registry_reachable r \<Longrightarrow> registry_reachable (snd (prune_stale now r))"

lemma reachable_ok: "registry_reachable r \<Longrightarrow> registry_ok r"
  by (induction rule: registry_reachable.induct) (auto intro: registry_ops_ok prune_ok)

text \<open>
  C21. A quiet agent is waited for on account of its registered children exactly when one of them in its scope is not known
  to have ended and has a recent heartbeat, recent progress, or neither progress so far nor an age over the limit for
  labels: in every registry that operations can produce, the verdict on the snapshot, which prunes first and then scans,
  agrees with this reading of the records. Descendants in the process table do not change it.\<close>

theorem registry_defers_iff_fresh:
  assumes "registry_reachable r"
  shows "cv_deferral_allowed (classify_child_snapshot (fst (snapshot now prefix r)) os) \<longleftrightarrow>
    (\<exists>(i, c) \<in> set (cr_records r). in_scope prefix c \<and> mr_terminal_state c = None
      \<and> (heartbeat_fresh r now c \<or> progress_fresh r now c
         \<or> mr_last_progress_at c = None \<and> now - mr_started_at c \<le> cr_stale_label_ttl r))"
  using registry_defers [OF reachable_ok [OF assms], of now prefix os] by (auto simp: has_fresh_child_def child_fresh_def)

theorem registry_defers_iff_fresh_witness:
  "(let r = record_progress 20 ''sub'' None (register_child 0 ''sub'' ''agent:dev:'' None ''running''
        (make_child_registry None None None None))
    in cv_deferral_allowed (classify_child_snapshot (fst (snapshot 50 ''agent:dev:'' r)) False)
       \<and> \<not> cv_deferral_allowed (classify_child_snapshot (fst (snapshot 70 ''agent:dev:'' r)) False))"
proof -
  let ?r = "record_progress 20 ''sub'' None (register_child 0 ''sub'' ''agent:dev:'' None ''running''
        (make_child_registry None None None None))"
  have r: "registry_reachable ?r" by (intro registry_reachable.intros)
  show ?thesis
    unfolding Let_def registry_defers_iff_fresh [OF r]
    by (simp add: record_progress_def update_child_def register_child_def make_child_registry_def
        in_scope_def heartbeat_fresh_def progress_fresh_def CHILD_PROGRESS_TTL_SECONDS_def
        CHILD_HEARTBEAT_TTL_SECONDS_def CHILD_STALE_LABEL_TTL_SECONDS_def)
qed

end
