(* ===== verification/Execution_State.thy ===== *)
theory Execution_State
  imports Child_Liveness
begin

text \<open>
  From evidence to a verdict on an agent: the execution strategies (\<^verbatim>\<open>agents/execution_state/\<close>), the completion signals
  (\<^verbatim>\<open>agents/completion_signals.py\<close>), the waits after the exit of a process (\<^verbatim>\<open>agents/idle_watchdog/_post_exit_watchdog.py\<close>,
  \<^verbatim>\<open>_watch_loop_base.py\<close>) and the check of an exited process (\<^verbatim>\<open>agents/invoke/_completion.py\<close>). What a look at the outside
  finds (processes, files, the database of completion sentinels, the clock) is a record; a wait is over the list of
  the looks it takes. HMACs are a parameter without laws.
\<close>

section \<open>Completion signals\<close>

datatype Provenance = ABSENT | HOST_SYNTHESIZED | TRANSCRIPT | WORKSPACE_EFFECT | WIRE

record Evidence =
  evd_holds :: bool
  evd_provenance :: Provenance

definition absent :: Evidence where "absent = \<lparr>evd_holds = False, evd_provenance = ABSENT\<rparr>"

record CompletionSignals =
  sg_explicit_complete :: bool
  sg_required_artifact_evidence :: Evidence
  sg_completion_sentinel_evidence :: Evidence
  sg_artifact_required :: bool
  sg_unsubmitted_draft_present :: bool

definition completion_signals_terminal :: "CompletionSignals \<Rightarrow> bool" where
  "completion_signals_terminal s =
     (if \<not> evd_holds (sg_completion_sentinel_evidence s) \<or> sg_unsubmitted_draft_present s then False
      else if sg_artifact_required s then evd_holds (sg_required_artifact_evidence s) else True)"

text \<open>
  What the database holds for a run: an error or no row, a row that was cleared, or a row with or without an HMAC. The
  legacy file is \<open>None\<close> when it cannot be read, else the \<^verbatim>\<open>hmac\<close> string in it, if there is one.
\<close>

datatype DbSentinel = Unknown | Cleared | Stored "string option"

record Files =
  fl_db :: DbSentinel
  fl_legacy :: "string option option"
  fl_receipt :: bool
  fl_fallback_promoted :: bool
  fl_draft_diverges :: bool
  fl_wire_declare :: bool
  fl_wire_artifact :: bool

record RequiredArtifact =
  ra_artifact_required :: bool

type_synonym hmac = "string \<Rightarrow> string \<Rightarrow> string"

definition check_legacy_file_sentinel :: "hmac \<Rightarrow> string \<Rightarrow> string option \<Rightarrow> Files \<Rightarrow> bool" where
  "check_legacy_file_sentinel mac run_id secret f =
     (case fl_legacy f of None \<Rightarrow> False
      | Some content \<Rightarrow> (case secret of None \<Rightarrow> True | Some key \<Rightarrow> content = Some (mac key run_id)))"

definition check_completion_sentinel :: "hmac \<Rightarrow> string option \<Rightarrow> string option \<Rightarrow> Files \<Rightarrow> bool" where
  "check_completion_sentinel mac run_id secret f =
     (case run_id of None \<Rightarrow> False
      | Some r \<Rightarrow> (case fl_db f of
          Stored v \<Rightarrow> (case secret of None \<Rightarrow> True | Some key \<Rightarrow> (case v of None \<Rightarrow> False | Some h \<Rightarrow> h = mac key r))
        | Cleared \<Rightarrow> False
        | Unknown \<Rightarrow> check_legacy_file_sentinel mac r secret f))"

definition is_artifact_submitted :: "Files \<Rightarrow> bool" where
  "is_artifact_submitted f = (if fl_receipt f then True else fl_fallback_promoted f)"

definition grade_completion_sentinel_evidence :: "bool \<Rightarrow> bool \<Rightarrow> string option \<Rightarrow> Files \<Rightarrow> Evidence" where
  "grade_completion_sentinel_evidence present host_synthesized secret f =
     (if \<not> present then absent
      else if host_synthesized then \<lparr>evd_holds = True, evd_provenance = HOST_SYNTHESIZED\<rparr>
      else if secret = None then \<lparr>evd_holds = True, evd_provenance = TRANSCRIPT\<rparr>
      else if fl_wire_declare f then \<lparr>evd_holds = True, evd_provenance = WIRE\<rparr>
      else \<lparr>evd_holds = True, evd_provenance = TRANSCRIPT\<rparr>)"

definition grade_artifact_submission_evidence :: "bool \<Rightarrow> Files \<Rightarrow> Evidence" where
  "grade_artifact_submission_evidence submitted f =
     (if \<not> submitted then absent
      else if fl_wire_artifact f then \<lparr>evd_holds = True, evd_provenance = WIRE\<rparr>
      else \<lparr>evd_holds = True, evd_provenance = WORKSPACE_EFFECT\<rparr>)"

definition EXPLICIT_COMPLETION_MARKER :: string where
  "EXPLICIT_COMPLETION_MARKER = ''Task declared complete:''"

definition extract_explicit_completion :: "string list \<Rightarrow> bool" where
  "extract_explicit_completion raw_output = list_ex (\<lambda>line. str_contains EXPLICIT_COMPLETION_MARKER line) raw_output"

definition evaluate_completion ::
  "hmac \<Rightarrow> string list \<Rightarrow> RequiredArtifact option \<Rightarrow> string option \<Rightarrow> string option \<Rightarrow> Files \<Rightarrow> CompletionSignals" where
  "evaluate_completion mac raw_output required run_id secret f =
     (let explicit = extract_explicit_completion raw_output;
          sentinel = (case run_id of None \<Rightarrow> absent
            | Some r \<Rightarrow> grade_completion_sentinel_evidence (check_completion_sentinel mac run_id secret f) False secret f)
      in case required of
        None \<Rightarrow> \<lparr>sg_explicit_complete = explicit, sg_required_artifact_evidence = absent,
            sg_completion_sentinel_evidence = sentinel, sg_artifact_required = False, sg_unsubmitted_draft_present = False\<rparr>
      | Some ra \<Rightarrow> \<lparr>sg_explicit_complete = explicit,
            sg_required_artifact_evidence = (case run_id of None \<Rightarrow> absent
              | Some r \<Rightarrow> grade_artifact_submission_evidence (is_artifact_submitted f) f),
            sg_completion_sentinel_evidence = sentinel, sg_artifact_required = ra_artifact_required ra,
            sg_unsubmitted_draft_present = fl_draft_diverges f\<rparr>)"

section \<open>Strategies\<close>

text \<open>
  The classes of strategies, by the methods they override: the generic one, the ones that enforce completion (Claude,
  Cursor, Kimi), AGY (which also asks for a reprompt), the interactive Claude and Pi sessions, which enforce it and
  continue sessions, and OpenCode.
\<close>

datatype StrategyClass = Generic | Enforcing | Agy | Claude_Interactive | Pi | Open_Code

record Strategy =
  st_class :: StrategyClass
  st_label_scope :: "string option"
  st_registry :: "ChildLivenessRegistry option"
  st_has_pid_source :: bool
  st_scoped_records_seen :: bool
  st_open_step_messages :: "string list"
  st_anonymous_open_steps :: nat

text \<open>
  A look at the outside, with the answer a handler assumes where a call raises. One look is one moment: where the check
  reads the sentinel twice in a row, both readings agree. \<^verbatim>\<open>invoke_agent\<close> always passes a liveness probe, so the probe is
  always asked.
\<close>

record Look =
  lk_now :: rat
  lk_labels :: labels
  lk_descendants :: bool
  lk_subagent_pids :: "int list"
  lk_files :: Files

definition supports_session_continuation :: "StrategyClass \<Rightarrow> bool" where
  "supports_session_continuation c = (c \<in> {Claude_Interactive, Pi, Open_Code})"

definition supports_completion_enforcement :: "StrategyClass \<Rightarrow> bool" where
  "supports_completion_enforcement c = (c \<in> {Enforcing, Agy, Claude_Interactive, Pi})"

definition supports_incomplete_exit_reprompt :: "StrategyClass \<Rightarrow> bool" where
  "supports_incomplete_exit_reprompt c = (c = Agy)"

definition AGENT_LABEL_PREFIX :: string where "AGENT_LABEL_PREFIX = ''agent:''"

definition active_label_prefix :: "Strategy \<Rightarrow> string option" where
  "active_label_prefix s = map_option (\<lambda>scope. AGENT_LABEL_PREFIX @ scope @ '':'') (st_label_scope s)"

definition scope_of :: "Strategy \<Rightarrow> string" where
  "scope_of s = (case active_label_prefix s of None \<Rightarrow> [] | Some p \<Rightarrow> p)"

definition os_descendant_state :: "Look \<Rightarrow> AgentExecutionState \<Rightarrow> AgentExecutionState" where
  "os_descendant_state k dflt = (if lk_descendants k then WAITING_ON_CHILD else dflt)"

definition base_classify_quiet :: "Look \<Rightarrow> Strategy \<Rightarrow> AgentExecutionState \<times> Strategy" where
  "base_classify_quiet k s =
     (case st_registry s of
        Some r \<Rightarrow> (case snapshot (lk_now k) [] r of (sn, r') \<Rightarrow>
          (if cs_active_count sn > 0 then WAITING_ON_CHILD else ACTIVE, s\<lparr>st_registry := Some r'\<rparr>))
      | None \<Rightarrow>
          if st_has_pid_source s then (if lk_subagent_pids k \<noteq> [] then WAITING_ON_CHILD else ACTIVE, s)
          else (os_descendant_state k ACTIVE, s))"

text \<open>The probe shares the registry of the strategy.\<close>

definition probe_check_quiet :: "Look \<Rightarrow> string \<Rightarrow> ChildLivenessRegistry option \<Rightarrow>
    (AgentExecutionState option \<times> bool) \<times> ChildLivenessRegistry option" where
  "probe_check_quiet k prefix reg =
     (case child_snapshot (lk_now k) (lk_labels k) prefix reg of (sn, reg') \<Rightarrow>
        (if cv_deferral_allowed (classify_child_snapshot sn False) then (Some WAITING_ON_CHILD, False)
         else (None, cs_has_process sn), reg'))"

definition open_step_count :: "Strategy \<Rightarrow> nat" where
  "open_step_count s = length (st_open_step_messages s) + st_anonymous_open_steps s"

definition opencode_registry_quiet :: "Look \<Rightarrow> Strategy \<Rightarrow> AgentExecutionState option \<times> Strategy" where
  "opencode_registry_quiet k s =
     (case st_registry s of
        None \<Rightarrow> (None, s)
      | Some r \<Rightarrow>
          (let prefix = scope_of s;
               had_scoped_records = has_records prefix r;
               s1 = (if had_scoped_records then s\<lparr>st_scoped_records_seen := True\<rparr> else s);
               running = has_active_phase (lk_now k) prefix ''running'' r;
               (sn, r1) = snapshot (lk_now k) prefix r
           in if running \<and> cv_deferral_allowed (classify_child_snapshot sn False)
              then (Some WAITING_ON_CHILD, s1\<lparr>st_registry := Some r1\<rparr>)
              else (let (sn', r2) = snapshot (lk_now k) prefix (if running then r1 else r);
                        verdict = classify_child_snapshot sn' False
                    in (if cv_all_children_terminal verdict \<or> \<not> cv_deferral_allowed verdict \<and> had_scoped_records
                        then Some ACTIVE
                        else if cv_deferral_allowed verdict then Some WAITING_ON_CHILD else None,
                        s1\<lparr>st_registry := Some r2\<rparr>))))"

definition opencode_classify_quiet :: "Look \<Rightarrow> Strategy \<Rightarrow> AgentExecutionState \<times> Strategy" where
  "opencode_classify_quiet k s =
     (if open_step_count s > 0 then (WAITING_ON_CHILD, s)
      else (case opencode_registry_quiet k s of
          (Some state, s1) \<Rightarrow> (state, s1)
        | (None, s1) \<Rightarrow>
            (case probe_check_quiet k (scope_of s1) (st_registry s1) of ((state, stale), reg) \<Rightarrow>
               (let s2 = s1\<lparr>st_registry := reg\<rparr>
                in case state of Some x \<Rightarrow> (x, s2)
                   | None \<Rightarrow> (if stale \<or> st_scoped_records_seen s2 then ACTIVE else os_descendant_state k ACTIVE, s2)))))"

definition classify_quiet :: "Look \<Rightarrow> Strategy \<Rightarrow> AgentExecutionState \<times> Strategy" where
  "classify_quiet k s =
     (case st_class s of Claude_Interactive \<Rightarrow> (ACTIVE, s) | Open_Code \<Rightarrow> opencode_classify_quiet k s
      | _ \<Rightarrow> base_classify_quiet k s)"

text \<open>Classification of an exit.\<close>

definition registry_check_for_exit :: "Look \<Rightarrow> string \<Rightarrow> ChildLivenessRegistry \<Rightarrow>
    (AgentExecutionState option \<times> bool) \<times> ChildLivenessRegistry" where
  "registry_check_for_exit k prefix r =
     (let had_scoped_records = has_records prefix r; (sn, r') = snapshot (lk_now k) prefix r;
          verdict = classify_child_snapshot sn False
      in (if cv_all_children_terminal verdict then (None, had_scoped_records)
          else if cv_deferral_allowed verdict then (Some WAITING_ON_CHILD, False)
          else (None, had_scoped_records), r'))"

definition evidence_precedence :: "Look \<Rightarrow> CompletionSignals \<Rightarrow> Strategy \<Rightarrow> AgentExecutionState \<times> Strategy" where
  "evidence_precedence k signals s =
     (if completion_signals_terminal signals then (TERMINAL_COMPLETE, s)
      else (let ((state, stale), reg) = (case st_registry s of None \<Rightarrow> ((None, False), None)
              | Some r \<Rightarrow> (case registry_check_for_exit k (scope_of s) r of (v, r') \<Rightarrow> (v, Some r')))
            in case state of Some x \<Rightarrow> (x, s\<lparr>st_registry := reg\<rparr>)
               | None \<Rightarrow>
                   (let ((state', stale'), reg') = probe_check_quiet k (scope_of s) reg; s' = s\<lparr>st_registry := reg'\<rparr>
                    in case state' of Some x \<Rightarrow> (x, s')
                       | None \<Rightarrow> (if st_scoped_records_seen s \<or> stale \<or> stale' then RESUMABLE_CONTINUE
                                  else os_descendant_state k RESUMABLE_CONTINUE, s'))))"

definition classify_exit :: "Look \<Rightarrow> CompletionSignals \<Rightarrow> Strategy \<Rightarrow> AgentExecutionState \<times> Strategy" where
  "classify_exit k signals s =
     (case st_class s of
        Generic \<Rightarrow> (TERMINAL_COMPLETE, s)
      | Open_Code \<Rightarrow> evidence_precedence k signals s
      | _ \<Rightarrow> (if completion_signals_terminal signals then TERMINAL_COMPLETE else RESUMABLE_CONTINUE, s))"

section \<open>Waiting after the exit\<close>

datatype PostExitVerdict =
    PostExit_CONTINUE | FIRE_PROCESS_EXIT_HANG | SIGNALS_PRESENT | CHILDREN_ACTIVE | QUIESCED_NO_SIGNALS | FIRE_DESCENDANT_HANG

text \<open>
  A wait is a reading of the clock and what the look after it finds. \<open>None\<close> means that the list of waits is used up and
  the loop still runs; else the predicate answered, or the deadline passed and the last look is left for the caller.
\<close>

type_synonym waits = "(rat \<times> Look) list"

fun wait_loop :: "(Look \<Rightarrow> 's \<Rightarrow> 'a option \<times> 's) \<Rightarrow> rat \<Rightarrow> 's \<Rightarrow> waits \<Rightarrow> (('a + Look) \<times> 's) option" where
  "wait_loop predicate deadline s [] = None"
| "wait_loop predicate deadline s ((now, k) # ws) =
     (if now \<ge> deadline then Some (Inr k, s)
      else (case predicate k s of (Some x, s') \<Rightarrow> Some (Inl x, s') | (None, s') \<Rightarrow> wait_loop predicate deadline s' ws))"

record WaitRun =
  wr_start :: rat
  wr_first :: Look
  wr_waits :: waits

definition wait_until :: "(Look \<Rightarrow> 's \<Rightarrow> 'a option \<times> 's) \<Rightarrow> rat \<Rightarrow> 's \<Rightarrow> WaitRun \<Rightarrow> (('a + Look) \<times> 's) option" where
  "wait_until predicate timeout s w =
     (let deadline = wr_start w + timeout
      in case predicate (wr_first w) s of (Some x, s') \<Rightarrow> Some (Inl x, s') | (None, s') \<Rightarrow> wait_loop predicate deadline s' (wr_waits w))"

definition wait_for_process_exit :: "TimeoutPolicy \<Rightarrow> (Look \<Rightarrow> bool) \<Rightarrow> WaitRun \<Rightarrow> PostExitVerdict option" where
  "wait_for_process_exit p exited w =
     (case wait_until (\<lambda>k s. (if exited k then Some PostExit_CONTINUE else None, s)) (tp_process_exit_wait p) () w of
        None \<Rightarrow> None
      | Some (Inl v, s) \<Rightarrow> Some PostExit_CONTINUE
      | Some (Inr k, s) \<Rightarrow> Some FIRE_PROCESS_EXIT_HANG)"

definition classify_parent_exit_grace :: "AgentExecutionState \<Rightarrow> PostExitVerdict option" where
  "classify_parent_exit_grace state = (case state of TERMINAL_COMPLETE \<Rightarrow> Some SIGNALS_PRESENT
     | WAITING_ON_CHILD \<Rightarrow> Some CHILDREN_ACTIVE | _ \<Rightarrow> None)"

definition classify_descendant_quiesce :: "AgentExecutionState \<Rightarrow> PostExitVerdict option" where
  "classify_descendant_quiesce state = (case state of TERMINAL_COMPLETE \<Rightarrow> Some SIGNALS_PRESENT
     | RESUMABLE_CONTINUE \<Rightarrow> Some QUIESCED_NO_SIGNALS | _ \<Rightarrow> None)"

type_synonym exit_state = "Look \<Rightarrow> Strategy \<Rightarrow> AgentExecutionState \<times> Strategy"

definition wait_parent_exit_grace ::
  "TimeoutPolicy \<Rightarrow> exit_state \<Rightarrow> Strategy \<Rightarrow> WaitRun \<Rightarrow> (PostExitVerdict \<times> Strategy) option" where
  "wait_parent_exit_grace p classify s w =
     (case wait_until (\<lambda>k s. case classify k s of (state, s') \<Rightarrow> (classify_parent_exit_grace state, s'))
         (tp_parent_exit_grace p) s w of
        None \<Rightarrow> None
      | Some (Inl v, s') \<Rightarrow> Some (v, s')
      | Some (Inr k, s') \<Rightarrow> (case classify k s' of (state, s'') \<Rightarrow>
          Some (if state = TERMINAL_COMPLETE then SIGNALS_PRESENT
                else if state = WAITING_ON_CHILD then CHILDREN_ACTIVE else QUIESCED_NO_SIGNALS, s'')))"

definition wait_descendant_quiesce ::
  "TimeoutPolicy \<Rightarrow> exit_state \<Rightarrow> Strategy \<Rightarrow> WaitRun \<Rightarrow> (PostExitVerdict \<times> Strategy) option" where
  "wait_descendant_quiesce p classify s w =
     (case wait_until (\<lambda>k s. case classify k s of (state, s') \<Rightarrow> (classify_descendant_quiesce state, s'))
         (tp_descendant_wait_timeout p) s w of
        None \<Rightarrow> None
      | Some (Inl v, s') \<Rightarrow> Some (v, s')
      | Some (Inr k, s') \<Rightarrow> (case classify k s' of (state, s'') \<Rightarrow>
          Some (if state = TERMINAL_COMPLETE then SIGNALS_PRESENT
                else if state = WAITING_ON_CHILD then FIRE_DESCENDANT_HANG else QUIESCED_NO_SIGNALS, s'')))"

section \<open>The check of an exited process\<close>

record CompletionCheckOptions =
  ck_strategy :: "Strategy option"
  ck_workspace :: bool
  ck_policy :: TimeoutPolicy
  ck_required_artifact :: "RequiredArtifact option"
  ck_requires_completion_evidence :: bool
  ck_explicit_completion_seen :: bool
  ck_captured_session_id :: "string option"
  ck_completion_run_id :: "string option"
  ck_elapsed_seconds :: "rat option"
  ck_has_meaningful_output :: "bool option"
  ck_sentinel_secret :: "string option"
  ck_activity_only_supervision :: bool

text \<open>What the exited process left: its code, its output, and what the scans of output and error stream say.\<close>

record Exited =
  ex_returncode :: int
  ex_output :: "string list"
  ex_stderr_credentials :: bool
  ex_output_credentials :: bool
  ex_structurally_small :: bool
  ex_only_prompt_echo :: bool
  ex_session_id :: "string option"
  ex_context_exhausted :: bool
  ex_provider_failure :: "string option"

datatype ExitError =
    BrokenAgentExitError string | AgentInvocationError int | PiContextExhaustedExitError | PiProviderFailureExitError string
  | OpenCodeResumableExitError "string option" | AgyIncompleteExitError

definition BROKEN_AGENT_OUTPUT_GRACE_SECONDS :: rat where "BROKEN_AGENT_OUTPUT_GRACE_SECONDS = 12"

definition completion_run_id :: "CompletionCheckOptions \<Rightarrow> string option" where
  "completion_run_id o' = (case ck_completion_run_id o' of Some r \<Rightarrow> if r = [] then ck_captured_session_id o' else Some r
     | None \<Rightarrow> ck_captured_session_id o')"

definition bounded_output_lines :: "string list \<Rightarrow> bool \<Rightarrow> string list" where
  "bounded_output_lines raw_output explicit_completion_seen =
     (if explicit_completion_seen \<and> \<not> extract_explicit_completion raw_output
      then raw_output @ [EXPLICIT_COMPLETION_MARKER] else raw_output)"

definition eval_signals :: "hmac \<Rightarrow> CompletionCheckOptions \<Rightarrow> string list \<Rightarrow> Look \<Rightarrow> CompletionSignals" where
  "eval_signals mac o' out k =
     evaluate_completion mac out (ck_required_artifact o') (completion_run_id o') (ck_sentinel_secret o') (lk_files k)"

definition apply_sentinel_signal :: "hmac \<Rightarrow> CompletionCheckOptions \<Rightarrow> Look \<Rightarrow> CompletionSignals \<Rightarrow> CompletionSignals" where
  "apply_sentinel_signal mac o' k signals =
     (if check_completion_sentinel mac (completion_run_id o') (ck_sentinel_secret o') (lk_files k)
      then signals\<lparr>sg_explicit_complete := True,
             sg_completion_sentinel_evidence := \<lparr>evd_holds = True, evd_provenance = WORKSPACE_EFFECT\<rparr>\<rparr>
      else if \<not> sg_explicit_complete signals
      then signals\<lparr>sg_explicit_complete := False, sg_completion_sentinel_evidence := absent\<rparr>
      else signals)"

definition exit_state_now :: "hmac \<Rightarrow> CompletionCheckOptions \<Rightarrow> string list \<Rightarrow> exit_state" where
  "exit_state_now mac o' out k s =
     classify_exit k (eval_signals mac o' (bounded_output_lines out (ck_explicit_completion_seen o')) k) s"

definition wait_for_completion_grace ::
  "hmac \<Rightarrow> CompletionCheckOptions \<Rightarrow> string list \<Rightarrow> Strategy \<Rightarrow> WaitRun \<Rightarrow> (AgentExecutionState \<times> Strategy) option" where
  "wait_for_completion_grace mac o' out s w =
     map_option (\<lambda>(v, s'). (if v = SIGNALS_PRESENT then TERMINAL_COMPLETE
         else if v = CHILDREN_ACTIVE then WAITING_ON_CHILD else RESUMABLE_CONTINUE, s'))
       (wait_parent_exit_grace (ck_policy o') (exit_state_now mac o' out) s w)"

definition wait_for_descendants_then_recheck ::
  "hmac \<Rightarrow> CompletionCheckOptions \<Rightarrow> string list \<Rightarrow> Strategy \<Rightarrow> WaitRun \<Rightarrow> (AgentExecutionState \<times> Strategy) option" where
  "wait_for_descendants_then_recheck mac o' out s w =
     map_option (\<lambda>(v, s'). (if v = SIGNALS_PRESENT then TERMINAL_COMPLETE else RESUMABLE_CONTINUE, s'))
       (wait_descendant_quiesce (ck_policy o') (exit_state_now mac o' out) s w)"

definition broken_agent_exit :: "Exited \<Rightarrow> string list \<Rightarrow> CompletionCheckOptions \<Rightarrow> ExitError option" where
  "broken_agent_exit x out o' =
     (if (ex_stderr_credentials x \<or> ex_output_credentials x) \<and> (out = [] \<or> ex_structurally_small x)
      then Some (BrokenAgentExitError ''no_output'')
      else if out \<noteq> [] \<and> ck_has_meaningful_output o' = Some False \<and> ex_structurally_small x
      then Some (BrokenAgentExitError ''no_llm_activity'')
      else if ck_elapsed_seconds o' \<noteq> None \<and> out = [] then Some (BrokenAgentExitError ''no_output'')
      else if ex_only_prompt_echo x then Some (BrokenAgentExitError ''prompt_echo'')
      else None)"

definition resumable_exit_error :: "Exited \<Rightarrow> string list \<Rightarrow> CompletionCheckOptions \<Rightarrow> ExitError" where
  "resumable_exit_error x out o' =
     (case broken_agent_exit x out o' of Some e \<Rightarrow> e
      | None \<Rightarrow>
          if ex_context_exhausted x then PiContextExhaustedExitError
          else (case ex_provider_failure x of Some r \<Rightarrow> PiProviderFailureExitError r
            | None \<Rightarrow> OpenCodeResumableExitError
                (case ck_captured_session_id o' of Some i \<Rightarrow> if i = [] then ex_session_id x else Some i | None \<Rightarrow> ex_session_id x)))"

definition first_exit_state :: "hmac \<Rightarrow> CompletionCheckOptions \<Rightarrow> string list \<Rightarrow> exit_state" where
  "first_exit_state mac o' out k s = classify_exit k (apply_sentinel_signal mac o' k (eval_signals mac o' out k)) s"

text \<open>\<open>None\<close> while a wait is not over; else the error that is raised, if any.\<close>

definition check_process_result ::
  "hmac \<Rightarrow> Exited \<Rightarrow> CompletionCheckOptions option \<Rightarrow> Look \<Rightarrow> WaitRun \<Rightarrow> WaitRun \<Rightarrow> ExitError option option" where
  "check_process_result mac x options k grace quiesce =
     (if ex_returncode x \<noteq> 0 then
        Some (Some (if ex_stderr_credentials x
              \<and> (case options of None \<Rightarrow> True | Some o' \<Rightarrow> (case ck_elapsed_seconds o' of None \<Rightarrow> True
                   | Some e \<Rightarrow> e < BROKEN_AGENT_OUTPUT_GRACE_SECONDS))
            then BrokenAgentExitError ''no_output'' else AgentInvocationError (ex_returncode x)))
      else (case options of
          None \<Rightarrow> Some None
        | Some o' \<Rightarrow>
            if \<not> ck_requires_completion_evidence o' then Some None
            else (case ck_strategy o' of
                None \<Rightarrow> Some None
              | Some s \<Rightarrow>
                  (let out = bounded_output_lines (ex_output x) (ck_explicit_completion_seen o') in
                   if supports_session_continuation (st_class s) \<and> ck_workspace o' then
                     (case first_exit_state mac o' out k s of (st0, s0) \<Rightarrow>
                      case (if st0 = RESUMABLE_CONTINUE \<and> \<not> ck_activity_only_supervision o'
                            then wait_for_completion_grace mac o' out s0 grace else Some (st0, s0)) of
                        None \<Rightarrow> None
                      | Some (st1, s1) \<Rightarrow>
                          (case (if st1 = WAITING_ON_CHILD \<and> \<not> ck_activity_only_supervision o'
                                 then wait_for_descendants_then_recheck mac o' out s1 quiesce else Some (st1, s1)) of
                             None \<Rightarrow> None
                           | Some (st2, s2) \<Rightarrow>
                               Some (if st2 = RESUMABLE_CONTINUE then Some (resumable_exit_error x out o') else None)))
                   else if supports_completion_enforcement (st_class s) \<and> ck_workspace o' then
                     (case first_exit_state mac o' out k s of (st0, s0) \<Rightarrow>
                        Some (if st0 = RESUMABLE_CONTINUE
                              then Some (if supports_incomplete_exit_reprompt (st_class s) then AgyIncompleteExitError
                                         else AgentInvocationError 0)
                              else None))
                   else Some None))))"

section \<open>Completion means evidence\<close>

text \<open>The evidence of one look: a valid sentinel for the run, no draft left behind, and the artifact where one is due.\<close>

definition complete_look :: "hmac \<Rightarrow> CompletionCheckOptions \<Rightarrow> Look \<Rightarrow> bool" where
  "complete_look mac o' k \<longleftrightarrow> check_completion_sentinel mac (completion_run_id o') (ck_sentinel_secret o') (lk_files k)
     \<and> (case ck_required_artifact o' of None \<Rightarrow> True
        | Some ra \<Rightarrow> \<not> fl_draft_diverges (lk_files k) \<and> (ra_artifact_required ra \<longrightarrow> is_artifact_submitted (lk_files k)))"

text \<open>With a secret, a sentinel counts only when it carries the HMAC of the run, and a cleared one never does.\<close>

lemma sentinel_authentic:
  "check_completion_sentinel mac run (Some key) f \<longleftrightarrow> (\<exists>r. run = Some r
     \<and> (fl_db f = Stored (Some (mac key r)) \<or> fl_db f = Unknown \<and> fl_legacy f = Some (Some (mac key r))))"
  by (auto simp: check_completion_sentinel_def check_legacy_file_sentinel_def split: option.splits DbSentinel.splits)

lemma grade_holds [simp]:
  "evd_holds (grade_completion_sentinel_evidence present synth secret f) = present"
  "evd_holds (grade_artifact_submission_evidence submitted f) = submitted" "\<not> evd_holds absent"
  by (simp_all add: grade_completion_sentinel_evidence_def grade_artifact_submission_evidence_def absent_def)

lemma no_run_no_sentinel: "\<not> check_completion_sentinel mac None secret f"
  by (simp add: check_completion_sentinel_def)

lemma terminal_iff: "completion_signals_terminal (eval_signals mac o' out k) \<longleftrightarrow> complete_look mac o' k"
  by (cases "completion_run_id o'"; cases "ck_required_artifact o'")
    (auto simp: completion_signals_terminal_def eval_signals_def evaluate_completion_def complete_look_def no_run_no_sentinel)

lemma terminal_applied_iff:
  "completion_signals_terminal (apply_sentinel_signal mac o' k (eval_signals mac o' out k)) \<longleftrightarrow> complete_look mac o' k"
proof (cases "check_completion_sentinel mac (completion_run_id o') (ck_sentinel_secret o') (lk_files k)")
  case True
  then show ?thesis
    by (cases "completion_run_id o'"; cases "ck_required_artifact o'")
      (auto simp: completion_signals_terminal_def apply_sentinel_signal_def eval_signals_def evaluate_completion_def
        complete_look_def no_run_no_sentinel)
next
  case False
  then have "\<not> complete_look mac o' k" by (simp add: complete_look_def)
  with False show ?thesis
    using terminal_iff [of mac o' out k] by (simp add: apply_sentinel_signal_def) (simp add: completion_signals_terminal_def)
qed

lemma precedence_terminal: "fst (evidence_precedence k sg s) = TERMINAL_COMPLETE \<longleftrightarrow> completion_signals_terminal sg"
  by (auto simp: evidence_precedence_def registry_check_for_exit_def probe_check_quiet_def os_descendant_state_def Let_def
      split: option.splits prod.splits if_splits)

lemma exit_terminal:
  "st_class s \<noteq> Generic \<Longrightarrow> fst (classify_exit k sg s) = TERMINAL_COMPLETE \<longleftrightarrow> completion_signals_terminal sg"
  by (cases "st_class s") (simp_all add: classify_exit_def precedence_terminal)

lemma precedence_class: "st_class (snd (evidence_precedence k sg s)) = st_class s"
  by (auto simp: evidence_precedence_def Let_def split: option.splits prod.splits if_splits)

lemma exit_class [simp]: "st_class (snd (classify_exit k sg s)) = st_class s"
  by (simp add: classify_exit_def precedence_class split: StrategyClass.split)

section \<open>What a poll loop returns\<close>

text \<open>
  The contract of a poll: the predicate keeps an invariant of the state it threads, and an answer has a meaning. The
  loop then keeps the invariant, and what it answers has been found by one of its looks.
\<close>

definition looks :: "WaitRun \<Rightarrow> Look set" where
  "looks w = insert (wr_first w) (snd ` set (wr_waits w))"

locale polling =
  fixes predicate :: "Look \<Rightarrow> 's \<Rightarrow> 'a option \<times> 's" and inv :: "'s \<Rightarrow> bool" and means :: "Look \<Rightarrow> 'a \<Rightarrow> bool"
  assumes keeps: "inv s \<Longrightarrow> inv (snd (predicate k s))"
    and found: "inv s \<Longrightarrow> fst (predicate k s) = Some x \<Longrightarrow> means k x"
begin

lemma loop_sound:
  "inv s \<Longrightarrow> wait_loop predicate deadline s ws = Some (r, s') \<Longrightarrow>
   inv s' \<and> (case r of Inl x \<Rightarrow> \<exists>k \<in> snd ` set ws. means k x | Inr k \<Rightarrow> k \<in> snd ` set ws)"
proof (induction ws arbitrary: s)
  case (Cons e ws)
  obtain now k where e: "e = (now, k)" by fastforce
  obtain a s1 where a: "predicate k s = (a, s1)" by fastforce
  have s1: "inv s1" using keeps [OF Cons.prems(1), of k] a by simp
  show ?case
  proof (cases "now \<ge> deadline")
    case False
    show ?thesis
    proof (cases a)
      case None
      then have "wait_loop predicate deadline s1 ws = Some (r, s')" using Cons.prems(2) False a e by simp
      from Cons.IH [OF s1 this] show ?thesis by (cases r) auto
    next
      case (Some x)
      then have "means k x" using found [OF Cons.prems(1), of k x] a by simp
      then show ?thesis using Cons.prems(2) False a e Some s1 by auto
    qed
  qed (use Cons.prems e in auto)
qed simp

lemma until_sound:
  assumes "inv s" and "wait_until predicate timeout s w = Some (r, s')"
  shows "inv s' \<and> (case r of Inl x \<Rightarrow> \<exists>k \<in> looks w. means k x | Inr k \<Rightarrow> k \<in> looks w)"
proof -
  obtain a s1 where a: "predicate (wr_first w) s = (a, s1)" by fastforce
  have s1: "inv s1" using keeps [OF assms(1), of "wr_first w"] a by simp
  show ?thesis
  proof (cases a)
    case None
    then show ?thesis using loop_sound [OF s1, of "wr_start w + timeout" "wr_waits w" r s'] assms(2) a
      by (cases r) (auto simp: wait_until_def looks_def Let_def)
  next
    case (Some x)
    then have "means (wr_first w) x" using found [OF assms(1), of "wr_first w" x] a by simp
    then show ?thesis using assms(2) a Some s1 by (auto simp: wait_until_def looks_def Let_def)
  qed
qed

end

definition continuing :: "Strategy \<Rightarrow> bool" where
  "continuing s \<longleftrightarrow> st_class s \<noteq> Generic"

lemma state_now_terminal:
  "continuing s \<Longrightarrow> fst (exit_state_now mac o' out k s) = TERMINAL_COMPLETE \<longleftrightarrow> complete_look mac o' k"
  by (simp add: exit_state_now_def exit_terminal terminal_iff continuing_def)

lemma state_now_continuing: "continuing (snd (exit_state_now mac o' out k s)) = continuing s"
  by (simp add: exit_state_now_def continuing_def)

text \<open>An answer of the two waits for signals means that a look was complete.\<close>

definition signals_mean :: "hmac \<Rightarrow> CompletionCheckOptions \<Rightarrow> Look \<Rightarrow> PostExitVerdict \<Rightarrow> bool" where
  "signals_mean mac o' k v \<longleftrightarrow> (v = SIGNALS_PRESENT \<longrightarrow> complete_look mac o' k)"

interpretation grace: polling
  "\<lambda>k s. case exit_state_now mac o' out k s of (state, s') \<Rightarrow> (classify_parent_exit_grace state, s')" continuing "signals_mean mac o'"
  for mac o' out
proof unfold_locales
  show "continuing s \<Longrightarrow> continuing (snd (case exit_state_now mac o' out k s of (state, s') \<Rightarrow> (classify_parent_exit_grace state, s')))" for s k
    using state_now_continuing [of mac o' out k s] by (simp add: split_def)
  show "signals_mean mac o' k v" if "continuing s"
    "fst (case exit_state_now mac o' out k s of (state, s') \<Rightarrow> (classify_parent_exit_grace state, s')) = Some v" for s k v
    using that state_now_terminal [of s mac o' out k]
    by (auto simp: signals_mean_def classify_parent_exit_grace_def split_def split: AgentExecutionState.splits)
qed

interpretation quiesce: polling
  "\<lambda>k s. case exit_state_now mac o' out k s of (state, s') \<Rightarrow> (classify_descendant_quiesce state, s')" continuing "signals_mean mac o'"
  for mac o' out
proof unfold_locales
  show "continuing s \<Longrightarrow> continuing (snd (case exit_state_now mac o' out k s of (state, s') \<Rightarrow> (classify_descendant_quiesce state, s')))" for s k
    using state_now_continuing [of mac o' out k s] by (simp add: split_def)
  show "signals_mean mac o' k v" if "continuing s"
    "fst (case exit_state_now mac o' out k s of (state, s') \<Rightarrow> (classify_descendant_quiesce state, s')) = Some v" for s k v
    using that state_now_terminal [of s mac o' out k]
    by (auto simp: signals_mean_def classify_descendant_quiesce_def split_def split: AgentExecutionState.splits)
qed

end
