(* ===== verification/Process_Exit.thy ===== *)
theory Process_Exit
  imports Execution_State
begin

text \<open>
  What the check of an exited process guarantees: an exit is accepted only with evidence of completion, the check ends
  when the clock advances by what the waits ask for, and what supervision by activity alone leaves unchecked.
\<close>

section \<open>Accepted exits\<close>

lemma grace_outcome:
  assumes "continuing s" and "wait_parent_exit_grace p (exit_state_now mac o' out) s w = Some (v, s')"
  shows "continuing s' \<and> (v = SIGNALS_PRESENT \<longrightarrow> (\<exists>k \<in> looks w. complete_look mac o' k))"
proof -
  obtain r s1 where r: "wait_until (\<lambda>k s. case exit_state_now mac o' out k s of (state, s') \<Rightarrow> (classify_parent_exit_grace state, s'))
      (tp_parent_exit_grace p) s w = Some (r, s1)"
    using assms(2) by (auto simp: wait_parent_exit_grace_def split: option.splits)
  note u = grace.until_sound [OF assms(1) r]
  show ?thesis
  proof (cases r)
    case (Inl v')
    then show ?thesis using u r assms(2) by (auto simp: wait_parent_exit_grace_def signals_mean_def)
  next
    case (Inr k)
    obtain state s2 where k: "exit_state_now mac o' out k s1 = (state, s2)" by fastforce
    then have "s' = s2" "v = SIGNALS_PRESENT \<longrightarrow> state = TERMINAL_COMPLETE"
      using Inr r assms(2) by (simp_all add: wait_parent_exit_grace_def split: if_splits)
    then show ?thesis
      using Inr u k state_now_terminal [of s1 mac o' out k] state_now_continuing [of mac o' out k s1] by auto
  qed
qed

lemma quiesce_outcome:
  assumes "continuing s" and "wait_descendant_quiesce p (exit_state_now mac o' out) s w = Some (v, s')"
  shows "continuing s' \<and> (v = SIGNALS_PRESENT \<longrightarrow> (\<exists>k \<in> looks w. complete_look mac o' k))"
proof -
  obtain r s1 where r: "wait_until (\<lambda>k s. case exit_state_now mac o' out k s of (state, s') \<Rightarrow> (classify_descendant_quiesce state, s'))
      (tp_descendant_wait_timeout p) s w = Some (r, s1)"
    using assms(2) by (auto simp: wait_descendant_quiesce_def split: option.splits)
  note u = quiesce.until_sound [OF assms(1) r]
  show ?thesis
  proof (cases r)
    case (Inl v')
    then show ?thesis using u r assms(2) by (auto simp: wait_descendant_quiesce_def signals_mean_def)
  next
    case (Inr k)
    obtain state s2 where k: "exit_state_now mac o' out k s1 = (state, s2)" by fastforce
    then have "s' = s2" "v = SIGNALS_PRESENT \<longrightarrow> state = TERMINAL_COMPLETE"
      using Inr r assms(2) by (simp_all add: wait_descendant_quiesce_def split: if_splits)
    then show ?thesis
      using Inr u k state_now_terminal [of s1 mac o' out k] state_now_continuing [of mac o' out k s1] by auto
  qed
qed

lemma completion_grace_outcome:
  assumes "continuing s" and "wait_for_completion_grace mac o' out s w = Some (state, s')"
  shows "continuing s'" "state = TERMINAL_COMPLETE \<Longrightarrow> \<exists>k \<in> looks w. complete_look mac o' k" "state \<noteq> ACTIVE"
  using assms grace_outcome [of s "ck_policy o'" mac o' out w]
  by (auto simp: wait_for_completion_grace_def split: if_splits)

lemma recheck_outcome:
  assumes "continuing s" and "wait_for_descendants_then_recheck mac o' out s w = Some (state, s')"
  shows "state = TERMINAL_COMPLETE \<Longrightarrow> \<exists>k \<in> looks w. complete_look mac o' k" "state \<in> {TERMINAL_COMPLETE, RESUMABLE_CONTINUE}"
  using assms quiesce_outcome [of s "ck_policy o'" mac o' out w]
  by (auto simp: wait_for_descendants_then_recheck_def split: if_splits)

lemma first_terminal:
  "continuing s \<Longrightarrow> fst (first_exit_state mac o' out k s) = TERMINAL_COMPLETE \<longleftrightarrow> complete_look mac o' k"
  by (simp add: first_exit_state_def exit_terminal terminal_applied_iff continuing_def)

lemma first_continuing: "continuing (snd (first_exit_state mac o' out k s)) = continuing s"
  by (simp add: first_exit_state_def continuing_def)

lemma precedence_states: "fst (evidence_precedence k sg s) \<noteq> ACTIVE"
  by (auto simp: evidence_precedence_def registry_check_for_exit_def probe_check_quiet_def os_descendant_state_def Let_def
      split: option.splits prod.splits if_splits)

lemma first_not_active: "fst (first_exit_state mac o' out k s) \<noteq> ACTIVE"
  by (simp add: first_exit_state_def classify_exit_def precedence_states split: StrategyClass.split)

text \<open>A session that owes evidence: it opted in, has a workspace, and runs under a strategy that reads evidence.\<close>

definition owes_evidence :: "CompletionCheckOptions \<Rightarrow> Strategy \<Rightarrow> bool" where
  "owes_evidence o' s \<longleftrightarrow> ck_requires_completion_evidence o' \<and> ck_workspace o' \<and> ck_strategy o' = Some s \<and> st_class s \<noteq> Generic"

lemma owes_supports:
  "owes_evidence o' s \<Longrightarrow> \<not> supports_session_continuation (st_class s) \<Longrightarrow> supports_completion_enforcement (st_class s)"
  by (cases "st_class s") (simp_all add: owes_evidence_def supports_session_continuation_def supports_completion_enforcement_def)

lemma enforced_accepted:
  assumes "owes_evidence o' s" "\<not> supports_session_continuation (st_class s)"
    and "check_process_result mac x (Some o') k grace quiesce = Some None"
  shows "ex_returncode x = 0 \<and> fst (first_exit_state mac o' (bounded_output_lines (ex_output x) (ck_explicit_completion_seen o')) k s) = TERMINAL_COMPLETE"
proof -
  let ?out = "bounded_output_lines (ex_output x) (ck_explicit_completion_seen o')"
  obtain st0 s0 where f: "first_exit_state mac o' ?out k s = (st0, s0)" by fastforce
  have "st0 \<in> {TERMINAL_COMPLETE, RESUMABLE_CONTINUE}"
    using f assms(2) by (cases "st_class s")
      (auto simp: first_exit_state_def classify_exit_def supports_session_continuation_def split: if_splits)
  then show ?thesis
    using assms owes_supports [OF assms(1,2)] f
    by (auto simp: check_process_result_def owes_evidence_def split: if_splits)
qed

lemma continued_shape:
  assumes "owes_evidence o' s" "supports_session_continuation (st_class s)" "\<not> ck_activity_only_supervision o'"
    and "ex_returncode x = 0"
  defines "out \<equiv> bounded_output_lines (ex_output x) (ck_explicit_completion_seen o')"
  shows "check_process_result mac x (Some o') k grace quiesce =
    Option.bind (let (st0, s0) = first_exit_state mac o' out k s
        in if st0 = RESUMABLE_CONTINUE then wait_for_completion_grace mac o' out s0 grace else Some (st0, s0))
      (\<lambda>(st1, s1). Option.bind
        (if st1 = WAITING_ON_CHILD then wait_for_descendants_then_recheck mac o' out s1 quiesce else Some (st1, s1))
        (\<lambda>(st2, s2). Some (if st2 = RESUMABLE_CONTINUE then Some (resumable_exit_error x out o') else None)))"
  using assms by (auto simp: check_process_result_def owes_evidence_def Let_def bind_split split: option.splits prod.splits)

lemma continued_accepted:
  assumes "owes_evidence o' s" "supports_session_continuation (st_class s)" "\<not> ck_activity_only_supervision o'"
    and "check_process_result mac x (Some o') k grace quiesce = Some None"
  shows "ex_returncode x = 0 \<and> (\<exists>look \<in> insert k (looks grace \<union> looks quiesce). complete_look mac o' look)"
proof -
  let ?out = "bounded_output_lines (ex_output x) (ck_explicit_completion_seen o')"
  have c: "continuing s" using assms(1) by (simp add: owes_evidence_def continuing_def)
  have zero: "ex_returncode x = 0" using assms(4) by (auto simp: check_process_result_def split: if_splits)
  obtain st0 s0 where f0: "first_exit_state mac o' ?out k s = (st0, s0)" by fastforce
  then have c0: "continuing s0" and t0: "st0 = TERMINAL_COMPLETE \<Longrightarrow> complete_look mac o' k" and a0: "st0 \<noteq> ACTIVE"
    using c first_continuing [of mac o' ?out k s] first_terminal [OF c, of mac o' ?out k] first_not_active [of mac o' ?out k s]
    by simp_all
  note shape = continued_shape [OF assms(1-3) zero, of mac k grace quiesce]
  obtain st1 s1 where f1: "(if st0 = RESUMABLE_CONTINUE then wait_for_completion_grace mac o' ?out s0 grace
      else Some (st0, s0)) = Some (st1, s1)"
    using assms(4) shape f0 by (auto simp: bind_eq_Some_conv)
  have c1: "continuing s1" and t1: "st1 = TERMINAL_COMPLETE \<Longrightarrow> \<exists>look \<in> insert k (looks grace). complete_look mac o' look"
    and a1: "st1 \<noteq> ACTIVE"
    using f1 c0 t0 a0 completion_grace_outcome [OF c0, of mac o' ?out grace st1 s1] by (auto split: if_splits)
  obtain st2 s2 where f2: "(if st1 = WAITING_ON_CHILD then wait_for_descendants_then_recheck mac o' ?out s1 quiesce
      else Some (st1, s1)) = Some (st2, s2)" and "st2 \<noteq> RESUMABLE_CONTINUE"
    using assms(4) shape f0 f1 by (auto simp: bind_eq_Some_conv split: if_splits)
  then have "st2 = TERMINAL_COMPLETE"
    using a1 recheck_outcome(2) [OF c1, of mac o' ?out quiesce st2 s2] by (cases st1) (auto split: if_splits)
  with f2 t1 recheck_outcome(1) [OF c1, of mac o' ?out quiesce st2 s2] zero show ?thesis
    by (auto split: if_splits)
qed

lemma complete_accepted:
  assumes "owes_evidence o' s" "ex_returncode x = 0" "complete_look mac o' k"
  shows "check_process_result mac x (Some o') k grace quiesce = Some None"
proof -
  let ?out = "bounded_output_lines (ex_output x) (ck_explicit_completion_seen o')"
  have "continuing s" using assms(1) by (simp add: owes_evidence_def continuing_def)
  then obtain s0 where "first_exit_state mac o' ?out k s = (TERMINAL_COMPLETE, s0)"
    using first_terminal [of s mac o' ?out k] assms(3) by (metis prod.collapse)
  then show ?thesis using assms(1,2) by (simp add: check_process_result_def owes_evidence_def Let_def)
qed

lemma accepted_evidence:
  assumes "owes_evidence o' s" "\<not> ck_activity_only_supervision o'"
    and "check_process_result mac x (Some o') k grace quiesce = Some None"
  shows "ex_returncode x = 0 \<and> (\<exists>look \<in> insert k (looks grace \<union> looks quiesce). complete_look mac o' look)"
proof (cases "supports_session_continuation (st_class s)")
  case False
  have "continuing s" using assms(1) by (simp add: owes_evidence_def continuing_def)
  with enforced_accepted [OF assms(1) False assms(3)] show ?thesis by (simp add: first_terminal)
qed (use continued_accepted assms in blast)

section \<open>The check ends\<close>

text \<open>
  A paced clock: after a reading the loop waits for the poll interval, or for what is left of its budget if that is less,
  and the next reading is not earlier than the end of that wait.
\<close>

fun paced :: "rat \<Rightarrow> rat \<Rightarrow> rat \<Rightarrow> waits \<Rightarrow> bool" where
  "paced poll deadline earliest [] = True"
| "paced poll deadline earliest ((now, k) # ws) = (earliest \<le> now \<and> paced poll deadline (now + min poll (deadline - now)) ws)"

definition paced_run :: "rat \<Rightarrow> rat \<Rightarrow> WaitRun \<Rightarrow> bool" where
  "paced_run poll timeout w \<longleftrightarrow> paced poll (wr_start w + timeout) (wr_start w) (wr_waits w)
     \<and> wr_waits w \<noteq> [] \<and> timeout \<le> of_nat (length (wr_waits w) - 1) * poll"

lemma loop_ends:
  "paced poll deadline t ws \<Longrightarrow> 0 < poll \<Longrightarrow> deadline - t \<le> of_nat n * poll \<Longrightarrow> n < length ws
   \<Longrightarrow> wait_loop predicate deadline s ws \<noteq> None"
proof (induction ws arbitrary: t n s)
  case (Cons e ws)
  obtain now k where e: "e = (now, k)" by fastforce
  obtain a s1 where a: "predicate k s = (a, s1)" by fastforce
  show ?case
  proof (cases "now \<ge> deadline \<or> a \<noteq> None")
    case False
    with Cons.prems e obtain m where n: "n = Suc m" by (cases n) auto
    have "deadline - (now + min poll (deadline - now)) \<le> of_nat m * poll"
      using Cons.prems e n False by (auto simp: min_def algebra_simps)
    from Cons.IH [OF _ Cons.prems(2) this, of s1] show ?thesis using Cons.prems e n a False by simp
  qed (use e a in auto)
qed simp

lemma until_ends:
  assumes "paced_run poll timeout w" "0 < poll"
  shows "wait_until predicate timeout s w \<noteq> None"
proof -
  obtain n where n: "length (wr_waits w) = Suc n" "timeout \<le> of_nat n * poll"
    using assms(1) by (cases "wr_waits w") (auto simp: paced_run_def)
  then have "wait_loop predicate (wr_start w + timeout) s1 (wr_waits w) \<noteq> None" for s1
    using loop_ends [of poll "wr_start w + timeout" "wr_start w" "wr_waits w" n predicate s1] assms
    by (simp add: paced_run_def)
  then show ?thesis by (simp add: wait_until_def Let_def split: prod.split option.split)
qed

lemma accepted_poll:
  assumes "new_timeout_policy p = Inr q"
  shows "0 < tp_descendant_wait_poll q"
  using accepted_validator [OF assms, of validate_session_and_poll_fields] accepted_adjusted [OF assms]
  by (simp add: validators_def validate_session_and_poll_fields_def adjust_no_output_at_start_seconds_def
      split: if_splits option.splits)

definition paced_waits :: "TimeoutPolicy \<Rightarrow> WaitRun \<Rightarrow> WaitRun \<Rightarrow> bool" where
  "paced_waits p grace quiesce \<longleftrightarrow> paced_run (tp_descendant_wait_poll p) (tp_parent_exit_grace p) grace
     \<and> paced_run (tp_descendant_wait_poll p) (tp_descendant_wait_timeout p) quiesce"

lemma waits_end:
  assumes "new_timeout_policy raw = Inr (ck_policy o')" "paced_waits (ck_policy o') grace quiesce"
  shows "wait_for_completion_grace mac o' out s grace \<noteq> None" "wait_for_descendants_then_recheck mac o' out s quiesce \<noteq> None"
  using until_ends [OF _ accepted_poll [OF assms(1)]] assms(2)
  by (auto simp: paced_waits_def wait_for_completion_grace_def wait_parent_exit_grace_def
      wait_for_descendants_then_recheck_def wait_descendant_quiesce_def split: option.splits sum.splits prod.splits)

lemma check_ends:
  assumes "new_timeout_policy raw = Inr (ck_policy o')" "paced_waits (ck_policy o') grace quiesce"
  shows "check_process_result mac x (Some o') k grace quiesce \<noteq> None"
proof (cases "\<exists>s. ck_strategy o' = Some s \<and> supports_session_continuation (st_class s) \<and> ck_workspace o'")
  case True
  then obtain s where s: "ck_strategy o' = Some s" "supports_session_continuation (st_class s)" "ck_workspace o'" by blast
  let ?out = "bounded_output_lines (ex_output x) (ck_explicit_completion_seen o')"
  obtain st0 s0 where f0: "first_exit_state mac o' ?out k s = (st0, s0)" by fastforce
  obtain st1 s1 where f1: "(if st0 = RESUMABLE_CONTINUE \<and> \<not> ck_activity_only_supervision o'
      then wait_for_completion_grace mac o' ?out s0 grace else Some (st0, s0)) = Some (st1, s1)"
    using waits_end(1) [OF assms, of mac ?out s0]
    by (cases "st0 = RESUMABLE_CONTINUE \<and> \<not> ck_activity_only_supervision o'") auto
  obtain st2 s2 where f2: "(if st1 = WAITING_ON_CHILD \<and> \<not> ck_activity_only_supervision o'
      then wait_for_descendants_then_recheck mac o' ?out s1 quiesce else Some (st1, s1)) = Some (st2, s2)"
    using waits_end(2) [OF assms, of mac ?out s1]
    by (cases "st1 = WAITING_ON_CHILD \<and> \<not> ck_activity_only_supervision o'") auto
  show ?thesis using s by (simp add: check_process_result_def Let_def f0 f1 f2)
next
  case False
  then show ?thesis by (auto simp: check_process_result_def Let_def split: option.split prod.split)
qed

section \<open>The theorems\<close>

lemma fresh_child_waits:
  assumes "\<not> completion_signals_terminal sg" "st_class s = Open_Code" "st_registry s = Some r" "registry_ok r"
    and "has_fresh_child r (lk_now k) (scope_of s)"
  shows "fst (classify_exit k sg s) = WAITING_ON_CHILD"
proof -
  have d: "cv_deferral_allowed (classify_child_snapshot (fst (snapshot (lk_now k) (scope_of s) r)) False)"
    using registry_defers [OF assms(4)] assms(5) by blast
  then have "\<not> cv_all_children_terminal (classify_child_snapshot (fst (snapshot (lk_now k) (scope_of s) r)) False)"
    by (auto simp: classify_child_snapshot_def split: if_splits)
  with d have "fst (registry_check_for_exit k (scope_of s) r) = (Some WAITING_ON_CHILD, False)"
    by (simp add: registry_check_for_exit_def Let_def split_def)
  then obtain r' where "registry_check_for_exit k (scope_of s) r = ((Some WAITING_ON_CHILD, False), r')"
    by (metis prod.collapse)
  with assms(1-3) show ?thesis by (simp add: classify_exit_def evidence_precedence_def)
qed

text \<open>Sample sessions: an OpenCode session that owes a plan artifact, its files before and after it declares completion.\<close>

definition sample_mac :: hmac where "sample_mac key run = key @ run"

definition sample_files :: "DbSentinel \<Rightarrow> Files" where
  "sample_files db = \<lparr>fl_db = db, fl_legacy = None, fl_receipt = True, fl_fallback_promoted = False,
     fl_draft_diverges = False, fl_wire_declare = False, fl_wire_artifact = False\<rparr>"

definition sample_look :: "rat \<Rightarrow> DbSentinel \<Rightarrow> Look" where
  "sample_look now db = \<lparr>lk_now = now, lk_labels = [], lk_descendants = False, lk_subagent_pids = [], lk_files = sample_files db\<rparr>"

definition sample_strategy :: "ChildLivenessRegistry option \<Rightarrow> Strategy" where
  "sample_strategy reg = \<lparr>st_class = Open_Code, st_label_scope = Some ''dev'', st_registry = reg, st_has_pid_source = False,
     st_scoped_records_seen = False, st_open_step_messages = [], st_anonymous_open_steps = 0\<rparr>"

definition sample_options :: "ChildLivenessRegistry option \<Rightarrow> bool \<Rightarrow> CompletionCheckOptions" where
  "sample_options reg activity_only = \<lparr>ck_strategy = Some (sample_strategy reg), ck_workspace = True,
     ck_policy = production_policy, ck_required_artifact = Some \<lparr>ra_artifact_required = True\<rparr>,
     ck_requires_completion_evidence = True, ck_explicit_completion_seen = False, ck_captured_session_id = None,
     ck_completion_run_id = Some ''run'', ck_elapsed_seconds = Some 60, ck_has_meaningful_output = Some True,
     ck_sentinel_secret = Some ''key'', ck_activity_only_supervision = activity_only\<rparr>"

definition sample_exit :: Exited where
  "sample_exit = \<lparr>ex_returncode = 0, ex_output = [''done''], ex_stderr_credentials = False, ex_output_credentials = False,
     ex_structurally_small = False, ex_only_prompt_echo = False, ex_session_id = None, ex_context_exhausted = False,
     ex_provider_failure = None\<rparr>"

definition sample_wait :: "nat \<Rightarrow> DbSentinel \<Rightarrow> WaitRun" where
  "sample_wait n db = \<lparr>wr_start = 100, wr_first = sample_look 100 db,
     wr_waits = map (\<lambda>i. (100 + of_nat i / 2, sample_look (100 + of_nat i / 2) db)) [0..<n]\<rparr>"

lemmas sample_defs = sample_mac_def sample_files_def sample_look_def sample_strategy_def sample_options_def sample_exit_def

lemma sample_owes [simp]: "owes_evidence (sample_options reg a) (sample_strategy reg)"
  by (simp add: owes_evidence_def sample_defs)

lemma sample_complete:
  "complete_look sample_mac (sample_options reg a) (sample_look t db) \<longleftrightarrow> db = Stored (Some ''keyrun'')"
  by (auto simp: complete_look_def sample_defs completion_run_id_def check_completion_sentinel_def
      check_legacy_file_sentinel_def is_artifact_submitted_def split: DbSentinel.splits option.splits)

text \<open>
  C13. An exit is accepted only with evidence. If the check of an exited process raises nothing, for a session that owes
  evidence and is not supervised by activity alone, then the exit code is 0 and one of the looks the check took, at the
  exit or during its two waits, found the work complete: a completion sentinel of this run, no unsubmitted draft that
  diverges from the artifact, and the artifact itself where it is required. With a sentinel secret, that sentinel carries
  the HMAC of the run under the secret; one that was cleared in the database does not count, whatever file is left.\<close>

theorem exit_accepted_only_with_evidence:
  assumes "owes_evidence o' s" "\<not> ck_activity_only_supervision o'"
    and "check_process_result mac x (Some o') k grace quiesce = Some None"
  shows "ex_returncode x = 0 \<and> (\<exists>look \<in> insert k (looks grace \<union> looks quiesce). complete_look mac o' look
    \<and> (\<forall>key. ck_sentinel_secret o' = Some key \<longrightarrow> (\<exists>run. completion_run_id o' = Some run
         \<and> (fl_db (lk_files look) = Stored (Some (mac key run))
            \<or> fl_db (lk_files look) = Unknown \<and> fl_legacy (lk_files look) = Some (Some (mac key run))))))"
proof -
  obtain look where "look \<in> insert k (looks grace \<union> looks quiesce)" "complete_look mac o' look" "ex_returncode x = 0"
    using accepted_evidence [OF assms] by blast
  moreover have "check_completion_sentinel mac (completion_run_id o') (ck_sentinel_secret o') (lk_files look)"
    using calculation(2) by (simp add: complete_look_def)
  ultimately show ?thesis using sentinel_authentic [of mac "completion_run_id o'" _ "lk_files look"] by metis
qed

theorem exit_accepted_only_with_evidence_witness:
  "check_process_result sample_mac sample_exit (Some (sample_options None False)) (sample_look 99 Unknown)
       (sample_wait 1 (Stored (Some ''keyrun''))) (sample_wait 1 Unknown) = Some None
   \<and> (\<exists>look \<in> insert (sample_look 99 Unknown) (looks (sample_wait 1 (Stored (Some ''keyrun''))) \<union> looks (sample_wait 1 Unknown)).
        complete_look sample_mac (sample_options None False) look)"
proof -
  have a: "check_process_result sample_mac sample_exit (Some (sample_options None False)) (sample_look 99 Unknown)
       (sample_wait 1 (Stored (Some ''keyrun''))) (sample_wait 1 Unknown) = Some None"
    by code_simp
  have "\<not> ck_activity_only_supervision (sample_options None False)" by (simp add: sample_defs)
  from exit_accepted_only_with_evidence [OF sample_owes this a] a show ?thesis by blast
qed

text \<open>
  C20. The check of an exited process ends. With a validated timeout policy, and a clock that after each reading moves by
  what the loop waited for, the two waits need no more readings than their budgets hold poll intervals, plus one: the
  check then returns or raises. When a strategy that owes evidence finds it complete at an exit with code 0, the check
  accepts the exit without waiting: its answer is the same whatever the waits would read, and when they read nothing.
\<close>

theorem process_check_ends:
  assumes "new_timeout_policy raw = Inr (ck_policy o')"
  shows "(paced_waits (ck_policy o') grace quiesce \<longrightarrow>
      (\<exists>outcome. check_process_result mac x (Some o') k grace quiesce = Some outcome))
    \<and> (owes_evidence o' s \<and> ex_returncode x = 0 \<and> complete_look mac o' k \<longrightarrow>
      (\<forall>g q. check_process_result mac x (Some o') k g q = Some None))"
  using check_ends [OF assms] complete_accepted [of o' s x mac k] by blast

theorem process_check_ends_witness:
  "(\<exists>outcome. check_process_result sample_mac sample_exit (Some (sample_options None False)) (sample_look 99 Unknown)
     (sample_wait 61 Unknown) (sample_wait 61 Unknown) = Some outcome)
   \<and> check_process_result sample_mac sample_exit (Some (sample_options None False))
       (sample_look 99 (Stored (Some ''keyrun''))) (sample_wait 0 Unknown) (sample_wait 0 Unknown) = Some None"
proof -
  have p: "new_timeout_policy production_policy = Inr (ck_policy (sample_options None False))"
    by (simp add: sample_defs production_policy_accepted)
  have w: "paced_waits (ck_policy (sample_options None False)) (sample_wait 61 Unknown) (sample_wait 61 Unknown)"
    by code_simp
  have c: "complete_look sample_mac (sample_options None False) (sample_look 99 (Stored (Some ''keyrun'')))"
    by (simp add: sample_complete)
  have z: "ex_returncode sample_exit = 0" by (simp add: sample_defs)
  show ?thesis
    using process_check_ends [OF p, of "sample_wait 61 Unknown" "sample_wait 61 Unknown" sample_mac sample_exit "sample_look 99 Unknown"]
      process_check_ends [OF p, of _ _ sample_mac sample_exit "sample_look 99 (Stored (Some ''keyrun''))" "sample_strategy None"]
      w c z sample_owes by blast
qed

text \<open>
  C37. Under supervision by activity alone the check does not wait for children, and takes an exit that is classified as
  waiting on a child as final: an OpenCode session with a live child in its registry is accepted although its evidence of
  completion is missing.\<close>

theorem activity_only_accepts_unfinished_exit:
  assumes "owes_evidence o' s" "ck_activity_only_supervision o'" "ex_returncode x = 0"
    and "st_class s = Open_Code" "st_registry s = Some r" "registry_reachable r" "has_fresh_child r (lk_now k) (scope_of s)"
    and "\<not> complete_look mac o' k"
  shows "check_process_result mac x (Some o') k grace quiesce = Some None"
proof -
  let ?out = "bounded_output_lines (ex_output x) (ck_explicit_completion_seen o')"
  have "fst (first_exit_state mac o' ?out k s) = WAITING_ON_CHILD"
    unfolding first_exit_state_def
    using assms(8) fresh_child_waits [OF _ assms(4,5) reachable_ok [OF assms(6)] assms(7)] terminal_applied_iff by blast
  then obtain s0 where "first_exit_state mac o' ?out k s = (WAITING_ON_CHILD, s0)" by (metis prod.collapse)
  then show ?thesis
    using assms(1-4) by (simp add: check_process_result_def owes_evidence_def supports_session_continuation_def Let_def)
qed

theorem activity_only_accepts_unfinished_exit_witness:
  "let r = register_child 98 ''sub'' ''agent:dev:'' None ''running'' (make_child_registry None None None None)
   in check_process_result sample_mac sample_exit (Some (sample_options (Some r) True)) (sample_look 99 Unknown)
        (sample_wait 1 Unknown) (sample_wait 1 Unknown) = Some None"
proof -
  let ?r = "register_child 98 ''sub'' ''agent:dev:'' None ''running'' (make_child_registry None None None None)"
  have "registry_reachable ?r" by (intro registry_reachable.intros)
  moreover have "has_fresh_child ?r (lk_now (sample_look 99 Unknown)) (scope_of (sample_strategy (Some ?r)))"
    by (simp add: has_fresh_child_def child_fresh_def register_child_def make_child_registry_def in_scope_def scope_of_def
        active_label_prefix_def AGENT_LABEL_PREFIX_def sample_defs CHILD_STALE_LABEL_TTL_SECONDS_def)
  ultimately show ?thesis
    unfolding Let_def
    by (intro activity_only_accepts_unfinished_exit [OF sample_owes, of "Some ?r"])
      (simp_all add: sample_complete, simp_all add: sample_defs)
qed

end
