(* ===== verification/Checkpoints.thy ===== *)
theory Checkpoints
  imports Config_Overlay Pipeline_State
begin

text \<open>
  The persisted state of a run (\<^verbatim>\<open>pipeline/checkpoint.py\<close>, \<^verbatim>\<open>mcp/artifacts/idempotent_write.py\<close>, \<^verbatim>\<open>pipeline/runner.py\<close>), on the disk
  of \<^verbatim>\<open>Config_Overlay\<close>. Serialisation belongs to the model library: \<open>dump\<close> and \<open>parse\<close> are parameters, with the round
  trip as a named hypothesis. Directory creation and the durability barrier have no counterpart.
\<close>

section \<open>Paths\<close>

definition path_name :: "path \<Rightarrow> string" where
  "path_name p = rev (takeWhile (\<lambda>c. c \<noteq> CHR ''/'') (rev p))"

definition with_name :: "path \<Rightarrow> string \<Rightarrow> path" where
  "with_name p n = take (length p - length (path_name p)) p @ n"

definition path_stem :: "string \<Rightarrow> string" where
  "path_stem name = (let ext = takeWhile (\<lambda>c. c \<noteq> CHR ''.'') (rev name); n = length name - length ext
     in if 1 < n \<and> ext \<noteq> [] then take (n - 1) name else name)"

definition with_suffix :: "path \<Rightarrow> string \<Rightarrow> path" where
  "with_suffix p suffix = with_name p (path_stem (path_name p) @ suffix)"

text \<open>The default is relative to the working directory; the runner uses the root of its workspace.\<close>

definition CHECKPOINT_PATH :: "path \<Rightarrow> path" where
  "CHECKPOINT_PATH cwd = cwd @ ''/.agent/checkpoint.json''"

definition worker_checkpoint_path :: "path \<Rightarrow> path" where
  "worker_checkpoint_path ns = ns @ ''/tmp/checkpoint.json''"

definition checkpoint_path :: "path \<Rightarrow> path" where
  "checkpoint_path root_dir = root_dir @ ''/checkpoint.json''"

section \<open>Writing text atomically\<close>

text \<open>Text is read with universal newlines.\<close>

fun universal_newlines :: "unicode \<Rightarrow> unicode" where
  "universal_newlines [] = []"
| "universal_newlines (c # cs) =
     (if c = 13 then 10 # (case cs of [] \<Rightarrow> [] | d # r \<Rightarrow> if d = 10 then universal_newlines r else universal_newlines (d # r))
      else c # universal_newlines cs)"

definition read_text :: "Run \<Rightarrow> path \<Rightarrow> unicode option" where
  "read_text d p = (case read_bytes_or_none d p of None \<Rightarrow> None
     | Some b \<Rightarrow> map_option universal_newlines (utf8_decode (codes b)))"

definition atomic_write_text_if_changed :: "uuids \<Rightarrow> path \<Rightarrow> unicode \<Rightarrow> path \<Rightarrow> Run \<Rightarrow> Run" where
  "atomic_write_text_if_changed u dest t tmp d =
     (if read_text d dest = Some t then d
      else (let staging = unique_staging_path u d tmp
            in emit (Replace staging dest) (emit (WriteFile staging (utf8_encode t)) d)))"

section \<open>Checkpoints\<close>

definition FORBIDDEN_ERROR_SENTINELS :: "string list" where
  "FORBIDDEN_ERROR_SENTINELS = [''Unknown failure'', ''unknown failure'', '''', ''None'', ''null'']"

definition normalize_recovery_state :: "PipelineState \<Rightarrow> PipelineState" where
  "normalize_recovery_state s = s\<lparr>ps_recovery_cycle_cap := ps_recovery_cycle_cap s,
     ps_fallover_history := normalize_fallover_history_for_cap (ps_fallover_history s) (ps_recovery_cycle_cap s)\<rparr>"

definition sanitize_last_error :: "PipelineState \<Rightarrow> PipelineState" where
  "sanitize_last_error s = (case ps_last_error s of None \<Rightarrow> s
     | Some e \<Rightarrow> if str_strip e = [] \<or> e \<in> set FORBIDDEN_ERROR_SENTINELS then s\<lparr>ps_last_error := None\<rparr> else s)"

type_synonym dump = "PipelineState \<Rightarrow> unicode"
type_synonym parse = "unicode \<Rightarrow> PipelineState option"

definition save :: "uuids \<Rightarrow> dump \<Rightarrow> PipelineState \<Rightarrow> path \<Rightarrow> Run \<Rightarrow> Run" where
  "save u dump s p d = atomic_write_text_if_changed u p (dump (normalize_recovery_state s)) (with_suffix p ''.tmp'') d"

text \<open>
  What a save that does not complete can leave: what the publication leaves, and, when the process survives and the handler
  runs, no file under the name \<^verbatim>\<open>tmp_path\<close>.
\<close>

definition save_left :: "uuids \<Rightarrow> dump \<Rightarrow> PipelineState \<Rightarrow> path \<Rightarrow> fs \<Rightarrow> fs \<Rightarrow> bool" where
  "save_left u dump s p f f' \<longleftrightarrow> left_behind (save u dump s p (boot f)) f'
     \<or> (\<exists>g. left_behind (save u dump s p (boot f)) g \<and> f' = g(with_suffix p ''.tmp'' := None))"

text \<open>\<open>None\<close> is the \<^verbatim>\<open>OSError\<close> of a file that cannot be read; a text that does not decode or parse is a \<^verbatim>\<open>ValueError\<close>.\<close>

definition load :: "parse \<Rightarrow> path \<Rightarrow> fs \<Rightarrow> PipelineState option option" where
  "load parse p f = (case f p of
     None \<Rightarrow> Some None
   | Some file \<Rightarrow>
       if \<not> readable file then None
       else (case utf8_decode (codes (content file)) of
           None \<Rightarrow> Some None
         | Some t \<Rightarrow> (case parse (universal_newlines t) of
             None \<Rightarrow> Some None
           | Some s \<Rightarrow> Some (Some (sanitize_last_error (normalize_recovery_state s))))))"

definition checkpoint_exists :: "path \<Rightarrow> fs \<Rightarrow> bool" where
  "checkpoint_exists p f = (f p \<noteq> None)"

definition remove_checkpoint :: "path \<Rightarrow> Run \<Rightarrow> Run" where
  "remove_checkpoint p d = (if checkpoint_exists p (files d) then emit (Unlink p) d else d)"

definition cleanup_stray_tmp :: "path \<Rightarrow> Run \<Rightarrow> Run" where
  "cleanup_stray_tmp p d = unlink_missing_ok (p @ ''.tmp'') d"

section \<open>UTF-8 texts come back\<close>

lemma encode_code_bytes:
  assumes "scalar_value n"
  shows "\<forall>b \<in> set (utf8_encode_code n). b < 256"
proof -
  have "n < 1114112" using assms by (simp add: scalar_value_def)
  moreover from this have "n div 262144 < 5" by linarith
  moreover have "n mod 64 < 64" "n div 64 mod 64 < 64" "n div 4096 mod 64 < 64" by simp_all
  moreover have "n < 65536 \<Longrightarrow> n div 4096 < 16" "n < 2048 \<Longrightarrow> n div 64 < 32" by linarith+
  ultimately show ?thesis by (auto simp: utf8_encode_code_def)
qed

lemma decode_encoded_code:
  assumes "scalar_value n"
  shows "utf8_decode (utf8_encode_code n @ r) = map_option (Cons n) (utf8_decode r)"
proof -
  have lt: "n < 1114112" and ns: "n < 55296 \<or> 57343 < n"
    using assms by (auto simp: scalar_value_def is_high_surrogate_def is_low_surrogate_def)
  have d64: "n = n div 64 * 64 + n mod 64" by simp
  have d4096: "n div 64 = n div 4096 * 64 + n div 64 mod 64"
    using div_mult_mod_eq [of "n div 64" 64] by (simp add: div_mult2_eq [symmetric])
  have d262144: "n div 4096 = n div 262144 * 64 + n div 4096 mod 64"
    using div_mult_mod_eq [of "n div 4096" 64] by (simp add: div_mult2_eq [symmetric])
  have m: "n mod 64 < 64" "n div 64 mod 64 < 64" "n div 4096 mod 64 < 64" by simp_all
  consider "n < 128" | "128 \<le> n" "n < 2048" | "2048 \<le> n" "n < 65536" | "65536 \<le> n" by linarith
  then show ?thesis
  proof cases
    case 1
    then show ?thesis by (simp add: utf8_encode_code_def)
  next
    case 2
    obtain a c where ac: "n div 64 = a" "n mod 64 = c" by blast
    have "2 \<le> n div 64" "n div 64 < 32" using 2 by linarith+
    then show ?thesis using 2 m(1) d64 unfolding ac by (simp add: utf8_encode_code_def is_continuation_def ac)
  next
    case 3
    let ?a = "n div 4096" and ?b = "n div 64 mod 64" and ?c = "n mod 64"
    have a: "?a < 16" using 3 by linarith
    have v: "n = ?a * 4096 + ?b * 64 + ?c" using d64 d4096 by linarith
    have "second_byte_ok (224 + ?a) (128 + ?b)"
      using 3 v ns m a unfolding second_byte_ok_def is_continuation_def by linarith
    moreover obtain a b c where abc: "?a = a" "?b = b" "?c = c" by blast
    moreover have "utf8_encode_code n = [224 + a, 128 + b, 128 + c]" using 3 by (simp add: utf8_encode_code_def abc)
    ultimately show ?thesis using m a v unfolding abc by (simp add: is_continuation_def)
  next
    case 4
    let ?a = "n div 262144" and ?b = "n div 4096 mod 64" and ?c = "n div 64 mod 64" and ?d = "n mod 64"
    have a: "?a < 5" using lt by linarith
    have v: "n = ?a * 262144 + ?b * 4096 + ?c * 64 + ?d" using d64 d4096 d262144 by linarith
    have "second_byte_ok (240 + ?a) (128 + ?b)"
      using 4 v lt m a unfolding second_byte_ok_def is_continuation_def by linarith
    moreover obtain a b c e where abce: "?a = a" "?b = b" "?c = c" "?d = e" by blast
    moreover have "utf8_encode_code n = [240 + a, 128 + b, 128 + c, 128 + e]" using 4 by (simp add: utf8_encode_code_def abce)
    ultimately show ?thesis using m a v unfolding abce by (simp add: is_continuation_def)
  qed
qed

lemma utf8_round_trip:
  assumes "\<forall>c \<in> set t. scalar_value c"
  shows "utf8_decode (codes (utf8_encode t)) = Some t"
proof -
  have "\<forall>b \<in> set (concat (map utf8_encode_code t)). b < 256" using assms encode_code_bytes by fastforce
  then have "codes (utf8_encode t) = concat (map utf8_encode_code t)"
    by (auto simp: codes_def utf8_encode_def intro!: map_idI)
  moreover have "utf8_decode (concat (map utf8_encode_code t)) = Some t"
    using assms by (induction t) (simp_all add: decode_encoded_code)
  ultimately show ?thesis by simp
qed

lemma newlines_id: "13 \<notin> set t \<Longrightarrow> universal_newlines t = t"
  by (induction t) auto

section \<open>Saving and loading\<close>

text \<open>
  What is relied on of the serialiser: a state comes back from its text, the text can be encoded, and carriage returns in
  it are escaped, as JSON requires of control characters.
\<close>

definition serialiser_ok :: "dump \<Rightarrow> parse \<Rightarrow> PipelineState \<Rightarrow> bool" where
  "serialiser_ok dump parse s0 \<longleftrightarrow> (let s = normalize_recovery_state s0
     in parse (dump s) = Some s \<and> 13 \<notin> set (dump s) \<and> (\<forall>c \<in> set (dump s). scalar_value c))"

text \<open>What a state looks like after it went through a checkpoint.\<close>

definition checkpointed :: "PipelineState \<Rightarrow> PipelineState" where
  "checkpointed s = sanitize_last_error (normalize_recovery_state s)"

lemma normalize_idem [simp]: "normalize_recovery_state (normalize_recovery_state s) = normalize_recovery_state s"
  by (simp add: normalize_recovery_state_def normalize_fallover_history_for_cap_def resolved_recovery_cycle_cap_def Let_def)

lemma normalize_fresh: "ps_fallover_history s = [] \<Longrightarrow> normalize_recovery_state s = s"
  by (simp add: normalize_recovery_state_def normalize_fallover_history_for_cap_def resolved_recovery_cycle_cap_def Let_def)

lemma checkpoint_suffix: "with_suffix (dir @ ''/checkpoint.json'') ''.tmp'' = dir @ ''/checkpoint.tmp''"
  by (simp add: with_suffix_def with_name_def path_name_def path_stem_def Let_def)

lemma checkpoint_staging:
  assumes "p = dir @ ''/checkpoint.json''"
  shows "unique_staging_path u d (with_suffix p ''.tmp'') \<noteq> p" "with_suffix p ''.tmp'' \<noteq> p"
  using assms by (simp_all add: checkpoint_suffix unique_staging_path_def)

lemma load_cong: "f p = g p \<Longrightarrow> load parse p f = load parse p g"
  by (simp add: load_def)

lemma load_saved_text:
  assumes "serialiser_ok dump parse s"
  shows "load parse p (f(p \<mapsto> \<lparr>content = utf8_encode (dump (normalize_recovery_state s)), readable = True\<rparr>)) = Some (Some (checkpointed s))"
  using assms by (simp add: load_def serialiser_ok_def checkpointed_def Let_def utf8_round_trip newlines_id)

lemma load_unchanged_text:
  assumes "serialiser_ok dump parse s" and "read_text d p = Some (dump (normalize_recovery_state s))"
  shows "load parse p (files d) = Some (Some (checkpointed s))"
  using assms by (auto simp: load_def read_text_def read_bytes_or_none_def serialiser_ok_def checkpointed_def Let_def split: option.splits if_splits)

lemma load_save:
  assumes "serialiser_ok dump parse s" and "p = dir @ ''/checkpoint.json''"
  shows "load parse p (files (save u dump s p d)) = Some (Some (checkpointed s))"
proof (cases "read_text d p = Some (dump (normalize_recovery_state s))")
  case True
  then show ?thesis using load_unchanged_text [OF assms(1)] by (simp add: save_def atomic_write_text_if_changed_def)
next
  case False
  let ?s = "unique_staging_path u d (with_suffix p ''.tmp'')"
  have "files (save u dump s p d) p = Some \<lparr>content = utf8_encode (dump (normalize_recovery_state s)), readable = True\<rparr>"
    using False checkpoint_staging(1) [OF assms(2), of u d]
    by (simp add: save_def atomic_write_text_if_changed_def Let_def write_file_def replace_file_def)
  then show ?thesis using load_saved_text [OF assms(1), of p Map.empty] load_cong
    by (metis (no_types, lifting) fun_upd_same)
qed

lemma safe_save:
  assumes "serialiser_ok dump parse s" and "p = dir @ ''/checkpoint.json''"
  shows "safe (\<lambda>f. load parse p f \<in> {load parse p f0, Some (Some (checkpointed s))}) (save u dump s p (boot f0))"
    (is "safe ?Q _")
proof (cases "read_text (boot f0) p = Some (dump (normalize_recovery_state s))")
  case True
  then show ?thesis by (simp add: save_def atomic_write_text_if_changed_def)
next
  case False
  let ?s = "unique_staging_path u (boot f0) (with_suffix p ''.tmp'')"
  have ns: "?s \<noteq> p" by (rule checkpoint_staging(1) [OF assms(2)])
  have L: "load parse p (f(?s := x)) = load parse p f" for f x using load_cong [of "f(?s := x)" p f parse] ns by simp
  have one: "safe ?Q (emit (WriteFile ?s (utf8_encode (dump (normalize_recovery_state s)))) (boot f0))"
    by (rule safe_emit) (auto simp: write_file_def L simp del: fun_upd_apply)
  have "safe ?Q (emit (Replace ?s p) (emit (WriteFile ?s (utf8_encode (dump (normalize_recovery_state s)))) (boot f0)))"
  proof (rule safe_emit [OF one])
    have "load parse p ((f0(?s \<mapsto> \<lparr>content = utf8_encode (dump (normalize_recovery_state s)), readable = True\<rparr>, p \<mapsto> \<lparr>content = utf8_encode (dump (normalize_recovery_state s)), readable = True\<rparr>))(?s := None))
        = Some (Some (checkpointed s))"
      using load_saved_text [OF assms(1), of p "f0(?s \<mapsto> \<lparr>content = utf8_encode (dump (normalize_recovery_state s)), readable = True\<rparr>)"] ns
      by (simp add: load_def)
    then show "?Q (run_op (Replace ?s p) (files (emit (WriteFile ?s (utf8_encode (dump (normalize_recovery_state s)))) (boot f0))))"
      using ns by (simp add: write_file_def replace_file_def)
  next
    fix f
    assume "interrupted (Replace ?s p) (files (emit (WriteFile ?s (utf8_encode (dump (normalize_recovery_state s)))) (boot f0))) f"
    then show "?Q f" by (auto simp: write_file_def L simp del: fun_upd_apply)
  qed
  then show ?thesis using False by (simp add: save_def atomic_write_text_if_changed_def Let_def)
qed

lemma save_left_loads:
  assumes "serialiser_ok dump parse s" and "p = dir @ ''/checkpoint.json''" and "save_left u dump s p f0 f"
  shows "load parse p f \<in> {load parse p f0, Some (Some (checkpointed s))}"
proof -
  obtain g where g: "left_behind (save u dump s p (boot f0)) g" "f p = g p"
    using assms(3) checkpoint_staging(2) [OF assms(2)] by (auto simp: save_left_def)
  then show ?thesis using safe_save [OF assms(1,2), of f0 u] load_cong [of f p g parse, OF g(2)] by (auto simp: safe_def)
qed

text \<open>Any number of saves, each complete or not, of the given states.\<close>

inductive after_saves :: "dump \<Rightarrow> path \<Rightarrow> fs \<Rightarrow> PipelineState list \<Rightarrow> fs \<Rightarrow> bool" for dump p f0 where
  no_save: "after_saves dump p f0 [] f0"
| another_save: "after_saves dump p f0 xs f \<Longrightarrow> save_left u dump s p f f' \<Longrightarrow> after_saves dump p f0 (s # xs) f'"

lemma after_saves_loads:
  assumes "after_saves dump p f0 xs f" "\<forall>s \<in> set xs. serialiser_ok dump parse s" "p = dir @ ''/checkpoint.json''"
  shows "load parse p f = load parse p f0 \<or> (\<exists>s \<in> set xs. load parse p f = Some (Some (checkpointed s)))"
  using assms(1,2)
proof (induction rule: after_saves.induct)
  case (another_save xs f u s f')
  then show ?case using save_left_loads [OF _ assms(3), of dump parse s u f f'] by auto
qed simp


text \<open>
  C6. A checkpoint is never lost to a crash. Once a state was saved completely, let any number of further saves be
  attempted, each of them complete, failed or killed at any operation, torn writes included: loading then gives the
  saved state or one of the later ones, with a placeholder in its last error removed. It never finds nothing, a
  corrupt file or an unreadable one, provided the serialiser gives the saved states back.
\<close>

theorem checkpoint_survives_crashes:
  assumes "after_saves dump p (files (save u dump s p d)) xs f"
    and "\<forall>x \<in> set (s # xs). serialiser_ok dump parse x" and "p = dir @ ''/checkpoint.json''"
  shows "\<exists>x \<in> set (s # xs). load parse p f = Some (Some (checkpointed x))"
  using after_saves_loads [OF assms(1) _ assms(3), of parse] load_save [OF _ assms(3), of dump parse s u d] assms(2) by auto

text \<open>A run that is killed between writing its second checkpoint to the staging file and publishing it.\<close>

definition saved_twice :: "PipelineState \<Rightarrow> PipelineState \<Rightarrow> Run" where
  "saved_twice a b = save (\<lambda>n. ''u'') (\<lambda>s. if s = a then [123, 125] else [123, 233, 125]) b ''r/checkpoint.json''
     (boot (files (save (\<lambda>n. ''v'') (\<lambda>s. if s = a then [123, 125] else [123, 233, 125]) a ''r/checkpoint.json'' (boot Map.empty))))"

lemma saved_twice_history:
  assumes "a \<noteq> b" and "ps_fallover_history a = []" and "ps_fallover_history b = []"
  shows "length (history (saved_twice a b)) = 2"
    and "left_behind (saved_twice a b) (fst (history (saved_twice a b) ! 1))"
proof -
  have "\<exists>f g x y. history (saved_twice a b) = [(f, WriteFile x y), (g, Replace x ''r/checkpoint.json'')]"
    using assms by (simp add: normalize_fresh saved_twice_def save_def atomic_write_text_if_changed_def read_text_def read_bytes_or_none_def
        boot_def emit_def write_file_def replace_file_def unique_staging_path_def with_suffix_def with_name_def path_name_def
        path_stem_def Let_def utf8_encode_def utf8_encode_code_def codes_def)
  then show "length (history (saved_twice a b)) = 2"
    and "left_behind (saved_twice a b) (fst (history (saved_twice a b) ! 1))"
    by (auto simp: left_behind_def)
qed

lemma two_texts_serialise:
  assumes "a \<noteq> b" and "ps_fallover_history a = []" and "ps_fallover_history b = []"
  shows "\<forall>x \<in> set [a, b]. serialiser_ok (\<lambda>s. if s = a then [123, 125] else [123, 233, 125])
    (\<lambda>t. if t = [123, 125] then Some a else Some b) x"
  using assms by (simp add: serialiser_ok_def normalize_fresh scalar_value_def is_high_surrogate_def is_low_surrogate_def)

lemma one_text_serialises:
  "ps_fallover_history s = [] \<Longrightarrow> serialiser_ok (\<lambda>x. [123, 125]) (\<lambda>t. Some s) s"
  by (simp add: serialiser_ok_def normalize_fresh scalar_value_def is_high_surrogate_def is_low_surrogate_def)

theorem checkpoint_survives_crashes_witness:
  "let a = from_policy default_policy; b = a\<lparr>ps_last_error := Some ''boom''\<rparr>;
       f = fst (history (saved_twice a b) ! 1); parse = (\<lambda>t. if t = [123, 125] then Some a else Some b)
   in \<exists>x \<in> {a, b}. load parse ''r/checkpoint.json'' f = Some (Some (checkpointed x))"
proof -
  let ?a = "from_policy default_policy"
  let ?b = "?a\<lparr>ps_last_error := Some ''boom''\<rparr>"
  let ?dump = "\<lambda>s. if s = ?a then [123, 125] else [123, 233, 125]" and ?p = "''r/checkpoint.json''"
  let ?parse = "\<lambda>t. if t = [123, 125] then Some ?a else Some ?b"
  have ne: "?a \<noteq> ?b" and h: "ps_fallover_history ?a = []" "ps_fallover_history ?b = []" by (simp_all add: from_policy_def)
  let ?before = "files (save (\<lambda>n. ''v'') ?dump ?a ?p (boot Map.empty))" and ?f = "fst (history (saved_twice ?a ?b) ! 1)"
  have "save_left (\<lambda>n. ''u'') ?dump ?b ?p ?before ?f"
    unfolding save_left_def using saved_twice_history(2) [OF ne h] unfolding saved_twice_def by blast
  then have "after_saves ?dump ?p ?before [?b] ?f" by (rule after_saves.another_save [OF after_saves.no_save])
  moreover have "\<forall>x \<in> set [?a, ?b]. serialiser_ok ?dump ?parse x"
    by (rule two_texts_serialise [OF ne h])
  moreover have "?p = ''r'' @ ''/checkpoint.json''" by simp
  ultimately have "\<exists>x \<in> set [?a, ?b]. load ?parse ?p ?f = Some (Some (checkpointed x))"
    by (rule checkpoint_survives_crashes)
  then show ?thesis unfolding Let_def by (simp only: list.set)
qed

section \<open>Two places\<close>

lemma runner_path_apart: "checkpoint_path r \<noteq> CHECKPOINT_PATH r"
    "with_suffix (checkpoint_path r) ''.tmp'' \<noteq> CHECKPOINT_PATH r"
    "unique_staging_path u d (with_suffix (checkpoint_path r) ''.tmp'') \<noteq> CHECKPOINT_PATH r"
  by (simp_all add: checkpoint_path_def CHECKPOINT_PATH_def checkpoint_suffix unique_staging_path_def)

lemma save_elsewhere:
  assumes "unique_staging_path u d (with_suffix p ''.tmp'') \<noteq> q" "p \<noteq> q"
  shows "safe (\<lambda>f. f q = files d q) d \<Longrightarrow> safe (\<lambda>f. f q = files d q) (save u dump s p d)"
  using assms by (auto simp: save_def atomic_write_text_if_changed_def Let_def write_file_def replace_file_def intro!: safe_emit)

lemma runner_saves_elsewhere:
  assumes "save_left u dump s (checkpoint_path r) f f'"
  shows "f' (CHECKPOINT_PATH r) = f (CHECKPOINT_PATH r)"
proof -
  have "safe (\<lambda>g. g (CHECKPOINT_PATH r) = f (CHECKPOINT_PATH r)) (save u dump s (checkpoint_path r) (boot f))"
    using save_elsewhere [of u "boot f" "checkpoint_path r" "CHECKPOINT_PATH r"] runner_path_apart by simp
  then show ?thesis using assms runner_path_apart(2) [of r, symmetric] by (auto simp: save_left_def safe_def)
qed

text \<open>
  C34. The saves of the runner never reach the file that a resume loads: the steps and the loop of a run save to
  \<^verbatim>\<open>checkpoint.json\<close> in the workspace, and resuming loads \<^verbatim>\<open>.agent/checkpoint.json\<close>. Whatever sequence of saves was made
  to the former, complete or not, what a resume in that directory finds is what was there before them. (The latter file
  is written by waves of workers and by the handler of an interrupt, which are not among these saves.)
\<close>

theorem resume_ignores_runner_checkpoints:
  assumes "after_saves dump (checkpoint_path r) f0 xs f"
  shows "load parse (CHECKPOINT_PATH r) f = load parse (CHECKPOINT_PATH r) f0"
  using assms
proof (induction rule: after_saves.induct)
  case (another_save xs f u s f')
  then show ?case using load_cong [of f' "CHECKPOINT_PATH r" f parse] runner_saves_elsewhere [of u dump s r f f'] by simp
qed simp

theorem resume_ignores_runner_checkpoints_witness:
  "let s = from_policy default_policy; f = files (save (\<lambda>n. ''u'') (\<lambda>x. [123, 125]) s (checkpoint_path ''r'') (boot Map.empty))
   in load (\<lambda>t. Some s) (checkpoint_path ''r'') f = Some (Some s) \<and> load (\<lambda>t. Some s) (CHECKPOINT_PATH ''r'') f = Some None"
proof -
  let ?s = "from_policy default_policy" and ?dump = "\<lambda>x. [123, 125]" and ?parse = "\<lambda>t. Some (from_policy default_policy)"
  let ?f = "files (save (\<lambda>n. ''u'') ?dump ?s (checkpoint_path ''r'') (boot Map.empty))"
  have h: "ps_fallover_history ?s = []" by (simp add: from_policy_def)
  have "save_left (\<lambda>n. ''u'') ?dump ?s (checkpoint_path ''r'') Map.empty ?f"
    unfolding save_left_def left_behind_def by blast
  then have "after_saves ?dump (checkpoint_path ''r'') Map.empty [?s] ?f"
    by (rule after_saves.another_save [OF after_saves.no_save])
  from resume_ignores_runner_checkpoints [OF this, of ?parse]
  have "load ?parse (CHECKPOINT_PATH ''r'') ?f = Some None" by (simp add: load_def)
  moreover have "serialiser_ok ?dump ?parse ?s"
    by (rule one_text_serialises [OF h])
  then have "load ?parse (checkpoint_path ''r'') ?f = Some (Some (checkpointed ?s))"
    using load_save [of ?dump ?parse ?s "checkpoint_path ''r''" "''r''" "\<lambda>n. ''u''" "boot Map.empty"]
    by (simp only: checkpoint_path_def refl)
  moreover have "checkpointed ?s = ?s"
    using h by (simp add: checkpointed_def normalize_fresh) (simp add: sanitize_last_error_def from_policy_def)
  ultimately show ?thesis unfolding Let_def by (simp only:)
qed

text \<open>The cleanup of stray files removes a name that no save uses.\<close>

lemma stray_staging_survives_cleanup:
  "files (cleanup_stray_tmp (dir @ ''/checkpoint.json'') d)
     (unique_staging_path u d' (with_suffix (dir @ ''/checkpoint.json'') ''.tmp''))
   = files d (unique_staging_path u d' (with_suffix (dir @ ''/checkpoint.json'') ''.tmp''))"
  by (simp add: cleanup_stray_tmp_def unique_staging_path_def checkpoint_suffix)

end
