(* ===== verification/Run_Loop.thy ===== *)
theory Run_Loop
  imports Fan_Out Auto_Integration Checkpoints
begin

text \<open>
  The loop of a run (\<^verbatim>\<open>pipeline/run_loop.py\<close>) and one step of it (\<^verbatim>\<open>pipeline/runner.py\<close>, \<^verbatim>\<open>_runner_state_helpers.py\<close>,
  \<^verbatim>\<open>_runner_session.py\<close>): router, reducer, recovery controller, fan-out, integration gate and checkpoints together. What
  the outside answers (agents, prompts, git, clocks, the disk) is a record per step. An interrupt by the user is not
  modelled, nor are displays, subscribers and the files a phase entry clears.
\<close>

section \<open>What the loop carries\<close>

text \<open>
  \<open>hd_saved\<close> are the states that the steps and the loop gave to \<^verbatim>\<open>ckpt.save\<close> and that it wrote, to the checkpoint of the
  workspace; \<open>hd_wave_saved\<close> are the states that waves of workers gave to it, for \<^verbatim>\<open>.agent/checkpoint.json\<close>;
  \<open>hd_sample\<close> is the last clock sample of the cycle timer.
\<close>

record Held =
  hd_state :: PipelineState
  hd_rebase :: RebaseState
  hd_controller :: RecoveryController
  hd_sample :: "rat option"
  hd_saved :: "PipelineState list"
  hd_wave_saved :: "PipelineState list"

datatype Preparation = Prepared | MissingPlanHandoffError string | PrepareRaised RawFailure

text \<open>
  What one step meets: the live worktree at the dispatch gate; two readings of the monotonic clock; the configuration and
  the workspace as the router sees them; what preparing the prompt, executing the effect and the phase handler answer
  (an exception is on the left); what the agent run captured; the outcome of the integration seam; whether the two
  checkpoint writes fail; what recording a reduced step raises; the classifier, clocks and time of a reduction; the timing record of the step; what a reduction
  that raised has left of the controller; and the context of a fan-out.
\<close>

record StepInput =
  si_tree :: "LiveTree option"
  si_started :: rat
  si_reduced :: rat
  si_config :: "UnifiedConfig option"
  si_env :: RouterEnv
  si_preparation :: Preparation
  si_executed :: "RawFailure + Event"
  si_phase_event :: "RawFailure + Event"
  si_session :: "string option"
  si_retry :: AgentRetryIntent
  si_outcome :: "RebaseState option"
  si_save_error :: "RawFailure option"
  si_recording_error :: "RawFailure option"
  si_crash_save_fails :: bool
  si_classify :: classifier
  si_clock :: ClockSamples
  si_time :: timestamp
  si_timing :: PhaseTimingRecord
  si_left_controller :: "RecoveryController \<Rightarrow> RecoveryController"
  si_wave :: WaveContext
  si_wave_clock :: "nat \<Rightarrow> timestamp"
  si_wave_rebase :: RebaseState

text \<open>A step goes on, ends the run with an exit code, raises, or still waits for its workers.\<close>

datatype StepResult = Goes_On Held | Exits int Held | Raises py_error Held | Still_Waiting Held

definition exception_of :: "py_error \<Rightarrow> RawFailure" where
  "exception_of e = (case e of
     ValueError m \<Rightarrow> RawFailure.OtherException ''ValueError'' m | RuntimeError m \<Rightarrow> RawFailure.OtherException ''RuntimeError'' m
   | KeyError m \<Rightarrow> RawFailure.OtherException ''KeyError'' m | IndexError m \<Rightarrow> RawFailure.OtherException ''IndexError'' m
   | PhaseHandlerNotFoundError m \<Rightarrow> RawFailure.OtherException ''PhaseHandlerNotFoundError'' m
   | WorkUnitsValidationError m \<Rightarrow> RawFailure.OtherException ''WorkUnitsValidationError'' m
   | ValidationError m \<Rightarrow> RawFailure.OtherException ''ValidationError'' m | ExceptionGroup m \<Rightarrow> RawFailure.OtherException ''ExceptionGroup'' m)"

section \<open>Helpers of a step\<close>

definition reset_phase_chain_for_recovery :: "PipelineState \<Rightarrow> string \<Rightarrow> PipelineState" where
  "reset_phase_chain_for_recovery s target = (case chain_for_phase s target of None \<Rightarrow> s
     | Some c \<Rightarrow> with_phase_chain target \<lparr>acs_agents = acs_agents c, acs_current_index = 0, acs_retries = 0\<rparr> s)"

definition recover_missing_plan_handoff :: "PipelineState \<Rightarrow> PipelinePolicy \<Rightarrow> string \<Rightarrow> PipelineState" where
  "recover_missing_plan_handoff s P exc =
     (let current_epoch = ps_recovery_epoch s;
          bound_exceeded = (current_epoch \<ge> rec_cycle_cap (pp_recovery P));
          target = (if bound_exceeded then failed_route P else pp_entry_phase P);
          advanced_state = conclude_cycle_on_route_out_of_cycle (advanced P target s) target P;
          reset_state = (if \<not> bound_exceeded then reset_phase_chain_for_recovery advanced_state target else advanced_state)
      in reset_state\<lparr>ps_last_error := Some exc, ps_recovery_epoch := current_epoch + 1\<rparr>)"

definition apply_session_capture :: "string option \<Rightarrow> AgentRetryIntent \<Rightarrow> PipelineState \<Rightarrow> PipelineState" where
  "apply_session_capture session intent s =
     (if ari_action intent \<noteq> None \<or> ari_skip_same_agent_retries intent then
        s\<lparr>ps_last_agent_session_id := (if ari_action intent \<in> {Some Resume, Some NewSessionWithId} then ari_session_id intent else None),
          ps_agent_retry_intent := intent\<rparr>
      else if truthy session then s\<lparr>ps_last_agent_session_id := session, ps_agent_retry_intent := cleared_agent_retry_intent\<rparr>
      else if ari_action (ps_agent_retry_intent s) \<noteq> None then s\<lparr>ps_agent_retry_intent := cleared_agent_retry_intent\<rparr>
      else s)"

text \<open>The routing timing and the seconds since the last sample; no timing without a cycle timebox.\<close>

definition sample_cycle_timing :: "PipelineState \<Rightarrow> PipelinePolicy \<Rightarrow> rat \<Rightarrow> rat option \<Rightarrow> RoutingTiming option \<times> rat" where
  "sample_cycle_timing s P now sample =
     (if pp_cycle_timebox P = None then (None, 0)
      else (let delta = (case sample of Some t \<Rightarrow> if ps_cycle_timebox_active s then max 0 (now - t) else 0 | None \<Rightarrow> 0)
            in (Some (ps_cycle_timebox_consumed_seconds s + delta), delta)))"

definition fold_cycle_elapsed :: "PipelineState \<Rightarrow> PipelineState \<Rightarrow> rat \<Rightarrow> bool \<Rightarrow> PipelineState" where
  "fold_cycle_elapsed before after delta timing_enabled =
     (if \<not> timing_enabled \<or> \<not> ps_cycle_timebox_active before \<or> delta \<le> 0 then after
      else after\<lparr>ps_cycle_timebox_consumed_seconds := ps_cycle_timebox_consumed_seconds after + delta\<rparr>)"

definition integration_conflict_failure :: "PipelineState \<Rightarrow> RebaseState \<Rightarrow> Event" where
  "integration_conflict_failure s outcome =
     (let reason = (if truthy (rb_last_reason outcome) then the (rb_last_reason outcome)
                    else ''the conflict resolver did not produce a resolution'')
      in PhaseFailureEv \<lparr>pf_phase = ps_phase s, pf_reason = ''integration conflict requires resolution: '' @ reason,
           pf_recoverable = True, pf_retry_in_session = False, pf_failure_category = None, pf_skip_same_agent_retries = False\<rparr>)"

text \<open>Every pipeline event but \<^verbatim>\<open>COMMIT_SUCCESS\<close>, which the commit seam handles.\<close>

definition PHASE_TRANSITION_INTEGRATION_EVENTS :: "PipelineEvent list" where
  "PHASE_TRANSITION_INTEGRATION_EVENTS =
     [AGENT_SUCCESS, AGENT_FAILURE, AGENT_RETRY, ANALYSIS_SUCCESS, ANALYSIS_LOOPBACK, PHASE_LOOPBACK, PHASE_ADVANCE,
      REVIEW_CLEAN, REVIEW_ISSUES_FOUND, FIX_SUCCESS, FIX_FAILURE, COMMIT_RESIDUAL, COMMIT_SKIPPED, COMMIT_FAILURE,
      CHECKPOINT_SAVED, CONTEXT_CLEANED, INTERRUPTED, PROMPT_PREPARED, FAN_OUT_STARTED, WORKERS_RESUMED,
      ALL_WORKERS_COMPLETE, COMPLETE, EV_FAILED]"

definition integrate_on_phase_transition :: "Event \<Rightarrow> RebaseState option \<Rightarrow> RebaseState option" where
  "integrate_on_phase_transition event outcome =
     (case event of PipelineEv e \<Rightarrow> if e \<in> set PHASE_TRANSITION_INTEGRATION_EVENTS then outcome else None | _ \<Rightarrow> None)"

definition maybe_auto_integrate :: "Effect \<Rightarrow> Event \<Rightarrow> PhaseDefinition option \<Rightarrow> RebaseState option \<Rightarrow> RebaseState option" where
  "maybe_auto_integrate effect event d outcome =
     (let commit_phase = (case d of None \<Rightarrow> False | Some x \<Rightarrow> pd_role x = Some RoleCommit);
          commit_effect = (case effect of CommitEffect m \<Rightarrow> True | _ \<Rightarrow> False)
      in if commit_effect \<and> commit_phase \<and> event = PipelineEv COMMIT_SUCCESS then outcome
         else integrate_on_phase_transition event outcome)"

definition integrate_after_fan_out :: "PipelinePolicy \<Rightarrow> timestamp \<Rightarrow> RebaseState option \<Rightarrow> PipelineState \<Rightarrow> PipelineState result" where
  "integrate_after_fan_out P now outcome s =
     (case outcome of None \<Rightarrow> Inr s
      | Some r \<Rightarrow> if integration_unresolved r then reduce_plain P now s (integration_conflict_failure s r) else Inr s)"

text \<open>\<^verbatim>\<open>ckpt.save\<close>, and the variant that logs a failure and goes on.\<close>

definition save_or_raise :: "StepInput \<Rightarrow> PipelineState \<Rightarrow> Held \<Rightarrow> (RawFailure \<times> Held) + Held" where
  "save_or_raise i s h = (case si_save_error i of Some e \<Rightarrow> Inl (e, h) | None \<Rightarrow> Inr (h\<lparr>hd_saved := hd_saved h @ [s]\<rparr>))"

definition save_checkpoint_or_log :: "bool \<Rightarrow> PipelineState \<Rightarrow> Held \<Rightarrow> Held" where
  "save_checkpoint_or_log fails s h = (if fails then h else h\<lparr>hd_saved := hd_saved h @ [s]\<rparr>)"

section \<open>Inline effects\<close>

text \<open>An inline effect raises, returns an exit code, or returns a state; \<open>None\<close> for the other effects.\<close>

type_synonym inline = "(RawFailure \<times> Held) + (int + Held)"

definition prepared_state :: "PipelinePolicy \<Rightarrow> RoutingTiming option \<Rightarrow> string \<Rightarrow> string option \<Rightarrow> PipelineState \<Rightarrow> PipelineState" where
  "prepared_state P timing phase drain s =
     (let (s1, target) =
        (if ps_phase s = failed_route P
         then (let d = apply_cycle_timebox s phase P
                     (Some (case timing of Some t \<Rightarrow> t | None \<Rightarrow> ps_cycle_timebox_consumed_seconds s));
                   r = reset_phase_chain_for_recovery (td_state d) (td_target_phase d)
               in (case phase_of P (td_target_phase d) of
                     Some pd \<Rightarrow> if pd_role pd = Some RoleCommit then r\<lparr>ps_commit := fresh_commit\<rparr> else r
                   | None \<Rightarrow> r, td_target_phase d))
         else (s, phase));
          requested = (if target = phase then drain else None);
          s2 = s1\<lparr>ps_phase := target,
                  ps_current_drain := (if truthy requested then requested else resolve_phase_drain target P)\<rparr>
      in if target \<noteq> ps_phase s1
         then s2\<lparr>ps_last_agent_session_id := None, ps_agent_retry_intent := cleared_agent_retry_intent\<rparr> else s2)"

definition saved_inline :: "StepInput \<Rightarrow> PipelineState \<Rightarrow> Held \<Rightarrow> inline" where
  "saved_inline i s h = (case save_or_raise i s h of Inl x \<Rightarrow> Inl x | Inr h' \<Rightarrow> Inr (Inr (h'\<lparr>hd_state := s\<rparr>)))"

definition handle_inline_effect :: "PipelinePolicy \<Rightarrow> StepInput \<Rightarrow> RoutingTiming option \<Rightarrow> Effect \<Rightarrow> Held \<Rightarrow> inline option" where
  "handle_inline_effect P i timing effect h =
     (let s = hd_state h in
      case effect of
        SaveCheckpointEffect \<Rightarrow> Some (case save_or_raise i s h of Inl x \<Rightarrow> Inl x
          | Inr h' \<Rightarrow> (case reduce_plain P (si_time i) s (PipelineEv CHECKPOINT_SAVED) of
                Inl e \<Rightarrow> Inl (exception_of e, h') | Inr s' \<Rightarrow> Inr (Inr (h'\<lparr>hd_state := s'\<rparr>))))
      | PreparePromptEffect phase drain prev skip \<Rightarrow>
          Some (case (if skip then Prepared else si_preparation i) of
              Prepared \<Rightarrow> saved_inline i (prepared_state P timing phase drain s) h
            | MissingPlanHandoffError m \<Rightarrow> saved_inline i (recover_missing_plan_handoff s P m) h
            | PrepareRaised e \<Rightarrow> Inl (e, h))
      | ExitSuccessEffect \<Rightarrow> Some (Inr (Inl 0))
      | ExitFailureEffect reason \<Rightarrow> Some (saved_inline i
          ((advanced P (failed_route P) s)\<lparr>ps_last_error := Some reason, ps_recovery_epoch := ps_recovery_epoch s + 1\<rparr>) h)
      | _ \<Rightarrow> None)"

definition integrate_inline_effect :: "PipelinePolicy \<Rightarrow> StepInput \<Rightarrow> PipelineState \<Rightarrow> int + Held \<Rightarrow> inline" where
  "integrate_inline_effect P i s result =
     (case si_outcome i of
        None \<Rightarrow> Inr result
      | Some outcome \<Rightarrow>
          if integration_unresolved outcome then
            (case result of Inl code \<Rightarrow> Inr (Inl 1)
             | Inr h' \<Rightarrow> (case reduce_plain P (si_time i) s (integration_conflict_failure s outcome) of
                 Inl e \<Rightarrow> Inl (exception_of e, h'\<lparr>hd_state := s\<rparr>)
               | Inr s' \<Rightarrow> Inr (Inr (h'\<lparr>hd_state := s', hd_rebase := outcome\<rparr>))))
          else (case result of Inl code \<Rightarrow> Inr (Inl code) | Inr h' \<Rightarrow> Inr (Inr (h'\<lparr>hd_rebase := outcome\<rparr>))))"

section \<open>A step\<close>

text \<open>The crash handler: recovery from an exception, with the state the step held when it was raised.\<close>

definition reduce_runtime_recovery ::
  "PipelinePolicy \<Rightarrow> StepInput \<Rightarrow> RoutingTiming option \<Rightarrow> RawFailure \<Rightarrow> Held
   \<Rightarrow> (RecoveryController \<times> PipelineState \<times> Effect list) result" where
  "reduce_runtime_recovery P i timing exc h =
     (let s = hd_state h in
      bind_r (redirect_expired_cycle_in_place s (Some P) timing) (\<lambda>expired. case expired of
        Some (s', effs) \<Rightarrow> Inr (hd_controller h, s', effs)
      | None \<Rightarrow> bind_r (handle (si_classify i) (si_clock i) (hd_controller h) s exc
            \<lparr>fc_phase = ps_phase s, fc_agent = current_agent s, fc_retry_in_session = False, fc_classified_failure = None\<rparr>)
          (\<lambda>(rc, s', effs, evt). Inr (rc, restore_work_units s s', effs))))"

definition crash :: "PipelinePolicy \<Rightarrow> StepInput \<Rightarrow> RoutingTiming option \<Rightarrow> RawFailure \<times> Held \<Rightarrow> StepResult" where
  "crash P i timing eh =
     (case eh of (exc, h) \<Rightarrow>
       (case reduce_runtime_recovery P i timing exc h of
          Inl e \<Rightarrow> Raises e h
        | Inr (rc, s, effs) \<Rightarrow>
            if list_ex is_exit_failure effs then Exits 1 (h\<lparr>hd_controller := rc\<rparr>)
            else Goes_On ((save_checkpoint_or_log (si_crash_save_fails i) s (h\<lparr>hd_controller := rc\<rparr>))
                   \<lparr>hd_state := with_phase_timing (si_timing i) s\<rparr>)))"

definition timed_inline :: "PipelinePolicy \<Rightarrow> StepInput \<Rightarrow> RoutingTiming option \<Rightarrow> inline \<Rightarrow> Held \<Rightarrow> StepResult" where
  "timed_inline P i timing r h = (case r of
     Inl x \<Rightarrow> crash P i timing x
   | Inr (Inl code) \<Rightarrow> Exits code h
   | Inr (Inr h') \<Rightarrow> Goes_On (h'\<lparr>hd_state := with_phase_timing (si_timing i) (hd_state h')\<rparr>))"

definition run_fan_out_phase ::
  "PipelinePolicy \<Rightarrow> StepInput \<Rightarrow> RoutingTiming option \<Rightarrow> WorkUnit list \<Rightarrow> int \<Rightarrow> bool \<Rightarrow> Held \<Rightarrow> StepResult" where
  "run_fan_out_phase P i timing us workers verify h =
     (let ctx = (si_wave i)\<lparr>wc_policy := P, wc_max_workers := workers, wc_verify := verify,
                  wc_on_success := integrate_after_fan_out P (si_time i) (si_outcome i)\<rparr>
      in case run_fan_out_async ctx (si_wave_clock i) us (hd_state h) of (saved, result) \<Rightarrow>
        (let h' = h\<lparr>hd_wave_saved := hd_wave_saved h @ saved\<rparr> in
         case result of
           Inl e \<Rightarrow> crash P i timing (exception_of e, h')
         | Inr None \<Rightarrow> Still_Waiting h'
         | Inr (Some s') \<Rightarrow>
             Goes_On (h'\<lparr>hd_state := with_phase_timing (si_timing i) s', hd_rebase := si_wave_rebase i\<rparr>)))"

text \<open>The state and the event after an agent ran; an exception of the phase handler leaves the state as it was.\<close>

definition finalize_agent_invocation :: "StepInput \<Rightarrow> Effect \<Rightarrow> Event \<Rightarrow> Held \<Rightarrow> (RawFailure \<times> Held) + (Event \<times> Held)" where
  "finalize_agent_invocation i effect event h =
     (case effect of
        InvokeAgentEffect agent phase f d c \<Rightarrow>
          (let captured = apply_session_capture (si_session i) (si_retry i) (hd_state h) in
           if event = PipelineEv AGENT_SUCCESS then
             (let h' = h\<lparr>hd_controller := controller_reset_backoff phase (Some agent) (hd_controller h)\<rparr>
              in case si_phase_event i of Inl e \<Rightarrow> Inl (e, h') | Inr ev \<Rightarrow> Inr (ev, h'\<lparr>hd_state := captured\<rparr>))
           else Inr (event, h\<lparr>hd_state := captured\<rparr>))
      | _ \<Rightarrow> Inr (event, h))"

text \<open>
  After the reduction the transition is recorded and the outputs of skipped phases are cleared; what that raises crashes
  the step with the state before the reduction, but the controller and the sample of the timer have moved.
\<close>

definition reduce_step :: "PipelinePolicy \<Rightarrow> StepInput \<Rightarrow> RoutingTiming option \<Rightarrow> Effect \<Rightarrow> Event \<Rightarrow> Held \<Rightarrow> StepResult" where
  "reduce_step P i timing effect event h =
     (let s = hd_state h;
          outcome = maybe_auto_integrate effect event (phase_of P (ps_phase s)) (si_outcome i);
          event' = (case outcome of Some r \<Rightarrow> if integration_unresolved r then integration_conflict_failure s r else event | None \<Rightarrow> event);
          (timing', delta) = sample_cycle_timing s P (si_reduced i) (hd_sample h)
      in case reduce s event' (Some P) (Some (si_classify i, si_clock i, hd_controller h)) timing' (si_time i) of
        Inl e \<Rightarrow> crash P i timing (exception_of e, h\<lparr>hd_controller := si_left_controller i (hd_controller h)\<rparr>)
      | Inr (rc, s', effs) \<Rightarrow>
          (let next_state = fold_cycle_elapsed s s' delta (pp_cycle_timebox P \<noteq> None);
               h' = h\<lparr>hd_controller := (case rc of Some x \<Rightarrow> x | None \<Rightarrow> hd_controller h),
                      hd_sample := (if pp_cycle_timebox P \<noteq> None then Some (si_reduced i) else hd_sample h)\<rparr>
           in case si_recording_error i of
             Some e \<Rightarrow> crash P i timing (e, h')
           | None \<Rightarrow>
               Goes_On ((save_checkpoint_or_log (si_save_error i \<noteq> None) next_state h')
                 \<lparr>hd_state := with_phase_timing (si_timing i) next_state,
                  hd_rebase := (case outcome of Some r \<Rightarrow> r | None \<Rightarrow> hd_rebase h)\<rparr>)))"

definition perform_effect :: "PipelinePolicy \<Rightarrow> StepInput \<Rightarrow> RoutingTiming option \<Rightarrow> Effect \<Rightarrow> Held \<Rightarrow> StepResult" where
  "perform_effect P i timing effect h =
     (case si_preparation i of
        MissingPlanHandoffError m \<Rightarrow>
          timed_inline P i timing (saved_inline i (recover_missing_plan_handoff (hd_state h) P m) h) h
      | PrepareRaised e \<Rightarrow> crash P i timing (e, h)
      | Prepared \<Rightarrow>
          (case si_executed i of
             Inl e \<Rightarrow> crash P i timing (e, h)
           | Inr event \<Rightarrow>
               (case finalize_agent_invocation i effect event h of
                  Inl x \<Rightarrow> crash P i timing x
                | Inr (event', h') \<Rightarrow> reduce_step P i timing effect event' h')))"

definition run_pipeline_step :: "PolicyBundle \<Rightarrow> StepInput \<Rightarrow> Held \<Rightarrow> StepResult" where
  "run_pipeline_step B i h =
     (let P = pb_pipeline B; s = hd_state h;
          (timing, delta) = sample_cycle_timing s P (si_started i) (hd_sample h)
      in case (if ps_phase s = RESOLUTION_DRAIN then Inr ()
               else assert_non_resolution_dispatch_allowed (ps_phase s) (inspect_integration_resolution (si_tree i) (hd_rebase h))) of
        Inl e \<Rightarrow> crash P i timing (exception_of e, h)
      | Inr _ \<Rightarrow>
          (case determine_effect_from_policy s B (si_config i) (si_env i) of
             Inl e \<Rightarrow> crash P i timing (exception_of e, h)
           | Inr effect \<Rightarrow>
               (case handle_inline_effect P i timing effect h of
                  Some (Inl x) \<Rightarrow> crash P i timing x
                | Some (Inr result) \<Rightarrow> timed_inline P i timing (integrate_inline_effect P i s result) h
                | None \<Rightarrow>
                    (case effect of FanOutEffect us workers verify phase \<Rightarrow> run_fan_out_phase P i timing us workers verify h
                     | _ \<Rightarrow> perform_effect P i timing effect h))))"

section \<open>The loop\<close>

datatype Connectivity = ONLINE | OFFLINE | UNKNOWN

text \<open>
  What one iteration meets: the worktree at the gate before and after the resolver ran; the target and the conflict that
  the budget compares with, \<open>None\<close> when there is no target; the record the integration seam answers; the connectivity
  monitor; the step; whether the pause fails; the worktree after a pause; and the clock of agent selection.
\<close>

record LoopInput =
  li_tree :: "LiveTree option"
  li_target :: "string option"
  li_identity :: ConflictIdentity
  li_recovered :: "RebaseState option"
  li_tree_recovered :: "LiveTree option"
  li_save_fails :: bool
  li_connectivity :: Connectivity
  li_step :: StepInput
  li_sleep_fails :: bool
  li_tree_resumed :: "LiveTree option"
  li_select_ms :: int

definition exhaustion_still_binds :: "LoopInput \<Rightarrow> RebaseState \<Rightarrow> bool" where
  "exhaustion_still_binds i r = (case li_target i of
     None \<Rightarrow> True
   | Some t \<Rightarrow> if t = [] then True else \<not> resolver_allowed r t (li_identity i))"

text \<open>
  On the left, the run is blocked and ends with exit code 1; on the right it goes on. The record of a successful recovery
  is saved with the state, but the state the caller goes on with is the one it passed.
\<close>

definition block_unresolved_integration :: "LoopInput \<Rightarrow> Held \<Rightarrow> Held + Held" where
  "block_unresolved_integration i h =
     (let verdict = inspect_integration_resolution (li_tree i) (hd_rebase h) in
      if dispatch_allowed verdict then Inr h
      else (let h1 = save_checkpoint_or_log (li_save_fails i) (hd_state h) h in
        if iv_status verdict = EXHAUSTED \<and> exhaustion_still_binds i (hd_rebase h) then Inl h1
        else if iv_status verdict \<in> {RECOVERABLE, EXHAUSTED} then
          (let (r, h2) = (case li_recovered i of
                 Some r \<Rightarrow> (r, save_checkpoint_or_log (li_save_fails i) (hd_state h1) h1) | None \<Rightarrow> (hd_rebase h1, h1))
           in if dispatch_allowed (inspect_integration_resolution (li_tree_recovered i) r) then Inr h2
              else Inl (h2\<lparr>hd_rebase := r\<rparr>))
        else Inl h1))"

definition apply_connectivity_check :: "Connectivity \<Rightarrow> PipelineState \<Rightarrow> PipelineState" where
  "apply_connectivity_check c s = (if c = UNKNOWN then s else s\<lparr>ps_last_connectivity_state := ''online''\<rparr>)"

definition reselect_preferred_agent :: "int \<Rightarrow> RecoveryController \<Rightarrow> PipelineState \<Rightarrow> PipelineState" where
  "reselect_preferred_agent now rc s =
     (case chain_for_phase s (ps_phase s) of
        None \<Rightarrow> s
      | Some c \<Rightarrow> (case sel_index (preferred_agent_index rc (ps_phase s) (acs_agents c) None False now) of
          None \<Rightarrow> s
        | Some k \<Rightarrow> if k = acs_current_index c then s
            else (with_phase_chain (ps_phase s) \<lparr>acs_agents = acs_agents c, acs_current_index = k, acs_retries = 0\<rparr> s)
              \<lparr>ps_last_agent_session_id := None, ps_agent_retry_intent := cleared_agent_retry_intent\<rparr>))"

definition resume_after_cooldown_wait :: "LoopInput \<Rightarrow> Held \<Rightarrow> PipelineState \<Rightarrow> PipelineState" where
  "resume_after_cooldown_wait i h s =
     (if dispatch_allowed (inspect_integration_resolution (li_tree_resumed i) (hd_rebase h))
      then reselect_preferred_agent (li_select_ms i) (hd_controller h) s else s)\<lparr>ps_is_waiting_state := False\<rparr>"

definition pause_for_retry :: "LoopInput \<Rightarrow> Held \<Rightarrow> PipelineState" where
  "pause_for_retry i h =
     (let s = hd_state h in
      if ps_last_retry_delay_ms s \<le> 0 then s
      else if li_sleep_fails i then s\<lparr>ps_last_retry_delay_ms := 1000\<rparr>
      else (let s1 = s\<lparr>ps_last_retry_delay_ms := 0\<rparr>
            in if ps_is_waiting_state s then resume_after_cooldown_wait i h s1 else s1))"

definition loop_iteration :: "PolicyBundle \<Rightarrow> LoopInput \<Rightarrow> Held \<Rightarrow> StepResult" where
  "loop_iteration B i h0 =
     (case block_unresolved_integration i h0 of
        Inl h \<Rightarrow> Exits 1 h
      | Inr h1 \<Rightarrow>
          (let h = h1\<lparr>hd_state := apply_connectivity_check (li_connectivity i) (hd_state h1)\<rparr> in
           case run_pipeline_step B (li_step i) h of
             Goes_On h' \<Rightarrow>
               (let s = pause_for_retry i h'
                in Goes_On (h'\<lparr>hd_state := (if ps_phase s \<noteq> ps_phase (hd_state h)
                     then reselect_preferred_agent (li_select_ms i) (hd_controller h') s else s)\<rparr>))
           | Exits code h' \<Rightarrow> Exits code (h'\<lparr>hd_state := hd_state h, hd_rebase := hd_rebase h\<rparr>)
           | r \<Rightarrow> r))"

text \<open>A run over the inputs of its iterations: it is finished with an exit code, or stopped for another reason, or still runs.\<close>

datatype RunResult = Finished int Held | Stopped StepResult | Running Held

fun run_loop :: "PolicyBundle \<Rightarrow> LoopInput list \<Rightarrow> Held \<Rightarrow> RunResult" where
  "run_loop B [] h = (if ps_phase (hd_state h) = pp_terminal_phase (pb_pipeline B) then Finished 0 h else Running h)"
| "run_loop B (i # is) h =
     (if ps_phase (hd_state h) = pp_terminal_phase (pb_pipeline B) then Finished 0 h
      else (case loop_iteration B i h of
          Goes_On h' \<Rightarrow> run_loop B is h'
        | Exits code h' \<Rightarrow> Finished code h'
        | r \<Rightarrow> Stopped r))"

text \<open>Where a run starts: fresh, or resumed from a checkpoint, with the counters the operator asks for.\<close>

definition with_counter_overrides :: "(string, int) dict \<Rightarrow> PipelineState \<Rightarrow> PipelineState" where
  "with_counter_overrides overrides s =
     (if overrides = [] then s
      else s\<lparr>ps_budget_caps := fold (\<lambda>(k, v). dict_set k v) overrides (ps_budget_caps s)\<rparr>)"

definition resolve_initial_state ::
  "UnifiedConfig \<Rightarrow> PolicyBundle \<Rightarrow> PipelineState option \<Rightarrow> (string, int) dict \<Rightarrow> PipelineState" where
  "resolve_initial_state config B initial overrides =
     (case initial of
        Some s \<Rightarrow> with_counter_overrides overrides (initialize_legacy_cycle_on_resume s (pb_pipeline B))
      | None \<Rightarrow> create_initial_state config (Some (pb_agents B)) (pb_pipeline B) overrides)"

definition validate_checkpoint_against_policy :: "PipelineState \<Rightarrow> PolicyBundle \<Rightarrow> bool" where
  "validate_checkpoint_against_policy s B =
     (\<not> (pp_entry_block (pb_pipeline B) \<noteq> None \<and> ps_policy_format_version s \<noteq> Some 2)
      \<and> dict_has (pp_phases (pb_pipeline B)) (ps_phase s)
      \<and> (case ps_current_drain s of None \<Rightarrow> True | Some d \<Rightarrow> dict_has (ap_agent_drains (pb_agents B)) d))"

end
