(* ===== verification/Run_Guarantees.thy ===== *)
theory Run_Guarantees
  imports Run_Loop
begin

text \<open>
  What the loop of a run guarantees: why it ends, with which exit code, what the closed integration gate hides from the
  agents, and where the loop does not do what its documentation says.
\<close>

section \<open>Why a run ends\<close>

definition gate_open :: "StepInput \<Rightarrow> Held \<Rightarrow> bool" where
  "gate_open i h \<longleftrightarrow> ps_phase (hd_state h) = RESOLUTION_DRAIN
     \<or> dispatch_allowed (inspect_integration_resolution (si_tree i) (hd_rebase h))"

lemma gate_assertion:
  "(if ps_phase (hd_state h) = RESOLUTION_DRAIN then Inr ()
    else assert_non_resolution_dispatch_allowed (ps_phase (hd_state h)) (inspect_integration_resolution (si_tree i) (hd_rebase h)))
   = Inr () \<longleftrightarrow> gate_open i h"
  by (auto simp: gate_open_def assert_non_resolution_dispatch_allowed_def Let_def)

lemma success_effect_phase:
  assumes "determine_effect_from_policy s B config env = Inr ExitSuccessEffect"
  shows "ps_phase s = pp_terminal_phase (pb_pipeline B)
     \<or> (\<exists>d. phase_of (pb_pipeline B) (ps_phase s) = Some d \<and> pd_skip_invocation d
          \<and> on_success (pd_transitions d) = pp_terminal_phase (pb_pipeline B))"
proof -
  have no_exit: "build_exit_failure_effect r \<noteq> Inr ExitSuccessEffect" for r
    by (auto simp: build_exit_failure_effect_def split: option.splits)
  have invoke: "invoke_or_exit s d B config m \<noteq> Inr ExitSuccessEffect" for d m
    by (auto simp: invoke_or_exit_def no_exit split: option.splits)
  have fan: "fan_out_effect s d us \<noteq> Inr ExitSuccessEffect" for d us
    by (auto simp: fan_out_effect_def no_exit Let_def split: option.splits sum.splits py_error.splits)
  have par: "parallel_or_agent_effect s d B config env \<noteq> Inr ExitSuccessEffect" for d
    by (auto simp: parallel_or_agent_effect_def bind_r_eq_Inr Let_def fan invoke)
  have com: "commit_phase_effect s d B config env \<noteq> Inr ExitSuccessEffect" for d
    by (auto simp: commit_phase_effect_def bind_r_eq_Inr invoke)
  have ana: "current_analysis_phase_advance_effect s d P \<noteq> Inr (Some ExitSuccessEffect)" for d P
    by (auto simp: current_analysis_phase_advance_effect_def bind_r_def split: sum.splits)
  show ?thesis
    using assms
    by (auto simp: determine_effect_from_policy_def Let_def terminal_phase_effect_def recovery_prepare_effect_def
        bind_r_def no_exit par com ana skip_invocation_effect_def split: if_splits option.splits sum.splits)
qed

lemma runtime_recovery_exit:
  assumes "reduce_runtime_recovery P i timing exc h = Inr (rc, s, effs)" and "list_ex is_exit_failure effs"
  shows "rc_cap rc \<le> ps_recovery_cycle_count s \<and> ps_recovery_cycle_count s \<le> ps_recovery_cycle_count (hd_state h) + 1"
proof -
  have quiet: "redirect_expired_cycle_in_place s0 pol t = Inr (Some (s1, es)) \<Longrightarrow> es = []" for s0 pol t s1 es
    by (auto simp: redirect_expired_cycle_in_place_def reducer_advance_phase_def bind_r_def Let_def
        split: option.splits if_splits sum.splits)
  have count: "ps_recovery_cycle_count (restore_work_units a b) = ps_recovery_cycle_count b" for a b
    by (simp add: restore_work_units_def set_work_units_def)
  let ?ctx = "\<lparr>fc_phase = ps_phase (hd_state h), fc_agent = current_agent (hd_state h), fc_retry_in_session = False,
    fc_classified_failure = None\<rparr>"
  show ?thesis
    using assms quiet [of "hd_state h" "Some P" timing]
      handle_spec [of "hd_controller h" "hd_state h" "si_classify i" exc ?ctx "si_clock i"]
    by (auto simp: reduce_runtime_recovery_def Let_def bind_r_def handled_ok_def cap_respected_def count same_config_def
        split: sum.splits option.splits prod.splits)
qed

text \<open>A step that does not go on ended in the crash handler, called with a state of the given cycle count.\<close>

definition crashed_from :: "PipelinePolicy \<Rightarrow> StepInput \<Rightarrow> int \<Rightarrow> StepResult \<Rightarrow> bool" where
  "crashed_from P i n r \<longleftrightarrow>
     (\<exists>timing exc h. r = crash P i timing (exc, h) \<and> ps_recovery_cycle_count (hd_state h) = n)"

definition goes_on_or_crashes :: "PipelinePolicy \<Rightarrow> StepInput \<Rightarrow> int \<Rightarrow> StepResult \<Rightarrow> bool" where
  "goes_on_or_crashes P i n r \<longleftrightarrow> crashed_from P i n r \<or> (\<exists>h'. r = Goes_On h')"

lemma crash_ends:
  "ps_recovery_cycle_count (hd_state (snd x)) = n \<Longrightarrow> goes_on_or_crashes P i n (crash P i timing x)"
  by (cases x) (auto simp: goes_on_or_crashes_def crashed_from_def)

lemma goes_on_ends [simp]: "goes_on_or_crashes P i n (Goes_On h)"
  by (simp add: goes_on_or_crashes_def)

lemma capture_count [simp]: "ps_recovery_cycle_count (apply_session_capture session intent s) = ps_recovery_cycle_count s"
  by (simp add: apply_session_capture_def)

lemma reduce_step_ends: "goes_on_or_crashes P i (ps_recovery_cycle_count (hd_state h)) (reduce_step P i timing effect event h)"
  by (auto simp: reduce_step_def Let_def intro!: crash_ends split: sum.splits prod.splits option.splits)

lemma finalized_count:
  "finalize_agent_invocation i effect event h = Inr (ev, h') \<Longrightarrow> ps_recovery_cycle_count (hd_state h') = ps_recovery_cycle_count (hd_state h)"
  "finalize_agent_invocation i effect event h = Inl x \<Longrightarrow> ps_recovery_cycle_count (hd_state (snd x)) = ps_recovery_cycle_count (hd_state h)"
  by (auto simp: finalize_agent_invocation_def Let_def split: Effect.splits if_splits sum.splits)

lemma timed_inline_ends:
  assumes "\<And>x. r = Inl x \<Longrightarrow> ps_recovery_cycle_count (hd_state (snd x)) = n" and "\<And>c. r \<noteq> Inr (Inl c)"
  shows "goes_on_or_crashes P i n (timed_inline P i timing r h)"
  using assms by (auto simp: timed_inline_def intro: crash_ends split: sum.splits)

lemma saved_inline_results:
  "saved_inline i s h = Inl x \<Longrightarrow> snd x = h" "saved_inline i s h \<noteq> Inr (Inl c)"
  by (auto simp: saved_inline_def save_or_raise_def split: option.splits sum.splits)

lemma perform_effect_ends:
  "goes_on_or_crashes P i (ps_recovery_cycle_count (hd_state h)) (perform_effect P i timing effect h)"
proof -
  have "goes_on_or_crashes P i (ps_recovery_cycle_count (hd_state h)) (reduce_step P i timing effect ev h')"
    if "finalize_agent_invocation i effect event h = Inr (ev, h')" for event ev h'
    using reduce_step_ends [of P i h' timing effect ev] finalized_count(1) [OF that] by simp
  then show ?thesis
    by (auto simp: perform_effect_def saved_inline_results(2) dest: saved_inline_results(1) finalized_count(2)
        intro!: crash_ends timed_inline_ends split: Preparation.splits sum.splits prod.splits)
qed

lemma fan_out_ends:
  "goes_on_or_crashes P i (ps_recovery_cycle_count (hd_state h)) (run_fan_out_phase P i timing us m v h)
   \<or> (\<exists>h'. run_fan_out_phase P i timing us m v h = Still_Waiting h')"
  by (auto simp: run_fan_out_phase_def Let_def intro!: crash_ends split: sum.splits option.splits prod.splits)

text \<open>The only inline effect that answers an exit code is the success exit.\<close>

lemma inline_results:
  assumes "handle_inline_effect P i timing effect h = Some r"
  shows "(\<forall>x. r = Inl x \<longrightarrow> hd_state (snd x) = hd_state h)
    \<and> (\<forall>c. r = Inr (Inl c) \<longrightarrow> c = 0 \<and> effect = ExitSuccessEffect)"
  using assms
  by (auto simp: handle_inline_effect_def Let_def save_or_raise_def saved_inline_results(2) dest: saved_inline_results(1)
      split: Effect.splits option.splits sum.splits Preparation.splits if_splits)

text \<open>How a step ends: it goes on or crashes, it waits for a wave of workers, or it exits with the run complete.\<close>

definition step_completes :: "PolicyBundle \<Rightarrow> StepInput \<Rightarrow> Held \<Rightarrow> StepResult \<Rightarrow> bool" where
  "step_completes B i h r \<longleftrightarrow> gate_open i h
     \<and> determine_effect_from_policy (hd_state h) B (si_config i) (si_env i) = Inr ExitSuccessEffect
     \<and> r = Exits (if \<exists>x. si_outcome i = Some x \<and> integration_unresolved x then 1 else 0) h"

definition step_waits :: "PolicyBundle \<Rightarrow> StepInput \<Rightarrow> Held \<Rightarrow> StepResult \<Rightarrow> bool" where
  "step_waits B i h r \<longleftrightarrow> gate_open i h \<and> (\<exists>h'. r = Still_Waiting h')
     \<and> (\<exists>us m v ph. determine_effect_from_policy (hd_state h) B (si_config i) (si_env i) = Inr (FanOutEffect us m v ph))"

lemma step_ends:
  "goes_on_or_crashes (pb_pipeline B) i (ps_recovery_cycle_count (hd_state h)) (run_pipeline_step B i h)
   \<or> step_completes B i h (run_pipeline_step B i h) \<or> step_waits B i h (run_pipeline_step B i h)"
proof -
  let ?P = "pb_pipeline B" and ?n = "ps_recovery_cycle_count (hd_state h)"
  obtain timing delta where t: "sample_cycle_timing (hd_state h) ?P (si_started i) (hd_sample h) = (timing, delta)"
    by fastforce
  have crash: "goes_on_or_crashes ?P i ?n (crash ?P i timing (e, h))" for e by (rule crash_ends) simp
  show ?thesis
  proof (cases "gate_open i h")
    case False
    then obtain e where "run_pipeline_step B i h = crash ?P i timing (exception_of e, h)"
      by (auto simp: run_pipeline_step_def Let_def t gate_open_def assert_non_resolution_dispatch_allowed_def)
    with crash show ?thesis by simp
  next
    case open': True
    note gate = gate_assertion [THEN iffD2, OF open']
    show ?thesis
    proof (cases "determine_effect_from_policy (hd_state h) B (si_config i) (si_env i)")
      case (Inl e)
      with crash show ?thesis by (simp add: run_pipeline_step_def Let_def t gate)
    next
      case (Inr effect)
      then have step: "run_pipeline_step B i h = (case handle_inline_effect ?P i timing effect h of
            Some (Inl x) \<Rightarrow> crash ?P i timing x
          | Some (Inr result) \<Rightarrow> timed_inline ?P i timing (integrate_inline_effect ?P i (hd_state h) result) h
          | None \<Rightarrow> (case effect of FanOutEffect us workers verify phase \<Rightarrow> run_fan_out_phase ?P i timing us workers verify h
              | _ \<Rightarrow> perform_effect ?P i timing effect h))"
        by (simp add: run_pipeline_step_def Let_def t gate)
      show ?thesis
      proof (cases "handle_inline_effect ?P i timing effect h")
        case None
        note performed = perform_effect_ends [of ?P i h timing effect]
        show ?thesis
        proof (cases effect)
          case (FanOutEffect us m v ph)
          with step None fan_out_ends [of ?P i h timing us m v] Inr open' show ?thesis
            by (auto simp: step_waits_def)
        qed (use step None performed in simp_all)
      next
        case (Some r)
        then consider (raised) x where "r = Inl x" "hd_state (snd x) = hd_state h"
          | (code) "r = Inr (Inl 0)" "effect = ExitSuccessEffect" | (state) h'' where "r = Inr (Inr h'')"
          using inline_results [OF Some] by (cases r) (auto split: sum.splits, metis sum.exhaust)
        then show ?thesis
        proof cases
          case raised
          with step Some crash_ends [of x ?n ?P i timing] show ?thesis by simp
        next
          case code
          with step Some Inr open' show ?thesis
            by (auto simp: step_completes_def integrate_inline_effect_def timed_inline_def split: option.splits)
        next
          case state
          have "goes_on_or_crashes ?P i ?n (timed_inline ?P i timing (integrate_inline_effect ?P i (hd_state h) (Inr h'')) h)"
            by (rule timed_inline_ends)
              (auto simp: integrate_inline_effect_def split: option.splits if_splits sum.splits)
          with state step Some show ?thesis by simp
        qed
      qed
    qed
  qed
qed

text \<open>
  The reasons for which a run may end before its terminal phase, with their exit codes. In the last one the step was
  handled as a crash and the recovery from its exception answered the exit effect, with the recovery cycles at their cap.
\<close>

definition recovery_refused :: "PolicyBundle \<Rightarrow> StepInput \<Rightarrow> Held \<Rightarrow> bool" where
  "recovery_refused B i h \<longleftrightarrow>
     (\<exists>h0 timing exc h1 s effs. hd_state h0 = hd_state h \<and> hd_rebase h0 = hd_rebase h
        \<and> run_pipeline_step B i h0 = crash (pb_pipeline B) i timing (exc, h1)
        \<and> reduce_runtime_recovery (pb_pipeline B) i timing exc h1 = Inr (hd_controller h, s, effs)
        \<and> list_ex is_exit_failure effs \<and> rc_cap (hd_controller h) \<le> ps_recovery_cycle_count s
        \<and> ps_recovery_cycle_count s \<le> ps_recovery_cycle_count (hd_state h) + 1)"

definition exit_justified :: "PolicyBundle \<Rightarrow> LoopInput \<Rightarrow> int \<Rightarrow> Held \<Rightarrow> bool" where
  "exit_justified B i c h \<longleftrightarrow>
     (let P = pb_pipeline B; s = hd_state h;
          last_phase = (gate_open (li_step i) h \<and> (\<exists>d. phase_of P (ps_phase s) = Some d \<and> pd_skip_invocation d
            \<and> on_success (pd_transitions d) = pp_terminal_phase P));
          unresolved = (\<exists>r. si_outcome (li_step i) = Some r \<and> integration_unresolved r)
      in if c = 0 then last_phase \<and> \<not> unresolved
         else c = 1 \<and> (last_phase \<and> unresolved
           \<or> (\<exists>t \<in> {li_tree i, li_tree_recovered i}. \<not> dispatch_allowed (inspect_integration_resolution t (hd_rebase h)))
           \<or> recovery_refused B (li_step i) h))"

text \<open>
  A run stops without an exit code when the recovery from a crashed step raises itself, or while a wave of workers has
  not delivered its results.
\<close>

definition stop_justified :: "PolicyBundle \<Rightarrow> LoopInput \<Rightarrow> StepResult \<Rightarrow> bool" where
  "stop_justified B i r \<longleftrightarrow>
     (\<exists>h0. step_waits B (li_step i) h0 r)
     \<or> (\<exists>h0 timing exc h1 e. run_pipeline_step B (li_step i) h0 = crash (pb_pipeline B) (li_step i) timing (exc, h1)
          \<and> reduce_runtime_recovery (pb_pipeline B) (li_step i) timing exc h1 = Inl e \<and> r = Raises e h1)"

lemma save_or_log_frame [simp]:
  "hd_state (save_checkpoint_or_log b s h) = hd_state h" "hd_rebase (save_checkpoint_or_log b s h) = hd_rebase h"
  "hd_controller (save_checkpoint_or_log b s h) = hd_controller h" "hd_sample (save_checkpoint_or_log b s h) = hd_sample h"
  by (simp_all add: save_checkpoint_or_log_def)

lemma blocked_evidence:
  assumes "block_unresolved_integration i h = Inl h'"
  shows "\<exists>t \<in> {li_tree i, li_tree_recovered i}. \<not> dispatch_allowed (inspect_integration_resolution t (hd_rebase h'))"
  using assms by (auto simp: block_unresolved_integration_def Let_def split: if_splits option.splits prod.splits)

lemma unblocked_frame:
  assumes "block_unresolved_integration i h = Inr h'"
  shows "hd_state h' = hd_state h \<and> hd_rebase h' = hd_rebase h \<and> hd_controller h' = hd_controller h \<and> hd_sample h' = hd_sample h"
  using assms by (auto simp: block_unresolved_integration_def Let_def split: if_splits option.splits prod.splits)

lemma connectivity_frame [simp]:
  "ps_phase (apply_connectivity_check c s) = ps_phase s"
  "ps_recovery_cycle_count (apply_connectivity_check c s) = ps_recovery_cycle_count s"
  by (simp_all add: apply_connectivity_check_def)

lemma crash_cases:
  "crash P i timing (exc, h) = (case reduce_runtime_recovery P i timing exc h of
     Inl e \<Rightarrow> Raises e h
   | Inr (rc, s, effs) \<Rightarrow> if list_ex is_exit_failure effs then Exits 1 (h\<lparr>hd_controller := rc\<rparr>)
       else Goes_On ((save_checkpoint_or_log (si_crash_save_fails i) s (h\<lparr>hd_controller := rc\<rparr>))
              \<lparr>hd_state := with_phase_timing (si_timing i) s\<rparr>))"
  by (simp add: crash_def)

lemma crashed_step_exits:
  assumes "crashed_from (pb_pipeline B) i (ps_recovery_cycle_count (hd_state h)) (run_pipeline_step B i h)"
    and "run_pipeline_step B i h = Exits c h'"
  shows "c = 1 \<and> recovery_refused B i (h'\<lparr>hd_state := hd_state h, hd_rebase := hd_rebase h\<rparr>)"
proof -
  from assms(1) obtain timing exc h1 where x: "run_pipeline_step B i h = crash (pb_pipeline B) i timing (exc, h1)"
    "ps_recovery_cycle_count (hd_state h1) = ps_recovery_cycle_count (hd_state h)" by (auto simp: crashed_from_def)
  with assms(2) obtain rc s effs where r: "reduce_runtime_recovery (pb_pipeline B) i timing exc h1 = Inr (rc, s, effs)"
    "list_ex is_exit_failure effs" "c = 1" "hd_controller h' = rc"
    by (auto simp: crash_cases split: sum.splits if_splits)
  from runtime_recovery_exit [OF r(1,2)] r x show ?thesis unfolding recovery_refused_def
    by (intro conjI exI [of _ h] exI [of _ timing] exI [of _ exc] exI [of _ h1] exI [of _ s] exI [of _ effs]) simp_all
qed

lemma iteration_exits:
  assumes run: "loop_iteration B i h = Exits c h'" and work: "ps_phase (hd_state h) \<noteq> pp_terminal_phase (pb_pipeline B)"
  shows "exit_justified B i c h'"
proof (cases "block_unresolved_integration i h")
  case (Inl hb)
  with run blocked_evidence [OF Inl] show ?thesis by (auto simp: loop_iteration_def exit_justified_def Let_def)
next
  case (Inr h1)
  define h2 where "h2 = h1\<lparr>hd_state := apply_connectivity_check (li_connectivity i) (hd_state h1)\<rparr>"
  from run Inr obtain h3 where h3: "run_pipeline_step B (li_step i) h2 = Exits c h3"
    and h': "h' = h3\<lparr>hd_state := hd_state h2, hd_rebase := hd_rebase h2\<rparr>"
    by (auto simp: loop_iteration_def h2_def Let_def split: StepResult.splits)
  have phase: "ps_phase (hd_state h2) \<noteq> pp_terminal_phase (pb_pipeline B)"
    using work unblocked_frame [OF Inr] by (simp add: h2_def)
  have gate: "gate_open (li_step i) h' = gate_open (li_step i) h2" by (simp add: gate_open_def h')
  from step_ends [of B "li_step i" h2] consider
      (crashed) "crashed_from (pb_pipeline B) (li_step i) (ps_recovery_cycle_count (hd_state h2)) (Exits c h3)"
    | (complete) "step_completes B (li_step i) h2 (Exits c h3)"
    unfolding h3 by (auto simp: goes_on_or_crashes_def step_waits_def)
  then show ?thesis
  proof cases
    case crashed
    then have "c = 1 \<and> recovery_refused B (li_step i) h'"
      using crashed_step_exits [of B "li_step i" h2 c h3] h3 h' by simp
    then show ?thesis by (auto simp: exit_justified_def Let_def)
  next
    case complete
    with success_effect_phase [of "hd_state h2" B "si_config (li_step i)" "si_env (li_step i)"] phase gate
    show ?thesis by (auto simp: step_completes_def exit_justified_def Let_def h' split: if_splits)
  qed
qed

lemma iteration_stops:
  assumes run: "loop_iteration B i h = r" and r: "\<forall>h'. r \<noteq> Goes_On h'" "\<forall>c h'. r \<noteq> Exits c h'"
  shows "stop_justified B i r"
proof -
  from run r obtain h1 where h1: "block_unresolved_integration i h = Inr h1"
    by (auto simp: loop_iteration_def split: sum.splits)
  define h2 where "h2 = h1\<lparr>hd_state := apply_connectivity_check (li_connectivity i) (hd_state h1)\<rparr>"
  have step: "run_pipeline_step B (li_step i) h2 = r"
    using run r h1 by (auto simp: loop_iteration_def h2_def Let_def split: StepResult.splits)
  from step_ends [of B "li_step i" h2] r consider
      (crashed) "crashed_from (pb_pipeline B) (li_step i) (ps_recovery_cycle_count (hd_state h2)) r"
    | (waits) "step_waits B (li_step i) h2 r"
    unfolding step by (auto simp: goes_on_or_crashes_def step_completes_def)
  then show ?thesis
  proof cases
    case crashed
    then obtain timing exc h3 where x: "r = crash (pb_pipeline B) (li_step i) timing (exc, h3)" by (auto simp: crashed_from_def)
    obtain e where e: "reduce_runtime_recovery (pb_pipeline B) (li_step i) timing exc h3 = Inl e"
    proof (cases "reduce_runtime_recovery (pb_pipeline B) (li_step i) timing exc h3")
      case (Inr y)
      then have False using x r by (cases y) (auto simp: crash_cases split: if_splits)
      then show thesis ..
    qed (rule that)
    with x have "r = Raises e h3" by (simp add: crash_cases)
    with x e step show ?thesis unfolding stop_justified_def by metis
  qed (auto simp: stop_justified_def)
qed

text \<open>
  C5. A run ends for a reason, and its exit code tells which; an interrupt by the user is not considered. A run that
  finishes with exit code 0 is in the terminal phase, or in a phase that is skipped on the way to it with the integration
  gate open and no unresolved integration. A run that finishes otherwise has exit code 1, and then, for what one of its
  iterations read and the state it ended in, the worktree or the integration record closed the gate, or the integration
  before the end was unresolved, or the step was handled as a crash whose recovery answered the exit effect with the
  recovery cycles at their cap. A run that stops without an exit code waits for a wave of workers, or the recovery from a
  crashed step raised the exception it stops with. A run that has not ended is not in the terminal phase.
\<close>

theorem run_ends_for_a_reason:
  "case run_loop B is h of
     Finished c h' \<Rightarrow> c = 0 \<and> ps_phase (hd_state h') = pp_terminal_phase (pb_pipeline B)
       \<or> (\<exists>i \<in> set is. exit_justified B i c h')
   | Stopped r \<Rightarrow> \<exists>i \<in> set is. stop_justified B i r
   | Running h' \<Rightarrow> ps_phase (hd_state h') \<noteq> pp_terminal_phase (pb_pipeline B)"
proof (induction B "is" h rule: run_loop.induct)
  case (2 B i "is" h)
  show ?case
  proof (cases "ps_phase (hd_state h) = pp_terminal_phase (pb_pipeline B)")
    case False
    then show ?thesis
    proof (cases "loop_iteration B i h")
      case (Goes_On h')
      with 2 False show ?thesis by (auto split: RunResult.splits)
    next
      case (Exits c h')
      with False iteration_exits [OF Exits] show ?thesis by auto
    qed (use False in \<open>auto intro: iteration_stops\<close>)
  qed simp
qed auto

text \<open>
  C17. A closed integration gate hides the world. When the dispatch gate is closed (a worktree that shows an unfinished
  integration, or no worktree to look at and a record that shows one), a step outside conflict resolution is handled as
  a crash with the error of the gate and the state it started from, and it does the same whatever the configuration, the
  workspace, the agents, the prompts, the phase handlers and the workers would answer: none of them is asked.
\<close>

theorem closed_gate_runs_nothing:
  fixes h :: Held and i :: StepInput
  defines "verdict \<equiv> inspect_integration_resolution (si_tree i) (hd_rebase h)"
  assumes "\<not> gate_open i h"
  shows "\<exists>e. assert_non_resolution_dispatch_allowed (ps_phase (hd_state h)) verdict = Inl e
     \<and> run_pipeline_step B i h = crash (pb_pipeline B) i
         (fst (sample_cycle_timing (hd_state h) (pb_pipeline B) (si_started i) (hd_sample h))) (exception_of e, h)
     \<and> (\<forall>a b c d r f w g env. run_pipeline_step B (i\<lparr>si_preparation := a, si_executed := b, si_phase_event := c,
           si_session := d, si_retry := r, si_outcome := f, si_wave := w, si_config := g, si_env := env\<rparr>) h
         = run_pipeline_step B i h)"
proof -
  from assms obtain e where e: "assert_non_resolution_dispatch_allowed (ps_phase (hd_state h)) verdict = Inl e"
    by (auto simp: gate_open_def assert_non_resolution_dispatch_allowed_def Let_def verdict_def)
  have drain: "ps_phase (hd_state h) \<noteq> RESOLUTION_DRAIN" using assms by (simp add: gate_open_def)
  have step: "run_pipeline_step B j h = crash (pb_pipeline B) j
      (fst (sample_cycle_timing (hd_state h) (pb_pipeline B) (si_started j) (hd_sample h))) (exception_of e, h)"
    if "si_tree j = si_tree i" for j
    using e drain that by (simp add: run_pipeline_step_def Let_def verdict_def case_prod_beta)
  have same: "crash P j timing (exc, x) = crash P i timing (exc, x)"
    if "si_classify j = si_classify i" "si_clock j = si_clock i" "si_crash_save_fails j = si_crash_save_fails i"
      "si_timing j = si_timing i" for j P timing exc x
    unfolding crash_cases reduce_runtime_recovery_def that ..
  have hidden: "run_pipeline_step B j h = run_pipeline_step B i h"
    if "si_tree j = si_tree i" "si_started j = si_started i" "si_classify j = si_classify i" "si_clock j = si_clock i"
      "si_crash_save_fails j = si_crash_save_fails i" "si_timing j = si_timing i" for j
    unfolding step [OF that(1)] step [OF refl] that(2) by (rule same [OF that(3-6)])
  have "run_pipeline_step B (i\<lparr>si_preparation := a, si_executed := b, si_phase_event := c, si_session := d, si_retry := r,
      si_outcome := f, si_wave := w, si_config := g, si_env := env\<rparr>) h = run_pipeline_step B i h" for a b c d r f w g env
    by (rule hidden) simp_all
  with e step [OF refl] show ?thesis by blast
qed

section \<open>Where the loop does not stop\<close>






text \<open>
  The bound on missing plans is never met by a run that moves. The recovery counts in the recovery epoch, and every
  advance of a phase sets the epoch back to 0: after any advance a missing plan leads to the entry phase again, with the
  epoch at 1, however often that has happened before.
\<close>

theorem missing_plan_always_replans:
  assumes "reducer_advance_phase s t (Some P) timing = Inr (s1, effs)" and "1 \<le> rec_cycle_cap (pp_recovery P)"
  shows "ps_phase (recover_missing_plan_handoff s1 P m) = pp_entry_phase P
    \<and> ps_recovery_epoch (recover_missing_plan_handoff s1 P m) = 1"
proof -
  from assms(1) obtain s2 t2 where "s1 = advanced P t2 s2"
    by (auto simp: reducer_advance_phase_def advance_phase_def bind_r_def split: sum.splits prod.splits)
  then have epoch: "ps_recovery_epoch s1 = 0" by (simp add: advanced_def Let_def)
  have phase: "ps_phase (reset_phase_chain_for_recovery x u) = ps_phase x" for x u
    by (simp add: reset_phase_chain_for_recovery_def with_phase_chain_def split: option.split)
  have conclude: "ps_phase (conclude_cycle_on_route_out_of_cycle x u P) = ps_phase x" for x u
    by (simp add: conclude_cycle_on_route_out_of_cycle_def concluded_def stamp_outcome_def Let_def split: option.split)
  show ?thesis using assms(2) by (simp add: recover_missing_plan_handoff_def Let_def epoch phase conclude advanced_def)
qed

section \<open>Concrete runs\<close>

text \<open>
  A run in development whose recovery cycles are spent: the agent answers with a failure. The second input is an iteration
  of the loop over a worktree that is not a repository, which the resolver does not repair.
\<close>

definition demo_step :: StepInput where
  "demo_step =
     \<lparr>si_tree = None, si_started = 0, si_reduced = 0, si_config = None, si_env = demo_env, si_preparation = Prepared,
      si_executed = Inr (PhaseFailureEv \<lparr>pf_phase = ''development'', pf_reason = ''boom'', pf_recoverable = True,
        pf_retry_in_session = False, pf_failure_category = None, pf_skip_same_agent_retries = False\<rparr>),
      si_phase_event = Inr (PipelineEv AGENT_SUCCESS), si_session = None, si_retry = cleared_agent_retry_intent,
      si_outcome = None, si_save_error = None, si_recording_error = None, si_crash_save_fails = False,
      si_classify = (\<lambda>raw ph a c. demo_failure AGENT ''boom'' None), si_clock = demo_clock, si_time = 0,
      si_timing = \<lparr>tr_phase = ''development'', tr_iteration = 0, tr_elapsed = 1\<rparr>, si_left_controller = (\<lambda>rc. rc),
      si_wave = demo_wave_context, si_wave_clock = int, si_wave_rebase = new_rebase_state\<rparr>"

text \<open>A workflow of one phase, so that its steps evaluate quickly.\<close>

definition solo_phase :: "string \<Rightarrow> PhaseRole \<Rightarrow> TerminalOutcome option \<Rightarrow> PhaseDefinition" where
  "solo_phase drain role outcome =
     \<lparr>pd_drain = drain, pd_transitions = \<lparr>on_success = ''complete'', on_failure = None, on_loopback = None\<rparr>, pd_role = Some role,
      pd_skip_invocation = False, pd_retry_policy = None, pd_loop_policy = None, pd_decisions = [], pd_commit_policy = None,
      pd_artifact_required = False, pd_terminal_outcome = outcome, pd_bypass_routes = [], pd_result_status_post_commit = [],
      pd_clean_outcome = None, pd_issues_outcome = None, pd_parallelization = None, pd_workflow_fallback = None,
      pd_invocation_gate = None\<rparr>"

definition solo_policy :: PipelinePolicy where
  "solo_policy =
     \<lparr>pp_phases = [(''development'', solo_phase ''development'' RoleExecution None),
        (''complete'', solo_phase ''complete'' RoleTerminal (Some OutcomeSuccess)),
        (''failed_terminal'', solo_phase ''failed_terminal'' RoleTerminal (Some OutcomeFailure))],
      pp_entry_block = None, pp_entry_phase = ''development'', pp_terminal_phase = ''complete'', pp_loop_counters = [],
      pp_budget_counters = [], pp_post_commit_routes = [], pp_lifecycle_phases = [],
      pp_default_phase_retry_policy = \<lparr>rp_max_retries = 3, rp_retry_delay_ms = 1000, rp_retry_in_session = False\<rparr>,
      pp_recovery = \<lparr>rec_cycle_cap = 1, rec_failed_route = ''failed_terminal'', rec_terminal_failure_phase = Some ''failed_terminal''\<rparr>,
      pp_cycle_timebox = None\<rparr>"

definition solo_bundle :: PolicyBundle where
  "solo_bundle =
     \<lparr>pb_agents = \<lparr>ap_agent_chains = [(''dev'', \<lparr>acc_agents = [''claude''], acc_max_retries = 2, acc_retry_delay_ms = 1000\<rparr>)],
                   ap_agent_drains = [(''development'', \<lparr>adc_chain = ''dev'', adc_drain_class = None, adc_capability_class = None\<rparr>)],
                   ap_forbid_sibling_drain_inference = True\<rparr>,
      pb_pipeline = solo_policy\<rparr>"

definition solo_held :: Held where
  "solo_held =
     \<lparr>hd_state = with_phase_chain ''development'' \<lparr>acs_agents = [''claude''], acs_current_index = 0, acs_retries = 0\<rparr>
        (from_policy solo_policy),
      hd_rebase = new_rebase_state,
      hd_controller = (case new_controller 1 (Some solo_bundle) (seed_budget_registry solo_bundle) [] 10 3 2
        (new_tracker None [] []) of Inr rc \<Rightarrow> note_retry_exhaustion ''development'' ''claude'' rc),
      hd_sample = None, hd_saved = [], hd_wave_saved = []\<rparr>"

lemma solo_well_formed: "well_formed solo_policy"
  by code_simp

definition demo_iteration :: LoopInput where
  "demo_iteration =
     \<lparr>li_tree = None, li_target = Some ''main'', li_identity = recorded_identity new_rebase_state, li_recovered = None,
      li_tree_recovered = None, li_save_fails = False, li_connectivity = ONLINE, li_step = demo_step, li_sleep_fails = False,
      li_tree_resumed = None, li_select_ms = 0\<rparr>"

definition conflicted_held :: Held where
  "conflicted_held = solo_held\<lparr>hd_rebase := new_rebase_state\<lparr>rb_last_action := Some ''conflict''\<rparr>\<rparr>"

theorem run_ends_for_a_reason_witness:
  "\<exists>h'. run_loop solo_bundle [demo_iteration] conflicted_held = Finished 1 h'
     \<and> exit_justified solo_bundle demo_iteration 1 h'"
proof -
  have "case run_loop solo_bundle [demo_iteration] conflicted_held of
      Finished c h' \<Rightarrow> c = 1 | _ \<Rightarrow> False" by code_simp
  then obtain h' where h': "run_loop solo_bundle [demo_iteration] conflicted_held = Finished 1 h'"
    by (auto split: RunResult.splits)
  with run_ends_for_a_reason [of solo_bundle "[demo_iteration]" conflicted_held] show ?thesis by simp
qed

theorem closed_gate_runs_nothing_witness:
  "\<exists>e. run_pipeline_step solo_bundle demo_step conflicted_held = crash solo_policy demo_step
         (fst (sample_cycle_timing (hd_state conflicted_held) solo_policy (si_started demo_step) (hd_sample conflicted_held)))
         (exception_of e, conflicted_held)"
proof -
  have "\<not> gate_open demo_step conflicted_held" by code_simp
  from closed_gate_runs_nothing [OF this, of solo_bundle] show ?thesis by (auto simp: solo_bundle_def)
qed



theorem missing_plan_always_replans_witness:
  "\<exists>s1. reducer_advance_phase (from_policy solo_policy) ''development'' (Some solo_policy) None = Inr (s1, [])
     \<and> ps_phase (recover_missing_plan_handoff s1 solo_policy ''no plan'') = ''development''"
proof -
  let ?r = "reducer_advance_phase (from_policy solo_policy) ''development'' (Some solo_policy) None"
  have "case ?r of Inl e \<Rightarrow> False | Inr (s1, effs) \<Rightarrow> effs = []" by code_simp
  then obtain s1 where s1: "?r = Inr (s1, [])" by (auto split: sum.splits)
  have "1 \<le> rec_cycle_cap (pp_recovery solo_policy)" "pp_entry_phase solo_policy = ''development''" by code_simp+
  with missing_plan_always_replans [OF s1, of "''no plan''"] s1 show ?thesis by auto
qed

end
