(* ===== verification/Run_Invariant.thy ===== *)
theory Run_Invariant
  imports Run_Guarantees
begin

text \<open>
  The invariant of the reducer carried through the whole loop: steps, inline effects, crashes, fan-outs, pauses and
  checkpoints. It has to say more than that of the reducer, since leaving the failed route goes back to the phase the
  run remembers: that phase and the entry phase are known to the policy as well.
\<close>

section \<open>States\<close>

definition state_ok :: "PipelinePolicy \<Rightarrow> PipelineState \<Rightarrow> bool" where
  "state_ok P s \<longleftrightarrow> well_formed P \<and> loops_in_range P s \<and> known_target P (ps_policy_entry_phase s)
     \<and> (\<forall>p. p = ps_phase s \<or> ps_previous_phase s = Some p \<longrightarrow> known_target P p)"

named_theorems state_ok_rules \<open>operations that keep \<open>state_ok\<close>\<close>

lemma state_ok_known: "state_ok P s \<Longrightarrow> known_target P (ps_phase s)"
  by (simp add: state_ok_def)

lemma state_ok_kept: "state_ok P s \<Longrightarrow> kept P s s' \<Longrightarrow> state_ok P s'"
  by (auto simp: state_ok_def kept_def moved_def)

lemma state_ok_quiet: "state_ok P s \<Longrightarrow> quiet P s s' \<Longrightarrow> state_ok P s'"
  by (auto simp: quiet_def intro: state_ok_kept)

lemma state_ok_same:
  "state_ok P s \<Longrightarrow> ps_loop_iterations s' = ps_loop_iterations s \<Longrightarrow> ps_phase s' = ps_phase s \<Longrightarrow>
   ps_previous_phase s' = ps_previous_phase s \<Longrightarrow> ps_policy_entry_phase s' = ps_policy_entry_phase s \<Longrightarrow> state_ok P s'"
  by (simp add: state_ok_def loops_in_range_def get_loop_iteration_def)

lemma state_ok_advanced [state_ok_rules]: "state_ok P s \<Longrightarrow> known_target P t \<Longrightarrow> state_ok P (advanced P t s)"
  by (rule state_ok_quiet) auto

lemma state_ok_placed: "state_ok P s \<Longrightarrow> known_target P t \<Longrightarrow> state_ok P (s\<lparr>ps_phase := t\<rparr>)"
  by (auto simp: state_ok_def loops_in_range_def get_loop_iteration_def)

lemma state_ok_simple [state_ok_rules]:
  assumes "state_ok P s"
  shows "state_ok P (with_phase_timing r s)" "state_ok P (with_phase_chain ph c s)" "state_ok P (set_work_units us s)"
    and "state_ok P (cleared_after_successful_wave s)" "state_ok P (apply_session_capture session intent s)"
    and "state_ok P (apply_connectivity_check conn s)" "state_ok P (fold_cycle_elapsed s0 s delta b)"
    and "state_ok P (s\<lparr>ps_last_retry_delay_ms := n\<rparr>)" "state_ok P (s\<lparr>ps_is_waiting_state := w\<rparr>)"
    and "state_ok P (s\<lparr>ps_commit := cs\<rparr>)" "state_ok P (s\<lparr>ps_last_error := err, ps_recovery_epoch := k\<rparr>)"
    and "state_ok P (s\<lparr>ps_last_agent_session_id := sid, ps_agent_retry_intent := ri\<rparr>)"
  by (rule state_ok_same [OF assms]; simp add: with_phase_timing_def with_phase_chain_def set_work_units_def
      cleared_after_successful_wave_def with_parallel_execution_cleared_def apply_session_capture_def
      apply_connectivity_check_def fold_cycle_elapsed_def)+

lemma state_ok_restored [state_ok_rules]: "state_ok P s' \<Longrightarrow> state_ok P (restore_work_units s s')"
  by (simp add: restore_work_units_def state_ok_simple)

lemma state_ok_reset_chain [state_ok_rules]: "state_ok P s \<Longrightarrow> state_ok P (reset_phase_chain_for_recovery s t)"
  by (simp add: reset_phase_chain_for_recovery_def state_ok_simple split: option.split)

lemma state_ok_reselected [state_ok_rules]: "state_ok P s \<Longrightarrow> state_ok P (reselect_preferred_agent now rc s)"
  by (auto simp: reselect_preferred_agent_def intro: state_ok_simple split: option.split)

lemma state_ok_paused [state_ok_rules]: "state_ok P (hd_state h) \<Longrightarrow> state_ok P (pause_for_retry i h)"
  by (auto simp: pause_for_retry_def resume_after_cooldown_wait_def Let_def intro: state_ok_rules)

lemma entry_known: "well_formed P \<Longrightarrow> known_target P (pp_entry_phase P)"
  using initial_ok [of P] by (simp add: run_inv_ok_def from_policy_def)

lemma state_ok_missing_plan [state_ok_rules]:
  assumes "state_ok P s"
  shows "state_ok P (recover_missing_plan_handoff s P m)"
proof -
  have wf: "well_formed P" using assms by (simp add: state_ok_def)
  have "state_ok P (conclude_cycle_on_route_out_of_cycle (advanced P t s) t P)" if "known_target P t" for t
    by (rule state_ok_quiet [OF state_ok_advanced [OF assms that] quiet_timebox]) simp
  with entry_known [OF wf] show ?thesis
    by (auto simp: recover_missing_plan_handoff_def Let_def intro: state_ok_simple state_ok_reset_chain)
qed

lemma state_ok_created:
  assumes "well_formed P"
  shows "state_ok P (create_initial_state config ap P overrides)"
  using created_run_inv [OF assms, of config ap overrides] entry_known [OF assms]
  by (auto simp: state_ok_def run_inv_ok_def create_initial_state_def from_policy_def)

section \<open>Reductions\<close>

lemma state_ok_reduce:
  assumes "reduce s e (Some P) rec timing now = Inr (rc', s', effs)" and "state_ok P s" and "policy_agrees P rec"
  shows "state_ok P s'" and "ctl_ok rec rc'"
proof -
  have "well_formed P" "known_target P (ps_phase s)" using assms(2) by (auto simp: state_ok_def)
  note step = step_of_return [OF assms(1) this(1) assms(3) this(2)]
  from step(1) show "state_ok P s'" by (auto simp: step_ok_def intro: state_ok_kept [OF assms(2)])
  from step(2) show "ctl_ok rec rc'" .
qed

lemma state_ok_plain:
  "reduce_plain P now s e = Inr s' \<Longrightarrow> state_ok P s \<Longrightarrow> state_ok P s'"
  by (auto simp: reduce_plain_def bind_r_eq_Inr policy_agrees_def dest: state_ok_reduce(1))

lemma state_ok_events:
  "state_ok P s \<Longrightarrow> (case reduce_events P clk k es s of Inl x \<Rightarrow> state_ok P (fst x) | Inr s' \<Rightarrow> state_ok P s')"
  by (induction P clk k es s rule: reduce_events.induct) (auto split: sum.split, (blast intro: state_ok_plain)+)

lemma state_ok_handled:
  assumes "handle classify ck rc s raw ctx = Inr (rc', s', effs, evt)" and "state_ok P s" and "rc_policy rc = Some P"
  shows "state_ok P s'" and "rc_policy rc' = Some P"
proof -
  have "well_formed P" "known_target P (ps_phase s)" using assms(2) by (auto simp: state_ok_def)
  note step = handle_allowed [OF this assms(3,1)]
  from state_ok_quiet [OF assms(2) step(1)] show "state_ok P s'" .
  from step(3) assms(3) show "rc_policy rc' = Some P" by (simp add: same_config_def rc_policy_def)
qed

lemma state_ok_redirected:
  assumes "redirect_expired_cycle_in_place s (Some P) timing = Inr (Some (s', effs))" and "state_ok P s"
  shows "state_ok P s'"
proof -
  have "well_formed P" using assms(2) by (simp add: state_ok_def)
  then have "routes P s (Inr (s', effs))"
    by (rule redirect_expired_spec [of P s timing]) (use assms(1) in auto)
  then show ?thesis by (auto simp: routes_def intro: state_ok_quiet [OF assms(2)])
qed

text \<open>A wave of workers: whatever it saves and returns is in order, if the callback keeps the order.\<close>

definition wave_result_ok :: "PipelinePolicy \<Rightarrow> wave_result \<Rightarrow> bool" where
  "wave_result_ok P r \<longleftrightarrow> (\<forall>s \<in> set (fst r). state_ok P s) \<and> result_all (\<lambda>x. \<forall>s. x = Some s \<longrightarrow> state_ok P s) (snd r)"

lemma wave_result_simps [simp]:
  "wave_result_ok P ([], Inl e)" "wave_result_ok P ([], Inr None)" "wave_result_ok P ([], Inr (Some s)) = state_ok P s"
  "wave_result_ok P ([s], Inr (Some s)) = state_ok P s"
  "wave_result_ok P (saving ss r) \<longleftrightarrow> (\<forall>s \<in> set ss. state_ok P s) \<and> wave_result_ok P r"
  by (auto simp: wave_result_ok_def saving_def)

lemma wave_failed_ok: "state_ok P s \<Longrightarrow> wave_result_ok P (wave_failed P now s reason)"
  by (auto simp: wave_failed_def dest: state_ok_plain split: sum.split)

lemma wave_crashed_ok: "state_ok (wc_policy ctx) s \<Longrightarrow> wave_result_ok (wc_policy ctx) (wave_crashed ctx now s e)"
  unfolding wave_crashed_def by (rule wave_failed_ok)

lemma verified_ok:
  "run_verify_phase b f err P now s = Inr (saved, s', passed) \<Longrightarrow> state_ok P s \<Longrightarrow>
   state_ok P s' \<and> (\<forall>x \<in> set saved. state_ok P x)"
  by (auto simp: run_verify_phase_def bind_r_eq_Inr Let_def split: if_splits intro: state_ok_plain)

lemma complete_wave_ok:
  assumes "state_ok (wc_policy ctx) x"
    and "\<And>s s'. state_ok (wc_policy ctx) s \<Longrightarrow> wc_on_success ctx s = Inr s' \<Longrightarrow> state_ok (wc_policy ctx) s'"
  shows "wave_result_ok (wc_policy ctx) (complete_wave ctx us now wave x passed)"
  using assms(1) assms(2) [OF assms(1)]
  by (auto simp: complete_wave_def Let_def intro: wave_crashed_ok split: sum.split)

lemma finished_wave_ok:
  assumes "state_ok (wc_policy ctx) wave" and callback: "\<And>s s'. state_ok (wc_policy ctx) s \<Longrightarrow> wc_on_success ctx s = Inr s' \<Longrightarrow> state_ok (wc_policy ctx) s'"
  shows "wave_result_ok (wc_policy ctx) (finish_wave ctx us evs now later wave)"
proof -
  note ok = state_ok_simple(4) [OF assms(1)]
  note verified = verified_ok [OF _ ok]
  have complete: "wave_result_ok (wc_policy ctx) (complete_wave ctx us t w x b)" if "state_ok (wc_policy ctx) x" for t w x b
    using that callback by (rule complete_wave_ok)
  show ?thesis
    using ok verified complete wave_crashed_ok [OF ok]
    by (auto simp: finish_wave_def Let_def split: sum.split)
qed

lemma run_wave_ok:
  assumes ok: "state_ok (wc_policy ctx) current" and callback: "\<And>s s'. state_ok (wc_policy ctx) s \<Longrightarrow> wc_on_success ctx s = Inr s' \<Longrightarrow> state_ok (wc_policy ctx) s'"
  shows "wave_result_ok (wc_policy ctx) (run_wave ctx clk us rest current)"
proof -
  have finished: "wave_result_ok (wc_policy ctx) (finish_wave ctx us evs t t' w)" if "state_ok (wc_policy ctx) w" for evs t t' w
    using that callback by (rule finished_wave_ok)
  have "wave_result_ok (wc_policy ctx) (case reduce_events (wc_policy ctx) clk k evs current of
        Inl (s', e) \<Rightarrow> wave_crashed ctx n s' e | Inr wave \<Rightarrow> finish_wave ctx us evs n n' wave)" for evs k n n'
    using state_ok_events [OF ok, of clk k evs] finished
    by (auto split: sum.splits intro: wave_crashed_ok)
  with wave_crashed_ok [OF ok] show ?thesis
    by (auto simp: run_wave_def simp del: One_nat_def split: sum.split option.split)
qed

lemma fan_out_ok:
  assumes ok: "state_ok (wc_policy ctx) s" and callback: "\<And>s s'. state_ok (wc_policy ctx) s \<Longrightarrow> wc_on_success ctx s = Inr s' \<Longrightarrow> state_ok (wc_policy ctx) s'"
  shows "wave_result_ok (wc_policy ctx) (run_fan_out_async ctx clk us s)"
proof -
  let ?P = "wc_policy ctx" and ?s = "if ps_work_units s \<noteq> [] then s else set_work_units us s"
  have seeded: "state_ok ?P ?s" using ok by (auto intro: state_ok_simple)
  have resumed: "state_ok ?P current" if "resume_fan_out_state ?s us ?P (clk 0) = Inr (current, rest)" for current rest
    using that seeded by (auto simp: resume_fan_out_state_def bind_r_eq_Inr Let_def split: if_splits intro: state_ok_plain)
  have done': "wave_result_ok ?P (resumed_wave_done ctx n n' current)" if "state_ok ?P current" for current n n'
    using that by (auto simp: resumed_wave_done_def split: sum.splits intro: wave_crashed_ok state_ok_simple state_ok_plain)
  have run: "wave_result_ok ?P (run_wave ctx clk us rest current)" if "state_ok ?P current" for rest current
    using that callback by (rule run_wave_ok)
  show ?thesis
  proof (cases "bind_r (new_plan us) validate_for_same_workspace")
    case (Inl e)
    then show ?thesis using ok by (cases e) (simp_all add: run_fan_out_async_def wave_failed_ok wave_crashed_ok)
  next
    case plan: (Inr x)
    show ?thesis
    proof (cases "wc_setup ctx")
      case (Inl e)
      with plan ok show ?thesis by (simp add: run_fan_out_async_def wave_crashed_ok)
    next
      case (Inr y)
      have async: "run_fan_out_async ctx clk us s = (case resume_fan_out_state ?s us ?P (clk 0) of
          Inl e \<Rightarrow> wave_crashed ctx (clk 1) s e
        | Inr (current, rest) \<Rightarrow> if rest = [] then resumed_wave_done ctx (clk 1) (clk 2) current
            else run_wave ctx clk us rest current)"
        unfolding run_fan_out_async_def plan Inr Let_def sum.case ..
      show ?thesis
      proof (cases "resume_fan_out_state ?s us ?P (clk 0)")
        case (Inl e)
        then show ?thesis unfolding async Inl sum.case by (intro wave_crashed_ok ok)
      next
        case (Inr b)
        obtain current rest where b: "b = (current, rest)" by (cases b)
        note cur = resumed [OF Inr [unfolded b]]
        show ?thesis unfolding async Inr b sum.case prod.case using done' [OF cur] run [OF cur] by (simp only: if_split) blast
      qed
    qed
  qed
qed

section \<open>Steps\<close>

lemma prepare_target_known:
  assumes "determine_effect_from_policy s B config env = Inr (PreparePromptEffect t dr pv sk)" and "state_ok (pb_pipeline B) s"
  shows "known_target (pb_pipeline B) t"
proof -
  let ?e = "PreparePromptEffect t dr pv sk" and ?P = "pb_pipeline B"
  have no_exit: "build_exit_failure_effect r \<noteq> Inr ?e" for r
    by (auto simp: build_exit_failure_effect_def split: option.splits)
  have invoke: "invoke_or_exit s d B config m \<noteq> Inr ?e" for d m
    by (auto simp: invoke_or_exit_def no_exit split: option.splits)
  have fan: "fan_out_effect s d us \<noteq> Inr ?e" for d us
    by (auto simp: fan_out_effect_def no_exit Let_def split: option.splits sum.splits py_error.splits)
  have par: "parallel_or_agent_effect s d B config env \<noteq> Inr ?e" for d
    by (auto simp: parallel_or_agent_effect_def bind_r_eq_Inr Let_def fan invoke)
  have com: "commit_phase_effect s d B config env \<noteq> Inr ?e" for d
    by (auto simp: commit_phase_effect_def bind_r_eq_Inr invoke)
  have ana: "current_analysis_phase_advance_effect s d P \<noteq> Inr (Some ?e)" for d P
    by (auto simp: current_analysis_phase_advance_effect_def bind_r_def split: sum.splits)
  have wf: "validated ?P" using assms(2) by (simp add: state_ok_def well_formed_def)
  have reenter: "known_target ?P u" if "recovery_prepare_effect s ?P = PreparePromptEffect u dr' pv' sk'" for u dr' pv' sk'
    using that assms(2)
    by (auto simp: recovery_prepare_effect_def Let_def state_ok_def truthy_def split: if_splits option.splits)
  show ?thesis
    using assms(1) validated_transitions(1) [OF wf] reenter
    by (auto simp: determine_effect_from_policy_def Let_def terminal_phase_effect_def
        bind_r_def no_exit par com ana skip_invocation_effect_def split: if_splits option.splits sum.splits)
qed

lemma state_ok_prepared:
  assumes ok: "state_ok P s" and t: "known_target P t"
  shows "state_ok P (prepared_state P timing t drain s)"
proof -
  have wf: "validated P" using ok by (simp add: state_ok_def well_formed_def)
  have placed: "state_ok P (x\<lparr>ps_phase := u, ps_current_drain := d\<rparr>)"
      "state_ok P (x\<lparr>ps_phase := u, ps_current_drain := d, ps_last_agent_session_id := a, ps_agent_retry_intent := b\<rparr>)"
    if "state_ok P x" "known_target P u" for x u d a b
    using that by (auto simp: state_ok_def loops_in_range_def get_loop_iteration_def)
  have finish: "state_ok P (let requested = (if u = t then drain else None);
        y = x\<lparr>ps_phase := u, ps_current_drain := (if truthy requested then requested else resolve_phase_drain u P)\<rparr>
      in if u \<noteq> ps_phase x then y\<lparr>ps_last_agent_session_id := None, ps_agent_retry_intent := cleared_agent_retry_intent\<rparr> else y)"
    if "state_ok P x" "known_target P u" for x u
    unfolding Let_def by (cases "u = ps_phase x") (simp_all only: if_True if_False not_False_eq_True simp_thms placed that state_ok_known [OF that(1)])
  have boxed: "state_ok P (reset_phase_chain_for_recovery (td_state (apply_cycle_timebox s t P y)) u)" for y u
    by (intro state_ok_reset_chain state_ok_quiet [OF ok quiet_timebox]) simp
  show ?thesis
  proof (cases "ps_phase s = failed_route P")
    case False
    from finish [OF ok t] show ?thesis by (simp only: prepared_state_def if_not_P [OF False] Let_def prod.case)
  next
    case True
    let ?d = "apply_cycle_timebox s t P (Some (case timing of Some x \<Rightarrow> x | None \<Rightarrow> ps_cycle_timebox_consumed_seconds s))"
    let ?r = "reset_phase_chain_for_recovery (td_state ?d) (td_target_phase ?d)"
    let ?x = "case phase_of P (td_target_phase ?d) of
      Some pd \<Rightarrow> if pd_role pd = Some RoleCommit then ?r\<lparr>ps_commit := fresh_commit\<rparr> else ?r | None \<Rightarrow> ?r"
    have "state_ok P ?x" using boxed by (auto intro: state_ok_simple split: option.split)
    from finish [OF this apply_cycle_timebox_known [OF wf t]] show ?thesis
      by (simp only: prepared_state_def if_P [OF True] Let_def prod.case)
  qed
qed

text \<open>What the loop holds: a state in order, a controller of this policy, and checkpoints in order.\<close>

definition held_ok :: "PipelinePolicy \<Rightarrow> Held \<Rightarrow> bool" where
  "held_ok P h \<longleftrightarrow> state_ok P (hd_state h) \<and> rc_policy (hd_controller h) = Some P 
     \<and> (\<forall>s \<in> set (hd_saved h) \<union> set (hd_wave_saved h). state_ok P s)"

fun held_of :: "StepResult \<Rightarrow> Held" where
  "held_of (Goes_On h) = h"
| "held_of (Exits c h) = h"
| "held_of (Raises e h) = h"
| "held_of (Still_Waiting h) = h"

lemma held_ok_state: "held_ok P h \<Longrightarrow> state_ok P (hd_state h)"
  by (simp add: held_ok_def)

lemma held_ok_saved [simp]: "held_ok P h \<Longrightarrow> state_ok P s \<Longrightarrow> held_ok P (save_checkpoint_or_log b s h)"
  by (auto simp: held_ok_def save_checkpoint_or_log_def)

lemma held_ok_update:
  "held_ok P h \<Longrightarrow> state_ok P s \<Longrightarrow> held_ok P (h\<lparr>hd_state := s\<rparr>)"
  "held_ok P h \<Longrightarrow> held_ok P (h\<lparr>hd_rebase := r\<rparr>)" "held_ok P h \<Longrightarrow> held_ok P (h\<lparr>hd_sample := x\<rparr>)"
  "held_ok P h \<Longrightarrow> rc_policy rc = Some P \<Longrightarrow> held_ok P (h\<lparr>hd_controller := rc\<rparr>)"
  by (auto simp: held_ok_def)

lemma crash_ok:
  assumes "held_ok P h"
  shows "held_ok P (held_of (crash P i timing (exc, h)))"
proof (cases "reduce_runtime_recovery P i timing exc h")
  case (Inl e)
  with assms show ?thesis by (simp add: crash_def)
next
  case (Inr r)
  obtain rc s effs where r: "r = (rc, s, effs)" by (cases r)
  have ok: "state_ok P (hd_state h)" "rc_policy (hd_controller h) = Some P" using assms by (simp_all add: held_ok_def)
  have "state_ok P s \<and> rc_policy rc = Some P"
    using Inr r ok state_ok_redirected [OF _ ok(1)] state_ok_handled [OF _ ok]
    by (auto simp: reduce_runtime_recovery_def Let_def bind_r_eq_Inr intro: state_ok_restored split: option.splits prod.splits)
  with Inr r assms show ?thesis
    by (auto simp: crash_def intro!: held_ok_update held_ok_saved state_ok_simple)
qed

lemma crash_ok_at: "held_ok P (snd x) \<Longrightarrow> held_ok P (held_of (crash P i timing x))"
  using crash_ok [of P "snd x" i timing "fst x"] by simp

text \<open>Where an inline effect leaves the run, an exception included.\<close>

definition inline_ok :: "PipelinePolicy \<Rightarrow> inline \<Rightarrow> bool" where
  "inline_ok P r \<longleftrightarrow> (case r of Inl x \<Rightarrow> held_ok P (snd x) | Inr (Inl c) \<Rightarrow> True | Inr (Inr h) \<Rightarrow> held_ok P h)"

lemma inline_ok_simps [simp]:
  "inline_ok P (Inl x) = held_ok P (snd x)" "inline_ok P (Inr (Inl c))" "inline_ok P (Inr (Inr h)) = held_ok P h"
  by (simp_all add: inline_ok_def)

lemma timed_inline_ok: "inline_ok P r \<Longrightarrow> held_ok P h \<Longrightarrow> held_ok P (held_of (timed_inline P i timing r h))"
  by (auto simp: timed_inline_def intro!: crash_ok_at held_ok_update state_ok_simple intro: held_ok_state split: sum.splits)

lemma saved_inline_ok: "held_ok P h \<Longrightarrow> state_ok P s \<Longrightarrow> inline_ok P (saved_inline i s h)"
  by (auto simp: saved_inline_def save_or_raise_def held_ok_def split: option.split)

lemma handle_inline_ok:
  assumes ok: "held_ok (pb_pipeline B) h" and eff: "determine_effect_from_policy (hd_state h) B config env = Inr effect"
    and r: "handle_inline_effect (pb_pipeline B) i timing effect h = Some r"
  shows "inline_ok (pb_pipeline B) r"
proof -
  let ?P = "pb_pipeline B"
  have s: "state_ok ?P (hd_state h)" using ok by (simp add: held_ok_def)
  note saved = saved_inline_ok [OF ok]
  show ?thesis
  proof (cases effect)
    case SaveCheckpointEffect
    then show ?thesis using r s ok
      by (auto simp: handle_inline_effect_def Let_def save_or_raise_def held_ok_def dest: state_ok_plain split: option.splits sum.splits)
  next
    case (PreparePromptEffect t dr pv sk)
    with eff s have t: "known_target ?P t" by (auto dest: prepare_target_known)
    show ?thesis using r PreparePromptEffect saved [OF state_ok_prepared [OF s t]] saved [OF state_ok_missing_plan [OF s]] ok
      by (auto simp: handle_inline_effect_def Let_def split: Preparation.splits if_splits)
  next
    case (ExitFailureEffect reason)
    have "state_ok ?P ((advanced ?P (failed_route ?P) (hd_state h))\<lparr>ps_last_error := e, ps_recovery_epoch := n\<rparr>)" for e n
      by (intro state_ok_simple state_ok_advanced [OF s]) simp
    with r ExitFailureEffect saved show ?thesis by (auto simp: handle_inline_effect_def Let_def)
  qed (use r in \<open>auto simp: handle_inline_effect_def Let_def\<close>)
qed

lemma integrate_inline_ok:
  assumes "state_ok P s" and "inline_ok P (Inr result)"
  shows "inline_ok P (integrate_inline_effect P i s result)"
  using assms
  by (auto simp: integrate_inline_effect_def held_ok_def dest: state_ok_plain split: option.split sum.split)

lemma fan_out_phase_ok:
  assumes "held_ok P h"
  shows "held_ok P (held_of (run_fan_out_phase P i timing us m v h))"
proof -
  define ctx where "ctx = (si_wave i)\<lparr>wc_policy := P, wc_max_workers := m, wc_verify := v,
    wc_on_success := integrate_after_fan_out P (si_time i) (si_outcome i)\<rparr>"
  let ?r = "run_fan_out_async ctx (si_wave_clock i) us (hd_state h)"
  have P: "wc_policy ctx = P" by (simp add: ctx_def)
  have "state_ok P s'" if "state_ok P s" "wc_on_success ctx s = Inr s'" for s s'
    using that by (auto simp: ctx_def integrate_after_fan_out_def split: option.splits if_splits dest: state_ok_plain)
  with fan_out_ok [of ctx "hd_state h" "si_wave_clock i" us] assms
  have "wave_result_ok P ?r" by (simp add: P held_ok_def)
  then have saved: "\<forall>x \<in> set (fst ?r). state_ok P x" and result: "result_all (\<lambda>x. \<forall>s. x = Some s \<longrightarrow> state_ok P s) (snd ?r)"
    by (simp_all add: wave_result_ok_def)
  have waved: "held_ok P (h\<lparr>hd_wave_saved := hd_wave_saved h @ fst ?r\<rparr>)" using assms saved by (auto simp: held_ok_def)
  show ?thesis
    unfolding run_fan_out_phase_def ctx_def [symmetric] Let_def case_prod_beta
    using crash_ok [OF waved] held_ok_update [OF waved] waved result
    by (auto split: sum.split option.split intro!: held_ok_update state_ok_simple)
qed

lemma finalized_ok:
  assumes "held_ok P h"
  shows "case finalize_agent_invocation i effect event h of Inl x \<Rightarrow> held_ok P (snd x) | Inr (ev, h') \<Rightarrow> held_ok P h'"
proof -
  have reset: "rc_policy (controller_reset_backoff ph a rc) = rc_policy rc" for ph a rc
    by (simp add: controller_reset_backoff_def Let_def rc_policy_def split: option.split)
  show ?thesis
    using assms
    by (auto simp: finalize_agent_invocation_def Let_def reset held_ok_def intro: state_ok_simple
        split: Effect.split sum.split)
qed

text \<open>A reduction that raises may have changed the controller, but not the policy it was made with.\<close>

definition keeps_policy :: "StepInput \<Rightarrow> bool" where
  "keeps_policy i \<longleftrightarrow> (\<forall>rc. rc_policy (si_left_controller i rc) = rc_policy rc)"

lemma reduce_step_ok:
  assumes ok: "held_ok P h" and keeps: "keeps_policy i"
  shows "held_ok P (held_of (reduce_step P i timing effect event h))"
proof -
  define outcome where "outcome = maybe_auto_integrate effect event (phase_of P (ps_phase (hd_state h))) (si_outcome i)"
  define ev where "ev = (case outcome of
    Some r \<Rightarrow> if integration_unresolved r then integration_conflict_failure (hd_state h) r else event | None \<Rightarrow> event)"
  obtain timing' delta where t: "sample_cycle_timing (hd_state h) P (si_reduced i) (hd_sample h) = (timing', delta)" by fastforce
  let ?r = "reduce (hd_state h) ev (Some P) (Some (si_classify i, si_clock i, hd_controller h)) timing' (si_time i)"
  have pol: "policy_agrees P (Some (si_classify i, si_clock i, hd_controller h))"
    using ok by (simp add: policy_agrees_def held_ok_def)
  show ?thesis
  proof (cases ?r)
    case (Inl e)
    have "held_ok P (h\<lparr>hd_controller := si_left_controller i (hd_controller h)\<rparr>)"
      using ok keeps by (auto simp: keeps_policy_def held_ok_def)
    with Inl show ?thesis
      by (simp add: reduce_step_def Let_def t outcome_def [symmetric] ev_def [symmetric] crash_ok)
  next
    case (Inr x)
    obtain rc s' effs where x: "x = (rc, s', effs)" by (cases x)
    from state_ok_reduce [OF Inr [unfolded x] held_ok_state [OF ok] pol] obtain rc1 where
      s': "state_ok P s'" and rc: "rc = Some rc1" "rc_policy rc1 = Some P"
      using ok by (auto simp: ctl_ok_def same_config_def rc_policy_def held_ok_def split: option.splits)
    define h' where "h' = h\<lparr>hd_controller := rc1,
      hd_sample := (if pp_cycle_timebox P \<noteq> None then Some (si_reduced i) else hd_sample h)\<rparr>"
    define next_state where "next_state = fold_cycle_elapsed (hd_state h) s' delta (pp_cycle_timebox P \<noteq> None)"
    have ok': "held_ok P h'" using ok rc by (simp add: h'_def held_ok_def)
    have step: "reduce_step P i timing effect event h = (case si_recording_error i of
        Some e \<Rightarrow> crash P i timing (e, h')
      | None \<Rightarrow> Goes_On ((save_checkpoint_or_log (si_save_error i \<noteq> None) next_state h')
          \<lparr>hd_state := with_phase_timing (si_timing i) next_state,
           hd_rebase := (case outcome of Some r \<Rightarrow> r | None \<Rightarrow> hd_rebase h)\<rparr>))"
      unfolding reduce_step_def Let_def t outcome_def [symmetric] ev_def [symmetric] prod.case Inr x sum.case rc(1) option.case
        h'_def next_state_def ..
    show ?thesis unfolding step
      by (cases "si_recording_error i")
        (simp_all add: crash_ok ok' held_ok_update state_ok_simple s' next_state_def)
  qed
qed

lemma perform_effect_ok:
  assumes ok: "held_ok P h" and keeps: "keeps_policy i"
  shows "held_ok P (held_of (perform_effect P i timing effect h))"
proof -
  have "held_ok P (held_of (case finalize_agent_invocation i effect event h of
      Inl x \<Rightarrow> crash P i timing x | Inr (event', h') \<Rightarrow> reduce_step P i timing effect event' h'))" for event
    using finalized_ok [OF ok, of i effect event]
    by (auto split: sum.splits prod.splits intro: crash_ok_at reduce_step_ok [OF _ keeps])
  then show ?thesis
    using ok by (auto simp: perform_effect_def intro!: crash_ok timed_inline_ok saved_inline_ok state_ok_missing_plan
        intro: held_ok_state split: Preparation.split sum.split)
qed

lemma step_ok_held:
  assumes ok: "held_ok (pb_pipeline B) h" and keeps: "keeps_policy i"
  shows "held_ok (pb_pipeline B) (held_of (run_pipeline_step B i h))"
proof -
  let ?P = "pb_pipeline B"
  obtain timing delta where t: "sample_cycle_timing (hd_state h) ?P (si_started i) (hd_sample h) = (timing, delta)" by fastforce
  define gate where "gate = (if ps_phase (hd_state h) = RESOLUTION_DRAIN then Inr () else
    assert_non_resolution_dispatch_allowed (ps_phase (hd_state h)) (inspect_integration_resolution (si_tree i) (hd_rebase h)))"
  let ?d = "determine_effect_from_policy (hd_state h) B (si_config i) (si_env i)"
  note crashed = crash_ok [OF ok]
  show ?thesis
  proof (cases "gate")
    case (Inl e)
    then show ?thesis using crashed by (simp add: run_pipeline_step_def Let_def t gate_def [symmetric])
  next
    case gate: (Inr u)
    show ?thesis
    proof (cases ?d)
      case (Inl e)
      then show ?thesis using crashed gate by (simp add: run_pipeline_step_def Let_def t gate_def [symmetric])
    next
      case (Inr effect)
      then have step: "run_pipeline_step B i h = (case handle_inline_effect ?P i timing effect h of
            Some (Inl x) \<Rightarrow> crash ?P i timing x
          | Some (Inr result) \<Rightarrow> timed_inline ?P i timing (integrate_inline_effect ?P i (hd_state h) result) h
          | None \<Rightarrow> (case effect of FanOutEffect us workers verify phase \<Rightarrow> run_fan_out_phase ?P i timing us workers verify h
              | _ \<Rightarrow> perform_effect ?P i timing effect h))"
        using gate by (simp add: run_pipeline_step_def Let_def t gate_def [symmetric])
      show ?thesis
      proof (cases "handle_inline_effect ?P i timing effect h")
        case None
        with step perform_effect_ok [OF ok keeps] fan_out_phase_ok [OF ok] show ?thesis by (auto split: Effect.split)
      next
        case (Some r)
        with handle_inline_ok [OF ok Inr Some] step show ?thesis
          by (cases r) (auto intro: crash_ok_at timed_inline_ok [OF _ ok] integrate_inline_ok [OF held_ok_state [OF ok]])
      qed
    qed
  qed
qed

section \<open>The loop\<close>

lemma unblocked_ok:
  assumes "held_ok P h"
  shows "case block_unresolved_integration i h of Inl h' \<Rightarrow> held_ok P h' | Inr h' \<Rightarrow> held_ok P h'"
  using assms held_ok_state [OF assms]
  by (auto simp: block_unresolved_integration_def Let_def held_ok_def save_checkpoint_or_log_def split: option.split)

lemma iteration_ok:
  assumes ok: "held_ok (pb_pipeline B) h" and keeps: "keeps_policy (li_step i)"
  shows "held_ok (pb_pipeline B) (held_of (loop_iteration B i h))"
proof (cases "block_unresolved_integration i h")
  case (Inl h')
  with unblocked_ok [OF ok, of i] show ?thesis by (simp add: loop_iteration_def)
next
  case (Inr h1)
  let ?P = "pb_pipeline B"
  define h2 where "h2 = h1\<lparr>hd_state := apply_connectivity_check (li_connectivity i) (hd_state h1)\<rparr>"
  have ok2: "held_ok ?P h2"
    using unblocked_ok [OF ok, of i] Inr by (auto simp: h2_def intro!: held_ok_update state_ok_simple held_ok_state)
  have ok3: "held_ok ?P (held_of (run_pipeline_step B (li_step i) h2))" by (rule step_ok_held [OF ok2 keeps])
  have step: "loop_iteration B i h = (case run_pipeline_step B (li_step i) h2 of
        Goes_On h' \<Rightarrow> (let s = pause_for_retry i h'
          in Goes_On (h'\<lparr>hd_state := (if ps_phase s \<noteq> ps_phase (hd_state h2)
               then reselect_preferred_agent (li_select_ms i) (hd_controller h') s else s)\<rparr>))
      | Exits code h' \<Rightarrow> Exits code (h'\<lparr>hd_state := hd_state h2, hd_rebase := hd_rebase h2\<rparr>)
      | r \<Rightarrow> r)"
    by (simp add: loop_iteration_def Inr h2_def [symmetric] Let_def)
  show ?thesis
  proof (cases "run_pipeline_step B (li_step i) h2")
    case (Goes_On h')
    with ok3 have h': "held_ok ?P h'" by simp
    note paused = state_ok_paused [OF held_ok_state [OF h'], of i]
    from Goes_On paused state_ok_reselected [OF paused] held_ok_update(1) [OF h'] show ?thesis
      by (simp add: step Let_def)
  next
    case (Exits c h')
    with ok3 ok2 show ?thesis by (simp add: step held_ok_def)
  qed (use ok3 in \<open>simp_all add: step\<close>)
qed

fun end_of :: "RunResult \<Rightarrow> Held" where
  "end_of (Finished c h) = h"
| "end_of (Stopped r) = held_of r"
| "end_of (Running h) = h"

lemma run_loop_ok:
  "held_ok (pb_pipeline B) h \<Longrightarrow> \<forall>i \<in> set is. keeps_policy (li_step i) \<Longrightarrow> held_ok (pb_pipeline B) (end_of (run_loop B is h))"
proof (induction B "is" h rule: run_loop.induct)
  case (2 B i "is" h)
  from iteration_ok [OF 2(2), of i] 2(3) have it: "held_ok (pb_pipeline B) (held_of (loop_iteration B i h))" by simp
  with 2 show ?case by (auto split: StepResult.split)
qed simp

text \<open>
  C2. Every run stays in bounds. A run of the whole loop on a well-formed policy, from the initial state, with a
  controller made for that policy, with any configuration, agents, workers, prompts, worktrees, clocks, failing steps and
  failing disks, for any number of iterations, where a reduction that raises leaves the controller its policy: wherever
  the run is or ends, it is in a phase the policy knows, remembers a phase the policy knows, and every declared loop
  counter lies between 0 and its cap; and the same holds of every state that a step, the loop or a wave of workers has
  given to a checkpoint. An interrupt by the user is not considered.
\<close>

theorem every_loop_stays_in_bounds:
  assumes "well_formed (pb_pipeline B)" and "rc_policy rc = Some (pb_pipeline B)"
    and "\<forall>i \<in> set is. keeps_policy (li_step i)"
    and "h = end_of (run_loop B is \<lparr>hd_state = resolve_initial_state config B None overrides, hd_rebase = r,
           hd_controller = rc, hd_sample = t, hd_saved = [], hd_wave_saved = []\<rparr>)"
    and "s = hd_state h \<or> s \<in> set (hd_saved h) \<or> s \<in> set (hd_wave_saved h)"
  shows "known_target (pb_pipeline B) (ps_phase s)
    \<and> (\<forall>p. ps_previous_phase s = Some p \<longrightarrow> known_target (pb_pipeline B) p)
    \<and> (\<forall>f c. dict_get (pp_loop_counters (pb_pipeline B)) f = Some c \<longrightarrow>
         0 \<le> get_loop_iteration s f \<and> get_loop_iteration s f \<le> lc_default_max c)"
proof -
  have "held_ok (pb_pipeline B) \<lparr>hd_state = resolve_initial_state config B None overrides, hd_rebase = r,
      hd_controller = rc, hd_sample = t, hd_saved = [], hd_wave_saved = []\<rparr>"
    using state_ok_created [OF assms(1)] assms(2) by (simp add: held_ok_def resolve_initial_state_def)
  from run_loop_ok [OF this assms(3)] assms(4,5) have "state_ok (pb_pipeline B) s" by (auto simp: held_ok_def)
  then show ?thesis by (auto simp: state_ok_def loops_in_range_def)
qed

theorem every_loop_stays_in_bounds_witness:
  "known_target (pb_pipeline solo_bundle) (ps_phase (hd_state (end_of (run_loop solo_bundle [demo_iteration, demo_iteration]
     \<lparr>hd_state = resolve_initial_state demo_config solo_bundle None [], hd_rebase = new_rebase_state,
      hd_controller = hd_controller solo_held, hd_sample = None, hd_saved = [], hd_wave_saved = []\<rparr>))))"
proof -
  have wf: "well_formed (pb_pipeline solo_bundle)" by (simp add: solo_bundle_def solo_well_formed)
  have pol: "rc_policy (hd_controller solo_held) = Some (pb_pipeline solo_bundle)" by code_simp
  have keeps: "\<forall>i \<in> set [demo_iteration, demo_iteration]. keeps_policy (li_step i)"
    by (simp add: keeps_policy_def demo_iteration_def demo_step_def)
  from every_loop_stays_in_bounds [OF wf pol keeps refl disjI1 [OF refl]] show ?thesis by blast
qed

end
