(* ===== verification/Spec2Isabelle.thy ===== *)
theory Spec2Isabelle
  imports Fan_Out Failure_Classifier Auto_Integration Config_Overlay Watchdog_Runs Process_Exit Run_Invariant
begin

text \<open>
  A verification development for Ralph Workflow (\<^verbatim>\<open>src/ralph-workflow/ralph/\<close>), a Python program that
  drives coding agents through a pipeline of phases declared by a policy document.

  \<^bold>\<open>The program.\<close> A TOML document is compiled and validated into a \<^verbatim>\<open>PipelinePolicy\<close>: named phases with
  roles, transitions, decision tables, analysis loops with counters, commit accounting, a cycle
  timebox and a failed route. The run is one immutable \<^verbatim>\<open>PipelineState\<close>. A loop asks the effect router
  what to do in the current phase, performs that effect (invoke an agent, commit, fan out to
  workers, exit), turns the result into an event, and gives the event to the \<^verbatim>\<open>reduce\<close> function, which
  computes the next state. A failed agent goes through the recovery controller, which classifies the
  failure, charges a budget, puts agents on cooldown, falls over along the chain of agents, and ends
  in the failed route when nothing is left; repeated rounds of that are bounded by a recovery cycle
  cap. After a commit and at phase boundaries the run's branch is integrated with a target branch, by
  rebase or merge, with an agent resolving conflicts on a budget. Some agent programs can only be
  configured through a file the operator owns, which a run overlays and puts back. While an agent runs,
  an idle watchdog looks at the signs of life it leaves and decides on every tick whether it goes on,
  waits for a child or is killed. When the agent's process has exited, a check decides whether the work is done,
  from a sentinel the agent leaves and the artifact it owes, and waits for children that still run.

  \<^bold>\<open>Theories, bottom up.\<close>
  \<^item> \<^verbatim>\<open>Ralph_Prelude\<close>: dictionaries in insertion order, exceptions as a sum type, the text renderings of
    f-strings, the locale of dictionaries.
  \<^item> \<^verbatim>\<open>Graph_Search\<close>: the stack-driven walk the code writes several times, with the proof that it
    computes reachability; a locale interpreted for each walk.
  \<^item> \<^verbatim>\<open>Policy_Model\<close> (\<^verbatim>\<open>policy/models/\<close>): the policy records and their validators. \<open>well_formed\<close> says that
    every validator accepts. \<^verbatim>\<open>Policy_Loader\<close> (\<^verbatim>\<open>policy/loader.py\<close>, \<^verbatim>\<open>policy/defaults/pipeline.toml\<close>): the
    compilation of blocks into phases, and the bundled policy, on which the witnesses are evaluated.
  \<^item> \<^verbatim>\<open>Pipeline_State\<close> (\<^verbatim>\<open>pipeline/state.py\<close> and its parts), \<^verbatim>\<open>Handoffs\<close> (\<^verbatim>\<open>pipeline/handoffs.py\<close>),
    \<^verbatim>\<open>Cycle_Timing\<close> (\<^verbatim>\<open>pipeline/cycle_timing.py\<close>), \<^verbatim>\<open>Progress\<close> (\<^verbatim>\<open>pipeline/progress.py\<close>), \<^verbatim>\<open>Worker_States\<close>
    (\<^verbatim>\<open>pipeline/_reducer_worker_state.py\<close>): state and pure routing functions.
  \<^item> \<^verbatim>\<open>Agent_Availability\<close>, \<^verbatim>\<open>Recovery_Types\<close>, \<^verbatim>\<open>Failure_Budgets\<close>, \<^verbatim>\<open>Recovery_Controller\<close> (\<^verbatim>\<open>recovery/\<close>): the
    cooldown store, failures and effects, budgets and repetition guards, and the controller.
  \<^item> \<^verbatim>\<open>Phase_Routing\<close> and \<^verbatim>\<open>Reducer\<close> (\<^verbatim>\<open>pipeline/reducer.py\<close>, \<^verbatim>\<open>pipeline/loopback.py\<close>): the routing seam all
    handlers share, the handlers and the dispatch. \<^verbatim>\<open>Reducer_Invariants\<close> and \<^verbatim>\<open>Reducer_Behaviour\<close>: what they
    guarantee.
  \<^item> \<^verbatim>\<open>Work_Units\<close> (\<^verbatim>\<open>pipeline/work_unit.py\<close>, \<^verbatim>\<open>pipeline/work_units.py\<close>): plans of parallel work and their
    validation. \<^verbatim>\<open>Parallel_Coordinator\<close> (\<^verbatim>\<open>pipeline/parallel/scheduler.py\<close>, \<^verbatim>\<open>parallel_coordinator.py\<close>): the waves
    of workers; the scheduler's contract is the locale \<open>wave_scheduler\<close>.
  \<^item> \<^verbatim>\<open>Effect_Router\<close> (\<^verbatim>\<open>pipeline/effect_router.py\<close>, \<^verbatim>\<open>pipeline/orchestrator.py\<close>, \<^verbatim>\<open>pipeline/state_init.py\<close>): what to do
    next, and where a run starts. \<^verbatim>\<open>Fan_Out\<close> (\<^verbatim>\<open>pipeline/fan_out.py\<close>): router, coordinator and reducer together.
  \<^item> \<^verbatim>\<open>Failure_Markers\<close> and \<^verbatim>\<open>Failure_Classifier\<close> (\<^verbatim>\<open>recovery/failure_details.py\<close>, \<^verbatim>\<open>recovery/failure_classifier.py\<close>): exceptions
    on a heap with their chains of causes, the vocabularies, the classifier, and the controller run with it.
  \<^item> \<^verbatim>\<open>Integration_State\<close> (\<^verbatim>\<open>pipeline/rebase_state.py\<close>, \<^verbatim>\<open>integration_resolution.py\<close>, \<^verbatim>\<open>auto_integrate_conflict_budget.py\<close> and
    their neighbours): the record of an integration, the dispatch gate, the resolver budget. \<^verbatim>\<open>Auto_Integration\<close>
    (\<^verbatim>\<open>pipeline/auto_integrate.py\<close>, \<^verbatim>\<open>auto_integrate_rebase_merge.py\<close>, \<^verbatim>\<open>auto_integrate_budget_seam.py\<close>): the two seams.
  \<^item> \<^verbatim>\<open>Json_Text\<close>: UTF-8, JSON and base64 as Python has them, with their round trips. \<^verbatim>\<open>Config_Overlay\<close>
    (\<^verbatim>\<open>mcp/transport/config_overlay.py\<close>, \<^verbatim>\<open>cursor.py\<close>, \<^verbatim>\<open>agy.py\<close>, \<^verbatim>\<open>kimi.py\<close>, \<^verbatim>\<open>mcp/artifacts/idempotent_write.py\<close>): the overlay of
    the operator's files, on a disk that can be left at any operation.
  \<^item> \<^verbatim>\<open>Watchdog_Policy\<close>, \<^verbatim>\<open>Repetition_Tracker\<close>, \<^verbatim>\<open>Idle_Watchdog\<close>, \<^verbatim>\<open>Watchdog_Verdicts\<close> (\<^verbatim>\<open>agents/idle_watchdog/\<close>): the limits
    and their validation, the breaker of repetitions, the recording of activity and the evaluation.
    \<^verbatim>\<open>Watchdog_Safety\<close> and \<^verbatim>\<open>Watchdog_Runs\<close>: what a kill means, and what holds over histories; the locale
    \<open>watchdog_steps\<close> lists the primitive changes and is interpreted for each invariant.
  \<^item> \<^verbatim>\<open>Child_Liveness\<close> (\<^verbatim>\<open>process/child_liveness.py\<close>): the registry of child agents. \<^verbatim>\<open>Execution_State\<close>
    (\<^verbatim>\<open>agents/execution_state/\<close>, \<^verbatim>\<open>agents/completion_signals.py\<close>, \<^verbatim>\<open>agents/invoke/_completion.py\<close>, the post-exit watchdog): how a quiet
    or exited agent is classified, and the check after an exit; the contract of a poll loop is the locale \<open>polling\<close>.
    \<^verbatim>\<open>Process_Exit\<close>: what that check guarantees.
  \<^item> \<^verbatim>\<open>Checkpoints\<close> (\<^verbatim>\<open>pipeline/checkpoint.py\<close>): saving and loading the state of a run, on the disk of the overlay.
    \<^verbatim>\<open>Run_Loop\<close> (\<^verbatim>\<open>pipeline/run_loop.py\<close>, \<^verbatim>\<open>pipeline/runner.py\<close>, \<^verbatim>\<open>_runner_state_helpers.py\<close>, \<^verbatim>\<open>_runner_session.py\<close>): one step, in which
    router, fan-out, integration, reducer and controller meet, and the loop. \<^verbatim>\<open>Run_Guarantees\<close>: why a run ends. \<^verbatim>\<open>Run_Invariant\<close>:
    the invariant of the reducer through the whole loop.

  \<^bold>\<open>What is shown.\<close> For policies that pass the validators: every event is total on reachable states and
  keeps the run in a declared phase with loop counters within their caps, for the reducer alone and
  with the controller, on single steps and on runs of any length; the recovery counter never passes
  its cap without an exit effect, and an exit is never caused by agents on cooldown alone, for clocks whose readings
  within one step are closer than the base back-off; fallback
  picks the first usable agent of the chain; cooldowns always end and the computed wait is exact; an
  expired cycle never enters the guarded phase again; the bypass of exhausted analysis phases ends
  on an open phase; commit accounting, execution-cycle counters, timer decisions and worker tables
  behave as stated. The router always decides and what it decides fits the state, in every state a
  run can reach. A plan is accepted exactly when it is a graph without cycles whose edit areas are
  disjoint; a fan-out of an accepted plan never deadlocks, never lets two running workers own the
  same file, and its events drive the run's worker table to the coordinator's own view. A watchdog
  kill is classified by its type wherever it sits in the chain of causes, whatever the messages say;
  the fields of a classification agree with each other. A phase boundary never launders an unresolved
  integration; the resolver is offered a conflict a bounded number of times between two landings; the
  dispatch gate follows the live repository where there is one, and the record of the run otherwise. Any number of killed
  runs leaves the operator's configuration recoverable, byte for byte, where the paths of the overlays are apart. The watchdog kills only for a reason whose deadline has
  passed and, apart from its two ceilings, only when nothing fresh speaks for the agent; a silent agent is
  killed while the network is up; all waiting on children in an invocation stays below its limit; stall reports alternate. An exit is
  accepted only with an authentic sentinel and the artifact that is due, the check ends, and the verdict on
  child agents agrees with their records. A checkpoint survives killed saves. Every run of the
  whole loop, with whatever its surroundings answer, stays in the phases of its policy with its counters in their caps, and so does
  every checkpoint it writes, those inside a wave of workers included. A run ends with exit code 0 only at its
  terminal phase with nothing left to integrate, and otherwise for a reason that the theorem states for each exit code and for each exception that leaves the loop; behind a closed
  integration gate no agent is asked and the step is handled as a crash. Where the code deviates from its documentation, a theorem shows the
  deviation.

  \<^bold>\<open>Modelling choices.\<close> A clock read is an argument: each operation takes the samples it reads, so the
  theorems hold for every clock, also one that jumps, unless a hypothesis on the samples is stated. Within one tick
  of the watchdog the readings after the first are one sample, and a monitor is asked once. Durations are exact rationals and Python
  integers are unbounded integers. An exception is the left part of a sum with its message. The
  classifier of failures is an argument of the controller, and the real one is passed where it matters.
  The only fuel is that of the JSON scanner, the length of the text, which each recursive call shortens;
  every other loop has a termination proof, and Python's recursion limit is not modelled. SHA-256 is a parameter without laws: the theorems hold also
  when digests collide. What git, a resolver or a remote answers is data over which theorems quantify. Concurrency of workers is the order of what reaches the coordinator: a list of
  arrivals, over which the theorems quantify. What the router reads from the workspace is a record.
  Log calls have no counterpart.

  \<^bold>\<open>Not modelled.\<close> Process and terminal handling of agents (the rest of \<^verbatim>\<open>agents/\<close>), the tool server (\<^verbatim>\<open>mcp/server\<close>, \<^verbatim>\<open>mcp/tools\<close>),
  display and command line (\<^verbatim>\<open>display/\<close>, \<^verbatim>\<open>cli/\<close>), git commands (\<^verbatim>\<open>git/\<close>), prompt rendering (\<^verbatim>\<open>prompts/\<close>),
  advisory file locks, the recovery of an integration that was killed half-way, interrupts by the user, and what executing
  an effect and handling a phase's artifacts do outside the state: they are input and output, or text
  processing by regular expressions, around what is modelled, and enter it as data. The state record of a run carries
  its integration record beside it (\<open>hd_rebase\<close>), not in it.
\<close>

text \<open>
  C3. The effect router chooses what the phase calls for, in every state a run from the
  initial state can reach, with the recovery controller and any clocks, on a well-formed policy:
  it exits successfully only in the terminal phase or before it, invokes an agent only in a declared
  working phase, with the agent the chain, the configuration or the policy names, never in an
  analysis phase whose loop is spent, and in a commit phase only before the agent ran and unless git
  reports a clean worktree; it commits only after the agent ran, skips a commit only when git reports a clean worktree,
  fans out only plans that passed validation, leaves the failed route towards another phase when the entry phase of the
  run is another one, and gives up only when no agent is configured or a plan cannot be run.
\<close>

theorem every_routed_effect_fits:
  assumes "well_formed P" and "rc_policy rc = Some P" and "pb_pipeline B = P"
    and "supervised.run P (rc, create_initial_state config ap P overrides) xs (rc', s)"
    and "determine_effect_from_policy s B config' env = Inr e"
  shows "effect_fits B config' env s e"
proof -
  have "run_inv_ok P s"
    using supervised.run_inv [OF assms(4)] created_run_inv [OF assms(1)] assms(2) by simp
  then have "known_target P (ps_phase s)" by (simp add: run_inv_ok_def)
  with assms routed_effect_spec show ?thesis by blast
qed

theorem every_routed_effect_fits_witness:
  "\<exists>e. determine_effect_from_policy (create_initial_state demo_config None default_policy [])
         (demo_bundle [''claude'']) (Some demo_config) demo_env = Inr e
     \<and> effect_fits (demo_bundle [''claude'']) (Some demo_config) demo_env
         (create_initial_state demo_config None default_policy []) e"
proof -
  let ?s = "create_initial_state demo_config None default_policy []"
  have "case determine_effect_from_policy ?s (demo_bundle [''claude'']) (Some demo_config) demo_env of
      Inl e \<Rightarrow> False | Inr e \<Rightarrow> True" by code_simp
  then obtain e where e: "determine_effect_from_policy ?s (demo_bundle [''claude'']) (Some demo_config) demo_env = Inr e"
    by (auto split: sum.splits)
  have B: "pb_pipeline (demo_bundle [''claude'']) = default_policy" by (simp add: demo_bundle_def)
  from every_routed_effect_fits [OF default_well_formed demo_controller_policy B supervised.run_nil e] e
  show ?thesis by blast
qed

end
